(* ===== verification/Prelude.thy ===== *)
theory Prelude
  imports Main "HOL-Library.AList" "HOL-Library.Word"
begin

text \<open>
  Shared vocabulary of the development: the parts of the Go language and of its standard library
  that the modelled packages use (instants and durations, byte strings, maps), the lemma
  collections the component theories fill, and the generic facts they share.
\<close>

named_theorems go_str \<open>characteristic facts of the string primitives\<close>
named_theorems go_map \<open>characteristic facts of association-list maps\<close>
named_theorems raft_frame \<open>fields that a Raft operation leaves alone\<close>
named_theorems raft_keeps \<open>preservation of the Raft node invariant, one rule per operation\<close>
named_theorems table_simps \<open>lookup equations of the routing table\<close>

section \<open>Instants and durations\<close>

text \<open>
  A \<open>time.Time\<close> is the number of nanoseconds since the zero instant, so \<open>time.Time{}\<close>
  is 0 and \<open>IsZero\<close> is equality with 0. A \<open>time.Duration\<close> is a signed 64-bit count
  of nanoseconds; \<open>Sub\<close> saturates at the two ends of that range, as the library documents.
\<close>

type_synonym go_time = int
type_synonym go_duration = int

definition zero_time :: go_time where
  "zero_time = 0"

definition max_duration :: go_duration where
  "max_duration = 2 ^ 63 - 1"

definition time_sub :: "go_time \<Rightarrow> go_time \<Rightarrow> go_duration" where
  "time_sub a b = max (- (2 ^ 63)) (min max_duration (a - b))"

text \<open>Signed 64-bit arithmetic wraps.\<close>

definition wrap64 :: "int \<Rightarrow> int" where
  "wrap64 x = (x + 2 ^ 63) mod 2 ^ 64 - 2 ^ 63"

definition ms :: "int \<Rightarrow> go_duration" where
  "ms n = n * 1000000"

lemma wrap64_id: "- (2 ^ 63) \<le> x \<Longrightarrow> x < 2 ^ 63 \<Longrightarrow> wrap64 x = x"
  by (simp add: wrap64_def)

lemma wrap64_range: "- (2 ^ 63) \<le> wrap64 x \<and> wrap64 x < 2 ^ 63"
proof -
  have "0 \<le> (x + 2 ^ 63) mod 2 ^ 64" and "(x + 2 ^ 63) mod 2 ^ 64 < (2 ^ 64 :: int)"
    by simp_all
  then show ?thesis by (simp add: wrap64_def)
qed

lemma time_sub_less: "0 < d \<Longrightarrow> d \<le> max_duration \<Longrightarrow> time_sub a b < d \<longleftrightarrow> a - b < d"
  by (auto simp: time_sub_def max_duration_def)

lemma time_sub_pos: "0 < time_sub a b \<longleftrightarrow> b < a"
  by (auto simp: time_sub_def max_duration_def)

section \<open>Maps\<close>

text \<open>
  A Go map is an association list in which each key occurs once. Go iterates over a map in an
  unspecified order; a model that iterates does so in the list's order, and the theorems that
  matter are stated through \<open>map_of\<close>, which does not depend on it.
\<close>

type_synonym ('k, 'v) gomap = "('k \<times> 'v) list"

abbreviation gm_keys :: "('k, 'v) gomap \<Rightarrow> 'k list" where
  "gm_keys m \<equiv> map fst m"

definition gm_ok :: "('k, 'v) gomap \<Rightarrow> bool" where
  "gm_ok m \<longleftrightarrow> distinct (map fst m)"

abbreviation gm_get :: "('k, 'v) gomap \<Rightarrow> 'k \<Rightarrow> 'v option" where
  "gm_get m k \<equiv> map_of m k"

abbreviation gm_set :: "'k \<Rightarrow> 'v \<Rightarrow> ('k, 'v) gomap \<Rightarrow> ('k, 'v) gomap" where
  "gm_set k v m \<equiv> AList.update k v m"

abbreviation gm_del :: "'k \<Rightarrow> ('k, 'v) gomap \<Rightarrow> ('k, 'v) gomap" where
  "gm_del k m \<equiv> AList.delete k m"

text \<open>Reading a missing key gives the zero value of the element type.\<close>

definition gm_get0 :: "('k, 'v) gomap \<Rightarrow> 'v \<Rightarrow> 'k \<Rightarrow> 'v" where
  "gm_get0 m z k = (case map_of m k of None \<Rightarrow> z | Some v \<Rightarrow> v)"

lemma gm_ok_Nil [simp, go_map]: "gm_ok []"
  by (simp add: gm_ok_def)

lemma gm_ok_set [simp, go_map]: "gm_ok m \<Longrightarrow> gm_ok (gm_set k v m)"
  by (simp add: gm_ok_def distinct_update)

lemma gm_ok_del [simp, go_map]: "gm_ok m \<Longrightarrow> gm_ok (gm_del k m)"
  by (simp add: gm_ok_def distinct_delete)

lemma gm_get_set [simp, go_map]: "gm_get (gm_set k v m) k' = (if k' = k then Some v else gm_get m k')"
  by (simp add: update_conv')

lemma gm_get_del [simp, go_map]: "gm_get (gm_del k m) k' = (if k' = k then None else gm_get m k')"
  by (simp add: delete_conv')

lemma gm_get0_set [simp, go_map]: "gm_get0 (gm_set k v m) z k' = (if k' = k then v else gm_get0 m z k')"
  by (simp add: gm_get0_def)

lemma gm_get_mem: "gm_ok m \<Longrightarrow> (k, v) \<in> set m \<longleftrightarrow> gm_get m k = Some v"
  by (simp add: gm_ok_def)

lemma gm_filter_get:
  "gm_ok m \<Longrightarrow> gm_get (filter (\<lambda>(k, v). P k) m) k = (if P k then gm_get m k else None)"
  by (induction m) (auto simp: gm_ok_def split: if_splits dest: weak_map_of_SomeI)

lemma gm_ok_filter: "gm_ok m \<Longrightarrow> gm_ok (filter P m)"
  by (simp add: gm_ok_def distinct_map_filter)

lemma gm_get_filter:
  "gm_ok m \<Longrightarrow> gm_get (filter (\<lambda>(k, v). P v) m) k = (case gm_get m k of None \<Rightarrow> None | Some v \<Rightarrow> if P v then Some v else None)"
proof (induction m)
  case (Cons x m)
  moreover obtain a b where x: "x = (a, b)" by (cases x)
  moreover have "gm_get m a = None" using Cons.prems by (simp add: gm_ok_def map_of_eq_None_iff x)
  ultimately show ?case by (auto simp: gm_ok_def)
qed simp

lemma gm_length_set: "length (gm_set k v m) = (if gm_get m k = None then Suc (length m) else length m)"
  by (induction m) auto

lemma gm_length_del: "gm_ok m \<Longrightarrow> k \<in> set (gm_keys m) \<Longrightarrow> Suc (length (gm_del k m)) = length m"
proof (induction m)
  case (Cons x m)
  then show ?case
  proof (cases "fst x = k")
    case True
    then have "gm_del k m = m" using Cons.prems by (simp add: AList.delete_idem gm_ok_def)
    then show ?thesis using True by (cases x) simp
  next
    case False
    then show ?thesis using Cons by (cases x) (simp add: gm_ok_def)
  qed
qed simp

lemma gm_card_keys: "gm_ok m \<Longrightarrow> card (set (gm_keys m)) = length m"
  unfolding gm_ok_def using distinct_card [of "map fst m"] by simp

text \<open>The interface a keyed store offers, and what follows from its laws alone.\<close>

locale keyed_store =
  fixes get :: "'m \<Rightarrow> 'k \<Rightarrow> 'v option"
    and put :: "'k \<Rightarrow> 'v \<Rightarrow> 'm \<Rightarrow> 'm"
    and del :: "'k \<Rightarrow> 'm \<Rightarrow> 'm"
    and ok :: "'m \<Rightarrow> bool"
  assumes get_put: "ok m \<Longrightarrow> get (put k v m) k' = (if k' = k then Some v else get m k')"
    and get_del: "ok m \<Longrightarrow> get (del k m) k' = (if k' = k then None else get m k')"
    and ok_put: "ok m \<Longrightarrow> ok (put k v m)"
    and ok_del: "ok m \<Longrightarrow> ok (del k m)"
begin

lemma get_put_all:
  "ok m \<Longrightarrow> get (fold (\<lambda>k. put k v) ks m) k' = (if k' \<in> set ks then Some v else get m k')"
proof (induction ks arbitrary: m)
  case Nil
  then show ?case by simp
next
  case (Cons k ks)
  then show ?case by (simp add: ok_put get_put)
qed

lemma ok_put_all: "ok m \<Longrightarrow> ok (fold (\<lambda>k. put k v) ks m)"
  by (induction ks arbitrary: m) (simp_all add: ok_put)

end

interpretation gm: keyed_store map_of AList.update AList.delete gm_ok
  by unfold_locales simp_all

section \<open>Lists\<close>

lemma count_remove1: "x \<in> set xs \<Longrightarrow> int (count_list (remove1 x xs) y) = int (count_list xs y) - of_bool (x = y)"
proof (induction xs)
  case (Cons a xs)
  then show ?case by (cases "a = x") (auto simp: of_bool_def)
qed simp

lemma nth_take_append:
  "i < length xs \<Longrightarrow> i < n \<Longrightarrow> (take n xs @ ys) ! i = xs ! i"
  by (simp add: nth_append)

lemma card_inter_nonempty:
  assumes "finite U" and "A \<subseteq> U" and "B \<subseteq> U" and "card U < card A + card B"
  shows "A \<inter> B \<noteq> {}"
proof
  assume "A \<inter> B = {}"
  moreover have "finite A" and "finite B"
    using assms finite_subset by auto
  ultimately have "card (A \<union> B) = card A + card B"
    by (simp add: card_Un_disjoint)
  moreover have "card (A \<union> B) \<le> card U"
    using assms by (intro card_mono) auto
  ultimately show False using assms(4) by simp
qed

lemma find_append: "find P (xs @ ys) = (case find P xs of None \<Rightarrow> find P ys | Some x \<Rightarrow> Some x)"
  by (induction xs) simp_all

lemma UN_image_support:
  assumes "\<And>b. b \<notin> f ` F \<Longrightarrow> g b = {}"
  shows "(\<Union>t\<in>F. g (f t)) = (\<Union>b. g b)"
proof (intro equalityI subsetI)
  fix x
  assume "x \<in> (\<Union>b. g b)"
  then obtain b where b: "x \<in> g b" by auto
  then have "b \<in> f ` F" using assms [of b] by auto
  with b show "x \<in> (\<Union>t\<in>F. g (f t))" by auto
qed auto

lemma funpow_numeral: "(f ^^ numeral n) x = f ((f ^^ pred_numeral n) x)"
  by (simp add: numeral_eq_Suc)

lemma find_SomeD: "find P xs = Some x \<Longrightarrow> x \<in> set xs \<and> P x"
  by (induction xs) (auto split: if_splits)

section \<open>Telling many values apart\<close>

text \<open>Sorting that drops repetitions: the values differ if none was dropped. This takes far fewer comparisons than \<open>distinct\<close>.\<close>

fun strict_sort :: "int list \<Rightarrow> int list" where
  "strict_sort [] = []"
| "strict_sort (x # xs) = strict_sort (filter (\<lambda>y. y < x) xs) @ x # strict_sort (filter (\<lambda>y. x < y) xs)"

definition all_differ :: "int list \<Rightarrow> bool" where
  "all_differ xs \<longleftrightarrow> length (strict_sort xs) = length xs"

lemma set_strict_sort: "set (strict_sort xs) = set xs"
proof (induction xs rule: strict_sort.induct)
  case (2 x xs)
  have "y = x \<or> y < x \<or> x < y" for y :: int by linarith
  then have "{y \<in> set xs. y < x} \<union> insert x {y \<in> set xs. x < y} = insert x (set xs)" by blast
  then show ?case by (simp add: 2)
qed simp
lemma distinct_strict_sort: "distinct (strict_sort xs)"
  by (induction xs rule: strict_sort.induct) (simp_all add: set_strict_sort disjoint_iff)
lemma all_differ_distinct: "all_differ xs \<Longrightarrow> distinct xs"
  using distinct_card [OF distinct_strict_sort, of xs] by (simp add: all_differ_def set_strict_sort card_distinct)

lemma distinct_by_hash: "all_differ (map (\<lambda>x. h (f x)) xs) \<Longrightarrow> distinct (map f xs)"
  using distinct_map [of h "map f xs"] by (simp add: all_differ_distinct comp_def)

end
