(* ===== verification/Raft.thy ===== *)
theory Raft
  imports Prelude
begin

text \<open>
  The Raft node of \<open>internal/edge/raft\<close> (\<open>types.go\<close>, \<open>raft.go\<close>): its state as a record
  and one definition per critical section of the code (a stretch of code between
  \<open>n.mu.Lock()\<close> and \<open>n.mu.Unlock()\<close>). What a goroutine does between two critical sections
  is left to the caller of these definitions, so that any interleaving can be composed from them.

  Terms and indices (\<open>uint64\<close>) are natural numbers; the one place that could leave the 64-bit
  range, the increment of the term in \<open>campaign\<close> and in the pre-vote request, is written with its wrap-around. A buffered
  channel of capacity 1 with non-blocking send is a Boolean: a signal is pending or not. The
  calls of \<open>ApplyFunc\<close> are recorded, in order, in the field \<open>applied\<close>.
\<close>

section \<open>Data (types.go)\<close>

datatype raft_state = Follower | Candidate | Leader

fun state_String :: "raft_state \<Rightarrow> string" where
  "state_String Follower = ''follower''"
| "state_String Candidate = ''candidate''"
| "state_String Leader = ''leader''"

record LogEntry =
  le_Index :: nat
  le_Term :: nat
  le_Command :: "8 word list"

record RequestVoteArgs =
  rv_Term :: nat
  rv_CandidateID :: string
  rv_LastLogIndex :: nat
  rv_LastLogTerm :: nat
  rv_PreVote :: bool

record RequestVoteReply =
  rvr_Term :: nat
  rvr_VoteGranted :: bool

record AppendEntriesArgs =
  ae_Term :: nat
  ae_LeaderID :: string
  ae_PrevLogIndex :: nat
  ae_PrevLogTerm :: nat
  ae_Entries :: "LogEntry list"
  ae_LeaderCommit :: nat

record AppendEntriesReply =
  aer_Term :: nat
  aer_Success :: bool
  aer_ConflictIndex :: nat

record raft_config =
  cfg_ID :: string
  cfg_Peers :: "(string, string) gomap"
  cfg_ElectionTimeoutMin :: go_duration
  cfg_ElectionTimeoutMax :: go_duration
  cfg_HeartbeatInterval :: go_duration
  cfg_ApplyFunc :: bool

section \<open>The node (raft.go)\<close>

record raft_node =
  cfg :: raft_config
  state :: raft_state
  currentTerm :: nat
  votedFor :: string
  logEntries :: "LogEntry list"
  commitIndex :: nat
  lastApplied :: nat
  nextIndex :: "(string, nat) gomap"
  matchIndex :: "(string, nat) gomap"
  leaderID :: string
  lastLeaderContact :: go_time
  preVoteRunning :: bool
  lastNoQuorumLog :: go_time
  noQuorumStreak :: nat
  electionResetCh :: bool
  leaderCh :: bool
  applied :: "LogEntry list"

definition withoutSelf :: "string \<Rightarrow> (string, string) gomap \<Rightarrow> (string, string) gomap" where
  "withoutSelf self peers = filter (\<lambda>(id, url). id \<noteq> self) peers"

definition sentinel :: LogEntry where
  "sentinel = \<lparr>le_Index = 0, le_Term = 0, le_Command = []\<rparr>"

definition with_defaults :: "raft_config \<Rightarrow> raft_config" where
  "with_defaults c = c\<lparr>
     cfg_ElectionTimeoutMin := if cfg_ElectionTimeoutMin c = 0 then ms 150 else cfg_ElectionTimeoutMin c,
     cfg_ElectionTimeoutMax := if cfg_ElectionTimeoutMax c = 0 then ms 300 else cfg_ElectionTimeoutMax c,
     cfg_HeartbeatInterval := if cfg_HeartbeatInterval c = 0 then ms 50 else cfg_HeartbeatInterval c,
     cfg_Peers := withoutSelf (cfg_ID c) (cfg_Peers c)\<rparr>"

definition NewNode :: "raft_config \<Rightarrow> raft_node" where
  "NewNode c = \<lparr>
     cfg = with_defaults c, state = Follower, currentTerm = 0, votedFor = [],
     logEntries = [sentinel], commitIndex = 0, lastApplied = 0, nextIndex = [], matchIndex = [],
     leaderID = [], lastLeaderContact = zero_time, preVoteRunning = False,
     lastNoQuorumLog = zero_time, noQuorumStreak = 0, electionResetCh = False, leaderCh = False,
     applied = []\<rparr>"

abbreviation nodeID :: "raft_node \<Rightarrow> string" where
  "nodeID n \<equiv> cfg_ID (cfg n)"

abbreviation peers :: "raft_node \<Rightarrow> (string, string) gomap" where
  "peers n \<equiv> cfg_Peers (cfg n)"

definition IsLeader :: "raft_node \<Rightarrow> bool" where
  "IsLeader n \<longleftrightarrow> state n = Leader"

definition UpdatePeers :: "(string, string) gomap \<Rightarrow> raft_node \<Rightarrow> raft_node" where
  "UpdatePeers ps n = n\<lparr>cfg := (cfg n)\<lparr>cfg_Peers := withoutSelf (nodeID n) ps\<rparr>\<rparr>"

text \<open>\<open>Propose\<close>: the error carries the leader known at that moment.\<close>

datatype raft_error = ErrNotLeader string

definition err_Error :: "raft_error \<Rightarrow> string" where
  "err_Error e = (case e of ErrNotLeader l \<Rightarrow>
     if l = [] then ''raft: pas de leader connu''
     else ''raft: n'' @ [CHR 0xC5, CHR 0x93] @ ''ud non-leader, leader='' @ l)"

definition Propose :: "8 word list \<Rightarrow> raft_node \<Rightarrow> raft_error + raft_node" where
  "Propose command n =
     (if state n \<noteq> Leader then Inl (ErrNotLeader (leaderID n))
      else Inr (n\<lparr>logEntries := logEntries n @
                   [\<lparr>le_Index = length (logEntries n), le_Term = currentTerm n, le_Command = command\<rparr>]\<rparr>))"

section \<open>Election\<close>

definition signalElectionReset :: "raft_node \<Rightarrow> raft_node" where
  "signalElectionReset n = n\<lparr>electionResetCh := True\<rparr>"

definition stepDown :: "nat \<Rightarrow> raft_node \<Rightarrow> raft_node" where
  "stepDown term n = signalElectionReset (n\<lparr>state := Follower, currentTerm := term, votedFor := []\<rparr>)"

definition lastLogIndex :: "raft_node \<Rightarrow> nat" where
  "lastLogIndex n = length (logEntries n) - 1"

definition lastLogTerm :: "raft_node \<Rightarrow> nat" where
  "lastLogTerm n = le_Term (logEntries n ! lastLogIndex n)"

definition quorum :: "(string, string) gomap \<Rightarrow> nat" where
  "quorum ps = (length ps + 1) div 2 + 1"

text \<open>
  \<open>startElection\<close> either campaigns at once (no peer), starts a pre-vote with a snapshot of the
  node, or does nothing because a pre-vote is running.
\<close>

datatype election_start =
    StartCampaign nat go_time
  | StartPreVote "(string, string) gomap" RequestVoteArgs
  | StartNothing

definition preVoteArgs :: "raft_node \<Rightarrow> RequestVoteArgs" where
  "preVoteArgs n = \<lparr>rv_Term = (currentTerm n + 1) mod 2 ^ 64, rv_CandidateID = nodeID n,
     rv_LastLogIndex = lastLogIndex n, rv_LastLogTerm = lastLogTerm n, rv_PreVote = True\<rparr>"

definition startElection :: "raft_node \<Rightarrow> election_start \<times> raft_node" where
  "startElection n =
     (if peers n = [] then (StartCampaign (currentTerm n) zero_time, n)
      else if preVoteRunning n then (StartNothing, n)
      else (StartPreVote (peers n) (preVoteArgs n), n\<lparr>preVoteRunning := True\<rparr>))"

definition logNoQuorum :: "go_time \<Rightarrow> raft_node \<Rightarrow> raft_node" where
  "logNoQuorum now n =
     (if ms 60000 < time_sub now (lastNoQuorumLog n) then n\<lparr>lastNoQuorumLog := now\<rparr> else n)"

text \<open>
  \<open>preVote\<close> reads the replies in the order they arrive (\<open>None\<close> is a transport error). The
  result says whether a majority would vote for this node; a reply with a newer term makes the
  node step down and ends the pre-vote.
\<close>

fun preVote_loop ::
  "nat \<Rightarrow> nat \<Rightarrow> go_time \<Rightarrow> RequestVoteReply option list \<Rightarrow> nat \<Rightarrow> raft_node \<Rightarrow> bool \<times> raft_node" where
  "preVote_loop term quo now [] granted n = (False, logNoQuorum now n)"
| "preVote_loop term quo now (None # rs) granted n = preVote_loop term quo now rs granted n"
| "preVote_loop term quo now (Some r # rs) granted n =
     (if term < rvr_Term r then
        (False, if currentTerm n < rvr_Term r then stepDown (rvr_Term r) n else n)
      else if rvr_VoteGranted r then
        (if quo \<le> granted + 1 then (True, n) else preVote_loop term quo now rs (granted + 1) n)
      else preVote_loop term quo now rs granted n)"

definition preVote ::
  "(string, string) gomap \<Rightarrow> nat \<Rightarrow> go_time \<Rightarrow> RequestVoteReply option list \<Rightarrow> raft_node \<Rightarrow> bool \<times> raft_node" where
  "preVote ps term now replies n = preVote_loop term (quorum ps) now replies 1 n"

definition maxBackoffShift :: nat where
  "maxBackoffShift = 4"

text \<open>The end of the goroutine \<open>startElection\<close> starts, before it campaigns.\<close>

definition preVoteDone :: "bool \<Rightarrow> raft_node \<Rightarrow> raft_node" where
  "preVoteDone ok n =
     (if ok then n\<lparr>noQuorumStreak := 0\<rparr>
      else if noQuorumStreak n < maxBackoffShift then n\<lparr>noQuorumStreak := noQuorumStreak n + 1\<rparr>
      else n)"

definition becomeLeader :: "nat \<Rightarrow> raft_node \<Rightarrow> raft_node" where
  "becomeLeader term n =
     (if state n \<noteq> Candidate \<or> currentTerm n \<noteq> term then n
      else n\<lparr>state := Leader, leaderID := nodeID n,
             nextIndex := fold (\<lambda>pid. gm_set pid (length (logEntries n))) (gm_keys (peers n)) (nextIndex n),
             matchIndex := fold (\<lambda>pid. gm_set pid 0) (gm_keys (peers n)) (matchIndex n),
             leaderCh := True\<rparr>)"

text \<open>
  \<open>campaign\<close> returns the vote request it sends to every peer, or \<open>None\<close> when it gives up. With no
  peer the single vote is a majority and the node is leader at once.
\<close>

definition campaign_guard :: "nat \<Rightarrow> go_time \<Rightarrow> raft_node \<Rightarrow> bool" where
  "campaign_guard expectedTerm since n \<longleftrightarrow>
     \<not> (currentTerm n \<noteq> expectedTerm \<or> state n = Leader \<or> since < lastLeaderContact n)"

definition voteArgs :: "raft_node \<Rightarrow> RequestVoteArgs" where
  "voteArgs n = \<lparr>rv_Term = currentTerm n, rv_CandidateID = nodeID n,
     rv_LastLogIndex = lastLogIndex n, rv_LastLogTerm = lastLogTerm n, rv_PreVote = False\<rparr>"

definition candidacy :: "raft_node \<Rightarrow> raft_node" where
  "candidacy n = n\<lparr>state := Candidate, currentTerm := (currentTerm n + 1) mod 2 ^ 64,
                   votedFor := nodeID n\<rparr>"

definition campaign :: "nat \<Rightarrow> go_time \<Rightarrow> raft_node \<Rightarrow> RequestVoteArgs option \<times> raft_node" where
  "campaign expectedTerm since n =
     (if \<not> campaign_guard expectedTerm since n then (None, n)
      else let n1 = candidacy n in
        if quorum (peers n1) \<le> 1 then (None, becomeLeader (currentTerm n1) n1)
        else (Some (voteArgs n1), n1))"

text \<open>
  A vote reply, as the goroutine of one peer treats it: the first critical section may step down
  and end the goroutine; otherwise a granted vote is counted in the campaign's own counter and,
  on a majority, \<open>becomeLeader\<close> is called (a critical section of its own).
\<close>

definition voteReply :: "RequestVoteReply \<Rightarrow> raft_node \<Rightarrow> bool \<times> raft_node" where
  "voteReply reply n =
     (if currentTerm n < rvr_Term reply then (False, stepDown (rvr_Term reply) n) else (True, n))"

definition countVote :: "RequestVoteReply \<Rightarrow> nat \<Rightarrow> nat" where
  "countVote reply votes = (if rvr_VoteGranted reply then votes + 1 else votes)"

section \<open>AppendEntries\<close>

text \<open>
  \<open>broadcastAppendEntries\<close>: the snapshot taken under the lock, then for each peer the request
  built under the lock again. The log may have changed in between; \<open>n.logEntries[ni:]\<close> with
  \<open>ni\<close> past the end panics, which is \<open>None\<close>.
\<close>

record broadcast =
  bc_term :: nat
  bc_leaderCommit :: nat
  bc_logLen :: nat
  bc_peers :: "(string, string) gomap"

definition broadcastStart :: "raft_node \<Rightarrow> broadcast option" where
  "broadcastStart n =
     (if state n \<noteq> Leader then None
      else Some \<lparr>bc_term = currentTerm n, bc_leaderCommit = commitIndex n,
                 bc_logLen = length (logEntries n), bc_peers = peers n\<rparr>)"

definition nextFor :: "raft_node \<Rightarrow> string \<Rightarrow> nat" where
  "nextFor n pid = (let ni = gm_get0 (nextIndex n) 0 pid in if ni = 0 then 1 else ni)"

definition appendArgs :: "broadcast \<Rightarrow> string \<Rightarrow> raft_node \<Rightarrow> AppendEntriesArgs option" where
  "appendArgs b pid n =
     (let ni = nextFor n pid;
          prev = ni - 1;
          prevTerm = (if prev < length (logEntries n) then le_Term (logEntries n ! prev) else 0);
          args = (\<lambda>es. \<lparr>ae_Term = bc_term b, ae_LeaderID = nodeID n, ae_PrevLogIndex = prev,
                        ae_PrevLogTerm = prevTerm, ae_Entries = es, ae_LeaderCommit = bc_leaderCommit b\<rparr>)
      in if ni < bc_logLen b then
           (if ni \<le> length (logEntries n) then Some (args (drop ni (logEntries n))) else None)
         else Some (args []))"

definition replicatedOn :: "raft_node \<Rightarrow> nat \<Rightarrow> nat" where
  "replicatedOn n idx = 1 + length (filter (\<lambda>(pid, mi). idx \<le> mi) (matchIndex n))"

function maybeCommit_scan :: "raft_node \<Rightarrow> nat \<Rightarrow> nat option" where
  "maybeCommit_scan n idx =
     (if commitIndex n < idx then
        (if le_Term (logEntries n ! idx) \<noteq> currentTerm n then maybeCommit_scan n (idx - 1)
         else if (length (peers n) + 1) div 2 < replicatedOn n idx then Some idx
         else maybeCommit_scan n (idx - 1))
      else None)"
  by pat_completeness auto
termination
  by (relation "measure (\<lambda>(n, idx). idx)") auto

declare maybeCommit_scan.simps [simp del]

definition maybeCommit :: "raft_node \<Rightarrow> raft_node" where
  "maybeCommit n =
     (case maybeCommit_scan n (length (logEntries n) - 1) of
        None \<Rightarrow> n | Some idx \<Rightarrow> n\<lparr>commitIndex := idx\<rparr>)"

text \<open>
  A reply of peer \<open>pid\<close> to \<open>args\<close>; \<open>replicated\<close> is the broadcast's own counter. The result is
  the new counter and the new node.
\<close>

definition appendReply ::
  "broadcast \<Rightarrow> string \<Rightarrow> AppendEntriesArgs \<Rightarrow> AppendEntriesReply \<Rightarrow> nat \<Rightarrow> raft_node \<Rightarrow> nat \<times> raft_node" where
  "appendReply b pid args reply replicated n =
     (if currentTerm n < aer_Term reply then (replicated, stepDown (aer_Term reply) n)
      else if state n \<noteq> Leader then (replicated, n)
      else if aer_Success reply then
        (let newMatch = ae_PrevLogIndex args + length (ae_Entries args);
             n1 = (if gm_get0 (matchIndex n) 0 pid < newMatch
                   then n\<lparr>matchIndex := gm_set pid newMatch (matchIndex n),
                          nextIndex := gm_set pid (newMatch + 1) (nextIndex n)\<rparr>
                   else n);
             replicated' = replicated + 1
         in (replicated', if quorum (bc_peers b) \<le> replicated' then maybeCommit n1 else n1))
      else if 0 < aer_ConflictIndex reply then
        (replicated, n\<lparr>nextIndex := gm_set pid (aer_ConflictIndex reply) (nextIndex n)\<rparr>)
      else if 1 < gm_get0 (nextIndex n) 0 pid then
        (replicated, n\<lparr>nextIndex := gm_set pid (gm_get0 (nextIndex n) 0 pid - 1) (nextIndex n)\<rparr>)
      else (replicated, n))"

section \<open>Application\<close>

text \<open>
  One turn of the inner loop of \<open>applyLoop\<close>: nothing to do, an index past the log (a panic in
  Go), or one entry handed to \<open>ApplyFunc\<close>.
\<close>

datatype apply_result = ApplyIdle | ApplyPanic | Applied raft_node

definition applyOne :: "raft_node \<Rightarrow> apply_result" where
  "applyOne n =
     (if \<not> lastApplied n < commitIndex n then ApplyIdle
      else let i = lastApplied n + 1 in
        if \<not> i < length (logEntries n) then ApplyPanic
        else Applied (n\<lparr>lastApplied := i,
                        applied := (if cfg_ApplyFunc (cfg n) then applied n @ [logEntries n ! i]
                                    else applied n)\<rparr>))"

function applyAll :: "raft_node \<Rightarrow> raft_node option" where
  "applyAll n = (case applyOne n of ApplyIdle \<Rightarrow> Some n | ApplyPanic \<Rightarrow> None | Applied n' \<Rightarrow> applyAll n')"
  by pat_completeness auto
termination
  by (relation "measure (\<lambda>n. commitIndex n - lastApplied n)")
    (auto simp: applyOne_def Let_def split: if_splits)

declare applyAll.simps [simp del]

section \<open>Incoming requests\<close>

definition logOK :: "RequestVoteArgs \<Rightarrow> raft_node \<Rightarrow> bool" where
  "logOK args n \<longleftrightarrow>
     lastLogTerm n < rv_LastLogTerm args \<or>
     (rv_LastLogTerm args = lastLogTerm n \<and> lastLogIndex n \<le> rv_LastLogIndex args)"

definition leaderAlive :: "go_time \<Rightarrow> raft_node \<Rightarrow> bool" where
  "leaderAlive now n \<longleftrightarrow>
     state n = Leader \<or> time_sub now (lastLeaderContact n) < cfg_ElectionTimeoutMin (cfg n)"

definition HandleRequestVote ::
  "go_time \<Rightarrow> RequestVoteArgs \<Rightarrow> raft_node \<Rightarrow> RequestVoteReply \<times> raft_node" where
  "HandleRequestVote now args n =
     (if rv_PreVote args then
        (\<lparr>rvr_Term = currentTerm n,
          rvr_VoteGranted = (currentTerm n < rv_Term args \<and> logOK args n \<and> \<not> leaderAlive now n)\<rparr>, n)
      else if rv_Term args < currentTerm n then
        (\<lparr>rvr_Term = currentTerm n, rvr_VoteGranted = False\<rparr>, n)
      else
        let n1 = (if currentTerm n < rv_Term args then stepDown (rv_Term args) n else n) in
        if (votedFor n1 = [] \<or> votedFor n1 = rv_CandidateID args) \<and> logOK args n then
          (\<lparr>rvr_Term = currentTerm n1, rvr_VoteGranted = True\<rparr>,
           signalElectionReset (n1\<lparr>votedFor := rv_CandidateID args\<rparr>))
        else (\<lparr>rvr_Term = currentTerm n1, rvr_VoteGranted = False\<rparr>, n1))"

text \<open>The loop that appends the new entries, from index \<open>idx\<close> on.\<close>

fun mergeEntries :: "nat \<Rightarrow> LogEntry list \<Rightarrow> LogEntry list \<Rightarrow> LogEntry list" where
  "mergeEntries idx [] lg = lg"
| "mergeEntries idx (e # es) lg =
     (if idx < length lg then
        (if le_Term (lg ! idx) \<noteq> le_Term e then take idx lg @ (e # es)
         else mergeEntries (idx + 1) es lg)
      else lg @ (e # es))"

definition appendAccept :: "AppendEntriesArgs \<Rightarrow> raft_node \<Rightarrow> raft_node" where
  "appendAccept args n =
     (let n1 = n\<lparr>logEntries := mergeEntries (ae_PrevLogIndex args + 1) (ae_Entries args) (logEntries n)\<rparr>;
          lastNew = ae_PrevLogIndex args + length (ae_Entries args)
      in if commitIndex n1 < ae_LeaderCommit args
         then n1\<lparr>commitIndex := (if ae_LeaderCommit args < lastNew then ae_LeaderCommit args else lastNew)\<rparr>
         else n1)"

definition prevMatches :: "AppendEntriesArgs \<Rightarrow> raft_node \<Rightarrow> bool" where
  "prevMatches args n \<longleftrightarrow>
     \<not> (length (logEntries n) \<le> ae_PrevLogIndex args \<or>
        le_Term (logEntries n ! ae_PrevLogIndex args) \<noteq> ae_PrevLogTerm args)"

definition HandleAppendEntries ::
  "go_time \<Rightarrow> AppendEntriesArgs \<Rightarrow> raft_node \<Rightarrow> AppendEntriesReply \<times> raft_node" where
  "HandleAppendEntries now args n =
     (if ae_Term args < currentTerm n then
        (\<lparr>aer_Term = currentTerm n, aer_Success = False, aer_ConflictIndex = 0\<rparr>, n)
      else
        let n1 = (if currentTerm n < ae_Term args \<or> state n = Candidate
                  then stepDown (ae_Term args) n else n);
            n2 = signalElectionReset (n1\<lparr>leaderID := ae_LeaderID args, lastLeaderContact := now,
                                         noQuorumStreak := 0\<rparr>)
        in if \<not> prevMatches args n2 then
             (\<lparr>aer_Term = currentTerm n, aer_Success = False,
               aer_ConflictIndex = length (logEntries n2) - 1\<rparr>, n2)
           else
             (\<lparr>aer_Term = currentTerm n2, aer_Success = True, aer_ConflictIndex = 0\<rparr>,
              appendAccept args n2))"

section \<open>Timeouts\<close>

text \<open>
  \<open>randomElectionTimeout\<close>: \<open>rand.Int63n(max-min)\<close> panics (\<open>None\<close>) unless its argument is
  positive; \<open>r\<close> is the number it returns. The shift is on a signed 64-bit duration.
\<close>

definition randomElectionTimeout :: "int \<Rightarrow> raft_node \<Rightarrow> go_duration option" where
  "randomElectionTimeout r n =
     (let lo = cfg_ElectionTimeoutMin (cfg n); hi = cfg_ElectionTimeoutMax (cfg n) in
      if wrap64 (hi - lo) \<le> 0 then None
      else Some (wrap64 (wrap64 (lo + r) * 2 ^ noQuorumStreak n)))"

end
