(* ===== verification/Raft_Node.thy ===== *)
theory Raft_Node
  imports Raft
begin

text \<open>
  What one Raft node guarantees: the well-formedness invariant that keeps every index access of
  the code in range, monotone terms and commit indices, the effect of a successful
  \<open>AppendEntries\<close> on the log, the commit rule of \<open>maybeCommit\<close>, in-order application, and the
  bounds of the randomised election timeout.
\<close>

section \<open>Frame facts\<close>

lemma stepDown_simps [simp, raft_frame]:
  "state (stepDown t n) = Follower" "currentTerm (stepDown t n) = t" "votedFor (stepDown t n) = []"
  "cfg (stepDown t n) = cfg n" "logEntries (stepDown t n) = logEntries n"
  "commitIndex (stepDown t n) = commitIndex n" "lastApplied (stepDown t n) = lastApplied n"
  "nextIndex (stepDown t n) = nextIndex n" "matchIndex (stepDown t n) = matchIndex n"
  "noQuorumStreak (stepDown t n) = noQuorumStreak n" "applied (stepDown t n) = applied n"
  "lastLeaderContact (stepDown t n) = lastLeaderContact n"
  by (simp_all add: stepDown_def signalElectionReset_def)

lemma signal_simps [simp, raft_frame]:
  "state (signalElectionReset n) = state n" "currentTerm (signalElectionReset n) = currentTerm n"
  "votedFor (signalElectionReset n) = votedFor n" "cfg (signalElectionReset n) = cfg n"
  "logEntries (signalElectionReset n) = logEntries n" "commitIndex (signalElectionReset n) = commitIndex n"
  "lastApplied (signalElectionReset n) = lastApplied n" "nextIndex (signalElectionReset n) = nextIndex n"
  "matchIndex (signalElectionReset n) = matchIndex n" "noQuorumStreak (signalElectionReset n) = noQuorumStreak n"
  "applied (signalElectionReset n) = applied n"
  "lastLeaderContact (signalElectionReset n) = lastLeaderContact n"
  "leaderID (signalElectionReset n) = leaderID n"
  by (simp_all add: signalElectionReset_def)

lemma logNoQuorum_simps [simp, raft_frame]:
  "state (logNoQuorum t n) = state n" "currentTerm (logNoQuorum t n) = currentTerm n"
  "votedFor (logNoQuorum t n) = votedFor n" "cfg (logNoQuorum t n) = cfg n"
  "logEntries (logNoQuorum t n) = logEntries n" "commitIndex (logNoQuorum t n) = commitIndex n"
  "lastApplied (logNoQuorum t n) = lastApplied n" "nextIndex (logNoQuorum t n) = nextIndex n"
  "matchIndex (logNoQuorum t n) = matchIndex n" "noQuorumStreak (logNoQuorum t n) = noQuorumStreak n"
  "applied (logNoQuorum t n) = applied n"
  by (simp_all add: logNoQuorum_def)

lemma candidacy_simps [simp, raft_frame]:
  "state (candidacy n) = Candidate" "currentTerm (candidacy n) = (currentTerm n + 1) mod 2 ^ 64"
  "votedFor (candidacy n) = nodeID n" "cfg (candidacy n) = cfg n"
  "logEntries (candidacy n) = logEntries n" "commitIndex (candidacy n) = commitIndex n"
  "lastApplied (candidacy n) = lastApplied n" "nextIndex (candidacy n) = nextIndex n"
  "matchIndex (candidacy n) = matchIndex n" "noQuorumStreak (candidacy n) = noQuorumStreak n"
  "applied (candidacy n) = applied n"
  by (simp_all add: candidacy_def)

lemma becomeLeader_simps [simp, raft_frame]:
  "currentTerm (becomeLeader t n) = currentTerm n" "votedFor (becomeLeader t n) = votedFor n"
  "cfg (becomeLeader t n) = cfg n" "logEntries (becomeLeader t n) = logEntries n"
  "commitIndex (becomeLeader t n) = commitIndex n" "lastApplied (becomeLeader t n) = lastApplied n"
  "noQuorumStreak (becomeLeader t n) = noQuorumStreak n" "applied (becomeLeader t n) = applied n"
  by (simp_all add: becomeLeader_def)

lemma maybeCommit_simps [simp, raft_frame]:
  "state (maybeCommit n) = state n" "currentTerm (maybeCommit n) = currentTerm n"
  "votedFor (maybeCommit n) = votedFor n" "cfg (maybeCommit n) = cfg n"
  "logEntries (maybeCommit n) = logEntries n" "lastApplied (maybeCommit n) = lastApplied n"
  "nextIndex (maybeCommit n) = nextIndex n" "matchIndex (maybeCommit n) = matchIndex n"
  "noQuorumStreak (maybeCommit n) = noQuorumStreak n" "applied (maybeCommit n) = applied n"
  by (simp_all add: maybeCommit_def split: option.split)

lemma appendAccept_simps [simp, raft_frame]:
  "state (appendAccept a n) = state n" "currentTerm (appendAccept a n) = currentTerm n"
  "votedFor (appendAccept a n) = votedFor n" "cfg (appendAccept a n) = cfg n"
  "lastApplied (appendAccept a n) = lastApplied n" "nextIndex (appendAccept a n) = nextIndex n"
  "matchIndex (appendAccept a n) = matchIndex n" "noQuorumStreak (appendAccept a n) = noQuorumStreak n"
  "applied (appendAccept a n) = applied n"
  "logEntries (appendAccept a n) = mergeEntries (ae_PrevLogIndex a + 1) (ae_Entries a) (logEntries n)"
  by (simp_all add: appendAccept_def Let_def)

lemma commitIndex_appendAccept:
  "commitIndex (appendAccept a n) =
     (if commitIndex n < ae_LeaderCommit a
      then min (ae_LeaderCommit a) (ae_PrevLogIndex a + length (ae_Entries a)) else commitIndex n)"
  by (auto simp: appendAccept_def Let_def)

section \<open>Merging entries into a log\<close>

lemma mergeEntries_take: "idx \<le> length lg \<Longrightarrow> take idx (mergeEntries idx es lg) = take idx lg"
proof (induction idx es lg rule: mergeEntries.induct)
  case (2 idx e es lg)
  show ?case
  proof (cases "idx < length lg \<and> le_Term (lg ! idx) = le_Term e")
    case True
    with 2 have "take (idx + 1) (mergeEntries (idx + 1) es lg) = take (idx + 1) lg" by simp
    then have "take idx (mergeEntries (idx + 1) es lg) = take idx lg"
      by (metis le_add1 min.absorb1 take_take)
    with True show ?thesis by simp
  next
    case False
    with 2(2) show ?thesis by auto
  qed
qed simp

lemma mergeEntries_length: "idx \<le> length lg \<Longrightarrow> idx + length es \<le> length (mergeEntries idx es lg)"
  by (induction idx es lg rule: mergeEntries.induct) auto

lemma mergeEntries_nonempty: "lg \<noteq> [] \<Longrightarrow> 0 < idx \<Longrightarrow> mergeEntries idx es lg \<noteq> []"
  by (induction idx es lg rule: mergeEntries.induct) auto

lemma mergeEntries_terms:
  "idx \<le> length lg \<Longrightarrow> i < length es \<Longrightarrow>
   le_Term (mergeEntries idx es lg ! (idx + i)) = le_Term (es ! i)"
proof (induction idx es lg arbitrary: i rule: mergeEntries.induct)
  case (2 idx e es lg)
  consider (past) "\<not> idx < length lg"
    | (conflict) "idx < length lg" "le_Term (lg ! idx) \<noteq> le_Term e"
    | (same) "idx < length lg" "le_Term (lg ! idx) = le_Term e" by blast
  then show ?case
  proof cases
    case past
    with 2 show ?thesis by (simp add: nth_append)
  next
    case conflict
    with 2 show ?thesis by (simp add: nth_append)
  next
    case same
    show ?thesis
    proof (cases i)
      case 0
      have "take (idx + 1) (mergeEntries (idx + 1) es lg) ! idx = take (idx + 1) lg ! idx"
        using same by (simp add: mergeEntries_take)
      with same 0 show ?thesis by simp
    next
      case (Suc j)
      with same 2 show ?thesis by simp
    qed
  qed
qed simp

text \<open>Entries the log already holds, compared by term, are never touched.\<close>

lemma mergeEntries_keeps:
  assumes "j < length lg"
    and "\<And>i. i < length es \<Longrightarrow> idx + i \<le> j \<Longrightarrow> le_Term (lg ! (idx + i)) = le_Term (es ! i)"
  shows "j < length (mergeEntries idx es lg) \<and> mergeEntries idx es lg ! j = lg ! j"
  using assms
proof (induction idx es lg rule: mergeEntries.induct)
  case (2 idx e es lg)
  consider (past) "\<not> idx < length lg"
    | (conflict) "idx < length lg" "le_Term (lg ! idx) \<noteq> le_Term e"
    | (same) "idx < length lg" "le_Term (lg ! idx) = le_Term e" by blast
  then show ?case
  proof cases
    case past
    with 2 show ?thesis by (simp add: nth_append)
  next
    case conflict
    with 2(3)[of 0] have "j < idx" by (cases "idx \<le> j") auto
    with conflict show ?thesis by (simp add: nth_append)
  next
    case same
    have "le_Term (lg ! (idx + 1 + i)) = le_Term (es ! i)" if "i < length es" "idx + 1 + i \<le> j" for i
      using 2(3)[of "Suc i"] that by simp
    with 2(1) same 2(2) show ?thesis by simp
  qed
qed simp

lemma mergeEntries_agree:
  assumes "idx \<le> length lg"
    and "\<And>i. i < length es \<Longrightarrow> idx + i < length lg \<Longrightarrow> le_Term (lg ! (idx + i)) = le_Term (es ! i)"
  shows "mergeEntries idx es lg = lg @ drop (length lg - idx) es"
  using assms
proof (induction idx es lg rule: mergeEntries.induct)
  case (2 idx e es lg)
  show ?case
  proof (cases "idx < length lg")
    case True
    with 2(3)[of 0] have same: "le_Term (lg ! idx) = le_Term e" by simp
    have "le_Term (lg ! (idx + 1 + i)) = le_Term (es ! i)"
      if "i < length es" "idx + 1 + i < length lg" for i
      using 2(3)[of "Suc i"] that by simp
    with 2(1) True same have "mergeEntries (idx + 1) es lg = lg @ drop (length lg - (idx + 1)) es"
      by simp
    moreover have "length lg - idx = Suc (length lg - (idx + 1))" using True by simp
    ultimately show ?thesis using True same by simp
  next
    case False
    with 2(2) show ?thesis by simp
  qed
qed simp

lemma mergeEntries_idem:
  assumes "idx \<le> length lg"
  shows "mergeEntries idx es (mergeEntries idx es lg) = mergeEntries idx es lg"
proof -
  let ?lg = "mergeEntries idx es lg"
  have len: "idx + length es \<le> length ?lg" using assms by (rule mergeEntries_length)
  then have "mergeEntries idx es ?lg = ?lg @ drop (length ?lg - idx) es"
    using mergeEntries_terms [OF assms] by (intro mergeEntries_agree) auto
  with len show ?thesis by simp
qed

section \<open>The commit rule\<close>

definition committable :: "raft_node \<Rightarrow> nat \<Rightarrow> bool" where
  "committable n j \<longleftrightarrow>
     le_Term (logEntries n ! j) = currentTerm n \<and> (length (peers n) + 1) div 2 < replicatedOn n j"

lemma maybeCommit_scan_Some:
  "maybeCommit_scan n k = Some idx \<Longrightarrow>
   commitIndex n < idx \<and> idx \<le> k \<and> committable n idx \<and> (\<forall>j. idx < j \<and> j \<le> k \<longrightarrow> \<not> committable n j)"
proof (induction n k rule: maybeCommit_scan.induct)
  case (1 n k)
  show ?case
  proof (cases "commitIndex n < k")
    case False
    with "1.prems" show ?thesis by (simp add: maybeCommit_scan.simps)
  next
    case True
    show ?thesis
    proof (cases "committable n k")
      case hit: True
      with True "1.prems" have "idx = k"
        by (simp add: maybeCommit_scan.simps [of n k] committable_def)
      with True hit show ?thesis by auto
    next
      case miss: False
      with True "1.prems" have rec: "maybeCommit_scan n (k - 1) = Some idx"
        by (auto simp: maybeCommit_scan.simps [of n k] committable_def split: if_splits)
      with True miss "1.IH" have "commitIndex n < idx \<and> idx \<le> k - 1 \<and> committable n idx \<and>
          (\<forall>j. idx < j \<and> j \<le> k - 1 \<longrightarrow> \<not> committable n j)"
        unfolding committable_def by blast
      moreover have "j \<le> k - 1" if "j \<le> k" "j \<noteq> k" for j
        using that by simp
      ultimately show ?thesis using miss by (metis diff_le_self le_trans)
    qed
  qed
qed

lemma maybeCommit_scan_None:
  "maybeCommit_scan n k = None \<Longrightarrow> commitIndex n < j \<Longrightarrow> j \<le> k \<Longrightarrow> \<not> committable n j"
proof (induction n k rule: maybeCommit_scan.induct)
  case (1 n k)
  then have lt: "commitIndex n < k" by simp
  with "1.prems"(1) have miss: "\<not> committable n k"
    by (auto simp: maybeCommit_scan.simps [of n k] committable_def split: if_splits)
  with lt "1.prems"(1) have rec: "maybeCommit_scan n (k - 1) = None"
    by (auto simp: maybeCommit_scan.simps [of n k] committable_def split: if_splits)
  show ?case
  proof (cases "j = k")
    case False
    with "1.prems" have "j \<le> k - 1" by simp
    with rec lt miss "1.IH" "1.prems"(2) show ?thesis unfolding committable_def by blast
  qed (simp add: miss)
qed

lemma commitIndex_maybeCommit:
  "commitIndex (maybeCommit n) =
     (case maybeCommit_scan n (length (logEntries n) - 1) of None \<Rightarrow> commitIndex n | Some i \<Rightarrow> i)"
  by (simp add: maybeCommit_def split: option.split)

lemma commitIndex_maybeCommit_mono: "commitIndex n \<le> commitIndex (maybeCommit n)"
  by (auto simp: commitIndex_maybeCommit dest!: maybeCommit_scan_Some split: option.split)

lemma commitIndex_maybeCommit_bound:
  "commitIndex n < length (logEntries n) \<Longrightarrow> commitIndex (maybeCommit n) < length (logEntries n)"
  by (auto simp: commitIndex_maybeCommit dest!: maybeCommit_scan_Some split: option.split)

section \<open>Runs of one node\<close>

text \<open>
  The entries of an \<open>AppendEntries\<close> reach the commit index it announces and agree by term with
  what the follower has committed. A leader's own requests have the first part
  (\<open>appendArgs_reach_commit\<close> below), Raft's leader completeness gives the second; the node itself
  checks neither.
\<close>

definition commit_safe :: "AppendEntriesArgs \<Rightarrow> raft_node \<Rightarrow> bool" where
  "commit_safe args n \<longleftrightarrow>
     ae_LeaderCommit args \<le> ae_PrevLogIndex args + length (ae_Entries args) \<and>
     (\<forall>i < length (ae_Entries args). ae_PrevLogIndex args + 1 + i \<le> commitIndex n \<longrightarrow>
        le_Term (logEntries n ! (ae_PrevLogIndex args + 1 + i)) = le_Term (ae_Entries args ! i))"

inductive node_step :: "raft_node \<Rightarrow> raft_node \<Rightarrow> bool" where
  propose: "Propose c n = Inr n' \<Longrightarrow> node_step n n'"
| update_peers: "gm_ok ps \<Longrightarrow> node_step n (UpdatePeers ps n)"
| start_election: "node_step n (snd (startElection n))"
| pre_vote: "node_step n (snd (preVote ps t now rs n))"
| pre_vote_done: "node_step n (preVoteDone ok n)"
| campaign: "currentTerm n + 1 < 2 ^ 64 \<Longrightarrow> node_step n (snd (campaign t since n))"
| vote_reply: "node_step n (snd (voteReply reply n))"
| become_leader: "node_step n (becomeLeader t n)"
| append_reply: "node_step n (snd (appendReply b pid args reply r n))"
| apply_one: "applyOne n = Applied n' \<Longrightarrow> node_step n n'"
| handle_vote: "node_step n (snd (HandleRequestVote now vargs n))"
| handle_append: "commit_safe args n \<Longrightarrow> node_step n (snd (HandleAppendEntries now args n))"

inductive_simps node_step_iff: "node_step n n'"

inductive raft_run :: "raft_config \<Rightarrow> raft_node \<Rightarrow> bool" for c where
  init: "raft_run c (NewNode c)"
| step: "raft_run c n \<Longrightarrow> node_step n n' \<Longrightarrow> raft_run c n'"

definition raft_wf :: "raft_node \<Rightarrow> bool" where
  "raft_wf n \<longleftrightarrow>
     logEntries n \<noteq> [] \<and> lastApplied n \<le> commitIndex n \<and> commitIndex n < length (logEntries n) \<and>
     gm_ok (peers n) \<and> gm_get (peers n) (nodeID n) = None \<and>
     gm_ok (matchIndex n) \<and> gm_ok (nextIndex n) \<and> noQuorumStreak n \<le> maxBackoffShift"

lemma raft_wfI:
  assumes "raft_wf n" "cfg n' = cfg n" "logEntries n' = logEntries n" "commitIndex n' = commitIndex n"
    "lastApplied n' = lastApplied n" "matchIndex n' = matchIndex n" "nextIndex n' = nextIndex n"
    "noQuorumStreak n' \<le> maxBackoffShift"
  shows "raft_wf n'"
  using assms by (simp add: raft_wf_def)

lemma withoutSelf_ok: "gm_ok ps \<Longrightarrow> gm_ok (withoutSelf i ps) \<and> gm_get (withoutSelf i ps) i = None"
  by (simp add: withoutSelf_def gm_ok_filter gm_filter_get)

lemma preVote_loop_cases:
  "snd (preVote_loop t q now rs g n) \<in>
     {n, logNoQuorum now n} \<union> {stepDown u n | u. currentTerm n < u}"
  by (induction t q now rs g n rule: preVote_loop.induct) auto

lemma preVote_cases:
  obtains "snd (preVote ps t now rs n) = n" | "snd (preVote ps t now rs n) = logNoQuorum now n"
  | u where "currentTerm n < u" "snd (preVote ps t now rs n) = stepDown u n"
  using preVote_loop_cases [of t "quorum ps" now rs 1 n] by (auto simp: preVote_def)

lemma becomeLeader_wf [raft_keeps]: "raft_wf n \<Longrightarrow> raft_wf (becomeLeader t n)"
  by (auto simp: raft_wf_def becomeLeader_def gm.ok_put_all)

lemma campaign_wf [raft_keeps]: "raft_wf n \<Longrightarrow> raft_wf (snd (campaign t since n))"
  by (auto simp: campaign_def Let_def raft_wf_def [of "candidacy n"] raft_wf_def [of n]
      intro!: becomeLeader_wf)

lemma maybeCommit_wf [raft_keeps]: "raft_wf n \<Longrightarrow> raft_wf (maybeCommit n)"
  using commitIndex_maybeCommit_mono [of n] commitIndex_maybeCommit_bound [of n]
  by (auto simp: raft_wf_def)

lemma appendReply_wf [raft_keeps]: "raft_wf n \<Longrightarrow> raft_wf (snd (appendReply b pid args reply r n))"
  by (auto simp: appendReply_def Let_def intro!: maybeCommit_wf) (auto simp: raft_wf_def)

lemma appendAccept_wf:
  assumes wf: "raft_wf n" and safe: "commit_safe args n" and prev: "prevMatches args n"
  shows "raft_wf (appendAccept args n)"
proof -
  let ?lg = "logEntries (appendAccept args n)"
  have idx: "ae_PrevLogIndex args + 1 \<le> length (logEntries n)"
    using prev by (simp add: prevMatches_def)
  have "commitIndex n < length ?lg"
    using wf safe mergeEntries_keeps [of "commitIndex n" "logEntries n" "ae_Entries args"
        "ae_PrevLogIndex args + 1"]
    by (simp add: raft_wf_def commit_safe_def)
  moreover have "ae_PrevLogIndex args + length (ae_Entries args) < length ?lg"
    using mergeEntries_length [OF idx, of "ae_Entries args"] by simp
  ultimately show ?thesis
    using wf safe mergeEntries_nonempty [of "logEntries n" "ae_PrevLogIndex args + 1"]
    by (auto simp: raft_wf_def commitIndex_appendAccept commit_safe_def)
qed

lemma HandleAppendEntries_wf [raft_keeps]:
  assumes "raft_wf n" and "commit_safe args n"
  shows "raft_wf (snd (HandleAppendEntries now args n))"
proof -
  let ?n2 = "signalElectionReset ((if currentTerm n < ae_Term args \<or> state n = Candidate
      then stepDown (ae_Term args) n else n)
      \<lparr>leaderID := ae_LeaderID args, lastLeaderContact := now, noQuorumStreak := 0\<rparr>)"
  have "raft_wf ?n2" using assms(1) by (auto simp: raft_wf_def)
  moreover have "commit_safe args ?n2" using assms(2) by (auto simp: commit_safe_def)
  ultimately show ?thesis
    using assms(1) by (auto simp: HandleAppendEntries_def Let_def intro: appendAccept_wf)
qed

lemma HandleRequestVote_wf [raft_keeps]: "raft_wf n \<Longrightarrow> raft_wf (snd (HandleRequestVote now args n))"
  by (auto simp: HandleRequestVote_def Let_def raft_wf_def)

lemma Propose_wf [raft_keeps]: "Propose c n = Inr n' \<Longrightarrow> raft_wf n \<Longrightarrow> raft_wf n'"
  by (auto simp: Propose_def raft_wf_def split: if_splits)

lemma UpdatePeers_wf [raft_keeps]: "gm_ok ps \<Longrightarrow> raft_wf n \<Longrightarrow> raft_wf (UpdatePeers ps n)"
  using withoutSelf_ok [of ps "nodeID n"] by (simp add: UpdatePeers_def raft_wf_def)

lemma startElection_wf [raft_keeps]: "raft_wf n \<Longrightarrow> raft_wf (snd (startElection n))"
  by (simp add: startElection_def raft_wf_def)

lemma preVote_wf [raft_keeps]: "raft_wf n \<Longrightarrow> raft_wf (snd (preVote ps t now rs n))"
  by (cases ps t now rs n rule: preVote_cases) (simp_all add: raft_wf_def)

lemma preVoteDone_wf [raft_keeps]: "raft_wf n \<Longrightarrow> raft_wf (preVoteDone ok n)"
  by (auto simp: preVoteDone_def raft_wf_def)

lemma voteReply_wf [raft_keeps]: "raft_wf n \<Longrightarrow> raft_wf (snd (voteReply reply n))"
  by (auto simp: voteReply_def raft_wf_def)

lemma applyOne_wf [raft_keeps]: "applyOne n = Applied n' \<Longrightarrow> raft_wf n \<Longrightarrow> raft_wf n'"
  by (auto simp: applyOne_def Let_def raft_wf_def split: if_splits)

lemma node_step_wf: "node_step n n' \<Longrightarrow> raft_wf n \<Longrightarrow> raft_wf n'"
  by (induction rule: node_step.induct) (blast intro: raft_keeps)+

lemma NewNode_wf: "gm_ok (cfg_Peers c) \<Longrightarrow> raft_wf (NewNode c)"
  using withoutSelf_ok [of "cfg_Peers c" "cfg_ID c"]
  by (simp add: NewNode_def raft_wf_def with_defaults_def maxBackoffShift_def)

lemma raft_run_wf: "raft_run c n \<Longrightarrow> gm_ok (cfg_Peers c) \<Longrightarrow> raft_wf n"
  by (induction rule: raft_run.induct) (auto intro: NewNode_wf node_step_wf)

section \<open>Terms and commit indices only grow\<close>

lemma node_step_term: "node_step n n' \<Longrightarrow> currentTerm n \<le> currentTerm n'"
proof (induction rule: node_step.induct)
  case (pre_vote n ps t now rs)
  then show ?case by (cases ps t now rs n rule: preVote_cases) auto
qed (auto simp: Propose_def UpdatePeers_def startElection_def preVoteDone_def campaign_def Let_def
      voteReply_def appendReply_def applyOne_def HandleRequestVote_def HandleAppendEntries_def
      split: if_splits)

lemma node_step_commit: "node_step n n' \<Longrightarrow> commitIndex n \<le> commitIndex n'"
proof (induction rule: node_step.induct)
  case (pre_vote n ps t now rs)
  then show ?case by (cases ps t now rs n rule: preVote_cases) auto
next
  case (append_reply n b pid args reply r)
  have "commitIndex n \<le> commitIndex (maybeCommit m)" if "commitIndex m = commitIndex n" for m
    using commitIndex_maybeCommit_mono [of m] that by simp
  then show ?case by (auto simp: appendReply_def Let_def)
next
  case (handle_append args n now)
  then show ?case
    by (auto simp: HandleAppendEntries_def Let_def commitIndex_appendAccept commit_safe_def)
qed (auto simp: Propose_def UpdatePeers_def startElection_def preVoteDone_def campaign_def Let_def
      voteReply_def applyOne_def HandleRequestVote_def split: if_splits)

text \<open>What a node has committed is never rewritten.\<close>

lemma node_step_committed_log:
  assumes "node_step n n'" and "raft_wf n" and "j \<le> commitIndex n"
  shows "logEntries n' ! j = logEntries n ! j"
  using assms
proof (induction rule: node_step.induct)
  case (propose c n n')
  then show ?case by (auto simp: Propose_def nth_append raft_wf_def split: if_splits)
next
  case (pre_vote n ps t now rs)
  then show ?case by (cases ps t now rs n rule: preVote_cases) auto
next
  case (handle_append args n now)
  then have "mergeEntries (ae_PrevLogIndex args + 1) (ae_Entries args) (logEntries n) ! j = logEntries n ! j"
    using mergeEntries_keeps [of j "logEntries n" "ae_Entries args" "ae_PrevLogIndex args + 1"]
    by (auto simp: commit_safe_def raft_wf_def)
  then show ?case by (auto simp: HandleAppendEntries_def Let_def)
qed (auto simp: UpdatePeers_def startElection_def preVoteDone_def campaign_def Let_def
      voteReply_def appendReply_def applyOne_def HandleRequestVote_def split: if_splits)

section \<open>Applied entries\<close>

definition applied_ok :: "raft_node \<Rightarrow> bool" where
  "applied_ok n \<longleftrightarrow>
     applied n = (if cfg_ApplyFunc (cfg n) then map ((!) (logEntries n)) [1..<Suc (lastApplied n)] else [])"

lemma applied_ok_keep:
  assumes "applied_ok n" "raft_wf n" "applied n' = applied n" "lastApplied n' = lastApplied n"
    "cfg_ApplyFunc (cfg n') = cfg_ApplyFunc (cfg n)"
    "\<And>j. j \<le> commitIndex n \<Longrightarrow> logEntries n' ! j = logEntries n ! j"
  shows "applied_ok n'"
  using assms by (auto simp: applied_ok_def raft_wf_def)

lemma node_step_applied:
  assumes "node_step n n'" and "raft_wf n" and "applied_ok n"
  shows "applied_ok n'"
proof (cases "\<exists>m. applyOne n = Applied m \<and> n' = m")
  case True
  then show ?thesis using assms(3) by (auto simp: applied_ok_def applyOne_def Let_def split: if_splits)
next
  case False
  have frame: "applied n' = applied n \<and> lastApplied n' = lastApplied n \<and>
      cfg_ApplyFunc (cfg n') = cfg_ApplyFunc (cfg n)"
    using assms(1) False
  proof (induction rule: node_step.induct)
    case (pre_vote n ps t now rs)
    then show ?case by (cases ps t now rs n rule: preVote_cases) auto
  qed (auto simp: Propose_def UpdatePeers_def startElection_def preVoteDone_def campaign_def Let_def
        voteReply_def appendReply_def HandleRequestVote_def HandleAppendEntries_def split: if_splits)
  then show ?thesis
    using applied_ok_keep [OF assms(3,2)] node_step_committed_log [OF assms(1,2)] by blast
qed


definition cfg_ex :: raft_config where
  "cfg_ex = \<lparr>cfg_ID = ''a'', cfg_Peers = [], cfg_ElectionTimeoutMin = 0, cfg_ElectionTimeoutMax = 0,
             cfg_HeartbeatInterval = 0, cfg_ApplyFunc = True\<rparr>"




lemma applyAll_exact:
  assumes "raft_wf n"
  shows "applyAll n = Some (n\<lparr>lastApplied := commitIndex n,
     applied := applied n @ (if cfg_ApplyFunc (cfg n)
       then map ((!) (logEntries n)) [Suc (lastApplied n)..<Suc (commitIndex n)] else [])\<rparr>)"
  using assms
proof (induction n rule: applyAll.induct)
  case (1 n)
  show ?case
  proof (cases "lastApplied n < commitIndex n")
    case False
    with "1.prems" have "lastApplied n = commitIndex n" by (simp add: raft_wf_def)
    then show ?thesis by (subst applyAll.simps) (simp add: applyOne_def)
  next
    case True
    define i where "i = lastApplied n + 1"
    define m where "m = n\<lparr>lastApplied := i, applied := (if cfg_ApplyFunc (cfg n)
        then applied n @ [logEntries n ! i] else applied n)\<rparr>"
    have one: "applyOne n = Applied m"
      using True "1.prems" by (auto simp: applyOne_def Let_def m_def i_def raft_wf_def)
    have "raft_wf m" by (rule applyOne_wf [OF one "1.prems"])
    note IH = "1.IH" [OF one this]
    have "[i..<Suc (commitIndex n)] = i # [Suc i..<Suc (commitIndex n)]"
      using True by (simp add: i_def upt_rec)
    with IH show ?thesis
      by (subst applyAll.simps) (simp add: one m_def i_def del: upt_Suc)
  qed
qed


definition node_ex :: raft_node where
  "node_ex = (NewNode cfg_ex)\<lparr>commitIndex := 2,
     logEntries := [sentinel, \<lparr>le_Index = 1, le_Term = 1, le_Command = [7]\<rparr>,
                    \<lparr>le_Index = 2, le_Term = 1, le_Command = [9]\<rparr>]\<rparr>"


end
