(* ===== verification/Raft_Replication.thy ===== *)
theory Raft_Replication
  imports Raft_Node
begin

text \<open>
  Replication between a leader and one follower: what a successful \<open>AppendEntries\<close> makes of the
  follower's log, when an entry is committed, the requests a leader builds, the back-off of
  \<open>nextIndex\<close> on a conflict, and the treatment of late replies. The pre-vote and the election
  timeout close the theory.
\<close>

section \<open>Log matching\<close>

definition log_matching :: "LogEntry list \<Rightarrow> LogEntry list \<Rightarrow> bool" where
  "log_matching lf ll \<longleftrightarrow>
     (\<forall>i. i < length lf \<and> i < length ll \<and> le_Term (lf ! i) = le_Term (ll ! i) \<longrightarrow>
          take (Suc i) lf = take (Suc i) ll)"

lemma mergeEntries_matching:
  assumes "es = drop idx L" "idx \<le> length lg" "idx \<le> length L" "take idx lg = take idx L"
    "log_matching lg L"
  shows "take (length L) (mergeEntries idx es lg) = L"
  using assms
proof (induction idx es lg rule: mergeEntries.induct)
  case (1 idx lg)
  then have "idx = length L" by simp
  with 1(4) show ?case by simp
next
  case (2 idx e es lg)
  have idx: "idx < length L"
  proof (rule ccontr)
    assume "\<not> idx < length L"
    then have "drop idx L = []" by simp
    with 2(2) show False by simp
  qed
  from idx 2(2) have e: "e = L ! idx" and es: "es = drop (idx + 1) L"
    by (simp_all add: Cons_nth_drop_Suc [symmetric])
  have glue: "take idx lg @ (e # es) = L"
    using 2(2,5) append_take_drop_id [of idx L] by simp
  consider (past) "\<not> idx < length lg"
    | (conflict) "idx < length lg" "le_Term (lg ! idx) \<noteq> le_Term e"
    | (same) "idx < length lg" "le_Term (lg ! idx) = le_Term e" by blast
  then show ?case
  proof cases
    case past
    with 2(3) have "take idx lg = lg" by simp
    with past glue show ?thesis by simp
  next
    case conflict
    with glue show ?thesis by simp
  next
    case same
    with e idx 2(6) have "take (idx + 1) lg = take (idx + 1) L"
      by (simp add: log_matching_def)
    with same 2(1) es 2(6) idx show ?thesis by simp
  qed
qed

lemma HandleAppendEntries_success:
  assumes "HandleAppendEntries now args n = (reply, n')" and "aer_Success reply"
  shows "currentTerm n \<le> ae_Term args \<and> prevMatches args n \<and>
     logEntries n' = mergeEntries (ae_PrevLogIndex args + 1) (ae_Entries args) (logEntries n)"
  using assms by (auto simp: HandleAppendEntries_def Let_def prevMatches_def split: if_splits)

text \<open>C29: When a follower accepts an \<open>AppendEntries\<close> that carries the suffix of the leader's log
  after the previous index, and the two logs have the log-matching property, its log afterwards
  starts with the whole log of the leader: conflicting entries are gone, missing ones are there.\<close>

theorem append_entries_replicates:
  assumes "log_matching (logEntries f) L"
    and "ae_PrevLogIndex args < length L"
    and "ae_PrevLogTerm args = le_Term (L ! ae_PrevLogIndex args)"
    and "ae_Entries args = drop (Suc (ae_PrevLogIndex args)) L"
    and "HandleAppendEntries now args f = (reply, f')" and "aer_Success reply"
  shows "take (length L) (logEntries f') = L"
proof -
  have prev: "prevMatches args f"
    and log: "logEntries f' = mergeEntries (ae_PrevLogIndex args + 1) (ae_Entries args) (logEntries f)"
    using HandleAppendEntries_success [OF assms(5,6)] by auto
  from prev have "take (ae_PrevLogIndex args + 1) (logEntries f) = take (ae_PrevLogIndex args + 1) L"
    using assms(1-3) by (auto simp: prevMatches_def log_matching_def)
  with prev show ?thesis
    unfolding log using assms by (intro mergeEntries_matching) (auto simp: prevMatches_def)
qed

definition ent :: "nat \<Rightarrow> nat \<Rightarrow> LogEntry" where
  "ent i t = \<lparr>le_Index = i, le_Term = t, le_Command = []\<rparr>"

definition cfg3 :: "string \<Rightarrow> raft_config" where
  "cfg3 i = \<lparr>cfg_ID = i, cfg_Peers = [(''a'', ''ua''), (''b'', ''ub''), (''c'', ''uc'')],
     cfg_ElectionTimeoutMin = 0, cfg_ElectionTimeoutMax = 0, cfg_HeartbeatInterval = 0,
     cfg_ApplyFunc = True\<rparr>"

definition follower_ex :: raft_node where
  "follower_ex = (NewNode (cfg3 ''a''))\<lparr>currentTerm := 1,
     logEntries := [sentinel, ent 1 1, ent 2 1, ent 3 1, ent 4 1]\<rparr>"

definition leader_log_ex :: "LogEntry list" where
  "leader_log_ex = [sentinel, ent 1 1, ent 2 2]"

lemmas ex_defs = follower_ex_def leader_log_ex_def cfg3_def NewNode_def with_defaults_def
  withoutSelf_def sentinel_def ent_def

definition append_ex :: AppendEntriesArgs where
  "append_ex = \<lparr>ae_Term = 3, ae_LeaderID = ''c'', ae_PrevLogIndex = 1, ae_PrevLogTerm = 1,
     ae_Entries = [ent 2 2], ae_LeaderCommit = 0\<rparr>"

theorem append_entries_replicates_witness:
  "take 3 (logEntries (snd (HandleAppendEntries 5 append_ex follower_ex))) = leader_log_ex"
proof -
  have m: "log_matching (logEntries follower_ex) leader_log_ex"
    by (auto simp: log_matching_def ex_defs less_Suc_eq numeral_3_eq_3)
  have s: "aer_Success (fst (HandleAppendEntries 5 append_ex follower_ex))"
    by (simp add: HandleAppendEntries_def append_ex_def ex_defs prevMatches_def)
  have "take (length leader_log_ex) (logEntries (snd (HandleAppendEntries 5 append_ex follower_ex))) =
      leader_log_ex"
    by (rule append_entries_replicates [where args = append_ex and now = 5 and f = follower_ex
          and reply = "fst (HandleAppendEntries 5 append_ex follower_ex)", OF m _ _ _ _ s])
      (simp_all add: append_ex_def leader_log_ex_def ent_def)
  moreover have "length leader_log_ex = 3" by (simp add: leader_log_ex_def)
  ultimately show ?thesis by simp
qed

text \<open>Receiving the same \<open>AppendEntries\<close> again changes nothing in the log, and entries the
  follower already holds beyond those of the request are not truncated (a delayed, shorter
  request cannot undo a later one).\<close>

theorem append_entries_idempotent:
  assumes "prevMatches args n"
  shows "mergeEntries (ae_PrevLogIndex args + 1) (ae_Entries args) (logEntries (appendAccept args n)) =
           logEntries (appendAccept args n) \<and>
         (\<forall>m \<le> length (ae_Entries args).
            mergeEntries (ae_PrevLogIndex args + 1) (take m (ae_Entries args)) (logEntries (appendAccept args n)) =
              logEntries (appendAccept args n))"
proof -
  let ?i = "ae_PrevLogIndex args + 1" and ?es = "ae_Entries args"
  let ?lg = "logEntries (appendAccept args n)"
  have idx: "?i \<le> length (logEntries n)" using assms by (simp add: prevMatches_def)
  have len: "?i + length ?es \<le> length ?lg" using mergeEntries_length [OF idx] by simp
  have terms: "le_Term (?lg ! (?i + i)) = le_Term (?es ! i)" if "i < length ?es" for i
    using mergeEntries_terms [OF idx that] by simp
  have "mergeEntries ?i (take m ?es) ?lg = ?lg" if "m \<le> length ?es" for m
  proof -
    have "mergeEntries ?i (take m ?es) ?lg = ?lg @ drop (length ?lg - ?i) (take m ?es)"
      using len terms that by (intro mergeEntries_agree) auto
    with len that show ?thesis by simp
  qed
  from this this [of "length ?es"] show ?thesis by simp
qed

theorem append_entries_idempotent_witness:
  "prevMatches append_ex follower_ex \<and>
   mergeEntries (ae_PrevLogIndex append_ex + 1) (ae_Entries append_ex)
     (logEntries (appendAccept append_ex follower_ex)) = logEntries (appendAccept append_ex follower_ex)"
proof -
  have p: "prevMatches append_ex follower_ex"
    by (simp add: prevMatches_def append_ex_def ex_defs)
  with append_entries_idempotent [OF p] show ?thesis by blast
qed

section \<open>Committing\<close>

text \<open>\<open>maybeCommit\<close> moves the commit index to the greatest index of the log, above the old one,
  whose entry is of the current term and is held by a majority of the cluster (the leader
  included); when there is none it changes nothing.\<close>

theorem maybeCommit_greatest:
  assumes "logEntries n \<noteq> []"
  shows "commitIndex (maybeCommit n) =
     (let S = {j. commitIndex n < j \<and> j < length (logEntries n) \<and>
                  le_Term (logEntries n ! j) = currentTerm n \<and>
                  length (peers n) + 1 < 2 * replicatedOn n j}
      in if S = {} then commitIndex n else Max S)"
proof -
  let ?k = "length (logEntries n) - 1"
  let ?S = "{j. commitIndex n < j \<and> j < length (logEntries n) \<and>
                le_Term (logEntries n ! j) = currentTerm n \<and> length (peers n) + 1 < 2 * replicatedOn n j}"
  have half: "(length (peers n) + 1) div 2 < r \<longleftrightarrow> length (peers n) + 1 < 2 * r" for r :: nat
    by auto
  have S: "?S = {j. commitIndex n < j \<and> j \<le> ?k \<and> committable n j}"
    using assms by (auto simp: committable_def half)
  have fin: "finite ?S" by simp
  show ?thesis
  proof (cases "maybeCommit_scan n ?k")
    case None
    then have "?S = {}" unfolding S using maybeCommit_scan_None by blast
    with None show ?thesis by (simp add: commitIndex_maybeCommit)
  next
    case (Some i)
    note hit = maybeCommit_scan_Some [OF Some]
    then have "i \<in> ?S" unfolding S by simp
    moreover have "j \<le> i" if "j \<in> ?S" for j
      using that hit unfolding S by (auto simp: not_le [symmetric])
    ultimately have "Max ?S = i" using fin by (intro Max_eqI) auto
    with Some \<open>i \<in> ?S\<close> show ?thesis by (auto simp: commitIndex_maybeCommit Let_def)
  qed
qed

definition leader3 :: raft_node where
  "leader3 = (NewNode (cfg3 ''c''))\<lparr>state := Leader, currentTerm := 3,
     logEntries := [sentinel, ent 1 1, ent 2 3], matchIndex := [(''a'', 0), (''b'', 2)],
     nextIndex := [(''a'', 1), (''b'', 3)]\<rparr>"

theorem maybeCommit_greatest_witness: "commitIndex (maybeCommit leader3) = 2"
proof -
  have "logEntries leader3 \<noteq> []" by (simp add: leader3_def)
  note eq = maybeCommit_greatest [OF this]
  have S: "{j. commitIndex leader3 < j \<and> j < length (logEntries leader3) \<and>
      le_Term (logEntries leader3 ! j) = currentTerm leader3 \<and>
      length (peers leader3) + 1 < 2 * replicatedOn leader3 j} = {2}"
    by (auto simp: leader3_def ex_defs replicatedOn_def less_Suc_eq numeral_3_eq_3)
  show ?thesis unfolding eq unfolding S by (simp add: Let_def)
qed

section \<open>The requests of a leader\<close>

text \<open>As long as the log has not been shortened since the broadcast took its snapshot, building
  the request for a peer never slices past the log, the request continues the leader's log (the
  entries are its suffix after the previous index) and it reaches the commit index it announces,
  so no follower lowers its commit index because of it.\<close>

theorem appendArgs_reach_commit:
  assumes "raft_wf n" and "broadcastStart n = Some b"
    and "length (logEntries n) \<le> length (logEntries n')"
  shows "\<exists>args. appendArgs b pid n' = Some args \<and>
     ae_LeaderCommit args \<le> ae_PrevLogIndex args + length (ae_Entries args) \<and>
     (ae_PrevLogIndex args < length (logEntries n) - 1 \<longrightarrow>
        ae_Entries args = drop (Suc (ae_PrevLogIndex args)) (logEntries n') \<and>
        ae_PrevLogTerm args = le_Term (logEntries n' ! ae_PrevLogIndex args))"
proof -
  have b: "bc_logLen b = length (logEntries n)" "bc_leaderCommit b = commitIndex n"
    using assms(2) by (auto simp: broadcastStart_def split: if_splits)
  have pos: "0 < nextFor n' pid" by (simp add: nextFor_def Let_def)
  have commit: "commitIndex n < length (logEntries n)" using assms(1) by (simp add: raft_wf_def)
  show ?thesis
  proof (cases "nextFor n' pid < length (logEntries n)")
    case True
    with pos commit assms(3) b show ?thesis by (auto simp: appendArgs_def Let_def)
  next
    case False
    with pos commit assms(3) b show ?thesis by (auto simp: appendArgs_def Let_def)
  qed
qed

theorem appendArgs_reach_commit_witness:
  "\<exists>args. appendArgs (the (broadcastStart leader3)) ''a'' leader3 = Some args \<and>
     ae_LeaderCommit args \<le> ae_PrevLogIndex args + length (ae_Entries args)"
proof -
  have "raft_wf leader3"
    by (simp add: raft_wf_def leader3_def ex_defs maxBackoffShift_def) (simp add: gm_ok_def)
  moreover have "broadcastStart leader3 = Some (the (broadcastStart leader3))"
    by (simp add: broadcastStart_def leader3_def)
  ultimately show ?thesis
    using appendArgs_reach_commit [of leader3 "the (broadcastStart leader3)" leader3 "''a''"] by blast
qed

lemma appendArgs_shape:
  "bc_logLen b \<le> length (logEntries n) \<Longrightarrow>
   \<exists>args. appendArgs b pid n = Some args \<and> ae_Term args = bc_term b \<and>
     ae_PrevLogIndex args = nextFor n pid - 1 \<and>
     ae_PrevLogTerm args = (if nextFor n pid - 1 < length (logEntries n)
                            then le_Term (logEntries n ! (nextFor n pid - 1)) else 0)"
  by (auto simp: appendArgs_def Let_def)

text \<open>One exchange of a broadcast between a leader and a follower, with nothing in between.\<close>

definition exchange :: "string \<Rightarrow> go_time \<Rightarrow> raft_node \<times> raft_node \<Rightarrow> raft_node \<times> raft_node" where
  "exchange pid now lf =
     (case broadcastStart (fst lf) of
        None \<Rightarrow> lf
      | Some b \<Rightarrow> (case appendArgs b pid (fst lf) of
          None \<Rightarrow> lf
        | Some args \<Rightarrow> (let (reply, f') = HandleAppendEntries now args (snd lf)
                       in (snd (appendReply b pid args reply 1 (fst lf)), f'))))"

text \<open>
  The follower's last index is what the leader tries next, and the entry before it conflicts:
  the conflict index the follower answers with is again its last index.
\<close>

definition stuck :: "string \<Rightarrow> raft_node \<times> raft_node \<Rightarrow> bool" where
  "stuck pid lf \<longleftrightarrow>
     (let l = fst lf; f = snd lf; k = length (logEntries f) - 1 in
      state l = Leader \<and> currentTerm f \<le> currentTerm l \<and> 0 < k \<and>
      gm_get (nextIndex l) pid = Some k \<and>
      le_Term (logEntries f ! (k - 1)) \<noteq>
        (if k - 1 < length (logEntries l) then le_Term (logEntries l ! (k - 1)) else 0))"

lemma stuck_exchange:
  assumes "stuck pid lf"
  shows "stuck pid (exchange pid now lf) \<and>
         logEntries (snd (exchange pid now lf)) = logEntries (snd lf)"
proof -
  obtain l f where lf: "lf = (l, f)" by (cases lf)
  let ?k = "length (logEntries f) - 1"
  have h: "state l = Leader" "currentTerm f \<le> currentTerm l" "0 < ?k" "gm_get (nextIndex l) pid = Some ?k"
    "le_Term (logEntries f ! (?k - 1)) \<noteq>
       (if ?k - 1 < length (logEntries l) then le_Term (logEntries l ! (?k - 1)) else 0)"
    using assms by (auto simp: stuck_def lf Let_def)
  obtain b where b: "broadcastStart l = Some b" "bc_logLen b = length (logEntries l)" "bc_term b = currentTerm l"
    using h(1) by (auto simp: broadcastStart_def)
  have next_k: "nextFor l pid = ?k" using h(3,4) by (simp add: nextFor_def gm_get0_def)
  obtain args where args: "appendArgs b pid l = Some args" "ae_PrevLogIndex args = ?k - 1"
    "ae_PrevLogTerm args = (if ?k - 1 < length (logEntries l) then le_Term (logEntries l ! (?k - 1)) else 0)"
    "ae_Term args = currentTerm l"
    using appendArgs_shape [of b l pid] b(2,3) unfolding next_k by auto
  have no: "\<not> prevMatches args g" if "logEntries g = logEntries f" for g
    using h(5) args(2,3) that by (auto simp: prevMatches_def)
  obtain reply f' where H: "HandleAppendEntries now args f = (reply, f')" by (meson surj_pair)
  then have R: "aer_Success reply = False" "aer_ConflictIndex reply = ?k" "aer_Term reply = currentTerm f"
      "logEntries f' = logEntries f" "currentTerm f' \<le> currentTerm l"
    using no args(4) h(2) by (auto simp: HandleAppendEntries_def Let_def split: if_splits)
  have "appendReply b pid args reply 1 l = (1, l\<lparr>nextIndex := gm_set pid ?k (nextIndex l)\<rparr>)"
    using R h by (auto simp: appendReply_def)
  then have "exchange pid now lf = (l\<lparr>nextIndex := gm_set pid ?k (nextIndex l)\<rparr>, f')"
    using b args H by (simp add: exchange_def lf)
  with h R lf show ?thesis by (auto simp: stuck_def Let_def)
qed

text \<open>A back-off that makes no progress. When the follower's log is long and the entry just
  before its last one conflicts with the leader's log, the conflict index the follower returns
  sends the leader back to the same \<open>nextIndex\<close>: however many broadcasts follow, the follower's log
  never changes.\<close>

theorem conflict_backoff_livelock:
  assumes "stuck pid lf"
  shows "logEntries (snd ((exchange pid now ^^ m) lf)) = logEntries (snd lf)"
proof -
  have "stuck pid ((exchange pid now ^^ m) lf) \<and>
        logEntries (snd ((exchange pid now ^^ m) lf)) = logEntries (snd lf)"
    by (induction m) (use assms stuck_exchange in auto)
  then show ?thesis ..
qed

definition new_leader_ex :: raft_node where
  "new_leader_ex = (NewNode (cfg3 ''c''))\<lparr>state := Leader, currentTerm := 3,
     logEntries := leader_log_ex, nextIndex := [(''a'', 3), (''b'', 3)], matchIndex := [(''a'', 0), (''b'', 0)]\<rparr>"

text \<open>The hypothesis is met after the first exchange of a freshly elected leader of term 3 with an
  old leader of term 1 that had appended three entries nobody else received.\<close>

theorem conflict_backoff_livelock_witness:
  "logEntries (snd ((exchange ''a'' 9 ^^ 100) (exchange ''a'' 9 (new_leader_ex, follower_ex)))) =
   logEntries follower_ex"
proof -
  let ?lf = "exchange ''a'' 9 (new_leader_ex, follower_ex)"
  note defs = exchange_def new_leader_ex_def ex_defs broadcastStart_def appendArgs_def
    nextFor_def gm_get0_def HandleAppendEntries_def prevMatches_def appendReply_def stepDown_def
    signalElectionReset_def
  have "stuck ''a'' ?lf" by (simp add: defs stuck_def)
  from conflict_backoff_livelock [OF this, where now = 9 and m = 100]
  have "logEntries (snd ((exchange ''a'' 9 ^^ 100) ?lf)) = logEntries (snd ?lf)" .
  also have "logEntries (snd ?lf) = logEntries follower_ex" by (simp add: defs)
  finally show ?thesis .
qed

text \<open>A late success reply is counted whatever the term of its request. A leader of a
  three-node cluster that receives the answer to a request it sent in an earlier term commits an
  entry of its current term that the peer may never have received.\<close>

theorem stale_reply_commits:
  assumes "state n = Leader" and "aer_Success reply" and "aer_Term reply \<le> currentTerm n"
    and "ae_Term args < currentTerm n" and "length (peers n) = 2" and "length (bc_peers b) = 2"
    and "ae_PrevLogIndex args + length (ae_Entries args) = length (logEntries n) - 1"
    and "gm_get0 (matchIndex n) 0 pid < length (logEntries n) - 1"
    and "commitIndex n < length (logEntries n) - 1"
    and "le_Term (logEntries n ! (length (logEntries n) - 1)) = currentTerm n"
  shows "commitIndex (snd (appendReply b pid args reply 1 n)) = length (logEntries n) - 1"
proof -
  let ?k = "length (logEntries n) - 1"
  let ?n1 = "n\<lparr>matchIndex := gm_set pid ?k (matchIndex n), nextIndex := gm_set pid (?k + 1) (nextIndex n)\<rparr>"
  have eq: "snd (appendReply b pid args reply 1 n) = maybeCommit ?n1"
    using assms by (simp add: appendReply_def Let_def quorum_def)
  have "gm_get (matchIndex ?n1) pid = Some ?k" by simp
  then have "(pid, ?k) \<in> set (matchIndex ?n1)" by (rule map_of_SomeD)
  then have "(pid, ?k) \<in> set (filter (\<lambda>(p, mi). ?k \<le> mi) (matchIndex ?n1))" by simp
  then have "1 < replicatedOn ?n1 ?k"
    unfolding replicatedOn_def by (metis length_pos_if_in_set less_add_same_cancel1)
  then have "maybeCommit_scan ?n1 ?k = Some ?k"
    using assms by (subst maybeCommit_scan.simps) simp
  then show ?thesis unfolding eq by (simp add: maybeCommit_def)
qed

definition stale_args_ex :: AppendEntriesArgs where
  "stale_args_ex = \<lparr>ae_Term = 1, ae_LeaderID = ''c'', ae_PrevLogIndex = 1, ae_PrevLogTerm = 1,
     ae_Entries = [ent 2 1], ae_LeaderCommit = 0\<rparr>"

definition stale_leader_ex :: raft_node where
  "stale_leader_ex = leader3\<lparr>matchIndex := [(''a'', 0), (''b'', 0)]\<rparr>"

theorem stale_reply_commits_witness:
  "replicatedOn stale_leader_ex 2 = 1 \<and> commitIndex (snd (appendReply (the (broadcastStart stale_leader_ex)) ''a'' stale_args_ex
     \<lparr>aer_Term = 1, aer_Success = True, aer_ConflictIndex = 0\<rparr> 1 stale_leader_ex)) = 2"
proof -
  have "commitIndex (snd (appendReply (the (broadcastStart stale_leader_ex)) ''a'' stale_args_ex
     \<lparr>aer_Term = 1, aer_Success = True, aer_ConflictIndex = 0\<rparr> 1 stale_leader_ex)) = length (logEntries stale_leader_ex) - 1"
    by (rule stale_reply_commits)
      (simp_all add: stale_leader_ex_def leader3_def stale_args_ex_def ex_defs broadcastStart_def gm_get0_def)
  then show ?thesis by (simp add: stale_leader_ex_def leader3_def replicatedOn_def)
qed

section \<open>Pre-vote and election timeout\<close>

lemma preVote_loop_True:
  "fst (preVote_loop t q now rs g n) \<Longrightarrow>
   snd (preVote_loop t q now rs g n) = n \<and>
   q \<le> g + length (filter (\<lambda>r. case r of None \<Rightarrow> False | Some r \<Rightarrow> rvr_VoteGranted r \<and> rvr_Term r \<le> t) rs)"
  by (induction t q now rs g n rule: preVote_loop.induct) (auto split: if_splits)

text \<open>A pre-vote has no side effect on the nodes asked, is never granted by a leader or by a
  node that heard one within the minimal election timeout, and succeeds on the asking node only
  with the grants of a majority (itself included) at its own term, leaving its state unchanged.\<close>

theorem pre_vote_is_harmless:
  "(rv_PreVote args \<longrightarrow> snd (HandleRequestVote now args p) = p \<and>
      (rvr_VoteGranted (fst (HandleRequestVote now args p)) \<longrightarrow>
         state p \<noteq> Leader \<and> cfg_ElectionTimeoutMin (cfg p) \<le> time_sub now (lastLeaderContact p))) \<and>
   (fst (preVote ps t now' rs n) \<longrightarrow>
      snd (preVote ps t now' rs n) = n \<and>
      quorum ps \<le> 1 + length (filter (\<lambda>r. case r of None \<Rightarrow> False
                          | Some r \<Rightarrow> rvr_VoteGranted r \<and> rvr_Term r \<le> t) rs))"
proof (intro conjI impI)
  assume "rv_PreVote args"
  then show "snd (HandleRequestVote now args p) = p" by (simp add: HandleRequestVote_def)
next
  assume "rv_PreVote args" and "rvr_VoteGranted (fst (HandleRequestVote now args p))"
  then have "\<not> leaderAlive now p" by (simp add: HandleRequestVote_def)
  then show "state p \<noteq> Leader"
    and "cfg_ElectionTimeoutMin (cfg p) \<le> time_sub now (lastLeaderContact p)"
    by (simp_all add: leaderAlive_def)
next
  assume "fst (preVote ps t now' rs n)"
  then show "snd (preVote ps t now' rs n) = n"
    and "quorum ps \<le> 1 + length (filter (\<lambda>r. case r of None \<Rightarrow> False
                          | Some r \<Rightarrow> rvr_VoteGranted r \<and> rvr_Term r \<le> t) rs)"
    using preVote_loop_True [of t "quorum ps" now' rs 1 n] by (simp_all add: preVote_def)
qed

theorem pre_vote_is_harmless_witness:
  "snd (HandleRequestVote 5 (preVoteArgs follower_ex) leader3) = leader3 \<and>
   snd (preVote (peers leader3) 3 9 [Some \<lparr>rvr_Term = 3, rvr_VoteGranted = True\<rparr>] leader3) = leader3"
proof -
  have "fst (preVote (peers leader3) 3 9 [Some \<lparr>rvr_Term = 3, rvr_VoteGranted = True\<rparr>] leader3)"
    by (simp add: preVote_def quorum_def leader3_def ex_defs)
  with pre_vote_is_harmless [of "preVoteArgs follower_ex" 5 leader3 "peers leader3" 3 9
      "[Some \<lparr>rvr_Term = 3, rvr_VoteGranted = True\<rparr>]" leader3]
  show ?thesis by (simp add: preVoteArgs_def)
qed

text \<open>On a well-formed node whose timeouts are positive and far from the 64-bit limit, the random
  election timeout panics exactly when the configured maximum is not above the minimum; otherwise
  it is at least the minimum and below the maximum, both scaled by the back-off of at most 16.\<close>

theorem randomElectionTimeout_bounds:
  assumes "raft_wf n" and "0 \<le> cfg_ElectionTimeoutMin (cfg n)" and "cfg_ElectionTimeoutMin (cfg n) < 2 ^ 58"
    and "0 \<le> cfg_ElectionTimeoutMax (cfg n)" and "cfg_ElectionTimeoutMax (cfg n) < 2 ^ 58"
    and "0 \<le> r" and "r < max 1 (cfg_ElectionTimeoutMax (cfg n) - cfg_ElectionTimeoutMin (cfg n))"
  shows "case randomElectionTimeout r n of
           None \<Rightarrow> cfg_ElectionTimeoutMax (cfg n) \<le> cfg_ElectionTimeoutMin (cfg n)
         | Some d \<Rightarrow> cfg_ElectionTimeoutMin (cfg n) < cfg_ElectionTimeoutMax (cfg n) \<and>
             cfg_ElectionTimeoutMin (cfg n) * 2 ^ noQuorumStreak n \<le> d \<and>
             d < cfg_ElectionTimeoutMax (cfg n) * 2 ^ noQuorumStreak n \<and>
             d < 16 * cfg_ElectionTimeoutMax (cfg n)"
proof -
  let ?lo = "cfg_ElectionTimeoutMin (cfg n)" and ?hi = "cfg_ElectionTimeoutMax (cfg n)"
  let ?s = "noQuorumStreak n"
  have s: "?s \<le> 4" using assms(1) by (simp add: raft_wf_def maxBackoffShift_def)
  then have p: "(2::int) ^ ?s \<le> 2 ^ 4" "(0::int) < 2 ^ ?s"
    by (simp_all only: power_increasing zero_less_power)
  have d: "wrap64 (?hi - ?lo) = ?hi - ?lo" using assms by (intro wrap64_id) auto
  show ?thesis
  proof (cases "?hi \<le> ?lo")
    case True
    with d show ?thesis by (simp add: randomElectionTimeout_def)
  next
    case False
    with assms have r: "?lo + r < ?hi" by simp
    have "wrap64 (?lo + r) = ?lo + r" using assms r by (intro wrap64_id) auto
    moreover have "(?lo + r) * 2 ^ ?s < ?hi * 2 ^ ?s" using r p by simp
    moreover have hi16: "?hi * 2 ^ ?s \<le> ?hi * 2 ^ 4"
      using assms(4) p(1) by (rule mult_left_mono [rotated])
    moreover have "0 \<le> (?lo + r) * 2 ^ ?s" using assms by simp
    moreover have "wrap64 ((?lo + r) * 2 ^ ?s) = (?lo + r) * 2 ^ ?s"
    proof (rule wrap64_id)
      show "- (2 ^ 63) \<le> (?lo + r) * 2 ^ ?s"
        using \<open>0 \<le> (?lo + r) * 2 ^ ?s\<close> by (rule order_trans [rotated]) simp
      show "(?lo + r) * 2 ^ ?s < 2 ^ 63"
        by (rule order.strict_trans1 [OF order.strict_implies_order order.strict_trans1 [OF hi16]])
          (use \<open>(?lo + r) * 2 ^ ?s < ?hi * 2 ^ ?s\<close> assms(5) in simp_all)
    qed
    ultimately have "randomElectionTimeout r n = Some ((?lo + r) * 2 ^ ?s)"
      using False d by (simp add: randomElectionTimeout_def Let_def)
    moreover have "(?lo + r) * 2 ^ ?s < 16 * ?hi"
      by (rule order.strict_trans2 [OF \<open>(?lo + r) * 2 ^ ?s < ?hi * 2 ^ ?s\<close>]) (use hi16 in simp)
    ultimately show ?thesis using False r assms(6) p by simp
  qed
qed

theorem randomElectionTimeout_bounds_witness:
  "\<exists>d. randomElectionTimeout 7 leader3 = Some d \<and> ms 150 \<le> d \<and> d < ms 300"
proof -
  have "raft_wf leader3"
    by (simp add: raft_wf_def leader3_def ex_defs maxBackoffShift_def) (simp add: gm_ok_def)
  from randomElectionTimeout_bounds [OF this, of 7] show ?thesis
    by (simp add: leader3_def ex_defs ms_def split: option.splits)
qed

end
