(* ===== verification/Raft_Election.thy ===== *)
theory Raft_Election
  imports Raft_Replication
begin

text \<open>
  Elections in a cluster of Raft nodes with a fixed membership. The abstract specification is a
  voter: a role, a term and the name voted for, with one rule per kind of change (\<open>vstep\<close>). Every
  critical section of the node refines such a step. The cluster interleaves the critical
  sections of the nodes in any order: vote requests and replies travel through sets of messages
  (delivered late, several times or never), each campaign counts its own votes, and
  \<open>AppendEntries\<close> requests, pre-vote and append replies may have any content.
\<close>

section \<open>The voter\<close>

type_synonym vview = "raft_state \<times> nat \<times> string"

definition view :: "raft_node \<Rightarrow> vview" where
  "view n = (state n, currentTerm n, votedFor n)"

text \<open>The label is the candidate a vote is given to, in the term after the step.\<close>

inductive vstep :: "string \<Rightarrow> vview \<Rightarrow> string option \<Rightarrow> vview \<Rightarrow> bool" where
  idle: "vstep i v None v"
| down: "t < t' \<Longrightarrow> vstep i (s, t, x) None (Follower, t', [])"
| yield: "vstep i (Candidate, t, x) None (Follower, t, [])"
| grant: "x = [] \<or> x = c \<Longrightarrow> vstep i (s, t, x) (Some c) (s, t, c)"
| down_grant: "t < t' \<Longrightarrow> vstep i (s, t, x) (Some c) (Follower, t', c)"
| stand: "s \<noteq> Leader \<Longrightarrow> vstep i (s, t, x) (Some i) (Candidate, t + 1, i)"

inductive_cases vstep_NoneE: "vstep i (s, t, x) None v'"
inductive_cases vstep_SomeE: "vstep i (s, t, x) (Some c) v'"

lemma view_eq: "state n' = state n \<Longrightarrow> currentTerm n' = currentTerm n \<Longrightarrow> votedFor n' = votedFor n \<Longrightarrow>
    vstep i (view n) None (view n')"
  by (simp add: view_def vstep.idle)

lemma stepDown_refines: "currentTerm n < t \<Longrightarrow> vstep i (view n) None (view (stepDown t n))"
  by (simp add: view_def vstep.down)

text \<open>Every operation of a node other than voting and campaigning.\<close>

inductive other_step :: "raft_node \<Rightarrow> raft_node \<Rightarrow> bool" where
  propose: "Propose c n = Inr n' \<Longrightarrow> other_step n n'"
| start_election: "other_step n (snd (startElection n))"
| pre_vote: "other_step n (snd (preVote ps t now rs n))"
| pre_vote_done: "other_step n (preVoteDone ok n)"
| append_reply: "other_step n (snd (appendReply b pid args reply r n))"
| apply_one: "applyOne n = Applied n' \<Longrightarrow> other_step n n'"
| pre_vote_request: "rv_PreVote vargs \<Longrightarrow> other_step n (snd (HandleRequestVote now vargs n))"
| handle_append: "other_step n (snd (HandleAppendEntries now args n))"

lemma HandleAppendEntries_refines: "vstep i (view n) None (view (snd (HandleAppendEntries now args n)))"
proof -
  consider (old) "ae_Term args < currentTerm n" | (newer) "currentTerm n < ae_Term args"
    | (same) "ae_Term args = currentTerm n" by linarith
  then show ?thesis
  proof cases
    case old
    then show ?thesis by (simp add: HandleAppendEntries_def vstep.idle)
  next
    case newer
    then show ?thesis by (auto simp: HandleAppendEntries_def Let_def view_def intro: vstep.down)
  next
    case same
    then show ?thesis
      by (cases "state n") (auto simp: HandleAppendEntries_def Let_def view_def intro: vstep.yield vstep.idle)
  qed
qed

lemma other_step_refines: "other_step n n' \<Longrightarrow> vstep i (view n) None (view n') \<and> cfg n' = cfg n"
proof (induction rule: other_step.induct)
  case (pre_vote n ps t now rs)
  then show ?case
    by (cases ps t now rs n rule: preVote_cases) (auto intro: view_eq stepDown_refines)
next
  case (append_reply n b pid args reply r)
  have "vstep i (view n) None (view (maybeCommit m)) \<and> cfg (maybeCommit m) = cfg n"
    if "view m = view n" "cfg m = cfg n" for m
    using that by (auto simp: view_def vstep.idle)
  then show ?case by (auto simp: appendReply_def Let_def intro: view_eq stepDown_refines)
next
  case (handle_append n now args)
  have "cfg (snd (HandleAppendEntries now args n)) = cfg n"
    by (simp add: HandleAppendEntries_def Let_def)
  then show ?case using HandleAppendEntries_refines by blast
qed (auto simp: Propose_def startElection_def preVoteDone_def applyOne_def Let_def HandleRequestVote_def
      intro: view_eq split: if_splits)

lemma HandleRequestVote_refines:
  assumes "HandleRequestVote now args n = (r, n')" and "\<not> rv_PreVote args"
  shows "vstep i (view n) (if rvr_VoteGranted r then Some (rv_CandidateID args) else None) (view n') \<and>
         cfg n' = cfg n \<and> (rvr_VoteGranted r \<longrightarrow> currentTerm n' = rv_Term args)"
proof -
  consider (old) "rv_Term args < currentTerm n" | (newer) "currentTerm n < rv_Term args"
    | (same) "rv_Term args = currentTerm n" by linarith
  then show ?thesis
  proof cases
    case old
    with assms show ?thesis by (auto simp: HandleRequestVote_def vstep.idle)
  next
    case newer
    with assms show ?thesis
      by (auto simp: HandleRequestVote_def Let_def view_def intro: vstep.down vstep.down_grant split: if_splits)
  next
    case same
    with assms show ?thesis
      by (auto simp: HandleRequestVote_def Let_def view_def intro: vstep.idle vstep.grant split: if_splits)
  qed
qed

lemma voteReply_refines:
  "voteReply r n = (go, n') \<Longrightarrow> vstep i (view n) None (view n') \<and> cfg n' = cfg n"
  by (auto simp: voteReply_def intro: vstep.idle stepDown_refines split: if_splits)

lemma candidacy_refines:
  assumes "currentTerm n + 1 < 2 ^ 64" and "campaign_guard t since n" and "nodeID n = i"
  shows "vstep i (view n) (Some i) (view (candidacy n))"
  using assms vstep.stand [of "state n" i "currentTerm n" "votedFor n"]
  by (simp add: view_def campaign_guard_def)

section \<open>The cluster\<close>

record cluster =
  nodes :: "string \<Rightarrow> raft_node"
  requests :: "(string \<times> RequestVoteArgs) set"
  replies :: "(string \<times> nat \<times> string \<times> RequestVoteReply) set"
  tally :: "string \<times> nat \<Rightarrow> nat"
  counted :: "(string \<times> nat \<times> string) set"
  wins :: "(string \<times> nat) set"
  cast :: "(string \<times> nat \<times> string) set"
  elected :: "(nat \<times> string) set"

text \<open>
  \<open>tally\<close> is the counter \<open>votes\<close> of each campaign, \<open>counted\<close> the peers whose goroutine has run,
  \<open>wins\<close> the campaigns about to call \<open>becomeLeader\<close>. The history fields \<open>cast\<close> (voter, term,
  candidate) and \<open>elected\<close> (term, leader) are only written.
\<close>

abbreviation set_node :: "string \<Rightarrow> raft_node \<Rightarrow> cluster \<Rightarrow> cluster" where
  "set_node i n C \<equiv> C\<lparr>nodes := (nodes C)(i := n)\<rparr>"

inductive cstep :: "string set \<Rightarrow> cluster \<Rightarrow> cluster \<Rightarrow> bool" for ids where
  campaign:
    "i \<in> ids \<Longrightarrow> n = nodes C i \<Longrightarrow> currentTerm n + 1 < 2 ^ 64 \<Longrightarrow>
     campaign t since n = (Some args, n') \<Longrightarrow>
     cstep ids C (set_node i n' C\<lparr>requests := requests C \<union> (\<lambda>p. (p, args)) ` set (gm_keys (peers n)),
       tally := (tally C)((i, rv_Term args) := 1), cast := insert (i, rv_Term args, i) (cast C)\<rparr>)"
| campaign_alone:
    "i \<in> ids \<Longrightarrow> n = nodes C i \<Longrightarrow> currentTerm n + 1 < 2 ^ 64 \<Longrightarrow>
     campaign t since n = (None, n') \<Longrightarrow> campaign_guard t since n \<Longrightarrow>
     cstep ids C (set_node i n' C\<lparr>cast := insert (i, currentTerm n', i) (cast C),
       elected := insert (currentTerm n', i) (elected C)\<rparr>)"
| vote:
    "(p, args) \<in> requests C \<Longrightarrow> HandleRequestVote now args (nodes C p) = (r, n') \<Longrightarrow>
     cstep ids C (set_node p n' C\<lparr>replies := insert (rv_CandidateID args, rv_Term args, p, r) (replies C),
       cast := (if rvr_VoteGranted r then insert (p, rv_Term args, rv_CandidateID args) (cast C) else cast C)\<rparr>)"
| count:
    "(i, t, p, r) \<in> replies C \<Longrightarrow> (i, t, p) \<notin> counted C \<Longrightarrow> voteReply r (nodes C i) = (go, n') \<Longrightarrow>
     votes = (if go then countVote r (tally C (i, t)) else tally C (i, t)) \<Longrightarrow>
     cstep ids C (set_node i n' C\<lparr>counted := insert (i, t, p) (counted C), tally := (tally C)((i, t) := votes),
       wins := (if go \<and> rvr_VoteGranted r \<and> quorum (peers (nodes C i)) \<le> votes
                then insert (i, t) (wins C) else wins C)\<rparr>)"
| win:
    "(i, t) \<in> wins C \<Longrightarrow> n' = becomeLeader t (nodes C i) \<Longrightarrow>
     cstep ids C (set_node i n' C\<lparr>elected :=
       (if state (nodes C i) \<noteq> Leader \<and> state n' = Leader then insert (t, i) (elected C) else elected C)\<rparr>)"
| other: "i \<in> ids \<Longrightarrow> other_step (nodes C i) n' \<Longrightarrow> cstep ids C (set_node i n' C)"

inductive_simps cstep_iff: "cstep ids C C'"

definition member_config :: "string set \<Rightarrow> string \<Rightarrow> raft_config \<Rightarrow> bool" where
  "member_config ids i c \<longleftrightarrow> cfg_ID c = i \<and> gm_ok (cfg_Peers c) \<and> insert i (set (gm_keys (cfg_Peers c))) = ids"

definition init_cluster :: "(string \<Rightarrow> raft_config) \<Rightarrow> cluster" where
  "init_cluster cf = \<lparr>nodes = (\<lambda>i. NewNode (cf i)), requests = {}, replies = {}, tally = (\<lambda>_. 0),
     counted = {}, wins = {}, cast = {}, elected = {}\<rparr>"

inductive cluster_run :: "string set \<Rightarrow> (string \<Rightarrow> raft_config) \<Rightarrow> cluster \<Rightarrow> bool" for ids cf where
  init: "cluster_run ids cf (init_cluster cf)"
| step: "cluster_run ids cf C \<Longrightarrow> cstep ids C C' \<Longrightarrow> cluster_run ids cf C'"

section \<open>The invariant\<close>

text \<open>The part of the invariant about votes alone, over the views of the voters.\<close>

definition recorded :: "string set \<Rightarrow> (string \<Rightarrow> vview) \<Rightarrow> (string \<times> nat \<times> string) set \<Rightarrow> bool" where
  "recorded ids V cs \<longleftrightarrow>
     (\<forall>v t c. (v, t, c) \<in> cs \<longrightarrow> v \<in> ids \<and> c \<in> ids \<and> t \<le> fst (snd (V v)) \<and>
        (t = fst (snd (V v)) \<longrightarrow> c = v \<or> c = snd (snd (V v))))"

definition own_vote :: "string set \<Rightarrow> (string \<Rightarrow> vview) \<Rightarrow> bool" where
  "own_vote ids V \<longleftrightarrow> (\<forall>i \<in> ids. fst (V i) \<noteq> Follower \<longrightarrow> snd (snd (V i)) = i)"

definition single_vote :: "(string \<times> nat \<times> string) set \<Rightarrow> bool" where
  "single_vote cs \<longleftrightarrow> (\<forall>v t c d. (v, t, c) \<in> cs \<longrightarrow> (v, t, d) \<in> cs \<longrightarrow> c = d \<or> c = v \<or> d = v)"

definition won_ok ::
  "string set \<Rightarrow> (string \<Rightarrow> vview) \<Rightarrow> (string \<times> nat \<times> string) set \<Rightarrow> (nat \<times> string) set \<Rightarrow> bool" where
  "won_ok ids V cs el \<longleftrightarrow>
     (\<forall>t l. (t, l) \<in> el \<longrightarrow> l \<in> ids \<and> t \<le> fst (snd (V l)) \<and> (t = fst (snd (V l)) \<longrightarrow> fst (V l) = Leader) \<and>
        (\<forall>c. (l, t, c) \<in> cs \<longrightarrow> c = l) \<and> card ids < 2 * card {v. (v, t, l) \<in> cs})"

definition leads_ok :: "string set \<Rightarrow> (string \<Rightarrow> vview) \<Rightarrow> (nat \<times> string) set \<Rightarrow> bool" where
  "leads_ok ids V el \<longleftrightarrow> (\<forall>i \<in> ids. fst (V i) = Leader \<longrightarrow> (fst (snd (V i)), i) \<in> el)"

definition votes_inv ::
  "string set \<Rightarrow> (string \<Rightarrow> vview) \<Rightarrow> (string \<times> nat \<times> string) set \<Rightarrow> (nat \<times> string) set \<Rightarrow> bool" where
  "votes_inv ids V cs el \<longleftrightarrow>
     recorded ids V cs \<and> own_vote ids V \<and> single_vote cs \<and> won_ok ids V cs el \<and> leads_ok ids V el"

definition cast_by :: "string \<Rightarrow> vview \<Rightarrow> string option \<Rightarrow> (string \<times> nat \<times> string) set" where
  "cast_by i v l = (case l of None \<Rightarrow> {} | Some c \<Rightarrow> {(i, fst (snd v), c)})"

lemma voters_card_mono:
  assumes "finite ids" and "recorded ids V cs'" and "cs \<subseteq> cs'"
    and "card ids < 2 * card {v. (v, t, l) \<in> cs}"
  shows "card ids < 2 * card {v. (v, t, l) \<in> cs'}"
proof -
  have "finite {v. (v, t, l) \<in> cs'}"
    by (rule finite_subset [OF _ assms(1)]) (use assms(2) in \<open>auto simp: recorded_def\<close>)
  then have "card {v. (v, t, l) \<in> cs} \<le> card {v. (v, t, l) \<in> cs'}"
    by (rule card_mono) (use assms(3) in auto)
  with assms(4) show ?thesis by linarith
qed

lemma vstep_facts:
  assumes step: "vstep i (s, t, x) l (s', t', x')" and x: "s \<noteq> Follower \<Longrightarrow> x = i" and i: "i \<noteq> []"
  shows "t \<le> t'"
    and "t' = t \<Longrightarrow> c = i \<or> c = x \<Longrightarrow> c \<noteq> [] \<Longrightarrow> c = i \<or> c = x'"
    and "s' \<noteq> Follower \<Longrightarrow> x' = i"
    and "l = Some c \<Longrightarrow> x' = c"
    and "t' = t \<Longrightarrow> s = Leader \<Longrightarrow> s' = Leader"
    and "s' = Leader \<Longrightarrow> s = Leader \<and> t' = t"
    and "l = Some c \<Longrightarrow> s = Leader \<Longrightarrow> t' = t \<Longrightarrow> c = i"
  using step x i by (cases rule: vstep.cases; auto)+

text \<open>One voter moves: the hypotheses its step has in every part of the invariant.\<close>

definition moves ::
  "string set \<Rightarrow> (string \<Rightarrow> vview) \<Rightarrow> (string \<times> nat \<times> string) set \<Rightarrow> string \<Rightarrow> string option \<Rightarrow> vview \<Rightarrow> bool" where
  "moves ids V cs i l v' \<longleftrightarrow>
     recorded ids V cs \<and> own_vote ids V \<and> finite ids \<and> [] \<notin> ids \<and> i \<in> ids \<and>
     vstep i (V i) l v' \<and> (\<forall>c. l = Some c \<longrightarrow> c \<in> ids)"

lemma moves_facts:
  assumes "moves ids V cs i l v'"
  shows "fst (snd (V i)) \<le> fst (snd v')"
    and "fst v' \<noteq> Follower \<Longrightarrow> snd (snd v') = i"
    and "fst (snd v') = fst (snd (V i)) \<Longrightarrow> fst (V i) = Leader \<Longrightarrow> fst v' = Leader"
    and "fst v' = Leader \<Longrightarrow> fst (V i) = Leader \<and> fst (snd v') = fst (snd (V i))"
    and "l = Some c \<Longrightarrow> fst (V i) = Leader \<Longrightarrow> fst (snd v') = fst (snd (V i)) \<Longrightarrow> c = i"
    and "(v, u, c) \<in> cast_by i v' l \<Longrightarrow>
           v = i \<and> u = fst (snd v') \<and> c = snd (snd v') \<and> l = Some c \<and> c \<in> ids"
    and "(i, fst (snd v'), c) \<in> cs \<Longrightarrow> c = i \<or> c = snd (snd v')"
proof -
  obtain s t x where V: "V i = (s, t, x)" by (cases "V i")
  obtain s' t' x' where v': "v' = (s', t', x')" by (cases v')
  have M: "recorded ids V cs" "own_vote ids V" "[] \<notin> ids" "i \<in> ids" "vstep i (s, t, x) l (s', t', x')"
    "\<forall>c. l = Some c \<longrightarrow> c \<in> ids" using assms by (auto simp: moves_def V v')
  have role: "s \<noteq> Follower \<Longrightarrow> x = i" using M(2,4) V by (auto simp: own_vote_def)
  have "i \<noteq> []" using M by blast
  note F = vstep_facts [OF M(5) role this]
  show "fst (snd (V i)) \<le> fst (snd v')" using F(1) V v' by simp
  show "fst v' \<noteq> Follower \<Longrightarrow> snd (snd v') = i" using F(3) v' by simp
  show "fst (snd v') = fst (snd (V i)) \<Longrightarrow> fst (V i) = Leader \<Longrightarrow> fst v' = Leader"
    using F(5) V v' by simp
  show "fst v' = Leader \<Longrightarrow> fst (V i) = Leader \<and> fst (snd v') = fst (snd (V i))"
    using F(6) V v' by simp
  show "l = Some c \<Longrightarrow> fst (V i) = Leader \<Longrightarrow> fst (snd v') = fst (snd (V i)) \<Longrightarrow> c = i"
    using F(7) V v' by simp
  show "v = i \<and> u = fst (snd v') \<and> c = snd (snd v') \<and> l = Some c \<and> c \<in> ids"
    if "(v, u, c) \<in> cast_by i v' l"
    using that F(4) M(6) by (auto simp: cast_by_def v' split: option.splits)
  show "c = i \<or> c = snd (snd v')" if "(i, fst (snd v'), c) \<in> cs"
  proof -
    from that v' have "(i, t', c) \<in> cs" by simp
    with M(1) have "t' \<le> fst (snd (V i)) \<and> (t' = fst (snd (V i)) \<longrightarrow> c = i \<or> c = snd (snd (V i))) \<and> c \<in> ids"
      unfolding recorded_def by blast
    with V have "t' \<le> t" "t' = t \<longrightarrow> c = i \<or> c = x" "c \<in> ids" by simp_all
    with F(1,2) M(3) v' show ?thesis by (metis le_antisym snd_conv)
  qed
qed

lemma recorded_move:
  assumes m: "moves ids V cs i l v'"
  shows "recorded ids (V(i := v')) (cs \<union> cast_by i v' l)"
  unfolding recorded_def
proof (intro allI impI)
  fix v u c
  assume mem: "(v, u, c) \<in> cs \<union> cast_by i v' l"
  note F = moves_facts [OF m]
  have R: "recorded ids V cs" "i \<in> ids" using m by (auto simp: moves_def)
  show "v \<in> ids \<and> c \<in> ids \<and> u \<le> fst (snd ((V(i := v')) v)) \<and>
      (u = fst (snd ((V(i := v')) v)) \<longrightarrow> c = v \<or> c = snd (snd ((V(i := v')) v)))"
  proof (cases "(v, u, c) \<in> cs")
    case True
    with R(1) have "v \<in> ids" "c \<in> ids" "u \<le> fst (snd (V v))"
      "u = fst (snd (V v)) \<longrightarrow> c = v \<or> c = snd (snd (V v))" by (auto simp: recorded_def)
    with True F(1) F(7) [of c] show ?thesis by (cases "v = i") (auto intro: le_trans)
  next
    case False
    with mem F(6) [of v u c] R(2) show ?thesis by auto
  qed
qed

lemma single_vote_move:
  assumes m: "moves ids V cs i l v'" and s: "single_vote cs"
  shows "single_vote (cs \<union> cast_by i v' l)"
  unfolding single_vote_def
proof (intro allI impI)
  fix v u c d
  assume mem: "(v, u, c) \<in> cs \<union> cast_by i v' l" "(v, u, d) \<in> cs \<union> cast_by i v' l"
  note F = moves_facts [OF m]
  show "c = d \<or> c = v \<or> d = v"
  proof (cases "v = i \<and> u = fst (snd v')")
    case True
    then have "c = i \<or> c = snd (snd v')" "d = i \<or> d = snd (snd v')"
      using mem F(6) F(7) by blast+
    with True show ?thesis by blast
  next
    case False
    then have "(v, u, c) \<in> cs" "(v, u, d) \<in> cs" using mem F(6) by blast+
    with s show ?thesis unfolding single_vote_def by blast
  qed
qed

lemma won_ok_move:
  assumes m: "moves ids V cs i l v'" and w: "won_ok ids V cs el"
  shows "won_ok ids (V(i := v')) (cs \<union> cast_by i v' l) el"
  unfolding won_ok_def
proof (intro allI impI)
  fix u k
  assume e: "(u, k) \<in> el"
  note F = moves_facts [OF m]
  from e w have E: "k \<in> ids" "u \<le> fst (snd (V k))" "u = fst (snd (V k)) \<longrightarrow> fst (V k) = Leader"
    "\<forall>c. (k, u, c) \<in> cs \<longrightarrow> c = k" "card ids < 2 * card {v. (v, u, k) \<in> cs}"
    by (auto simp: won_ok_def)
  have "u \<le> fst (snd ((V(i := v')) k))" using E(2) F(1) by (auto intro: le_trans)
  moreover have "u = fst (snd ((V(i := v')) k)) \<longrightarrow> fst ((V(i := v')) k) = Leader"
    using E(2,3) F(1,3) by (cases "k = i") auto
  moreover have "c = k" if "(k, u, c) \<in> cs \<union> cast_by i v' l" for c
    using that E(2-4) F(1) F(5) [of c] F(6) [of k u c] by (metis Un_iff le_antisym)
  moreover have "card ids < 2 * card {v. (v, u, k) \<in> cs \<union> cast_by i v' l}"
    using voters_card_mono [OF _ recorded_move [OF m] _ E(5)] m by (simp add: moves_def)
  ultimately show "k \<in> ids \<and> u \<le> fst (snd ((V(i := v')) k)) \<and>
      (u = fst (snd ((V(i := v')) k)) \<longrightarrow> fst ((V(i := v')) k) = Leader) \<and>
      (\<forall>c. (k, u, c) \<in> cs \<union> cast_by i v' l \<longrightarrow> c = k) \<and>
      card ids < 2 * card {v. (v, u, k) \<in> cs \<union> cast_by i v' l}"
    using E(1) by blast
qed

lemma votes_inv_move:
  assumes "votes_inv ids V cs el" and "moves ids V cs i l v'"
  shows "votes_inv ids (V(i := v')) (cs \<union> cast_by i v' l) el"
proof -
  note F = moves_facts [OF assms(2)]
  have "own_vote ids (V(i := v'))" using assms(1) F(2) by (auto simp: votes_inv_def own_vote_def)
  moreover have "leads_ok ids (V(i := v')) el"
    using assms F(4) by (auto simp: votes_inv_def leads_ok_def moves_def)
  ultimately show ?thesis
    using assms(1) recorded_move [OF assms(2)] single_vote_move [OF assms(2)] won_ok_move [OF assms(2)]
    by (simp add: votes_inv_def)
qed

section \<open>The invariant of the cluster\<close>

definition views :: "cluster \<Rightarrow> string \<Rightarrow> vview" where
  "views C = (\<lambda>i. view (nodes C i))"

definition members :: "string set \<Rightarrow> cluster \<Rightarrow> bool" where
  "members ids C \<longleftrightarrow> (\<forall>i \<in> ids. nodeID (nodes C i) = i \<and> gm_ok (peers (nodes C i)) \<and>
     set (gm_keys (peers (nodes C i))) = ids - {i})"

definition backers :: "string set \<Rightarrow> cluster \<Rightarrow> string \<Rightarrow> nat \<Rightarrow> string set" where
  "backers ids C i t = {p \<in> ids. p \<noteq> i \<and> (i, t, p) \<in> counted C \<and> (p, t, i) \<in> cast C}"

definition messages_ok :: "string set \<Rightarrow> cluster \<Rightarrow> bool" where
  "messages_ok ids C \<longleftrightarrow>
     (\<forall>p a. (p, a) \<in> requests C \<longrightarrow> p \<in> ids \<and> rv_CandidateID a \<in> ids \<and> p \<noteq> rv_CandidateID a \<and>
        \<not> rv_PreVote a \<and> (rv_CandidateID a, rv_Term a, rv_CandidateID a) \<in> cast C) \<and>
     (\<forall>i t p r. (i, t, p, r) \<in> replies C \<longrightarrow> i \<in> ids \<and> p \<in> ids \<and> p \<noteq> i \<and> (i, t, i) \<in> cast C \<and>
        (rvr_VoteGranted r \<longrightarrow> (p, t, i) \<in> cast C))"

definition tally_ok :: "string set \<Rightarrow> cluster \<Rightarrow> bool" where
  "tally_ok ids C \<longleftrightarrow> (\<forall>i t. tally C (i, t) \<le> 1 + card (backers ids C i t))"

definition wins_ok :: "string set \<Rightarrow> cluster \<Rightarrow> bool" where
  "wins_ok ids C \<longleftrightarrow> (\<forall>i t. (i, t) \<in> wins C \<longrightarrow> i \<in> ids \<and> card ids < 2 * card {v. (v, t, i) \<in> cast C})"

definition cluster_inv :: "string set \<Rightarrow> cluster \<Rightarrow> bool" where
  "cluster_inv ids C \<longleftrightarrow> members ids C \<and> messages_ok ids C \<and> tally_ok ids C \<and> wins_ok ids C \<and>
     votes_inv ids (views C) (cast C) (elected C)"

lemma members_set_node:
  "members ids C \<Longrightarrow> nodes C' = (nodes C)(i := n') \<Longrightarrow> cfg n' = cfg (nodes C i) \<Longrightarrow> members ids C'"
  by (auto simp: members_def)

lemma views_set_node: "nodes C' = (nodes C)(i := n') \<Longrightarrow> views C' = (views C)(i := view n')"
  by (auto simp: views_def)

lemma quorum_members: "members ids C \<Longrightarrow> finite ids \<Longrightarrow> i \<in> ids \<Longrightarrow>
    length (peers (nodes C i)) + 1 = card ids"
proof -
  assume a: "members ids C" "finite ids" "i \<in> ids"
  then have "card (set (gm_keys (peers (nodes C i)))) = card ids - 1"
    by (simp add: members_def card_Diff_singleton)
  moreover have "card (set (gm_keys (peers (nodes C i)))) = length (peers (nodes C i))"
    using a distinct_card [of "gm_keys (peers (nodes C i))"] unfolding members_def gm_ok_def by auto
  moreover have "0 < card ids" using a card_gt_0_iff by blast
  ultimately show ?thesis by simp
qed

lemma tally_ok_mono:
  assumes "finite ids" "tally_ok ids C" "counted C \<subseteq> counted C'" "cast C \<subseteq> cast C'"
    "\<And>i t. tally C' (i, t) \<le> max 1 (tally C (i, t))"
  shows "tally_ok ids C'"
  unfolding tally_ok_def
proof (intro allI)
  fix i t
  have "card (backers ids C i t) \<le> card (backers ids C' i t)"
    using assms(1,3,4) by (intro card_mono) (auto simp: backers_def)
  moreover have "tally C (i, t) \<le> 1 + card (backers ids C i t)"
    using assms(2) by (simp add: tally_ok_def)
  ultimately show "tally C' (i, t) \<le> 1 + card (backers ids C' i t)"
    using assms(5) [of i t] by linarith
qed

lemma wins_ok_mono:
  assumes "finite ids" "wins_ok ids C" "recorded ids V (cast C')" "cast C \<subseteq> cast C'" "wins C' = wins C"
  shows "wins_ok ids C'"
  using assms voters_card_mono [OF assms(1,3,4)] by (auto simp: wins_ok_def)

lemma cluster_inv_moves:
  assumes "cluster_inv ids C" "finite ids" "[] \<notin> ids" "i \<in> ids" "vstep i (view (nodes C i)) l v'"
    "\<And>c. l = Some c \<Longrightarrow> c \<in> ids"
  shows "moves ids (views C) (cast C) i l v'"
  using assms by (auto simp: cluster_inv_def votes_inv_def moves_def views_def)

text \<open>A step of one node that adds at most one vote and no election keeps the invariant, provided
  the messages and the counters it writes are in order.\<close>

lemma cluster_inv_step:
  assumes inv: "cluster_inv ids C" and ids: "finite ids" "[] \<notin> ids" "i \<in> ids"
    and v: "vstep i (view (nodes C i)) l (view n')" and lab: "\<And>c. l = Some c \<Longrightarrow> c \<in> ids"
    and cfg: "cfg n' = cfg (nodes C i)"
    and C': "nodes C' = (nodes C)(i := n')" "cast C' = cast C \<union> cast_by i (view n') l"
      "elected C' = elected C"
    and rest: "messages_ok ids C'" "tally_ok ids C'" "recorded ids (views C') (cast C') \<Longrightarrow> wins_ok ids C'"
  shows "cluster_inv ids C'"
proof -
  note m = cluster_inv_moves [OF inv ids v lab]
  have "votes_inv ids (views C') (cast C') (elected C')"
    using votes_inv_move [OF _ m] inv C' views_set_node [OF C'(1)] by (simp add: cluster_inv_def)
  moreover have "members ids C'"
    using inv members_set_node [OF _ C'(1) cfg] by (simp add: cluster_inv_def)
  ultimately show ?thesis using rest by (simp add: cluster_inv_def votes_inv_def)
qed

lemma campaign_Some:
  assumes "campaign t since n = (Some args, n')" and "currentTerm n + 1 < 2 ^ 64"
  shows "campaign_guard t since n" "n' = candidacy n" "args = voteArgs n'" "rv_Term args = currentTerm n'"
    "currentTerm n' = currentTerm n + 1" "cfg n' = cfg n"
  using assms by (auto simp: campaign_def Let_def voteArgs_def split: if_splits)

lemma campaign_step_inv:
  assumes inv: "cluster_inv ids C" and ids: "finite ids" "[] \<notin> ids" "i \<in> ids"
    and t: "currentTerm (nodes C i) + 1 < 2 ^ 64"
    and c: "campaign t since (nodes C i) = (Some args, n')"
  shows "cluster_inv ids (set_node i n' C\<lparr>
      requests := requests C \<union> (\<lambda>p. (p, args)) ` set (gm_keys (peers (nodes C i))),
      tally := (tally C)((i, rv_Term args) := 1), cast := insert (i, rv_Term args, i) (cast C)\<rparr>)"
    (is "cluster_inv ids ?C'")
proof -
  note S = campaign_Some [OF c t]
  have M: "nodeID (nodes C i) = i" "set (gm_keys (peers (nodes C i))) = ids - {i}"
    using inv ids by (auto simp: cluster_inv_def members_def)
  have "vstep i (view (nodes C i)) (Some i) (view n')"
    unfolding S(2) by (rule candidacy_refines [OF t S(1) M(1)])
  moreover have "messages_ok ids ?C'"
    using inv M ids S by (auto simp: cluster_inv_def messages_ok_def voteArgs_def)
  moreover have "tally_ok ids ?C'"
    by (rule tally_ok_mono [OF ids(1)]) (use inv in \<open>auto simp: cluster_inv_def\<close>)
  moreover have "recorded ids (views ?C') (cast ?C') \<Longrightarrow> wins_ok ids ?C'"
    by (rule wins_ok_mono [OF ids(1)]) (use inv in \<open>auto simp: cluster_inv_def\<close>)
  ultimately show ?thesis
    using cluster_inv_step [OF inv ids, of "Some i" n' ?C'] ids S
    by (simp add: cast_by_def view_def)
qed

lemma vote_step_inv:
  assumes inv: "cluster_inv ids C" and ids: "finite ids" "[] \<notin> ids"
    and req: "(p, args) \<in> requests C" and h: "HandleRequestVote now args (nodes C p) = (r, n')"
  shows "cluster_inv ids (set_node p n' C\<lparr>
      replies := insert (rv_CandidateID args, rv_Term args, p, r) (replies C),
      cast := (if rvr_VoteGranted r then insert (p, rv_Term args, rv_CandidateID args) (cast C) else cast C)\<rparr>)"
    (is "cluster_inv ids ?C'")
proof -
  have M: "messages_ok ids C" using inv by (simp add: cluster_inv_def)
  with req have R: "p \<in> ids" "rv_CandidateID args \<in> ids" "p \<noteq> rv_CandidateID args" "\<not> rv_PreVote args"
    "(rv_CandidateID args, rv_Term args, rv_CandidateID args) \<in> cast C"
    by (auto simp: messages_ok_def)
  note H = HandleRequestVote_refines [OF h R(4), of p]
  have "messages_ok ids ?C'" using M R by (auto simp: messages_ok_def)
  moreover have "tally_ok ids ?C'"
    by (rule tally_ok_mono [OF ids(1)]) (use inv in \<open>auto simp: cluster_inv_def\<close>)
  moreover have "recorded ids (views ?C') (cast ?C') \<Longrightarrow> wins_ok ids ?C'"
    by (rule wins_ok_mono [OF ids(1)]) (use inv in \<open>auto simp: cluster_inv_def\<close>)
  ultimately show ?thesis
    using cluster_inv_step [OF inv ids R(1), of "if rvr_VoteGranted r then Some (rv_CandidateID args) else None" n' ?C']
      H R by (auto simp: cast_by_def view_def split: if_splits)
qed

lemma backers_card:
  assumes "finite ids" "recorded ids V (cast C)" "(i, t, i) \<in> cast C"
  shows "1 + card (backers ids C i t) \<le> card {v. (v, t, i) \<in> cast C}"
proof -
  have "finite {v. (v, t, i) \<in> cast C}"
    by (rule finite_subset [OF _ assms(1)]) (use assms(2) in \<open>auto simp: recorded_def\<close>)
  moreover have "insert i (backers ids C i t) \<subseteq> {v. (v, t, i) \<in> cast C}"
    using assms(3) by (auto simp: backers_def)
  moreover have "card (insert i (backers ids C i t)) = 1 + card (backers ids C i t)"
    using assms(1) by (simp add: backers_def)
  ultimately show ?thesis by (metis card_mono)
qed

lemma tally_ok_count:
  assumes ids: "finite ids" and ok: "tally_ok ids C" and p: "p \<in> ids" "p \<noteq> i" "(i, t, p) \<notin> counted C"
    and C': "counted C' = insert (i, t, p) (counted C)" "cast C' = cast C"
      "tally C' = (tally C)((i, t) := votes)"
    and votes: "votes = (if granted then tally C (i, t) + 1 else tally C (i, t))"
      "granted \<Longrightarrow> (p, t, i) \<in> cast C"
  shows "tally_ok ids C'"
  unfolding tally_ok_def
proof (intro allI)
  fix j u
  let ?B = "backers ids C j u" and ?B' = "backers ids C' j u"
  have sub: "?B \<subseteq> ?B'" and fin: "finite ?B'" using C' ids by (auto simp: backers_def)
  have le: "card ?B \<le> card ?B'" by (rule card_mono [OF fin sub])
  have old: "tally C (j, u) \<le> 1 + card ?B" using ok by (simp add: tally_ok_def)
  show "tally C' (j, u) \<le> 1 + card ?B'"
  proof (cases "granted \<and> (j, u) = (i, t)")
    case True
    then have "insert p ?B \<subseteq> ?B'" using C' p votes(2) by (auto simp: backers_def)
    then have "card (insert p ?B) \<le> card ?B'" by (rule card_mono [OF fin])
    moreover have "p \<notin> ?B" using True p by (simp add: backers_def)
    moreover have "finite ?B" using finite_subset [OF sub fin] .
    ultimately show ?thesis using True old C' votes by simp
  next
    case False
    with old le C' votes show ?thesis by auto
  qed
qed

lemma count_step_inv:
  assumes inv: "cluster_inv ids C" and ids: "finite ids" "[] \<notin> ids"
    and rep: "(i, t, p, r) \<in> replies C" and fresh: "(i, t, p) \<notin> counted C"
    and h: "voteReply r (nodes C i) = (go, n')"
    and vt: "votes = (if go then countVote r (tally C (i, t)) else tally C (i, t))"
  shows "cluster_inv ids (set_node i n' C\<lparr>counted := insert (i, t, p) (counted C),
      tally := (tally C)((i, t) := votes),
      wins := (if go \<and> rvr_VoteGranted r \<and> quorum (peers (nodes C i)) \<le> votes
               then insert (i, t) (wins C) else wins C)\<rparr>)"
    (is "cluster_inv ids ?C'")
proof -
  have M: "messages_ok ids C" "tally_ok ids C" "wins_ok ids C" "members ids C"
    using inv by (auto simp: cluster_inv_def)
  with rep have R: "i \<in> ids" "p \<in> ids" "p \<noteq> i" "(i, t, i) \<in> cast C"
    "rvr_VoteGranted r \<longrightarrow> (p, t, i) \<in> cast C" by (auto simp: messages_ok_def)
  have tally: "tally_ok ids ?C'"
    by (rule tally_ok_count [OF ids(1) M(2) R(2,3) fresh, where granted = "go \<and> rvr_VoteGranted r"])
      (use R(5) in \<open>auto simp: vt countVote_def\<close>)
  have "tally ?C' (i, t) \<le> 1 + card (backers ids ?C' i t)"
    using tally unfolding tally_ok_def by blast
  then have votes: "votes \<le> 1 + card (backers ids ?C' i t)" by simp
  have wins: "wins_ok ids ?C'" if "recorded ids (views ?C') (cast ?C')"
  proof -
    have "1 + card (backers ids ?C' i t) \<le> card {v. (v, t, i) \<in> cast ?C'}"
      by (rule backers_card [OF ids(1) that]) (use R in simp)
    then have "card ids < 2 * card {v. (v, t, i) \<in> cast C}" if "quorum (peers (nodes C i)) \<le> votes"
      using that votes quorum_members [OF M(4) ids(1) R(1)] by (simp add: quorum_def)
    with M(3) R(1) show ?thesis by (auto simp: wins_ok_def)
  qed
  have "vstep i (view (nodes C i)) None (view n')" "cfg n' = cfg (nodes C i)"
    using voteReply_refines [OF h] by auto
  moreover have "messages_ok ids ?C'" using M(1) by (simp add: messages_ok_def)
  ultimately show ?thesis
    using cluster_inv_step [OF inv ids R(1), of None n' ?C'] tally wins by (simp add: cast_by_def)
qed

text \<open>A node takes office: it is a candidate of that term with the votes of a majority.\<close>

lemma votes_inv_elect:
  assumes inv: "votes_inv ids V cs el" and i: "i \<in> ids" and V: "V i = (Candidate, t, x)"
    and maj: "card ids < 2 * card {v. (v, t, i) \<in> cs}"
  shows "votes_inv ids (V(i := (Leader, t, x))) cs (insert (t, i) el)"
proof -
  have parts: "recorded ids V cs" "own_vote ids V" "single_vote cs" "won_ok ids V cs el" "leads_ok ids V el"
    using inv by (auto simp: votes_inv_def)
  have x: "x = i" using parts(2) i V by (auto simp: own_vote_def)
  have mine: "c = i" if "(i, t, c) \<in> cs" for c
  proof -
    have "c = i \<or> c = snd (snd (V i))" using parts(1) that V unfolding recorded_def by (metis fst_conv snd_conv)
    with x V show ?thesis by simp
  qed
  have "recorded ids (V(i := (Leader, t, x))) cs"
    using parts(1) V unfolding recorded_def by (metis fst_conv fun_upd_apply snd_conv)
  moreover have "own_vote ids (V(i := (Leader, t, x)))" using parts(2) x by (auto simp: own_vote_def)
  moreover have "won_ok ids (V(i := (Leader, t, x))) cs (insert (t, i) el)"
    using parts(4) V mine maj i unfolding won_ok_def by (auto simp: fun_upd_apply) (metis fst_conv snd_conv)
  moreover have "leads_ok ids (V(i := (Leader, t, x))) (insert (t, i) el)"
    using parts(5) by (auto simp: leads_ok_def)
  ultimately show ?thesis using parts(3) by (simp add: votes_inv_def)
qed

lemma win_step_inv:
  assumes inv: "cluster_inv ids C" and ids: "finite ids" "[] \<notin> ids"
    and w: "(i, t) \<in> wins C" and n': "n' = becomeLeader t (nodes C i)"
  shows "cluster_inv ids (set_node i n' C\<lparr>elected :=
      (if state (nodes C i) \<noteq> Leader \<and> state n' = Leader then insert (t, i) (elected C) else elected C)\<rparr>)"
    (is "cluster_inv ids ?C'")
proof -
  have W: "i \<in> ids" "card ids < 2 * card {v. (v, t, i) \<in> cast C}"
    using inv w by (auto simp: cluster_inv_def wins_ok_def)
  have frame: "messages_ok ids ?C'" "tally_ok ids ?C'" "wins_ok ids ?C'" "members ids ?C'"
    using inv by (auto simp: cluster_inv_def messages_ok_def tally_ok_def wins_ok_def backers_def members_def n')
  have V': "views ?C' = (views C)(i := view n')" by (rule views_set_node) simp
  have "votes_inv ids (views ?C') (cast ?C') (elected ?C')"
  proof (cases "state (nodes C i) = Candidate \<and> currentTerm (nodes C i) = t")
    case True
    then have "view n' = (Leader, t, votedFor (nodes C i))" "state n' = Leader"
      by (simp_all add: n' view_def becomeLeader_def)
    with True V' votes_inv_elect [OF _ W(1) _ W(2), of "views C" "elected C" "votedFor (nodes C i)"] inv
    show ?thesis by (simp add: cluster_inv_def views_def view_def)
  next
    case False
    then have "n' = nodes C i" by (simp add: n' becomeLeader_def)
    with inv V' show ?thesis by (auto simp: cluster_inv_def views_def fun_upd_idem)
  qed
  with frame show ?thesis by (simp add: cluster_inv_def)
qed

lemma campaign_None:
  assumes "campaign t since n = (None, n')" and "currentTerm n + 1 < 2 ^ 64" and "campaign_guard t since n"
  shows "n' = becomeLeader (currentTerm n + 1) (candidacy n)" "length (peers n) = 0"
  using assms by (auto simp: campaign_def Let_def quorum_def div_eq_0_iff split: if_splits)

lemma alone_step_inv:
  assumes inv: "cluster_inv ids C" and ids: "finite ids" "[] \<notin> ids" "i \<in> ids"
    and t: "currentTerm (nodes C i) + 1 < 2 ^ 64"
    and c: "campaign t since (nodes C i) = (None, n')" and g: "campaign_guard t since (nodes C i)"
  shows "cluster_inv ids (set_node i n' C\<lparr>cast := insert (i, currentTerm n', i) (cast C),
      elected := insert (currentTerm n', i) (elected C)\<rparr>)" (is "cluster_inv ids ?C'")
proof -
  let ?n = "nodes C i" and ?t = "currentTerm (nodes C i) + 1"
  note S = campaign_None [OF c t g]
  have M: "nodeID ?n = i" "members ids C" using inv ids(3) by (auto simp: cluster_inv_def members_def)
  let ?C1 = "set_node i (candidacy ?n) C\<lparr>cast := insert (i, ?t, i) (cast C)\<rparr>"
  have inv1: "cluster_inv ids ?C1"
  proof (rule cluster_inv_step [OF inv ids, of "Some i" "candidacy ?n"])
    show "vstep i (view ?n) (Some i) (view (candidacy ?n))" by (rule candidacy_refines [OF t g M(1)])
    show "messages_ok ids ?C1" using inv by (auto simp: cluster_inv_def messages_ok_def)
    show "tally_ok ids ?C1" by (rule tally_ok_mono [OF ids(1)]) (use inv in \<open>auto simp: cluster_inv_def\<close>)
    show "recorded ids (views ?C1) (cast ?C1) \<Longrightarrow> wins_ok ids ?C1"
      by (rule wins_ok_mono [OF ids(1)]) (use inv in \<open>auto simp: cluster_inv_def\<close>)
  qed (use ids t in \<open>auto simp: cast_by_def view_def\<close>)
  have "1 + card (backers ids ?C1 i ?t) \<le> card {v. (v, ?t, i) \<in> cast ?C1}"
    by (rule backers_card [OF ids(1)]) (use inv1 in \<open>auto simp: cluster_inv_def votes_inv_def\<close>)
  moreover have "card ids = 1" using quorum_members [OF M(2) ids(1,3)] S(2) by simp
  ultimately have "card ids < 2 * card {v. (v, ?t, i) \<in> cast ?C1}" by linarith
  with votes_inv_elect [of ids "views ?C1" "cast ?C1" "elected ?C1" i ?t i] inv1 ids t M(1)
  have "votes_inv ids ((views ?C1)(i := (Leader, ?t, i))) (cast ?C1) (insert (?t, i) (elected C))"
    by (simp add: cluster_inv_def views_def view_def)
  moreover have V': "view n' = (Leader, ?t, i)" and t': "currentTerm n' = ?t" and cfg': "cfg n' = cfg ?n"
    using S(1) t M(1) by (simp_all add: view_def becomeLeader_def)
  moreover have "views ?C' = (views ?C1)(i := (Leader, ?t, i))" using V' by (auto simp: views_def)
  moreover have "messages_ok ids ?C'" using inv1 t' by (simp add: cluster_inv_def messages_ok_def)
  moreover have "tally_ok ids ?C'" using inv1 t' by (simp add: cluster_inv_def tally_ok_def backers_def)
  moreover have "wins_ok ids ?C'" using inv1 t' by (simp add: cluster_inv_def wins_ok_def)
  moreover have "members ids ?C'" by (rule members_set_node [OF M(2) _ cfg']) simp
  ultimately show ?thesis by (simp add: cluster_inv_def)
qed

lemma other_step_inv:
  assumes inv: "cluster_inv ids C" and ids: "finite ids" "[] \<notin> ids" "i \<in> ids"
    and h: "other_step (nodes C i) n'"
  shows "cluster_inv ids (set_node i n' C)"
proof (rule cluster_inv_step [OF inv ids, of None n'])
  show "vstep i (view (nodes C i)) None (view n')" "cfg n' = cfg (nodes C i)"
    using other_step_refines [OF h] by auto
qed (use inv in \<open>auto simp: cluster_inv_def messages_ok_def tally_ok_def wins_ok_def backers_def cast_by_def\<close>)

lemma cstep_inv: "cstep ids C C' \<Longrightarrow> finite ids \<Longrightarrow> [] \<notin> ids \<Longrightarrow> cluster_inv ids C \<Longrightarrow> cluster_inv ids C'"
proof (induction rule: cstep.induct)
  case (campaign i n C t since args n')
  then show ?case using campaign_step_inv by blast
next
  case (campaign_alone i n C t since n')
  then show ?case using alone_step_inv by blast
next
  case (vote p args C now r n')
  show ?case by (rule vote_step_inv [OF vote(5,3,4,1,2)])
next
  case (count i t p r C go n' votes)
  show ?case by (rule count_step_inv [OF count(7,5,6,1-4)])
next
  case (win i t C n')
  show ?case by (rule win_step_inv [OF win(5,3,4,1,2)])
next
  case (other i C n')
  show ?case by (rule other_step_inv [OF other(5,3,4,1,2)])
qed

lemma init_inv:
  assumes "\<forall>i \<in> ids. member_config ids i (cf i)"
  shows "cluster_inv ids (init_cluster cf)"
proof -
  have "members ids (init_cluster cf)"
    unfolding members_def
  proof (intro ballI)
    fix i
    assume "i \<in> ids"
    with assms have m: "cfg_ID (cf i) = i" "gm_ok (cfg_Peers (cf i))"
      "insert i (set (gm_keys (cfg_Peers (cf i)))) = ids" by (auto simp: member_config_def)
    have "set (gm_keys (withoutSelf i (cfg_Peers (cf i)))) = set (gm_keys (cfg_Peers (cf i))) - {i}"
      by (force simp: withoutSelf_def)
    with m show "nodeID (nodes (init_cluster cf) i) = i \<and> gm_ok (peers (nodes (init_cluster cf) i)) \<and>
        set (gm_keys (peers (nodes (init_cluster cf) i))) = ids - {i}"
      using withoutSelf_ok [of "cfg_Peers (cf i)" i]
      by (auto simp: init_cluster_def NewNode_def with_defaults_def)
  qed
  then show ?thesis
    by (auto simp: cluster_inv_def init_cluster_def messages_ok_def tally_ok_def wins_ok_def votes_inv_def
        recorded_def own_vote_def single_vote_def won_ok_def leads_ok_def views_def view_def NewNode_def)
qed

lemma cluster_run_inv:
  assumes "cluster_run ids cf C" "finite ids" "[] \<notin> ids" "\<forall>i \<in> ids. member_config ids i (cf i)"
  shows "cluster_inv ids C"
  using assms by (induction rule: cluster_run.induct) (auto intro: init_inv cstep_inv)

section \<open>Election safety\<close>

lemma elected_unique:
  assumes "votes_inv ids V cs el" and "finite ids" and "(t, i) \<in> el" and "(t, j) \<in> el"
  shows "i = j"
proof -
  let ?A = "{v. (v, t, i) \<in> cs}" and ?B = "{v. (v, t, j) \<in> cs}"
  have W: "\<forall>c. (i, t, c) \<in> cs \<longrightarrow> c = i" "\<forall>c. (j, t, c) \<in> cs \<longrightarrow> c = j"
    "card ids < 2 * card ?A" "card ids < 2 * card ?B"
    using assms(1,3,4) by (auto simp: votes_inv_def won_ok_def)
  have "?A \<inter> ?B \<noteq> {}"
  proof (rule card_inter_nonempty [OF assms(2)])
    show "?A \<subseteq> ids" "?B \<subseteq> ids" using assms(1) by (auto simp: votes_inv_def recorded_def)
    show "card ids < card ?A + card ?B" using W(3,4) by linarith
  qed
  then obtain v where v: "(v, t, i) \<in> cs" "(v, t, j) \<in> cs" by blast
  with assms(1) have "i = j \<or> i = v \<or> j = v" by (auto simp: votes_inv_def single_vote_def)
  with v W(1,2) show ?thesis by blast
qed

text \<open>C7: Election safety. In a cluster with a fixed membership, whatever the interleaving of
  campaigns, votes, late, lost or repeated messages, step-downs and arbitrary AppendEntries
  requests, two nodes that are leaders in the same term are the same node.\<close>

theorem election_safety:
  assumes "cluster_run ids cf C" and "finite ids" and "[] \<notin> ids"
    and "\<forall>i \<in> ids. member_config ids i (cf i)"
    and "i \<in> ids" and "j \<in> ids"
    and "state (nodes C i) = Leader" and "state (nodes C j) = Leader"
    and "currentTerm (nodes C i) = currentTerm (nodes C j)"
  shows "i = j"
proof -
  have inv: "votes_inv ids (views C) (cast C) (elected C)"
    using cluster_run_inv [OF assms(1-4)] by (simp add: cluster_inv_def)
  then have "(currentTerm (nodes C i), i) \<in> elected C" "(currentTerm (nodes C j), j) \<in> elected C"
    using assms(5-8) by (auto simp: votes_inv_def leads_ok_def views_def view_def)
  with assms(9) elected_unique [OF inv assms(2)] show ?thesis by simp
qed

text \<open>The hypotheses are met by a run of three nodes in which \<open>a\<close> wins with the vote of \<open>b\<close>.\<close>

definition ids3 :: "string set" where
  "ids3 = {''a'', ''b'', ''c''}"

definition run_args :: RequestVoteArgs where
  "run_args = voteArgs (candidacy (NewNode (cfg3 ''a'')))"

lemmas run_defs = run_args_def voteArgs_def candidacy_def NewNode_def cfg3_def with_defaults_def withoutSelf_def
  lastLogIndex_def lastLogTerm_def sentinel_def

lemma three_node_run:
  "\<exists>C. cluster_run ids3 cfg3 C \<and> state (nodes C ''a'') = Leader \<and> currentTerm (nodes C ''a'') = 1"
proof -
  let ?C0 = "init_cluster cfg3"
  let ?a = "candidacy (NewNode (cfg3 ''a''))"
  have "campaign 0 zero_time (nodes ?C0 ''a'') = (Some run_args, ?a)"
    by (simp add: init_cluster_def campaign_def campaign_guard_def Let_def run_defs quorum_def)
  from cstep.campaign [OF _ refl _ this] obtain C1 where C1: "cstep ids3 ?C0 C1"
    "nodes C1 ''a'' = ?a" "nodes C1 ''b'' = NewNode (cfg3 ''b'')" "(''b'', run_args) \<in> requests C1"
    "tally C1 (''a'', Suc 0) = Suc 0" "counted C1 = {}"
    by (atomize_elim, rule_tac exI) (auto simp: ids3_def init_cluster_def run_defs)
  obtain r n' where hb: "HandleRequestVote 0 run_args (nodes C1 ''b'') = (r, n')" by (meson surj_pair)
  then have r: "rvr_VoteGranted r" "rvr_Term r = 1"
    by (auto simp: C1 HandleRequestVote_def Let_def run_defs logOK_def stepDown_def signalElectionReset_def
        split: if_splits)
  from cstep.vote [OF C1(4) hb, of ids3] obtain C2 where C2: "cstep ids3 C1 C2"
    "nodes C2 ''a'' = ?a" "(''a'', Suc 0, ''b'', r) \<in> replies C2" "tally C2 (''a'', Suc 0) = Suc 0" "counted C2 = {}"
    by (atomize_elim, rule_tac exI) (auto simp: C1 run_defs)
  have "voteReply r (nodes C2 ''a'') = (True, ?a)" by (simp add: C2 voteReply_def r run_defs)
  from cstep.count [OF C2(3) _ this refl, of ids3] obtain C3 where C3: "cstep ids3 C2 C3"
    "nodes C3 ''a'' = ?a" "(''a'', Suc 0) \<in> wins C3"
    by (atomize_elim, rule_tac exI) (auto simp: C2 r countVote_def quorum_def run_defs)
  from cstep.win [OF C3(3) refl, of ids3] obtain C4 where C4: "cstep ids3 C3 C4"
    "nodes C4 ''a'' = becomeLeader (Suc 0) ?a"
    by (atomize_elim, rule_tac exI) (auto simp: C3)
  have "cluster_run ids3 cfg3 C4"
    by (rule cluster_run.step [OF cluster_run.step [OF cluster_run.step [OF cluster_run.step
      [OF cluster_run.init C1(1)] C2(1)] C3(1)] C4(1)])
  then show ?thesis by (rule_tac exI) (auto simp: C4 becomeLeader_def run_defs)
qed

theorem election_safety_witness:
  "\<exists>C. cluster_run ids3 cfg3 C \<and> state (nodes C ''a'') = Leader \<and>
     \<not> (state (nodes C ''b'') = Leader \<and> currentTerm (nodes C ''b'') = 1)"
proof -
  obtain C where C: "cluster_run ids3 cfg3 C" "state (nodes C ''a'') = Leader" "currentTerm (nodes C ''a'') = 1"
    using three_node_run by blast
  have cf: "\<forall>i \<in> ids3. member_config ids3 i (cfg3 i)"
    by (auto simp: ids3_def member_config_def cfg3_def gm_ok_def)
  have "\<not> (state (nodes C ''b'') = Leader \<and> currentTerm (nodes C ''b'') = 1)"
    using election_safety [OF C(1) _ _ cf, of "''a''" "''b''"] C by (auto simp: ids3_def)
  with C show ?thesis by blast
qed

lemma other_refines_voter:
  "other_step n n' \<Longrightarrow> \<exists>l v. vstep (nodeID n) (view n) l v \<and>
     (view n' = v \<or> fst v = Candidate \<and> view n' = (Leader, snd v))"
  using other_step_refines by blast



end
