(* ===== verification/Route.thy ===== *)
theory Route
  imports Complex_Main Gostrings
begin

text \<open>
  The route and its configuration blocks (\<open>internal/edge/router/route.go\<close>), field by field. A
  pointer field is an \<open>option\<close> (\<open>None\<close> is \<open>nil\<close>), a Go string type and a raw JSON value are strings,
  a \<open>float64\<close> is a rational, and the free-form configuration of a plugin is the map of its JSON texts. A slice is a list; where
  the code tells a nil slice from an empty one (\<open>ForwardedHeaders\<close>) it is an \<open>option\<close> of a list.
\<close>

definition LBRoundRobin :: string where "LBRoundRobin = ''round_robin''"
definition LBWeighted :: string where "LBWeighted = ''weighted''"
definition LBAdaptive :: string where "LBAdaptive = ''adaptive''"
definition RouteHTTP :: string where "RouteHTTP = ''http''"
definition RouteTCP :: string where "RouteTCP = ''tcp''"
definition RouteUDP :: string where "RouteUDP = ''udp''"
definition HTMLInjectHeadEnd :: string where "HTMLInjectHeadEnd = ''head_end''"
definition HTMLInjectBodyEnd :: string where "HTMLInjectBodyEnd = ''body_end''"

record RouteOrigin =
  ro_ID :: string
  ro_Edge :: string

record RouteLoggingConfig =
  lg_AccessLog :: bool
  lg_Format :: string
  lg_Level :: string

record ErrorPagesConfig =
  ep_Pages :: "(string, string) gomap"
  ep_Templates :: "(string, string) gomap"

record Backend =
  be_URL :: string
  be_Weight :: int
  be_ContainerID :: string
  be_Image :: string
  be_AgentName :: string
  be_OwnerEdgeEndpoint :: string
  be_OwnerEdgeName :: string

record RateLimitConfig =
  rl_RequestsPerSecond :: rat
  rl_Burst :: int
  rl_KeyBy :: string
  rl_Quota :: int
  rl_QuotaPeriod :: string
  rl_Shared :: bool

record LimitConnConfig =
  lc_MaxPerIP :: int

record BackpressureConfig =
  bp_MaxInflight :: int
  bp_Queue :: int
  bp_QueueTimeoutMs :: int

record PluginRef =
  pl_Name :: string
  pl_Config :: "(string, string) gomap"

record IPFilterConfig =
  ipf_Mode :: string
  ipf_CIDRs :: "string list"

record CacheValidRule =
  cv_StatusCodes :: "int list"
  cv_TTL :: string

record CacheConfig =
  cache_Enabled :: bool
  cache_Dir :: string
  cache_ValidRules :: "CacheValidRule list"
  cache_BypassHeaders :: "string list"
  cache_BypassCookies :: "string list"
  cache_IgnoreCookies :: bool
  cache_VaryCookies :: "string list"
  cache_Methods :: "string list"
  cache_StaleWhileRevalidate :: string
  cache_StaleIfError :: string
  cache_DisableCoalescing :: bool

record CompressionConfig =
  comp_Enabled :: bool
  comp_Algorithms :: "string list"
  comp_MinLength :: int
  comp_Level :: int
  comp_Types :: "string list"

record RequestVarCase =
  rvc_Pattern :: string
  rvc_Value :: string
  rvc_Regex :: bool

record RequestVar =
  rv_Name :: string
  rv_Source :: string
  rv_Key :: string
  rv_Default :: string
  rv_Cases :: "RequestVarCase list"

record SubFilter =
  sf_From :: string
  sf_To :: string
  sf_Regex :: bool

record CookieRewrite =
  ck_From :: string
  ck_To :: string
  ck_Regex :: bool

record ProxyRedirect =
  pr_From :: string
  pr_To :: string
  pr_Regex :: bool

record HeadersConfig =
  hd_HSTS :: bool
  hd_HSTSMaxAge :: int
  hd_XFrameOptions :: string
  hd_HideServer :: bool
  hd_Custom :: "(string, string) gomap"

record HeadersManipulationConfig =
  hm_ForwardedHeaders :: "string list option"
  hm_RequestSetHeader :: "(string, string) gomap"
  hm_RequestHideHeader :: "string list"
  hm_ResponseAddHeader :: "string list"

record SurfaceConfig =
  su_Mode :: string
  su_Type :: string

record CORSConfig =
  cors_AllowedOrigins :: "string list"
  cors_AllowedMethods :: "string list"
  cors_AllowedHeaders :: "string list"
  cors_MaxAge :: int

record GeoIPConfig =
  geo_DBPath :: string
  geo_Mode :: string
  geo_Countries :: "string list"

record RequestTransform =
  tr_RewriteFrom :: string
  tr_RewriteTo :: string
  tr_AddRequestHeaders :: "(string, string) gomap"
  tr_RemoveRequestHeaders :: "string list"
  tr_AddResponseHeaders :: "(string, string) gomap"
  tr_RemoveResponseHeaders :: "string list"

record CBConfig =
  cb_Threshold :: int
  cb_Timeout :: go_duration

record HealthCheckConfig =
  hc_Path :: string
  hc_Interval :: go_duration
  hc_Timeout :: go_duration
  hc_HealthyThreshold :: int
  hc_UnhealthyThreshold :: int

record RetryConfig =
  ry_Attempts :: int
  ry_InitialWait :: go_duration
  ry_MaxWait :: go_duration

record WAFExclusion =
  wx_Paths :: "string list"
  wx_RuleIDs :: "int list"
  wx_Platform :: string
  wx_Note :: string

record CustomRule =
  cr_ID :: int
  cr_Category :: string
  cr_Severity :: string
  cr_Pattern :: string
  cr_Targets :: "string list"
  cr_Message :: string
  cr_Score :: int

record WAFConfig =
  waf_Enabled :: bool
  waf_Mode :: string
  waf_ExcludeIDs :: "int list"
  waf_MaxBodyMB :: int
  waf_AnomalyThreshold :: int
  waf_CustomRules :: "CustomRule list"
  waf_BehaviorEnabled :: bool
  waf_BehaviorWindowSec :: int
  waf_BehaviorThreshold :: int
  waf_TrustedProxies :: "string list"
  waf_Exclusions :: "WAFExclusion list"
  waf_CustomRulesPath :: string
  waf_WhitelistIPs :: "string list"

record BotConfig =
  bot_Enabled :: bool
  bot_Mode :: string
  bot_UABlacklist :: "string list"
  bot_JSChallenge :: bool
  bot_ChallengeSecret :: string
  bot_ChallengeProvider :: string
  bot_ChallengeDifficulty :: int
  bot_ChallengeTTL :: string
  bot_ChallengeSiteKey :: string
  bot_ChallengeProviderSecret :: string
  bot_ChallengeExemptPaths :: "string list"

record JWTConfig =
  jwt_Enabled :: bool
  jwt_JWKSURL :: string
  jwt_Issuer :: string
  jwt_Audience :: string
  jwt_HeaderName :: string
  jwt_ClaimsHeader :: string

record MTLSConfig =
  mtls_Enabled :: bool
  mtls_CACertFile :: string
  mtls_CACertPEM :: string
  mtls_RequireClientCert :: bool
  mtls_AllowedSANs :: "string list"
  mtls_SubjectHeader :: string

record BasicUser =
  bu_Username :: string
  bu_Password :: string

record OIDCConfig =
  oidc_IssuerURL :: string
  oidc_ClientID :: string
  oidc_ClientSecret :: string
  oidc_RedirectURL :: string
  oidc_Scopes :: "string list"
  oidc_UsernameClaim :: string
  oidc_SessionSecret :: string
  oidc_SessionMaxAge :: int

record GitHubOAuthConfig =
  gh_ClientID :: string
  gh_ClientSecret :: string
  gh_RedirectURL :: string
  gh_AllowedOrgs :: "string list"
  gh_AllowedTeams :: "string list"
  gh_SessionSecret :: string
  gh_SessionMaxAge :: int

record LDAPConfig =
  ldap_URL :: string
  ldap_BindDN :: string
  ldap_BindPassword :: string
  ldap_BaseDN :: string
  ldap_UserFilter :: string
  ldap_GroupFilter :: string
  ldap_AllowedGroups :: "string list"
  ldap_UsernameAttr :: string
  ldap_EmailAttr :: string
  ldap_TLSSkipVerify :: bool
  ldap_SessionSecret :: string
  ldap_SessionMaxAge :: int

record SAMLConfig =
  saml_EntityID :: string
  saml_ACSPath :: string
  saml_MetadataPath :: string
  saml_CertPEM :: string
  saml_KeyPEM :: string
  saml_IDPMetadataURL :: string
  saml_IDPMetadataXML :: string
  saml_UsernameAttr :: string
  saml_EmailAttr :: string
  saml_GroupsAttr :: string
  saml_AllowedGroups :: "string list"
  saml_SessionSecret :: string
  saml_SessionMaxAge :: int

record SSOConfig =
  sso_Enabled :: bool
  sso_Provider :: string
  sso_ForwardAuthURL :: string
  sso_ForwardAuthTimeoutMs :: int
  sso_ForwardAuthSignInURL :: string
  sso_HeadersToForward :: "string list"
  sso_BasicUsers :: "BasicUser list"
  sso_Realm :: string
  sso_OIDC :: "OIDCConfig option"
  sso_GitHub :: "GitHubOAuthConfig option"
  sso_LDAP :: "LDAPConfig option"
  sso_SAML :: "SAMLConfig option"

record CanaryConfig =
  ca_Backend :: string
  ca_Weight :: int
  ca_Header :: string
  ca_HeaderValue :: string
  ca_CookieName :: string
  ca_ContainerID :: string

record ShadowConfig =
  sh_Backend :: string
  sh_ContainerID :: string
  sh_Compare :: bool
  sh_CompareHeaders :: "string list"
  sh_CompareBody :: bool

record Condition =
  cond_Type :: string
  cond_Name :: string
  cond_Value :: string
  cond_Regex :: bool
  cond_Backend :: string

record Location =
  loc_Path :: string
  loc_PathType :: string
  loc_CaseInsensitive :: "bool option"
  loc_StripPrefix :: bool
  loc_PathRewrite :: string
  loc_Backends :: "Backend list"
  loc_RateLimit :: "RateLimitConfig option"
  loc_IPFilter :: "IPFilterConfig option"
  loc_Headers :: "HeadersConfig option"
  loc_CORS :: "CORSConfig option"
  loc_Auth :: "SSOConfig option"
  loc_MaxBodySize :: int
  loc_ConnectTimeout :: go_duration
  loc_ResponseTimeout :: go_duration
  loc_SendTimeout :: go_duration
  loc_Logging :: "RouteLoggingConfig option"
  loc_ErrorPages :: "ErrorPagesConfig option"

record SplitVariant =
  sv_Name :: string
  sv_Backend :: string
  sv_Weight :: int

record SplitConfig =
  sp_Variants :: "SplitVariant list"
  sp_StickyCookie :: string
  sp_Override :: string

record MaintenanceConfig =
  mt_Enabled :: bool
  mt_Message :: string
  mt_HTML :: string
  mt_RetryAfterSec :: int
  mt_BypassCIDRs :: "string list"
  mt_BypassHeader :: string

record SignedURLConfig =
  sg_Enabled :: bool
  sg_Secret :: string
  sg_ParamSig :: string
  sg_ParamExpires :: string
  sg_Paths :: "string list"

record GraphQLConfig =
  gq_Enabled :: bool
  gq_MaxDepth :: int
  gq_MaxAliases :: int
  gq_BlockIntrospection :: bool

record BandwidthConfig =
  bw_BytesPerSec :: int

record HTMLInjectConfig =
  hi_Position :: string
  hi_Content :: string
  hi_CSPNonce :: bool

record RedactConfig =
  rd_Fields :: "string list"
  rd_Mask :: string

record HedgeConfig =
  hg_DelayMs :: int
  hg_MaxExtra :: int

record StaticConfig =
  st_Enabled :: bool
  st_Root :: string
  st_Index :: string
  st_SPAFallback :: bool
  st_CacheMaxAge :: int

record RequestSchemaRule =
  rsr_Methods :: "string list"
  rsr_PathPrefix :: string
  rsr_Schema :: string

record RequestSchemaConfig =
  rs_Enabled :: bool
  rs_Mode :: string
  rs_MaxBody :: int
  rs_Rules :: "RequestSchemaRule list"

record OpenAPIConfig =
  oa_Enabled :: bool
  oa_Spec :: string
  oa_Mode :: string
  oa_UnknownPaths :: string
  oa_StripPrefix :: string
  oa_MaxBody :: int
  oa_Skip :: "string list"
  oa_BlockReasons :: "string list"

record GRPCTranscodeConfig =
  gt_Enabled :: bool
  gt_Proto :: "(string, string) gomap"
  gt_DescriptorSet :: string
  gt_Services :: "string list"
  gt_AutoMapping :: bool
  gt_EmitDefaults :: bool
  gt_ProtoFieldNames :: bool
  gt_MaxRequestBody :: int
  gt_MaxResponseBody :: int

record Route =
  rt_ID :: string
  rt_Name :: string
  rt_Labels :: "(string, string) gomap"
  rt_Host :: string
  rt_Aliases :: "string list"
  rt_Type :: string
  rt_Backends :: "Backend list"
  rt_AgentName :: string
  rt_Origin :: "RouteOrigin option"
  rt_DelegateAPIEndpoint :: string
  rt_TLSEnabled :: bool
  rt_TLSPassthrough :: bool
  rt_CertName :: string
  rt_TLSSkipVerify :: bool
  rt_PreserveHost :: "bool option"
  rt_Websocket :: "bool option"
  rt_HttpVersion :: string
  rt_RequestID :: "bool option"
  rt_ListenPort :: int
  rt_IdleTimeoutSec :: int
  rt_Plugins :: "PluginRef list"
  rt_RateLimit :: "RateLimitConfig option"
  rt_LimitConn :: "LimitConnConfig option"
  rt_Backpressure :: "BackpressureConfig option"
  rt_IPFilter :: "IPFilterConfig option"
  rt_GeoIP :: "GeoIPConfig option"
  rt_Headers :: "HeadersConfig option"
  rt_HeadersManipulation :: "HeadersManipulationConfig option"
  rt_CORS :: "CORSConfig option"
  rt_WAF :: "WAFConfig option"
  rt_Bot :: "BotConfig option"
  rt_JWT :: "JWTConfig option"
  rt_MTLS :: "MTLSConfig option"
  rt_SSO :: "SSOConfig option"
  rt_Surface :: "SurfaceConfig option"
  rt_CachePath :: string
  rt_Cache :: "CacheConfig option"
  rt_Compression :: "CompressionConfig option"
  rt_ProxyProtocol :: string
  rt_ConnectTimeout :: go_duration
  rt_ResponseTimeout :: go_duration
  rt_SendTimeout :: go_duration
  rt_BufferSize :: int
  rt_MaxBodySize :: int
  rt_LB :: string
  rt_CircuitBreaker :: "CBConfig option"
  rt_Retry :: "RetryConfig option"
  rt_StickyCookie :: string
  rt_SlowStartSec :: int
  rt_HealthCheck :: "HealthCheckConfig option"
  rt_Transform :: "RequestTransform option"
  rt_Canary :: "CanaryConfig option"
  rt_Shadow :: "ShadowConfig option"
  rt_Split :: "SplitConfig option"
  rt_Maintenance :: "MaintenanceConfig option"
  rt_SignedURL :: "SignedURLConfig option"
  rt_GraphQL :: "GraphQLConfig option"
  rt_Static :: "StaticConfig option"
  rt_RequestSchema :: "RequestSchemaConfig option"
  rt_OpenAPI :: "OpenAPIConfig option"
  rt_GRPCTranscode :: "GRPCTranscodeConfig option"
  rt_Hedge :: "HedgeConfig option"
  rt_GRPCWeb :: bool
  rt_Bandwidth :: "BandwidthConfig option"
  rt_RedactJSON :: "RedactConfig option"
  rt_HTMLInject :: "HTMLInjectConfig option"
  rt_Conditions :: "Condition list"
  rt_Locations :: "Location list"
  rt_StripPrefix :: string
  rt_StripPrefixFold :: bool
  rt_PathRewrite :: string
  rt_PathRewritePattern :: string
  rt_ProxyRedirects :: "ProxyRedirect list"
  rt_RequestVars :: "RequestVar list"
  rt_SubFilters :: "SubFilter list"
  rt_CookieDomains :: "CookieRewrite list"
  rt_CookiePaths :: "CookieRewrite list"
  rt_EphorWhitelist :: "string list"
  rt_Logging :: "RouteLoggingConfig option"
  rt_ErrorPages :: "ErrorPagesConfig option"
  rt_SnippetUnresolved :: string
  rt_SnippetIDs :: "string list"
  rt_AuthProviderID :: string
  rt_UpdatedAt :: go_time

text \<open>\<open>GetPages\<close> and \<open>GetTemplates\<close> accept a nil receiver.\<close>

definition GetPages :: "ErrorPagesConfig option \<Rightarrow> (string, string) gomap" where
  "GetPages c = (case c of None \<Rightarrow> [] | Some e \<Rightarrow> ep_Pages e)"

definition GetTemplates :: "ErrorPagesConfig option \<Rightarrow> (string, string) gomap" where
  "GetTemplates c = (case c of None \<Rightarrow> [] | Some e \<Rightarrow> ep_Templates e)"

text \<open>\<open>maxbody.go\<close>.\<close>

definition DefaultMaxBodySize :: int where
  "DefaultMaxBodySize = 100 * 2 ^ 20"

definition EffectiveMaxBodySize :: "Route \<Rightarrow> int" where
  "EffectiveMaxBodySize r =
     (if rt_MaxBodySize r < 0 then 0
      else if rt_MaxBodySize r = 0 then DefaultMaxBodySize
      else rt_MaxBodySize r)"

text \<open>A route with every field at its zero value.\<close>

definition zero_route :: Route where
  "zero_route = \<lparr>rt_ID = [], rt_Name = [], rt_Labels = [], rt_Host = [], rt_Aliases = [], rt_Type = [],
     rt_Backends = [], rt_AgentName = [], rt_Origin = None, rt_DelegateAPIEndpoint = [],
     rt_TLSEnabled = False, rt_TLSPassthrough = False, rt_CertName = [], rt_TLSSkipVerify = False,
     rt_PreserveHost = None, rt_Websocket = None, rt_HttpVersion = [], rt_RequestID = None,
     rt_ListenPort = 0, rt_IdleTimeoutSec = 0, rt_Plugins = [], rt_RateLimit = None, rt_LimitConn = None,
     rt_Backpressure = None, rt_IPFilter = None, rt_GeoIP = None, rt_Headers = None,
     rt_HeadersManipulation = None, rt_CORS = None, rt_WAF = None, rt_Bot = None, rt_JWT = None,
     rt_MTLS = None, rt_SSO = None, rt_Surface = None, rt_CachePath = [], rt_Cache = None,
     rt_Compression = None, rt_ProxyProtocol = [], rt_ConnectTimeout = 0, rt_ResponseTimeout = 0,
     rt_SendTimeout = 0, rt_BufferSize = 0, rt_MaxBodySize = 0, rt_LB = [], rt_CircuitBreaker = None,
     rt_Retry = None, rt_StickyCookie = [], rt_SlowStartSec = 0, rt_HealthCheck = None,
     rt_Transform = None, rt_Canary = None, rt_Shadow = None, rt_Split = None, rt_Maintenance = None,
     rt_SignedURL = None, rt_GraphQL = None, rt_Static = None, rt_RequestSchema = None, rt_OpenAPI = None,
     rt_GRPCTranscode = None, rt_Hedge = None, rt_GRPCWeb = False, rt_Bandwidth = None,
     rt_RedactJSON = None, rt_HTMLInject = None, rt_Conditions = [], rt_Locations = [],
     rt_StripPrefix = [], rt_StripPrefixFold = False, rt_PathRewrite = [], rt_PathRewritePattern = [],
     rt_ProxyRedirects = [], rt_RequestVars = [], rt_SubFilters = [], rt_CookieDomains = [],
     rt_CookiePaths = [], rt_EphorWhitelist = [], rt_Logging = None, rt_ErrorPages = None,
     rt_SnippetUnresolved = [], rt_SnippetIDs = [], rt_AuthProviderID = [], rt_UpdatedAt = zero_time\<rparr>"

end
