(* ===== verification/Router_Table.thy ===== *)
theory Router_Table
  imports Route
begin

text \<open>
  The routing table (\<open>internal/edge/router/table.go\<close>). Its contents are three maps, from route
  identifiers, host keys and listening ports to routes. The Go maps hold pointers to routes that
  are not modified once inserted, so a map entry is the route itself; two distinct routes of the
  table differ at least in their identifier, hence comparing pointers is comparing routes. The
  writers hold the mutex for the whole of an operation: each is one function on the state. The
  registered \<open>onChange\<close> callback is observed through the number of times it is called.
\<close>

record tableData =
  td_routes :: "(string, Route) gomap"
  td_byHost :: "(string, Route) gomap"
  td_byPort :: "(int, Route) gomap"
  td_count :: int

record Table =
  tb_data :: "tableData option"
  tb_onChange :: bool
  tb_notified :: nat

definition empty_tableData :: tableData where
  "empty_tableData = \<lparr>td_routes = [], td_byHost = [], td_byPort = [], td_count = 0\<rparr>"

definition zero_table :: Table where
  "zero_table = \<lparr>tb_data = None, tb_onChange = False, tb_notified = 0\<rparr>"

definition table_d :: "Table \<Rightarrow> tableData" where
  "table_d t = (case tb_data t of Some d \<Rightarrow> d | None \<Rightarrow> empty_tableData)"

definition SetOnChange :: "bool \<Rightarrow> Table \<Rightarrow> Table" where
  "SetOnChange registered t = t\<lparr>tb_onChange := registered\<rparr>"

definition changed :: "Table \<Rightarrow> Table" where
  "changed t = (if tb_onChange t then t\<lparr>tb_notified := tb_notified t + 1\<rparr> else t)"

definition hostKey :: "string \<Rightarrow> string" where
  "hostKey h = TrimSuffix (ToLower (TrimSpace h)) ''.''"

definition hostKeys :: "Route \<Rightarrow> string list" where
  "hostKeys r =
     (if rt_Host r \<noteq> [] then [hostKey (rt_Host r)] else [])
     @ map hostKey (filter (\<lambda>a. a \<noteq> []) (rt_Aliases r))"

definition discoveredPrefixes :: "string list" where
  "discoveredPrefixes = [''docker:'', ''docker-host:'', ''k8s:'', ''portainer:'', ''podman:'']"

definition IsDiscoveredID :: "string \<Rightarrow> bool" where
  "IsDiscoveredID i \<longleftrightarrow> list_ex (HasPrefix i) discoveredPrefixes"

definition mayOwn :: "Route \<Rightarrow> Route option \<Rightarrow> bool" where
  "mayOwn r owner \<longleftrightarrow>
     (if \<not> IsDiscoveredID (rt_ID r) then True
      else case owner of
        None \<Rightarrow> True
      | Some w \<Rightarrow> rt_ID w = rt_ID r \<or> IsDiscoveredID (rt_ID w))"

text \<open>The callback that \<open>resolveLocked\<close> passes to \<open>Range\<close>, with \<open>best\<close> as its accumulator.\<close>

definition resolve_step :: "string \<Rightarrow> Route option \<Rightarrow> Route \<Rightarrow> Route option \<Rightarrow> Route option" where
  "resolve_step k cur c best =
     (if k \<notin> set (hostKeys c) then best
      else case best of
        None \<Rightarrow> Some c
      | Some b \<Rightarrow>
          if IsDiscoveredID (rt_ID b) \<and> \<not> IsDiscoveredID (rt_ID c) then Some c
          else if IsDiscoveredID (rt_ID b) = IsDiscoveredID (rt_ID c) then
            (if Some c = cur \<or> Some b \<noteq> cur \<and> str_less (rt_ID c) (rt_ID b) then Some c else best)
          else best)"

definition resolve_owner :: "string \<Rightarrow> Route option \<Rightarrow> Route list \<Rightarrow> Route option" where
  "resolve_owner k cur rs = fold (resolve_step k cur) rs None"

definition resolveLocked :: "string \<Rightarrow> tableData \<Rightarrow> tableData" where
  "resolveLocked k d =
     (case resolve_owner k (gm_get (td_byHost d) k) (map snd (td_routes d)) of
        None \<Rightarrow> d\<lparr>td_byHost := gm_del k (td_byHost d)\<rparr>
      | Some best \<Rightarrow> d\<lparr>td_byHost := gm_set k best (td_byHost d)\<rparr>)"

definition claimHost :: "Route \<Rightarrow> string \<Rightarrow> tableData \<Rightarrow> tableData" where
  "claimHost r k d =
     (if mayOwn r (gm_get (td_byHost d) k) then d\<lparr>td_byHost := gm_set k r (td_byHost d)\<rparr> else d)"

definition releaseHost :: "string \<Rightarrow> string \<Rightarrow> tableData \<Rightarrow> tableData" where
  "releaseHost i k d =
     (case gm_get (td_byHost d) k of
        Some v \<Rightarrow> if rt_ID v = i then resolveLocked k d else d
      | None \<Rightarrow> d)"

definition storePort :: "Route \<Rightarrow> tableData \<Rightarrow> tableData" where
  "storePort r d =
     (if 0 < rt_ListenPort r then d\<lparr>td_byPort := gm_set (rt_ListenPort r) r (td_byPort d)\<rparr> else d)"

definition upsertLocked :: "Route \<Rightarrow> tableData \<Rightarrow> tableData" where
  "upsertLocked r d =
     (let prev = gm_get (td_routes d) (rt_ID r);
          d1 = d\<lparr>td_routes := gm_set (rt_ID r) r (td_routes d),
                 td_count := (if prev = None then td_count d + 1 else td_count d)\<rparr>;
          d2 = fold (claimHost r) (hostKeys r) d1;
          d3 = storePort r d2
      in case prev of
           None \<Rightarrow> d3
         | Some old \<Rightarrow>
             let d4 = fold (releaseHost (rt_ID old))
                        (filter (\<lambda>k. k \<notin> set (hostKeys r)) (hostKeys old)) d3
             in if 0 < rt_ListenPort old \<and> rt_ListenPort old \<noteq> rt_ListenPort r
                then d4\<lparr>td_byPort := gm_del (rt_ListenPort old) (td_byPort d4)\<rparr> else d4)"

definition Upsert :: "Route \<Rightarrow> Table \<Rightarrow> Table" where
  "Upsert r t = changed (t\<lparr>tb_data := Some (upsertLocked r (table_d t))\<rparr>)"

definition deleteLocked :: "Route \<Rightarrow> tableData \<Rightarrow> tableData" where
  "deleteLocked r d =
     (let d1 = d\<lparr>td_routes := gm_del (rt_ID r) (td_routes d)\<rparr>;
          d2 = fold (releaseHost (rt_ID r)) (hostKeys r) d1;
          d3 = (if 0 < rt_ListenPort r
                then d2\<lparr>td_byPort := gm_del (rt_ListenPort r) (td_byPort d2)\<rparr> else d2)
      in d3\<lparr>td_count := td_count d3 - 1\<rparr>)"

definition Delete :: "string \<Rightarrow> Table \<Rightarrow> bool \<times> Table" where
  "Delete i t =
     (case gm_get (td_routes (table_d t)) i of
        None \<Rightarrow> (False, t)
      | Some r \<Rightarrow> (True, changed (t\<lparr>tb_data := Some (deleteLocked r (table_d t))\<rparr>)))"

definition ShadowedBy :: "Route option \<Rightarrow> Table \<Rightarrow> string option" where
  "ShadowedBy rp t =
     (case rp of
        None \<Rightarrow> None
      | Some r \<Rightarrow>
          if \<not> IsDiscoveredID (rt_ID r) then None
          else map_option rt_ID
                 (find (\<lambda>w. rt_ID w \<noteq> rt_ID r \<and> \<not> IsDiscoveredID (rt_ID w))
                   (List.map_filter (gm_get (td_byHost (table_d t))) (hostKeys r))))"

text \<open>
  \<open>Range\<close> visits each key once; the deletions the callback performs only remove keys already
  visited, so the visit is that of the routes present at the start.
\<close>

definition DisableByIDOrHost :: "string \<Rightarrow> Table \<Rightarrow> Table" where
  "DisableByIDOrHost s t =
     fold (\<lambda>r t. if rt_ID r = s \<or> rt_Host r = s then snd (Delete (rt_ID r) t) else t)
       (map snd (td_routes (table_d t))) t"

definition wildcardKey :: "string \<Rightarrow> string option" where
  "wildcardKey h = map_option (\<lambda>i. CHR ''*'' # drop i h) (IndexByte h CHR ''.'')"

definition ByHost :: "Table \<Rightarrow> string \<Rightarrow> Route option" where
  "ByHost t host =
     (let h = hostKey host
      in case gm_get (td_byHost (table_d t)) h of
           Some r \<Rightarrow> Some r
         | None \<Rightarrow> (case wildcardKey h of
             Some w \<Rightarrow> gm_get (td_byHost (table_d t)) w
           | None \<Rightarrow> None))"

definition LabelHost :: "Table \<Rightarrow> string \<Rightarrow> Route \<Rightarrow> string" where
  "LabelHost t host r =
     (case gm_get (td_byHost (table_d t)) (hostKey host) of
        Some _ \<Rightarrow> hostKey host
      | None \<Rightarrow> rt_Host r)"

definition passthrough_only :: "Route option \<Rightarrow> Route option" where
  "passthrough_only v = (case v of Some r \<Rightarrow> if rt_TLSPassthrough r then Some r else None | None \<Rightarrow> None)"

definition PassthroughRoute :: "Table \<Rightarrow> string \<Rightarrow> Route option" where
  "PassthroughRoute t host =
     (let h = hostKey host
      in case passthrough_only (gm_get (td_byHost (table_d t)) h) of
           Some r \<Rightarrow> Some r
         | None \<Rightarrow> (case wildcardKey h of
             Some w \<Rightarrow> passthrough_only (gm_get (td_byHost (table_d t)) w)
           | None \<Rightarrow> None))"

definition HostCoveredByPattern :: "string \<Rightarrow> string \<Rightarrow> bool" where
  "HostCoveredByPattern host pattern =
     (let h = ToLower (TrimSpace host); p = ToLower (TrimSpace pattern)
      in if h = [] \<or> p = [] then False
         else if h = p then True
         else if HasPrefix p ''*.'' then
           (let suffix = drop 1 p
            in if \<not> HasSuffix h suffix \<or> length h \<le> length suffix then False
               else (let rest = take (length h - length suffix) h
                     in rest \<noteq> [] \<and> \<not> Contains rest CHR ''.''))
         else False)"

definition ByPort :: "Table \<Rightarrow> int \<Rightarrow> Route option" where
  "ByPort t port = gm_get (td_byPort (table_d t)) port"

definition AllRoutes :: "Table \<Rightarrow> Route list" where
  "AllRoutes t = map snd (td_routes (table_d t))"

definition Len :: "Table \<Rightarrow> int" where
  "Len t = td_count (table_d t)"

text \<open>\<open>Replace\<close> receives pointers, any of which may be nil; the left summand is the error.\<close>

datatype table_error = RouteWithoutID

definition Replace :: "Route option list \<Rightarrow> Table \<Rightarrow> (table_error + unit) \<times> Table" where
  "Replace rps t =
     (if list_ex (\<lambda>rp. case rp of None \<Rightarrow> True | Some r \<Rightarrow> rt_ID r = []) rps
      then (Inl RouteWithoutID, t)
      else (Inr (), changed (t\<lparr>tb_data := Some (fold upsertLocked (map the rps) empty_tableData)\<rparr>)))"

definition ByID :: "Table \<Rightarrow> string \<Rightarrow> Route option" where
  "ByID t i = gm_get (td_routes (table_d t)) i"

section \<open>The choice of a host's owner\<close>

text \<open>The order in which \<open>resolveLocked\<close> prefers one claimant to another.\<close>

definition better :: "Route option \<Rightarrow> Route \<Rightarrow> Route \<Rightarrow> bool" where
  "better cur a b \<longleftrightarrow>
     IsDiscoveredID (rt_ID b) \<and> \<not> IsDiscoveredID (rt_ID a)
     \<or> IsDiscoveredID (rt_ID a) = IsDiscoveredID (rt_ID b)
       \<and> (Some a = cur \<or> Some b \<noteq> cur \<and> str_less (rt_ID a) (rt_ID b))"

definition preferred :: "string \<Rightarrow> Route option \<Rightarrow> Route set \<Rightarrow> Route \<Rightarrow> bool" where
  "preferred k cur R b \<longleftrightarrow>
     b \<in> R \<and> k \<in> set (hostKeys b)
     \<and> (\<forall>c\<in>R. k \<in> set (hostKeys c) \<longrightarrow> c \<noteq> b \<longrightarrow> better cur b c)"

lemma better_trans: "better cur a b \<Longrightarrow> better cur b c \<Longrightarrow> better cur a c"
  unfolding better_def by (elim disjE conjE) (auto intro: str_less_trans)

lemma better_total: "rt_ID a \<noteq> rt_ID b \<Longrightarrow> better cur a b \<or> better cur b a"
  unfolding better_def using str_less_linear [of "rt_ID a" "rt_ID b"] by auto

lemma better_antisym: "better cur a b \<Longrightarrow> better cur b a \<Longrightarrow> a = b"
  unfolding better_def by (elim disjE conjE) (auto dest: str_less_asym)

lemma resolve_step_better:
  "resolve_step k cur c best =
     (if k \<notin> set (hostKeys c) then best
      else case best of None \<Rightarrow> Some c | Some b \<Rightarrow> if better cur c b then Some c else Some b)"
  by (auto simp: resolve_step_def better_def split: option.splits)

text \<open>With distinct identifiers the scan returns the preferred claimant, whatever the order of the scan.\<close>

lemma fold_resolve_Some:
  assumes "distinct (map rt_ID (b # rs))" and "k \<in> set (hostKeys b)"
  shows "\<exists>b'. fold (resolve_step k cur) rs (Some b) = Some b' \<and> preferred k cur (set (b # rs)) b'"
  using assms
proof (induction rs arbitrary: b)
  case Nil
  then show ?case by (simp add: preferred_def)
next
  case (Cons c rs)
  show ?case
  proof (cases "k \<in> set (hostKeys c) \<and> better cur c b")
    case True
    then have step: "resolve_step k cur c (Some b) = Some c"
      by (simp add: resolve_step_better)
    from Cons.IH [of c] Cons.prems True obtain b'
      where b': "fold (resolve_step k cur) rs (Some c) = Some b'" "preferred k cur (set (c # rs)) b'"
      by auto
    then have "better cur b' b"
      using True by (auto simp: preferred_def intro: better_trans)
    with b' step show ?thesis by (auto simp: preferred_def)
  next
    case False
    then have step: "resolve_step k cur c (Some b) = Some b"
      by (auto simp: resolve_step_better)
    from Cons.IH [of b] Cons.prems obtain b'
      where b': "fold (resolve_step k cur) rs (Some b) = Some b'" "preferred k cur (set (b # rs)) b'"
      by auto
    have "better cur b' c" if "k \<in> set (hostKeys c)" "c \<noteq> b'"
    proof -
      have "better cur b c"
        using False that better_total [of b c cur] Cons.prems by auto
      then show ?thesis using b'(2) Cons.prems(2) by (auto simp: preferred_def intro: better_trans)
    qed
    with b' step show ?thesis by (auto simp: preferred_def)
  qed
qed

lemma resolve_owner_cases:
  assumes "distinct (map rt_ID rs)"
  shows "case resolve_owner k cur rs of
           None \<Rightarrow> \<forall>c\<in>set rs. k \<notin> set (hostKeys c)
         | Some b \<Rightarrow> preferred k cur (set rs) b"
  using assms
proof (induction rs)
  case Nil
  then show ?case by (simp add: resolve_owner_def)
next
  case (Cons c rs)
  show ?case
  proof (cases "k \<in> set (hostKeys c)")
    case True
    then show ?thesis
      using fold_resolve_Some [of c rs k cur] Cons.prems
      by (auto simp: resolve_owner_def resolve_step_better)
  next
    case False
    then show ?thesis
      using Cons by (auto simp: resolve_owner_def resolve_step_better preferred_def split: option.splits)
  qed
qed

lemma preferred_unique: "preferred k cur R a \<Longrightarrow> preferred k cur R b \<Longrightarrow> a = b"
  unfolding preferred_def using better_antisym by blast

lemma resolve_owner_Some:
  "distinct (map rt_ID rs) \<Longrightarrow> resolve_owner k cur rs = Some b \<longleftrightarrow> preferred k cur (set rs) b"
  using resolve_owner_cases [of rs k cur] preferred_unique
  by (auto simp: preferred_def split: option.splits)

lemma resolve_owner_None:
  "distinct (map rt_ID rs) \<Longrightarrow> resolve_owner k cur rs = None \<longleftrightarrow> (\<forall>c\<in>set rs. k \<notin> set (hostKeys c))"
  using resolve_owner_cases [of rs k cur] by (auto simp: preferred_def split: option.splits)

end
