(* ===== verification/Router_Invariant.thy ===== *)
theory Router_Invariant
  imports Router_Table
begin

text \<open>
  The invariant of the routing table, its preservation by every writer, and what the readers
  return on a table that was built by the writers.
\<close>

section \<open>The invariant\<close>

definition live :: "tableData \<Rightarrow> Route \<Rightarrow> bool" where
  "live d r \<longleftrightarrow> gm_get (td_routes d) (rt_ID r) = Some r"

text \<open>One host key: it is served when a live route claims it, and a configured route serves it when one claims it.\<close>

definition host_ok :: "tableData \<Rightarrow> string \<Rightarrow> bool" where
  "host_ok d k \<longleftrightarrow>
     (case gm_get (td_byHost d) k of
        None \<Rightarrow> \<forall>r. live d r \<longrightarrow> k \<notin> set (hostKeys r)
      | Some w \<Rightarrow> live d w \<and> k \<in> set (hostKeys w)
          \<and> (IsDiscoveredID (rt_ID w) \<longrightarrow> (\<forall>r. live d r \<longrightarrow> k \<in> set (hostKeys r) \<longrightarrow> IsDiscoveredID (rt_ID r))))"

definition ids_ok :: "tableData \<Rightarrow> bool" where
  "ids_ok d \<longleftrightarrow> gm_ok (td_routes d) \<and> (\<forall>(i, r)\<in>set (td_routes d). rt_ID r = i)"

definition ports_ok :: "tableData \<Rightarrow> bool" where
  "ports_ok d \<longleftrightarrow>
     (\<forall>p r. gm_get (td_byPort d) p = Some r \<longrightarrow> live d r \<and> rt_ListenPort r = p \<and> 0 < p)"

definition table_ok :: "tableData \<Rightarrow> bool" where
  "table_ok d \<longleftrightarrow>
     ids_ok d \<and> gm_ok (td_byHost d) \<and> gm_ok (td_byPort d)
     \<and> td_count d = int (length (td_routes d))
     \<and> (\<forall>k. host_ok d k) \<and> ports_ok d"

lemma table_ok_empty [simp]: "table_ok empty_tableData"
  by (simp add: table_ok_def ids_ok_def host_ok_def ports_ok_def live_def empty_tableData_def)

lemma ids_ok_iff: "ids_ok d \<longleftrightarrow> gm_ok (td_routes d) \<and> (\<forall>i r. gm_get (td_routes d) i = Some r \<longrightarrow> rt_ID r = i)"
  using gm_get_mem [of "td_routes d"] unfolding ids_ok_def by blast

lemma ids_ok_live: "ids_ok d \<Longrightarrow> r \<in> snd ` set (td_routes d) \<longleftrightarrow> live d r"
  by (force simp: ids_ok_def live_def gm_get_mem [symmetric])

lemma ids_ok_distinct: "ids_ok d \<Longrightarrow> distinct (map rt_ID (map snd (td_routes d)))"
proof -
  assume "ids_ok d"
  then have "map rt_ID (map snd (td_routes d)) = map fst (td_routes d)"
    by (auto simp: ids_ok_def)
  then show ?thesis using \<open>ids_ok d\<close> by (simp only: ids_ok_def gm_ok_def)
qed

lemma ids_ok_set: "ids_ok d \<Longrightarrow> td_routes d' = gm_set (rt_ID r) r (td_routes d) \<Longrightarrow> ids_ok d'"
  by (auto simp: ids_ok_iff split: if_splits)

lemma ids_ok_del: "ids_ok d \<Longrightarrow> td_routes d' = gm_del i (td_routes d) \<Longrightarrow> ids_ok d'"
  by (auto simp: ids_ok_iff split: if_splits)

lemma live_cong: "td_routes d' = td_routes d \<Longrightarrow> live d' = live d"
  by (simp add: live_def fun_eq_iff)

lemma host_ok_cong:
  "td_routes d' = td_routes d \<Longrightarrow> gm_get (td_byHost d') k = gm_get (td_byHost d) k \<Longrightarrow> host_ok d' k = host_ok d k"
  using live_cong [of d' d] by (simp add: host_ok_def split: option.split)

lemma live_same_id: "live d r \<Longrightarrow> live d s \<Longrightarrow> rt_ID r = rt_ID s \<Longrightarrow> r = s"
  by (simp add: live_def)

section \<open>The steps of the writers\<close>

lemma resolveLocked_fields [simp, table_simps]:
  "td_routes (resolveLocked k d) = td_routes d"
  "td_byPort (resolveLocked k d) = td_byPort d"
  "td_count (resolveLocked k d) = td_count d"
  by (simp_all add: resolveLocked_def split: option.split)

lemma releaseHost_fields [simp, table_simps]:
  "td_routes (releaseHost i k d) = td_routes d"
  "td_byPort (releaseHost i k d) = td_byPort d"
  "td_count (releaseHost i k d) = td_count d"
  by (simp_all add: releaseHost_def split: option.split)

lemma claimHost_fields [simp, table_simps]:
  "td_routes (claimHost r k d) = td_routes d"
  "td_byPort (claimHost r k d) = td_byPort d"
  "td_count (claimHost r k d) = td_count d"
  by (simp_all add: claimHost_def)

lemma fold_releaseHost_fields [simp, table_simps]:
  "td_routes (fold (releaseHost i) ks d) = td_routes d"
  "td_byPort (fold (releaseHost i) ks d) = td_byPort d"
  "td_count (fold (releaseHost i) ks d) = td_count d"
  by (induction ks arbitrary: d) simp_all

lemma fold_claimHost_fields [simp, table_simps]:
  "td_routes (fold (claimHost r) ks d) = td_routes d"
  "td_byPort (fold (claimHost r) ks d) = td_byPort d"
  "td_count (fold (claimHost r) ks d) = td_count d"
  by (induction ks arbitrary: d) simp_all

lemma storePort_fields [simp, table_simps]:
  "td_routes (storePort r d) = td_routes d"
  "td_byHost (storePort r d) = td_byHost d"
  "td_count (storePort r d) = td_count d"
  by (simp_all add: storePort_def)

lemma byHost_map_ok [simp]:
  "gm_ok (td_byHost d) \<Longrightarrow> gm_ok (td_byHost (resolveLocked k d))"
  "gm_ok (td_byHost d) \<Longrightarrow> gm_ok (td_byHost (releaseHost i k d))"
  "gm_ok (td_byHost d) \<Longrightarrow> gm_ok (td_byHost (claimHost r k d))"
  by (simp_all add: resolveLocked_def releaseHost_def claimHost_def split: option.split)

lemma fold_byHost_map_ok [simp]:
  "gm_ok (td_byHost d) \<Longrightarrow> gm_ok (td_byHost (fold (releaseHost i) ks d))"
  "gm_ok (td_byHost d) \<Longrightarrow> gm_ok (td_byHost (fold (claimHost r) ks d))"
  by (induction ks arbitrary: d) simp_all

lemma resolveLocked_get:
  "gm_get (td_byHost (resolveLocked k d)) k' =
     (if k' = k then resolve_owner k (gm_get (td_byHost d) k) (map snd (td_routes d))
      else gm_get (td_byHost d) k')"
  by (simp add: resolveLocked_def split: option.split)

lemma resolveLocked_host_ok:
  assumes "ids_ok d"
  shows "host_ok (resolveLocked k d) k"
proof -
  have "set (map snd (td_routes d)) = {r. live d r}"
    using ids_ok_live [OF assms] by auto
  then have "case resolve_owner k (gm_get (td_byHost d) k) (map snd (td_routes d)) of
      None \<Rightarrow> \<forall>c. live d c \<longrightarrow> k \<notin> set (hostKeys c)
    | Some b \<Rightarrow> preferred k (gm_get (td_byHost d) k) {r. live d r} b"
    using resolve_owner_cases [OF ids_ok_distinct [OF assms], of k "gm_get (td_byHost d) k"]
    by (simp split: option.splits)
  then show ?thesis
    using live_cong [OF resolveLocked_fields(1), of k d]
    by (auto simp: host_ok_def resolveLocked_get preferred_def better_def split: option.splits)
qed

lemma releaseHost_other [simp]:
  "k' \<noteq> k \<Longrightarrow> gm_get (td_byHost (releaseHost i k d)) k' = gm_get (td_byHost d) k'"
  by (simp add: releaseHost_def resolveLocked_get split: option.split)

text \<open>A key is sound, or still points to the route \<open>i\<close> that is going away.\<close>

definition host_pending :: "string \<Rightarrow> tableData \<Rightarrow> string \<Rightarrow> bool" where
  "host_pending i d k \<longleftrightarrow> host_ok d k \<or> (\<exists>w. gm_get (td_byHost d) k = Some w \<and> rt_ID w = i)"

lemma releaseHost_host_ok: "ids_ok d \<Longrightarrow> host_pending i d k \<Longrightarrow> host_ok (releaseHost i k d) k"
  using resolveLocked_host_ok by (auto simp: host_pending_def releaseHost_def split: option.split)

lemma releaseHost_keeps: "host_ok d k' \<Longrightarrow> ids_ok d \<Longrightarrow> host_ok (releaseHost i k d) k'"
  using releaseHost_host_ok [of d i k] host_ok_cong [of "releaseHost i k d" d k']
  by (cases "k' = k") (simp_all add: host_pending_def)

lemma fold_releaseHost_keeps: "host_ok d k \<Longrightarrow> ids_ok d \<Longrightarrow> host_ok (fold (releaseHost i) ks d) k"
  by (induction ks arbitrary: d) (simp_all add: releaseHost_keeps ids_ok_def)

lemma fold_releaseHost_ok:
  assumes "ids_ok d" and "if k \<in> set ks then host_pending i d k else host_ok d k"
  shows "host_ok (fold (releaseHost i) ks d) k"
  using assms
proof (induction ks arbitrary: d)
  case Nil
  then show ?case by simp
next
  case (Cons k' ks)
  have ids: "ids_ok (releaseHost i k' d)"
    using Cons.prems(1) by (simp add: ids_ok_def)
  show ?case
  proof (cases "k = k'")
    case True
    then have "host_ok (releaseHost i k' d) k"
      using Cons.prems releaseHost_host_ok by simp
    then show ?thesis using fold_releaseHost_keeps ids by simp
  next
    case False
    then have "if k \<in> set ks then host_pending i (releaseHost i k' d) k else host_ok (releaseHost i k' d) k"
      using Cons.prems host_ok_cong [of "releaseHost i k' d" d k] by (auto simp: host_pending_def)
    then show ?thesis using Cons.IH ids by simp
  qed
qed

lemma fold_claimHost_get:
  "gm_get (td_byHost (fold (claimHost r) ks d)) k =
     (if k \<in> set ks \<and> mayOwn r (gm_get (td_byHost d) k) then Some r else gm_get (td_byHost d) k)"
  by (induction ks arbitrary: d) (auto simp: claimHost_def mayOwn_def)

section \<open>The writers keep the invariant\<close>

text \<open>Replacing or adding a route: after the claims, a key is sound or belongs to the old version.\<close>

lemma claims_pending:
  assumes "table_ok d" and "d1 = d\<lparr>td_routes := gm_set (rt_ID r) r (td_routes d), td_count := n\<rparr>"
  defines "d2 \<equiv> fold (claimHost r) (hostKeys r) d1"
  shows "case gm_get (td_routes d) (rt_ID r) of
           None \<Rightarrow> host_ok d2 k
         | Some old \<Rightarrow> if k \<in> set (hostKeys old) - set (hostKeys r) then host_pending (rt_ID r) d2 k
                       else host_ok d2 k"
proof -
  have ok: "host_ok d k" and ids: "ids_ok d"
    using assms(1) by (simp_all add: table_ok_def)
  have live2: "live d2 s \<longleftrightarrow> (if rt_ID s = rt_ID r then s = r else live d s)" for s
    using assms(2) by (auto simp: d2_def live_def)
  have get2: "gm_get (td_byHost d2) k =
     (if k \<in> set (hostKeys r) \<and> mayOwn r (gm_get (td_byHost d) k) then Some r else gm_get (td_byHost d) k)"
    using assms(2) by (simp add: d2_def fold_claimHost_get)
  show ?thesis
  proof (cases "k \<in> set (hostKeys r)")
    case True
    then have "host_ok d2 k"
      using ok by (auto simp: host_ok_def get2 live2 mayOwn_def split: option.splits if_splits)
    then show ?thesis using True by (simp split: option.split)
  next
    case False
    then have get: "gm_get (td_byHost d2) k = gm_get (td_byHost d) k"
      by (simp add: get2)
    show ?thesis
    proof (cases "\<exists>w. gm_get (td_byHost d) k = Some w \<and> rt_ID w = rt_ID r")
      case True
      then obtain w where w: "gm_get (td_byHost d) k = Some w" "rt_ID w = rt_ID r" by blast
      then have "live d w" "k \<in> set (hostKeys w)" using ok by (simp_all add: host_ok_def)
      then have "gm_get (td_routes d) (rt_ID r) = Some w" using w by (simp add: live_def)
      with w get False \<open>k \<in> set (hostKeys w)\<close> show ?thesis by (simp add: host_pending_def)
    next
      case False
      then have "host_ok d2 k"
        using ok \<open>k \<notin> set (hostKeys r)\<close> unfolding host_ok_def get
        by (auto simp: live2 split: option.splits if_splits)
      then show ?thesis by (simp add: host_pending_def split: option.split)
    qed
  qed
qed

lemma upsertLocked_fields:
  "td_routes (upsertLocked r d) = gm_set (rt_ID r) r (td_routes d)"
  "td_count (upsertLocked r d) = (if gm_get (td_routes d) (rt_ID r) = None then td_count d + 1 else td_count d)"
  by (simp_all add: upsertLocked_def Let_def split: option.split)

lemma upsertLocked_byPort:
  "gm_get (td_byPort (upsertLocked r d)) p =
     (if 0 < rt_ListenPort r \<and> p = rt_ListenPort r then Some r
      else case gm_get (td_routes d) (rt_ID r) of
        Some old \<Rightarrow> if 0 < rt_ListenPort old \<and> p = rt_ListenPort old then None else gm_get (td_byPort d) p
      | None \<Rightarrow> gm_get (td_byPort d) p)"
  by (auto simp: upsertLocked_def storePort_def Let_def split: option.split)

lemma upsertLocked_maps_ok:
  "gm_ok (td_byHost d) \<Longrightarrow> gm_ok (td_byHost (upsertLocked r d))"
  "gm_ok (td_byPort d) \<Longrightarrow> gm_ok (td_byPort (upsertLocked r d))"
  by (simp_all add: upsertLocked_def storePort_def Let_def split: option.split)

lemma length_gm_set:
  "length (gm_set k v m) = (if gm_get m k = None then Suc (length m) else length m)"
  by (induction m) (auto split: if_splits)

lemma length_gm_del:
  "gm_ok m \<Longrightarrow> gm_get m k \<noteq> None \<Longrightarrow> Suc (length (gm_del k m)) = length m"
proof (induction m)
  case (Cons a m)
  show ?case
  proof (cases "fst a = k")
    case True
    then have "gm_del k m = m"
      using Cons.prems by (intro delete_id) (auto simp: gm_ok_def)
    then show ?thesis using True by simp
  next
    case False
    then show ?thesis using Cons by (simp add: gm_ok_def)
  qed
qed simp

lemma upsertLocked_host_ok:
  assumes "table_ok d"
  shows "host_ok (upsertLocked r d) k"
proof -
  let ?old = "gm_get (td_routes d) (rt_ID r)"
  let ?d1 = "d\<lparr>td_routes := gm_set (rt_ID r) r (td_routes d),
                td_count := (if ?old = None then td_count d + 1 else td_count d)\<rparr>"
  let ?d3 = "storePort r (fold (claimHost r) (hostKeys r) ?d1)"
  have ids: "ids_ok ?d3"
    using assms ids_ok_set [of d] by (simp add: table_ok_def)
  note P = claims_pending [OF assms refl, of r "if ?old = None then td_count d + 1 else td_count d" k]
  have cong: "host_ok ?d3 k = host_ok (fold (claimHost r) (hostKeys r) ?d1) k"
    "host_pending i ?d3 k = host_pending i (fold (claimHost r) (hostKeys r) ?d1) k" for i
    using host_ok_cong [of ?d3 "fold (claimHost r) (hostKeys r) ?d1" k] by (simp_all add: host_pending_def)
  show ?thesis
  proof (cases ?old)
    case None
    then show ?thesis using P cong by (simp add: upsertLocked_def Let_def)
  next
    case (Some old)
    then have "rt_ID old = rt_ID r"
      using assms by (simp add: table_ok_def ids_ok_iff)
    let ?d4 = "fold (releaseHost (rt_ID old)) (filter (\<lambda>k. k \<notin> set (hostKeys r)) (hostKeys old)) ?d3"
    have "host_ok ?d4 k"
      using P Some cong \<open>rt_ID old = rt_ID r\<close>
      by (intro fold_releaseHost_ok ids) (auto split: if_splits)
    moreover have "host_ok (upsertLocked r d) k = host_ok ?d4 k"
      using Some by (intro host_ok_cong) (simp_all add: upsertLocked_def Let_def)
    ultimately show ?thesis by simp
  qed
qed

lemma ports_okD: "ports_ok d \<Longrightarrow> gm_get (td_byPort d) p = Some s \<Longrightarrow> live d s \<and> rt_ListenPort s = p \<and> 0 < p"
  by (simp add: ports_ok_def)

lemma upsertLocked_ports_ok:
  assumes "ports_ok d"
  shows "ports_ok (upsertLocked r d)"
  unfolding ports_ok_def
proof (intro allI impI)
  fix p s
  assume get: "gm_get (td_byPort (upsertLocked r d)) p = Some s"
  show "live (upsertLocked r d) s \<and> rt_ListenPort s = p \<and> 0 < p"
  proof (cases "0 < rt_ListenPort r \<and> p = rt_ListenPort r")
    case True
    then show ?thesis using get by (simp add: upsertLocked_byPort live_def upsertLocked_fields)
  next
    case False
    then have "gm_get (td_byPort d) p = Some s"
      using get by (auto simp: upsertLocked_byPort split: option.splits if_splits)
    from ports_okD [OF assms this] get False show ?thesis
      by (auto simp: upsertLocked_byPort live_def upsertLocked_fields split: option.splits if_splits)
  qed
qed

lemma upsertLocked_ok: "table_ok d \<Longrightarrow> table_ok (upsertLocked r d)"
proof -
  assume ok: "table_ok d"
  then have ids: "ids_ok d" and ports: "ports_ok d" by (simp_all add: table_ok_def)
  have "ids_ok (upsertLocked r d)"
    using ids ids_ok_set upsertLocked_fields(1) by blast
  moreover have "ports_ok (upsertLocked r d)"
    by (rule upsertLocked_ports_ok [OF ports])
  moreover have "td_count (upsertLocked r d) = int (length (td_routes (upsertLocked r d)))"
    using ok by (auto simp: upsertLocked_fields length_gm_set table_ok_def)
  ultimately show ?thesis
    using ok upsertLocked_host_ok [OF ok] by (simp add: table_ok_def upsertLocked_maps_ok)
qed

lemma deleteLocked_fields:
  "td_routes (deleteLocked r d) = gm_del (rt_ID r) (td_routes d)"
  "td_count (deleteLocked r d) = td_count d - 1"
  by (simp_all add: deleteLocked_def Let_def)

lemma deleteLocked_byPort:
  "gm_get (td_byPort (deleteLocked r d)) p =
     (if 0 < rt_ListenPort r \<and> p = rt_ListenPort r then None else gm_get (td_byPort d) p)"
  by (simp add: deleteLocked_def Let_def)

lemma deleteLocked_host_ok:
  assumes "table_ok d" and "live d r"
  shows "host_ok (deleteLocked r d) k"
proof -
  let ?d1 = "d\<lparr>td_routes := gm_del (rt_ID r) (td_routes d)\<rparr>"
  have ids: "ids_ok ?d1" and ok: "host_ok d k"
    using assms ids_ok_del [of d] by (simp_all add: table_ok_def)
  have live1: "live ?d1 s \<longleftrightarrow> live d s \<and> rt_ID s \<noteq> rt_ID r" for s
    by (auto simp: live_def)
  have "if k \<in> set (hostKeys r) then host_pending (rt_ID r) ?d1 k else host_ok ?d1 k"
  proof (cases "\<exists>w. gm_get (td_byHost d) k = Some w \<and> rt_ID w = rt_ID r")
    case True
    then obtain w where w: "gm_get (td_byHost d) k = Some w" "rt_ID w = rt_ID r" by blast
    then have "w = r" "k \<in> set (hostKeys w)"
      using ok assms(2) live_same_id [of d w r] by (simp_all add: host_ok_def)
    with w show ?thesis by (simp add: host_pending_def)
  next
    case False
    then have "host_ok ?d1 k"
      using ok unfolding host_ok_def by (auto simp: live1 split: option.splits)
    then show ?thesis by (simp add: host_pending_def)
  qed
  then have "host_ok (fold (releaseHost (rt_ID r)) (hostKeys r) ?d1) k"
    by (rule fold_releaseHost_ok [OF ids])
  moreover have "host_ok (deleteLocked r d) k = host_ok (fold (releaseHost (rt_ID r)) (hostKeys r) ?d1) k"
    by (intro host_ok_cong) (simp_all add: deleteLocked_def Let_def)
  ultimately show ?thesis by simp
qed

lemma deleteLocked_ports_ok:
  assumes "ports_ok d" and "live d r"
  shows "ports_ok (deleteLocked r d)"
  unfolding ports_ok_def
proof (intro allI impI)
  fix p s
  assume get: "gm_get (td_byPort (deleteLocked r d)) p = Some s"
  then have "gm_get (td_byPort d) p = Some s"
    by (simp add: deleteLocked_byPort split: if_splits)
  from ports_okD [OF assms(1) this] get assms(2)
  show "live (deleteLocked r d) s \<and> rt_ListenPort s = p \<and> 0 < p"
    by (auto simp: deleteLocked_byPort live_def deleteLocked_fields split: if_splits)
qed

lemma deleteLocked_ok: "table_ok d \<Longrightarrow> live d r \<Longrightarrow> table_ok (deleteLocked r d)"
proof -
  assume ok: "table_ok d" and "live d r"
  then have ids: "ids_ok d" and ports: "ports_ok d" by (simp_all add: table_ok_def)
  have "ids_ok (deleteLocked r d)"
    using ids ids_ok_del deleteLocked_fields(1) by blast
  moreover have "ports_ok (deleteLocked r d)"
    by (rule deleteLocked_ports_ok [OF ports \<open>live d r\<close>])
  moreover have "td_count (deleteLocked r d) = int (length (td_routes (deleteLocked r d)))"
    using ok \<open>live d r\<close> length_gm_del [of "td_routes d" "rt_ID r"]
    by (simp add: deleteLocked_fields table_ok_def ids_ok_def live_def)
  moreover have "gm_ok (td_byHost (deleteLocked r d))" "gm_ok (td_byPort (deleteLocked r d))"
    using ok by (simp_all add: deleteLocked_def Let_def table_ok_def)
  ultimately show ?thesis
    using deleteLocked_host_ok [OF ok \<open>live d r\<close>] by (simp add: table_ok_def)
qed

end
