(* ===== verification/Router_Properties.thy ===== *)
theory Router_Properties
  imports Router_Invariant
begin

text \<open>
  The routing table over time: every sequence of writes from the zero value, the lookups on the
  tables it reaches, and the two predicates that have to agree about wildcards.
\<close>

datatype table_op = OpUpsert Route | OpDelete string | OpDisable string
  | OpReplace "Route option list" | OpSetOnChange bool

fun table_step :: "table_op \<Rightarrow> Table \<Rightarrow> Table" where
  "table_step (OpUpsert r) t = Upsert r t"
| "table_step (OpDelete i) t = snd (Delete i t)"
| "table_step (OpDisable s) t = DisableByIDOrHost s t"
| "table_step (OpReplace rps) t = snd (Replace rps t)"
| "table_step (OpSetOnChange b) t = SetOnChange b t"

definition table_run :: "table_op list \<Rightarrow> Table" where
  "table_run ops = fold table_step ops zero_table"

section \<open>Every reachable table satisfies the invariant\<close>

lemma table_d_changed [simp]: "table_d (changed t) = table_d t"
  by (simp add: changed_def table_d_def)

lemma table_d_SetOnChange [simp]: "table_d (SetOnChange b t) = table_d t"
  by (simp add: SetOnChange_def table_d_def)

lemma table_d_Some [simp]: "table_d (t\<lparr>tb_data := Some d\<rparr>) = d"
  by (simp add: table_d_def)

lemma Upsert_d [simp]: "table_d (Upsert r t) = upsertLocked r (table_d t)"
  by (simp add: Upsert_def)

lemma Delete_d:
  "table_d (snd (Delete i t)) =
     (case gm_get (td_routes (table_d t)) i of None \<Rightarrow> table_d t | Some r \<Rightarrow> deleteLocked r (table_d t))"
  by (simp add: Delete_def split: option.split)

lemma Delete_ok: "table_ok (table_d t) \<Longrightarrow> table_ok (table_d (snd (Delete i t)))"
proof (cases "gm_get (td_routes (table_d t)) i")
  case (Some r)
  assume ok: "table_ok (table_d t)"
  then have "rt_ID r = i"
    using Some by (simp add: table_ok_def ids_ok_iff)
  then have "live (table_d t) r"
    using Some by (simp add: live_def)
  with ok Some show ?thesis by (simp add: Delete_d deleteLocked_ok)
qed (simp add: Delete_d)

lemma Disable_ok: "table_ok (table_d t) \<Longrightarrow> table_ok (table_d (DisableByIDOrHost s t))"
proof -
  have "table_ok (table_d (fold (\<lambda>r t. if rt_ID r = s \<or> rt_Host r = s then snd (Delete (rt_ID r) t) else t) rs t))"
    if "table_ok (table_d t)" for rs t
    using that by (induction rs arbitrary: t) (simp_all add: Delete_ok)
  then show "table_ok (table_d t) \<Longrightarrow> ?thesis" by (simp add: DisableByIDOrHost_def)
qed

lemma fold_upsertLocked_ok: "table_ok d \<Longrightarrow> table_ok (fold upsertLocked rs d)"
  by (induction rs arbitrary: d) (simp_all add: upsertLocked_ok)

lemma Replace_ok: "table_ok (table_d t) \<Longrightarrow> table_ok (table_d (snd (Replace rps t)))"
  by (simp add: Replace_def fold_upsertLocked_ok)

lemma table_step_ok: "table_ok (table_d t) \<Longrightarrow> table_ok (table_d (table_step p t))"
  by (cases p) (simp_all add: upsertLocked_ok Delete_ok Disable_ok Replace_ok)

lemma table_run_ok: "table_ok (table_d (table_run ops))"
proof -
  have "table_ok (table_d (fold table_step ops t))" if "table_ok (table_d t)" for t
    using that by (induction ops arbitrary: t) (simp_all add: table_step_ok)
  moreover have "table_ok (table_d zero_table)"
    by (simp add: table_d_def zero_table_def)
  ultimately show ?thesis by (simp add: table_run_def)
qed

lemma AllRoutes_live: "table_ok (table_d t) \<Longrightarrow> r \<in> set (AllRoutes t) \<longleftrightarrow> live (table_d t) r"
  using ids_ok_live by (auto simp: AllRoutes_def table_ok_def)

text \<open>
  C2: after any sequence of \<open>Upsert\<close>, \<open>Delete\<close>, \<open>DisableByIDOrHost\<close>, \<open>Replace\<close> and
  \<open>SetOnChange\<close>, the identifiers of the table are distinct and \<open>Len\<close> counts the routes; a host key
  is served by a live route that claims it, as soon as some live route claims it; a route
  discovered from container labels serves it only when no configured route claims it; and a port
  entry leads to a live route listening on that port.
\<close>

theorem table_reachable_ok:
  "table_ok (table_d (table_run ops)) \<and> distinct (map rt_ID (AllRoutes (table_run ops)))
   \<and> Len (table_run ops) = int (length (AllRoutes (table_run ops)))"
  using table_run_ok [of ops] ids_ok_distinct [of "table_d (table_run ops)"]
  by (simp add: table_ok_def AllRoutes_def Len_def)

section \<open>Lookup by host\<close>

lemma host_served:
  assumes "table_ok (table_d t)"
  shows "case gm_get (td_byHost (table_d t)) k of
           None \<Rightarrow> \<forall>s\<in>set (AllRoutes t). k \<notin> set (hostKeys s)
         | Some r \<Rightarrow> r \<in> set (AllRoutes t) \<and> k \<in> set (hostKeys r)
             \<and> (IsDiscoveredID (rt_ID r) \<longrightarrow> (\<forall>s\<in>set (AllRoutes t). k \<in> set (hostKeys s) \<longrightarrow> IsDiscoveredID (rt_ID s)))"
proof -
  have "host_ok (table_d t) k"
    using assms by (simp add: table_ok_def)
  then show ?thesis
    using AllRoutes_live [OF assms] by (auto simp: host_ok_def split: option.splits)
qed

text \<open>The keys a request host may match, in the order of the lookup.\<close>

definition host_candidates :: "string \<Rightarrow> string list" where
  "host_candidates h = hostKey h # (case wildcardKey (hostKey h) of None \<Rightarrow> [] | Some w \<Rightarrow> [w])"

definition claimed :: "Table \<Rightarrow> string \<Rightarrow> bool" where
  "claimed t k \<longleftrightarrow> list_ex (\<lambda>r. k \<in> set (hostKeys r)) (AllRoutes t)"

text \<open>
  C6: on every reachable table, \<open>ByHost\<close> finds a route exactly when some route of the table claims
  the host or the wildcard of its parent domain. It returns a route of the table that claims the
  first of the two keys that is claimed at all (an exact name always hides a wildcard), and never
  a discovered route when a configured one claims that key.
\<close>

theorem ByHost_first_claimed:
  "case find (claimed (table_run ops)) (host_candidates h) of
     None \<Rightarrow> ByHost (table_run ops) h = None
   | Some k \<Rightarrow> \<exists>r. ByHost (table_run ops) h = Some r \<and> r \<in> set (AllRoutes (table_run ops)) \<and> k \<in> set (hostKeys r)
       \<and> (IsDiscoveredID (rt_ID r) \<longrightarrow>
            (\<forall>s\<in>set (AllRoutes (table_run ops)). k \<in> set (hostKeys s) \<longrightarrow> IsDiscoveredID (rt_ID s)))"
proof -
  let ?t = "table_run ops"
  have served: "case gm_get (td_byHost (table_d ?t)) k of
      None \<Rightarrow> \<not> claimed ?t k
    | Some r \<Rightarrow> claimed ?t k \<and> r \<in> set (AllRoutes ?t) \<and> k \<in> set (hostKeys r)
        \<and> (IsDiscoveredID (rt_ID r) \<longrightarrow> (\<forall>s\<in>set (AllRoutes ?t). k \<in> set (hostKeys s) \<longrightarrow> IsDiscoveredID (rt_ID s)))" for k
    using host_served [OF table_run_ok, of ops k] by (auto simp: claimed_def list_ex_iff split: option.splits)
  show ?thesis
  proof (cases "gm_get (td_byHost (table_d ?t)) (hostKey h)")
    case (Some r)
    then show ?thesis using served [of "hostKey h"] by (simp add: host_candidates_def ByHost_def Let_def)
  next
    case None
    then have "\<not> claimed ?t (hostKey h)" using served [of "hostKey h"] by simp
    with None show ?thesis
    proof (cases "wildcardKey (hostKey h)")
      case (Some w)
      with None \<open>\<not> claimed ?t (hostKey h)\<close> show ?thesis
        using served [of w]
        by (cases "gm_get (td_byHost (table_d ?t)) w") (simp_all add: host_candidates_def ByHost_def Let_def)
    qed (simp add: host_candidates_def ByHost_def Let_def)
  qed
qed

definition demo_route :: "string \<Rightarrow> string \<Rightarrow> int \<Rightarrow> Route" where
  "demo_route i h p = zero_route\<lparr>rt_ID := i, rt_Host := h, rt_ListenPort := p\<rparr>"

lemmas demo_eval = table_run_def zero_table_def demo_route_def zero_route_def table_d_def empty_tableData_def
  Upsert_def upsertLocked_def changed_def storePort_def claimHost_def releaseHost_def resolveLocked_def
  resolve_owner_def resolve_step_def mayOwn_def IsDiscoveredID_def discoveredPrefixes_def HasPrefix_def
  hostKeys_def hostKey_def TrimSuffix_def HasSuffix_def ToLower_def TrimSpace_def is_space_def lower_char_def
  Delete_def deleteLocked_def AllRoutes_def ByHost_def ByID_def ByPort_def wildcardKey_def Let_def
  host_candidates_def claimed_def

definition demo_ops :: "table_op list" where
  "demo_ops = [OpUpsert (demo_route ''docker:1'' ''*.ex.fr'' 0), OpUpsert (demo_route ''cfg'' ''*.EX.fr.'' 0)]"

lemma demo_find: "find (claimed (table_run demo_ops)) (host_candidates ''api.ex.fr'') = Some ''*.ex.fr''"
  by (simp add: demo_ops_def demo_eval)

theorem ByHost_first_claimed_witness:
  "\<exists>r. ByHost (table_run demo_ops) ''api.ex.fr'' = Some r \<and> r \<in> set (AllRoutes (table_run demo_ops))
       \<and> ''*.ex.fr'' \<in> set (hostKeys r)"
  using ByHost_first_claimed [of demo_ops "''api.ex.fr''"] demo_find by auto

section \<open>Handing a host over\<close>

text \<open>
  The owner that \<open>resolveLocked\<close> chooses for a host does not depend on the order in which
  \<open>sync.Map.Range\<close> happens to visit the routes: it is the one claimant preferred to all others,
  configured before discovered, then the present owner, then the least identifier.
\<close>

theorem resolve_order_irrelevant:
  assumes "distinct (map rt_ID rs)" and "distinct (map rt_ID rs')" and "set rs = set rs'"
  shows "resolve_owner k cur rs = resolve_owner k cur rs'
         \<and> (\<forall>b. resolve_owner k cur rs = Some b \<longleftrightarrow> preferred k cur (set rs) b)"
proof -
  have "resolve_owner k cur rs = Some b \<longleftrightarrow> resolve_owner k cur rs' = Some b" for b
    using resolve_owner_Some [OF assms(1)] resolve_owner_Some [OF assms(2)] assms(3) by simp
  then show ?thesis
    using resolve_owner_Some [OF assms(1)] by (metis option.exhaust)
qed

theorem resolve_order_irrelevant_witness:
  "resolve_owner ''h'' None [demo_route ''b'' ''h'' 0, demo_route ''docker:a'' ''h'' 0]
   = resolve_owner ''h'' None [demo_route ''docker:a'' ''h'' 0, demo_route ''b'' ''h'' 0]"
  using resolve_order_irrelevant
    [of "[demo_route ''b'' ''h'' 0, demo_route ''docker:a'' ''h'' 0]"
        "[demo_route ''docker:a'' ''h'' 0, demo_route ''b'' ''h'' 0]" "''h''" None]
  by (auto simp: demo_route_def)

lemma resolved_not_deleted:
  assumes "ids_ok d" and "gm_get (td_routes d) i = None"
    and "resolve_owner k cur (map snd (td_routes d)) = Some b"
  shows "rt_ID b \<noteq> i"
  using assms resolve_owner_Some [OF ids_ok_distinct [OF assms(1)]] ids_ok_live [OF assms(1)]
  by (auto simp: preferred_def live_def)

lemma fold_releaseHost_get:
  assumes "ids_ok d" and "gm_get (td_routes d) i = None"
  shows "gm_get (td_byHost (fold (releaseHost i) ks d)) k =
     (if k \<in> set ks \<and> (\<exists>w. gm_get (td_byHost d) k = Some w \<and> rt_ID w = i)
      then resolve_owner k (gm_get (td_byHost d) k) (map snd (td_routes d))
      else gm_get (td_byHost d) k)"
  using assms
proof (induction ks arbitrary: d)
  case (Cons k' ks)
  let ?d = "releaseHost i k' d"
  have ids: "ids_ok ?d" and gone: "gm_get (td_routes ?d) i = None"
    using Cons.prems by (simp_all add: ids_ok_def)
  note IH = Cons.IH [OF ids gone]
  show ?case
  proof (cases "k = k' \<and> (\<exists>w. gm_get (td_byHost d) k = Some w \<and> rt_ID w = i)")
    case True
    then have "gm_get (td_byHost ?d) k = resolve_owner k (gm_get (td_byHost d) k) (map snd (td_routes d))"
      by (auto simp: releaseHost_def resolveLocked_get)
    with True IH resolved_not_deleted [OF Cons.prems, of k] show ?thesis by auto
  next
    case False
    then have "gm_get (td_byHost ?d) k = gm_get (td_byHost d) k"
      by (cases "k = k'") (auto simp: releaseHost_def resolveLocked_get split: option.split)
    with False IH show ?thesis by auto
  qed
qed simp

lemma deleteLocked_get:
  assumes "table_ok d" and "live d r"
  shows "gm_get (td_byHost (deleteLocked r d)) k =
     (if \<exists>w. gm_get (td_byHost d) k = Some w \<and> rt_ID w = rt_ID r
      then resolve_owner k (gm_get (td_byHost d) k) (map snd (gm_del (rt_ID r) (td_routes d)))
      else gm_get (td_byHost d) k)"
proof -
  let ?d1 = "d\<lparr>td_routes := gm_del (rt_ID r) (td_routes d)\<rparr>"
  have ids: "ids_ok ?d1" and ok: "host_ok d k"
    using assms ids_ok_del [of d] by (simp_all add: table_ok_def)
  have "k \<in> set (hostKeys r)" if "gm_get (td_byHost d) k = Some w" "rt_ID w = rt_ID r" for w
    using that ok assms(2) live_same_id [of d w r] by (simp add: host_ok_def)
  then show ?thesis
    using fold_releaseHost_get [OF ids, of "rt_ID r" "hostKeys r" k]
    by (auto simp: deleteLocked_def Let_def)
qed

definition owner_of :: "Table \<Rightarrow> string \<Rightarrow> Route option" where
  "owner_of t k = gm_get (td_byHost (table_d t)) k"

lemma Delete_owner:
  assumes ok: "table_ok (table_d t)" and t': "t' = snd (Delete i t)"
  shows "(fst (Delete i t) \<longleftrightarrow> ByID t i \<noteq> None)
    \<and> ByID t' j = (if j = i then None else ByID t j)
    \<and> (case owner_of t k of
         None \<Rightarrow> owner_of t' k = None
       | Some w \<Rightarrow>
           if rt_ID w \<noteq> i then owner_of t' k = Some w
           else (\<forall>b. owner_of t' k = Some b \<longleftrightarrow> preferred k (Some w) (set (AllRoutes t')) b))"
proof (cases "gm_get (td_routes (table_d t)) i")
  case None
  have hok: "host_ok (table_d t) k"
    using ok by (simp add: table_ok_def)
  have "t' = t" using None by (simp add: t' Delete_def)
  moreover have "rt_ID w \<noteq> i" if "owner_of t k = Some w" for w
    using that hok None by (auto simp: owner_of_def host_ok_def live_def)
  ultimately show ?thesis
    using None by (auto simp: Delete_def ByID_def split: option.split)
next
  case (Some r)
  have ok': "table_ok (table_d t')"
    using ok Delete_ok by (simp add: t')
  have "rt_ID r = i" and "live (table_d t) r"
    using ok Some by (auto simp: table_ok_def ids_ok_iff live_def)
  have d': "table_d t' = deleteLocked r (table_d t)"
    using Some by (simp add: t' Delete_d)
  have all: "AllRoutes t' = map snd (gm_del (rt_ID r) (td_routes (table_d t)))"
    by (simp add: AllRoutes_def d' deleteLocked_fields)
  have "distinct (map rt_ID (AllRoutes t'))"
    using ok' ids_ok_distinct by (simp add: AllRoutes_def table_ok_def)
  note own = resolve_owner_Some [OF this, of k] deleteLocked_get [OF ok \<open>live (table_d t) r\<close>, of k]
  have "fst (Delete i t) \<longleftrightarrow> ByID t i \<noteq> None" "ByID t' j = (if j = i then None else ByID t j)"
    using Some d' \<open>rt_ID r = i\<close> by (simp_all add: Delete_def ByID_def deleteLocked_fields)
  moreover have "case owner_of t k of
         None \<Rightarrow> owner_of t' k = None
       | Some w \<Rightarrow>
           if rt_ID w \<noteq> i then owner_of t' k = Some w
           else (\<forall>b. owner_of t' k = Some b \<longleftrightarrow> preferred k (Some w) (set (AllRoutes t')) b)"
    using own \<open>rt_ID r = i\<close> unfolding owner_of_def d' all by (simp split: option.split)
  ultimately show ?thesis by blast
qed

text \<open>
  \<open>Delete\<close> on a reachable table removes exactly the named route. A host key served by another
  route keeps its route; a key served by the deleted route passes to the preferred remaining
  claimant (a configured route first, so that the labels of a container take the host over only
  when no configured route wants it), and is withdrawn when there is none.
\<close>

theorem Delete_hands_over:
  "let t = table_run ops; t' = snd (Delete i t)
   in (fst (Delete i t) \<longleftrightarrow> ByID t i \<noteq> None)
       \<and> ByID t' j = (if j = i then None else ByID t j)
       \<and> (case owner_of t k of
            None \<Rightarrow> owner_of t' k = None
          | Some w \<Rightarrow>
              if rt_ID w \<noteq> i then owner_of t' k = Some w
              else (\<forall>b. owner_of t' k = Some b \<longleftrightarrow> preferred k (Some w) (set (AllRoutes t')) b))"
  unfolding Let_def by (rule Delete_owner [OF table_run_ok refl])

section \<open>Replacing the whole table\<close>

lemma fold_upsertLocked_get:
  "gm_get (td_routes (fold upsertLocked rs d)) i =
     (case find (\<lambda>r. rt_ID r = i) (rev rs) of Some r \<Rightarrow> Some r | None \<Rightarrow> gm_get (td_routes d) i)"
proof (induction rs rule: rev_induct)
  case (snoc r rs)
  then show ?case by (auto simp: upsertLocked_fields split: option.split)
qed simp

text \<open>
  \<open>Replace\<close> refuses a list that holds a nil route or a route without identifier and then
  leaves the table as it is, callback included. Otherwise the new contents satisfy the table
  invariant and do not depend on the old ones: looking an identifier up gives the last route of
  the list with that identifier, and nothing of the former table; the callback is told once.
\<close>

theorem Replace_all_or_nothing:
  "(fst (Replace rps t) = Inl RouteWithoutID \<longleftrightarrow> None \<in> set rps \<or> Some [] \<in> map_option rt_ID ` set rps)
   \<and> (case fst (Replace rps t) of
        Inl e \<Rightarrow> snd (Replace rps t) = t
      | Inr u \<Rightarrow> table_ok (table_d (snd (Replace rps t)))
          \<and> ByID (snd (Replace rps t)) i = find (\<lambda>r. rt_ID r = i) (rev (map the rps))
          \<and> tb_notified (snd (Replace rps t)) = tb_notified t + of_bool (tb_onChange t))"
proof -
  have bad: "list_ex (\<lambda>rp. case rp of None \<Rightarrow> True | Some r \<Rightarrow> rt_ID r = []) rps
      \<longleftrightarrow> None \<in> set rps \<or> Some [] \<in> map_option rt_ID ` set rps"
    by (induction rps) (auto split: option.splits)
  have "gm_get (td_routes (fold upsertLocked (map the rps) empty_tableData)) i
      = find (\<lambda>r. rt_ID r = i) (rev (map the rps))"
    by (simp add: fold_upsertLocked_get empty_tableData_def split: option.split)
  then show ?thesis
    unfolding Replace_def bad by (auto simp: fold_upsertLocked_ok ByID_def changed_def table_d_def)
qed

section \<open>Ports\<close>

text \<open>
  Two routes may listen on the same port; the table keeps one of them. Deleting either of them
  removes the port entry, even when it leads to the other one: the remaining route is still in
  the table, listens on the port, and \<open>ByPort\<close> no longer finds it. The same happens when one of
  the routes is upserted with another port. Hosts are handed over, ports are not.
\<close>

theorem port_entry_lost:
  "let t = table_run [OpUpsert (demo_route ''a'' [] 5432), OpUpsert (demo_route ''b'' [] 5432)]
   in ByPort t 5432 = Some (demo_route ''b'' [] 5432)
      \<and> ByID (snd (Delete ''a'' t)) ''b'' = Some (demo_route ''b'' [] 5432)
      \<and> ByPort (snd (Delete ''a'' t)) 5432 = None
      \<and> ByPort (Upsert (demo_route ''a'' [] 5433) t) 5432 = None"
  by (simp add: demo_eval)

section \<open>Wildcard coverage\<close>

text \<open>Both predicates on the normalised host and pattern.\<close>

lemma TrimSuffix_dot: "\<not> HasSuffix s ''.'' \<Longrightarrow> TrimSuffix s ''.'' = s"
  by (simp add: TrimSuffix_def)

lemma wildcardKey_covers:
  assumes "\<not> HasPrefix h ''.''"
  shows "wildcardKey h = Some p \<longleftrightarrow>
    HasPrefix p ''*.'' \<and> HasSuffix h (drop 1 p) \<and> length (drop 1 p) < length h
    \<and> \<not> Contains (take (length h - length (drop 1 p)) h) CHR ''.''"
    (is "?L \<longleftrightarrow> ?R")
proof
  assume ?L
  then obtain j where j: "IndexByte h CHR ''.'' = Some j" and p: "p = CHR ''*'' # drop j h"
    by (auto simp: wildcardKey_def)
  then have J: "j < length h" "h ! j = CHR ''.''" "CHR ''.'' \<notin> set (take j h)"
    by (simp_all add: IndexByte_Some)
  have "j \<noteq> 0"
    using assms J by (cases h; cases j) (auto simp: HasPrefix_def)
  with J p show ?R
    by (auto simp: HasPrefix_def HasSuffix_def Contains_def take_Suc_conv_app_nth Cons_nth_drop_Suc [symmetric])
next
  assume R: ?R
  then obtain q where q: "p = CHR ''*'' # CHR ''.'' # q"
    by (auto simp: HasPrefix_iff)
  with R obtain rest where h: "h = rest @ CHR ''.'' # q"
    by (auto simp: HasSuffix_iff)
  with R q have "CHR ''.'' \<notin> set rest"
    by (simp add: Contains_def)
  then have "IndexByte h CHR ''.'' = Some (length rest)"
    by (simp add: IndexByte_Some h)
  then show ?L by (simp add: wildcardKey_def h q)
qed

text \<open>
  \<open>HostCoveredByPattern\<close> says of a pattern what \<open>ByHost\<close> does with a route for it: a table that
  holds one route whose host is the pattern serves exactly the covered hosts, for hosts and
  patterns that are not blank, end in no dot, and for hosts that start with no dot.
\<close>

theorem HostCoveredByPattern_ByHost:
  assumes "\<not> HasSuffix (ToLower (TrimSpace h)) ''.''" and "\<not> HasSuffix (ToLower (TrimSpace p)) ''.''"
    and "\<not> HasPrefix (ToLower (TrimSpace h)) ''.''" and "TrimSpace p \<noteq> []"
  shows "HostCoveredByPattern h p \<longleftrightarrow> ByHost (table_run [OpUpsert (demo_route i p 0)]) h \<noteq> None"
proof -
  let ?h = "ToLower (TrimSpace h)" and ?p = "ToLower (TrimSpace p)"
  have key: "hostKey h = ?h" "hostKey p = ?p"
    using assms by (simp_all add: hostKey_def TrimSuffix_dot)
  have "p \<noteq> []" "?p \<noteq> []"
    using assms(4) by (auto simp: TrimSpace_def ToLower_def)
  then have "td_byHost (table_d (table_run [OpUpsert (demo_route i p 0)])) = [(?p, demo_route i p 0)]"
    by (simp add: table_run_def zero_table_def upsertLocked_def hostKeys_def demo_route_def zero_route_def
        empty_tableData_def table_d_def Upsert_def changed_def storePort_def claimHost_def mayOwn_def key Let_def)
  then have by_host: "ByHost (table_run [OpUpsert (demo_route i p 0)]) h \<noteq> None
      \<longleftrightarrow> ?h = ?p \<or> wildcardKey ?h = Some ?p"
    by (auto simp: ByHost_def Let_def key split: option.split)
  have "\<not> HasSuffix [] (drop 1 ?p) \<or> \<not> length (drop 1 ?p) < length ([] :: string)"
    by simp
  then show ?thesis
    unfolding by_host wildcardKey_covers [OF assms(3)] HostCoveredByPattern_def Let_def
    using \<open>?p \<noteq> []\<close> by (cases "?h = []") (auto simp: not_less)
qed

theorem HostCoveredByPattern_ByHost_witness:
  "HostCoveredByPattern ''api.ex.fr'' ''*.ex.fr'' \<longleftrightarrow>
   ByHost (table_run [OpUpsert (demo_route ''r'' ''*.ex.fr'' 0)]) ''api.ex.fr'' \<noteq> None"
  using HostCoveredByPattern_ByHost [of "''api.ex.fr''" "''*.ex.fr''" "''r''"]
  by (simp add: HasSuffix_def HasPrefix_def ToLower_def TrimSpace_def is_space_def lower_char_def)

text \<open>Outside that range they differ: the root dot of a fully qualified name, and an empty first label.\<close>

lemma coverage_differs:
  "ByHost (table_run [OpUpsert (demo_route ''r'' ''*.ex.fr'' 0)]) ''api.ex.fr.'' \<noteq> None"
  "\<not> HostCoveredByPattern ''api.ex.fr.'' ''*.ex.fr''"
  "ByHost (table_run [OpUpsert (demo_route ''r'' ''*.ex.fr'' 0)]) ''.ex.fr'' \<noteq> None"
  "\<not> HostCoveredByPattern ''.ex.fr'' ''*.ex.fr''"
  by (simp_all add: demo_eval HostCoveredByPattern_def)

end
