(* ===== verification/Netip.thy ===== *)
theory Netip
  imports Gostrings
begin

text \<open>
  The parts of the Go packages \<open>net/netip\<close> and \<open>net\<close> that the router uses: addresses, prefixes and
  the textual forms of both. The zero \<open>netip.Addr\<close> is \<open>None\<close>. A \<open>net.IP\<close> is the address its bytes
  stand for: four bytes are a \<open>V4\<close>, sixteen bytes a \<open>V6\<close>, and \<open>None\<close> is a slice of another length.
\<close>

datatype Addr = V4 "32 word" | V6 "128 word"

fun Is4 :: "Addr \<Rightarrow> bool" where
  "Is4 (V4 _) = True"
| "Is4 (V6 _) = False"

fun BitLen :: "Addr \<Rightarrow> nat" where
  "BitLen (V4 _) = 32"
| "BitLen (V6 _) = 128"

fun Is4In6 :: "Addr \<Rightarrow> bool" where
  "Is4In6 (V4 _) = False"
| "Is4In6 (V6 w) = (drop_bit 32 w = 0xFFFF)"

definition Unmap :: "Addr \<Rightarrow> Addr" where
  "Unmap a = (case a of V6 w \<Rightarrow> if Is4In6 a then V4 (ucast w) else a | V4 _ \<Rightarrow> a)"

text \<open>\<open>As16\<close>: the sixteen-byte form, in which an IPv4 address is mapped.\<close>

fun As16 :: "Addr \<Rightarrow> Addr" where
  "As16 (V4 w) = V6 (push_bit 32 0xFFFF + ucast w)"
| "As16 (V6 w) = V6 w"

text \<open>The first bits of an address; the rest are cleared.\<close>

definition keep_bits :: "nat \<Rightarrow> 'a::len word \<Rightarrow> 'a word" where
  "keep_bits b w = push_bit (LENGTH('a) - b) (drop_bit (LENGTH('a) - b) w)"

fun masked_addr :: "nat \<Rightarrow> Addr \<Rightarrow> Addr" where
  "masked_addr b (V4 w) = V4 (keep_bits b w)"
| "masked_addr b (V6 w) = V6 (keep_bits b w)"

text \<open>A \<open>netip.Prefix\<close>; the invalid one is \<open>(None, -1)\<close>.\<close>

type_synonym Prefix = "Addr option \<times> int"

definition PrefixFrom :: "Addr \<Rightarrow> int \<Rightarrow> Prefix" where
  "PrefixFrom a b = (if b < 0 \<or> int (BitLen a) < b then (Some a, -1) else (Some a, b))"

definition addr_Prefix :: "Addr \<Rightarrow> int \<Rightarrow> Prefix option" where
  "addr_Prefix a b = (if b < 0 \<or> int (BitLen a) < b then None else Some (Some (masked_addr (nat b) a), b))"

definition Masked :: "Prefix \<Rightarrow> Prefix" where
  "Masked p =
     (case fst p of
        None \<Rightarrow> (None, -1)
      | Some a \<Rightarrow> (case addr_Prefix a (snd p) of None \<Rightarrow> (None, -1) | Some q \<Rightarrow> q))"

text \<open>The numeric meaning of a prefix: an address is in it when the two agree on the first \<open>b\<close> bits.\<close>

fun same_net :: "nat \<Rightarrow> Addr \<Rightarrow> Addr \<Rightarrow> bool" where
  "same_net b (V4 p) (V4 a) = (unat p div 2 ^ (32 - b) = unat a div 2 ^ (32 - b))"
| "same_net b (V6 p) (V6 a) = (unat p div 2 ^ (128 - b) = unat a div 2 ^ (128 - b))"
| "same_net b _ _ = False"

definition prefix_Contains :: "Prefix \<Rightarrow> Addr \<Rightarrow> bool" where
  "prefix_Contains p a =
     (case fst p of
        None \<Rightarrow> False
      | Some q \<Rightarrow> 0 \<le> snd p \<and> snd p \<le> int (BitLen q) \<and> same_net (nat (snd p)) q a)"

lemma keep_bits_eq_iff:
  "keep_bits b (v :: 'a::len word) = keep_bits b w \<longleftrightarrow>
     unat v div 2 ^ (LENGTH('a) - b) = unat w div 2 ^ (LENGTH('a) - b)"
proof -
  let ?n = "LENGTH('a) - b"
  have "keep_bits b v = keep_bits b w \<longleftrightarrow> drop_bit ?n v = drop_bit ?n w"
  proof
    assume "keep_bits b v = keep_bits b w"
    then have "drop_bit ?n (keep_bits b v) = drop_bit ?n (keep_bits b w)" by simp
    moreover have "drop_bit ?n (keep_bits b u) = drop_bit ?n u" for u :: "'a word"
      by (rule bit_word_eqI) (auto simp: keep_bits_def bit_simps dest: bit_imp_le_length)
    ultimately show "drop_bit ?n v = drop_bit ?n w" by simp
  qed (simp add: keep_bits_def)
  also have "\<dots> \<longleftrightarrow> unat (drop_bit ?n v) = unat (drop_bit ?n w)"
    by (simp add: word_unat_eq_iff)
  also have "\<dots> \<longleftrightarrow> unat v div 2 ^ ?n = unat w div 2 ^ ?n"
    by (simp only: unat_drop_bit_eq) (simp add: drop_bit_eq_div)
  finally show ?thesis .
qed

lemma masked_addr_eq: "masked_addr b p = masked_addr b a \<longleftrightarrow> same_net b p a"
  by (cases p; cases a) (simp_all add: keep_bits_eq_iff)

lemma BitLen_masked [simp]: "BitLen (masked_addr b a) = BitLen a"
  by (cases a) simp_all

lemma Is4_masked [simp]: "Is4 (masked_addr b a) = Is4 a"
  by (cases a) simp_all

lemma same_net_family: "same_net b p a \<Longrightarrow> Is4 p = Is4 a \<and> BitLen p = BitLen a"
  by (cases p; cases a) simp_all

text \<open>Membership is a lookup of the masked address.\<close>

lemma Masked_eq_iff:
  "Masked p = (Some (masked_addr (nat b) a), b) \<and> 0 \<le> b \<and> b \<le> int (BitLen a)
   \<longleftrightarrow> prefix_Contains p a \<and> snd p = b"
proof (cases "fst p")
  case None
  then show ?thesis by (simp add: Masked_def prefix_Contains_def)
next
  case (Some q)
  have "(q' = masked_addr (nat b) a) \<longleftrightarrow> same_net (nat b) q a" if "q' = masked_addr (nat b) q" for q'
    using that masked_addr_eq by simp
  then show ?thesis
    using Some same_net_family [of "nat b" q a] masked_addr_eq [of "nat b" q a]
      arg_cong [of "masked_addr (nat b) q" "masked_addr (nat b) a" BitLen]
    by (auto simp: Masked_def prefix_Contains_def addr_Prefix_def)
qed

section \<open>Textual forms\<close>

definition is_digit :: "char \<Rightarrow> bool" where
  "is_digit c \<longleftrightarrow> 48 \<le> (of_char c :: nat) \<and> (of_char c :: nat) \<le> 57"

definition digit_val :: "char \<Rightarrow> nat" where
  "digit_val c = of_char c - 48"

definition dec_val :: "string \<Rightarrow> nat" where
  "dec_val s = fold (\<lambda>c n. n * 10 + digit_val c) s 0"

fun split_on :: "char \<Rightarrow> string \<Rightarrow> string list" where
  "split_on c [] = [[]]"
| "split_on c (x # xs) =
     (if x = c then [] # split_on c xs
      else (case split_on c xs of [] \<Rightarrow> [[x]] | f # fs \<Rightarrow> (x # f) # fs))"

text \<open>An IPv4 field: decimal, no leading zero, at most 255.\<close>

definition ipv4_field :: "string \<Rightarrow> nat option" where
  "ipv4_field f =
     (if f = [] \<or> \<not> list_all is_digit f \<or> (1 < length f \<and> hd f = CHR ''0'') \<or> 255 < dec_val f
      then None else Some (dec_val f))"

definition parseIPv4 :: "string \<Rightarrow> nat option" where
  "parseIPv4 s =
     (case map ipv4_field (split_on CHR ''.'' s) of
        [Some a, Some b, Some c, Some d] \<Rightarrow> Some (((a * 256 + b) * 256 + c) * 256 + d)
      | _ \<Rightarrow> None)"

definition hex_val :: "char \<Rightarrow> nat option" where
  "hex_val c =
     (let n = (of_char c :: nat)
      in if 48 \<le> n \<and> n \<le> 57 then Some (n - 48)
         else if 97 \<le> n \<and> n \<le> 102 then Some (n - 87)
         else if 65 \<le> n \<and> n \<le> 70 then Some (n - 55) else None)"

definition is_hex :: "char \<Rightarrow> bool" where
  "is_hex c \<longleftrightarrow> hex_val c \<noteq> None"

definition hex_group :: "string \<Rightarrow> nat" where
  "hex_group s = fold (\<lambda>c n. n * 16 + the (hex_val c)) s 0"

text \<open>
  The loop of \<open>parseIPv6\<close>: the number of 16-bit groups there is still room for, the text left, the
  groups read and the position of the ellipsis. The result is the groups, the ellipsis and what is
  left of the text.
\<close>

fun ipv6_groups :: "nat \<Rightarrow> string \<Rightarrow> nat list \<Rightarrow> nat option \<Rightarrow> (nat list \<times> nat option \<times> string) option" where
  "ipv6_groups 0 s gs el = Some (gs, el, s)"
| "ipv6_groups (Suc room) s gs el =
     (let digits = takeWhile is_hex s; rest = dropWhile is_hex s
      in if digits = [] \<or> 4 < length digits then None
         else if rest \<noteq> [] \<and> hd rest = CHR ''.'' then
           (if el = None \<and> length gs \<noteq> 6 \<or> room = 0 then None
            else case parseIPv4 s of
              None \<Rightarrow> None
            | Some v \<Rightarrow> Some (gs @ [v div 65536, v mod 65536], el, []))
         else
           (let gs' = gs @ [hex_group digits]
            in case rest of
                 [] \<Rightarrow> Some (gs', el, [])
               | c # rest' \<Rightarrow>
                   if c \<noteq> CHR '':'' \<or> rest' = [] then None
                   else if hd rest' = CHR '':'' then
                     (if el \<noteq> None then None
                      else if tl rest' = [] then Some (gs', Some (length gs'), [])
                      else ipv6_groups room (tl rest') gs' (Some (length gs')))
                   else ipv6_groups room rest' gs' el))"

definition groups_word :: "nat list \<Rightarrow> 128 word" where
  "groups_word gs = fold (\<lambda>g w. push_bit 16 w + of_nat g) gs 0"

definition expand_groups :: "nat list \<times> nat option \<times> string \<Rightarrow> 128 word option" where
  "expand_groups x =
     (case x of (gs, el, s) \<Rightarrow>
        if s \<noteq> [] then None
        else if length gs < 8 then
          (case el of
             None \<Rightarrow> None
           | Some e \<Rightarrow> Some (groups_word (take e gs @ replicate (8 - length gs) 0 @ drop e gs)))
        else if el \<noteq> None then None else Some (groups_word gs))"

text \<open>\<open>parseIPv6\<close> returns the address and its zone.\<close>

definition parseIPv6 :: "string \<Rightarrow> (128 word \<times> string) option" where
  "parseIPv6 text =
     (let s = takeWhile (\<lambda>c. c \<noteq> CHR ''%'') text; z = dropWhile (\<lambda>c. c \<noteq> CHR ''%'') text
      in if z = ''%'' then None
         else map_option (\<lambda>w. (w, drop 1 z))
           (if HasPrefix s ''::'' then
              (if drop 2 s = [] then Some 0
               else Option.bind (ipv6_groups 8 (drop 2 s) [] (Some 0)) expand_groups)
            else Option.bind (ipv6_groups 8 s [] None) expand_groups))"

text \<open>\<open>netip.ParseAddr\<close>: the first of dot, colon and percent sign decides.\<close>

definition ParseAddr :: "string \<Rightarrow> (Addr \<times> string) option" where
  "ParseAddr s =
     (case find (\<lambda>c. c \<in> {CHR ''.'', CHR '':'', CHR ''%''}) s of
        None \<Rightarrow> None
      | Some c \<Rightarrow>
          if c = CHR ''.'' then map_option (\<lambda>v. (V4 (of_nat v), [])) (parseIPv4 s)
          else if c = CHR '':'' then map_option (\<lambda>(w, z). (V6 w, z)) (parseIPv6 s)
          else None)"

text \<open>\<open>net.ParseIP\<close>: sixteen bytes, no zone.\<close>

definition ParseIP :: "string \<Rightarrow> Addr option" where
  "ParseIP s = (case ParseAddr s of Some (a, z) \<Rightarrow> if z = [] then Some (As16 a) else None | None \<Rightarrow> None)"

text \<open>\<open>net.IPNet\<close> with the result of \<open>Mask.Size\<close>: the number of ones and the size, (0, 0) for a mask that is not canonical.\<close>

record IPNet =
  ipn_IP :: "Addr option"
  ipn_ones :: int
  ipn_size :: int

definition ParseCIDR :: "string \<Rightarrow> IPNet option" where
  "ParseCIDR s =
     (case IndexByte s CHR ''/'' of
        None \<Rightarrow> None
      | Some i \<Rightarrow>
          let addr = take i s; mask = drop (i + 1) s
          in case ParseAddr addr of
               None \<Rightarrow> None
             | Some (a, z) \<Rightarrow>
                 if z \<noteq> [] \<or> mask = [] \<or> \<not> list_all is_digit mask \<or> BitLen a < dec_val mask then None
                 else Some \<lparr>ipn_IP = Some (masked_addr (dec_val mask) a), ipn_ones = int (dec_val mask),
                            ipn_size = int (BitLen a)\<rparr>)"

text \<open>Evaluation of the textual forms on literals.\<close>

lemmas ipv6_groups_numeral = ipv6_groups.simps(2) [of "pred_numeral n" for n, folded numeral_eq_Suc]

lemmas netip_eval = ParseAddr_def parseIPv4_def parseIPv6_def ipv4_field_def is_digit_def dec_val_def digit_val_def
  HasPrefix_def hex_group_def hex_val_def is_hex_def Let_def expand_groups_def groups_word_def ParseIP_def ParseCIDR_def
  Unmap_def keep_bits_def PrefixFrom_def funpow_numeral ipv6_groups_numeral

end
