(* ===== verification/Prefix_Index.thy ===== *)
theory Prefix_Index
  imports Netip
begin

text \<open>
  The address index of the router (\<open>internal/edge/router/prefix_index.go\<close>): per family and per mask
  length, a table from network addresses to the entries of that network. The theorems show that a
  lookup returns what the linear search it replaces would return.
\<close>

record 'v indexed =
  ix_order :: int
  ix_val :: 'v

record 'v lenTable =
  lt_bits :: int
  lt_m :: "(Addr option, 'v indexed list) gomap"

record 'v prefixIndex =
  px_v4 :: "'v lenTable list"
  px_v6 :: "'v lenTable list"
  px_n :: int

type_synonym 'v tables = "(int, (Addr option, 'v indexed list) gomap) gomap"

record 'v prefixBuilder =
  pb_v4 :: "'v tables"
  pb_v6 :: "'v tables"
  pb_n :: int

definition newPrefixBuilder :: "'v prefixBuilder" where
  "newPrefixBuilder = \<lparr>pb_v4 = [], pb_v6 = [], pb_n = 0\<rparr>"

definition table_add :: "int \<Rightarrow> Prefix \<Rightarrow> 'v \<Rightarrow> 'v tables \<Rightarrow> 'v tables" where
  "table_add order p v T =
     (let m = gm_get0 T [] (snd p)
      in gm_set (snd p) (gm_set (fst p) (gm_get0 m [] (fst p) @ [\<lparr>ix_order = order, ix_val = v\<rparr>]) m) T)"

definition pb_add :: "int \<Rightarrow> Prefix \<Rightarrow> 'v \<Rightarrow> 'v prefixBuilder \<Rightarrow> 'v prefixBuilder" where
  "pb_add order p v b =
     (let q = Masked p;
          b' = (if (case fst q of Some a \<Rightarrow> Is4 a | None \<Rightarrow> False)
                then b\<lparr>pb_v4 := table_add order q v (pb_v4 b)\<rparr>
                else b\<lparr>pb_v6 := table_add order q v (pb_v6 b)\<rparr>)
      in b'\<lparr>pb_n := pb_n b' + 1\<rparr>)"

definition addIP :: "int \<Rightarrow> Addr option \<Rightarrow> 'v \<Rightarrow> 'v prefixBuilder \<Rightarrow> bool \<times> 'v prefixBuilder" where
  "addIP order ip v b =
     (case ip of
        None \<Rightarrow> (False, b)
      | Some a0 \<Rightarrow> let a = Unmap a0 in (True, pb_add order (PrefixFrom a (int (BitLen a))) v b))"

definition addNet :: "int \<Rightarrow> IPNet \<Rightarrow> 'v \<Rightarrow> 'v prefixBuilder \<Rightarrow> bool \<times> 'v prefixBuilder" where
  "addNet order n v b =
     (if ipn_size n = 0 then (False, b)
      else case ipn_IP n of
        None \<Rightarrow> (False, b)
      | Some a \<Rightarrow>
          if Is4In6 a \<and> ipn_size n = 128 \<and> 96 \<le> ipn_ones n
          then (True, pb_add order (PrefixFrom (Unmap a) (ipn_ones n - 96)) v b)
          else (True, pb_add order (PrefixFrom a (ipn_ones n)) v b))"

text \<open>Mask lengths are the keys of the builder's map, hence distinct: the sort decides the whole order.\<close>

definition freeze :: "'v tables \<Rightarrow> 'v lenTable list" where
  "freeze T = sort_key (\<lambda>t. - lt_bits t) (map (\<lambda>(bits, m). \<lparr>lt_bits = bits, lt_m = m\<rparr>) T)"

definition build :: "'v prefixBuilder \<Rightarrow> 'v prefixIndex" where
  "build b = \<lparr>px_v4 = freeze (pb_v4 b), px_v6 = freeze (pb_v6 b), px_n = pb_n b\<rparr>"

text \<open>The inner loop of \<open>lookup\<close>, over the entries of one network.\<close>

fun lookup_entries :: "('v \<Rightarrow> bool) \<Rightarrow> 'v indexed list \<Rightarrow> int \<times> 'v option \<Rightarrow> int \<times> 'v option" where
  "lookup_entries skip [] (best, out) = (best, out)"
| "lookup_entries skip (e # es) (best, out) =
     (if 0 \<le> best \<and> best \<le> ix_order e then (best, out)
      else if skip (ix_val e) then lookup_entries skip es (best, out)
      else (ix_order e, Some (ix_val e)))"

definition lookup_table :: "('v \<Rightarrow> bool) \<Rightarrow> Addr \<Rightarrow> 'v lenTable \<Rightarrow> int \<times> 'v option \<Rightarrow> int \<times> 'v option" where
  "lookup_table skip a t acc =
     (case addr_Prefix a (lt_bits t) of
        None \<Rightarrow> acc
      | Some p \<Rightarrow> lookup_entries skip (gm_get0 (lt_m t) [] (fst p)) acc)"

text \<open>A nil \<open>skip\<close> function skips nothing. The result is \<open>None\<close> when the second Go result is false.\<close>

definition lookup :: "'v prefixIndex option \<Rightarrow> Addr option \<Rightarrow> ('v \<Rightarrow> bool) \<Rightarrow> 'v option" where
  "lookup x addr skip =
     (case (x, addr) of
        (Some x, Some a) \<Rightarrow>
          let (best, out) = fold (lookup_table skip a) (if Is4 a then px_v4 x else px_v6 x) (-1, None)
          in if 0 \<le> best then out else None
      | _ \<Rightarrow> None)"

definition ParseClientAddr :: "string \<Rightarrow> Addr option" where
  "ParseClientAddr s =
     (case ParseAddr s of
        None \<Rightarrow> None
      | Some (a, z) \<Rightarrow> if z \<noteq> [] then None else Some (Unmap a))"

section \<open>The linear search\<close>

text \<open>The entries in the order of their insertion, each with its order, its prefix and its value.\<close>

type_synonym 'v entry = "int \<times> Prefix \<times> 'v"

definition index_of :: "'v entry list \<Rightarrow> 'v prefixIndex" where
  "index_of es = build (fold (\<lambda>(n, p, v). pb_add n p v) es newPrefixBuilder)"

definition first_match :: "'v entry list \<Rightarrow> Addr \<Rightarrow> ('v \<Rightarrow> bool) \<Rightarrow> 'v option" where
  "first_match es a skip =
     map_option (\<lambda>(n, p, v). v) (find (\<lambda>(n, p, v). prefix_Contains p a \<and> \<not> skip v) es)"

text \<open>Orders do not decrease and one order stands for one value, as the two stores number their entries.\<close>

definition entries_ok :: "'v entry list \<Rightarrow> bool" where
  "entries_ok es \<longleftrightarrow>
     sorted (map fst es) \<and> (\<forall>(n, p, v)\<in>set es. 0 \<le> n \<and> (\<forall>(n', p', v')\<in>set es. n' = n \<longrightarrow> v' = v))"

lemma entries_okI:
  assumes "sorted (map fst es)"
    and "\<And>n p v. (n, p, v) \<in> set es \<Longrightarrow> 0 \<le> n"
    and "\<And>n p v p' v'. (n, p, v) \<in> set es \<Longrightarrow> (n, p', v') \<in> set es \<Longrightarrow> v' = v"
  shows "entries_ok es"
  using assms unfolding entries_ok_def by fast

lemma entries_okD:
  "entries_ok es \<Longrightarrow> (n, p, v) \<in> set es \<Longrightarrow> 0 \<le> n"
  "entries_ok es \<Longrightarrow> (n, p, v) \<in> set es \<Longrightarrow> (n, p', v') \<in> set es \<Longrightarrow> v' = v"
  unfolding entries_ok_def by fast+

text \<open>Blocks of entries with increasing orders can be put one after the other.\<close>

lemma entries_ok_append:
  assumes "entries_ok es" and "entries_ok fs"
    and "\<And>n p v n' p' v'. (n, p, v) \<in> set es \<Longrightarrow> (n', p', v') \<in> set fs \<Longrightarrow> n < n'"
  shows "entries_ok (es @ fs)"
proof (rule entries_okI)
  have "x \<le> y" if "x \<in> fst ` set es" "y \<in> fst ` set fs" for x y
    using that assms(3) by (force intro: less_imp_le)
  then show "sorted (map fst (es @ fs))"
    using assms by (auto simp: entries_ok_def sorted_append)
next
  show "0 \<le> n" if "(n, p, v) \<in> set (es @ fs)" for n p v
    using that entries_okD(1) [OF assms(1), of n p v] entries_okD(1) [OF assms(2), of n p v] by auto
  show "v' = v" if "(n, p, v) \<in> set (es @ fs)" "(n, p', v') \<in> set (es @ fs)" for n p v p' v'
    using that entries_okD(2) [OF assms(1), of n p v p' v'] entries_okD(2) [OF assms(2), of n p v p' v']
      assms(3) [of n p v n p' v'] assms(3) [of n p' v' n p v] by auto
qed

lemma entries_ok_block: "0 \<le> n \<Longrightarrow> entries_ok (map (\<lambda>q. (n, q, v)) qs)"
  by (rule entries_okI) (auto simp: comp_def sorted_map intro: sorted_wrt01)

section \<open>The builder's tables\<close>

definition entries_at :: "'v entry list \<Rightarrow> bool \<Rightarrow> int \<Rightarrow> Addr option \<Rightarrow> 'v indexed list" where
  "entries_at es four bits k =
     map (\<lambda>(n, p, v). \<lparr>ix_order = n, ix_val = v\<rparr>)
       (filter (\<lambda>(n, p, v). Masked p = (k, bits) \<and> (case k of Some a \<Rightarrow> Is4 a | None \<Rightarrow> False) = four) es)"

definition built :: "'v entry list \<Rightarrow> 'v prefixBuilder" where
  "built es = fold (\<lambda>(n, p, v). pb_add n p v) es newPrefixBuilder"

lemma table_add_get:
  "gm_get0 (gm_get0 (table_add n q v T) [] bits) [] k =
     gm_get0 (gm_get0 T [] bits) [] k @ (if q = (k, bits) then [\<lparr>ix_order = n, ix_val = v\<rparr>] else [])"
  by (cases q) (auto simp: table_add_def Let_def)

lemma built_get:
  "gm_get0 (gm_get0 (pb_v4 (built es)) [] bits) [] k = entries_at es True bits k"
  "gm_get0 (gm_get0 (pb_v6 (built es)) [] bits) [] k = entries_at es False bits k"
proof (induction es rule: rev_induct)
  case Nil
  show "gm_get0 (gm_get0 (pb_v4 (built [])) [] bits) [] k = entries_at [] True bits k"
    "gm_get0 (gm_get0 (pb_v6 (built [])) [] bits) [] k = entries_at [] False bits k"
    by (simp_all add: built_def newPrefixBuilder_def entries_at_def gm_get0_def)
next
  case (snoc e es)
  obtain n p v where e: "e = (n, p, v)" by (cases e) auto
  have "built (es @ [e]) = pb_add n p v (built es)"
    by (simp add: built_def e)
  then show "gm_get0 (gm_get0 (pb_v4 (built (es @ [e]))) [] bits) [] k = entries_at (es @ [e]) True bits k"
    "gm_get0 (gm_get0 (pb_v6 (built (es @ [e]))) [] bits) [] k = entries_at (es @ [e]) False bits k"
    using snoc by (auto simp: pb_add_def Let_def table_add_get entries_at_def e split: option.splits)
qed

lemma table_add_ok: "gm_ok T \<Longrightarrow> gm_ok (table_add n q v T)"
  by (simp add: table_add_def Let_def)

lemma built_ok: "gm_ok (pb_v4 (built es)) \<and> gm_ok (pb_v6 (built es))"
proof (induction es rule: rev_induct)
  case Nil
  then show ?case by (simp add: built_def newPrefixBuilder_def)
next
  case (snoc e es)
  then show ?case by (cases e) (auto simp: built_def pb_add_def Let_def table_add_ok)
qed

section \<open>The loops of a lookup\<close>

text \<open>
  A loop keeps the least non-skipped entry it has seen: \<open>least_of E acc\<close> says that of the entries \<open>E\<close>
  seen so far.
\<close>

definition least_of :: "'v indexed set \<Rightarrow> int \<times> 'v option \<Rightarrow> bool" where
  "least_of E acc \<longleftrightarrow>
     (if E = {} then acc = (-1, None)
      else \<exists>e\<in>E. acc = (ix_order e, Some (ix_val e)) \<and> (\<forall>e'\<in>E. ix_order e \<le> ix_order e'))"

definition good :: "('v \<Rightarrow> bool) \<Rightarrow> 'v indexed list \<Rightarrow> 'v indexed set" where
  "good skip L = {e \<in> set L. \<not> skip (ix_val e)}"

lemma lookup_entries_least:
  assumes "least_of E acc" and "sorted (map ix_order L)" and "\<forall>e\<in>set L. 0 \<le> ix_order e" and "\<forall>e\<in>E. 0 \<le> ix_order e"
  shows "least_of (E \<union> good skip L) (lookup_entries skip L acc)"
  using assms
proof (induction L)
  case Nil
  then show ?case by (cases acc) (simp add: good_def)
next
  case (Cons e L)
  obtain best out where acc: "acc = (best, out)" by (cases acc)
  consider (stop) "0 \<le> best \<and> best \<le> ix_order e" | (skip) "\<not> (0 \<le> best \<and> best \<le> ix_order e)" "skip (ix_val e)"
    | (take) "\<not> (0 \<le> best \<and> best \<le> ix_order e)" "\<not> skip (ix_val e)" by blast
  then show ?case
  proof cases
    case stop
    then obtain e0 where e0: "e0 \<in> E" "acc = (ix_order e0, Some (ix_val e0))" "\<forall>e'\<in>E. ix_order e0 \<le> ix_order e'"
      using Cons.prems(1) acc by (auto simp: least_of_def split: if_splits)
    moreover have "\<forall>e'\<in>good skip (e # L). best \<le> ix_order e'"
      using stop Cons.prems(2) by (auto simp: good_def)
    moreover have "lookup_entries skip (e # L) acc = acc"
      using stop acc by simp
    ultimately show ?thesis
      using acc unfolding least_of_def by auto
  next
    case skip
    then have "good skip (e # L) = good skip L" by (auto simp: good_def)
    moreover have "lookup_entries skip (e # L) acc = lookup_entries skip L acc"
      using skip acc by auto
    ultimately show ?thesis using Cons by simp
  next
    case take
    then have "e \<in> good skip (e # L)" by (simp add: good_def)
    moreover have "\<forall>e'\<in>good skip (e # L). ix_order e \<le> ix_order e'"
      using Cons.prems(2) by (auto simp: good_def)
    moreover have "\<forall>e'\<in>E. ix_order e \<le> ix_order e'"
    proof (cases "E = {}")
      case False
      then have "0 \<le> best" and "\<forall>e'\<in>E. best \<le> ix_order e'"
        using Cons.prems(1,4) acc by (auto simp: least_of_def)
      then show ?thesis using take(1) by auto
    qed simp
    ultimately show ?thesis using take acc by (auto simp: least_of_def)
  qed
qed

lemma fold_lookup_least:
  assumes "least_of E acc" and "\<forall>e\<in>E. 0 \<le> ix_order e"
    and "\<And>t. t \<in> set ts \<Longrightarrow> sorted (map ix_order (L t)) \<and> (\<forall>e\<in>set (L t). 0 \<le> ix_order e)"
    and "\<And>t acc. t \<in> set ts \<Longrightarrow> lookup_table skip a t acc = lookup_entries skip (L t) acc"
  shows "least_of (E \<union> (\<Union>t\<in>set ts. good skip (L t))) (fold (lookup_table skip a) ts acc)"
  using assms
proof (induction ts arbitrary: E acc)
  case (Cons t ts)
  have "least_of (E \<union> good skip (L t)) (lookup_table skip a t acc)"
    using Cons.prems(2) Cons.prems(3) [of t] Cons.prems(4) [of t acc]
      lookup_entries_least [OF Cons.prems(1), of "L t" skip] by simp
  moreover have "\<forall>e\<in>E \<union> good skip (L t). 0 \<le> ix_order e"
    using Cons.prems by (auto simp: good_def)
  ultimately have "least_of ((E \<union> good skip (L t)) \<union> (\<Union>t\<in>set ts. good skip (L t)))
      (fold (lookup_table skip a) ts (lookup_table skip a t acc))"
    using Cons.prems by (intro Cons.IH) auto
  then show ?case by (simp add: Un_assoc)
qed simp

section \<open>The index agrees with the linear search\<close>

lemma entries_at_order:
  assumes "entries_ok es"
  shows "sorted (map ix_order (entries_at es four bits k)) \<and> (\<forall>e\<in>set (entries_at es four bits k). 0 \<le> ix_order e)"
proof -
  have "map ix_order (map (\<lambda>(n, p, v). \<lparr>ix_order = n, ix_val = v\<rparr>) fs) = map fst fs" for fs :: "'a entry list"
    by auto
  then have "sorted (map ix_order (entries_at es four bits k))"
    unfolding entries_at_def using assms by (simp only: entries_ok_def sorted_filter)
  moreover have "\<forall>e\<in>set (entries_at es four bits k). 0 \<le> ix_order e"
    using assms by (auto simp: entries_ok_def entries_at_def)
  ultimately show ?thesis by blast
qed

definition matches :: "'v entry list \<Rightarrow> Addr \<Rightarrow> ('v \<Rightarrow> bool) \<Rightarrow> 'v indexed set" where
  "matches es a skip = {\<lparr>ix_order = n, ix_val = v\<rparr> |n p v. (n, p, v) \<in> set es \<and> prefix_Contains p a \<and> \<not> skip v}"

text \<open>The entries a lookup visits are those of the matching prefixes.\<close>

definition visited :: "'v entry list \<Rightarrow> Addr \<Rightarrow> int \<Rightarrow> 'v indexed list" where
  "visited es a bits =
     (if 0 \<le> bits \<and> bits \<le> int (BitLen a) then entries_at es (Is4 a) bits (Some (masked_addr (nat bits) a)) else [])"

lemma visited_matches:
  "(\<Union>bits. good skip (visited es a bits)) = matches es a skip"
proof -
  have "e \<in> good skip (visited es a bits) \<longleftrightarrow>
      (\<exists>n p v. e = \<lparr>ix_order = n, ix_val = v\<rparr> \<and> (n, p, v) \<in> set es \<and> \<not> skip v \<and> prefix_Contains p a \<and> snd p = bits)"
    for e bits
    unfolding Masked_eq_iff [symmetric]
    by (auto simp: good_def visited_def entries_at_def image_iff split: if_splits) blast+
  then show ?thesis unfolding matches_def by (intro set_eqI) (simp, blast)
qed

lemma index_lookup_least:
  assumes "entries_ok es"
  shows "least_of (matches es a skip)
     (fold (lookup_table skip a) (if Is4 a then px_v4 (index_of es) else px_v6 (index_of es)) (-1, None))"
proof -
  let ?T = "if Is4 a then pb_v4 (built es) else pb_v6 (built es)"
  have idx: "(if Is4 a then px_v4 (index_of es) else px_v6 (index_of es)) = freeze ?T"
    by (simp add: index_of_def build_def built_def)
  have T: "gm_ok ?T" "gm_get0 (gm_get0 ?T [] bits) [] k = entries_at es (Is4 a) bits k" for bits k
    using built_ok [of es] built_get [of es] by simp_all
  have m: "lt_m t = gm_get0 ?T [] (lt_bits t)" if "t \<in> set (freeze ?T)" for t
    using that T(1) by (auto simp: freeze_def gm_get0_def gm_get_mem)
  have tab: "lookup_table skip a t acc = lookup_entries skip (visited es a (lt_bits t)) acc"
    if "t \<in> set (freeze ?T)" for t acc
    using m [OF that] T(2)
    by (cases acc) (auto simp: lookup_table_def addr_Prefix_def visited_def)
  have ord: "sorted (map ix_order (visited es a b)) \<and> (\<forall>e\<in>set (visited es a b). 0 \<le> ix_order e)" for b
    using entries_at_order [OF assms, of "Is4 a" b "Some (masked_addr (nat b) a)"] by (auto simp: visited_def)
  have "least_of ({} \<union> (\<Union>t\<in>set (freeze ?T). good skip (visited es a (lt_bits t))))
      (fold (lookup_table skip a) (freeze ?T) (-1, None))"
    by (rule fold_lookup_least) (use tab ord in \<open>auto simp: least_of_def\<close>)
  moreover have "(\<Union>t\<in>set (freeze ?T). good skip (visited es a (lt_bits t))) = (\<Union>b. good skip (visited es a b))"
  proof -
    have "good skip (visited es a b) = {}" if "b \<notin> lt_bits ` set (freeze ?T)" for b
    proof -
      have "b \<notin> fst ` set ?T" using that by (force simp: freeze_def image_iff)
      then have "gm_get0 ?T [] b = []" by (simp add: gm_get0_def map_of_eq_None_iff [THEN iffD2])
      then show ?thesis using T(2) [of b "Some (masked_addr (nat b) a)"] by (simp add: visited_def gm_get0_def good_def)
    qed
    then show ?thesis by (rule UN_image_support)
  qed
  ultimately show ?thesis by (simp add: idx visited_matches)
qed

lemma first_match_least:
  assumes "entries_ok es" and "least_of (matches es a skip) (best, out)"
  shows "(if 0 \<le> best then out else None) = first_match es a skip"
proof (cases "find (\<lambda>(n, p, v). prefix_Contains p a \<and> \<not> skip v) es")
  case None
  then have "matches es a skip = {}"
    by (auto simp: matches_def find_None_iff)
  then show ?thesis using assms(2) None by (simp add: least_of_def first_match_def)
next
  case (Some e)
  then obtain j where j: "j < length es" "es ! j = e" "prefix_Contains (fst (snd e)) a" "\<not> skip (snd (snd e))"
    and before: "\<forall>i<j. \<not> (prefix_Contains (fst (snd (es ! i))) a \<and> \<not> skip (snd (snd (es ! i))))"
    by (auto simp: find_Some_iff split_beta)
  have in_m: "\<lparr>ix_order = fst e, ix_val = snd (snd e)\<rparr> \<in> matches es a skip"
    using j nth_mem [of j es] by (cases e) (auto simp: matches_def)
  then obtain e0 where e0: "e0 \<in> matches es a skip" "best = ix_order e0" "out = Some (ix_val e0)"
    "ix_order e0 \<le> fst e"
    using assms(2) by (fastforce simp: least_of_def split: if_splits)
  then obtain n p v where nv: "(n, p, v) \<in> set es" "prefix_Contains p a" "\<not> skip v" "best = n" "out = Some v" "n \<le> fst e"
    by (auto simp: matches_def)
  then obtain i where i: "i < length es" "es ! i = (n, p, v)" by (auto simp: in_set_conv_nth)
  have "\<not> i < j" using before i nv by auto
  then have "fst e \<le> n"
    using assms(1) i j sorted_nth_mono [of "map fst es" j i] by (simp add: entries_ok_def)
  then have "n = fst e" using nv by simp
  moreover have "e \<in> set es" using j by auto
  ultimately have "v = snd (snd e)" "0 \<le> n"
    using assms(1) nv(1) by (cases e; fastforce simp: entries_ok_def)+
  then show ?thesis using nv Some by (simp add: first_match_def split_beta)
qed

lemma lookup_first_match:
  "entries_ok es \<Longrightarrow> lookup (Some (index_of es)) (Some a) skip = first_match es a skip"
proof -
  assume ok: "entries_ok es"
  let ?f = "fold (lookup_table skip a) (if Is4 a then px_v4 (index_of es) else px_v6 (index_of es)) (-1, None)"
  have "(if 0 \<le> fst ?f then snd ?f else None) = first_match es a skip"
    using first_match_least [OF ok, of a skip "fst ?f" "snd ?f"] index_lookup_least [OF ok, of a skip] by simp
  then show ?thesis by (simp add: lookup_def Let_def split_beta)
qed

text \<open>
  The contract of an address index, and what its clients get from it: an address is found exactly
  when some entry matches, an earlier entry wins, and entries added later never change an answer.
\<close>

locale first_match_index =
  fixes mk :: "'v entry list \<Rightarrow> 'i"
    and look :: "'i \<Rightarrow> Addr \<Rightarrow> ('v \<Rightarrow> bool) \<Rightarrow> 'v option"
  assumes look_mk: "entries_ok es \<Longrightarrow> look (mk es) a skip = first_match es a skip"
begin

lemma found_iff:
  "entries_ok es \<Longrightarrow>
   look (mk es) a skip \<noteq> None \<longleftrightarrow> list_ex (\<lambda>(n, p, v). prefix_Contains p a \<and> \<not> skip v) es"
  by (auto simp: look_mk first_match_def find_None_iff list_ex_iff)

lemma later_entries:
  "entries_ok es \<Longrightarrow> entries_ok (es @ fs) \<Longrightarrow> look (mk es) a skip = Some v \<Longrightarrow> look (mk (es @ fs)) a skip = Some v"
  by (auto simp: look_mk first_match_def find_append split: option.splits)

end

interpretation px: first_match_index index_of "\<lambda>x a. lookup (Some x) (Some a)"
  by unfold_locales (rule lookup_first_match)

text \<open>
  C12: for entries numbered in the order of their insertion, the indexed lookup returns exactly what
  a linear search through the list returns: the first entry whose network contains the address and
  that the caller does not skip, whatever the mask lengths involved.
\<close>

theorem lookup_is_linear_search:
  assumes "entries_ok es"
  shows "lookup (Some (index_of es)) (Some a) skip
         = map_option (\<lambda>(n, p, v). v) (find (\<lambda>(n, p, v). prefix_Contains p a \<and> \<not> skip v) es)"
  using px.look_mk [OF assms] by (simp add: first_match_def)

definition demo_entries :: "string entry list" where
  "demo_entries = [(0, (Some (V4 0x0A000000), 8), ''wide''), (1, (Some (V4 0x0A010203), 32), ''exact'')]"

theorem lookup_is_linear_search_witness:
  "entries_ok demo_entries
   \<and> lookup (Some (index_of demo_entries)) (Some (V4 0x0A010203)) (\<lambda>v. False) = Some ''wide''
   \<and> lookup (Some (index_of demo_entries)) (Some (V4 0x0A010203)) (\<lambda>v. v = ''wide'') = Some ''exact''"
proof -
  have "entries_ok demo_entries"
    by (simp add: entries_ok_def demo_entries_def)
  then show ?thesis
    using lookup_is_linear_search [of demo_entries "V4 0x0A010203"]
    by (simp add: demo_entries_def prefix_Contains_def)
qed

end
