(* ===== verification/Address_Stores.thy ===== *)
theory Address_Stores
  imports Complex_Main Prefix_Index
begin

text \<open>
  The two stores that decide whether an address is refused: the active bans
  (\<open>internal/edge/router/ban_store.go\<close>) and the IP profiles (\<open>ip_profile_store.go\<close>). Both are replaced
  as a whole and read through the address index; the theorems state their verdicts by a linear
  search through the list that was received. Instants the code reads with \<open>time.Now\<close> are arguments.
\<close>

section \<open>Private addresses\<close>

definition privatePrefixes :: "Prefix list" where
  "privatePrefixes =
    [(Some (V4 0x0A000000), 8), (Some (V4 0xAC100000), 12), (Some (V4 0xC0A80000), 16), (Some (V4 0x7F000000), 8),
     (Some (V6 1), 128), (Some (V6 0xFC000000000000000000000000000000), 7), (Some (V4 0xA9FE0000), 16)]"

definition isPrivateAddr :: "Addr \<Rightarrow> bool" where
  "isPrivateAddr a \<longleftrightarrow> list_ex (\<lambda>p. prefix_Contains p a) privatePrefixes"

section \<open>Bans\<close>

record BanSignal =
  bs_Name :: string
  bs_Points :: rat
  bs_Value :: string

record RuntimeBan =
  ban_ID :: string
  ban_IP :: string
  ban_Reason :: string
  ban_Source :: string
  ban_ExpiresAt :: "go_time option"
  ban_Scope :: string
  ban_Signals :: "BanSignal list"
  ban_UserAgent :: string

record banIndex =
  bi_n :: int
  bi_p :: "RuntimeBan prefixIndex"

record BanStore =
  bst_idx :: "banIndex option"

definition NewBanStore :: BanStore where
  "NewBanStore = \<lparr>bst_idx = None\<rparr>"

definition ban_expired :: "go_time \<Rightarrow> RuntimeBan \<Rightarrow> bool" where
  "ban_expired now b = (case ban_ExpiresAt b of None \<Rightarrow> False | Some e \<Rightarrow> e \<noteq> zero_time \<and> e < now)"

text \<open>The body of the loop of \<open>Replace\<close>; the state is the number of bans kept and the builder.\<close>

definition ban_replace_step ::
    "go_time \<Rightarrow> RuntimeBan option \<Rightarrow> int \<times> RuntimeBan prefixBuilder \<Rightarrow> int \<times> RuntimeBan prefixBuilder" where
  "ban_replace_step now inp st =
     (case inp of
        None \<Rightarrow> st
      | Some bn \<Rightarrow>
          if ban_IP bn = [] \<or> ban_expired now bn then st
          else
            (case ParseCIDR (ban_IP bn) of
               Some ipnet \<Rightarrow>
                 (case addNet (fst st) ipnet bn (snd st) of (ok, b) \<Rightarrow> if ok then (fst st + 1, b) else st)
             | None \<Rightarrow>
                 (case ParseIP (ban_IP bn) of
                    Some ip \<Rightarrow>
                      (case addIP (fst st) (Some ip) bn (snd st) of (ok, b) \<Rightarrow> if ok then (fst st + 1, b) else st)
                  | None \<Rightarrow> st)))"

definition BanStore_Replace :: "go_time \<Rightarrow> RuntimeBan option list \<Rightarrow> BanStore \<Rightarrow> BanStore" where
  "BanStore_Replace now bans s =
     (case fold (ban_replace_step now) bans (0, newPrefixBuilder) of
        (n, b) \<Rightarrow> s\<lparr>bst_idx := Some \<lparr>bi_n = n, bi_p = build b\<rparr>\<rparr>)"

definition BanStore_Len :: "BanStore \<Rightarrow> int" where
  "BanStore_Len s = (case bst_idx s of Some x \<Rightarrow> bi_n x | None \<Rightarrow> 0)"

definition ban_reason :: "RuntimeBan \<Rightarrow> string" where
  "ban_reason b =
     (let r1 = ban_Source b;
          r2 = (if ban_Reason b \<noteq> [] then (if r1 \<noteq> [] then r1 @ '': '' else r1) @ ban_Reason b else r1)
      in if r2 = [] then ban_IP b else r2)"

definition BanStore_CheckBlockedAddr :: "go_time \<Rightarrow> BanStore \<Rightarrow> Addr option \<Rightarrow> bool \<times> string" where
  "BanStore_CheckBlockedAddr now s addr =
     (if (case addr of None \<Rightarrow> True | Some a \<Rightarrow> isPrivateAddr a) then (False, [])
      else case bst_idx s of
        None \<Rightarrow> (False, [])
      | Some x \<Rightarrow>
          (case lookup (Some (bi_p x)) addr (ban_expired now) of
             None \<Rightarrow> (False, [])
           | Some b \<Rightarrow> (True, ban_reason b)))"

definition BanStore_CheckBlocked :: "go_time \<Rightarrow> BanStore \<Rightarrow> string \<Rightarrow> bool \<times> string" where
  "BanStore_CheckBlocked now s ip = BanStore_CheckBlockedAddr now s (ParseClientAddr ip)"

section \<open>IP profiles\<close>

definition WhitelistProfileID :: string where
  "WhitelistProfileID = ''bans-whitelist''"

record IPProfile =
  ipp_ID :: string
  ipp_Name :: string
  ipp_Mode :: string
  ipp_CIDRs :: "string list"

record profileIndex =
  pi_allow :: "IPProfile prefixIndex"
  pi_deny :: "IPProfile prefixIndex"
  pi_whitelist :: "IPProfile prefixIndex"

record IPProfileStore =
  ips_profiles :: "IPProfile list"
  ips_idx :: "profileIndex option"

definition NewIPProfileStore :: IPProfileStore where
  "NewIPProfileStore = \<lparr>ips_profiles = [], ips_idx = None\<rparr>"

text \<open>A bare address is completed to a network; \<open>To4\<close> of a sixteen-byte address asks whether it is mapped.\<close>

definition profile_net :: "string \<Rightarrow> IPNet option" where
  "profile_net cidr =
     ParseCIDR
       (if \<not> Contains cidr CHR ''/'' then
          (case ParseIP cidr of
             Some ip \<Rightarrow> if Is4In6 ip then cidr @ ''/32'' else cidr @ ''/128''
           | None \<Rightarrow> cidr)
        else cidr)"

record profile_builders =
  pbs_allow :: "IPProfile prefixBuilder"
  pbs_deny :: "IPProfile prefixBuilder"
  pbs_wl :: "IPProfile prefixBuilder"

definition profile_add :: "int \<Rightarrow> IPProfile \<Rightarrow> string \<Rightarrow> profile_builders \<Rightarrow> profile_builders" where
  "profile_add order p cidr bs =
     (case profile_net cidr of
        None \<Rightarrow> bs
      | Some ipnet \<Rightarrow>
          if ipp_Mode p = ''allow'' then
            (let bs1 = bs\<lparr>pbs_allow := snd (addNet order ipnet p (pbs_allow bs))\<rparr>
             in if ipp_ID p = WhitelistProfileID
                then bs1\<lparr>pbs_wl := snd (addNet order ipnet p (pbs_wl bs1))\<rparr> else bs1)
          else if ipp_Mode p = ''deny'' then bs\<lparr>pbs_deny := snd (addNet order ipnet p (pbs_deny bs))\<rparr>
          else bs)"

definition profile_builders_of :: "IPProfile list \<Rightarrow> profile_builders" where
  "profile_builders_of ps =
     fold (\<lambda>(order, p). fold (profile_add (int order) p) (ipp_CIDRs p)) (List.enumerate 0 ps)
       \<lparr>pbs_allow = newPrefixBuilder, pbs_deny = newPrefixBuilder, pbs_wl = newPrefixBuilder\<rparr>"

definition IPProfileStore_Replace :: "IPProfile list \<Rightarrow> IPProfileStore \<Rightarrow> IPProfileStore" where
  "IPProfileStore_Replace ps s =
     (let bs = profile_builders_of ps
      in s\<lparr>ips_profiles := ps,
           ips_idx := Some \<lparr>pi_allow = build (pbs_allow bs), pi_deny = build (pbs_deny bs),
                            pi_whitelist = build (pbs_wl bs)\<rparr>\<rparr>)"

definition IPProfileStore_Len :: "IPProfileStore \<Rightarrow> int" where
  "IPProfileStore_Len s = int (length (ips_profiles s))"

definition IsAllowedAddr :: "IPProfileStore \<Rightarrow> Addr option \<Rightarrow> bool" where
  "IsAllowedAddr s addr =
     (case addr of
        None \<Rightarrow> False
      | Some a \<Rightarrow>
          if isPrivateAddr a then True
          else case ips_idx s of
            None \<Rightarrow> False
          | Some x \<Rightarrow> lookup (Some (pi_allow x)) addr (\<lambda>p. False) \<noteq> None)"

definition IsAllowed :: "IPProfileStore \<Rightarrow> string \<Rightarrow> bool" where
  "IsAllowed s ip = IsAllowedAddr s (ParseClientAddr ip)"

definition IsWhitelistedAddr :: "IPProfileStore \<Rightarrow> Addr option \<Rightarrow> bool" where
  "IsWhitelistedAddr s addr =
     (case ips_idx s of
        None \<Rightarrow> False
      | Some x \<Rightarrow> lookup (Some (pi_whitelist x)) addr (\<lambda>p. False) \<noteq> None)"

definition IsWhitelisted :: "IPProfileStore \<Rightarrow> string \<Rightarrow> bool" where
  "IsWhitelisted s ip = IsWhitelistedAddr s (ParseClientAddr ip)"

definition IPProfileStore_CheckBlockedAddr :: "IPProfileStore \<Rightarrow> Addr option \<Rightarrow> bool \<times> string" where
  "IPProfileStore_CheckBlockedAddr s addr =
     (if (case addr of None \<Rightarrow> True | Some a \<Rightarrow> isPrivateAddr a) then (False, [])
      else case ips_idx s of
        None \<Rightarrow> (False, [])
      | Some x \<Rightarrow>
          if lookup (Some (pi_allow x)) addr (\<lambda>p. False) \<noteq> None then (False, [])
          else case lookup (Some (pi_deny x)) addr (\<lambda>p. False) of
            Some p \<Rightarrow> (True, ipp_Name p)
          | None \<Rightarrow> (False, []))"

definition IPProfileStore_CheckBlocked :: "IPProfileStore \<Rightarrow> string \<Rightarrow> bool \<times> string" where
  "IPProfileStore_CheckBlocked s ip = IPProfileStore_CheckBlockedAddr s (ParseClientAddr ip)"

section \<open>Bans by linear search\<close>

text \<open>The network that \<open>addNet\<close> and \<open>addIP\<close> index.\<close>

definition net_prefix :: "IPNet \<Rightarrow> Prefix option" where
  "net_prefix n =
     (if ipn_size n = 0 then None
      else map_option (\<lambda>a. if Is4In6 a \<and> ipn_size n = 128 \<and> 96 \<le> ipn_ones n
                           then PrefixFrom (Unmap a) (ipn_ones n - 96) else PrefixFrom a (ipn_ones n)) (ipn_IP n))"

definition ban_prefix :: "string \<Rightarrow> Prefix option" where
  "ban_prefix ip =
     (case ParseCIDR ip of
        Some n \<Rightarrow> net_prefix n
      | None \<Rightarrow> map_option (\<lambda>a. PrefixFrom (Unmap a) (int (BitLen (Unmap a)))) (ParseIP ip))"

lemma addNet_prefix:
  "addNet n net v b = (case net_prefix net of None \<Rightarrow> (False, b) | Some p \<Rightarrow> (True, pb_add n p v b))"
  by (auto simp: addNet_def net_prefix_def split: option.split)

definition ban_kept :: "go_time \<Rightarrow> RuntimeBan option \<Rightarrow> (Prefix \<times> RuntimeBan) option" where
  "ban_kept now inp =
     (case inp of
        None \<Rightarrow> None
      | Some bn \<Rightarrow> if ban_IP bn = [] \<or> ban_expired now bn then None
                   else map_option (\<lambda>p. (p, bn)) (ban_prefix (ban_IP bn)))"

lemma ban_replace_step_kept:
  "ban_replace_step now inp (n, b) =
     (case ban_kept now inp of None \<Rightarrow> (n, b) | Some (p, bn) \<Rightarrow> (n + 1, pb_add n p bn b))"
  by (auto simp: ban_replace_step_def ban_kept_def ban_prefix_def addNet_prefix addIP_def Let_def
      split: option.splits)

definition ban_entries :: "go_time \<Rightarrow> RuntimeBan option list \<Rightarrow> RuntimeBan entry list" where
  "ban_entries now bans = map (\<lambda>(i, p, bn). (int i, p, bn)) (List.enumerate 0 (List.map_filter (ban_kept now) bans))"

lemma map_filter_snoc:
  "List.map_filter f (xs @ [x]) = List.map_filter f xs @ (case f x of None \<Rightarrow> [] | Some y \<Rightarrow> [y])"
  by (simp add: List.map_filter_def split: option.split)

lemma ban_replace_fold:
  "fold (ban_replace_step now) bans (0, newPrefixBuilder)
   = (int (length (ban_entries now bans)), fold (\<lambda>(n, p, v). pb_add n p v) (ban_entries now bans) newPrefixBuilder)"
proof (induction bans rule: rev_induct)
  case Nil
  then show ?case by (simp add: ban_entries_def List.map_filter_def)
next
  case (snoc inp bans)
  then show ?case
    by (simp add: ban_replace_step_kept ban_entries_def map_filter_snoc enumerate_append_eq split: option.split)
qed

text \<open>Numbering a list by position gives entries the index accepts, and the numbers play no part in a search.\<close>

lemma enumerate_entries_ok: "entries_ok (map (\<lambda>(i, p, v). (int i, p, v)) (List.enumerate k xs))"
proof (induction xs arbitrary: k)
  case Nil
  then show ?case by (simp add: entries_ok_def)
next
  case (Cons x xs)
  have "entries_ok ([(int k, x)] @ map (\<lambda>(i, p, v). (int i, p, v)) (List.enumerate (Suc k) xs))"
    using Cons.IH [of "Suc k"] entries_ok_block [of "int k" "snd x" "[fst x]"]
    by (intro entries_ok_append) (auto simp: in_set_enumerate_eq)
  then show ?case by (cases x) simp
qed

lemma find_enumerate:
  "map_option (\<lambda>(n, p, v). v) (find (\<lambda>(n, p, v). Q p v) (map (\<lambda>(i, p, v). (int i, p, v)) (List.enumerate k xs)))
   = map_option snd (find (\<lambda>(p, v). Q p v) xs)"
  by (induction xs arbitrary: k) auto

text \<open>The verdict by a linear search through the bans received.\<close>

definition ban_covers :: "go_time \<Rightarrow> go_time \<Rightarrow> Addr \<Rightarrow> RuntimeBan \<Rightarrow> bool" where
  "ban_covers t0 t1 a b \<longleftrightarrow>
     \<not> ban_expired t0 b \<and> \<not> ban_expired t1 b
     \<and> ban_IP b \<noteq> [] \<and> (case ban_prefix (ban_IP b) of None \<Rightarrow> False | Some p \<Rightarrow> prefix_Contains p a)"

lemma find_kept:
  "map_option snd (find (\<lambda>(p, v). prefix_Contains p a \<and> \<not> ban_expired t1 v) (List.map_filter (ban_kept t0) bans))
   = find (ban_covers t0 t1 a) (List.map_filter id bans)"
  by (induction bans) (auto simp: List.map_filter_simps ban_kept_def ban_covers_def split: option.splits)

lemma ban_index:
  "bst_idx (BanStore_Replace t0 bans s) =
     Some \<lparr>bi_n = int (length (ban_entries t0 bans)), bi_p = index_of (ban_entries t0 bans)\<rparr>"
  by (simp add: BanStore_Replace_def ban_replace_fold index_of_def)

lemma ban_lookup:
  "lookup (Some (index_of (ban_entries t0 bans))) (Some a) (ban_expired t1) = find (ban_covers t0 t1 a) (List.map_filter id bans)"
proof -
  have "entries_ok (ban_entries t0 bans)"
    unfolding ban_entries_def by (rule enumerate_entries_ok)
  then show ?thesis
    using find_enumerate [of "\<lambda>p v. prefix_Contains p a \<and> \<not> ban_expired t1 v" 0 "List.map_filter (ban_kept t0) bans"]
      find_kept [of a t1 t0 bans]
    by (simp only: px.look_mk first_match_def ban_entries_def)
qed

lemma ban_check:
  "BanStore_CheckBlockedAddr t1 (BanStore_Replace t0 bans s) addr =
     (case addr of
        None \<Rightarrow> (False, [])
      | Some a \<Rightarrow>
          if isPrivateAddr a then (False, [])
          else case find (ban_covers t0 t1 a) (List.map_filter id bans) of
            None \<Rightarrow> (False, [])
          | Some b \<Rightarrow> (True, ban_reason b))
   \<and> BanStore_Len (BanStore_Replace t0 bans s) = int (length (List.map_filter (ban_kept t0) bans))"
  by (simp add: BanStore_CheckBlockedAddr_def BanStore_Len_def ban_index ban_lookup split: option.split)
    (simp add: ban_entries_def)

text \<open>
  C33: after \<open>Replace\<close> the ban store answers as a linear search through the received list would: an
  address that cannot be read and a private address are never banned, and any other address is
  banned exactly when some ban of the list that had not expired at the replacement, and has not
  expired at the check, covers it; the first such ban gives the reason. \<open>Len\<close> counts the bans kept.
\<close>

theorem ban_check_is_linear:
  "BanStore_CheckBlockedAddr t1 (BanStore_Replace t0 bans s) addr =
     (case addr of
        None \<Rightarrow> (False, [])
      | Some a \<Rightarrow>
          if isPrivateAddr a then (False, [])
          else case find (ban_covers t0 t1 a) (List.map_filter id bans) of
            None \<Rightarrow> (False, [])
          | Some b \<Rightarrow> (True, ban_reason b))
   \<and> BanStore_Len (BanStore_Replace t0 bans s) = int (length (List.map_filter (ban_kept t0) bans))"
  by (rule ban_check)

section \<open>Profiles by linear search\<close>

definition profile_prefix :: "string \<Rightarrow> Prefix option" where
  "profile_prefix cidr = Option.bind (profile_net cidr) net_prefix"

definition profile_covers :: "Addr \<Rightarrow> IPProfile \<Rightarrow> bool" where
  "profile_covers a p \<longleftrightarrow>
     list_ex (\<lambda>c. case profile_prefix c of None \<Rightarrow> False | Some q \<Rightarrow> prefix_Contains q a) (ipp_CIDRs p)"

definition is_allow :: "IPProfile \<Rightarrow> bool" where
  "is_allow p \<longleftrightarrow> ipp_Mode p = ''allow''"

definition is_deny :: "IPProfile \<Rightarrow> bool" where
  "is_deny p \<longleftrightarrow> ipp_Mode p = ''deny''"

definition is_whitelist :: "IPProfile \<Rightarrow> bool" where
  "is_whitelist p \<longleftrightarrow> is_allow p \<and> ipp_ID p = WhitelistProfileID"

text \<open>The entries of one of the three indexes: the networks of the profiles that satisfy \<open>sel\<close>.\<close>

definition profile_entries :: "(IPProfile \<Rightarrow> bool) \<Rightarrow> nat \<Rightarrow> IPProfile list \<Rightarrow> IPProfile entry list" where
  "profile_entries sel k ps =
     concat (map (\<lambda>(i, p). if sel p then map (\<lambda>q. (int i, q, p)) (List.map_filter profile_prefix (ipp_CIDRs p)) else [])
       (List.enumerate k ps))"

lemma profile_add_prefix:
  "profile_add n p c bs =
     (case profile_prefix c of
        None \<Rightarrow> bs
      | Some q \<Rightarrow> bs\<lparr>pbs_allow := (if is_allow p then pb_add n q p (pbs_allow bs) else pbs_allow bs),
                      pbs_deny := (if is_deny p then pb_add n q p (pbs_deny bs) else pbs_deny bs),
                      pbs_wl := (if is_whitelist p then pb_add n q p (pbs_wl bs) else pbs_wl bs)\<rparr>)"
  by (auto simp: profile_add_def profile_prefix_def addNet_prefix is_allow_def is_deny_def is_whitelist_def Let_def
      split: option.split bind_split)

lemma fold_profile_add:
  "fold (profile_add n p) cs bs =
     bs\<lparr>pbs_allow := (if is_allow p then fold (\<lambda>q. pb_add n q p) (List.map_filter profile_prefix cs) (pbs_allow bs) else pbs_allow bs),
        pbs_deny := (if is_deny p then fold (\<lambda>q. pb_add n q p) (List.map_filter profile_prefix cs) (pbs_deny bs) else pbs_deny bs),
        pbs_wl := (if is_whitelist p then fold (\<lambda>q. pb_add n q p) (List.map_filter profile_prefix cs) (pbs_wl bs) else pbs_wl bs)\<rparr>"
  by (induction cs arbitrary: bs) (simp_all add: List.map_filter_simps profile_add_prefix split: option.split)

abbreviation add_entries :: "'v entry list \<Rightarrow> 'v prefixBuilder \<Rightarrow> 'v prefixBuilder" where
  "add_entries es b \<equiv> fold (\<lambda>(n, p, v). pb_add n p v) es b"

lemma fold_profiles:
  "fold (\<lambda>(order, p). fold (profile_add (int order) p) (ipp_CIDRs p)) (List.enumerate k ps) bs =
     bs\<lparr>pbs_allow := add_entries (profile_entries is_allow k ps) (pbs_allow bs),
        pbs_deny := add_entries (profile_entries is_deny k ps) (pbs_deny bs),
        pbs_wl := add_entries (profile_entries is_whitelist k ps) (pbs_wl bs)\<rparr>"
  by (induction ps arbitrary: k bs) (simp_all add: profile_entries_def fold_profile_add fold_map comp_def)

lemma profile_index:
  "ips_idx (IPProfileStore_Replace ps s) =
     Some \<lparr>pi_allow = index_of (profile_entries is_allow 0 ps), pi_deny = index_of (profile_entries is_deny 0 ps),
           pi_whitelist = index_of (profile_entries is_whitelist 0 ps)\<rparr>"
  by (simp add: IPProfileStore_Replace_def Let_def profile_builders_of_def fold_profiles index_of_def)

lemma profile_entries_ok: "entries_ok (profile_entries sel k ps)"
proof (induction ps arbitrary: k)
  case Nil
  then show ?case by (simp add: profile_entries_def entries_ok_def)
next
  case (Cons p ps)
  let ?b = "if sel p then map (\<lambda>q. (int k, q, p)) (List.map_filter profile_prefix (ipp_CIDRs p)) else []"
  have "entries_ok ?b"
    using entries_ok_block [of "int k" p "List.map_filter profile_prefix (ipp_CIDRs p)"]
      entries_okI [of "[] :: IPProfile entry list"] by simp
  then have "entries_ok (?b @ profile_entries sel (Suc k) ps)"
    using Cons.IH [of "Suc k"]
    by (rule entries_ok_append) (auto simp: profile_entries_def in_set_enumerate_eq split: if_splits)
  then show ?case by (simp add: profile_entries_def)
qed

lemma find_profile_block:
  "find (\<lambda>(n, q, v). prefix_Contains q a) (map (\<lambda>q. (n, q, p)) (List.map_filter profile_prefix cs)) =
     map_option (\<lambda>q. (n, q, p)) (find (\<lambda>q. prefix_Contains q a) (List.map_filter profile_prefix cs))"
  by (induction cs) (auto simp: List.map_filter_simps split: option.split)

lemma find_profile_prefix:
  "find (\<lambda>q. prefix_Contains q a) (List.map_filter profile_prefix cs) = None \<longleftrightarrow>
     \<not> list_ex (\<lambda>c. case profile_prefix c of None \<Rightarrow> False | Some q \<Rightarrow> prefix_Contains q a) cs"
  by (induction cs) (auto simp: List.map_filter_simps split: option.split)

lemma find_profile_entries:
  "map_option (\<lambda>(n, p, v). v) (find (\<lambda>(n, q, v). prefix_Contains q a) (profile_entries sel k ps))
   = find (\<lambda>p. sel p \<and> profile_covers a p) ps"
proof (induction ps arbitrary: k)
  case Nil
  then show ?case by (simp add: profile_entries_def)
next
  case (Cons p ps)
  let ?b = "if sel p then map (\<lambda>q. (int k, q, p)) (List.map_filter profile_prefix (ipp_CIDRs p)) else []"
  have split: "profile_entries sel k (p # ps) = ?b @ profile_entries sel (Suc k) ps"
    by (simp add: profile_entries_def)
  show ?case
  proof (cases "sel p \<and> profile_covers a p")
    case True
    then obtain q where "find (\<lambda>q. prefix_Contains q a) (List.map_filter profile_prefix (ipp_CIDRs p)) = Some q"
      using find_profile_prefix [of a "ipp_CIDRs p"] by (auto simp: profile_covers_def)
    then show ?thesis using True by (simp add: split find_append find_profile_block)
  next
    case False
    then have "find (\<lambda>(n, q, v). prefix_Contains q a) ?b = None"
      using find_profile_prefix [of a "ipp_CIDRs p"] by (auto simp: profile_covers_def find_profile_block)
    then show ?thesis using False Cons.IH by (auto simp: split find_append)
  qed
qed

lemma profile_lookup:
  "lookup (Some (index_of (profile_entries sel 0 ps))) (Some a) (\<lambda>p. False) = find (\<lambda>p. sel p \<and> profile_covers a p) ps"
  using px.look_mk [OF profile_entries_ok, of sel 0 ps a "\<lambda>p. False"] find_profile_entries [of a sel 0 ps]
  by (simp add: first_match_def)

lemma profile_check:
  "IPProfileStore_CheckBlockedAddr (IPProfileStore_Replace ps s) (Some a) =
     (if isPrivateAddr a \<or> list_ex (\<lambda>p. is_allow p \<and> profile_covers a p) ps then (False, [])
      else case find (\<lambda>p. is_deny p \<and> profile_covers a p) ps of
        None \<Rightarrow> (False, [])
      | Some p \<Rightarrow> (True, ipp_Name p))
   \<and> IsAllowedAddr (IPProfileStore_Replace ps s) (Some a) =
       (isPrivateAddr a \<or> list_ex (\<lambda>p. is_allow p \<and> profile_covers a p) ps)
   \<and> IsWhitelistedAddr (IPProfileStore_Replace ps s) (Some a) =
       list_ex (\<lambda>p. is_whitelist p \<and> profile_covers a p) ps"
proof -
  have found: "lookup (Some (index_of (profile_entries sel 0 ps))) (Some a) (\<lambda>p. False) \<noteq> None
      \<longleftrightarrow> list_ex (\<lambda>p. sel p \<and> profile_covers a p) ps" for sel
    unfolding profile_lookup by (auto simp: find_None_iff list_ex_iff)
  show ?thesis
    unfolding IPProfileStore_CheckBlockedAddr_def IsAllowedAddr_def IsWhitelistedAddr_def profile_index
      option.case profileIndex.simps found unfolding profile_lookup by simp
qed

text \<open>
  After \<open>Replace\<close> the profile store answers as a linear search through the received profiles
  would. Private addresses are always allowed; another address is allowed exactly when an \<open>allow\<close>
  profile covers it, is blocked exactly when a \<open>deny\<close> profile covers it and no \<open>allow\<close> profile does,
  under the name of the first such profile, and is whitelisted exactly when the profile of the ban
  whitelist covers it.
\<close>

theorem profile_check_is_linear:
  "IPProfileStore_CheckBlockedAddr (IPProfileStore_Replace ps s) (Some a) =
     (if isPrivateAddr a \<or> list_ex (\<lambda>p. is_allow p \<and> profile_covers a p) ps then (False, [])
      else case find (\<lambda>p. is_deny p \<and> profile_covers a p) ps of
        None \<Rightarrow> (False, [])
      | Some p \<Rightarrow> (True, ipp_Name p))
   \<and> IsAllowedAddr (IPProfileStore_Replace ps s) (Some a) =
       (isPrivateAddr a \<or> list_ex (\<lambda>p. is_allow p \<and> profile_covers a p) ps)
   \<and> IsWhitelistedAddr (IPProfileStore_Replace ps s) (Some a) =
       list_ex (\<lambda>p. is_whitelist p \<and> profile_covers a p) ps"
  by (rule profile_check)

text \<open>How the two stores read the IPv4-mapped form of a single address.\<close>

lemma mapped_client: "ParseClientAddr ''8.8.4.4'' = Some (V4 0x08080404)"
  "ParseClientAddr ''0:0:1::1'' = Some (V6 0x100000000000000000001)"
  by (simp_all add: ParseClientAddr_def netip_eval)

lemma mapped_ban_prefix: "ban_prefix ''::ffff:8.8.4.4'' = Some (Some (V4 0x08080404), 32)"
  by (simp add: ban_prefix_def netip_eval)

lemma mapped_profile_prefix: "profile_prefix ''::ffff:8.8.4.4'' = Some (Some (V6 0), 32)"
  by (simp add: profile_prefix_def profile_net_def Contains_def net_prefix_def netip_eval)

definition demo_ban :: "string \<Rightarrow> RuntimeBan" where
  "demo_ban ip = \<lparr>ban_ID = [], ban_IP = ip, ban_Reason = [], ban_Source = [], ban_ExpiresAt = None,
     ban_Scope = [], ban_Signals = [], ban_UserAgent = []\<rparr>"

definition demo_profile :: "string \<Rightarrow> string \<Rightarrow> IPProfile" where
  "demo_profile mode cidr = \<lparr>ipp_ID = [], ipp_Name = ''p'', ipp_Mode = mode, ipp_CIDRs = [cidr]\<rparr>"

lemma demo_public: "\<not> isPrivateAddr (V4 0x08080404)" "\<not> isPrivateAddr (V6 0x100000000000000000001)"
  by (simp_all add: isPrivateAddr_def privatePrefixes_def prefix_Contains_def)

text \<open>
  A single address written in its IPv4-mapped form is handled differently by the two stores.
  The ban store bans the IPv4 address it stands for; a profile completes it with \<open>/32\<close>, which the
  parser reads as an IPv6 prefix, so that the address is not covered while unrelated IPv6 addresses are.
\<close>

theorem mapped_address_profile:
  "fst (BanStore_CheckBlocked 0 (BanStore_Replace 0 [Some (demo_ban ''::ffff:8.8.4.4'')] NewBanStore) ''8.8.4.4'')
   \<and> (let s = IPProfileStore_Replace [demo_profile ''deny'' ''::ffff:8.8.4.4''] NewIPProfileStore
      in IPProfileStore_CheckBlocked s ''8.8.4.4'' = (False, [])
         \<and> IPProfileStore_CheckBlocked s ''0:0:1::1'' = (True, ''p''))"
proof -
  have "fst (BanStore_CheckBlocked 0 (BanStore_Replace 0 [Some (demo_ban ''::ffff:8.8.4.4'')] NewBanStore) ''8.8.4.4'')"
    by (simp add: BanStore_CheckBlocked_def BanStore_CheckBlockedAddr_def mapped_client demo_public ban_index ban_lookup
        List.map_filter_simps ban_covers_def demo_ban_def ban_expired_def mapped_ban_prefix prefix_Contains_def)
  moreover have "profile_covers (V4 0x08080404) (demo_profile ''deny'' ''::ffff:8.8.4.4'') = False"
    "profile_covers (V6 0x100000000000000000001) (demo_profile ''deny'' ''::ffff:8.8.4.4'')"
    by (simp_all add: profile_covers_def demo_profile_def mapped_profile_prefix prefix_Contains_def)
  ultimately show ?thesis
    by (simp add: Let_def IPProfileStore_CheckBlocked_def IPProfileStore_CheckBlockedAddr_def mapped_client demo_public
        profile_index profile_lookup is_allow_def is_deny_def) (simp add: demo_profile_def)
qed

text \<open>IPv6 link-local addresses are not among the private prefixes, IPv4 ones are.\<close>

lemma link_local_private:
  "map_option isPrivateAddr (ParseClientAddr ''169.254.10.1'') = Some True"
  "map_option isPrivateAddr (ParseClientAddr ''fe80::1'') = Some False"
  by (simp_all add: ParseClientAddr_def netip_eval isPrivateAddr_def privatePrefixes_def prefix_Contains_def)

end
