(* ===== verification/Location.thy ===== *)
theory Location
  imports Route
begin

text \<open>
  The choice and the application of a location (\<open>internal/edge/router/location.go\<close>). Three things of
  the standard library are arguments: \<open>lower\<close> is \<open>strings.ToLower\<close> on paths, which may hold any
  Unicode text, \<open>compile\<close> is \<open>regexp.Compile\<close> (\<open>None\<close> for an error) and \<open>matchString\<close>,
  \<open>replaceAll\<close> are the two methods of the compiled expression that are called. The global cache of
  compiled expressions is passed along.
\<close>

type_synonym 're cache = "(string, 're) gomap"

definition getLocationRegex :: "(string \<Rightarrow> 're option) \<Rightarrow> string \<Rightarrow> 're cache \<Rightarrow> 're option \<times> 're cache" where
  "getLocationRegex compile pattern c =
     (case gm_get c pattern of
        Some re \<Rightarrow> (Some re, c)
      | None \<Rightarrow>
          (case compile pattern of
             None \<Rightarrow> (None, c)
           | Some re \<Rightarrow> (Some re, gm_set pattern re c)))"

definition matchLocationRegex ::
    "(string \<Rightarrow> 're option) \<Rightarrow> ('re \<Rightarrow> string \<Rightarrow> bool) \<Rightarrow> string \<Rightarrow> string \<Rightarrow> 're cache \<Rightarrow> bool \<times> 're cache" where
  "matchLocationRegex compile matchString pattern path c =
     (case getLocationRegex compile pattern c of
        (None, c') \<Rightarrow> (False, c')
      | (Some re, c') \<Rightarrow> (matchString re path, c'))"

definition ApplyPathRewrite ::
    "(string \<Rightarrow> 're option) \<Rightarrow> ('re \<Rightarrow> string \<Rightarrow> string \<Rightarrow> string) \<Rightarrow> string \<Rightarrow> string \<Rightarrow> string \<Rightarrow> 're cache
     \<Rightarrow> string \<times> 're cache" where
  "ApplyPathRewrite compile replaceAll path pattern template c =
     (case getLocationRegex compile pattern c of
        (None, c') \<Rightarrow> (path, c')
      | (Some re, c') \<Rightarrow>
          let result = replaceAll re path template
          in (if result = [] then path else result, c'))"

definition MatchesFolded :: "Location \<Rightarrow> bool" where
  "MatchesFolded l =
     (if loc_PathType l = ''regex'' then False
      else case loc_CaseInsensitive l of
        Some b \<Rightarrow> b
      | None \<Rightarrow> loc_Auth l \<noteq> None \<or> loc_IPFilter l \<noteq> None \<or> loc_RateLimit l \<noteq> None)"

definition exact_hit :: "(string \<Rightarrow> string) \<Rightarrow> string \<Rightarrow> Location \<Rightarrow> bool" where
  "exact_hit lower path l =
     (if MatchesFolded l then lower path = lower (loc_Path l) else path = loc_Path l)"

definition prefix_hit :: "(string \<Rightarrow> string) \<Rightarrow> string \<Rightarrow> Location \<Rightarrow> bool" where
  "prefix_hit lower path l =
     (if MatchesFolded l then HasPrefix (lower path) (lower (loc_Path l)) else HasPrefix path (loc_Path l))"

text \<open>The first loop of \<open>MatchLocation\<close>: \<open>Inl\<close> is the early return of an exact match.\<close>

fun match_scan ::
    "(string \<Rightarrow> string) \<Rightarrow> string \<Rightarrow> Location list \<Rightarrow> Location option \<times> int \<Rightarrow> Location + Location option" where
  "match_scan lower path [] (bestPrefix, bestPrefixLen) = Inr bestPrefix"
| "match_scan lower path (l # ls) (bestPrefix, bestPrefixLen) =
     (if loc_Path l = [] then match_scan lower path ls (bestPrefix, bestPrefixLen)
      else if loc_PathType l = ''exact'' then
        (if exact_hit lower path l then Inl l else match_scan lower path ls (bestPrefix, bestPrefixLen))
      else if loc_PathType l = ''regex'' then match_scan lower path ls (bestPrefix, bestPrefixLen)
      else if prefix_hit lower path l \<and> bestPrefixLen < int (length (loc_Path l))
        then match_scan lower path ls (Some l, int (length (loc_Path l)))
      else match_scan lower path ls (bestPrefix, bestPrefixLen))"

fun regex_scan ::
    "(string \<Rightarrow> 're option) \<Rightarrow> ('re \<Rightarrow> string \<Rightarrow> bool) \<Rightarrow> string \<Rightarrow> Location list \<Rightarrow> 're cache \<Rightarrow> Location option \<times> 're cache"
where
  "regex_scan compile matchString path [] c = (None, c)"
| "regex_scan compile matchString path (l # ls) c =
     (if loc_PathType l = ''regex'' \<and> loc_Path l \<noteq> [] then
        (case matchLocationRegex compile matchString (loc_Path l) path c of
           (ok, c') \<Rightarrow> if ok then (Some l, c') else regex_scan compile matchString path ls c')
      else regex_scan compile matchString path ls c)"

definition MatchLocation ::
    "(string \<Rightarrow> string) \<Rightarrow> (string \<Rightarrow> 're option) \<Rightarrow> ('re \<Rightarrow> string \<Rightarrow> bool) \<Rightarrow> Route option \<Rightarrow> string \<Rightarrow> 're cache
     \<Rightarrow> Location option \<times> 're cache" where
  "MatchLocation lower compile matchString rp path c =
     (case rp of
        None \<Rightarrow> (None, c)
      | Some r \<Rightarrow>
          if rt_Locations r = [] then (None, c)
          else case match_scan lower path (rt_Locations r) (None, -1) of
            Inl l \<Rightarrow> (Some l, c)
          | Inr (Some l) \<Rightarrow> (Some l, c)
          | Inr None \<Rightarrow> regex_scan compile matchString path (rt_Locations r) c)"

text \<open>\<open>override x y\<close>: the location's pointer when it is set.\<close>

definition override :: "'a option \<Rightarrow> 'a option \<Rightarrow> 'a option" where
  "override x y = (case y of None \<Rightarrow> x | Some v \<Rightarrow> Some v)"

definition MergeLocation :: "Route \<Rightarrow> Location \<Rightarrow> Route" where
  "MergeLocation route l =
     (let strip = loc_StripPrefix l \<and> loc_Path l \<noteq> [] \<and> loc_PathType l \<noteq> ''regex'';
          rewrite = loc_PathType l = ''regex'' \<and> loc_PathRewrite l \<noteq> []
      in route\<lparr>
        rt_Backends := (if loc_Backends l \<noteq> [] then loc_Backends l else rt_Backends route),
        rt_RateLimit := override (rt_RateLimit route) (loc_RateLimit l),
        rt_IPFilter := override (rt_IPFilter route) (loc_IPFilter l),
        rt_Headers := override (rt_Headers route) (loc_Headers l),
        rt_CORS := override (rt_CORS route) (loc_CORS l),
        rt_SSO := override (rt_SSO route) (loc_Auth l),
        rt_MaxBodySize := (if 0 < loc_MaxBodySize l then loc_MaxBodySize l else rt_MaxBodySize route),
        rt_ConnectTimeout := (if 0 < loc_ConnectTimeout l then loc_ConnectTimeout l else rt_ConnectTimeout route),
        rt_ResponseTimeout := (if 0 < loc_ResponseTimeout l then loc_ResponseTimeout l else rt_ResponseTimeout route),
        rt_SendTimeout := (if 0 < loc_SendTimeout l then loc_SendTimeout l else rt_SendTimeout route),
        rt_Logging := override (rt_Logging route) (loc_Logging l),
        rt_ErrorPages := override (rt_ErrorPages route) (loc_ErrorPages l),
        rt_StripPrefix := (if strip then loc_Path l else []),
        rt_StripPrefixFold := (if strip then MatchesFolded l else False),
        rt_PathRewrite := (if rewrite then loc_PathRewrite l else []),
        rt_PathRewritePattern := (if rewrite then loc_Path l else [])\<rparr>)"

definition StripPathPrefixFold :: "(string \<Rightarrow> string) \<Rightarrow> string \<Rightarrow> string \<Rightarrow> string" where
  "StripPathPrefixFold lower path prefix =
     (let lp = lower path; pre = TrimSuffix (lower prefix) ''/''
      in if length lp \<noteq> length path \<or> pre = [] \<or> length path < length pre then path
         else if lp = pre \<or> HasPrefix lp (pre @ ''/'') then
           (let out = drop (length pre) path in if out \<noteq> [] then out else ''/'')
         else path)"

definition StripPathPrefix :: "string \<Rightarrow> string \<Rightarrow> string" where
  "StripPathPrefix path prefix =
     (if prefix = [] \<or> prefix = ''/'' \<or> path = [] then path
      else (let pre = TrimSuffix prefix ''/''
            in if path = pre then ''/''
               else if HasPrefix path (pre @ ''/'') then
                 (let out = drop (length pre) path in if out = [] then ''/'' else out)
               else path))"

section \<open>The cache is invisible\<close>

definition cache_ok :: "(string \<Rightarrow> 're option) \<Rightarrow> 're cache \<Rightarrow> bool" where
  "cache_ok compile c \<longleftrightarrow> (\<forall>p re. gm_get c p = Some re \<longrightarrow> compile p = Some re)"

lemma getLocationRegex_ok:
  "cache_ok compile c \<Longrightarrow>
   fst (getLocationRegex compile p c) = compile p \<and> cache_ok compile (snd (getLocationRegex compile p c))"
  by (auto simp: getLocationRegex_def cache_ok_def split: option.split)

definition regex_hit :: "(string \<Rightarrow> 're option) \<Rightarrow> ('re \<Rightarrow> string \<Rightarrow> bool) \<Rightarrow> string \<Rightarrow> Location \<Rightarrow> bool" where
  "regex_hit compile matchString path l \<longleftrightarrow>
     loc_PathType l = ''regex'' \<and> loc_Path l \<noteq> []
     \<and> (case compile (loc_Path l) of None \<Rightarrow> False | Some re \<Rightarrow> matchString re path)"

lemma matchLocationRegex_ok:
  assumes "cache_ok compile c"
  shows "fst (matchLocationRegex compile matchString p path c)
           = (case compile p of None \<Rightarrow> False | Some re \<Rightarrow> matchString re path)
         \<and> cache_ok compile (snd (matchLocationRegex compile matchString p path c))"
  using getLocationRegex_ok [OF assms, of p]
  by (auto simp: matchLocationRegex_def split: prod.splits option.splits)

lemma regex_scan_find:
  "cache_ok compile c \<Longrightarrow>
   fst (regex_scan compile matchString path ls c) = find (regex_hit compile matchString path) ls
   \<and> cache_ok compile (snd (regex_scan compile matchString path ls c))"
proof (induction ls arbitrary: c)
  case (Cons l ls)
  obtain ok c' where m: "matchLocationRegex compile matchString (loc_Path l) path c = (ok, c')"
    by fastforce
  then have "ok = (case compile (loc_Path l) of None \<Rightarrow> False | Some re \<Rightarrow> matchString re path)" "cache_ok compile c'"
    using matchLocationRegex_ok [OF Cons.prems, of matchString "loc_Path l" path] by simp_all
  then show ?case
    using Cons.IH [of c] Cons.IH [of c'] Cons.prems
    by (simp add: m regex_hit_def split: if_splits)
qed simp

section \<open>Exact, then longest prefix, then first expression\<close>

definition is_exact :: "Location \<Rightarrow> bool" where
  "is_exact l \<longleftrightarrow> loc_Path l \<noteq> [] \<and> loc_PathType l = ''exact''"

definition is_prefix_loc :: "Location \<Rightarrow> bool" where
  "is_prefix_loc l \<longleftrightarrow> loc_Path l \<noteq> [] \<and> loc_PathType l \<noteq> ''exact'' \<and> loc_PathType l \<noteq> ''regex''"

text \<open>The first element of greatest path length.\<close>

definition longest :: "Location list \<Rightarrow> Location \<Rightarrow> bool" where
  "longest ls l \<longleftrightarrow>
     (\<exists>xs ys. ls = xs @ l # ys
        \<and> (\<forall>x\<in>set xs. length (loc_Path x) < length (loc_Path l))
        \<and> (\<forall>y\<in>set ys. length (loc_Path y) \<le> length (loc_Path l)))"

lemma longest_single [simp]: "longest [l] l"
  unfolding longest_def by (intro exI [of _ "[]"]) simp

lemma longest_cons_shorter:
  assumes "longest (l # ls) r" and "length (loc_Path b) < length (loc_Path l)"
  shows "longest (b # l # ls) r"
proof -
  obtain xs ys where d: "l # ls = xs @ r # ys" "\<forall>x\<in>set xs. length (loc_Path x) < length (loc_Path r)"
    "\<forall>y\<in>set ys. length (loc_Path y) \<le> length (loc_Path r)"
    using assms(1) by (auto simp: longest_def)
  then have "length (loc_Path b) < length (loc_Path r)"
    using assms(2) by (cases xs) auto
  with d show ?thesis
    unfolding longest_def by (intro exI [of _ "b # xs"] exI [of _ ys]) simp
qed

lemma longest_insert:
  assumes "longest (b # ls) r" and "length (loc_Path l) \<le> length (loc_Path b)"
  shows "longest (b # l # ls) r"
proof -
  obtain xs ys where d: "b # ls = xs @ r # ys" "\<forall>x\<in>set xs. length (loc_Path x) < length (loc_Path r)"
    "\<forall>y\<in>set ys. length (loc_Path y) \<le> length (loc_Path r)"
    using assms(1) by (auto simp: longest_def)
  show ?thesis
  proof (cases xs)
    case Nil
    with d assms(2) show ?thesis
      unfolding longest_def by (intro exI [of _ "[]"] exI [of _ "l # ys"]) simp
  next
    case (Cons x xs')
    with d assms(2) show ?thesis
      unfolding longest_def by (intro exI [of _ "b # l # xs'"] exI [of _ ys]) auto
  qed
qed

lemma match_scan_exact:
  "match_scan lower path ls acc = Inl l \<longleftrightarrow> find (\<lambda>l. is_exact l \<and> exact_hit lower path l) ls = Some l"
  by (induction lower path ls acc rule: match_scan.induct) (auto simp: is_exact_def)

definition prefix_hits :: "(string \<Rightarrow> string) \<Rightarrow> string \<Rightarrow> Location list \<Rightarrow> Location list" where
  "prefix_hits lower path ls = filter (\<lambda>l. is_prefix_loc l \<and> prefix_hit lower path l) ls"

lemma match_scan_best:
  assumes "match_scan lower path ls (Some b, int (length (loc_Path b))) = Inr res"
  shows "\<exists>l. res = Some l \<and> longest (b # prefix_hits lower path ls) l"
  using assms
proof (induction ls arbitrary: b)
  case Nil
  then show ?case by (auto simp: prefix_hits_def)
next
  case (Cons l ls)
  show ?case
  proof (cases "is_prefix_loc l \<and> prefix_hit lower path l")
    case False
    then have "match_scan lower path ls (Some b, int (length (loc_Path b))) = Inr res"
      using Cons.prems by (auto simp: is_prefix_loc_def split: if_splits)
    with False show ?thesis using Cons.IH by (auto simp: prefix_hits_def)
  next
    case True
    show ?thesis
    proof (cases "length (loc_Path b) < length (loc_Path l)")
      case less: True
      then have "match_scan lower path ls (Some l, int (length (loc_Path l))) = Inr res"
        using Cons.prems True by (simp add: is_prefix_loc_def)
      from Cons.IH [OF this] obtain m where "res = Some m" "longest (l # prefix_hits lower path ls) m" by blast
      then show ?thesis using True longest_cons_shorter [OF _ less] by (simp add: prefix_hits_def)
    next
      case False
      then have "match_scan lower path ls (Some b, int (length (loc_Path b))) = Inr res"
        using Cons.prems True by (simp add: is_prefix_loc_def)
      from Cons.IH [OF this] obtain m where "res = Some m" "longest (b # prefix_hits lower path ls) m" by blast
      then show ?thesis using True False longest_insert [of b _ m l] by (simp add: prefix_hits_def)
    qed
  qed
qed

lemma match_scan_prefix:
  assumes "match_scan lower path ls (None, -1) = Inr res"
  shows "case res of None \<Rightarrow> prefix_hits lower path ls = [] | Some l \<Rightarrow> longest (prefix_hits lower path ls) l"
  using assms
proof (induction ls)
  case Nil
  then show ?case by (simp add: prefix_hits_def)
next
  case (Cons l ls)
  show ?case
  proof (cases "is_prefix_loc l \<and> prefix_hit lower path l")
    case False
    then have "match_scan lower path ls (None, -1) = Inr res"
      using Cons.prems by (auto simp: is_prefix_loc_def split: if_splits)
    with False show ?thesis using Cons.IH by (auto simp: prefix_hits_def split: option.split)
  next
    case True
    then have "match_scan lower path ls (Some l, int (length (loc_Path l))) = Inr res"
      using Cons.prems by (simp add: is_prefix_loc_def)
    with True show ?thesis using match_scan_best by (force simp: prefix_hits_def)
  qed
qed

text \<open>
  C15: \<open>MatchLocation\<close> follows the announced priority, whatever is in the expression cache (which stays
  sound): the first exact location that matches; without one, among the prefix locations that
  match, the first of greatest length; without any, the first location whose expression compiles
  and matches. Locations without a path never match.
\<close>

theorem MatchLocation_priority:
  assumes "cache_ok compile c"
    and ls_def: "ls = rt_Locations r"
    and hits_def: "hits = prefix_hits lower path ls"
  shows "cache_ok compile (snd (MatchLocation lower compile matchString (Some r) path c))
    \<and> (case find (\<lambda>l. is_exact l \<and> exact_hit lower path l) ls of
         Some l \<Rightarrow> fst (MatchLocation lower compile matchString (Some r) path c) = Some l
       | None \<Rightarrow>
           if hits = [] then fst (MatchLocation lower compile matchString (Some r) path c)
                             = find (regex_hit compile matchString path) ls
           else \<exists>l. fst (MatchLocation lower compile matchString (Some r) path c) = Some l \<and> longest hits l)"
proof (cases "match_scan lower path ls (None, -1)")
  case (Inl l)
  then have "find (\<lambda>l. is_exact l \<and> exact_hit lower path l) ls = Some l"
    by (simp add: match_scan_exact)
  moreover have "rt_Locations r \<noteq> []" using Inl by (auto simp: ls_def)
  ultimately show ?thesis using Inl assms(1) by (simp add: MatchLocation_def ls_def)
next
  case (Inr res)
  have "find (\<lambda>l. is_exact l \<and> exact_hit lower path l) ls = None"
    using Inr match_scan_exact [of lower path ls "(None, -1)"] by (metis option.exhaust sum.distinct(1))
  moreover have "case res of None \<Rightarrow> hits = [] | Some l \<Rightarrow> longest hits l"
    unfolding hits_def by (rule match_scan_prefix [OF Inr])
  ultimately show ?thesis
    using Inr assms(1) regex_scan_find [OF assms(1), of matchString path "rt_Locations r"]
    by (cases res) (auto simp: MatchLocation_def ls_def longest_def)
qed

definition demo_location :: "string \<Rightarrow> string \<Rightarrow> Location" where
  "demo_location path ty = \<lparr>loc_Path = path, loc_PathType = ty, loc_CaseInsensitive = None, loc_StripPrefix = False,
     loc_PathRewrite = [], loc_Backends = [], loc_RateLimit = None, loc_IPFilter = None, loc_Headers = None,
     loc_CORS = None, loc_Auth = None, loc_MaxBodySize = 0, loc_ConnectTimeout = 0, loc_ResponseTimeout = 0,
     loc_SendTimeout = 0, loc_Logging = None, loc_ErrorPages = None\<rparr>"

definition demo_located :: Route where
  "demo_located = zero_route\<lparr>rt_Locations :=
     [demo_location ''/'' ''prefix'', demo_location ''/api'' [], demo_location ''/x'' ''regex'', demo_location ''/api/v1'' ''exact'']\<rparr>"

theorem MatchLocation_priority_witness:
  "\<exists>l. fst (MatchLocation ToLower (\<lambda>p. Some p) (\<lambda>re s. True) (Some demo_located) ''/api/v2'' []) = Some l
       \<and> longest [demo_location ''/'' ''prefix'', demo_location ''/api'' []] l"
  using MatchLocation_priority [of "\<lambda>p. Some p" "[]" _ demo_located _ ToLower "''/api/v2''" "\<lambda>re s. True", OF _ refl refl]
  by (simp add: cache_ok_def demo_located_def demo_location_def is_exact_def exact_hit_def MatchesFolded_def
      is_prefix_loc_def prefix_hits_def prefix_hit_def HasPrefix_def)

section \<open>Case folding closes the case bypass\<close>

lemma match_scan_folded:
  assumes "lower path = lower path'" and "\<forall>l\<in>set ls. loc_PathType l \<noteq> ''regex'' \<longrightarrow> MatchesFolded l"
  shows "match_scan lower path ls acc = match_scan lower path' ls acc"
  using assms(2)
proof (induction ls arbitrary: acc)
  case Nil
  then show ?case by (cases acc) simp
next
  case (Cons l ls)
  have "exact_hit lower path l = exact_hit lower path' l" "prefix_hit lower path l = prefix_hit lower path' l"
    if "loc_PathType l \<noteq> ''regex''"
    using that Cons.prems assms(1) by (simp_all add: exact_hit_def prefix_hit_def)
  with Cons show ?case by (cases acc) simp
qed

text \<open>
  On a route whose exact and prefix locations all carry a protection (authentication, address
  filter or rate limit) and leave case sensitivity at its default, two paths that differ only in
  case select the same location as soon as one of them selects an exact or prefix location: a
  protected location cannot be left by changing the case of the path.
\<close>

theorem folded_locations_ignore_case:
  assumes "lower path = lower path'"
    and "\<forall>l\<in>set (rt_Locations r). loc_PathType l \<noteq> ''regex'' \<longrightarrow>
           loc_CaseInsensitive l = None \<and> (loc_Auth l \<noteq> None \<or> loc_IPFilter l \<noteq> None \<or> loc_RateLimit l \<noteq> None)"
    and "fst (MatchLocation lower compile matchString (Some r) path c) = Some l"
    and "loc_PathType l \<noteq> ''regex''" and "cache_ok compile c"
  shows "fst (MatchLocation lower compile matchString (Some r) path' c') = Some l"
proof -
  have same: "match_scan lower path (rt_Locations r) (None, -1) = match_scan lower path' (rt_Locations r) (None, -1)"
    using assms(1,2) by (intro match_scan_folded) (auto simp: MatchesFolded_def)
  have "find (regex_hit compile matchString path) ls = Some l' \<Longrightarrow> loc_PathType l' = ''regex''" for ls l'
    by (auto simp: find_Some_iff regex_hit_def)
  then have "\<not> (match_scan lower path (rt_Locations r) (None, -1) = Inr None)"
    using assms(3,4) regex_scan_find [OF assms(5), of matchString path "rt_Locations r"]
    by (auto simp: MatchLocation_def split: if_splits)
  then show ?thesis
    using assms(3) same by (auto simp: MatchLocation_def split: if_splits sum.splits option.splits)
qed

definition guarded_location :: Location where
  "guarded_location = (demo_location ''/api'' [])\<lparr>loc_IPFilter := Some \<lparr>ipf_Mode = [], ipf_CIDRs = []\<rparr>\<rparr>"

lemma demo_lower: "ToLower ''/aPi'' = ToLower ''/Api''"
  by code_simp

theorem folded_locations_ignore_case_witness:
  "fst (MatchLocation ToLower (\<lambda>p. None :: string option) (\<lambda>re s. True)
     (Some (zero_route\<lparr>rt_Locations := [guarded_location]\<rparr>)) ''/Api'' []) = Some guarded_location"
proof (rule folded_locations_ignore_case [where path = "''/aPi''" and c = "[]"])
  show "ToLower ''/aPi'' = ToLower ''/Api''" by (rule demo_lower)
  have "ToLower ''/aPi'' = ''/api''" by code_simp
  moreover have "ToLower ''/api'' = ''/api''" by code_simp
  ultimately show "fst (MatchLocation ToLower (\<lambda>p. None :: string option) (\<lambda>re s. True)
     (Some (zero_route\<lparr>rt_Locations := [guarded_location]\<rparr>)) ''/aPi'' []) = Some guarded_location"
    by (simp add: MatchLocation_def guarded_location_def demo_location_def prefix_hit_def MatchesFolded_def HasPrefix_def)
qed (simp_all add: guarded_location_def demo_location_def cache_ok_def)

section \<open>Stripping the prefix\<close>

text \<open>
  \<open>StripPathPrefix\<close> removes the prefix at a segment boundary only. A path that is the prefix
  becomes the root; a path that continues the prefix with a slash keeps exactly what follows the
  prefix; every other path, \<open>/administrator\<close> against \<open>/admin\<close> included, is unchanged. A non-empty
  path never becomes empty.
\<close>

theorem StripPathPrefix_segments:
  fixes pre :: string
  assumes "pre \<noteq> []" and "\<not> HasSuffix pre ''/''"
  shows "StripPathPrefix pre pre = ''/''
    \<and> StripPathPrefix (pre @ ''/'' @ rest) pre = ''/'' @ rest
    \<and> StripPathPrefix path (pre @ ''/'') = StripPathPrefix path pre
    \<and> (path = pre \<or> HasPrefix path (pre @ ''/'') \<or> StripPathPrefix path pre = path)
    \<and> (path \<noteq> [] \<longrightarrow> StripPathPrefix path pre \<noteq> [])"
proof -
  have "pre \<noteq> ''/''" using assms(2) by (auto simp: HasSuffix_def)
  moreover have "TrimSuffix pre ''/'' = pre" using assms(2) by (simp add: TrimSuffix_def)
  ultimately show ?thesis
    using assms(1) by (auto simp: StripPathPrefix_def Let_def HasPrefix_def)
qed

theorem StripPathPrefix_segments_witness:
  "StripPathPrefix ''/admin/users'' ''/admin'' = ''/users'' \<and> StripPathPrefix ''/administrator'' ''/admin'' = ''/administrator''"
  using StripPathPrefix_segments [of "''/admin''" "''users''" "''/administrator''"]
  by (simp add: HasSuffix_def HasPrefix_def)

text \<open>
  The two strips agree where folding changes nothing: on a prefix in lower case and a path that
  lower-cases to itself.
\<close>

lemma strip_fold_agrees:
  assumes "lower path = path" and "lower prefix = prefix" and "prefix \<noteq> []" and "prefix \<noteq> ''/''" and "path \<noteq> []"
  shows "StripPathPrefixFold lower path prefix = StripPathPrefix path prefix"
proof -
  have "TrimSuffix prefix ''/'' \<noteq> []"
    using assms(3,4) by (auto simp: TrimSuffix_def HasSuffix_iff)
  moreover have "length (TrimSuffix prefix ''/'') \<le> length path"
    if "path = TrimSuffix prefix ''/'' \<or> HasPrefix path (TrimSuffix prefix ''/'' @ ''/'')"
    using that by (auto simp: HasPrefix_iff)
  ultimately show ?thesis
    using assms by (auto simp: StripPathPrefixFold_def StripPathPrefix_def Let_def)
qed

text \<open>
  Merging a location twice is merging it once; the merge never touches the identity, the hosts
  or the address rules of the route that the location does not set, and never removes a
  protection: authentication, address filter and rate limit of the merged route are the location's
  when it has them and the route's otherwise. A strip and a rewrite are never both active.
\<close>

theorem MergeLocation_keeps_protection:
  "MergeLocation (MergeLocation r l) l = MergeLocation r l
   \<and> rt_ID (MergeLocation r l) = rt_ID r \<and> rt_Host (MergeLocation r l) = rt_Host r
   \<and> rt_WAF (MergeLocation r l) = rt_WAF r \<and> rt_Bot (MergeLocation r l) = rt_Bot r
   \<and> rt_GeoIP (MergeLocation r l) = rt_GeoIP r
   \<and> rt_SSO (MergeLocation r l) = (if loc_Auth l = None then rt_SSO r else loc_Auth l)
   \<and> rt_IPFilter (MergeLocation r l) = (if loc_IPFilter l = None then rt_IPFilter r else loc_IPFilter l)
   \<and> rt_RateLimit (MergeLocation r l) = (if loc_RateLimit l = None then rt_RateLimit r else loc_RateLimit l)
   \<and> (rt_StripPrefix (MergeLocation r l) = [] \<or> rt_PathRewrite (MergeLocation r l) = [])"
proof -
  have ov: "override x y = (if y = None then x else y)" for x y :: "'z option"
    by (cases y) (simp_all add: override_def)
  show ?thesis by (simp add: MergeLocation_def Let_def ov)
qed

end
