(* ===== verification/Resolve.thy ===== *)
theory Resolve
  imports Route
begin

text \<open>
  Reusable configuration: snippets (\<open>internal/edge/router/snippet.go\<close>), authentication providers
  (\<open>authprovider.go\<close>) and their application to a route (\<open>resolve.go\<close>). Decoding a raw JSON
  configuration is an argument, one function per target type, \<open>None\<close> when \<open>json.Unmarshal\<close> reports
  an error; nothing is assumed of these functions.
\<close>

section \<open>Stores\<close>

definition SnippetIPFilter :: string where "SnippetIPFilter = ''ip_filter''"
definition SnippetRateLimit :: string where "SnippetRateLimit = ''rate_limit''"
definition SnippetCORS :: string where "SnippetCORS = ''cors''"
definition SnippetHeaders :: string where "SnippetHeaders = ''headers''"
definition SnippetGeoIP :: string where "SnippetGeoIP = ''geo_ip''"
definition SnippetTLS :: string where "SnippetTLS = ''tls''"
definition SnippetBot :: string where "SnippetBot = ''bot''"
definition SnippetWAF :: string where "SnippetWAF = ''waf''"

lemmas snippet_types = SnippetIPFilter_def SnippetRateLimit_def SnippetCORS_def SnippetHeaders_def
  SnippetGeoIP_def SnippetTLS_def SnippetBot_def SnippetWAF_def

record Snippet =
  sn_ID :: string
  sn_Name :: string
  sn_Type :: string
  sn_Config :: string

record AuthProvider =
  ap_ID :: string
  ap_Name :: string
  ap_Type :: string
  ap_Config :: string

record SnippetStore =
  ss_snippets :: "(string, Snippet) gomap"

record AuthProviderStore =
  as_providers :: "(string, AuthProvider) gomap"

definition NewSnippetStore :: SnippetStore where
  "NewSnippetStore = \<lparr>ss_snippets = []\<rparr>"

definition SnippetStore_Replace :: "Snippet list \<Rightarrow> SnippetStore \<Rightarrow> SnippetStore" where
  "SnippetStore_Replace list s = s\<lparr>ss_snippets := fold (\<lambda>sn m. gm_set (sn_ID sn) sn m) list []\<rparr>"

text \<open>By identifier, else by name; with several snippets of one name Go returns any of them, here the first of the map.\<close>

definition SnippetStore_Get :: "SnippetStore \<Rightarrow> string \<Rightarrow> Snippet option" where
  "SnippetStore_Get s k =
     (case gm_get (ss_snippets s) k of
        Some sn \<Rightarrow> Some sn
      | None \<Rightarrow> find (\<lambda>sn. sn_Name sn = k) (map snd (ss_snippets s)))"

definition SnippetStore_All :: "SnippetStore \<Rightarrow> Snippet list" where
  "SnippetStore_All s = map snd (ss_snippets s)"

definition SnippetStore_Len :: "SnippetStore \<Rightarrow> int" where
  "SnippetStore_Len s = int (length (ss_snippets s))"

definition NewAuthProviderStore :: AuthProviderStore where
  "NewAuthProviderStore = \<lparr>as_providers = []\<rparr>"

definition AuthProviderStore_Replace :: "AuthProvider list \<Rightarrow> AuthProviderStore \<Rightarrow> AuthProviderStore" where
  "AuthProviderStore_Replace list s = s\<lparr>as_providers := fold (\<lambda>p m. gm_set (ap_ID p) p m) list []\<rparr>"

definition AuthProviderStore_Get :: "AuthProviderStore \<Rightarrow> string \<Rightarrow> AuthProvider option" where
  "AuthProviderStore_Get s k =
     (case gm_get (as_providers s) k of
        Some p \<Rightarrow> Some p
      | None \<Rightarrow> find (\<lambda>p. ap_Name p = k) (map snd (as_providers s)))"

definition AuthProviderStore_All :: "AuthProviderStore \<Rightarrow> AuthProvider list" where
  "AuthProviderStore_All s = map snd (as_providers s)"

definition AuthProviderStore_Len :: "AuthProviderStore \<Rightarrow> int" where
  "AuthProviderStore_Len s = int (length (as_providers s))"

text \<open>\<open>UnmarshalJSON\<close> after the fields are decoded: \<open>provider\<close> stands in for an empty \<open>type\<close>.\<close>

definition provider_alias :: "AuthProvider \<Rightarrow> string \<Rightarrow> AuthProvider" where
  "provider_alias p provider = (if ap_Type p = [] then p\<lparr>ap_Type := provider\<rparr> else p)"

definition SSOProviderUnresolved :: string where
  "SSOProviderUnresolved = ''unresolved''"

section \<open>Resolution\<close>

record json_decoders =
  dj_IPFilter :: "string \<Rightarrow> IPFilterConfig option"
  dj_RateLimit :: "string \<Rightarrow> RateLimitConfig option"
  dj_CORS :: "string \<Rightarrow> CORSConfig option"
  dj_Headers :: "string \<Rightarrow> HeadersConfig option"
  dj_GeoIP :: "string \<Rightarrow> GeoIPConfig option"
  dj_Blocked :: "string \<Rightarrow> string list option"
  dj_Bot :: "string \<Rightarrow> BotConfig option"
  dj_WAF :: "string \<Rightarrow> WAFConfig option"
  dj_SSO :: "string \<Rightarrow> SSOConfig option"

definition securitySnippetReadable :: "json_decoders \<Rightarrow> Snippet \<Rightarrow> bool" where
  "securitySnippetReadable J sn =
     (if sn_Type sn = SnippetIPFilter then dj_IPFilter J (sn_Config sn) \<noteq> None
      else if sn_Type sn = SnippetGeoIP then dj_GeoIP J (sn_Config sn) \<noteq> None
      else if sn_Type sn = SnippetBot then dj_Bot J (sn_Config sn) \<noteq> None
      else if sn_Type sn = SnippetWAF then dj_WAF J (sn_Config sn) \<noteq> None
      else True)"

definition NormalizeBotConfig :: "BotConfig \<Rightarrow> BotConfig" where
  "NormalizeBotConfig cfg =
     (let mode = ToLower (TrimSpace (bot_Mode cfg))
      in if mode = ''challenge'' then cfg\<lparr>bot_JSChallenge := True, bot_Enabled := True\<rparr>
         else if mode = ''monitor'' \<or> mode = ''log'' \<or> mode = ''block'' then cfg\<lparr>bot_Enabled := True\<rparr>
         else if mode = ''off'' then cfg\<lparr>bot_Enabled := False\<rparr>
         else cfg)"

definition merge_headers :: "HeadersConfig \<Rightarrow> HeadersConfig \<Rightarrow> HeadersConfig" where
  "merge_headers h cfg =
     (let custom = (if hd_Custom cfg \<noteq> [] then fold (\<lambda>(k, v). gm_set k v) (hd_Custom h)
                                                   (fold (\<lambda>(k, v). gm_set k v) (hd_Custom cfg) [])
                    else hd_Custom h);
          hsts = \<not> hd_HSTS h \<and> hd_HSTS cfg
      in h\<lparr>hd_Custom := custom,
           hd_HSTS := (if hsts then True else hd_HSTS h),
           hd_HSTSMaxAge := (if hsts \<and> hd_HSTSMaxAge cfg \<noteq> 0 then hd_HSTSMaxAge cfg else hd_HSTSMaxAge h),
           hd_XFrameOptions := (if hd_XFrameOptions h = [] \<and> hd_XFrameOptions cfg \<noteq> [] then hd_XFrameOptions cfg
                                else hd_XFrameOptions h),
           hd_HideServer := (if \<not> hd_HideServer h \<and> hd_HideServer cfg then True else hd_HideServer h)\<rparr>)"

text \<open>The configurations as a snippet sets them.\<close>

definition decoded_geo :: "json_decoders \<Rightarrow> string \<Rightarrow> GeoIPConfig option" where
  "decoded_geo J raw =
     map_option (\<lambda>cfg. if geo_Countries cfg = [] then
                           (case dj_Blocked J raw of
                              Some b \<Rightarrow> if b \<noteq> [] then cfg\<lparr>geo_Countries := b\<rparr> else cfg
                            | None \<Rightarrow> cfg)
                         else cfg) (dj_GeoIP J raw)"

definition decoded_waf :: "json_decoders \<Rightarrow> string \<Rightarrow> WAFConfig option" where
  "decoded_waf J raw =
     (case dj_WAF J raw of
        Some cfg \<Rightarrow> if waf_Enabled cfg
                    then Some (if waf_Mode cfg = [] then cfg\<lparr>waf_Mode := ''block''\<rparr> else cfg) else None
      | None \<Rightarrow> None)"

definition decoded_bot :: "json_decoders \<Rightarrow> string \<Rightarrow> BotConfig option" where
  "decoded_bot J raw = map_option NormalizeBotConfig (dj_Bot J raw)"

text \<open>\<open>fill x y\<close>: a pointer field that is already set stays.\<close>

definition fill :: "'a option \<Rightarrow> 'a option \<Rightarrow> 'a option" where
  "fill x y = (case x of Some v \<Rightarrow> Some v | None \<Rightarrow> y)"

definition apply_snippet :: "json_decoders \<Rightarrow> Snippet \<Rightarrow> Route \<Rightarrow> Route" where
  "apply_snippet J sn r =
     (let raw = sn_Config sn
      in if sn_Type sn = SnippetIPFilter then r\<lparr>rt_IPFilter := fill (rt_IPFilter r) (dj_IPFilter J raw)\<rparr>
         else if sn_Type sn = SnippetRateLimit then r\<lparr>rt_RateLimit := fill (rt_RateLimit r) (dj_RateLimit J raw)\<rparr>
         else if sn_Type sn = SnippetCORS then r\<lparr>rt_CORS := fill (rt_CORS r) (dj_CORS J raw)\<rparr>
         else if sn_Type sn = SnippetHeaders then
           (case dj_Headers J raw of
              None \<Rightarrow> r
            | Some cfg \<Rightarrow>
                (case rt_Headers r of
                   None \<Rightarrow> r\<lparr>rt_Headers := Some cfg\<rparr>
                 | Some h \<Rightarrow> r\<lparr>rt_Headers := Some (merge_headers h cfg)\<rparr>))
         else if sn_Type sn = SnippetGeoIP then r\<lparr>rt_GeoIP := fill (rt_GeoIP r) (decoded_geo J raw)\<rparr>
         else if sn_Type sn = SnippetBot then r\<lparr>rt_Bot := fill (rt_Bot r) (decoded_bot J raw)\<rparr>
         else if sn_Type sn = SnippetWAF then r\<lparr>rt_WAF := fill (rt_WAF r) (decoded_waf J raw)\<rparr>
         else r)"

definition resolve_id :: "json_decoders \<Rightarrow> SnippetStore \<Rightarrow> string \<Rightarrow> Route \<times> string list \<Rightarrow> Route \<times> string list" where
  "resolve_id J store i st =
     (case SnippetStore_Get store i of
        None \<Rightarrow> (fst st, snd st @ [i @ '' (introuvable)''])
      | Some sn \<Rightarrow>
          if \<not> securitySnippetReadable J sn then (fst st, snd st @ [i @ '' (configuration illisible)''])
          else (apply_snippet J sn (fst st), snd st))"

definition ResolveSnippets :: "json_decoders \<Rightarrow> Route \<Rightarrow> SnippetStore \<Rightarrow> Route" where
  "ResolveSnippets J route store =
     (if rt_SnippetIDs route = [] then route
      else (case fold (resolve_id J store) (rt_SnippetIDs route) (route, []) of
              (r, unresolved) \<Rightarrow> r\<lparr>rt_SnippetUnresolved := Join unresolved '', ''\<rparr>))"

definition zero_sso :: SSOConfig where
  "zero_sso = \<lparr>sso_Enabled = False, sso_Provider = [], sso_ForwardAuthURL = [], sso_ForwardAuthTimeoutMs = 0,
     sso_ForwardAuthSignInURL = [], sso_HeadersToForward = [], sso_BasicUsers = [], sso_Realm = [], sso_OIDC = None,
     sso_GitHub = None, sso_LDAP = None, sso_SAML = None\<rparr>"

definition unresolved_sso :: SSOConfig where
  "unresolved_sso = zero_sso\<lparr>sso_Enabled := True, sso_Provider := SSOProviderUnresolved\<rparr>"

definition ResolveAuthProvider :: "json_decoders \<Rightarrow> Route \<Rightarrow> AuthProviderStore \<Rightarrow> Route" where
  "ResolveAuthProvider J route store =
     (if rt_AuthProviderID route = [] \<or> rt_SSO route \<noteq> None then route
      else case AuthProviderStore_Get store (rt_AuthProviderID route) of
        None \<Rightarrow> route\<lparr>rt_SSO := Some unresolved_sso\<rparr>
      | Some p \<Rightarrow>
          (case dj_SSO J (ap_Config p) of
             None \<Rightarrow> route\<lparr>rt_SSO := Some unresolved_sso\<rparr>
           | Some sso \<Rightarrow>
               route\<lparr>rt_SSO := Some (sso\<lparr>sso_Provider := (if sso_Provider sso = [] then ap_Type p else sso_Provider sso),
                                         sso_Enabled := True\<rparr>)\<rparr>))"

section \<open>The contract of the two stores\<close>

lemma fold_gm_set_get:
  "gm_get (fold (\<lambda>x m. gm_set (f x) x m) xs m) k =
     (case find (\<lambda>x. f x = k) (rev xs) of Some x \<Rightarrow> Some x | None \<Rightarrow> gm_get m k)"
  by (induction xs arbitrary: m) (auto simp: find_append split: option.split)

lemma fold_gm_set_ok: "gm_ok m \<Longrightarrow> gm_ok (fold (\<lambda>x m. gm_set (f x) x m) xs m)"
  by (induction xs arbitrary: m) simp_all

lemma fold_gm_set_values:
  "v \<in> snd ` set (fold (\<lambda>x m. gm_set (f x) x m) xs []) \<Longrightarrow> v \<in> set xs"
proof -
  let ?m = "fold (\<lambda>x m. gm_set (f x) x m) xs []"
  assume "v \<in> snd ` set ?m"
  then obtain k where "gm_get ?m k = Some v"
    using gm_get_mem [OF fold_gm_set_ok [OF gm_ok_Nil, of f xs]] by force
  then show "v \<in> set xs"
    by (auto simp: fold_gm_set_get split: option.splits dest: find_SomeD)
qed

text \<open>The lookup of both stores, on the map that \<open>Replace\<close> builds.\<close>

lemma named_get_found:
  assumes "(case gm_get m k of Some x \<Rightarrow> Some x | None \<Rightarrow> find (\<lambda>x. n x = k) (map snd m)) = Some x"
    and "m = fold (\<lambda>x m. gm_set (f x) x m) xs []"
  shows "x \<in> set xs \<and> (f x = k \<or> n x = k)"
proof (cases "gm_get m k")
  case None
  then have "x \<in> set (map snd m) \<and> n x = k"
    using assms(1) by (auto dest: find_SomeD)
  then show ?thesis using fold_gm_set_values [of x f xs] assms(2) by simp
next
  case (Some y)
  then show ?thesis
    using assms by (auto simp: fold_gm_set_get split: option.splits dest: find_SomeD)
qed

text \<open>
  Both stores keep a list of blocks that a route refers to by identifier or by name: an identifier
  takes precedence, the last block of the list with an identifier is the one kept, and nothing is
  found that is not in the list.
\<close>

locale named_store =
  fixes replace :: "'x list \<Rightarrow> 's \<Rightarrow> 's"
    and get :: "'s \<Rightarrow> string \<Rightarrow> 'x option"
    and idf namef :: "'x \<Rightarrow> string"
  assumes by_id: "find (\<lambda>x. idf x = k) (rev xs) = Some x \<Longrightarrow> get (replace xs s) k = Some x"
    and found: "get (replace xs s) k = Some x \<Longrightarrow> x \<in> set xs \<and> (idf x = k \<or> namef x = k)"
begin

lemma last_wins: "get (replace (xs @ [x]) s) (idf x) = Some x"
  by (rule by_id) simp

lemma id_before_name:
  assumes "get (replace xs s) k = Some x" and "y \<in> set xs" and "idf y = k"
  shows "idf x = k"
proof -
  have "find (\<lambda>x. idf x = k) (rev xs) \<noteq> None"
    using assms(2,3) by (auto simp: find_None_iff)
  then obtain z where z: "find (\<lambda>x. idf x = k) (rev xs) = Some z" by auto
  then have "idf z = k" by (auto simp: find_Some_iff)
  then show ?thesis using by_id [OF z, of s] assms(1) by simp
qed

lemma empty_after_clear: "get (replace [] s) k = None"
  using found [of "[]" s k] by (cases "get (replace [] s) k") auto

end

interpretation sns: named_store SnippetStore_Replace SnippetStore_Get sn_ID sn_Name
proof unfold_locales
  fix k xs x and s :: SnippetStore
  show "find (\<lambda>x. sn_ID x = k) (rev xs) = Some x \<Longrightarrow> SnippetStore_Get (SnippetStore_Replace xs s) k = Some x"
    by (simp add: SnippetStore_Get_def SnippetStore_Replace_def fold_gm_set_get)
  show "SnippetStore_Get (SnippetStore_Replace xs s) k = Some x \<Longrightarrow> x \<in> set xs \<and> (sn_ID x = k \<or> sn_Name x = k)"
    using named_get_found [where m = "fold (\<lambda>x m. gm_set (sn_ID x) x m) xs []" and k = k and n = sn_Name and x = x and f = sn_ID and xs = xs]
    by (auto simp: SnippetStore_Get_def SnippetStore_Replace_def split: option.splits)
qed

interpretation aps: named_store AuthProviderStore_Replace AuthProviderStore_Get ap_ID ap_Name
proof unfold_locales
  fix k xs x and s :: AuthProviderStore
  show "find (\<lambda>x. ap_ID x = k) (rev xs) = Some x \<Longrightarrow> AuthProviderStore_Get (AuthProviderStore_Replace xs s) k = Some x"
    by (simp add: AuthProviderStore_Get_def AuthProviderStore_Replace_def fold_gm_set_get)
  show "AuthProviderStore_Get (AuthProviderStore_Replace xs s) k = Some x \<Longrightarrow> x \<in> set xs \<and> (ap_ID x = k \<or> ap_Name x = k)"
    using named_get_found [where m = "fold (\<lambda>x m. gm_set (ap_ID x) x m) xs []" and k = k and n = ap_Name and x = x and f = ap_ID and xs = xs]
    by (auto simp: AuthProviderStore_Get_def AuthProviderStore_Replace_def split: option.splits)
qed

section \<open>The route's own configuration first, then the first snippet\<close>

fun first_some :: "('a \<Rightarrow> 'b option) \<Rightarrow> 'a list \<Rightarrow> 'b option" where
  "first_some f [] = None"
| "first_some f (x # xs) = fill (f x) (first_some f xs)"

text \<open>What the snippet named \<open>i\<close> contributes to the block of type \<open>ty\<close>.\<close>

definition contributes :: "json_decoders \<Rightarrow> SnippetStore \<Rightarrow> string \<Rightarrow> (string \<Rightarrow> 'c option) \<Rightarrow> string \<Rightarrow> 'c option" where
  "contributes J store ty dec i =
     (case SnippetStore_Get store i of
        None \<Rightarrow> None
      | Some sn \<Rightarrow> if securitySnippetReadable J sn \<and> sn_Type sn = ty then dec (sn_Config sn) else None)"

definition problem :: "json_decoders \<Rightarrow> SnippetStore \<Rightarrow> string \<Rightarrow> string option" where
  "problem J store i =
     (case SnippetStore_Get store i of
        None \<Rightarrow> Some (i @ '' (introuvable)'')
      | Some sn \<Rightarrow> if securitySnippetReadable J sn then None else Some (i @ '' (configuration illisible)''))"

lemma fill_assoc [simp]: "fill (fill x y) z = fill x (fill y z)"
  by (simp add: fill_def split: option.split)

lemma fill_None [simp]: "fill x None = x" "fill None y = y"
  by (simp_all add: fill_def split: option.split)

lemma first_some_None: "first_some f xs = None \<longleftrightarrow> (\<forall>x\<in>set xs. f x = None)"
  by (induction xs) (auto simp: fill_def split: option.splits)

lemma resolve_id_fields:
  "rt_IPFilter (fst (resolve_id J store i st)) = fill (rt_IPFilter (fst st)) (contributes J store SnippetIPFilter (dj_IPFilter J) i)"
  "rt_RateLimit (fst (resolve_id J store i st)) = fill (rt_RateLimit (fst st)) (contributes J store SnippetRateLimit (dj_RateLimit J) i)"
  "rt_CORS (fst (resolve_id J store i st)) = fill (rt_CORS (fst st)) (contributes J store SnippetCORS (dj_CORS J) i)"
  "rt_GeoIP (fst (resolve_id J store i st)) = fill (rt_GeoIP (fst st)) (contributes J store SnippetGeoIP (decoded_geo J) i)"
  "rt_Bot (fst (resolve_id J store i st)) = fill (rt_Bot (fst st)) (contributes J store SnippetBot (decoded_bot J) i)"
  "rt_WAF (fst (resolve_id J store i st)) = fill (rt_WAF (fst st)) (contributes J store SnippetWAF (decoded_waf J) i)"
  "snd (resolve_id J store i st) = snd st @ (case problem J store i of None \<Rightarrow> [] | Some p \<Rightarrow> [p])"
  by (auto simp: resolve_id_def contributes_def problem_def apply_snippet_def snippet_types Let_def split: option.split)

lemma fold_resolve_fields:
  "rt_IPFilter (fst (fold (resolve_id J store) is st)) = fill (rt_IPFilter (fst st)) (first_some (contributes J store SnippetIPFilter (dj_IPFilter J)) is)"
  "rt_RateLimit (fst (fold (resolve_id J store) is st)) = fill (rt_RateLimit (fst st)) (first_some (contributes J store SnippetRateLimit (dj_RateLimit J)) is)"
  "rt_CORS (fst (fold (resolve_id J store) is st)) = fill (rt_CORS (fst st)) (first_some (contributes J store SnippetCORS (dj_CORS J)) is)"
  "rt_GeoIP (fst (fold (resolve_id J store) is st)) = fill (rt_GeoIP (fst st)) (first_some (contributes J store SnippetGeoIP (decoded_geo J)) is)"
  "rt_Bot (fst (fold (resolve_id J store) is st)) = fill (rt_Bot (fst st)) (first_some (contributes J store SnippetBot (decoded_bot J)) is)"
  "rt_WAF (fst (fold (resolve_id J store) is st)) = fill (rt_WAF (fst st)) (first_some (contributes J store SnippetWAF (decoded_waf J)) is)"
  "snd (fold (resolve_id J store) is st) = snd st @ List.map_filter (problem J store) is"
  by (induction "is" arbitrary: st) (simp_all add: resolve_id_fields List.map_filter_simps split: option.split)

lemma ResolveSnippets_fields:
  assumes "rt_SnippetIDs r \<noteq> []"
  shows
    "rt_IPFilter (ResolveSnippets J r store) = fill (rt_IPFilter r) (first_some (contributes J store SnippetIPFilter (dj_IPFilter J)) (rt_SnippetIDs r))"
    "rt_RateLimit (ResolveSnippets J r store) = fill (rt_RateLimit r) (first_some (contributes J store SnippetRateLimit (dj_RateLimit J)) (rt_SnippetIDs r))"
    "rt_CORS (ResolveSnippets J r store) = fill (rt_CORS r) (first_some (contributes J store SnippetCORS (dj_CORS J)) (rt_SnippetIDs r))"
    "rt_GeoIP (ResolveSnippets J r store) = fill (rt_GeoIP r) (first_some (contributes J store SnippetGeoIP (decoded_geo J)) (rt_SnippetIDs r))"
    "rt_Bot (ResolveSnippets J r store) = fill (rt_Bot r) (first_some (contributes J store SnippetBot (decoded_bot J)) (rt_SnippetIDs r))"
    "rt_WAF (ResolveSnippets J r store) = fill (rt_WAF r) (first_some (contributes J store SnippetWAF (decoded_waf J)) (rt_SnippetIDs r))"
    "rt_SnippetUnresolved (ResolveSnippets J r store) = Join (List.map_filter (problem J store) (rt_SnippetIDs r)) '', ''"
  using assms fold_resolve_fields [of J store "rt_SnippetIDs r" "(r, [])"]
  by (simp_all add: ResolveSnippets_def split_beta)

text \<open>
  Every block of the resolved route is the route's own when it has one; otherwise it comes from
  the first snippet of the list, in the order of the identifiers, that exists, decodes and is of the
  block's type. Snippets that are missing or unreadable are named in \<open>SnippetUnresolved\<close>, in order.
\<close>

theorem ResolveSnippets_first_wins:
  assumes "rt_SnippetIDs r = i # is"
  shows "rt_IPFilter (ResolveSnippets J r store) = fill (rt_IPFilter r) (first_some (contributes J store SnippetIPFilter (dj_IPFilter J)) (i # is))
    \<and> rt_RateLimit (ResolveSnippets J r store) = fill (rt_RateLimit r) (first_some (contributes J store SnippetRateLimit (dj_RateLimit J)) (i # is))
    \<and> rt_CORS (ResolveSnippets J r store) = fill (rt_CORS r) (first_some (contributes J store SnippetCORS (dj_CORS J)) (i # is))
    \<and> rt_GeoIP (ResolveSnippets J r store) = fill (rt_GeoIP r) (first_some (contributes J store SnippetGeoIP (decoded_geo J)) (i # is))
    \<and> rt_Bot (ResolveSnippets J r store) = fill (rt_Bot r) (first_some (contributes J store SnippetBot (decoded_bot J)) (i # is))
    \<and> rt_WAF (ResolveSnippets J r store) = fill (rt_WAF r) (first_some (contributes J store SnippetWAF (decoded_waf J)) (i # is))
    \<and> rt_SnippetUnresolved (ResolveSnippets J r store) = Join (List.map_filter (problem J store) (i # is)) '', ''"
  using ResolveSnippets_fields [of r J store] unfolding assms by blast

definition demo_json :: json_decoders where
  "demo_json = \<lparr>dj_IPFilter = (\<lambda>raw. if raw = ''bad'' then None else Some \<lparr>ipf_Mode = raw, ipf_CIDRs = []\<rparr>),
     dj_RateLimit = (\<lambda>_. None), dj_CORS = (\<lambda>_. None), dj_Headers = (\<lambda>_. None), dj_GeoIP = (\<lambda>_. None),
     dj_Blocked = (\<lambda>_. None), dj_Bot = (\<lambda>_. None), dj_WAF = (\<lambda>_. None), dj_SSO = (\<lambda>_. None)\<rparr>"

definition demo_snippets :: SnippetStore where
  "demo_snippets = SnippetStore_Replace
     [\<lparr>sn_ID = ''a'', sn_Name = ''n'', sn_Type = ''ip_filter'', sn_Config = ''bad''\<rparr>,
      \<lparr>sn_ID = ''b'', sn_Name = ''m'', sn_Type = ''ip_filter'', sn_Config = ''deny''\<rparr>] NewSnippetStore"

lemma demo_snippets_get:
  "SnippetStore_Get demo_snippets ''a'' = Some \<lparr>sn_ID = ''a'', sn_Name = ''n'', sn_Type = ''ip_filter'', sn_Config = ''bad''\<rparr>"
  "SnippetStore_Get demo_snippets ''m'' = Some \<lparr>sn_ID = ''b'', sn_Name = ''m'', sn_Type = ''ip_filter'', sn_Config = ''deny''\<rparr>"
  by (simp_all add: demo_snippets_def SnippetStore_Get_def SnippetStore_Replace_def NewSnippetStore_def)

theorem ResolveSnippets_first_wins_witness:
  "rt_IPFilter (ResolveSnippets demo_json (zero_route\<lparr>rt_SnippetIDs := [''a'', ''m'']\<rparr>) demo_snippets)
     = Some \<lparr>ipf_Mode = ''deny'', ipf_CIDRs = []\<rparr>"
  using ResolveSnippets_first_wins [of "zero_route\<lparr>rt_SnippetIDs := [''a'', ''m'']\<rparr>" "''a''" "[''m'']" demo_json demo_snippets]
  by (simp add: contributes_def demo_snippets_get securitySnippetReadable_def demo_json_def snippet_types zero_route_def)

section \<open>No protection is lost in silence\<close>

lemma Join_Nil: "Join xs sep = [] \<Longrightarrow> [] \<notin> set xs \<Longrightarrow> xs = []"
  by (induction xs sep rule: Join.induct) auto

lemma fill_first_some: "f i \<noteq> None \<Longrightarrow> i \<in> set is \<Longrightarrow> fill x (first_some f is) \<noteq> None"
  using first_some_None [of f "is"] by (auto simp: fill_def split: option.split)

lemma resolved_clean:
  assumes "rt_SnippetUnresolved (ResolveSnippets J r store) = []" and "i \<in> set (rt_SnippetIDs r)"
  shows "\<exists>sn. SnippetStore_Get store i = Some sn \<and> securitySnippetReadable J sn"
proof -
  have "Join (List.map_filter (problem J store) (rt_SnippetIDs r)) '', '' = []"
    using assms ResolveSnippets_fields(7) [of r J store] by force
  moreover have "[] \<notin> set (List.map_filter (problem J store) (rt_SnippetIDs r))"
    by (auto simp: List.map_filter_def problem_def split: option.splits if_splits)
  ultimately have "List.map_filter (problem J store) (rt_SnippetIDs r) = []"
    by (rule Join_Nil)
  then have "problem J store i = None"
    using assms(2) by (auto simp: List.map_filter_def filter_empty_conv)
  then show ?thesis by (auto simp: problem_def split: option.splits if_splits)
qed

lemma snippets_leave_blocks:
  assumes "rt_SnippetUnresolved (ResolveSnippets J r store) = []" and "i \<in> set (rt_SnippetIDs r)"
  shows "\<exists>sn. SnippetStore_Get store i = Some sn
    \<and> (sn_Type sn = SnippetIPFilter \<longrightarrow> rt_IPFilter (ResolveSnippets J r store) \<noteq> None)
    \<and> (sn_Type sn = SnippetGeoIP \<longrightarrow> rt_GeoIP (ResolveSnippets J r store) \<noteq> None)
    \<and> (sn_Type sn = SnippetBot \<longrightarrow> rt_Bot (ResolveSnippets J r store) \<noteq> None)
    \<and> (sn_Type sn = SnippetWAF \<longrightarrow> (\<exists>w. dj_WAF J (sn_Config sn) = Some w \<and> waf_Enabled w)
         \<longrightarrow> rt_WAF (ResolveSnippets J r store) \<noteq> None)"
proof -
  obtain sn where sn: "SnippetStore_Get store i = Some sn" "securitySnippetReadable J sn"
    using resolved_clean [OF assms] by blast
  have ne: "rt_SnippetIDs r \<noteq> []" using assms(2) by auto
  note F = ResolveSnippets_fields [OF ne, of J store]
  have "rt_IPFilter (ResolveSnippets J r store) \<noteq> None" if "sn_Type sn = SnippetIPFilter"
    unfolding F by (rule fill_first_some [OF _ assms(2)])
      (use sn that in \<open>simp add: contributes_def securitySnippetReadable_def\<close>)
  moreover have "rt_GeoIP (ResolveSnippets J r store) \<noteq> None" if "sn_Type sn = SnippetGeoIP"
    unfolding F by (rule fill_first_some [OF _ assms(2)])
      (use sn that in \<open>simp add: contributes_def securitySnippetReadable_def decoded_geo_def snippet_types\<close>)
  moreover have "rt_Bot (ResolveSnippets J r store) \<noteq> None" if "sn_Type sn = SnippetBot"
    unfolding F by (rule fill_first_some [OF _ assms(2)])
      (use sn that in \<open>simp add: contributes_def securitySnippetReadable_def decoded_bot_def snippet_types\<close>)
  moreover have "rt_WAF (ResolveSnippets J r store) \<noteq> None"
    if "sn_Type sn = SnippetWAF" "dj_WAF J (sn_Config sn) = Some w" "waf_Enabled w" for w
    unfolding F by (rule fill_first_some [OF _ assms(2)])
      (use sn that in \<open>simp add: contributes_def decoded_waf_def\<close>)
  ultimately show ?thesis using sn by blast
qed



text \<open>
  A route that names an authentication provider and has no inline configuration is protected
  after resolution, whatever the store holds and however the provider's configuration decodes:
  authentication is enabled even when the stored configuration says otherwise, and a provider that
  is missing or unreadable becomes the \<open>unresolved\<close> provider, which refuses every request. Inline
  configurations and routes without a provider are left as they are.
\<close>

theorem ResolveAuthProvider_protects:
  "(if rt_AuthProviderID r \<noteq> [] \<and> rt_SSO r = None then
      (\<exists>c. rt_SSO (ResolveAuthProvider J r store) = Some c \<and> sso_Enabled c
         \<and> (case Option.bind (AuthProviderStore_Get store (rt_AuthProviderID r)) (\<lambda>p. dj_SSO J (ap_Config p)) of
              None \<Rightarrow> sso_Provider c = SSOProviderUnresolved
            | Some s \<Rightarrow> sso_BasicUsers c = sso_BasicUsers s \<and> sso_OIDC c = sso_OIDC s))
    else ResolveAuthProvider J r store = r)
   \<and> rt_SSO (ResolveAuthProvider J (ResolveAuthProvider J r store) store') = rt_SSO (ResolveAuthProvider J r store)"
  by (auto simp: ResolveAuthProvider_def unresolved_sso_def split: option.split)

end
