(* ===== verification/Balancer.thy ===== *)
theory Balancer
  imports Route Netip
begin

text \<open>
  Choosing a backend (\<open>internal/edge/proxy/balancer.go\<close>): round robin, weighted, sticky and adaptive
  balancers behind the \<open>Balancer\<close> interface. The atomic counters are 64-bit words and wrap; Go's
  \<open>int\<close> is 64 bits wide. Scores are rationals. A request is seen through its cookies; an integer
  division by zero is a panic.
\<close>

record http_request =
  hr_cookies :: "(string \<times> string) list"

definition Cookie :: "http_request \<Rightarrow> string \<Rightarrow> string option" where
  "Cookie r name = map_of (hr_cookies r) name"

datatype next_result = NextPanic | NextBackend "Backend option"

text \<open>Go's integer remainder takes the sign of the dividend.\<close>

definition go_rem :: "int \<Rightarrow> int \<Rightarrow> int" where
  "go_rem a b = sgn a * (\<bar>a\<bar> mod \<bar>b\<bar>)"

section \<open>Round robin\<close>

record roundRobin =
  rr_backends :: "Backend list"
  rr_idx :: "64 word"

definition newRoundRobin :: "Backend list \<Rightarrow> roundRobin" where
  "newRoundRobin bs = \<lparr>rr_backends = bs, rr_idx = 0\<rparr>"

definition roundRobin_Next :: "roundRobin \<Rightarrow> next_result \<times> roundRobin" where
  "roundRobin_Next rr =
     (if rr_backends rr = [] then (NextBackend None, rr)
      else (let rr' = rr\<lparr>rr_idx := rr_idx rr + 1\<rparr>; i = rr_idx rr' - 1
            in (NextBackend (Some (rr_backends rr ! (unat i mod length (rr_backends rr)))), rr')))"

section \<open>Weighted\<close>

record weighted =
  wt_backends :: "Backend list"
  wt_weights :: "int list"
  wt_total :: int
  wt_idx :: "64 word"

definition eff_weight :: "Backend \<Rightarrow> int" where
  "eff_weight b = (if be_Weight b \<le> 0 then 1 else be_Weight b)"

definition newWeighted :: "Backend list \<Rightarrow> weighted" where
  "newWeighted bs =
     \<lparr>wt_backends = bs, wt_weights = map eff_weight bs,
      wt_total = fold (\<lambda>b t. wrap64 (t + eff_weight b)) bs 0, wt_idx = 0\<rparr>"

text \<open>The loop over the weights: the index of the first backend whose cumulated weight exceeds \<open>n\<close>.\<close>

fun weighted_scan :: "int \<Rightarrow> int \<Rightarrow> int list \<Rightarrow> nat option" where
  "weighted_scan n acc [] = None"
| "weighted_scan n acc (w # ws) =
     (let acc' = wrap64 (acc + w)
      in if n < acc' then Some 0 else map_option Suc (weighted_scan n acc' ws))"

definition weighted_Next :: "weighted \<Rightarrow> next_result \<times> weighted" where
  "weighted_Next w =
     (if wt_backends w = [] then (NextBackend None, w)
      else (let w' = w\<lparr>wt_idx := wt_idx w + 1\<rparr>
            in if wt_total w = 0 then (NextPanic, w')
               else (let n = go_rem (sint (wt_idx w' - 1)) (wt_total w)
                     in (NextBackend (Some (wt_backends w !
                          (case weighted_scan n 0 (wt_weights w) of Some i \<Rightarrow> i | None \<Rightarrow> 0))), w'))))"

section \<open>Adaptive\<close>

record adaptive =
  ad_backends :: "Backend list"
  ad_fallback :: roundRobin

definition newAdaptive :: "Backend list \<Rightarrow> adaptive" where
  "newAdaptive bs = \<lparr>ad_backends = bs, ad_fallback = newRoundRobin bs\<rparr>"

text \<open>
  \<open>hostname\<close> is \<open>url.Parse\<close> followed by \<open>Hostname\<close> (\<open>None\<close> for a parse error), \<open>ipString\<close> the
  \<open>String\<close> method of \<open>net.IP\<close>.
\<close>

definition backendIP :: "(string \<Rightarrow> string option) \<Rightarrow> (Addr \<Rightarrow> string) \<Rightarrow> string \<Rightarrow> string" where
  "backendIP hostname ipString rawURL =
     (case hostname rawURL of
        None \<Rightarrow> rawURL
      | Some host \<Rightarrow> (case ParseIP host of Some ip \<Rightarrow> ipString ip | None \<Rightarrow> host))"

text \<open>The loop of \<open>Next\<close>: best index, best score and the number of scored backends; a nil scorer is \<open>None\<close>.\<close>

definition adaptive_step ::
    "(string \<Rightarrow> rat) option \<Rightarrow> (string \<Rightarrow> string) \<Rightarrow> nat \<times> Backend \<Rightarrow> int \<times> rat \<times> int \<Rightarrow> int \<times> rat \<times> int" where
  "adaptive_step scorer ip ib st =
     (case (ib, st) of ((i, b), (bestIdx, bestScore, scored)) \<Rightarrow>
        let score = (case scorer of None \<Rightarrow> -1 | Some f \<Rightarrow> f (ip (be_URL b)))
        in if score < 0 then st
           else if score < bestScore then (int i, score, scored + 1)
           else (bestIdx, bestScore, scored + 1))"

definition adaptive_Next ::
    "(string \<Rightarrow> rat) option \<Rightarrow> (string \<Rightarrow> string) \<Rightarrow> adaptive \<Rightarrow> next_result \<times> adaptive" where
  "adaptive_Next scorer ip a =
     (if ad_backends a = [] then (NextBackend None, a)
      else (case fold (adaptive_step scorer ip) (List.enumerate 0 (ad_backends a)) (-1, 2 ^ 62, 0) of
              (bestIdx, bestScore, scored) \<Rightarrow>
                if scored = 0 \<or> bestIdx < 0
                then (case roundRobin_Next (ad_fallback a) of (res, rr) \<Rightarrow> (res, a\<lparr>ad_fallback := rr\<rparr>))
                else (NextBackend (Some (ad_backends a ! nat bestIdx)), a)))"

section \<open>The interface and the chain\<close>

datatype balancer = RoundRobin roundRobin | Weighted weighted | Adaptive adaptive
  | Sticky balancer "Backend list" string

fun Next ::
    "(string \<Rightarrow> rat) option \<Rightarrow> (string \<Rightarrow> string) \<Rightarrow> http_request \<Rightarrow> balancer \<Rightarrow> next_result \<times> balancer" where
  "Next m ip r (RoundRobin x) = (case roundRobin_Next x of (res, x') \<Rightarrow> (res, RoundRobin x'))"
| "Next m ip r (Weighted x) = (case weighted_Next x of (res, x') \<Rightarrow> (res, Weighted x'))"
| "Next m ip r (Adaptive x) = (case adaptive_Next m ip x of (res, x') \<Rightarrow> (res, Adaptive x'))"
| "Next m ip r (Sticky inner bs cookie) =
     (case (case Cookie r cookie of None \<Rightarrow> None | Some v \<Rightarrow> find (\<lambda>b. be_URL b = v) bs) of
        Some b \<Rightarrow> (NextBackend (Some b), Sticky inner bs cookie)
      | None \<Rightarrow> (case Next m ip r inner of (res, inner') \<Rightarrow> (res, Sticky inner' bs cookie)))"

text \<open>\<open>NewBalancer\<close>, without the circuit breaker it also returns: \<open>metrics\<close> says whether a scorer is given.\<close>

definition NewBalancer :: "Route \<Rightarrow> bool \<Rightarrow> balancer" where
  "NewBalancer route metrics =
     (let bs = rt_Backends route;
          b = (if rt_LB route = LBWeighted then Weighted (newWeighted bs)
               else if rt_LB route = LBAdaptive \<and> metrics then Adaptive (newAdaptive bs)
               else RoundRobin (newRoundRobin bs))
      in if rt_StickyCookie route \<noteq> [] then Sticky b bs (rt_StickyCookie route) else b)"

section \<open>The contract of a balancer\<close>

text \<open>
  What the handler relies on: a sound balancer over \<open>bs\<close> answers every request with one of the
  backends, with nil exactly when there is none, and stays a sound balancer over \<open>bs\<close>.
\<close>

locale backend_chooser =
  fixes pick :: "'r \<Rightarrow> 's \<Rightarrow> next_result \<times> 's"
    and sound :: "Backend list \<Rightarrow> 's \<Rightarrow> bool"
  assumes pick_backend: "sound bs s \<Longrightarrow>
      (if bs = [] then fst (pick r s) = NextBackend None
       else \<exists>b\<in>set bs. fst (pick r s) = NextBackend (Some b))"
    and pick_sound: "sound bs s \<Longrightarrow> sound bs (snd (pick r s))"
begin

fun choices :: "'r list \<Rightarrow> 's \<Rightarrow> next_result list" where
  "choices [] s = []"
| "choices (r # rs) s = fst (pick r s) # choices rs (snd (pick r s))"

lemma choices_backends:
  "sound bs s \<Longrightarrow> bs \<noteq> [] \<Longrightarrow> set (choices rs s) \<subseteq> (\<lambda>b. NextBackend (Some b)) ` set bs"
proof (induction rs arbitrary: s)
  case (Cons r rs)
  then show ?case using pick_backend [OF Cons.prems(1), of r] pick_sound [OF Cons.prems(1), of r] by auto
qed simp

lemma choices_no_panic: "sound bs s \<Longrightarrow> NextPanic \<notin> set (choices rs s)"
proof (induction rs arbitrary: s)
  case (Cons r rs)
  then show ?case using pick_backend [OF Cons.prems, of r] pick_sound [OF Cons.prems, of r]
    by (auto split: if_splits)
qed simp

lemma choices_empty: "sound [] s \<Longrightarrow> set (choices rs s) \<subseteq> {NextBackend None}"
proof (induction rs arbitrary: s)
  case (Cons r rs)
  then show ?case using pick_backend [OF Cons.prems, of r] pick_sound [OF Cons.prems, of r] by simp
qed simp

lemma length_choices [simp]: "length (choices rs s) = length rs"
  by (induction rs arbitrary: s) simp_all

end

text \<open>The total of the weights fits in an \<open>int\<close>.\<close>

definition weights_fit :: "Backend list \<Rightarrow> bool" where
  "weights_fit bs \<longleftrightarrow> sum_list (map eff_weight bs) < 2 ^ 63"

definition rr_sound :: "Backend list \<Rightarrow> roundRobin \<Rightarrow> bool" where
  "rr_sound bs x \<longleftrightarrow> rr_backends x = bs"

definition wt_sound :: "Backend list \<Rightarrow> weighted \<Rightarrow> bool" where
  "wt_sound bs x \<longleftrightarrow>
     wt_backends x = bs \<and> wt_weights x = map eff_weight bs \<and> wt_total x = sum_list (map eff_weight bs) \<and> weights_fit bs"

definition ad_sound :: "Backend list \<Rightarrow> adaptive \<Rightarrow> bool" where
  "ad_sound bs x \<longleftrightarrow> ad_backends x = bs \<and> rr_sound bs (ad_fallback x)"

fun bal_sound :: "Backend list \<Rightarrow> balancer \<Rightarrow> bool" where
  "bal_sound bs (RoundRobin x) = rr_sound bs x"
| "bal_sound bs (Weighted x) = wt_sound bs x"
| "bal_sound bs (Adaptive x) = ad_sound bs x"
| "bal_sound bs (Sticky inner bs' c) = (bs' = bs \<and> bal_sound bs inner)"

lemma eff_weight_pos: "1 \<le> eff_weight b"
  by (simp add: eff_weight_def)

lemma sum_eff_weight: "int (length bs) \<le> sum_list (map eff_weight bs)"
  using eff_weight_pos by (induction bs) (auto intro: add_mono)

interpretation rr: backend_chooser "\<lambda>(r :: unit). roundRobin_Next" rr_sound
  by unfold_locales (auto simp: roundRobin_Next_def rr_sound_def Let_def)

lemma weighted_scan_bound:
  "weighted_scan n acc ws = Some i \<Longrightarrow> i < length ws"
  by (induction n acc ws arbitrary: i rule: weighted_scan.induct) (auto simp: Let_def split: if_splits)

interpretation wt: backend_chooser "\<lambda>(r :: unit). weighted_Next" wt_sound
proof unfold_locales
  fix bs s and r :: unit
  assume S: "wt_sound bs s"
  show "if bs = [] then fst (weighted_Next s) = NextBackend None
        else \<exists>b\<in>set bs. fst (weighted_Next s) = NextBackend (Some b)"
  proof (cases "bs = []")
    case False
    then have "wt_total s \<noteq> 0"
      using S sum_eff_weight [of bs] by (auto simp: wt_sound_def)
    then show ?thesis
      using S False weighted_scan_bound [of _ 0 "map eff_weight bs"]
      by (auto simp: weighted_Next_def wt_sound_def Let_def split: option.split)
  qed (use S in \<open>simp add: weighted_Next_def wt_sound_def\<close>)
  show "wt_sound bs (snd (weighted_Next s))"
    using S by (auto simp: weighted_Next_def wt_sound_def Let_def)
qed

section \<open>The least loaded backend\<close>

definition score_of :: "(string \<Rightarrow> rat) option \<Rightarrow> (string \<Rightarrow> string) \<Rightarrow> Backend \<Rightarrow> rat" where
  "score_of m ip b = (case m of None \<Rightarrow> -1 | Some f \<Rightarrow> f (ip (be_URL b)))"

text \<open>The first backend of least score among those that report one (below the initial \<open>1 << 62\<close>).\<close>

definition least_loaded :: "(Backend \<Rightarrow> rat) \<Rightarrow> Backend list \<Rightarrow> nat \<Rightarrow> bool" where
  "least_loaded sc bs j \<longleftrightarrow>
     j < length bs \<and> 0 \<le> sc (bs ! j) \<and> sc (bs ! j) < 2 ^ 62
     \<and> (\<forall>i<length bs. 0 \<le> sc (bs ! i) \<longrightarrow> sc (bs ! j) \<le> sc (bs ! i) \<and> (i < j \<longrightarrow> sc (bs ! j) < sc (bs ! i)))"

definition no_load :: "(Backend \<Rightarrow> rat) \<Rightarrow> Backend list \<Rightarrow> bool" where
  "no_load sc bs \<longleftrightarrow> (\<forall>b\<in>set bs. sc b < 0 \<or> 2 ^ 62 \<le> sc b)"

definition scan_state :: "(Backend \<Rightarrow> rat) \<Rightarrow> Backend list \<Rightarrow> int \<times> rat \<times> int \<Rightarrow> bool" where
  "scan_state sc bs st =
     (case st of (best, bestScore, scored) \<Rightarrow>
        0 \<le> scored
        \<and> (if best < 0 then best = -1 \<and> bestScore = 2 ^ 62 \<and> no_load sc bs
           else 0 < scored \<and> least_loaded sc bs (nat best) \<and> bestScore = sc (bs ! nat best)))"

lemma scan_state_snoc:
  assumes "scan_state (score_of m ip) bs st"
  shows "scan_state (score_of m ip) (bs @ [b]) (adaptive_step m ip (length bs, b) st)"
proof -
  obtain best bestScore scored where st: "st = (best, bestScore, scored)" by (cases st)
  let ?sc = "score_of m ip"
  consider (none) "?sc b < 0" | (worse) "0 \<le> ?sc b" "\<not> ?sc b < bestScore" | (better) "0 \<le> ?sc b" "?sc b < bestScore"
    by linarith
  then show ?thesis
  proof cases
    case none
    then show ?thesis
      using assms by (auto simp: st scan_state_def adaptive_step_def score_of_def [symmetric] no_load_def least_loaded_def
          nth_append less_Suc_eq Let_def)
  next
    case worse
    then show ?thesis
      using assms by (auto simp: st scan_state_def adaptive_step_def score_of_def [symmetric] no_load_def least_loaded_def
          nth_append less_Suc_eq Let_def)
  next
    case better
    have "bestScore \<le> ?sc (bs ! i)" if i: "i < length bs" "0 \<le> ?sc (bs ! i)" for i
    proof (cases "best < 0")
      case True
      then have "?sc (bs ! i) < 0 \<or> 2 ^ 62 \<le> ?sc (bs ! i)" "bestScore = 2 ^ 62"
        using assms nth_mem [OF i(1)] unfolding st scan_state_def no_load_def by (auto simp del: nth_mem)
      then show ?thesis using i(2) by linarith
    next
      case False
      then show ?thesis using assms i by (simp add: st scan_state_def least_loaded_def)
    qed
    moreover have "bestScore \<le> 2 ^ 62"
      using assms by (auto simp: st scan_state_def least_loaded_def split: if_splits)
    ultimately show ?thesis
      using assms better by (auto simp: st scan_state_def adaptive_step_def score_of_def [symmetric] least_loaded_def
          nth_append less_Suc_eq Let_def less_le_trans intro: less_imp_le split: if_splits)
  qed
qed

lemma scan_state_fold:
  "scan_state (score_of m ip) bs (fold (adaptive_step m ip) (List.enumerate 0 bs) (-1, 2 ^ 62, 0))"
proof (induction bs rule: rev_induct)
  case Nil
  then show ?case by (simp add: scan_state_def no_load_def)
next
  case (snoc b bs)
  then show ?case by (simp add: enumerate_append_eq scan_state_snoc)
qed

lemma least_loaded_unique: "least_loaded sc bs i \<Longrightarrow> least_loaded sc bs j \<Longrightarrow> i = j"
  unfolding least_loaded_def by (metis linorder_neqE_nat not_less)

lemma least_loaded_load: "least_loaded sc bs j \<Longrightarrow> \<not> no_load sc bs"
  unfolding least_loaded_def no_load_def by (metis nth_mem not_less)

lemma adaptive_Next_cases:
  assumes "ad_backends a \<noteq> []"
  shows "if no_load (score_of m ip) (ad_backends a)
         then adaptive_Next m ip a = (case roundRobin_Next (ad_fallback a) of (res, rr) \<Rightarrow> (res, a\<lparr>ad_fallback := rr\<rparr>))
         else \<exists>j. least_loaded (score_of m ip) (ad_backends a) j
                \<and> adaptive_Next m ip a = (NextBackend (Some (ad_backends a ! j)), a)"
proof -
  obtain best bestScore scored
    where f: "fold (adaptive_step m ip) (List.enumerate 0 (ad_backends a)) (-1, 2 ^ 62, 0) = (best, bestScore, scored)"
    by (metis prod_cases3)
  with scan_state_fold [of m ip "ad_backends a"]
  have st: "scan_state (score_of m ip) (ad_backends a) (best, bestScore, scored)" by simp
  show ?thesis
  proof (cases "best < 0")
    case True
    then show ?thesis using st f assms by (simp add: scan_state_def adaptive_Next_def)
  next
    case False
    then have "least_loaded (score_of m ip) (ad_backends a) (nat best)" "0 < scored"
      using st by (simp_all add: scan_state_def)
    then show ?thesis
      using False f assms least_loaded_load by (auto simp: adaptive_Next_def)
  qed
qed

interpretation ad: backend_chooser "\<lambda>(r :: unit). adaptive_Next m ip" ad_sound
proof unfold_locales
  fix bs s and r :: unit
  assume S: "ad_sound bs s"
  note C = adaptive_Next_cases [of s m ip]
  show "if bs = [] then fst (adaptive_Next m ip s) = NextBackend None
        else \<exists>b\<in>set bs. fst (adaptive_Next m ip s) = NextBackend (Some b)"
    using S C rr.pick_backend [of bs "ad_fallback s"]
    by (auto simp: ad_sound_def adaptive_Next_def [of m ip s] least_loaded_def split: if_splits prod.splits)
  show "ad_sound bs (snd (adaptive_Next m ip s))"
    using S C rr.pick_sound [of bs "ad_fallback s"]
    by (cases "ad_backends s = []") (auto simp: ad_sound_def adaptive_Next_def [of m ip s] split: if_splits prod.splits)
qed

section \<open>The chain\<close>

lemma Next_pick:
  "bal_sound bs s \<Longrightarrow>
   (if bs = [] then fst (Next m ip r s) = NextBackend None else \<exists>b\<in>set bs. fst (Next m ip r s) = NextBackend (Some b))
   \<and> bal_sound bs (snd (Next m ip r s))"
proof (induction s)
  case (RoundRobin x)
  then show ?case
    using rr.pick_backend [of bs x] rr.pick_sound [of bs x] by (simp add: split_beta)
next
  case (Weighted x)
  then show ?case
    using wt.pick_backend [of bs x] wt.pick_sound [of bs x] by (simp add: split_beta)
next
  case (Adaptive x)
  then show ?case
    using ad.pick_backend [of bs x m ip] ad.pick_sound [of bs x m ip] by (simp add: split_beta)
next
  case (Sticky inner bs' c)
  then have IH: "(if bs = [] then fst (Next m ip r inner) = NextBackend None
      else \<exists>b\<in>set bs. fst (Next m ip r inner) = NextBackend (Some b)) \<and> bal_sound bs (snd (Next m ip r inner))"
    and bs': "bs' = bs" by simp_all
  show ?case
  proof (cases "case Cookie r c of None \<Rightarrow> None | Some v \<Rightarrow> find (\<lambda>b. be_URL b = v) bs")
    case None
    then have "Next m ip r (Sticky inner bs' c) = (fst (Next m ip r inner), Sticky (snd (Next m ip r inner)) bs c)"
      by (simp only: bs' Next.simps option.case split_beta)
    then show ?thesis using IH by simp
  next
    case (Some b)
    then have "b \<in> set bs" by (auto split: option.splits dest: find_SomeD)
    then show ?thesis using Some Sticky.prems by (auto simp: bs')
  qed
qed

interpretation chain: backend_chooser "Next m ip" bal_sound
  using Next_pick by unfold_locales blast+

lemma fold_wrap_total:
  assumes "0 \<le> t" and "t + sum_list (map eff_weight bs) < 2 ^ 63"
  shows "fold (\<lambda>b t. wrap64 (t + eff_weight b)) bs t = t + sum_list (map eff_weight bs)"
  using assms
proof (induction bs arbitrary: t)
  case (Cons b bs)
  have "0 \<le> sum_list (map eff_weight bs)"
    using sum_eff_weight [of bs] by simp
  then have "wrap64 (t + eff_weight b) = t + eff_weight b"
    using Cons.prems eff_weight_pos [of b] by (intro wrap64_id) simp_all
  then show ?case using Cons.IH [of "t + eff_weight b"] Cons.prems eff_weight_pos [of b] by simp
qed simp

lemma newWeighted_sound: "weights_fit bs \<Longrightarrow> wt_sound bs (newWeighted bs)"
  by (simp add: wt_sound_def newWeighted_def weights_fit_def fold_wrap_total)

lemma NewBalancer_sound: "weights_fit (rt_Backends r) \<Longrightarrow> bal_sound (rt_Backends r) (NewBalancer r metrics)"
  by (simp add: NewBalancer_def Let_def newWeighted_sound newRoundRobin_def newAdaptive_def rr_sound_def ad_sound_def)

text \<open>
  The balancer chain that \<open>NewBalancer\<close> builds for a route, of any kind, sticky or not, answers
  every request of any sequence with one of the route's backends and never panics; without a backend
  it answers nil every time. The only hypothesis is that the weights add up within an \<open>int\<close>.
\<close>

theorem balancer_picks_configured:
  assumes "weights_fit (rt_Backends r)"
  shows "(if rt_Backends r = [] then set (chain.choices m ip rs (NewBalancer r metrics)) \<subseteq> {NextBackend None}
          else set (chain.choices m ip rs (NewBalancer r metrics)) \<subseteq> (\<lambda>b. NextBackend (Some b)) ` set (rt_Backends r))
         \<and> length (chain.choices m ip rs (NewBalancer r metrics)) = length rs"
proof (cases "rt_Backends r = []")
  case True
  then show ?thesis
    using chain.choices_empty [of "NewBalancer r metrics" m ip rs] NewBalancer_sound [OF assms, of metrics] by simp
next
  case False
  then show ?thesis
    using chain.choices_backends [OF NewBalancer_sound [OF assms, of metrics] False, of m ip rs] by simp
qed

definition demo_backend :: "string \<Rightarrow> int \<Rightarrow> Backend" where
  "demo_backend u w = \<lparr>be_URL = u, be_Weight = w, be_ContainerID = [], be_Image = [], be_AgentName = [],
     be_OwnerEdgeEndpoint = [], be_OwnerEdgeName = []\<rparr>"

definition demo_pool :: Route where
  "demo_pool = zero_route\<lparr>rt_Backends := [demo_backend ''a'' 2, demo_backend ''b'' 0], rt_LB := ''weighted'',
     rt_StickyCookie := ''s''\<rparr>"

theorem balancer_picks_configured_witness:
  "set (chain.choices None id [\<lparr>hr_cookies = []\<rparr>] (NewBalancer demo_pool False))
     \<subseteq> (\<lambda>b. NextBackend (Some b)) ` set (rt_Backends demo_pool)"
  using balancer_picks_configured [of demo_pool None id "[\<lparr>hr_cookies = []\<rparr>]" False]
  by (simp add: demo_pool_def demo_backend_def weights_fit_def eff_weight_def)

section \<open>Fairness over a cycle\<close>

lemma rr_choices_nth:
  assumes "rr_sound bs x" and "bs \<noteq> []" and "unat (rr_idx x) + k \<le> 2 ^ 64"
  shows "rr.choices (replicate k ()) x
         = map (\<lambda>j. NextBackend (Some (bs ! ((unat (rr_idx x) + j) mod length bs)))) [0..<k]"
  using assms
proof (induction k arbitrary: x)
  case (Suc k)
  let ?x = "x\<lparr>rr_idx := rr_idx x + 1\<rparr>"
  have step: "roundRobin_Next x = (NextBackend (Some (bs ! (unat (rr_idx x) mod length bs))), ?x)"
    using Suc.prems(1,2) by (simp add: roundRobin_Next_def rr_sound_def Let_def)
  show ?case
  proof (cases k)
    case 0
    then show ?thesis by (simp add: step)
  next
    case (Suc k')
    then have idx: "unat (rr_idx x + 1) = Suc (unat (rr_idx x))"
      using Suc.prems(3) by (simp add: unat_word_ariths(1))
    have "rr.choices (replicate k ()) ?x
        = map (\<lambda>j. NextBackend (Some (bs ! ((unat (rr_idx x + 1) + j) mod length bs)))) [0..<k]"
      using Suc.IH [of ?x] Suc.prems idx by (simp add: rr_sound_def)
    then show ?thesis
      by (simp add: step idx map_upt_Suc del: upt_Suc)
  qed
qed simp

text \<open>The slots of a cycle of the weighted balancer: every backend as often as its weight.\<close>

definition slots :: "Backend list \<Rightarrow> Backend list" where
  "slots bs = concat (map (\<lambda>b. replicate (nat (eff_weight b)) b) bs)"

lemma length_slots: "int (length (slots bs)) = sum_list (map eff_weight bs)"
  using eff_weight_pos by (induction bs) (auto simp: slots_def order_trans [of 0 1])

lemma weighted_scan_slots:
  assumes "0 \<le> acc" and "acc \<le> n" and "n < acc + sum_list (map eff_weight bs)" and "acc + sum_list (map eff_weight bs) < 2 ^ 63"
  shows "\<exists>i. weighted_scan n acc (map eff_weight bs) = Some i \<and> bs ! i = slots bs ! nat (n - acc)"
  using assms
proof (induction bs arbitrary: acc)
  case (Cons b bs)
  have s: "0 \<le> sum_list (map eff_weight bs)" "1 \<le> eff_weight b"
    using sum_eff_weight [of bs] eff_weight_pos by simp_all
  then have w: "wrap64 (acc + eff_weight b) = acc + eff_weight b"
    using Cons.prems by (intro wrap64_id) simp_all
  show ?case
  proof (cases "n < acc + eff_weight b")
    case True
    then show ?thesis using w Cons.prems s by (simp add: slots_def nth_append Let_def)
  next
    case False
    then obtain i where "weighted_scan n (acc + eff_weight b) (map eff_weight bs) = Some i"
      "bs ! i = slots bs ! nat (n - (acc + eff_weight b))"
      using Cons.IH [of "acc + eff_weight b"] Cons.prems s by auto
    moreover have "slots (b # bs) ! nat (n - acc) = slots bs ! nat (n - (acc + eff_weight b))"
    proof -
      have "nat (n - acc) - nat (eff_weight b) = nat (n - (acc + eff_weight b))" "\<not> nat (n - acc) < nat (eff_weight b)"
        using False s by linarith+
      then show ?thesis by (simp only: slots_def list.map concat.simps nth_append length_replicate if_False)
    qed
    ultimately show ?thesis using w False by (simp add: Let_def)
  qed
qed simp

lemma go_rem_nonneg: "0 \<le> a \<Longrightarrow> 0 < b \<Longrightarrow> go_rem a b = a mod b"
  by (cases "a = 0") (simp_all add: go_rem_def)

lemma weighted_step:
  assumes "wt_sound bs x" and "bs \<noteq> []" and "unat (wt_idx x) < 2 ^ 63"
  shows "weighted_Next x = (NextBackend (Some (slots bs ! (unat (wt_idx x) mod length (slots bs)))), x\<lparr>wt_idx := wt_idx x + 1\<rparr>)"
proof -
  let ?t = "sum_list (map eff_weight bs)"
  have t: "0 < ?t"
    using assms(2) sum_eff_weight [of bs] by (cases bs) auto
  have "uint (wt_idx x) < 2 ^ 63"
    using assms(3) unfolding uint_nat by (metis of_nat_less_iff of_nat_numeral of_nat_power)
  then have "signed_take_bit 63 (uint (wt_idx x)) = uint (wt_idx x)"
    by (intro signed_take_bit_int_eq_self) (auto intro: order_trans [of _ 0])
  then have "sint (wt_idx x) = int (unat (wt_idx x))"
    by (simp add: sint_uint)
  then have n: "go_rem (sint (wt_idx x)) ?t = int (unat (wt_idx x) mod length (slots bs))"
    using t by (simp only: go_rem_nonneg of_nat_0_le_iff) (simp only: length_slots [symmetric] zmod_int)
  obtain i where "weighted_scan (int (unat (wt_idx x) mod length (slots bs))) 0 (map eff_weight bs) = Some i"
    "bs ! i = slots bs ! (unat (wt_idx x) mod length (slots bs))"
    using weighted_scan_slots [of 0 "int (unat (wt_idx x) mod length (slots bs))" bs] t assms(1)
    by (auto simp: length_slots [symmetric] wt_sound_def weights_fit_def)
  then show ?thesis
    using assms(1,2) t n by (simp add: weighted_Next_def wt_sound_def Let_def)
qed

lemma wt_choices_nth:
  assumes "wt_sound bs x" and "bs \<noteq> []" and "unat (wt_idx x) + k \<le> 2 ^ 63"
  shows "wt.choices (replicate k ()) x
         = map (\<lambda>j. NextBackend (Some (slots bs ! ((unat (wt_idx x) + j) mod length (slots bs))))) [0..<k]"
  using assms
proof (induction k arbitrary: x)
  case (Suc k)
  let ?x = "x\<lparr>wt_idx := wt_idx x + 1\<rparr>"
  have step: "weighted_Next x = (NextBackend (Some (slots bs ! (unat (wt_idx x) mod length (slots bs)))), ?x)"
    using Suc.prems by (intro weighted_step) simp_all
  have idx: "unat (wt_idx x + 1) = Suc (unat (wt_idx x))"
    using Suc.prems(3) by (simp add: unat_word_ariths(1))
  have "wt.choices (replicate k ()) ?x
      = map (\<lambda>j. NextBackend (Some (slots bs ! ((unat (wt_idx x + 1) + j) mod length (slots bs))))) [0..<k]"
    using Suc.IH [of ?x] Suc.prems idx by (simp add: wt_sound_def)
  then show ?case
    by (simp add: step idx map_upt_Suc del: upt_Suc)
qed simp

lemma map_rotate:
  "xs \<noteq> [] \<Longrightarrow> map (\<lambda>j. f (xs ! ((n + j) mod length xs))) [0..<length xs] = map f (rotate n xs)"
  by (intro nth_equalityI) (simp_all add: nth_rotate)

text \<open>
  As long as the counter does not pass its end, the round-robin balancer serves its backends in
  turn: the answers to as many consecutive requests as there are backends are the list of backends,
  rotated to the position the counter has reached; and the weighted balancer serves, over a cycle of
  as many requests as the total weight, every backend exactly as often as its weight.
\<close>

theorem cycle_is_fair:
  assumes "bs \<noteq> []"
    and "rr_sound bs x" and "unat (rr_idx x) + length bs \<le> 2 ^ 64"
    and "wt_sound bs w" and "unat (wt_idx w) + length (slots bs) \<le> 2 ^ 63"
  shows "rr.choices (replicate (length bs) ()) x = map (\<lambda>b. NextBackend (Some b)) (rotate (unat (rr_idx x)) bs)
    \<and> wt.choices (replicate (length (slots bs)) ()) w = map (\<lambda>b. NextBackend (Some b)) (rotate (unat (wt_idx w)) (slots bs))"
proof -
  have "slots bs \<noteq> []"
    using assms(1) length_slots [of bs] sum_eff_weight [of bs] by (cases bs) auto
  then show ?thesis
    using rr_choices_nth [OF assms(2,1,3)] wt_choices_nth [OF assms(4,1,5)]
      map_rotate [OF assms(1), of "\<lambda>b. NextBackend (Some b)"] map_rotate [of "slots bs" "\<lambda>b. NextBackend (Some b)"]
    by simp
qed

theorem cycle_is_fair_witness:
  "wt.choices (replicate 3 ()) (newWeighted [demo_backend ''a'' 2, demo_backend ''b'' 0])
   = map (\<lambda>b. NextBackend (Some b)) [demo_backend ''a'' 2, demo_backend ''a'' 2, demo_backend ''b'' 0]"
proof -
  let ?bs = "[demo_backend ''a'' 2, demo_backend ''b'' 0]"
  have "weights_fit ?bs" "slots ?bs = [demo_backend ''a'' 2, demo_backend ''a'' 2, demo_backend ''b'' 0]"
    by (simp_all add: weights_fit_def eff_weight_def demo_backend_def slots_def numeral_2_eq_2)
  moreover have "rr_sound ?bs (newRoundRobin ?bs)" "unat (rr_idx (newRoundRobin ?bs)) = 0" "unat (wt_idx (newWeighted ?bs)) = 0"
    by (simp_all add: rr_sound_def newRoundRobin_def newWeighted_def)
  ultimately show ?thesis
    using cycle_is_fair [of ?bs "newRoundRobin ?bs" "newWeighted ?bs"] newWeighted_sound [of ?bs]
    by (simp add: numeral_3_eq_3 del: wt.choices.simps rr.choices.simps replicate.simps)
qed

text \<open>Past half of its range the counter of the weighted balancer is negative as an \<open>int\<close>: the first backend is always served.\<close>

lemma weighted_after_half:
  assumes "wt_sound bs x" and "bs \<noteq> []" and "sint (wt_idx x) < 0"
  shows "fst (weighted_Next x) = NextBackend (Some (hd bs))"
proof -
  let ?t = "sum_list (map eff_weight bs)"
  obtain b bs' where bs: "bs = b # bs'" using assms(2) by (cases bs) auto
  have t: "0 < ?t" using bs sum_eff_weight [of bs] by auto
  have s: "0 \<le> sum_list (map eff_weight bs')" using sum_eff_weight [of bs'] by simp
  have "go_rem (sint (wt_idx x)) ?t \<le> 0"
    using assms(3) t by (simp add: go_rem_def)
  moreover have "wrap64 (eff_weight b) = eff_weight b"
    using assms(1) s eff_weight_pos [of b] by (intro wrap64_id) (simp_all add: wt_sound_def weights_fit_def bs)
  ultimately have "weighted_scan (go_rem (sint (wt_idx x)) ?t) 0 (map eff_weight bs) = Some 0"
    using eff_weight_pos [of b] by (simp add: bs Let_def)
  then show ?thesis
    using assms(1,2) t by (simp add: weighted_Next_def wt_sound_def Let_def hd_conv_nth)
qed

end
