(* ===== verification/Circuit_Breaker.thy ===== *)
theory Circuit_Breaker
  imports Balancer
begin

text \<open>
  The circuit breaker (\<open>internal/edge/proxy/balancer.go\<close>) and the split of a route between variants
  (\<open>split.go\<close>). Every operation of the breaker runs under its mutex; the instant it reads from the
  clock is its first argument.
\<close>

datatype cbState = CbClosed | CbOpen | CbHalfOpen

record cbBackend =
  cs_failures :: int
  cs_state :: cbState
  cs_openUntil :: go_time
  cs_probeUntil :: go_time

record circuitBreaker =
  cb_cfg :: CBConfig
  cb_backends :: "(string, cbBackend) gomap"

definition newCB :: "CBConfig \<Rightarrow> circuitBreaker" where
  "newCB cfg = \<lparr>cb_cfg = cfg, cb_backends = []\<rparr>"

definition zero_cbBackend :: cbBackend where
  "zero_cbBackend = \<lparr>cs_failures = 0, cs_state = CbClosed, cs_openUntil = zero_time, cs_probeUntil = zero_time\<rparr>"

text \<open>\<open>get\<close> creates the entry of a new URL; \<open>cb_put\<close> writes through the pointer it returns.\<close>

definition cb_get :: "string \<Rightarrow> circuitBreaker \<Rightarrow> cbBackend \<times> circuitBreaker" where
  "cb_get u cb =
     (case gm_get (cb_backends cb) u of
        Some s \<Rightarrow> (s, cb)
      | None \<Rightarrow> (zero_cbBackend, cb\<lparr>cb_backends := gm_set u zero_cbBackend (cb_backends cb)\<rparr>))"

definition cb_put :: "string \<Rightarrow> cbBackend \<Rightarrow> circuitBreaker \<Rightarrow> circuitBreaker" where
  "cb_put u s cb = cb\<lparr>cb_backends := gm_set u s (cb_backends cb)\<rparr>"

definition Allow :: "go_time \<Rightarrow> string \<Rightarrow> circuitBreaker \<Rightarrow> bool \<times> circuitBreaker" where
  "Allow now u cb0 =
     (case cb_get u cb0 of (s, cb) \<Rightarrow>
        let probe = (\<lambda>s. (True, cb_put u (s\<lparr>cs_probeUntil := now + cb_Timeout (cb_cfg cb)\<rparr>) cb))
        in case cs_state s of
             CbOpen \<Rightarrow> if now < cs_openUntil s then (False, cb) else probe (s\<lparr>cs_state := CbHalfOpen\<rparr>)
           | CbHalfOpen \<Rightarrow> if now < cs_probeUntil s then (False, cb) else probe s
           | CbClosed \<Rightarrow> (True, cb))"

definition retry_step :: "go_time \<Rightarrow> string \<Rightarrow> go_duration \<times> circuitBreaker \<Rightarrow> go_duration \<times> circuitBreaker" where
  "retry_step now u st =
     (case st of (best, cb0) \<Rightarrow>
        case cb_get u cb0 of (s, cb) \<Rightarrow>
          let until = (if cs_state s = CbHalfOpen then cs_probeUntil s else cs_openUntil s);
              d = time_sub until now
          in (if 0 < d \<and> (best = 0 \<or> d < best) then d else best, cb))"

definition RetryAfter :: "go_time \<Rightarrow> string list \<Rightarrow> circuitBreaker \<Rightarrow> go_duration \<times> circuitBreaker" where
  "RetryAfter now urls cb = fold (retry_step now) urls (0, cb)"

definition RecordSuccess :: "string \<Rightarrow> circuitBreaker \<Rightarrow> circuitBreaker" where
  "RecordSuccess u cb0 =
     (case cb_get u cb0 of (s, cb) \<Rightarrow> cb_put u (s\<lparr>cs_failures := 0, cs_state := CbClosed\<rparr>) cb)"

definition RecordFailure :: "go_time \<Rightarrow> string \<Rightarrow> circuitBreaker \<Rightarrow> circuitBreaker" where
  "RecordFailure now u cb0 =
     (case cb_get u cb0 of (s, cb) \<Rightarrow>
        let s' = s\<lparr>cs_failures := cs_failures s + 1\<rparr>
        in if cs_state s' = CbHalfOpen \<or> cb_Threshold (cb_cfg cb) \<le> cs_failures s'
           then cb_put u (s'\<lparr>cs_state := CbOpen, cs_openUntil := now + cb_Timeout (cb_cfg cb)\<rparr>) cb
           else cb_put u s' cb)"

definition NewCB_for :: "Route \<Rightarrow> circuitBreaker option" where
  "NewCB_for route = map_option newCB (rt_CircuitBreaker route)"

section \<open>One probe at a time\<close>

text \<open>The state of a URL, whether or not it has an entry.\<close>

definition cb_state :: "circuitBreaker \<Rightarrow> string \<Rightarrow> cbBackend" where
  "cb_state cb u = (case gm_get (cb_backends cb) u of Some s \<Rightarrow> s | None \<Rightarrow> zero_cbBackend)"

lemma cb_get_state [simp]:
  "fst (cb_get u cb) = cb_state cb u"
  "cb_state (snd (cb_get u cb)) v = cb_state cb v"
  "cb_cfg (snd (cb_get u cb)) = cb_cfg cb"
  by (auto simp: cb_get_def cb_state_def split: option.split)

lemma cb_put_state [simp]:
  "cb_state (cb_put u s cb) v = (if v = u then s else cb_state cb v)"
  "cb_cfg (cb_put u s cb) = cb_cfg cb"
  by (auto simp: cb_put_def cb_state_def)

lemma Allow_result:
  "fst (Allow now u cb) \<longleftrightarrow>
     (case cs_state (cb_state cb u) of
        CbClosed \<Rightarrow> True
      | CbOpen \<Rightarrow> cs_openUntil (cb_state cb u) \<le> now
      | CbHalfOpen \<Rightarrow> cs_probeUntil (cb_state cb u) \<le> now)"
  by (auto simp: Allow_def split_beta Let_def split: cbState.split)

lemma Allow_state:
  "cb_state (snd (Allow now u cb)) v =
     (if v = u \<and> cs_state (cb_state cb u) \<noteq> CbClosed \<and> fst (Allow now u cb)
      then (cb_state cb u)\<lparr>cs_state := CbHalfOpen, cs_probeUntil := now + cb_Timeout (cb_cfg cb)\<rparr>
      else cb_state cb v)"
  "cb_cfg (snd (Allow now u cb)) = cb_cfg cb"
  by (auto simp: Allow_def split_beta Let_def split: cbState.split)

lemma RetryAfter_state [simp]:
  "cb_state (snd (RetryAfter now us cb)) v = cb_state cb v"
  "cb_cfg (snd (RetryAfter now us cb)) = cb_cfg cb"
proof -
  have "cb_state (snd (fold (retry_step now) us st)) v = cb_state (snd st) v
      \<and> cb_cfg (snd (fold (retry_step now) us st)) = cb_cfg (snd st)" for st
    by (induction us arbitrary: st) (simp_all add: retry_step_def split_beta Let_def)
  then show "cb_state (snd (RetryAfter now us cb)) v = cb_state cb v"
    "cb_cfg (snd (RetryAfter now us cb)) = cb_cfg cb"
    by (simp_all add: RetryAfter_def)
qed

lemma Record_state:
  "v \<noteq> u \<Longrightarrow> cb_state (RecordSuccess u cb) v = cb_state cb v"
  "v \<noteq> u \<Longrightarrow> cb_state (RecordFailure now u cb) v = cb_state cb v"
  "cb_cfg (RecordSuccess u cb) = cb_cfg cb"
  "cb_cfg (RecordFailure now u cb) = cb_cfg cb"
  by (simp_all add: RecordSuccess_def RecordFailure_def split_beta Let_def)

text \<open>The operations of concurrent requests, in the order in which they take the mutex.\<close>

datatype cb_op = DoAllow go_time string | DoRetry go_time "string list" | DoSuccess string | DoFailure go_time string

fun cb_apply :: "cb_op \<Rightarrow> circuitBreaker \<Rightarrow> bool \<times> circuitBreaker" where
  "cb_apply (DoAllow t u) cb = Allow t u cb"
| "cb_apply (DoRetry t us) cb = (False, snd (RetryAfter t us cb))"
| "cb_apply (DoSuccess u) cb = (False, RecordSuccess u cb)"
| "cb_apply (DoFailure t u) cb = (False, RecordFailure t u cb)"

text \<open>The operations that were allowed to contact \<open>u\<close>.\<close>

fun granted :: "string \<Rightarrow> cb_op list \<Rightarrow> circuitBreaker \<Rightarrow> nat" where
  "granted u [] cb = 0"
| "granted u (p # ps) cb =
     of_bool (fst (cb_apply p cb) \<and> (case p of DoAllow t v \<Rightarrow> v = u | _ \<Rightarrow> False)) + granted u ps (snd (cb_apply p cb))"

text \<open>Before instant \<open>T\<close>, and without an outcome recorded for \<open>u\<close>.\<close>

fun quiet :: "string \<Rightarrow> go_time \<Rightarrow> cb_op \<Rightarrow> bool" where
  "quiet u T (DoAllow t v) = (t < T)"
| "quiet u T (DoRetry t vs) = True"
| "quiet u T (DoSuccess v) = (v \<noteq> u)"
| "quiet u T (DoFailure t v) = (v \<noteq> u)"

lemma granted_half_open:
  assumes "cs_state (cb_state cb u) = CbHalfOpen" and "T \<le> cs_probeUntil (cb_state cb u)" and "list_all (quiet u T) ps"
  shows "granted u ps cb = 0"
  using assms
proof (induction ps arbitrary: cb)
  case (Cons p ps)
  have "cb_state (snd (cb_apply p cb)) u = cb_state cb u"
    using Cons.prems by (cases p) (auto simp: Allow_state Allow_result Record_state)
  then have "granted u ps (snd (cb_apply p cb)) = 0"
    using Cons by simp
  moreover have "\<not> (fst (cb_apply p cb) \<and> (case p of DoAllow t v \<Rightarrow> v = u | _ \<Rightarrow> False))"
    using Cons.prems by (cases p) (auto simp: Allow_result)
  ultimately show ?case by simp
qed simp


definition demo_cb :: circuitBreaker where
  "demo_cb = RecordFailure 10 ''b'' (newCB \<lparr>cb_Threshold = 1, cb_Timeout = 5\<rparr>)"


section \<open>Tripping\<close>

text \<open>
  Counted from a closed breaker without failures, the breaker stays closed and lets every request
  through while fewer failures than the threshold have been recorded; the failure that reaches the
  threshold opens it, and from then on no request is let through before the timeout counted from the
  last failure.
\<close>

theorem breaker_trips:
  assumes "cs_state (cb_state cb u) = CbClosed" and "cs_failures (cb_state cb u) = 0"
    and "1 \<le> cb_Threshold (cb_cfg cb)" and "ts \<noteq> []"
  shows "fst (Allow t u (fold (\<lambda>t. RecordFailure t u) ts cb)) \<longleftrightarrow>
     (if int (length ts) < cb_Threshold (cb_cfg cb) then True else last ts + cb_Timeout (cb_cfg cb) \<le> t)"
proof -
  let ?s = "\<lambda>ts. cb_state (fold (\<lambda>t. RecordFailure t u) ts cb) u"
  have "cs_failures (?s ts) = int (length ts)
      \<and> cs_state (?s ts) = (if ts \<noteq> [] \<and> cb_Threshold (cb_cfg cb) \<le> int (length ts) then CbOpen else CbClosed)
      \<and> (ts \<noteq> [] \<longrightarrow> cb_Threshold (cb_cfg cb) \<le> int (length ts) \<longrightarrow> cs_openUntil (?s ts) = last ts + cb_Timeout (cb_cfg cb))
      \<and> cb_cfg (fold (\<lambda>t. RecordFailure t u) ts cb) = cb_cfg cb"
    using assms(1-3)
  proof (induction ts rule: rev_induct)
    case (snoc x xs)
    then show ?case by (auto simp: RecordFailure_def split_beta Let_def)
  qed simp
  then show ?thesis using assms(4) by (simp add: Allow_result)
qed

theorem breaker_trips_witness:
  "\<not> fst (Allow 14 ''b'' (fold (\<lambda>t. RecordFailure t ''b'') [7, 10] (newCB \<lparr>cb_Threshold = 2, cb_Timeout = 5\<rparr>)))"
  using breaker_trips [of "newCB \<lparr>cb_Threshold = 2, cb_Timeout = 5\<rparr>" "''b''" "[7, 10]" 14]
  by (simp add: newCB_def cb_state_def zero_cbBackend_def)

section \<open>The announced delay\<close>

definition blocked_until :: "circuitBreaker \<Rightarrow> string \<Rightarrow> go_time" where
  "blocked_until cb u =
     (if cs_state (cb_state cb u) = CbHalfOpen then cs_probeUntil (cb_state cb u) else cs_openUntil (cb_state cb u))"

lemma denied_until: "\<not> fst (Allow now u cb) \<Longrightarrow> now < blocked_until cb u"
  by (auto simp: Allow_result blocked_until_def split: cbState.splits)

lemma allowed_from: "\<not> fst (Allow now u cb) \<Longrightarrow> blocked_until cb u \<le> t \<Longrightarrow> fst (Allow t u cb)"
  by (auto simp: Allow_result blocked_until_def split: cbState.splits)

lemma retry_fold:
  assumes "\<forall>u\<in>set us. now < blocked_until cb u" and "\<And>u. cb_state cb0 u = cb_state cb u" and "0 \<le> best"
  shows "let d = fst (fold (retry_step now) us (best, cb0)) in
     (us = [] \<and> d = best) \<or> (us \<noteq> [] \<and> 0 < d \<and> (d = best \<or> (\<exists>u\<in>set us. d = time_sub (blocked_until cb u) now))
       \<and> (\<forall>u\<in>set us. d \<le> time_sub (blocked_until cb u) now) \<and> (best = 0 \<or> d \<le> best))"
  using assms
proof (induction us arbitrary: best cb0)
  case (Cons u us)
  let ?d = "time_sub (blocked_until cb u) now"
  obtain best' cb' where st: "retry_step now u (best, cb0) = (best', cb')" by fastforce
  then have best': "best' = (if best = 0 \<or> ?d < best then ?d else best)" and same: "\<And>v. cb_state cb' v = cb_state cb v"
    using Cons.prems by (auto simp: retry_step_def split_beta Let_def blocked_until_def time_sub_pos split: if_splits)
  have "0 < ?d" using Cons.prems(1) by (simp add: time_sub_pos)
  then show ?case
    using Cons.IH [of cb' best'] Cons.prems best' same st by (cases "us = []") (auto simp: Let_def)
qed simp

text \<open>
  When every candidate backend is refused, \<open>RetryAfter\<close> announces a positive delay, which is the
  shortest after which a request can succeed: at that instant at least one of the backends is let
  through again, and before it none is.
\<close>

theorem RetryAfter_shortest:
  assumes "us \<noteq> []" and "list_all (\<lambda>u. \<not> fst (Allow now u cb)) us"
    and "list_all (\<lambda>u. blocked_until cb u - now \<le> max_duration) us"
  shows "let d = fst (RetryAfter now us cb) in
     0 < d \<and> list_ex (\<lambda>u. fst (Allow (now + d) u cb)) us
     \<and> (\<forall>t. now \<le> t \<longrightarrow> t < now + d \<longrightarrow> list_all (\<lambda>u. \<not> fst (Allow t u cb)) us)"
proof -
  let ?d = "fst (RetryAfter now us cb)"
  have u: "now < blocked_until cb u" "time_sub (blocked_until cb u) now = blocked_until cb u - now" if "u \<in> set us" for u
  proof -
    show "now < blocked_until cb u"
      using that assms(2) denied_until by (auto simp: list_all_iff)
    moreover have "blocked_until cb u - now \<le> max_duration"
      using that assms(3) by (simp add: list_all_iff)
    ultimately show "time_sub (blocked_until cb u) now = blocked_until cb u - now"
      by (simp add: time_sub_def)
  qed
  have D: "0 < ?d" "\<exists>u\<in>set us. ?d = blocked_until cb u - now" "\<forall>u\<in>set us. ?d \<le> blocked_until cb u - now"
    using retry_fold [of us now cb cb 0] u assms(1) by (auto simp: RetryAfter_def Let_def)
  then obtain v where v: "v \<in> set us" "?d = blocked_until cb v - now" by blast
  have "fst (Allow (now + ?d) v cb)"
    using assms(2) v allowed_from [of now v cb "now + ?d"] by (simp add: list_all_iff)
  moreover have "\<not> fst (Allow t w cb)" if "w \<in> set us" "t < now + ?d" for w t
  proof -
    have "t < blocked_until cb w" using D(3) that by force
    moreover have "\<not> fst (Allow now w cb)" using assms(2) that(1) by (simp add: list_all_iff)
    ultimately show ?thesis by (auto simp: Allow_result blocked_until_def split: cbState.splits)
  qed
  ultimately show ?thesis
    unfolding Let_def list_all_iff list_ex_iff using D(1) v(1) by blast
qed

theorem RetryAfter_shortest_witness:
  "0 < fst (RetryAfter 12 [''b''] demo_cb) \<and> fst (Allow (12 + fst (RetryAfter 12 [''b''] demo_cb)) ''b'' demo_cb)"
  using RetryAfter_shortest [of "[''b'']" 12 demo_cb]
  by (simp add: demo_cb_def newCB_def RecordFailure_def cb_get_def cb_put_def cb_state_def zero_cbBackend_def
      Let_def Allow_result blocked_until_def max_duration_def)

section \<open>Split between variants\<close>

record split_request =
  sr_header :: "string \<Rightarrow> string"
  sr_cookies :: "(string \<times> string) list"

definition split_find :: "SplitConfig \<Rightarrow> string \<Rightarrow> SplitVariant option" where
  "split_find sp name = find (\<lambda>v. sv_Name v = name \<and> sv_Backend v \<noteq> []) (sp_Variants sp)"

definition split_usable :: "SplitConfig \<Rightarrow> SplitVariant list" where
  "split_usable sp = filter (\<lambda>v. sv_Backend v \<noteq> [] \<and> 0 < sv_Weight v) (sp_Variants sp)"

definition split_total :: "SplitConfig \<Rightarrow> int" where
  "split_total sp = fold (\<lambda>v t. wrap64 (t + sv_Weight v)) (split_usable sp) 0"

text \<open>The weighted draw: the drawn number goes down by the weights that do not reach it; the last variant is the default.\<close>

fun split_draw :: "int \<Rightarrow> SplitVariant list \<Rightarrow> SplitVariant \<Rightarrow> SplitVariant" where
  "split_draw n [] chosen = chosen"
| "split_draw n (v # vs) chosen = (if n < sv_Weight v then v else split_draw (n - sv_Weight v) vs chosen)"

definition split_forced :: "SplitConfig \<Rightarrow> split_request \<Rightarrow> SplitVariant option" where
  "split_forced sp r =
     (let name = (if sr_header r (sp_Override sp) = []
                  then (case map_of (sr_cookies r) (sp_Override sp) of Some v \<Rightarrow> v | None \<Rightarrow> [])
                  else sr_header r (sp_Override sp))
      in if sp_Override sp \<noteq> [] \<and> name \<noteq> [] then split_find sp name else None)"

definition split_sticky :: "SplitConfig \<Rightarrow> split_request \<Rightarrow> SplitVariant option" where
  "split_sticky sp r =
     (if sp_StickyCookie sp = [] then None
      else Option.bind (map_of (sr_cookies r) (sp_StickyCookie sp)) (split_find sp))"

text \<open>
  \<open>pickSplit\<close> returns the destination and the value of the cookie it sets; \<open>draw\<close> is the number that
  \<open>rand.Intn(total)\<close> returns, which panics for a total that is not positive (\<open>None\<close>).
\<close>

definition pickSplit :: "SplitConfig \<Rightarrow> split_request \<Rightarrow> int \<Rightarrow> (string \<times> string option) option" where
  "pickSplit sp r draw =
     (let variants = split_usable sp
      in if variants = [] then Some ([], None)
         else case split_forced sp r of
           Some v \<Rightarrow> Some (sv_Backend v, None)
         | None \<Rightarrow>
             (case split_sticky sp r of
                Some v \<Rightarrow> Some (sv_Backend v, None)
              | None \<Rightarrow>
                  if split_total sp \<le> 0 then None
                  else (let chosen = split_draw draw variants (last variants)
                        in Some (sv_Backend chosen, if sp_StickyCookie sp \<noteq> [] then Some (sv_Name chosen) else None))))"

definition split_slots :: "SplitVariant list \<Rightarrow> SplitVariant list" where
  "split_slots vs = concat (map (\<lambda>v. replicate (nat (sv_Weight v)) v) vs)"

lemma split_draw_slots:
  assumes "\<forall>v\<in>set vs. 0 < sv_Weight v" and "n < length (split_slots vs)"
  shows "split_draw (int n) vs c = split_slots vs ! n"
  using assms
proof (induction vs arbitrary: n)
  case (Cons v vs)
  show ?case
  proof (cases "int n < sv_Weight v")
    case True
    then show ?thesis by (simp add: split_slots_def nth_append)
  next
    case False
    then have "int n - sv_Weight v = int (n - nat (sv_Weight v))" and ge: "\<not> n < nat (sv_Weight v)"
      using Cons.prems(1) by auto
    moreover have "n - nat (sv_Weight v) < length (split_slots vs)"
      using Cons.prems ge by (simp add: split_slots_def)
    ultimately show ?thesis
      using Cons.IH [of "n - nat (sv_Weight v)"] Cons.prems(1) False by (simp add: split_slots_def nth_append)
  qed
qed (simp add: split_slots_def)

lemma split_total_slots:
  assumes "\<forall>v\<in>set vs. 0 < sv_Weight v" and "0 \<le> t" and "t + sum_list (map sv_Weight vs) < 2 ^ 63"
  shows "fold (\<lambda>v t. wrap64 (t + sv_Weight v)) vs t = t + int (length (split_slots vs))"
  using assms
proof (induction vs arbitrary: t)
  case (Cons v vs)
  have "0 \<le> sum_list (map sv_Weight vs)"
    using Cons.prems(1) by (intro sum_list_nonneg) (auto intro: less_imp_le)
  then have "wrap64 (t + sv_Weight v) = t + sv_Weight v"
    using Cons.prems by (intro wrap64_id) auto
  then show ?case
    using Cons.IH [of "t + sv_Weight v"] Cons.prems by (simp add: split_slots_def)
qed (simp add: split_slots_def)

text \<open>
  Without a forced and a remembered variant, the numbers that \<open>rand.Intn\<close> may return are shared
  exactly by weight: listing the destinations of all draws from 0 gives every usable variant as many
  times in a row as its weight. Neither a forced nor a remembered choice can lead to a destination
  that is not the backend of a configured variant, and no choice is ever empty when a variant is
  usable.
\<close>

theorem split_shares_by_weight:
  assumes "split_usable sp \<noteq> []" and "sum_list (map sv_Weight (split_usable sp)) < 2 ^ 63"
  shows "(case (split_forced sp r, split_sticky sp r) of
      (None, None) \<Rightarrow>
        map (\<lambda>n. map_option fst (pickSplit sp r (int n))) [0..<nat (split_total sp)]
          = map (\<lambda>v. Some (sv_Backend v)) (split_slots (split_usable sp))
    | _ \<Rightarrow> True)
    \<and> (0 \<le> n \<longrightarrow> n < split_total sp \<longrightarrow>
         (\<exists>v\<in>set (sp_Variants sp). \<exists>c. pickSplit sp r n = Some (sv_Backend v, c) \<and> sv_Backend v \<noteq> []))"
proof -
  let ?vs = "split_usable sp"
  have pos: "\<forall>v\<in>set ?vs. 0 < sv_Weight v" and mem: "\<forall>v\<in>set ?vs. v \<in> set (sp_Variants sp) \<and> sv_Backend v \<noteq> []"
    by (auto simp: split_usable_def)
  have total: "split_total sp = int (length (split_slots ?vs))"
    using split_total_slots [OF pos, of 0] assms(2) by (simp add: split_total_def)
  have "split_slots ?vs \<noteq> []"
    using assms(1) pos by (cases ?vs) (auto simp: split_slots_def)
  then have tpos: "0 < split_total sp" by (simp add: total)
  have slot: "split_slots ?vs ! k \<in> set ?vs" if "k < length (split_slots ?vs)" for k
    using nth_mem [OF that] by (auto simp: split_slots_def)
  have found: "v \<in> set (sp_Variants sp) \<and> sv_Backend v \<noteq> []" if "split_find sp x = Some v" for x v
    using that by (auto simp: split_find_def dest: find_SomeD)
  have drawn: "split_draw (int k) ?vs (last ?vs) = split_slots ?vs ! k" if "k < length (split_slots ?vs)" for k
    using split_draw_slots [OF pos that] .
  have "map (\<lambda>n. map_option fst (pickSplit sp r (int n))) [0..<nat (split_total sp)]
      = map (\<lambda>v. Some (sv_Backend v)) (split_slots ?vs)"
    if "split_forced sp r = None" "split_sticky sp r = None"
    using that assms(1) tpos drawn total
    by (intro nth_equalityI) (simp_all add: pickSplit_def Let_def)
  moreover have "\<exists>v\<in>set (sp_Variants sp). \<exists>c. pickSplit sp r n = Some (sv_Backend v, c) \<and> sv_Backend v \<noteq> []"
    if "0 \<le> n" "n < split_total sp"
  proof -
    have "nat n < length (split_slots ?vs)" using that total by simp
    then have "split_draw n ?vs (last ?vs) \<in> set ?vs"
      using slot drawn [of "nat n"] that(1) by simp
    then show ?thesis
      using assms(1) tpos mem found
      by (auto simp: pickSplit_def Let_def split_forced_def split_sticky_def split: option.split bind_splits if_splits)
  qed
  ultimately show ?thesis by (simp split: option.split)
qed

theorem split_shares_by_weight_witness:
  "map (\<lambda>n. map_option fst (pickSplit \<lparr>sp_Variants = [\<lparr>sv_Name = ''a'', sv_Backend = ''u'', sv_Weight = 2\<rparr>,
        \<lparr>sv_Name = ''b'', sv_Backend = ''w'', sv_Weight = 1\<rparr>], sp_StickyCookie = [], sp_Override = []\<rparr>
        \<lparr>sr_header = (\<lambda>_. []), sr_cookies = []\<rparr> (int n))) [0..<3] = [Some ''u'', Some ''u'', Some ''w'']"
  using split_shares_by_weight [of "\<lparr>sp_Variants = [\<lparr>sv_Name = ''a'', sv_Backend = ''u'', sv_Weight = 2\<rparr>,
        \<lparr>sv_Name = ''b'', sv_Backend = ''w'', sv_Weight = 1\<rparr>], sp_StickyCookie = [], sp_Override = []\<rparr>"
        "\<lparr>sr_header = (\<lambda>_. []), sr_cookies = []\<rparr>" 0]
  by (simp add: split_usable_def split_forced_def split_sticky_def split_total_def wrap64_def split_slots_def
      numeral_2_eq_2 del: upt_Suc upt_rec_numeral)

end
