(* ===== verification/Backend_Health.thy ===== *)
theory Backend_Health
  imports Route
begin

text \<open>
  Health of the backends (\<open>internal/edge/proxy/healthcheck.go\<close>): a passive state per URL (quarantine,
  slow start) and an active probe per route and URL. Every operation holds the lock; the instants it
  reads are arguments. A probe's goroutine is represented by the entry of its key: closing its stop
  channel is removing or replacing the entry, and one turn of its loop is \<open>probe_turn\<close>, whose
  argument says whether the backend answered. Calls of \<open>OnDown\<close> are recorded in order.
\<close>

record probeConfig =
  pc_path :: string
  pc_interval :: go_duration
  pc_timeout :: go_duration
  pc_healthyThreshold :: int
  pc_unhealthyThreshold :: int
  pc_proxyProtocol :: string

definition seconds :: "int \<Rightarrow> go_duration" where
  "seconds n = n * 1000000000"

definition defaultProbeConfig :: probeConfig where
  "defaultProbeConfig = \<lparr>pc_path = ''/health'', pc_interval = seconds 30, pc_timeout = seconds 5,
     pc_healthyThreshold = 1, pc_unhealthyThreshold = 1, pc_proxyProtocol = []\<rparr>"

definition probeConfigFrom :: "HealthCheckConfig option \<Rightarrow> probeConfig" where
  "probeConfigFrom cfgp =
     (let p = defaultProbeConfig
      in case cfgp of
           None \<Rightarrow> p
         | Some cfg \<Rightarrow>
             p\<lparr>pc_path := (if hc_Path cfg \<noteq> [] then hc_Path cfg else pc_path p),
               pc_interval := (if 0 < hc_Interval cfg then hc_Interval cfg else pc_interval p),
               pc_timeout := (if 0 < hc_Timeout cfg then hc_Timeout cfg else pc_timeout p),
               pc_healthyThreshold := (if 0 < hc_HealthyThreshold cfg then hc_HealthyThreshold cfg else pc_healthyThreshold p),
               pc_unhealthyThreshold := (if 0 < hc_UnhealthyThreshold cfg then hc_UnhealthyThreshold cfg
                                         else pc_unhealthyThreshold p)\<rparr>)"

record backendState =
  bk_healthy :: bool
  bk_downUntil :: go_time
  bk_upSince :: go_time

type_synonym probeKey = "string \<times> string"

record probeState =
  pr_cfg :: probeConfig
  pr_healthy :: bool
  pr_streak :: int

record BackendHealth =
  bh_states :: "(string, backendState) gomap"
  bh_probes :: "(probeKey, probeState) gomap"
  bh_onDown :: "string list"

definition NewBackendHealth :: BackendHealth where
  "NewBackendHealth = \<lparr>bh_states = [], bh_probes = [], bh_onDown = []\<rparr>"

definition passiveUpLocked :: "go_time \<Rightarrow> string \<Rightarrow> BackendHealth \<Rightarrow> bool" where
  "passiveUpLocked now u h =
     (case gm_get (bh_states h) u of None \<Rightarrow> True | Some st \<Rightarrow> bk_healthy st \<and> \<not> now < bk_downUntil st)"

definition anyProbeDownLocked :: "string \<Rightarrow> BackendHealth \<Rightarrow> bool" where
  "anyProbeDownLocked u h = list_ex (\<lambda>(k, p). snd k = u \<and> \<not> pr_healthy p) (bh_probes h)"

definition IsHealthy :: "go_time \<Rightarrow> string \<Rightarrow> BackendHealth \<Rightarrow> bool" where
  "IsHealthy now u h = (passiveUpLocked now u h \<and> \<not> anyProbeDownLocked u h)"

definition IsHealthyFor :: "go_time \<Rightarrow> string \<Rightarrow> string \<Rightarrow> BackendHealth \<Rightarrow> bool" where
  "IsHealthyFor now route u h =
     (if \<not> passiveUpLocked now u h then False
      else case gm_get (bh_probes h) (route, u) of Some p \<Rightarrow> pr_healthy p | None \<Rightarrow> True)"

definition getOrCreateLocked :: "go_time \<Rightarrow> string \<Rightarrow> BackendHealth \<Rightarrow> backendState \<times> BackendHealth" where
  "getOrCreateLocked now u h =
     (case gm_get (bh_states h) u of
        Some st \<Rightarrow> (st, h)
      | None \<Rightarrow>
          let st = \<lparr>bk_healthy = True, bk_downUntil = zero_time, bk_upSince = now\<rparr>
          in (st, h\<lparr>bh_states := gm_set u st (bh_states h)\<rparr>))"

definition put_state :: "string \<Rightarrow> backendState \<Rightarrow> BackendHealth \<Rightarrow> BackendHealth" where
  "put_state u st h = h\<lparr>bh_states := gm_set u st (bh_states h)\<rparr>"

definition MarkDown :: "go_time \<Rightarrow> string \<Rightarrow> go_duration \<Rightarrow> BackendHealth \<Rightarrow> BackendHealth" where
  "MarkDown now u ttl h =
     (if u = [] then h
      else (let ttl' = (if ttl \<le> 0 then seconds 15 else ttl)
            in case getOrCreateLocked now u h of (st, h') \<Rightarrow> put_state u (st\<lparr>bk_downUntil := now + ttl'\<rparr>) h'))"

definition MarkUp :: "go_time \<Rightarrow> string \<Rightarrow> BackendHealth \<Rightarrow> BackendHealth" where
  "MarkUp now u h =
     (if u = [] then h
      else case getOrCreateLocked now u h of (st, h') \<Rightarrow>
        let st1 = (if \<not> bk_healthy st \<or> bk_downUntil st \<noteq> zero_time then st\<lparr>bk_upSince := now\<rparr> else st)
        in put_state u (st1\<lparr>bk_downUntil := zero_time, bk_healthy := True\<rparr>) h')"

text \<open>Shares of traffic are rationals.\<close>

definition slowStartFloor :: rat where
  "slowStartFloor = 1 / 20"

definition rampFactorAt :: "string \<Rightarrow> go_duration \<Rightarrow> go_time \<Rightarrow> BackendHealth \<Rightarrow> rat" where
  "rampFactorAt u window now h =
     (if window \<le> 0 then 1
      else (let since = (case gm_get (bh_states h) u of Some st \<Rightarrow> bk_upSince st | None \<Rightarrow> zero_time)
            in if since = zero_time then 1
               else (let elapsed = time_sub now since
                     in if window \<le> elapsed then 1
                        else slowStartFloor + (1 - slowStartFloor) * of_int elapsed / of_int window)))"

definition Status :: "go_time \<Rightarrow> string \<Rightarrow> BackendHealth \<Rightarrow> string" where
  "Status now u h =
     (if u = [] then ''unknown''
      else if gm_get (bh_states h) u = None then ''unknown''
      else if passiveUpLocked now u h \<and> \<not> anyProbeDownLocked u h then ''up'' else ''down'')"

definition Snapshot :: "go_time \<Rightarrow> BackendHealth \<Rightarrow> (string, string) gomap" where
  "Snapshot now h =
     fold (\<lambda>(k, p) out. if \<not> pr_healthy p then gm_set (snd k) ''down'' out else out) (bh_probes h)
       (fold (\<lambda>(u, st). gm_set u (if passiveUpLocked now u h then ''up'' else ''down'')) (bh_states h) [])"

text \<open>
  What \<open>quarantineDuration\<close> asks of an error: whether a \<open>net.OpError\<close> is in its chain (after a
  \<open>url.Error\<close> is unwrapped), with what it reports, and whether it is an end of file.
\<close>

record op_error =
  oe_temporary :: bool
  oe_reset :: bool
  oe_refused :: bool

record transport_error =
  te_op :: "op_error option"
  te_eof :: bool

definition quarantineDuration :: "transport_error option \<Rightarrow> go_duration" where
  "quarantineDuration ep =
     (case ep of
        None \<Rightarrow> seconds 15
      | Some e \<Rightarrow>
          (case te_op e of
             Some n \<Rightarrow>
               if oe_temporary n then 0
               else if oe_reset n then 0
               else if oe_refused n then seconds 15
               else if te_eof e then 0 else seconds 15
           | None \<Rightarrow> if te_eof e then 0 else seconds 15))"

definition startLocked :: "go_time \<Rightarrow> probeKey \<Rightarrow> probeConfig \<Rightarrow> BackendHealth \<Rightarrow> BackendHealth" where
  "startLocked now k cfg h =
     (case gm_get (bh_probes h) k of
        Some p \<Rightarrow>
          if pr_cfg p = cfg then h
          else snd (getOrCreateLocked now (snd k) (h\<lparr>bh_probes := gm_set k (p\<lparr>pr_cfg := cfg\<rparr>) (bh_probes h)\<rparr>))
      | None \<Rightarrow>
          snd (getOrCreateLocked now (snd k)
            (h\<lparr>bh_probes := gm_set k \<lparr>pr_cfg = cfg, pr_healthy = True, pr_streak = 0\<rparr> (bh_probes h)\<rparr>)))"

definition StartChecks :: "go_time \<Rightarrow> string list \<Rightarrow> go_duration \<Rightarrow> BackendHealth \<Rightarrow> BackendHealth" where
  "StartChecks now urls interval h =
     (let cfg = (if 0 < interval then defaultProbeConfig\<lparr>pc_interval := interval\<rparr> else defaultProbeConfig)
      in fold (\<lambda>u h. if u \<noteq> [] then startLocked now ([], u) cfg h else h) urls h)"

definition route_probe :: "Route \<Rightarrow> probeConfig" where
  "route_probe r =
     (let pc = probeConfigFrom (rt_HealthCheck r)
      in if rt_ProxyProtocol r = ''v1'' \<or> rt_ProxyProtocol r = ''v2'' then pc\<lparr>pc_proxyProtocol := rt_ProxyProtocol r\<rparr> else pc)"

definition desired_route :: "Route option \<Rightarrow> (probeKey, probeConfig) gomap \<Rightarrow> (probeKey, probeConfig) gomap" where
  "desired_route rp m =
     (case rp of
        None \<Rightarrow> m
      | Some r \<Rightarrow>
          if rt_Type r = RouteUDP then m
          else fold (\<lambda>b. if be_URL b \<noteq> [] then gm_set (rt_ID r, be_URL b) (route_probe r) else id) (rt_Backends r) m)"

definition desired_probes :: "Route option list \<Rightarrow> (probeKey, probeConfig) gomap" where
  "desired_probes routes = fold desired_route routes []"

definition Sync :: "go_time \<Rightarrow> Route option list \<Rightarrow> BackendHealth \<Rightarrow> BackendHealth" where
  "Sync now routes h =
     (let desired = desired_probes routes;
          h1 = fold (\<lambda>(k, cfg). startLocked now k cfg) desired h;
          h2 = h1\<lparr>bh_probes := filter (\<lambda>(k, p). gm_get desired k \<noteq> None) (bh_probes h1)\<rparr>
      in h2\<lparr>bh_states := filter (\<lambda>(u, st). u \<in> snd ` fst ` set (bh_probes h2)) (bh_states h2)\<rparr>)"

text \<open>One measurement of a probe: its streak and its verdict.\<close>

definition probe_measure :: "bool \<Rightarrow> probeState \<Rightarrow> probeState" where
  "probe_measure ok p =
     (let cfg = pr_cfg p
      in if ok then
           (let p1 = p\<lparr>pr_streak := (if pr_streak p < 0 then 0 else pr_streak p) + 1\<rparr>
            in if pc_healthyThreshold cfg \<le> pr_streak p1 then p1\<lparr>pr_healthy := True\<rparr> else p1)
         else
           (let p1 = p\<lparr>pr_streak := (if 0 < pr_streak p then 0 else pr_streak p) - 1\<rparr>
            in if pc_unhealthyThreshold cfg \<le> - pr_streak p1 then p1\<lparr>pr_healthy := False\<rparr> else p1))"

text \<open>A turn of the loop of a probe that has not been stopped.\<close>

definition probe_turn :: "go_time \<Rightarrow> probeKey \<Rightarrow> bool \<Rightarrow> BackendHealth \<Rightarrow> BackendHealth" where
  "probe_turn now k ok h =
     (case gm_get (bh_probes h) k of
        None \<Rightarrow> h
      | Some p \<Rightarrow>
          let p' = probe_measure ok p;
              h1 = h\<lparr>bh_probes := gm_set k p' (bh_probes h)\<rparr>;
              h2 = (if ok \<and> pc_healthyThreshold (pr_cfg p) \<le> pr_streak p' then
                      (case gm_get (bh_states h) (snd k) of
                         None \<Rightarrow> h1
                       | Some st \<Rightarrow>
                           let st1 = (if \<not> pr_healthy p \<or> \<not> bk_healthy st \<or> bk_downUntil st \<noteq> zero_time
                                      then st\<lparr>bk_upSince := now\<rparr> else st)
                           in put_state (snd k) (st1\<lparr>bk_healthy := True, bk_downUntil := zero_time\<rparr>) h1)
                    else h1)
          in if pr_healthy p \<and> \<not> pr_healthy p' then h2\<lparr>bh_onDown := bh_onDown h2 @ [snd k]\<rparr> else h2)"

section \<open>Synchronising with the routes\<close>

text \<open>Maps are maps and every probe's URL has a passive state.\<close>

definition health_ok :: "BackendHealth \<Rightarrow> bool" where
  "health_ok h \<longleftrightarrow>
     gm_ok (bh_states h) \<and> gm_ok (bh_probes h)
     \<and> (\<forall>k p. gm_get (bh_probes h) k = Some p \<longrightarrow> gm_get (bh_states h) (snd k) \<noteq> None)"

lemma getOrCreate_get:
  "gm_get (bh_states (snd (getOrCreateLocked now u h))) v =
     (if v = u then Some (fst (getOrCreateLocked now u h)) else gm_get (bh_states h) v)"
  "bh_probes (snd (getOrCreateLocked now u h)) = bh_probes h"
  "bh_onDown (snd (getOrCreateLocked now u h)) = bh_onDown h"
  "gm_ok (bh_states h) \<Longrightarrow> gm_ok (bh_states (snd (getOrCreateLocked now u h)))"
  by (auto simp: getOrCreateLocked_def Let_def split: option.split)

lemma put_state_get [simp]:
  "gm_get (bh_states (put_state u st h)) v = (if v = u then Some st else gm_get (bh_states h) v)"
  "bh_probes (put_state u st h) = bh_probes h"
  "gm_ok (bh_states h) \<Longrightarrow> gm_ok (bh_states (put_state u st h))"
  by (simp_all add: put_state_def)

lemma startLocked_probe:
  "gm_get (bh_probes (startLocked now k cfg h)) k' =
     (if k' = k then
        Some (case gm_get (bh_probes h) k of
                Some p \<Rightarrow> p\<lparr>pr_cfg := cfg\<rparr>
              | None \<Rightarrow> \<lparr>pr_cfg = cfg, pr_healthy = True, pr_streak = 0\<rparr>)
      else gm_get (bh_probes h) k')"
  by (auto simp: startLocked_def getOrCreate_get split: option.split)

lemma startLocked_states:
  "gm_get (bh_states h) u \<noteq> None \<Longrightarrow> gm_get (bh_states (startLocked now k cfg h)) u = gm_get (bh_states h) u"
  by (auto simp: startLocked_def getOrCreateLocked_def Let_def split: option.splits)

lemma startLocked_ok: "health_ok h \<Longrightarrow> health_ok (startLocked now k cfg h)"
  by (auto simp: startLocked_def health_ok_def getOrCreate_get split: option.split if_splits)

lemma fold_start_ok: "health_ok h \<Longrightarrow> health_ok (fold (\<lambda>(k, cfg). startLocked now k cfg) ds h)"
  by (induction ds arbitrary: h) (auto simp: startLocked_ok)

lemma fold_start_probe:
  "gm_ok ds \<Longrightarrow>
   gm_get (bh_probes (fold (\<lambda>(k, cfg). startLocked now k cfg) ds h)) k =
     (case gm_get ds k of
        None \<Rightarrow> gm_get (bh_probes h) k
      | Some cfg \<Rightarrow>
          Some (case gm_get (bh_probes h) k of
                  Some p \<Rightarrow> p\<lparr>pr_cfg := cfg\<rparr>
                | None \<Rightarrow> \<lparr>pr_cfg = cfg, pr_healthy = True, pr_streak = 0\<rparr>))"
proof (induction ds arbitrary: h)
  case (Cons d ds)
  obtain k' cfg where d: "d = (k', cfg)" by (cases d)
  with Cons.prems have "gm_ok ds" "gm_get ds k' = None"
    by (auto simp: gm_ok_def map_of_eq_None_iff)
  then show ?case
    using Cons.IH [of "startLocked now k' cfg h"] by (auto simp: d startLocked_probe split: option.split)
qed simp

lemma fold_start_states:
  "gm_get (bh_states h) u \<noteq> None \<Longrightarrow>
   gm_get (bh_states (fold (\<lambda>(k, cfg). startLocked now k cfg) ds h)) u = gm_get (bh_states h) u"
  by (induction ds arbitrary: h) (auto simp: startLocked_states)

lemma desired_ok: "gm_ok (desired_probes routes)"
proof -
  have backends: "gm_ok (fold (\<lambda>b. if be_URL b \<noteq> [] then gm_set (i, be_URL b) c else id) bs m)" if "gm_ok m" for i c bs m
    using that by (induction bs arbitrary: m) auto
  have "gm_ok (fold desired_route rs m)" if "gm_ok m" for rs m
    using that by (induction rs arbitrary: m) (simp_all add: desired_route_def backends split: option.split)
  then show ?thesis by (simp add: desired_probes_def)
qed


definition demo_checked :: Route where
  "demo_checked = zero_route\<lparr>rt_ID := ''r'', rt_Backends := [\<lparr>be_URL = ''http://b'', be_Weight = 0, be_ContainerID = [],
     be_Image = [], be_AgentName = [], be_OwnerEdgeEndpoint = [], be_OwnerEdgeName = []\<rparr>]\<rparr>"


section \<open>Verdicts of a probe\<close>

text \<open>A run of measurements; the streak is the signed length of the run of equal results at its end.\<close>

definition measures :: "bool list \<Rightarrow> probeState \<Rightarrow> probeState" where
  "measures rs p = fold probe_measure rs p"

definition trailing :: "bool \<Rightarrow> bool list \<Rightarrow> nat" where
  "trailing b rs = length (takeWhile (\<lambda>r. r = b) (rev rs))"

lemma trailing_snoc: "trailing b (rs @ [r]) = (if r = b then Suc (trailing b rs) else 0)"
  by (simp add: trailing_def)

lemma probe_measure_cfg [simp]: "pr_cfg (probe_measure ok p) = pr_cfg p"
  by (simp add: probe_measure_def Let_def)

lemma measures_snoc: "measures (rs @ [r]) p = probe_measure r (measures rs p)"
  by (simp add: measures_def)

lemma measures_cfg [simp]: "pr_cfg (measures rs p) = pr_cfg p"
  by (induction rs rule: rev_induct) (simp_all add: measures_snoc, simp add: measures_def)

lemma measures_streak:
  assumes "pr_streak p = 0"
  shows "pr_streak (measures rs p) = int (trailing True rs) - int (trailing False rs)
         \<and> (trailing True rs = 0 \<or> trailing False rs = 0)"
proof (induction rs rule: rev_induct)
  case Nil
  then show ?case using assms by (simp add: measures_def trailing_def)
next
  case (snoc r rs)
  then show ?case by (auto simp: measures_snoc trailing_snoc probe_measure_def Let_def)
qed

text \<open>
  The verdict of a probe follows its thresholds exactly. After a run of measurements from a new
  probe, one more measurement makes it unhealthy exactly when it completes \<open>unhealthyThreshold\<close>
  consecutive failures or it already was, and healthy exactly when it completes \<open>healthyThreshold\<close>
  consecutive successes or it already was: no shorter series changes a verdict.
\<close>

theorem probe_thresholds:
  assumes "pr_streak p = 0"
  shows "pr_healthy (measures (rs @ [ok]) p) \<longleftrightarrow>
    (if ok then pc_healthyThreshold (pr_cfg p) \<le> int (trailing True (rs @ [ok])) \<or> pr_healthy (measures rs p)
     else int (trailing False (rs @ [ok])) < pc_unhealthyThreshold (pr_cfg p) \<and> pr_healthy (measures rs p))"
  using measures_streak [OF assms, of rs]
  by (auto simp: measures_snoc trailing_snoc probe_measure_def Let_def)

theorem probe_thresholds_witness:
  "pr_healthy (measures [False, True, False, False] \<lparr>pr_cfg = defaultProbeConfig\<lparr>pc_unhealthyThreshold := 3\<rparr>,
     pr_healthy = True, pr_streak = 0\<rparr>)"
  using probe_thresholds [of "\<lparr>pr_cfg = defaultProbeConfig\<lparr>pc_unhealthyThreshold := 3\<rparr>, pr_healthy = True, pr_streak = 0\<rparr>"
      "[False, True, False]" False]
  by (simp add: trailing_def) (simp add: measures_def probe_measure_def defaultProbeConfig_def Let_def)

section \<open>Quarantine and slow start\<close>

lemma MarkDown_unhealthy:
  assumes "u \<noteq> []" and "t < now + (if ttl \<le> 0 then seconds 15 else ttl)"
  shows "\<not> IsHealthyFor t i u (MarkDown now u ttl h) \<and> \<not> IsHealthy t u (MarkDown now u ttl h)"
  using assms by (simp add: IsHealthyFor_def IsHealthy_def MarkDown_def passiveUpLocked_def Let_def split_beta)

lemma MarkUp_lifts:
  assumes "u \<noteq> []" and "0 \<le> t"
  shows "passiveUpLocked t u (MarkUp now u h)"
  using assms by (simp add: MarkUp_def passiveUpLocked_def Let_def split_beta zero_time_def)

lemma Mark_other:
  "v \<noteq> u \<Longrightarrow> IsHealthyFor t i v (MarkDown now u ttl h) = IsHealthyFor t i v h"
  "v \<noteq> u \<Longrightarrow> IsHealthyFor t i v (MarkUp now u h) = IsHealthyFor t i v h"
  by (simp_all add: IsHealthyFor_def MarkDown_def MarkUp_def passiveUpLocked_def Let_def split_beta getOrCreate_get
      split: option.split)

lemma Mark_probe_ok:
  "health_ok h \<Longrightarrow> health_ok (MarkDown now u ttl h)"
  "health_ok h \<Longrightarrow> health_ok (MarkUp now u h)"
  "health_ok h \<Longrightarrow> health_ok (probe_turn now k ok h)"
  by (auto simp: MarkDown_def MarkUp_def probe_turn_def health_ok_def Let_def split_beta getOrCreate_get
      split: option.split if_splits)

lemma StartChecks_ok: "health_ok h \<Longrightarrow> health_ok (StartChecks now us iv h)"
proof -
  have "health_ok (fold (\<lambda>u h. if u \<noteq> [] then startLocked now ([], u) cfg h else h) us h)" if "health_ok h" for cfg h
    using that by (induction us arbitrary: h) (simp_all add: startLocked_ok)
  then show "health_ok h \<Longrightarrow> ?thesis" by (simp add: StartChecks_def Let_def)
qed

lemma ramp_between:
  assumes "0 \<le> e" and "e < (w :: int)"
  shows "slowStartFloor \<le> slowStartFloor + (1 - slowStartFloor) * of_int e / of_int w
    \<and> slowStartFloor + (1 - slowStartFloor) * of_int e / of_int w < 1"
proof -
  have "0 \<le> (of_int e :: rat) / of_int w" "(of_int e :: rat) / of_int w < 1"
    using assms by (simp_all add: divide_less_eq)
  then show ?thesis by (simp add: slowStartFloor_def)
qed

lemma rampFactorAt_eq:
  "rampFactorAt u w now h =
     (if w \<le> 0 then 1
      else case gm_get (bh_states h) u of
        None \<Rightarrow> 1
      | Some st \<Rightarrow>
          if bk_upSince st = zero_time \<or> w \<le> time_sub now (bk_upSince st) then 1
          else slowStartFloor + (1 - slowStartFloor) * of_int (time_sub now (bk_upSince st)) / of_int w)"
  by (simp add: rampFactorAt_def Let_def split: option.split)

text \<open>
  From the instant a backend came into service, its share of traffic during slow start lies between
  the floor of one twentieth and one, never decreases as time passes, and is one from the end of the
  window on; a backend the store does not know has its full share.
\<close>

theorem ramp_grows:
  assumes "t1 \<le> t2" and "case gm_get (bh_states h) u of None \<Rightarrow> True | Some st \<Rightarrow> bk_upSince st \<le> t1"
  shows "slowStartFloor \<le> rampFactorAt u w t1 h \<and> rampFactorAt u w t1 h \<le> rampFactorAt u w t2 h
    \<and> rampFactorAt u w t2 h \<le> 1
    \<and> (gm_get (bh_states h) u = None \<longrightarrow> rampFactorAt u w t1 h = 1)"
proof (cases "gm_get (bh_states h) u")
  case None
  then show ?thesis by (simp add: rampFactorAt_eq slowStartFloor_def)
next
  case (Some st)
  let ?e1 = "time_sub t1 (bk_upSince st)" and ?e2 = "time_sub t2 (bk_upSince st)"
  have e: "0 \<le> ?e1" "?e1 \<le> ?e2"
    using assms Some by (auto simp: time_sub_def max_duration_def)
  have "slowStartFloor + (1 - slowStartFloor) * of_int ?e1 / of_int w
      \<le> slowStartFloor + (1 - slowStartFloor) * of_int ?e2 / of_int w" if "0 < w"
    using e that by (simp add: slowStartFloor_def divide_right_mono)
  then show ?thesis
    using Some e ramp_between [of ?e1 w] ramp_between [of ?e2 w]
    by (simp add: rampFactorAt_eq) (auto simp: slowStartFloor_def)
qed

theorem ramp_grows_witness:
  "rampFactorAt ''b'' 10 3 (MarkDown 1 ''b'' 4 NewBackendHealth) \<le> rampFactorAt ''b'' 10 7 (MarkDown 1 ''b'' 4 NewBackendHealth)"
  using ramp_grows [of 3 7 "MarkDown 1 ''b'' 4 NewBackendHealth" "''b''" 10]
  by (simp add: MarkDown_def getOrCreateLocked_def NewBackendHealth_def Let_def put_state_def)

end
