(* ===== verification/Failover.thy ===== *)
theory Failover
  imports Circuit_Breaker Backend_Health
begin

text \<open>
  The request path of the reverse proxy (\<open>internal/edge/proxy/handler.go\<close>) from the choice of the
  candidates to the last attempt: the order of the backends, slow start, health and circuit-breaker
  filters, and the loop of attempts. The outcome of contacting a backend, the number drawn for slow
  start and whether the client has gone away during a wait are arguments; instants are read once per
  use of the clock.
\<close>

section \<open>Candidates\<close>

fun add_unseen :: "Backend list \<Rightarrow> Backend list \<Rightarrow> Backend list" where
  "add_unseen [] out = out"
| "add_unseen (b # bs) out =
     add_unseen bs (if be_URL b \<in> set (map be_URL out) then out else out @ [b])"

definition slow_start_alternative ::
    "go_time \<Rightarrow> go_duration \<Rightarrow> rat \<Rightarrow> Route \<Rightarrow> BackendHealth \<Rightarrow> Backend \<Rightarrow> Backend option" where
  "slow_start_alternative now window f route h pref =
     (let bs = rt_Backends route; n = length bs;
          start = (case find (\<lambda>i. be_URL (bs ! i) = be_URL pref) [0..<n] of Some i \<Rightarrow> i | None \<Rightarrow> 0)
      in find (\<lambda>alt. \<not> (be_URL alt = be_URL pref \<or> \<not> IsHealthyFor now (rt_ID route) (be_URL alt) h
                          \<or> rampFactorAt (be_URL alt) window now h \<le> f))
           (map (\<lambda>k. bs ! ((start + k) mod n)) [1..<n]))"

definition applySlowStart ::
    "go_time \<Rightarrow> rat \<Rightarrow> http_request \<Rightarrow> Route \<Rightarrow> BackendHealth \<Rightarrow> Backend list \<Rightarrow> Backend list" where
  "applySlowStart now rnd r route h out =
     (let window = wrap64 (seconds (rt_SlowStartSec route))
      in if window \<le> 0 \<or> length out < 2 then out
         else (let pref = hd out; f = rampFactorAt (be_URL pref) window now h
               in if 1 \<le> f \<or> rnd < f then out
                  else if rt_StickyCookie route \<noteq> [] \<and> Cookie r (rt_StickyCookie route) = Some (be_URL pref) then out
                  else (case slow_start_alternative now window f route h pref of
                          None \<Rightarrow> out
                        | Some alt \<Rightarrow> alt # filter (\<lambda>b. be_URL b \<noteq> be_URL alt) out)))"

text \<open>\<open>pref\<close> is the answer of the balancer.\<close>

definition failoverCandidates ::
    "go_time \<Rightarrow> rat \<Rightarrow> http_request \<Rightarrow> Route \<Rightarrow> BackendHealth \<Rightarrow> Backend option \<Rightarrow> Backend list" where
  "failoverCandidates now rnd r route h pref =
     (if rt_Backends route = [] then []
      else (let out = (case pref of
                         Some b \<Rightarrow> if IsHealthyFor now (rt_ID route) (be_URL b) h then [b] else []
                       | None \<Rightarrow> [])
            in applySlowStart now rnd r route h (add_unseen (rt_Backends route) out)))"

section \<open>Attempts\<close>

text \<open>Fail-open: when no candidate is healthy, all are tried.\<close>

definition healthyAttempts :: "(nat \<Rightarrow> go_time) \<Rightarrow> Route \<Rightarrow> BackendHealth \<Rightarrow> Backend list \<Rightarrow> Backend list" where
  "healthyAttempts clock route h candidates =
     (let attempts = map snd (filter (\<lambda>(i, b). IsHealthyFor (clock i) (rt_ID route) (be_URL b) h) (enumerate 0 candidates))
      in if attempts = [] then candidates else attempts)"

text \<open>The breaker is asked for every attempt in turn, each with its own instant.\<close>

fun allowedAttempts :: "(nat \<Rightarrow> go_time) \<Rightarrow> nat \<Rightarrow> Backend list \<Rightarrow> circuitBreaker \<Rightarrow> Backend list \<times> circuitBreaker" where
  "allowedAttempts clock i [] cb = ([], cb)"
| "allowedAttempts clock i (b # bs) cb =
     (case Allow (clock i) (be_URL b) cb of (ok, cb1) \<Rightarrow>
        case allowedAttempts clock (Suc i) bs cb1 of (rest, cb2) \<Rightarrow> (if ok then b # rest else rest, cb2))"

text \<open>
  What contacting a backend gives: its URL does not parse, the transport fails (the error handler
  records the error), or a response is relayed. \<open>doBackend\<close> is what the handler's \<open>do\<close> returns for it: an
  error page is written only when the attempt is the last one.
\<close>

datatype contact_result = BadURL transport_error | TransportFailed "transport_error option" | Answered

record attempt_outcome =
  ao_ok :: bool
  ao_responded :: bool
  ao_error :: "transport_error option"

fun doBackend :: "bool \<Rightarrow> contact_result \<Rightarrow> attempt_outcome" where
  "doBackend writeOnError (BadURL e) = \<lparr>ao_ok = False, ao_responded = False, ao_error = Some e\<rparr>"
| "doBackend writeOnError (TransportFailed e) = \<lparr>ao_ok = False, ao_responded = writeOnError, ao_error = e\<rparr>"
| "doBackend writeOnError Answered = \<lparr>ao_ok = True, ao_responded = True, ao_error = None\<rparr>"

datatype serve_result = Served Backend | ErrorWritten | BadGateway | Unavailable "int option" | ClientGone

record serve_state =
  sv_health :: BackendHealth
  sv_cb :: "circuitBreaker option"

text \<open>
  The loop of attempts. \<open>contact i b\<close> is the outcome of attempt \<open>i\<close>; \<open>gone i\<close> says that the client has
  left during the wait after it, which exists only with a retry configuration whose wait is positive.
\<close>

definition retry_wait :: "RetryConfig \<Rightarrow> nat \<Rightarrow> go_duration" where
  "retry_wait rc i =
     (let w = wrap64 (ry_InitialWait rc * wrap64 (2 ^ i)) in if ry_MaxWait rc < w then ry_MaxWait rc else w)"

definition waits_after :: "Route \<Rightarrow> nat \<Rightarrow> bool" where
  "waits_after route i = (case rt_Retry route of None \<Rightarrow> False | Some rc \<Rightarrow> 0 < retry_wait rc i)"

definition after_failure :: "go_time \<Rightarrow> Backend \<Rightarrow> attempt_outcome \<Rightarrow> serve_state \<Rightarrow> serve_state" where
  "after_failure now b out st =
     (let ttl = quarantineDuration (ao_error out)
      in st\<lparr>sv_health := (if 0 < ttl then MarkDown now (be_URL b) ttl (sv_health st) else sv_health st),
            sv_cb := map_option (RecordFailure now (be_URL b)) (sv_cb st)\<rparr>)"

definition after_success :: "go_time \<Rightarrow> Backend \<Rightarrow> serve_state \<Rightarrow> serve_state" where
  "after_success now b st =
     st\<lparr>sv_health := MarkUp now (be_URL b) (sv_health st), sv_cb := map_option (RecordSuccess (be_URL b)) (sv_cb st)\<rparr>"

fun attempt_loop ::
    "Route \<Rightarrow> (nat \<Rightarrow> go_time) \<Rightarrow> (nat \<Rightarrow> Backend \<Rightarrow> contact_result) \<Rightarrow> (nat \<Rightarrow> bool) \<Rightarrow> nat \<Rightarrow> Backend list
     \<Rightarrow> serve_state \<Rightarrow> serve_result \<times> serve_state" where
  "attempt_loop route clock contact gone i [] st = (BadGateway, st)"
| "attempt_loop route clock contact gone i (b # bs) st =
     (let out = doBackend (bs = []) (contact i b)
      in if ao_ok out then (Served b, after_success (clock i) b st)
         else (let st1 = after_failure (clock i) b out st
               in if ao_responded out then (ErrorWritten, st1)
                  else if bs \<noteq> [] \<and> waits_after route i \<and> gone i
                       then (ClientGone, st1)
                  else attempt_loop route clock contact gone (Suc i) bs st1))"

text \<open>The seconds of the \<open>Retry-After\<close> header: rounded up, at least one.\<close>

definition retry_after_secs :: "go_duration \<Rightarrow> int" where
  "retry_after_secs d = max 1 (- ((- d) div seconds 1))"

text \<open>
  From the candidates to the backends that will be attempted, or the answer 503. The instants are those
  of the health checks, of the breaker's decisions and of \<open>RetryAfter\<close>.
\<close>

record pool_clock =
  pk_health :: "nat \<Rightarrow> go_time"
  pk_allow :: "nat \<Rightarrow> go_time"
  pk_retry :: go_time

definition poolAttempts ::
    "Route \<Rightarrow> pool_clock \<Rightarrow> Backend list \<Rightarrow> serve_state \<Rightarrow> (serve_result \<times> serve_state) + (Backend list \<times> serve_state)" where
  "poolAttempts route pk candidates st =
     (if candidates = [] then Inl (Unavailable None, st)
      else (let attempts = healthyAttempts (pk_health pk) route (sv_health st) candidates
            in case sv_cb st of
                 None \<Rightarrow> Inr (attempts, st)
               | Some cb \<Rightarrow>
                   (case allowedAttempts (pk_allow pk) 0 attempts cb of (allowed, cb1) \<Rightarrow>
                      if allowed = [] then
                        (case RetryAfter (pk_retry pk) (map be_URL attempts) cb1 of (d, cb2) \<Rightarrow>
                           Inl (Unavailable (Some (retry_after_secs d)), st\<lparr>sv_cb := Some cb2\<rparr>))
                      else Inr (allowed, st\<lparr>sv_cb := Some cb1\<rparr>))))"

text \<open>A request that is not hedged.\<close>

definition servePool ::
    "Route \<Rightarrow> pool_clock \<Rightarrow> (nat \<Rightarrow> go_time) \<Rightarrow> (nat \<Rightarrow> Backend \<Rightarrow> contact_result) \<Rightarrow> (nat \<Rightarrow> bool) \<Rightarrow> Backend list
     \<Rightarrow> serve_state \<Rightarrow> serve_result \<times> serve_state" where
  "servePool route pk clock contact gone candidates st =
     (case poolAttempts route pk candidates st of
        Inl r \<Rightarrow> r
      | Inr (attempts, st1) \<Rightarrow> attempt_loop route clock contact gone 0 attempts st1)"

section \<open>Every backend is a candidate once\<close>

lemma add_unseen_urls:
  "distinct (map be_URL out) \<Longrightarrow>
   distinct (map be_URL (add_unseen bs out)) \<and> set (map be_URL (add_unseen bs out)) = set (map be_URL bs) \<union> set (map be_URL out)
   \<and> (\<exists>ys. add_unseen bs out = out @ ys)"
proof (induction bs arbitrary: out)
  case (Cons b bs)
  let ?out = "if be_URL b \<in> set (map be_URL out) then out else out @ [b]"
  have "distinct (map be_URL ?out)" using Cons.prems by auto
  from Cons.IH [OF this] show ?case by (auto split: if_splits)
qed simp

lemma slow_start_member:
  assumes "slow_start_alternative now w f route h pref = Some alt"
  shows "alt \<in> set (rt_Backends route)"
proof -
  obtain start k where k: "k < length (rt_Backends route)" and alt: "alt = rt_Backends route ! ((start + k) mod length (rt_Backends route))"
    using assms by (auto simp: slow_start_alternative_def Let_def dest!: find_SomeD)
  have "0 < length (rt_Backends route)" using k by linarith
  then show ?thesis unfolding alt by (intro nth_mem mod_less_divisor)
qed

lemma slow_start_urls:
  assumes "distinct (map be_URL out)" and "set (map be_URL out) = set (map be_URL (rt_Backends route))"
  shows "distinct (map be_URL (applySlowStart now rnd r route h out))
    \<and> set (map be_URL (applySlowStart now rnd r route h out)) = set (map be_URL (rt_Backends route))"
proof -
  have "distinct (map be_URL (alt # filter (\<lambda>b. be_URL b \<noteq> be_URL alt) out))
      \<and> set (map be_URL (alt # filter (\<lambda>b. be_URL b \<noteq> be_URL alt) out)) = set (map be_URL (rt_Backends route))"
    if "alt \<in> set (rt_Backends route)" for alt
  proof -
    have "be_URL ` set (filter (\<lambda>b. be_URL b \<noteq> be_URL alt) out) = be_URL ` set out - {be_URL alt}" by auto
    then show ?thesis using assms that by (auto simp: distinct_map_filter)
  qed
  then show ?thesis
    using assms slow_start_member by (auto simp: applySlowStart_def Let_def split: option.split)
qed

abbreviation preferred_first :: "go_time \<Rightarrow> Route \<Rightarrow> BackendHealth \<Rightarrow> Backend option \<Rightarrow> Backend list" where
  "preferred_first now route h pref \<equiv>
     (case pref of Some b \<Rightarrow> if IsHealthyFor now (rt_ID route) (be_URL b) h then [b] else [] | None \<Rightarrow> [])"

lemma failoverCandidates_urls:
  assumes "rt_Backends route \<noteq> []" and "case pref of None \<Rightarrow> True | Some b \<Rightarrow> b \<in> set (rt_Backends route)"
  shows "distinct (map be_URL (failoverCandidates now rnd r route h pref))"
    and "set (map be_URL (failoverCandidates now rnd r route h pref)) = set (map be_URL (rt_Backends route))"
    and "\<exists>ys. failoverCandidates now rnd r route h pref = applySlowStart now rnd r route h (preferred_first now route h pref @ ys)"
proof -
  let ?out = "preferred_first now route h pref"
  have "distinct (map be_URL ?out)" "set (map be_URL ?out) \<subseteq> set (map be_URL (rt_Backends route))"
    using assms(2) by (auto split: option.splits)
  then have U: "distinct (map be_URL (add_unseen (rt_Backends route) ?out))"
    "set (map be_URL (add_unseen (rt_Backends route) ?out)) = set (map be_URL (rt_Backends route))"
    "\<exists>ys. add_unseen (rt_Backends route) ?out = ?out @ ys"
    using add_unseen_urls [of ?out "rt_Backends route"] by auto
  have F: "failoverCandidates now rnd r route h pref = applySlowStart now rnd r route h (add_unseen (rt_Backends route) ?out)"
    using assms(1) by (simp add: failoverCandidates_def Let_def)
  show "distinct (map be_URL (failoverCandidates now rnd r route h pref))"
    "set (map be_URL (failoverCandidates now rnd r route h pref)) = set (map be_URL (rt_Backends route))"
    unfolding F using slow_start_urls [OF U(1,2)] by simp_all
  show "\<exists>ys. failoverCandidates now rnd r route h pref = applySlowStart now rnd r route h (?out @ ys)"
    unfolding F using U(3) by metis
qed

text \<open>
  Whatever the balancer, the health store and slow start say, the candidates of a request are the
  backends of the route, each URL exactly once: no backend is lost to failover and none is tried
  twice. Without slow start a healthy choice of the balancer comes first.
\<close>

theorem candidates_complete:
  assumes "rt_Backends route \<noteq> []" and "case pref of None \<Rightarrow> True | Some b \<Rightarrow> b \<in> set (rt_Backends route)"
  shows "distinct (map be_URL (failoverCandidates now rnd r route h pref))
    \<and> set (map be_URL (failoverCandidates now rnd r route h pref)) = set (map be_URL (rt_Backends route))
    \<and> (case pref of
         None \<Rightarrow> True
       | Some b \<Rightarrow> rt_SlowStartSec route = 0 \<longrightarrow> IsHealthyFor now (rt_ID route) (be_URL b) h
                     \<longrightarrow> hd (failoverCandidates now rnd r route h pref) = b)"
proof -
  obtain ys where "failoverCandidates now rnd r route h pref = applySlowStart now rnd r route h (preferred_first now route h pref @ ys)"
    using failoverCandidates_urls(3) [OF assms] by blast
  then have "hd (failoverCandidates now rnd r route h (Some b)) = b"
    if "pref = Some b" "rt_SlowStartSec route = 0" "IsHealthyFor now (rt_ID route) (be_URL b) h" for b
    using that by (simp add: applySlowStart_def seconds_def wrap64_def Let_def)
  then show ?thesis
    using failoverCandidates_urls(1,2) [OF assms] by (auto split: option.split)
qed

definition demo_two :: Route where
  "demo_two = zero_route\<lparr>rt_Backends := [demo_backend ''a'' 1, demo_backend ''b'' 1]\<rparr>"

theorem candidates_complete_witness:
  "hd (failoverCandidates 0 0 \<lparr>hr_cookies = []\<rparr> demo_two NewBackendHealth (Some (demo_backend ''b'' 1))) = demo_backend ''b'' 1"
  using candidates_complete [of demo_two "Some (demo_backend ''b'' 1)" 0 0 "\<lparr>hr_cookies = []\<rparr>" NewBackendHealth]
  by (simp add: demo_two_def zero_route_def IsHealthyFor_def passiveUpLocked_def NewBackendHealth_def)

section \<open>The loop of attempts\<close>

text \<open>
  An attempt ends the request when it succeeds, has answered, or the client leaves during the wait
  that follows it. The attempts of the list \<open>bs\<close> are numbered from \<open>i\<close>.
\<close>

definition attempt_outcome_at ::
    "(nat \<Rightarrow> Backend \<Rightarrow> contact_result) \<Rightarrow> nat \<Rightarrow> Backend list \<Rightarrow> nat \<Rightarrow> attempt_outcome" where
  "attempt_outcome_at contact i bs j = doBackend (Suc j = length bs) (contact (i + j) (bs ! j))"

definition ends_request ::
    "Route \<Rightarrow> (nat \<Rightarrow> Backend \<Rightarrow> contact_result) \<Rightarrow> (nat \<Rightarrow> bool) \<Rightarrow> nat \<Rightarrow> Backend list \<Rightarrow> nat \<Rightarrow> bool" where
  "ends_request route contact gone i bs j \<longleftrightarrow>
     ao_ok (attempt_outcome_at contact i bs j) \<or> ao_responded (attempt_outcome_at contact i bs j)
     \<or> (Suc j < length bs \<and> waits_after route (i + j) \<and> gone (i + j))"

text \<open>The state after the first \<open>n\<close> attempts have failed.\<close>

definition failed_run ::
    "(nat \<Rightarrow> go_time) \<Rightarrow> (nat \<Rightarrow> Backend \<Rightarrow> contact_result) \<Rightarrow> nat \<Rightarrow> Backend list \<Rightarrow> nat \<Rightarrow> serve_state \<Rightarrow> serve_state" where
  "failed_run clock contact i bs n st =
     fold (\<lambda>j. after_failure (clock (i + j)) (bs ! j) (attempt_outcome_at contact i bs j)) [0..<n] st"

definition attempts_summary ::
    "Route \<Rightarrow> (nat \<Rightarrow> go_time) \<Rightarrow> (nat \<Rightarrow> Backend \<Rightarrow> contact_result) \<Rightarrow> (nat \<Rightarrow> bool) \<Rightarrow> nat \<Rightarrow> Backend list
     \<Rightarrow> serve_state \<Rightarrow> serve_result \<times> serve_state" where
  "attempts_summary route clock contact gone i bs st =
     (case find (ends_request route contact gone i bs) [0..<length bs] of
        None \<Rightarrow> (BadGateway, failed_run clock contact i bs (length bs) st)
      | Some j \<Rightarrow>
          if ao_ok (attempt_outcome_at contact i bs j)
          then (Served (bs ! j), after_success (clock (i + j)) (bs ! j) (failed_run clock contact i bs j st))
          else (if ao_responded (attempt_outcome_at contact i bs j) then ErrorWritten else ClientGone,
                failed_run clock contact i bs (Suc j) st))"

lemma find_upt_Suc:
  "find P [0..<Suc n] = (if P 0 then Some 0 else map_option Suc (find (\<lambda>j. P (Suc j)) [0..<n]))"
proof -
  have "find P (map Suc xs) = map_option Suc (find (\<lambda>j. P (Suc j)) xs)" for xs
    by (induction xs) auto
  then show ?thesis
    by (simp add: upt_conv_Cons map_Suc_upt [symmetric] del: upt_Suc)
qed

lemma attempt_outcome_at_Cons:
  "attempt_outcome_at contact i (b # bs) 0 = doBackend (bs = []) (contact i b)"
  "attempt_outcome_at contact i (b # bs) (Suc j) = attempt_outcome_at contact (Suc i) bs j"
  by (simp_all add: attempt_outcome_at_def)

lemma failed_run_0 [simp]: "failed_run clock contact i bs 0 st = st"
  by (simp add: failed_run_def)

lemma failed_run_Suc:
  "failed_run clock contact i (b # bs) (Suc n) st
     = failed_run clock contact (Suc i) bs n (after_failure (clock i) b (doBackend (bs = []) (contact i b)) st)"
  by (simp add: failed_run_def upt_conv_Cons map_Suc_upt [symmetric] fold_map comp_def attempt_outcome_at_Cons del: upt_Suc)

lemma ends_request_Suc:
  "ends_request route contact gone i (b # bs) (Suc j) = ends_request route contact gone (Suc i) bs j"
  by (simp add: ends_request_def attempt_outcome_at_Cons)

lemma ends_request_0:
  "ends_request route contact gone i (b # bs) 0 \<longleftrightarrow>
     ao_ok (doBackend (bs = []) (contact i b)) \<or> ao_responded (doBackend (bs = []) (contact i b))
     \<or> (bs \<noteq> [] \<and> waits_after route i \<and> gone i)"
  by (simp add: ends_request_def attempt_outcome_at_Cons)

lemma attempts_summary_continue:
  assumes "\<not> ends_request route contact gone i (b # bs) 0"
  shows "attempts_summary route clock contact gone i (b # bs) st
     = attempts_summary route clock contact gone (Suc i) bs (after_failure (clock i) b (doBackend (bs = []) (contact i b)) st)"
  using assms
  by (simp add: attempts_summary_def find_upt_Suc ends_request_Suc failed_run_Suc attempt_outcome_at_Cons
           del: upt_Suc split: option.split)

lemma attempts_summary_stop:
  assumes "ends_request route contact gone i (b # bs) 0"
  shows "attempts_summary route clock contact gone i (b # bs) st
     = (let out = doBackend (bs = []) (contact i b)
        in if ao_ok out then (Served b, after_success (clock i) b st)
           else (if ao_responded out then ErrorWritten else ClientGone, after_failure (clock i) b out st))"
  using assms by (simp add: attempts_summary_def find_upt_Suc failed_run_Suc attempt_outcome_at_Cons Let_def del: upt_Suc)


text \<open>
  A pool is answered with 503 exactly when it has no candidate or the breaker refuses every attempt;
  in the second case the client is told a wait of at least one second. In particular unhealthy backends
  alone never cause it: when no candidate is healthy all of them are attempted.
\<close>

theorem unavailable_iff:
  "(\<exists>secs st'. servePool route pk clock contact gone candidates st = (Unavailable secs, st')) \<longleftrightarrow>
     candidates = [] \<or>
     (\<exists>cb. sv_cb st = Some cb
         \<and> fst (allowedAttempts (pk_allow pk) 0 (healthyAttempts (pk_health pk) route (sv_health st) candidates) cb) = [])"
proof -
  have "fst (attempt_loop route clock contact gone i bs s) \<noteq> Unavailable secs" for i bs s secs
    by (induction bs arbitrary: i s) (auto simp: Let_def)
  then have no: "attempt_loop route clock contact gone i bs s \<noteq> (Unavailable secs, s')" for i bs s secs s'
    by (metis fst_conv)
  show ?thesis
    by (cases "sv_cb st") (auto simp: servePool_def poolAttempts_def Let_def no split: prod.split)
qed

text \<open>The attempts are candidates, and there is at least one.\<close>

lemma healthyAttempts_subset: "set (healthyAttempts ck route h cs) \<subseteq> set cs"
  by (auto simp: healthyAttempts_def Let_def enumerate_eq_zip dest: set_zip_rightD)

lemma allowedAttempts_subset: "set (fst (allowedAttempts ck i bs cb)) \<subseteq> set bs"
  by (induction bs arbitrary: i cb) (auto simp: split_beta)

lemma poolAttempts_candidates:
  assumes "poolAttempts route pk candidates st = Inr (attempts, st1)"
  shows "attempts \<noteq> [] \<and> set attempts \<subseteq> set candidates"
proof (cases "sv_cb st")
  case None
  then show ?thesis
    using assms healthyAttempts_subset [of "pk_health pk" route "sv_health st" candidates]
    by (auto simp: poolAttempts_def Let_def healthyAttempts_def split: if_splits)
next
  case (Some cb)
  then show ?thesis
    using assms healthyAttempts_subset [of "pk_health pk" route "sv_health st" candidates]
      allowedAttempts_subset [of "pk_allow pk" 0 "healthyAttempts (pk_health pk) route (sv_health st) candidates" cb]
    by (auto simp: poolAttempts_def Let_def split: if_splits prod.splits)
qed

section \<open>Two observations on the code\<close>

text \<open>The number of attempts of the retry configuration is never read: the attempts are the backends of the pool.\<close>

lemma retry_attempts_unused:
  "servePool (route\<lparr>rt_Retry := map_option (ry_Attempts_update (\<lambda>_. n)) (rt_Retry route)\<rparr>) pk clock contact gone candidates st
     = servePool route pk clock contact gone candidates st"
proof -
  let ?r = "route\<lparr>rt_Retry := map_option (ry_Attempts_update (\<lambda>_. n)) (rt_Retry route)\<rparr>"
  have W: "waits_after ?r i = waits_after route i" for i
    by (simp add: waits_after_def retry_wait_def Let_def split: option.split)
  have "attempt_loop ?r clock contact gone i bs s = attempt_loop route clock contact gone i bs s" for i bs s
    by (induction bs arbitrary: i s) (simp_all add: Let_def W)
  moreover have "poolAttempts ?r pk candidates st = poolAttempts route pk candidates st"
    by (simp add: poolAttempts_def healthyAttempts_def)
  ultimately show ?thesis by (simp add: servePool_def split: sum.split prod.split)
qed

text \<open>
  The breaker is asked for every candidate before the first one is contacted, so a backend whose outage
  is over spends its only probe on a request that another backend serves, and is refused again until
  the timeout of that probe.
\<close>

definition demo_breaker :: circuitBreaker where
  "demo_breaker =
     \<lparr>cb_cfg = \<lparr>cb_Threshold = 1, cb_Timeout = 30\<rparr>,
      cb_backends = [(''b'', \<lparr>cs_failures = 1, cs_state = CbOpen, cs_openUntil = 50, cs_probeUntil = 0\<rparr>)]\<rparr>"

definition demo_served :: "serve_result \<times> serve_state" where
  "demo_served =
     servePool demo_two \<lparr>pk_health = \<lambda>_. 100, pk_allow = \<lambda>_. 100, pk_retry = 100\<rparr> (\<lambda>_. 100) (\<lambda>_ _. Answered) (\<lambda>_. False) (rt_Backends demo_two)
       \<lparr>sv_health = NewBackendHealth, sv_cb = Some demo_breaker\<rparr>"

lemma probe_lost:
  "fst demo_served = Served (demo_backend ''a'' 1)
   \<and> map_option (\<lambda>cb. fst (Allow 120 ''b'' cb)) (sv_cb (snd demo_served)) = Some False"
  by (simp add: demo_served_def demo_breaker_def servePool_def poolAttempts_def healthyAttempts_def demo_two_def zero_route_def
      IsHealthyFor_def passiveUpLocked_def NewBackendHealth_def Allow_def cb_get_def cb_put_def
      after_success_def RecordSuccess_def MarkUp_def Let_def demo_backend_def anyProbeDownLocked_def getOrCreateLocked_def
      zero_cbBackend_def zero_time_def)

end
