(* ===== verification/Hedge.thy ===== *)
theory Hedge
  imports Failover
begin

text \<open>
  Hedged requests (\<open>internal/edge/proxy/hedge.go\<close>): the same request goes to a second backend when the
  first has not started to answer after a delay, and the first answer wins. The attempts run
  concurrently; an execution is a sequence of events, each of them one atomic step of a goroutine: a
  write of an attempt to its gate, the end of an attempt, the timer, and the receipt of a result by the
  loop of \<open>serveHedged\<close>. An event that is not possible in a state leaves it unchanged.
\<close>

datatype hedgeGate = GateOpen | GateWon | GateLost

text \<open>How the goroutine of an attempt ends: \<open>do\<close> has returned, or it has panicked.\<close>

datatype attempt_end = DoReturned contact_result | DoPanicked

datatype hedge_exit = HedgeReturned bool | HedgeAborted

record hedge =
  hg_started :: nat
  hg_inFlight :: nat
  hg_running :: "nat list"
  hg_gates :: "hedgeGate list"
  hg_winner :: "nat option"
  hg_results :: "(nat \<times> attempt_end) list"
  hg_timer :: bool
  hg_written :: "nat list"
  hg_serve :: serve_state
  hg_exit :: "hedge_exit option"

text \<open>\<open>hg_written\<close> records the attempts whose bytes have reached the client, in order.\<close>

definition maxStarts :: "HedgeConfig \<Rightarrow> int" where
  "maxStarts hc = 1 + max (hg_MaxExtra hc) 1"

definition launch :: "hedge \<Rightarrow> hedge" where
  "launch h = h\<lparr>hg_running := hg_running h @ [hg_started h], hg_gates := hg_gates h @ [GateOpen],
                hg_started := hg_started h + 1, hg_inFlight := hg_inFlight h + 1\<rparr>"

definition WriteHeader :: "nat \<Rightarrow> hedge \<Rightarrow> hedge" where
  "WriteHeader i h =
     (if hg_gates h ! i = GateWon \<or> hg_gates h ! i = GateLost then h
      else if hg_winner h \<noteq> None then h\<lparr>hg_gates := (hg_gates h)[i := GateLost]\<rparr>
      else h\<lparr>hg_winner := Some i, hg_gates := (hg_gates h)[i := GateWon], hg_written := hg_written h @ [i]\<rparr>)"

definition gateWrite :: "nat \<Rightarrow> hedge \<Rightarrow> hedge" where
  "gateWrite i h0 =
     (let h = (if hg_gates h0 ! i \<noteq> GateWon \<and> hg_gates h0 ! i \<noteq> GateLost then WriteHeader i h0 else h0)
      in if hg_gates h ! i = GateLost then h else h\<lparr>hg_written := hg_written h @ [i]\<rparr>)"

definition serveHedged_start :: "serve_state \<Rightarrow> hedge" where
  "serveHedged_start st =
     (launch \<lparr>hg_started = 0, hg_inFlight = 0, hg_running = [], hg_gates = [], hg_winner = None, hg_results = [],
              hg_timer = False, hg_written = [], hg_serve = st, hg_exit = None\<rparr>)\<lparr>hg_timer := True\<rparr>"

definition can_start :: "Backend list \<Rightarrow> HedgeConfig \<Rightarrow> hedge \<Rightarrow> bool" where
  "can_start attempts hc h \<longleftrightarrow> hg_started h < length attempts \<and> int (hg_started h) < maxStarts hc"

definition on_timer :: "Backend list \<Rightarrow> HedgeConfig \<Rightarrow> hedge \<Rightarrow> hedge" where
  "on_timer attempts hc h0 =
     (let h = h0\<lparr>hg_timer := False\<rparr>
      in if can_start attempts hc h
         then (let h1 = launch h in if can_start attempts hc h1 then h1\<lparr>hg_timer := True\<rparr> else h1)
         else h)"

definition end_outcome :: "attempt_end \<Rightarrow> attempt_outcome" where
  "end_outcome e = (case e of DoReturned c \<Rightarrow> doBackend False c | DoPanicked \<Rightarrow> \<lparr>ao_ok = False, ao_responded = False, ao_error = None\<rparr>)"

text \<open>The condition of the loop, tested after each turn.\<close>

definition loop_test :: "hedge \<Rightarrow> hedge" where
  "loop_test h = (if hg_inFlight h = 0 then h\<lparr>hg_exit := Some (HedgeReturned (hg_winner h \<noteq> None))\<rparr> else h)"

definition on_result :: "Backend list \<Rightarrow> go_time \<Rightarrow> bool \<Rightarrow> nat \<Rightarrow> attempt_end \<Rightarrow> hedge \<Rightarrow> hedge" where
  "on_result attempts now gone i e h0 =
     (let h = h0\<lparr>hg_inFlight := hg_inFlight h0 - 1\<rparr>; out = end_outcome e; b = attempts ! i
      in case hg_gates h ! i of
           GateWon \<Rightarrow>
             if e = DoPanicked then h\<lparr>hg_exit := Some HedgeAborted\<rparr>
             else h\<lparr>hg_serve := (if ao_ok out then after_success now b (hg_serve h) else hg_serve h),
                    hg_exit := Some (HedgeReturned True)\<rparr>
         | GateLost \<Rightarrow> loop_test h
         | GateOpen \<Rightarrow>
             (let h1 = h\<lparr>hg_serve := after_failure now b out (hg_serve h)\<rparr>
              in loop_test (if hg_inFlight h1 = 0 \<and> hg_started h1 < length attempts \<and> \<not> gone then launch h1 else h1)))"

datatype hedge_event =
    AttemptHeader nat
  | AttemptWrite nat
  | AttemptEnd nat attempt_end
  | Timer
  | Result go_time bool

fun hedge_step :: "Backend list \<Rightarrow> HedgeConfig \<Rightarrow> hedge_event \<Rightarrow> hedge \<Rightarrow> hedge" where
  "hedge_step attempts hc (AttemptHeader i) h = (if i \<in> set (hg_running h) then WriteHeader i h else h)"
| "hedge_step attempts hc (AttemptWrite i) h = (if i \<in> set (hg_running h) then gateWrite i h else h)"
| "hedge_step attempts hc (AttemptEnd i e) h =
     (if i \<in> set (hg_running h)
      then h\<lparr>hg_running := filter (\<lambda>j. j \<noteq> i) (hg_running h), hg_results := hg_results h @ [(i, e)]\<rparr> else h)"
| "hedge_step attempts hc Timer h = (if hg_exit h = None \<and> hg_timer h then on_timer attempts hc h else h)"
| "hedge_step attempts hc (Result now gone) h =
     (case hg_results h of
        [] \<Rightarrow> h
      | (i, e) # rs \<Rightarrow> if hg_exit h = None then on_result attempts now gone i e (h\<lparr>hg_results := rs\<rparr>) else h)"

definition hedge_run :: "Backend list \<Rightarrow> HedgeConfig \<Rightarrow> hedge_event list \<Rightarrow> serve_state \<Rightarrow> hedge" where
  "hedge_run attempts hc evs st = fold (hedge_step attempts hc) evs (serveHedged_start st)"

section \<open>Invariant\<close>

text \<open>
  The attempts not yet accounted for are exactly those in flight; a gate is won only by the winner, lost
  only when there is one, and the winner stays in flight until the loop ends.
\<close>

definition in_flight :: "hedge \<Rightarrow> nat list" where
  "in_flight h = hg_running h @ map fst (hg_results h)"

definition hedge_core :: "nat \<Rightarrow> hedge \<Rightarrow> bool" where
  "hedge_core n h \<longleftrightarrow>
     length (hg_gates h) = hg_started h \<and> hg_started h \<le> n \<and>
     distinct (in_flight h) \<and> set (in_flight h) \<subseteq> {..<hg_started h} \<and>
     (hg_exit h = None \<longrightarrow> hg_inFlight h = length (in_flight h)) \<and>
     (\<forall>i < hg_started h. hg_gates h ! i = GateWon \<longleftrightarrow> hg_winner h = Some i) \<and>
     (\<forall>i < hg_started h. hg_gates h ! i = GateLost \<longrightarrow> hg_winner h \<noteq> None) \<and>
     (\<forall>w. hg_winner h = Some w \<longrightarrow> w < hg_started h \<and> (hg_exit h = None \<longrightarrow> w \<in> set (in_flight h))) \<and>
     set (hg_written h) = set_option (hg_winner h)"

definition exit_ok :: "hedge \<Rightarrow> bool" where
  "exit_ok h \<longleftrightarrow>
     (case hg_exit h of
        None \<Rightarrow> 0 < hg_inFlight h
      | Some (HedgeReturned False) \<Rightarrow> hg_winner h = None \<and> in_flight h = []
      | Some _ \<Rightarrow> hg_winner h \<noteq> None)"

abbreviation hedge_ok :: "nat \<Rightarrow> hedge \<Rightarrow> bool" where
  "hedge_ok n h \<equiv> hedge_core n h \<and> exit_ok h"

lemma hedge_ok_start: "0 < n \<Longrightarrow> hedge_ok n (serveHedged_start st)"
  by (simp add: hedge_core_def exit_ok_def serveHedged_start_def launch_def in_flight_def)

lemma hedge_core_frame [simp]:
  "hedge_core n (h\<lparr>hg_timer := t\<rparr>) = hedge_core n h"
  "hedge_core n (h\<lparr>hg_serve := s\<rparr>) = hedge_core n h"
  by (simp_all add: hedge_core_def in_flight_def)

lemma hedge_core_launch:
  assumes "hedge_core n h" and "hg_started h < n"
  shows "hedge_core n (launch h)"
proof -
  have "hg_started h \<notin> set (in_flight h)" using assms(1) by (auto simp: hedge_core_def)
  moreover have "hg_winner h \<noteq> Some (hg_started h)" using assms(1) by (auto simp: hedge_core_def)
  ultimately show ?thesis
    using assms by (auto simp: hedge_core_def launch_def in_flight_def nth_append less_Suc_eq)
qed

lemma launch_exit [simp]: "hg_exit (launch h) = hg_exit h" "hg_winner (launch h) = hg_winner h" "0 < hg_inFlight (launch h)"
  by (simp_all add: launch_def)

lemma hedge_ok_loop_test:
  assumes "hedge_core n h" and "hg_exit h = None"
  shows "hedge_ok n (loop_test h)"
proof (cases "hg_inFlight h = 0")
  case True
  then have "in_flight h = []" "hg_winner h = None"
    using assms by (auto simp: hedge_core_def)
  then show ?thesis
    using True assms by (auto simp: loop_test_def hedge_core_def exit_ok_def in_flight_def)
next
  case False
  then show ?thesis using assms by (simp add: loop_test_def exit_ok_def)
qed

lemma hedge_core_WriteHeader:
  assumes "hedge_core n h" and "i \<in> set (hg_running h)"
  shows "hedge_core n (WriteHeader i h)"
proof -
  have "i < hg_started h" "i \<in> set (in_flight h)" using assms by (auto simp: hedge_core_def in_flight_def)
  then show ?thesis
    using assms by (auto simp: hedge_core_def WriteHeader_def in_flight_def nth_list_update)
qed

lemma WriteHeader_frame [simp]:
  "hg_exit (WriteHeader i h) = hg_exit h" "hg_inFlight (WriteHeader i h) = hg_inFlight h"
  "in_flight (WriteHeader i h) = in_flight h" "hg_running (WriteHeader i h) = hg_running h"
  by (simp_all add: WriteHeader_def in_flight_def)

text \<open>An attempt still running contradicts an end without winner, so a write keeps the exit clauses.\<close>

lemma exit_ok_WriteHeader:
  assumes "exit_ok h" and "i \<in> set (hg_running h)"
  shows "exit_ok (WriteHeader i h)"
proof -
  have "in_flight h \<noteq> []" using assms(2) by (auto simp: in_flight_def)
  then show ?thesis
    using assms(1) by (auto simp: exit_ok_def WriteHeader_def in_flight_def split: option.splits hedge_exit.splits bool.splits)
qed

lemma hedge_ok_written:
  "hedge_ok n h \<Longrightarrow> hg_winner h = Some i \<Longrightarrow> hedge_ok n (h\<lparr>hg_written := hg_written h @ [i]\<rparr>)"
  by (auto simp: hedge_core_def exit_ok_def in_flight_def split: option.splits hedge_exit.splits bool.splits)

lemma hedge_ok_gateWrite:
  assumes "hedge_ok n h" and "i \<in> set (hg_running h)"
  shows "hedge_ok n (gateWrite i h)"
proof -
  let ?h = "if hg_gates h ! i \<noteq> GateWon \<and> hg_gates h ! i \<noteq> GateLost then WriteHeader i h else h"
  have ok: "hedge_ok n ?h" and run: "hg_running ?h = hg_running h"
    using assms hedge_core_WriteHeader exit_ok_WriteHeader by auto
  have lt: "i < hg_started ?h" using ok assms(2) run by (auto simp: hedge_core_def in_flight_def)
  show ?thesis
  proof (cases "hg_gates ?h ! i = GateLost")
    case True
    then show ?thesis using ok by (simp add: gateWrite_def)
  next
    case False
    have len: "i < length (hg_gates h)" using assms by (auto simp: hedge_core_def in_flight_def)
    have "hg_gates ?h ! i = GateWon"
      using False len by (cases "hg_gates h ! i") (auto simp: WriteHeader_def split: if_splits)
    then have w: "hg_winner ?h = Some i" using ok lt by (simp add: hedge_core_def)
    have "gateWrite i h = ?h\<lparr>hg_written := hg_written ?h @ [i]\<rparr>"
      using False by (simp only: gateWrite_def Let_def if_False)
    moreover have "hedge_ok n (?h\<lparr>hg_written := hg_written ?h @ [i]\<rparr>)"
      using hedge_ok_written [OF ok w] .
    ultimately show ?thesis by simp
  qed
qed

lemma hedge_ok_end:
  assumes "hedge_ok n h" and "i \<in> set (hg_running h)"
  shows "hedge_ok n (h\<lparr>hg_running := filter (\<lambda>j. j \<noteq> i) (hg_running h), hg_results := hg_results h @ [(i, e)]\<rparr>)"
proof -
  have d: "distinct (hg_running h)" using assms by (auto simp: hedge_core_def in_flight_def)
  have "filter (\<lambda>j. j \<noteq> i) xs = remove1 i xs" if "distinct xs" for xs :: "nat list"
    using that by (induction xs) (auto simp: filter_id_conv)
  then have "length (filter (\<lambda>j. j \<noteq> i) (hg_running h)) + 1 = length (hg_running h)"
    using d assms(2) length_pos_if_in_set [OF assms(2)] by (simp add: length_remove1)
  moreover have "in_flight h \<noteq> []" using assms(2) by (auto simp: in_flight_def)
  ultimately show ?thesis
    using assms by (auto simp: hedge_core_def exit_ok_def in_flight_def split: option.splits hedge_exit.splits bool.splits)
qed

lemma hedge_ok_timer:
  assumes "hedge_ok (length attempts) h" and "hg_exit h = None"
  shows "hedge_ok (length attempts) (on_timer attempts hc h)"
proof -
  have "hedge_core (length attempts) (launch (h\<lparr>hg_timer := False\<rparr>))" if "can_start attempts hc (h\<lparr>hg_timer := False\<rparr>)"
    using assms that by (intro hedge_core_launch) (simp_all add: can_start_def)
  then show ?thesis
    using assms by (auto simp: on_timer_def Let_def exit_ok_def)
qed

text \<open>Receiving a result takes its attempt out of flight.\<close>

lemma hedge_core_receive:
  assumes "hedge_core n h" and "hg_results h = (i, e) # rs" and "hg_exit h = None" and "hg_winner h \<noteq> Some i"
  shows "hedge_core n (h\<lparr>hg_results := rs, hg_inFlight := hg_inFlight h - 1\<rparr>)"
  using assms by (auto simp: hedge_core_def in_flight_def)

lemma hedge_core_leave:
  assumes "hedge_core n h" and "hg_results h = (i, e) # rs"
  shows "hedge_core n (h\<lparr>hg_results := rs, hg_inFlight := m, hg_serve := s, hg_exit := Some x\<rparr>)"
    and "hedge_core n (h\<lparr>hg_results := rs, hg_inFlight := m, hg_exit := Some x\<rparr>)"
  using assms by (auto simp: hedge_core_def in_flight_def)

lemma hedge_ok_result:
  assumes "hedge_ok (length attempts) h" and res: "hg_results h = (i, e) # rs" and "hg_exit h = None"
  shows "hedge_ok (length attempts) (on_result attempts now gone i e (h\<lparr>hg_results := rs\<rparr>))"
proof -
  let ?h = "h\<lparr>hg_results := rs, hg_inFlight := hg_inFlight h - 1\<rparr>"
  have core: "hedge_core (length attempts) h" and lt: "i < hg_started h"
    using assms by (auto simp: hedge_core_def in_flight_def)
  show ?thesis
  proof (cases "hg_gates h ! i = GateWon")
    case True
    then have "hg_winner h = Some i" using core lt by (simp add: hedge_core_def)
    then show ?thesis
      using True hedge_core_leave [OF core res] by (simp add: on_result_def Let_def exit_ok_def)
  next
    case False
    then have "hg_winner h \<noteq> Some i" using core lt by (auto simp: hedge_core_def)
    then have rec: "hedge_core (length attempts) ?h" by (rule hedge_core_receive [OF core res assms(3)])
    let ?f = "?h\<lparr>hg_serve := after_failure now (attempts ! i) (end_outcome e) (hg_serve h)\<rparr>"
    let ?g = "if hg_inFlight ?f = 0 \<and> hg_started ?f < length attempts \<and> \<not> gone then launch ?f else ?f"
    have "hedge_core (length attempts) ?f" using rec by simp
    then have "hedge_core (length attempts) ?g" using hedge_core_launch by auto
    moreover have "hg_exit ?g = None" using assms(3) by simp
    ultimately have g: "hedge_ok (length attempts) (loop_test ?g)" by (rule hedge_ok_loop_test)
    have l: "hedge_ok (length attempts) (loop_test ?h)" using rec assms(3) by (intro hedge_ok_loop_test) simp_all
    have "on_result attempts now gone i e (h\<lparr>hg_results := rs\<rparr>) = (if hg_gates h ! i = GateLost then loop_test ?h else loop_test ?g)"
      using False by (cases "hg_gates h ! i") (simp_all add: on_result_def Let_def)
    then show ?thesis using g l by (simp only: simp_thms split: if_split)
  qed
qed

lemma hedge_ok_step:
  assumes "hedge_ok (length attempts) h"
  shows "hedge_ok (length attempts) (hedge_step attempts hc ev h)"
proof (cases ev)
  case (AttemptHeader i)
  then show ?thesis using assms hedge_core_WriteHeader [of "length attempts" h i] exit_ok_WriteHeader [of h i] by simp
next
  case (AttemptWrite i)
  then show ?thesis using assms hedge_ok_gateWrite [of "length attempts" h i] by simp
next
  case (AttemptEnd i e)
  then show ?thesis using assms hedge_ok_end [of "length attempts" h i e] by simp
next
  case Timer
  then show ?thesis using assms hedge_ok_timer [of attempts h hc] by simp
next
  case (Result now gone)
  show ?thesis
  proof (cases "hg_results h")
    case Nil
    then show ?thesis using assms Result by simp
  next
    case (Cons r rs)
    obtain i e where "r = (i, e)" by (cases r)
    then show ?thesis using assms Result Cons hedge_ok_result [of attempts h i e rs now gone] by simp
  qed
qed

lemma hedge_ok_run:
  assumes "attempts \<noteq> []"
  shows "hedge_ok (length attempts) (hedge_run attempts hc evs st)"
proof -
  have "hedge_ok (length attempts) (fold (hedge_step attempts hc) evs h)" if "hedge_ok (length attempts) h" for h
    using that by (induction evs arbitrary: h) (simp_all add: hedge_ok_step)
  then show ?thesis
    using hedge_ok_start [of "length attempts" st] assms by (simp add: hedge_run_def)
qed

text \<open>
  C8: whatever the interleaving of the attempts, the timer and the loop, the bytes the client receives
  come from one attempt only, and no attempt is started twice or beyond the list. The hedged request
  reports failure only when nothing has been written and no attempt is still running, so that the caller
  may write its own error; it reports success or aborts only when an attempt has answered. Until it ends,
  an attempt is running or its result is waiting, so it never waits for nothing.
\<close>

theorem hedge_single_writer:
  assumes "poolAttempts route pk candidates st = Inr (attempts, st1)" and "h = hedge_run attempts hc evs st1"
  shows "(\<exists>w. set (hg_written h) \<subseteq> {w}) \<and> hg_started h \<le> length attempts
    \<and> (case hg_exit h of
         None \<Rightarrow> hg_running h \<noteq> [] \<or> hg_results h \<noteq> []
       | Some (HedgeReturned False) \<Rightarrow> hg_written h = [] \<and> hg_running h = []
       | Some _ \<Rightarrow> hg_written h \<noteq> [])"
proof -
  have ok: "hedge_ok (length attempts) h"
    unfolding assms(2) by (rule hedge_ok_run) (use poolAttempts_candidates [OF assms(1)] in simp)
  have "set (hg_written h) \<subseteq> {the (hg_winner h)}" using ok by (auto simp: hedge_core_def)
  moreover have "hg_winner h \<noteq> None \<Longrightarrow> hg_written h \<noteq> []" using ok by (auto simp: hedge_core_def)
  ultimately show ?thesis
    using ok by (auto simp: hedge_core_def exit_ok_def in_flight_def split: option.splits hedge_exit.splits bool.splits)
qed

definition demo_hedge :: "hedge_event list" where
  "demo_hedge = [Timer, AttemptHeader 1, AttemptWrite 0, AttemptWrite 1, AttemptEnd 0 DoPanicked, Result 0 False]"

theorem hedge_single_writer_witness:
  "\<exists>w. set (hg_written (hedge_run (rt_Backends demo_two) \<lparr>hg_DelayMs = 5, hg_MaxExtra = 0\<rparr> demo_hedge
      \<lparr>sv_health = NewBackendHealth, sv_cb = None\<rparr>)) \<subseteq> {w}"
  using hedge_single_writer [of demo_two "\<lparr>pk_health = \<lambda>_. 0, pk_allow = \<lambda>_. 0, pk_retry = 0\<rparr>" "rt_Backends demo_two"
      "\<lparr>sv_health = NewBackendHealth, sv_cb = None\<rparr>" "rt_Backends demo_two" "\<lparr>sv_health = NewBackendHealth, sv_cb = None\<rparr>"
      _ "\<lparr>hg_DelayMs = 5, hg_MaxExtra = 0\<rparr>" demo_hedge, OF _ refl]
  by (simp add: poolAttempts_def healthyAttempts_def demo_two_def zero_route_def IsHealthyFor_def passiveUpLocked_def NewBackendHealth_def)

end
