(* ===== verification/Dispatch.thy ===== *)
theory Dispatch
  imports Hedge
begin

text \<open>
  The front of the reverse proxy (\<open>internal/edge/proxy/handler.go\<close>): what \<open>ServeHTTP\<close> decides about a
  request before the pool of backends is used. A request is refused, sent to the backend of a matching
  condition, to the canary, to a variant of a split, or to the pool. Regular expressions are an argument
  (\<open>compile\<close> and \<open>matchString\<close>), as are the random draws; the mirror of the traffic does not influence
  the decision and is left out. \<open>strings.EqualFold\<close> is its ASCII path.
\<close>

section \<open>Requests\<close>

text \<open>The value of a validated JWT claim; a number is given by its decimal text.\<close>

datatype claim = ClaimString string | ClaimBool bool | ClaimNumber string | ClaimList "claim list" | ClaimOther

record proxy_request = http_request +
  pq_Method :: string
  pq_Header :: "(string, string list) gomap"
  pq_Query :: "(string, string list) gomap"
  pq_ContentLength :: int
  pq_TransferEncoding :: "string list"
  pq_Claims :: "(string, claim) gomap"

text \<open>\<open>textproto.CanonicalMIMEHeaderKey\<close>.\<close>

definition token_char :: "char \<Rightarrow> bool" where
  "token_char c \<longleftrightarrow>
     (let n = (of_char c :: nat)
      in 48 \<le> n \<and> n \<le> 57 \<or> 65 \<le> n \<and> n \<le> 90 \<or> 97 \<le> n \<and> n \<le> 122 \<or> c \<in> set ''!#$%&*+-.^_|~'' \<or> n = 39 \<or> n = 96)"

definition upper_char :: "char \<Rightarrow> char" where
  "upper_char c = (if 97 \<le> (of_char c :: nat) \<and> (of_char c :: nat) \<le> 122 then char_of ((of_char c :: nat) - 32) else c)"

fun canonical_from :: "bool \<Rightarrow> string \<Rightarrow> string" where
  "canonical_from upper [] = []"
| "canonical_from upper (c # s) = (if upper then upper_char c else lower_char c) # canonical_from (c = CHR ''-'') s"

definition CanonicalHeaderKey :: "string \<Rightarrow> string" where
  "CanonicalHeaderKey s = (if list_all token_char s then canonical_from True s else s)"

definition first_value :: "(string, string list) gomap \<Rightarrow> string \<Rightarrow> string" where
  "first_value m k = (case gm_get m k of Some (v # vs) \<Rightarrow> v | _ \<Rightarrow> [])"

definition Header_Get :: "proxy_request \<Rightarrow> string \<Rightarrow> string" where
  "Header_Get r name = first_value (pq_Header r) (CanonicalHeaderKey name)"

definition EqualFold :: "string \<Rightarrow> string \<Rightarrow> bool" where
  "EqualFold s t \<longleftrightarrow> ToLower s = ToLower t"

definition req_Cookie :: "proxy_request \<Rightarrow> string \<Rightarrow> string option" where
  "req_Cookie r = Cookie (http_request.truncate r)"

definition isUpgrade :: "proxy_request \<Rightarrow> bool" where
  "isUpgrade r \<longleftrightarrow> EqualFold (Header_Get r ''Upgrade'') ''websocket''"

definition isGRPC :: "proxy_request \<Rightarrow> bool" where
  "isGRPC r \<longleftrightarrow> HasPrefix (Header_Get r ''Content-Type'') ''application/grpc''"

definition bodyTooLarge :: "Route \<Rightarrow> proxy_request \<Rightarrow> bool" where
  "bodyTooLarge route r \<longleftrightarrow> (let limit = EffectiveMaxBodySize route in 0 < limit \<and> limit < pq_ContentLength r)"

fun originAllowed :: "string \<Rightarrow> string list \<Rightarrow> bool" where
  "originAllowed origin [] = False"
| "originAllowed origin (a # allowed) =
     (if a = ''*'' then originAllowed origin allowed else if a = origin then True else originAllowed origin allowed)"

text \<open>A request with an \<open>Origin\<close> that the route's list does not have.\<close>

definition foreignOrigin :: "Route \<Rightarrow> proxy_request \<Rightarrow> bool" where
  "foreignOrigin route r =
     (case rt_CORS route of
        None \<Rightarrow> False
      | Some c \<Rightarrow> cors_AllowedOrigins c \<noteq> [] \<and>
          (case gm_get (pq_Header r) ''Origin'' of None \<Rightarrow> False | Some vs \<Rightarrow> \<not> originAllowed (hd vs) (cors_AllowedOrigins c)))"

section \<open>Conditions and canary\<close>

fun claimValues :: "claim \<Rightarrow> string list" where
  "claimValues (ClaimString s) = [s]"
| "claimValues (ClaimBool b) = [if b then ''true'' else ''false'']"
| "claimValues (ClaimNumber s) = [s]"
| "claimValues (ClaimList cs) = concat (map claimValues cs)"
| "claimValues ClaimOther = []"

definition compileConditionRegexes :: "(string \<Rightarrow> 're option) \<Rightarrow> Route \<Rightarrow> 're option list" where
  "compileConditionRegexes compile route =
     map (\<lambda>c. if \<not> cond_Regex c \<or> cond_Value c = [] then None else compile (cond_Value c)) (rt_Conditions route)"

definition conditionMatches :: "('re \<Rightarrow> string \<Rightarrow> bool) \<Rightarrow> Condition \<Rightarrow> 're option \<Rightarrow> proxy_request \<Rightarrow> bool" where
  "conditionMatches matchString c re r =
     (let test = (\<lambda>actual. if cond_Regex c then (case re of None \<Rightarrow> False | Some e \<Rightarrow> matchString e actual) else actual = cond_Value c)
      in if cond_Type c = ''jwt_claim'' then
           list_ex test (case gm_get (pq_Claims r) (cond_Name c) of None \<Rightarrow> [] | Some v \<Rightarrow> claimValues v)
         else if cond_Type c = ''header'' then test (Header_Get r (cond_Name c))
         else if cond_Type c = ''cookie'' then test (case req_Cookie r (cond_Name c) of None \<Rightarrow> [] | Some v \<Rightarrow> v)
         else if cond_Type c = ''query'' then test (first_value (pq_Query r) (cond_Name c))
         else if cond_Type c = ''method'' then test (pq_Method r)
         else False)"

definition matchCondition :: "('re \<Rightarrow> string \<Rightarrow> bool) \<Rightarrow> Condition list \<Rightarrow> 're option list \<Rightarrow> proxy_request \<Rightarrow> string" where
  "matchCondition matchString conds res r =
     (case find (\<lambda>i. conditionMatches matchString (conds ! i) (if i < length res then res ! i else None) r) [0..<length conds] of
        None \<Rightarrow> []
      | Some i \<Rightarrow> cond_Backend (conds ! i))"

text \<open>\<open>draw\<close> is the answer of \<open>rand.Intn(100)\<close>.\<close>

definition isCanary :: "CanaryConfig \<Rightarrow> proxy_request \<Rightarrow> int \<Rightarrow> bool" where
  "isCanary c r draw \<longleftrightarrow>
     (ca_Header c \<noteq> [] \<and> (let v = Header_Get r (ca_Header c) in v \<noteq> [] \<and> (ca_HeaderValue c = [] \<or> v = ca_HeaderValue c)))
     \<or> (ca_CookieName c \<noteq> [] \<and> (case req_Cookie r (ca_CookieName c) of None \<Rightarrow> False | Some v \<Rightarrow> v \<noteq> []))
     \<or> (0 < ca_Weight c \<and> draw < ca_Weight c)"

section \<open>The decision\<close>

datatype front = Refuse nat | DirectTo string "string option" | ToPool | FrontPanic

definition split_view :: "proxy_request \<Rightarrow> split_request" where
  "split_view r = \<lparr>sr_header = Header_Get r, sr_cookies = hr_cookies r\<rparr>"

definition serve_front ::
    "('re \<Rightarrow> string \<Rightarrow> bool) \<Rightarrow> 're option list \<Rightarrow> Route \<Rightarrow> proxy_request \<Rightarrow> int \<Rightarrow> int \<Rightarrow> front" where
  "serve_front matchString res route r canaryDraw splitDraw =
     (if isUpgrade r \<and> rt_Websocket route = Some False then Refuse 400
      else if isUpgrade r \<and> foreignOrigin route r then Refuse 403
      else if bodyTooLarge route r then Refuse 413
      else (let override = matchCondition matchString (rt_Conditions route) res r
            in if override \<noteq> [] then DirectTo override None
               else if (case rt_Canary route of None \<Rightarrow> False | Some c \<Rightarrow> ca_Backend c \<noteq> [] \<and> isCanary c r canaryDraw)
               then DirectTo (ca_Backend (the (rt_Canary route))) None
               else case rt_Split route of
                      None \<Rightarrow> ToPool
                    | Some sp \<Rightarrow>
                        (case pickSplit sp (split_view r) splitDraw of
                           None \<Rightarrow> FrontPanic
                         | Some (b, ck) \<Rightarrow> if b \<noteq> [] then DirectTo b ck else ToPool)))"

section \<open>The handler\<close>

definition hedgeable :: "Route \<Rightarrow> proxy_request \<Rightarrow> bool" where
  "hedgeable route r =
     (case rt_Hedge route of
        None \<Rightarrow> False
      | Some hc \<Rightarrow> \<not> (hg_DelayMs hc \<le> 0 \<or> rt_Shadow route \<noteq> None)
          \<and> (pq_Method r = ''GET'' \<or> pq_Method r = ''HEAD'')
          \<and> pq_ContentLength r \<le> 0 \<and> pq_TransferEncoding r = [] \<and> \<not> isUpgrade r \<and> \<not> isGRPC r)"

record 're handler =
  hn_route :: Route
  hn_balancer :: balancer
  hn_serve :: serve_state
  hn_conditionRes :: "'re option list"

definition NewHandler :: "(string \<Rightarrow> 're option) \<Rightarrow> Route \<Rightarrow> BackendHealth \<Rightarrow> bool \<Rightarrow> 're handler" where
  "NewHandler compile route health metrics =
     \<lparr>hn_route = route, hn_balancer = NewBalancer route metrics,
      hn_serve = \<lparr>sv_health = health, sv_cb = NewCB_for route\<rparr>,
      hn_conditionRes = compileConditionRegexes compile route\<rparr>"

text \<open>A request with everything it meets: the clock, the draws, the answers of the backends, the events of a hedged run.\<close>

record request_env =
  rq_request :: proxy_request
  rq_canaryDraw :: int
  rq_splitDraw :: int
  rq_slowDraw :: rat
  rq_now :: go_time
  rq_pool :: pool_clock
  rq_clock :: "nat \<Rightarrow> go_time"
  rq_contact :: "nat \<Rightarrow> Backend \<Rightarrow> contact_result"
  rq_gone :: "nat \<Rightarrow> bool"
  rq_hedge :: "hedge_event list"

datatype handled =
    Rejected nat
  | HandlerPanic
  | SentTo string "string option"
  | PoolResult serve_result
  | HedgeResult "hedge_exit option" "Backend option"

definition serve_attempts :: "request_env \<Rightarrow> Route \<Rightarrow> Backend list \<Rightarrow> serve_state \<Rightarrow> handled \<times> serve_state" where
  "serve_attempts q route attempts st =
     (if 1 < length attempts \<and> hedgeable route (rq_request q)
      then (let h = hedge_run attempts (the (rt_Hedge route)) (rq_hedge q) st
            in (HedgeResult (hg_exit h) (map_option ((!) attempts) (hg_winner h)), hg_serve h))
      else (case attempt_loop route (rq_clock q) (rq_contact q) (rq_gone q) 0 attempts st of (res, st1) \<Rightarrow> (PoolResult res, st1)))"

definition handle_pool :: "request_env \<Rightarrow> Backend list \<Rightarrow> 're handler \<Rightarrow> handled \<times> 're handler" where
  "handle_pool q candidates h =
     (case poolAttempts (hn_route h) (rq_pool q) candidates (hn_serve h) of
        Inl (res, st) \<Rightarrow> (PoolResult res, h\<lparr>hn_serve := st\<rparr>)
      | Inr (attempts, st) \<Rightarrow>
          (case serve_attempts q (hn_route h) attempts st of (res, st1) \<Rightarrow> (res, h\<lparr>hn_serve := st1\<rparr>)))"

definition ServeHTTP ::
    "('re \<Rightarrow> string \<Rightarrow> bool) \<Rightarrow> (string \<Rightarrow> rat) option \<Rightarrow> (string \<Rightarrow> string) \<Rightarrow> request_env \<Rightarrow> 're handler \<Rightarrow> handled \<times> 're handler" where
  "ServeHTTP matchString m ip q h =
     (let route = hn_route h; r = rq_request q
      in case serve_front matchString (hn_conditionRes h) route r (rq_canaryDraw q) (rq_splitDraw q) of
           Refuse status \<Rightarrow> (Rejected status, h)
         | FrontPanic \<Rightarrow> (HandlerPanic, h)
         | DirectTo u ck \<Rightarrow> (SentTo u ck, h)
         | ToPool \<Rightarrow>
             if rt_Backends route = [] then handle_pool q [] h
             else (case Next m ip (http_request.truncate r) (hn_balancer h) of
                     (NextPanic, b) \<Rightarrow> (HandlerPanic, h\<lparr>hn_balancer := b\<rparr>)
                   | (NextBackend pref, b) \<Rightarrow>
                       handle_pool q (failoverCandidates (rq_now q) (rq_slowDraw q) (http_request.truncate r) route (sv_health (hn_serve h)) pref)
                         (h\<lparr>hn_balancer := b\<rparr>)))"

section \<open>Only configured destinations\<close>

definition direct_urls :: "Route \<Rightarrow> string set" where
  "direct_urls route =
     cond_Backend ` set (rt_Conditions route) \<union> ca_Backend ` set_option (rt_Canary route)
     \<union> (case rt_Split route of None \<Rightarrow> {} | Some sp \<Rightarrow> sv_Backend ` set (sp_Variants sp))"

definition pool_urls :: "Route \<Rightarrow> string set" where
  "pool_urls route = be_URL ` set (rt_Backends route)"

definition destination_ok :: "Route \<Rightarrow> handled \<Rightarrow> bool" where
  "destination_ok route res =
     (case res of
        Rejected s \<Rightarrow> s \<in> {400, 403, 413}
      | HandlerPanic \<Rightarrow> False
      | SentTo u ck \<Rightarrow> u \<in> direct_urls route \<and> u \<noteq> []
      | PoolResult (Served b) \<Rightarrow> be_URL b \<in> pool_urls route
      | PoolResult _ \<Rightarrow> True
      | HedgeResult e b \<Rightarrow> be_URL ` set_option b \<subseteq> pool_urls route)"

text \<open>The arithmetic assumptions: the weights of the pool and of the split do not overflow a machine integer.\<close>

definition weights_sane :: "Route \<Rightarrow> bool" where
  "weights_sane route \<longleftrightarrow>
     weights_fit (rt_Backends route) \<and>
     (case rt_Split route of None \<Rightarrow> True | Some sp \<Rightarrow> sum_list (map sv_Weight (split_usable sp)) < 2 ^ 63)"

lemma split_total_pos:
  assumes "split_usable sp \<noteq> []" and "sum_list (map sv_Weight (split_usable sp)) < 2 ^ 63"
  shows "0 < split_total sp"
proof -
  have pos: "\<forall>v\<in>set (split_usable sp). 0 < sv_Weight v" by (auto simp: split_usable_def)
  have "split_slots (split_usable sp) \<noteq> []"
    using assms(1) pos by (cases "split_usable sp") (auto simp: split_slots_def)
  then show ?thesis
    using split_total_slots [OF pos, of 0] assms(2) by (simp add: split_total_def)
qed

lemma split_draw_member: "split_draw n vs c \<in> insert c (set vs)"
  by (induction vs arbitrary: n) auto

lemma split_find_member: "split_find sp x = Some v \<Longrightarrow> v \<in> set (sp_Variants sp)"
  by (auto simp: split_find_def dest: find_SomeD)

lemma pickSplit_member:
  assumes "pickSplit sp r n = Some (b, ck)" and "b \<noteq> []"
  shows "b \<in> sv_Backend ` set (sp_Variants sp)"
proof (cases "split_usable sp = []")
  case True
  then show ?thesis using assms by (simp add: pickSplit_def)
next
  case False
  have "set (split_usable sp) \<subseteq> set (sp_Variants sp)" by (auto simp: split_usable_def)
  then have drawn: "split_draw n (split_usable sp) (last (split_usable sp)) \<in> set (sp_Variants sp)"
    using split_draw_member [of n "split_usable sp" "last (split_usable sp)"] False by auto
  have forced: "v \<in> set (sp_Variants sp)" if "split_forced sp r = Some v" for v
    using that split_find_member by (auto simp: split_forced_def Let_def split: if_splits)
  have sticky: "v \<in> set (sp_Variants sp)" if "split_sticky sp r = Some v" for v
    using that split_find_member by (auto simp: split_sticky_def split: if_splits bind_splits)
  show ?thesis
    using assms False drawn forced sticky
    by (auto simp: pickSplit_def Let_def split: option.splits if_splits)
qed

lemma pickSplit_total: "sum_list (map sv_Weight (split_usable sp)) < 2 ^ 63 \<Longrightarrow> pickSplit sp r n \<noteq> None"
  using split_total_pos [of sp] by (cases "split_usable sp = []") (auto simp: pickSplit_def Let_def split: option.split)

lemma matchCondition_member:
  "matchCondition match conds res r \<noteq> [] \<Longrightarrow> matchCondition match conds res r \<in> cond_Backend ` set conds"
proof -
  let ?P = "\<lambda>i. conditionMatches match (conds ! i) (if i < length res then res ! i else None) r"
  assume "matchCondition match conds res r \<noteq> []"
  then obtain i where i: "find ?P [0..<length conds] = Some i" "matchCondition match conds res r = cond_Backend (conds ! i)"
    unfolding matchCondition_def by (cases "find ?P [0..<length conds]") simp_all
  then have "i < length conds" using find_SomeD [OF i(1)] by simp
  then show ?thesis unfolding i(2) by (intro imageI nth_mem)
qed

lemma serve_front_destination:
  assumes "weights_sane route"
  shows "case serve_front match res route r cd sd of
      Refuse s \<Rightarrow> s \<in> {400, 403, 413}
    | DirectTo u ck \<Rightarrow> u \<in> direct_urls route \<and> u \<noteq> []
    | ToPool \<Rightarrow> True
    | FrontPanic \<Rightarrow> False"
proof -
  have "pickSplit sp (split_view r) sd \<noteq> None" if "rt_Split route = Some sp" for sp
    using assms that pickSplit_total by (simp add: weights_sane_def)
  then show ?thesis
    using matchCondition_member [of match "rt_Conditions route" res r] pickSplit_member [of _ "split_view r" sd]
    by (auto simp: serve_front_def Let_def direct_urls_def split: option.split)
qed

lemma attempt_loop_served:
  "fst (attempt_loop route clock contact gone i bs st) = Served b \<Longrightarrow> b \<in> set bs"
  by (induction bs arbitrary: i st) (auto simp: Let_def split: if_splits)

lemma hedge_winner_bound:
  assumes "attempts \<noteq> []" and "hg_winner (hedge_run attempts hc evs st) = Some w"
  shows "w < length attempts"
  using hedge_ok_run [OF assms(1), of hc evs st] assms(2) by (auto simp: hedge_core_def)

lemma serve_attempts_destination:
  assumes "attempts \<noteq> []" and "be_URL ` set attempts \<subseteq> pool_urls route"
  shows "destination_ok route (fst (serve_attempts q rt attempts st))"
proof (cases "1 < length attempts \<and> hedgeable rt (rq_request q)")
  case True
  have "be_URL (attempts ! w) \<in> pool_urls route" if "w < length attempts" for w
    using assms(2) nth_mem [OF that] by blast
  then show ?thesis
    using True hedge_winner_bound [OF assms(1)]
    by (auto simp: serve_attempts_def destination_ok_def Let_def option.set_map)
next
  case False
  then show ?thesis
    using assms(2) attempt_loop_served [of rt "rq_clock q" "rq_contact q" "rq_gone q" 0 attempts st]
    by (auto simp: serve_attempts_def destination_ok_def split: prod.splits serve_result.splits)
qed

lemma handle_pool_destination:
  assumes "hn_route h = route" and "be_URL ` set candidates \<subseteq> pool_urls route"
  shows "destination_ok route (fst (handle_pool q candidates h))"
proof (cases "poolAttempts (hn_route h) (rq_pool q) candidates (hn_serve h)")
  case (Inl x)
  then obtain secs st where "x = (Unavailable secs, st)"
    by (auto simp: poolAttempts_def Let_def split: if_splits option.splits prod.splits)
  then show ?thesis using Inl by (simp add: handle_pool_def destination_ok_def)
next
  case (Inr x)
  obtain attempts st where x: "x = (attempts, st)" by (cases x)
  have "attempts \<noteq> [] \<and> set attempts \<subseteq> set candidates" using poolAttempts_candidates Inr x by blast
  then have "destination_ok route (fst (serve_attempts q (hn_route h) attempts st))"
    using assms(2) by (intro serve_attempts_destination) auto
  then show ?thesis using Inr x by (simp add: handle_pool_def split_beta)
qed

lemma handle_pool_frame [simp]:
  "hn_route (snd (handle_pool q cs h)) = hn_route h" "hn_balancer (snd (handle_pool q cs h)) = hn_balancer h"
  by (simp_all add: handle_pool_def split_beta split: sum.split)

lemma ServeHTTP_destination:
  assumes "weights_sane (hn_route h)" and "bal_sound (rt_Backends (hn_route h)) (hn_balancer h)"
  shows "destination_ok (hn_route h) (fst (ServeHTTP match m ip q h))
    \<and> hn_route (snd (ServeHTTP match m ip q h)) = hn_route h
    \<and> bal_sound (rt_Backends (hn_route h)) (hn_balancer (snd (ServeHTTP match m ip q h)))"
proof -
  let ?r = "rq_request q" and ?route = "hn_route h"
  let ?front = "serve_front match (hn_conditionRes h) ?route ?r (rq_canaryDraw q) (rq_splitDraw q)"
  note F = serve_front_destination [OF assms(1), of match "hn_conditionRes h" ?r "rq_canaryDraw q" "rq_splitDraw q"]
  show ?thesis
  proof (cases "?front = ToPool")
    case False
    then show ?thesis
      using F assms(2) by (cases ?front) (simp_all add: ServeHTTP_def destination_ok_def Let_def)
  next
    case pool: True
    show ?thesis
    proof (cases "rt_Backends ?route = []")
      case True
      then show ?thesis
        using pool assms(2) handle_pool_destination [of h ?route "[]" q] by (simp add: ServeHTTP_def Let_def)
    next
      case False
      let ?n = "Next m ip (http_request.truncate ?r) (hn_balancer h)"
      obtain b where b: "b \<in> set (rt_Backends ?route)" "fst ?n = NextBackend (Some b)"
        using chain.pick_backend [OF assms(2), of m ip "http_request.truncate ?r"] False by auto
      let ?cs = "failoverCandidates (rq_now q) (rq_slowDraw q) (http_request.truncate ?r) ?route (sv_health (hn_serve h)) (Some b)"
      have E: "ServeHTTP match m ip q h = handle_pool q ?cs (h\<lparr>hn_balancer := snd ?n\<rparr>)"
        using pool False b(2) by (cases ?n) (simp add: ServeHTTP_def Let_def)
      have "set (map be_URL ?cs) = pool_urls ?route"
        using failoverCandidates_urls(2) [of ?route "Some b"] False b(1) by (simp add: pool_urls_def)
      then have "destination_ok ?route (fst (handle_pool q ?cs (h\<lparr>hn_balancer := snd ?n\<rparr>)))"
        by (intro handle_pool_destination) simp_all
      then show ?thesis
        unfolding E using chain.pick_sound [OF assms(2), of m ip "http_request.truncate ?r"] by simp
    qed
  qed
qed

text \<open>The answers to a sequence of requests.\<close>

fun handler_run ::
    "('re \<Rightarrow> string \<Rightarrow> bool) \<Rightarrow> (string \<Rightarrow> rat) option \<Rightarrow> (string \<Rightarrow> string) \<Rightarrow> request_env list \<Rightarrow> 're handler \<Rightarrow> handled list" where
  "handler_run match m ip [] h = []"
| "handler_run match m ip (q # qs) h = (case ServeHTTP match m ip q h of (res, h1) \<Rightarrow> res # handler_run match m ip qs h1)"


definition demo_request :: proxy_request where
  "demo_request = \<lparr>hr_cookies = [], pq_Method = ''GET'', pq_Header = [(''Upgrade'', [''WebSocket''])], pq_Query = [],
     pq_ContentLength = 0, pq_TransferEncoding = [], pq_Claims = []\<rparr>"

definition demo_env :: request_env where
  "demo_env = \<lparr>rq_request = demo_request, rq_canaryDraw = 0, rq_splitDraw = 0, rq_slowDraw = 0, rq_now = 0,
     rq_pool = \<lparr>pk_health = \<lambda>_. 0, pk_allow = \<lambda>_. 0, pk_retry = 0\<rparr>, rq_clock = \<lambda>_. 0,
     rq_contact = \<lambda>i b. if i = 0 then TransportFailed None else Answered, rq_gone = \<lambda>_. False, rq_hedge = []\<rparr>"


section \<open>Refusals\<close>


section \<open>Conditions that cannot match\<close>

lemma find_filter: "(\<And>x. P x \<Longrightarrow> Q x) \<Longrightarrow> find P (filter Q xs) = find P xs"
  by (induction xs) auto

text \<open>The loop over two parallel arrays is a search through the conditions with their own expressions.\<close>

lemma matchCondition_find:
  "matchCondition match conds (map f conds) r =
     (case find (\<lambda>c. conditionMatches match c (f c) r) conds of None \<Rightarrow> [] | Some c \<Rightarrow> cond_Backend c)"
proof (induction conds)
  case Nil
  show ?case by (simp add: matchCondition_def)
next
  case (Cons c conds)
  let ?P = "\<lambda>i. conditionMatches match ((c # conds) ! i) (if i < length (map f (c # conds)) then map f (c # conds) ! i else None) r"
  let ?Q = "\<lambda>i. conditionMatches match (conds ! i) (if i < length (map f conds) then map f conds ! i else None) r"
  have "find (\<lambda>i. ?P (Suc i)) [0..<length conds] = find ?Q [0..<length conds]"
    by (rule find_cong) simp_all
  then have "find ?P [0..<length (c # conds)] = (if conditionMatches match c (f c) r then Some 0 else map_option Suc (find ?Q [0..<length conds]))"
    using find_upt_Suc [of ?P "length conds"] by (simp del: upt_Suc)
  then show ?case
    using Cons.IH unfolding matchCondition_def by (cases "find ?Q [0..<length conds]") (simp_all del: upt_Suc)
qed

definition usable_condition :: "(string \<Rightarrow> 're option) \<Rightarrow> Condition \<Rightarrow> bool" where
  "usable_condition compile c \<longleftrightarrow> \<not> cond_Regex c \<or> cond_Value c \<noteq> [] \<and> compile (cond_Value c) \<noteq> None"

text \<open>
  A condition whose expression is empty or does not compile is inert: routing by the conditions of
  the route gives what routing by the other conditions alone gives, for every request.
\<close>

theorem broken_conditions_inert:
  "matchCondition match (rt_Conditions route) (compileConditionRegexes compile route) r =
     (let good = route\<lparr>rt_Conditions := filter (usable_condition compile) (rt_Conditions route)\<rparr>
      in matchCondition match (rt_Conditions good) (compileConditionRegexes compile good) r)"
proof -
  let ?f = "\<lambda>c. if \<not> cond_Regex c \<or> cond_Value c = [] then None else compile (cond_Value c)"
  have "usable_condition compile c" if "conditionMatches match c (?f c) r" for c
    using that by (auto simp: conditionMatches_def usable_condition_def Let_def list_ex_iff split: if_splits option.splits)
  then have "find (\<lambda>c. conditionMatches match c (?f c) r) (filter (usable_condition compile) (rt_Conditions route))
      = find (\<lambda>c. conditionMatches match c (?f c) r) (rt_Conditions route)"
    by (rule find_filter)
  then show ?thesis
    by (simp only: compileConditionRegexes_def matchCondition_find Let_def Route.select_convs Route.update_convs Route.surjective simp_thms)
       (simp add: matchCondition_find)
qed

end
