(* ===== verification/Rewrite.thy ===== *)
theory Rewrite
  imports Dispatch
begin

text \<open>
  Rewriting what passes through the proxy (\<open>internal/edge/proxy/handler.go\<close>): the attributes of
  \<open>Set-Cookie\<close>, the \<open>Location\<close> of a redirect, and the forwarding headers given to a backend. Regular
  expressions are the arguments \<open>compile\<close>, \<open>matchString\<close> and \<open>replaceAll\<close>. A slice expression out of
  range is a panic, the result \<open>None\<close>. Case folding is the ASCII path, which keeps lengths.
\<close>

section \<open>Redirects\<close>

fun applyProxyRedirects ::
    "(string \<Rightarrow> 're option) \<Rightarrow> ('re \<Rightarrow> string \<Rightarrow> bool) \<Rightarrow> ('re \<Rightarrow> string \<Rightarrow> string \<Rightarrow> string) \<Rightarrow> string \<Rightarrow> ProxyRedirect list \<Rightarrow> string" where
  "applyProxyRedirects compile matchString replaceAll value [] = value"
| "applyProxyRedirects compile matchString replaceAll value (r # rules) =
     (let next = applyProxyRedirects compile matchString replaceAll value rules
      in if pr_Regex r then
           (case compile (pr_From r) of
              None \<Rightarrow> next
            | Some re \<Rightarrow> if matchString re value then replaceAll re value (pr_To r) else next)
         else if HasPrefix value (pr_From r) then pr_To r @ drop (length (pr_From r)) value else next)"

section \<open>Cookies\<close>

fun applyCookieRewrites ::
    "(string \<Rightarrow> 're option) \<Rightarrow> ('re \<Rightarrow> string \<Rightarrow> bool) \<Rightarrow> ('re \<Rightarrow> string \<Rightarrow> string \<Rightarrow> string) \<Rightarrow> string \<Rightarrow> CookieRewrite list \<Rightarrow> string" where
  "applyCookieRewrites compile matchString replaceAll value [] = value"
| "applyCookieRewrites compile matchString replaceAll value (r # rules) =
     (let next = applyCookieRewrites compile matchString replaceAll value rules
      in if ck_Regex r then
           (case compile (ck_From r) of
              None \<Rightarrow> next
            | Some re \<Rightarrow> if matchString re value then replaceAll re value (ck_To r) else next)
         else if EqualFold value (ck_From r) then ck_To r else next)"

text \<open>\<open>strings.Index\<close>.\<close>

fun str_index :: "string \<Rightarrow> string \<Rightarrow> nat option" where
  "str_index [] n = (if n = [] then Some 0 else None)"
| "str_index (x # xs) n = (if HasPrefix (x # xs) n then Some 0 else map_option Suc (str_index xs n))"

definition TrimRightSpaces :: "string \<Rightarrow> string" where
  "TrimRightSpaces s = rev (dropWhile (\<lambda>c. c = CHR '' '') (rev s))"

text \<open>The position the code takes for the separator before the attribute; \<open>None\<close> when it leaves the cookie alone.\<close>

definition attr_index :: "string \<Rightarrow> string \<Rightarrow> nat option" where
  "attr_index lower needle =
     (case str_index lower (''; '' @ needle) of
        Some i \<Rightarrow> Some i
      | None \<Rightarrow>
          (case str_index lower needle of
             None \<Rightarrow> None
           | Some j \<Rightarrow> if j = 0 \<or> \<not> HasSuffix (TrimRightSpaces (take j lower)) '';'' then None else Some (j - 1)))"

definition rewriteCookieAttr ::
    "(string \<Rightarrow> CookieRewrite list \<Rightarrow> string) \<Rightarrow> string \<Rightarrow> string \<Rightarrow> CookieRewrite list \<Rightarrow> string option" where
  "rewriteCookieAttr rewrites raw attr rules =
     (if rules = [] then Some raw
      else (let needle = ToLower attr @ ''=''
            in case attr_index (ToLower raw) needle of
                 None \<Rightarrow> Some raw
               | Some idx \<Rightarrow>
                   (let attrStart = idx + 2 + length needle
                    in if length raw < attrStart then None
                       else (let attrVal = takeWhile (\<lambda>c. c \<noteq> CHR '';'') (drop attrStart raw);
                                 newVal = rewrites attrVal rules
                             in if newVal = attrVal then Some raw
                                else Some (take attrStart raw @ newVal @ drop (attrStart + length attrVal) raw)))))"

definition rewriteSetCookie ::
    "(string \<Rightarrow> CookieRewrite list \<Rightarrow> string) \<Rightarrow> CookieRewrite list \<Rightarrow> CookieRewrite list \<Rightarrow> string \<Rightarrow> string option" where
  "rewriteSetCookie rewrites domainRules pathRules raw =
     Option.bind (rewriteCookieAttr rewrites raw ''Domain'' domainRules) (\<lambda>c. rewriteCookieAttr rewrites c ''Path'' pathRules)"

definition rewriteSetCookieHeaders ::
    "(string \<Rightarrow> CookieRewrite list \<Rightarrow> string) \<Rightarrow> CookieRewrite list \<Rightarrow> CookieRewrite list \<Rightarrow> string list \<Rightarrow> string list option" where
  "rewriteSetCookieHeaders rewrites domainRules pathRules cookies =
     those (map (rewriteSetCookie rewrites domainRules pathRules) cookies)"

section \<open>Forwarding headers\<close>

type_synonym http_header = "(string, string list) gomap"

definition wantsForwardedHeader :: "Route \<Rightarrow> string \<Rightarrow> bool" where
  "wantsForwardedHeader route name =
     (case rt_HeadersManipulation route of
        None \<Rightarrow> True
      | Some hm \<Rightarrow>
          (case hm_ForwardedHeaders hm of
             None \<Rightarrow> True
           | Some hs \<Rightarrow> list_ex (\<lambda>h. ToLower (TrimSpace h) = ToLower name) hs))"

definition setOrDel :: "Route \<Rightarrow> string \<Rightarrow> string \<Rightarrow> http_header \<Rightarrow> http_header" where
  "setOrDel route name value hdr =
     (if wantsForwardedHeader route name then gm_set (CanonicalHeaderKey name) [value] hdr else gm_del (CanonicalHeaderKey name) hdr)"

text \<open>
  The address of the client, that of the connection, whether it uses TLS, and the requested host are
  arguments. An entry without value tells the standard reverse proxy not to add the header.
\<close>

definition applyForwardedHeaders :: "Route \<Rightarrow> string \<Rightarrow> string \<Rightarrow> bool \<Rightarrow> string \<Rightarrow> http_header \<Rightarrow> http_header" where
  "applyForwardedHeaders route ip remote tls xfHost hdr =
     (let h1 = (if \<not> wantsForwardedHeader route ''X-Forwarded-For'' then gm_set ''X-Forwarded-For'' [] hdr
                else if ip = remote then gm_del ''X-Forwarded-For'' hdr
                else gm_set ''X-Forwarded-For'' [ip] hdr)
      in setOrDel route ''X-Real-IP'' ip
           (setOrDel route ''X-Forwarded-Host'' xfHost
              (setOrDel route ''X-Forwarded-Proto'' (if tls then ''https'' else ''http'') h1)))"

section \<open>Facts\<close>

lemma str_index_Some: "str_index s n = Some i \<Longrightarrow> HasPrefix (drop i s) n \<and> i \<le> length s"
proof (induction s arbitrary: i)
  case Nil
  then show ?case by (simp add: HasPrefix_def split: if_splits)
next
  case (Cons x xs)
  show ?case
  proof (cases "HasPrefix (x # xs) n")
    case True
    then show ?thesis using Cons.prems by simp
  next
    case False
    then obtain j where "str_index xs n = Some j" "i = Suc j" using Cons.prems by auto
    then show ?thesis using Cons.IH [of j] by simp
  qed
qed

lemma str_index_bound: "str_index s n = Some i \<Longrightarrow> i + length n \<le> length s"
  using str_index_Some [of s n i] by (auto simp: HasPrefix_iff dest!: arg_cong [where f = length])

text \<open>
  When an attribute is separated from what precedes it by a semicolon and one space, the rewriting
  changes the value of that attribute, up to the next semicolon, to what the rules give for it, and
  nothing else of the cookie; it does not panic.
\<close>

theorem cookie_attribute_rewritten:
  assumes "str_index (ToLower raw) (''; '' @ ToLower attr @ ''='') = Some i"
    and "start = i + length attr + 3" and "val = takeWhile (\<lambda>c. c \<noteq> CHR '';'') (drop start raw)"
  shows "rewriteCookieAttr (applyCookieRewrites compile match replace) raw attr rules
     = Some (take start raw @ applyCookieRewrites compile match replace val rules @ drop (start + length val) raw)"
proof -
  let ?rw = "applyCookieRewrites compile match replace"
  have bound: "start \<le> length raw"
    using str_index_bound [OF assms(1)] assms(2) by simp
  have "drop start raw = val @ drop (length val) (drop start raw)"
    unfolding assms(3) by (metis append_eq_conv_conj dropWhile_eq_drop takeWhile_dropWhile_id)
  then have keep: "take start raw @ val @ drop (start + length val) raw = raw"
    by (metis add.commute append_take_drop_id drop_drop)
  have S: "i + 2 + length (ToLower attr @ ''='') = start" using assms(2) by simp
  have I: "attr_index (ToLower raw) (ToLower attr @ ''='') = Some i"
    using assms(1) by (simp add: attr_index_def)
  have "rewriteCookieAttr ?rw raw attr rules =
      (if rules = [] then Some raw
       else if ?rw val rules = val then Some raw
       else Some (take start raw @ ?rw val rules @ drop (start + length val) raw))"
    using bound unfolding rewriteCookieAttr_def Let_def I option.case S assms(3) [symmetric] by simp
  then show ?thesis using keep by simp
qed

theorem cookie_attribute_rewritten_witness:
  "rewriteCookieAttr (applyCookieRewrites Some (\<lambda>_ _. False) (\<lambda>_ v _. v)) ''a=b; Path=/x; Secure'' ''Path''
     [\<lparr>ck_From = ''/x'', ck_To = ''/y'', ck_Regex = False\<rparr>] = Some ''a=b; Path=/y; Secure''"
proof -
  have "str_index (ToLower ''a=b; Path=/x; Secure'') (''; '' @ ToLower ''Path'' @ ''='') = Some 3" by code_simp
  from cookie_attribute_rewritten [OF this refl refl, of Some "\<lambda>_ _. False" "\<lambda>_ v _. v" "[\<lparr>ck_From = ''/x'', ck_To = ''/y'', ck_Regex = False\<rparr>]"]
  show ?thesis by (simp add: EqualFold_def)
qed

text \<open>
  When the space is missing the code looks one byte too far: the first character of the value is
  skipped, so that a rule for the value does not apply, and a cookie ending with an empty attribute makes
  the proxy panic.
\<close>

theorem cookie_without_space:
  "rewriteCookieAttr (applyCookieRewrites compile match replace) ''a=b;Domain='' ''Domain'' (r # rules) = None
   \<and> rewriteCookieAttr (applyCookieRewrites compile match replace) ''a=b;Domain=x.y'' ''Domain''
        [\<lparr>ck_From = ''x.y'', ck_To = ''z'', ck_Regex = False\<rparr>] = Some ''a=b;Domain=x.y''
   \<and> rewriteCookieAttr (applyCookieRewrites compile match replace) ''a=b; Domain=x.y'' ''Domain''
        [\<lparr>ck_From = ''x.y'', ck_To = ''z'', ck_Regex = False\<rparr>] = Some ''a=b; Domain=z''"
proof -
  have L: "ToLower ''Domain'' = ''domain''" "ToLower ''a=b;Domain='' = ''a=b;domain=''"
    "ToLower ''a=b;Domain=x.y'' = ''a=b;domain=x.y''" "ToLower ''a=b; Domain=x.y'' = ''a=b; domain=x.y''"
    by code_simp+
  have I: "attr_index ''a=b;domain='' ''domain='' = Some 3" "attr_index ''a=b;domain=x.y'' ''domain='' = Some 3"
    "attr_index ''a=b; domain=x.y'' ''domain='' = Some 3"
    by code_simp+
  have E: "\<not> EqualFold ''.y'' ''x.y''" "EqualFold ''x.y'' ''x.y''" by code_simp+
  show ?thesis by (simp add: rewriteCookieAttr_def Let_def L I E)
qed

lemma setOrDel_get:
  "gm_get (setOrDel route name v hdr) k =
     (if k = CanonicalHeaderKey name then (if wantsForwardedHeader route name then Some [v] else None) else gm_get hdr k)"
  by (simp add: setOrDel_def)

definition forwarded_names :: "string list" where
  "forwarded_names = [''X-Forwarded-For'', ''X-Forwarded-Proto'', ''X-Forwarded-Host'', ''X-Real-Ip'']"

text \<open>
  A backend never receives forwarding headers written by the client: each of the four is either
  removed or set from the connection, whatever the request contained, and other headers are left alone.
\<close>

theorem forwarded_headers_not_spoofed:
  "map (gm_get (applyForwardedHeaders route ip remote tls xfHost hdr)) forwarded_names
     = [if \<not> wantsForwardedHeader route ''X-Forwarded-For'' then Some [] else if ip = remote then None else Some [ip],
        if wantsForwardedHeader route ''X-Forwarded-Proto'' then Some [if tls then ''https'' else ''http''] else None,
        if wantsForwardedHeader route ''X-Forwarded-Host'' then Some [xfHost] else None,
        if wantsForwardedHeader route ''X-Real-IP'' then Some [ip] else None]
   \<and> (k \<in> set forwarded_names \<or> gm_get (applyForwardedHeaders route ip remote tls xfHost hdr) k = gm_get hdr k)"
proof -
  have K: "CanonicalHeaderKey ''X-Forwarded-Proto'' = ''X-Forwarded-Proto''" "CanonicalHeaderKey ''X-Forwarded-Host'' = ''X-Forwarded-Host''"
    "CanonicalHeaderKey ''X-Real-IP'' = ''X-Real-Ip''"
    by code_simp+
  let ?for = "if \<not> wantsForwardedHeader route ''X-Forwarded-For'' then Some [] else if ip = remote then None else Some [ip]"
  have G: "gm_get (applyForwardedHeaders route ip remote tls xfHost hdr) k =
      (if k = ''X-Real-Ip'' then (if wantsForwardedHeader route ''X-Real-IP'' then Some [ip] else None)
       else if k = ''X-Forwarded-Host'' then (if wantsForwardedHeader route ''X-Forwarded-Host'' then Some [xfHost] else None)
       else if k = ''X-Forwarded-Proto'' then (if wantsForwardedHeader route ''X-Forwarded-Proto'' then Some [if tls then ''https'' else ''http''] else None)
       else if k = ''X-Forwarded-For'' then ?for else gm_get hdr k)" for k
    unfolding applyForwardedHeaders_def Let_def setOrDel_get K
    by (cases "wantsForwardedHeader route ''X-Forwarded-For''"; cases "ip = remote") (simp_all only: if_True if_False simp_thms gm_get_set gm_get_del)
  have "k \<notin> set forwarded_names \<Longrightarrow> gm_get (applyForwardedHeaders route ip remote tls xfHost hdr) k = gm_get hdr k"
    unfolding forwarded_names_def G by auto
  moreover have "map (gm_get (applyForwardedHeaders route ip remote tls xfHost hdr)) forwarded_names
     = [?for,
        if wantsForwardedHeader route ''X-Forwarded-Proto'' then Some [if tls then ''https'' else ''http''] else None,
        if wantsForwardedHeader route ''X-Forwarded-Host'' then Some [xfHost] else None,
        if wantsForwardedHeader route ''X-Real-IP'' then Some [ip] else None]"
    by (simp add: forwarded_names_def G split del: if_split)
  ultimately show ?thesis by blast
qed

end
