(* ===== verification/Proxy_Protocol.thy ===== *)
theory Proxy_Protocol
  imports Netip
begin

text \<open>
  The PROXY protocol (\<open>internal/edge/proxyproto/proxyproto.go\<close>): the headers read behind a load
  balancer and the header written towards a backend. Bytes are characters. A connection being read is
  the list of bytes its peer sends before the end of the stream or the deadline of the header; a read
  past its end is the error \<open>ReadError\<close>. \<open>strings.Fields\<close> is the ASCII path of the library function.
\<close>

section \<open>Bytes\<close>

definition b2n :: "char \<Rightarrow> nat" where
  "b2n c = of_char c"

text \<open>Big-endian encodings of \<open>n\<close> bytes.\<close>

fun be_bytes :: "nat \<Rightarrow> nat \<Rightarrow> string" where
  "be_bytes 0 v = []"
| "be_bytes (Suc n) v = be_bytes n (v div 256) @ [char_of (v mod 256)]"

definition be_val :: "string \<Rightarrow> nat" where
  "be_val s = fold (\<lambda>c v. v * 256 + b2n c) s 0"

definition AddrFromSlice :: "string \<Rightarrow> Addr option" where
  "AddrFromSlice s =
     (if length s = 4 then Some (V4 (of_nat (be_val s)))
      else if length s = 16 then Some (V6 (of_nat (be_val s))) else None)"

text \<open>The four or sixteen bytes of an address.\<close>

fun addr_bytes :: "Addr \<Rightarrow> string" where
  "addr_bytes (V4 w) = be_bytes 4 (unat w)"
| "addr_bytes (V6 w) = be_bytes 16 (unat w)"

section \<open>Addresses with a port\<close>

text \<open>A \<open>netip.Addr\<close> with its zone, and a \<open>netip.AddrPort\<close>; the zero address is \<open>None\<close>.\<close>

type_synonym zaddr = "Addr \<times> string"

record AddrPort =
  ap_Addr :: "zaddr option"
  ap_Port :: "16 word"

text \<open>\<open>Unmap\<close> of an address with a zone: the zone of a mapped address is dropped with the mapping.\<close>

definition zUnmap :: "zaddr \<Rightarrow> zaddr" where
  "zUnmap a = (Unmap (fst a), if Is4In6 (fst a) then [] else snd a)"

text \<open>A \<open>net.TCPAddr\<close>.\<close>

record TCPAddr =
  ta_IP :: Addr
  ta_Port :: "16 word"
  ta_Zone :: string

definition tcpAddr :: "zaddr \<Rightarrow> nat \<Rightarrow> TCPAddr" where
  "tcpAddr a port = \<lparr>ta_IP = fst a, ta_Port = of_nat port, ta_Zone = snd a\<rparr>"

section \<open>Trusted sources\<close>

text \<open>\<open>netip.ParsePrefix\<close>: no zone; the length is decimal without sign or leading zero.\<close>

definition LastIndexByte :: "string \<Rightarrow> char \<Rightarrow> nat option" where
  "LastIndexByte s c = map_option (\<lambda>i. length s - 1 - i) (IndexByte (rev s) c)"

definition ParsePrefix :: "string \<Rightarrow> Prefix option" where
  "ParsePrefix s =
     (case LastIndexByte s CHR ''/'' of
        None \<Rightarrow> None
      | Some i \<Rightarrow>
          let bits = drop (i + 1) s
          in case ParseAddr (take i s) of
               None \<Rightarrow> None
             | Some (a, z) \<Rightarrow>
                 if z \<noteq> [] \<or> bits = [] \<or> \<not> list_all is_digit bits \<or> (1 < length bits \<and> hd bits = CHR ''0'')
                    \<or> BitLen a < dec_val bits
                 then None else Some (Some a, int (dec_val bits)))"

text \<open>The result is an error when an entry is neither a prefix nor an address.\<close>

fun ParseTrusted :: "string list \<Rightarrow> Prefix list option" where
  "ParseTrusted [] = Some []"
| "ParseTrusted (x # es) =
     (let e = TrimSpace x
      in if e = [] then ParseTrusted es
         else case ParsePrefix e of
                Some p \<Rightarrow> map_option ((#) (Masked p)) (ParseTrusted es)
              | None \<Rightarrow>
                  (case ParseAddr e of
                     None \<Rightarrow> None
                   | Some (a, z) \<Rightarrow>
                       let u = Unmap a in map_option ((#) (PrefixFrom u (int (BitLen u)))) (ParseTrusted es)))"

text \<open>\<open>Contains\<close> never holds for an address with a zone.\<close>

definition trusts :: "Prefix \<Rightarrow> zaddr \<Rightarrow> bool" where
  "trusts p a \<longleftrightarrow> snd a = [] \<and> prefix_Contains p (fst a)"

text \<open>The peer is the result of \<open>netip.ParseAddrPort\<close> on the remote address, \<open>None\<close> when that fails.\<close>

definition isTrusted :: "AddrPort option \<Rightarrow> Prefix list \<Rightarrow> bool" where
  "isTrusted peer trusted =
     (case peer of
        None \<Rightarrow> False
      | Some ap \<Rightarrow> (case ap_Addr ap of None \<Rightarrow> False | Some a \<Rightarrow> list_ex (\<lambda>p. trusts p (zUnmap a)) trusted))"

section \<open>Reading a header\<close>

datatype pp_error =
    ReadError
  | NoEndOfLine
  | BadHeader
  | BadFields
  | BadAddress
  | BadFamily
  | BadSignature
  | BadVersion
  | TooLong
  | BadCommand
  | Truncated

type_synonym endpoints = "(TCPAddr \<times> TCPAddr) option"

definition v2Sig :: string where
  "v2Sig = [CHR 0x0D, CHR 0x0A, CHR 0x0D, CHR 0x0A, CHR 0x00, CHR 0x0D, CHR 0x0A, CHR ''Q'', CHR ''U'', CHR ''I'', CHR ''T'', CHR 0x0A]"

definition v1MaxLen :: nat where
  "v1MaxLen = 107"

definition maxV2PayloadSize :: nat where
  "maxV2PayloadSize = 4096"

text \<open>The loop that reads a line of at most \<open>room\<close> bytes: the line and the rest of the stream.\<close>

fun read_line :: "nat \<Rightarrow> string \<Rightarrow> (string \<times> string) option" where
  "read_line 0 s = Some ([], s)"
| "read_line (Suc room) [] = None"
| "read_line (Suc room) (b # s) =
     (if b = CHR 0x0A then Some ([b], s) else map_option (\<lambda>(l, r). (b # l, r)) (read_line room s))"

text \<open>\<open>strings.Fields\<close>.\<close>

fun fields_acc :: "string \<Rightarrow> string \<Rightarrow> string list" where
  "fields_acc [] cur = (if cur = [] then [] else [rev cur])"
| "fields_acc (c # s) cur =
     (if is_space c then (if cur = [] then fields_acc s [] else rev cur # fields_acc s [])
      else fields_acc s (c # cur))"

definition Fields :: "string \<Rightarrow> string list" where
  "Fields s = fields_acc s []"

text \<open>\<open>strconv.ParseUint(s, 10, 16)\<close>.\<close>

definition ParseUint16 :: "string \<Rightarrow> nat option" where
  "ParseUint16 s = (if s = [] \<or> \<not> list_all is_digit s \<or> 65535 < dec_val s then None else Some (dec_val s))"

definition v1_fields :: "string list \<Rightarrow> pp_error + endpoints" where
  "v1_fields f =
     (if length f < 2 \<or> f ! 0 \<noteq> ''PROXY'' then Inl BadHeader
      else if f ! 1 = ''UNKNOWN'' then Inr None
      else if length f \<noteq> 6 \<or> (f ! 1 \<noteq> ''TCP4'' \<and> f ! 1 \<noteq> ''TCP6'') then Inl BadFields
      else (case (ParseAddr (f ! 2), ParseAddr (f ! 3), ParseUint16 (f ! 4), ParseUint16 (f ! 5)) of
              (Some sa, Some da, Some sp, Some dp) \<Rightarrow>
                if (f ! 1 = ''TCP4'') \<noteq> Is4 (fst sa) \<or> (f ! 1 = ''TCP4'') \<noteq> Is4 (fst da) then Inl BadFamily
                else Inr (Some (tcpAddr sa sp, tcpAddr da dp))
            | _ \<Rightarrow> Inl BadAddress))"

text \<open>The readers return the announced endpoints and the stream after the header.\<close>

definition readV1 :: "string \<Rightarrow> pp_error + (endpoints \<times> string)" where
  "readV1 br =
     (case read_line v1MaxLen br of
        None \<Rightarrow> Inl ReadError
      | Some (line, rest) \<Rightarrow>
          if \<not> HasSuffix line [CHR 0x0D, CHR 0x0A] then Inl NoEndOfLine
          else (case v1_fields (Fields line) of Inl e \<Rightarrow> Inl e | Inr ep \<Rightarrow> Inr (ep, rest)))"

definition v2_addresses :: "nat \<Rightarrow> string \<Rightarrow> pp_error + endpoints" where
  "v2_addresses len payload =
     (if length payload < 2 * len + 4 then Inl Truncated
      else (case (AddrFromSlice (take len payload), AddrFromSlice (take len (drop len payload))) of
              (Some sa, Some da) \<Rightarrow>
                Inr (Some (tcpAddr (sa, []) (be_val (take 2 (drop (2 * len) payload))),
                           tcpAddr (da, []) (be_val (take 2 (drop (2 * len + 2) payload)))))
            | _ \<Rightarrow> Inr None))"

text \<open>The meaning of a version 2 header: command byte, family byte and payload.\<close>

definition v2_payload :: "nat \<Rightarrow> nat \<Rightarrow> string \<Rightarrow> pp_error + endpoints" where
  "v2_payload cmd fam payload =
     (if cmd mod 16 = 0 then Inr None
      else if cmd mod 16 \<noteq> 1 then Inl BadCommand
      else if fam = 0x11 then v2_addresses 4 payload
      else if fam = 0x21 then v2_addresses 16 payload
      else Inr None)"

definition readV2 :: "string \<Rightarrow> pp_error + (endpoints \<times> string)" where
  "readV2 br =
     (if length br < 16 then Inl ReadError
      else (let hdr = take 16 br; rest = drop 16 br; n = be_val (drop 14 hdr)
            in if take 12 hdr \<noteq> v2Sig then Inl BadSignature
               else if b2n (hdr ! 12) div 16 \<noteq> 2 then Inl BadVersion
               else if maxV2PayloadSize < n then Inl TooLong
               else if length rest < n then Inl ReadError
               else (case v2_payload (b2n (hdr ! 12)) (b2n (hdr ! 13)) (take n rest) of
                       Inl e \<Rightarrow> Inl e
                     | Inr ep \<Rightarrow> Inr (ep, drop n rest))))"

text \<open>A connection: the announced endpoints, if any, and what its reader will deliver.\<close>

record Conn =
  pc_announced :: endpoints
  pc_stream :: string

definition handshake :: "string \<Rightarrow> pp_error + Conn" where
  "handshake br =
     (if length br < 5 then Inl ReadError
      else (let res = (if take 5 br = ''PROXY'' then readV1 br
                       else if take 5 br = take 5 v2Sig then readV2 br
                       else Inr (None, br))
            in case res of Inl e \<Rightarrow> Inl e | Inr (ep, rest) \<Rightarrow> Inr \<lparr>pc_announced = ep, pc_stream = rest\<rparr>))"

text \<open>What the listener does with an accepted connection; an error closes it.\<close>

definition accept_conn :: "Prefix list \<Rightarrow> AddrPort option \<Rightarrow> string \<Rightarrow> pp_error + Conn" where
  "accept_conn trusted peer br =
     (if isTrusted peer trusted then handshake br else Inr \<lparr>pc_announced = None, pc_stream = br\<rparr>)"

text \<open>\<open>RemoteAddr\<close> and \<open>LocalAddr\<close>: the announced address, the socket's own without one.\<close>

definition RemoteAddr :: "TCPAddr \<Rightarrow> Conn \<Rightarrow> TCPAddr" where
  "RemoteAddr own c = (case pc_announced c of Some (src, dst) \<Rightarrow> src | None \<Rightarrow> own)"

definition LocalAddr :: "TCPAddr \<Rightarrow> Conn \<Rightarrow> TCPAddr" where
  "LocalAddr own c = (case pc_announced c of Some (src, dst) \<Rightarrow> dst | None \<Rightarrow> own)"

section \<open>Writing a header\<close>

text \<open>Decimal digits (\<open>%d\<close>) and the textual form of an address.\<close>

fun dec_digits :: "nat \<Rightarrow> string" where
  "dec_digits n = (if n < 10 then [char_of (48 + n)] else dec_digits (n div 10) @ [char_of (48 + n mod 10)])"

fun hex_digits :: "nat \<Rightarrow> string" where
  "hex_digits n =
     (let d = (\<lambda>k. char_of (if k < 10 then 48 + k else 87 + k))
      in if n < 16 then [d n] else hex_digits (n div 16) @ [d (n mod 16)])"

declare dec_digits.simps [simp del] hex_digits.simps [simp del]

definition ipv4_string :: "32 word \<Rightarrow> string" where
  "ipv4_string w = Join (map (\<lambda>b. dec_digits (b2n b)) (be_bytes 4 (unat w))) ''.''"

definition ipv6_group_list :: "128 word \<Rightarrow> nat list" where
  "ipv6_group_list w = map (\<lambda>k. unat w div 65536 ^ (7 - k) mod 65536) [0..<8]"

text \<open>The first of the longest runs of at least two zero groups, as start and end.\<close>

definition zero_run :: "nat list \<Rightarrow> nat \<Rightarrow> nat" where
  "zero_run gs i = length (takeWhile (\<lambda>g. g = 0) (drop i gs))"

definition best_run :: "nat list \<Rightarrow> nat \<times> nat" where
  "best_run gs =
     fold (\<lambda>i (s, e). if 2 \<le> zero_run gs i \<and> e - s < zero_run gs i then (i, i + zero_run gs i) else (s, e))
       [0..<length gs] (255, 255)"

definition ipv6_string :: "128 word \<Rightarrow> string" where
  "ipv6_string w =
     (let gs = ipv6_group_list w; hex = (\<lambda>xs. Join (map hex_digits xs) '':'')
      in case best_run gs of (s, e) \<Rightarrow>
           if s = 255 then hex gs else hex (take s gs) @ ''::'' @ hex (drop e gs))"

text \<open>\<open>Addr.String\<close>; the mapped form is dotted.\<close>

fun addr_String :: "zaddr \<Rightarrow> string" where
  "addr_String (V4 w, z) = ipv4_string w"
| "addr_String (V6 w, z) =
     (if Is4In6 (V6 w) then ''::ffff:'' @ ipv4_string (ucast w) else ipv6_string w)
       @ (if z = [] then [] else CHR ''%'' # z)"

definition Header :: "string \<Rightarrow> AddrPort \<Rightarrow> AddrPort \<Rightarrow> string" where
  "Header version src dst =
     (case (map_option zUnmap (ap_Addr src), map_option zUnmap (ap_Addr dst)) of
        (Some s, Some d) \<Rightarrow>
          if Is4 (fst s) \<noteq> Is4 (fst d)
          then (if version = ''v2'' then v2Sig @ [CHR 0x20, CHR 0x00, CHR 0x00, CHR 0x00]
                else ''PROXY UNKNOWN'' @ [CHR 0x0D, CHR 0x0A])
          else if version = ''v2'' then
            v2Sig @ (if Is4 (fst s) then [CHR 0x21, CHR 0x11, CHR 0x00, CHR 0x0C] else [CHR 0x21, CHR 0x21, CHR 0x00, CHR 0x24])
              @ addr_bytes (fst s) @ addr_bytes (fst d) @ be_bytes 2 (unat (ap_Port src)) @ be_bytes 2 (unat (ap_Port dst))
          else
            ''PROXY '' @ (if Is4 (fst s) then ''TCP4'' else ''TCP6'') @ '' '' @ addr_String s @ '' '' @ addr_String d
              @ '' '' @ dec_digits (unat (ap_Port src)) @ '' '' @ dec_digits (unat (ap_Port dst)) @ [CHR 0x0D, CHR 0x0A]
      | _ \<Rightarrow> if version = ''v2'' then v2Sig @ [CHR 0x20, CHR 0x00, CHR 0x00, CHR 0x00]
             else ''PROXY UNKNOWN'' @ [CHR 0x0D, CHR 0x0A])"

definition ValidVersion :: "string \<Rightarrow> bool" where
  "ValidVersion v \<longleftrightarrow> v = [] \<or> v = ''v1'' \<or> v = ''v2''"

section \<open>Encodings\<close>

lemma length_be_bytes [simp]: "length (be_bytes n v) = n"
  by (induction n arbitrary: v) auto

lemma b2n_char_of [simp]: "b2n (char_of n) = n mod 256"
  by (simp add: b2n_def)

lemma byte_literals: "char_of (12 :: nat) = CHR 0x0C" "char_of (36 :: nat) = CHR 0x24"
  by (simp_all flip: of_char_eq_iff [where 'a = nat])

lemma be_val_snoc: "be_val (s @ [c]) = be_val s * 256 + b2n c"
  by (simp add: be_val_def)

lemma be_val_bytes [simp]: "be_val (be_bytes n v) = v mod 256 ^ n"
proof (induction n arbitrary: v)
  case (Suc n)
  have "v div 256 mod 256 ^ n * 256 + v mod 256 = v mod 256 ^ Suc n"
    using mod_mult2_eq [of v 256 "256 ^ n"] by simp
  then show ?case by (simp add: be_val_snoc Suc.IH)
qed (simp add: be_val_def)

lemma addr_bytes_length [simp]: "length (addr_bytes a) = (if Is4 a then 4 else 16)"
  by (cases a) simp_all

lemma AddrFromSlice_bytes [simp]: "AddrFromSlice (addr_bytes a) = Some a"
proof (cases a)
  case (V4 w)
  have "unat w mod 256 ^ 4 = unat w" using unsigned_less [of w, where 'a = nat] by simp
  then show ?thesis using V4 by (simp add: AddrFromSlice_def)
next
  case (V6 w)
  have "unat w mod 256 ^ 16 = unat w" using unsigned_less [of w, where 'a = nat] by simp
  then show ?thesis using V6 by (simp add: AddrFromSlice_def)
qed

lemma port_bytes [simp]: "be_val (be_bytes 2 (unat (p :: 16 word))) = unat p"
  using unsigned_less [of p, where 'a = nat] by simp

section \<open>Round trip of version 2\<close>

lemma v2_addresses_encode:
  assumes "length (addr_bytes a) = len" and "length (addr_bytes b) = len"
  shows "v2_addresses len (addr_bytes a @ addr_bytes b @ be_bytes 2 (unat p) @ be_bytes 2 (unat (q :: 16 word)))
     = Inr (Some (\<lparr>ta_IP = a, ta_Port = p, ta_Zone = []\<rparr>, \<lparr>ta_IP = b, ta_Port = q, ta_Zone = []\<rparr>))"
proof -
  have "take 2 (drop (2 * len) (addr_bytes a @ addr_bytes b @ be_bytes 2 (unat p) @ be_bytes 2 (unat q))) = be_bytes 2 (unat p)"
    "take 2 (drop (2 * len + 2) (addr_bytes a @ addr_bytes b @ be_bytes 2 (unat p) @ be_bytes 2 (unat q))) = be_bytes 2 (unat q)"
    using assms by simp_all
  then show ?thesis using assms by (simp add: v2_addresses_def tcpAddr_def del: be_bytes.simps be_val_bytes)
qed

lemma readV2_frame:
  assumes "n = length payload" and "n < 256" and "v2_payload 0x21 (b2n fam) payload = Inr ep"
  shows "readV2 (v2Sig @ [CHR 0x21, fam, CHR 0x00, char_of n] @ payload @ rest) = Inr (ep, rest)"
proof -
  let ?br = "v2Sig @ [CHR 0x21, fam, CHR 0x00, char_of n] @ payload @ rest"
  have T: "take 16 ?br = v2Sig @ [CHR 0x21, fam, CHR 0x00, char_of n]" "drop 16 ?br = payload @ rest"
    by (simp_all add: v2Sig_def)
  have "be_val (drop 14 (v2Sig @ [CHR 0x21, fam, CHR 0x00, char_of n])) = n"
    using assms(2) by (simp add: v2Sig_def be_val_def b2n_def)
  moreover have "(v2Sig @ [CHR 0x21, fam, CHR 0x00, char_of n]) ! 12 = CHR 0x21" "(v2Sig @ [CHR 0x21, fam, CHR 0x00, char_of n]) ! 13 = fam"
    "take 12 (v2Sig @ [CHR 0x21, fam, CHR 0x00, char_of n]) = v2Sig" "16 \<le> length ?br"
    by (simp_all add: v2Sig_def)
  moreover have "b2n (CHR 0x21) = 0x21" by (simp add: b2n_def)
  ultimately show ?thesis
    unfolding readV2_def Let_def T using assms by (simp add: maxV2PayloadSize_def)
qed

text \<open>The endpoints a header can announce: both addresses known, of the same family once unmapped.\<close>

definition same_family :: "AddrPort \<Rightarrow> AddrPort \<Rightarrow> bool" where
  "same_family src dst =
     (case (ap_Addr src, ap_Addr dst) of
        (Some s, Some d) \<Rightarrow> Is4 (Unmap (fst s)) = Is4 (Unmap (fst d))
      | _ \<Rightarrow> False)"

definition announced :: "AddrPort \<Rightarrow> TCPAddr" where
  "announced ap = \<lparr>ta_IP = Unmap (fst (the (ap_Addr ap))), ta_Port = ap_Port ap, ta_Zone = []\<rparr>"

lemma readV2_Header:
  "readV2 (Header ''v2'' src dst @ rest) =
     Inr (if same_family src dst then Some (announced src, announced dst) else None, rest)"
proof (cases "same_family src dst")
  case False
  then have "Header ''v2'' src dst = v2Sig @ [CHR 0x20, CHR 0x00, CHR 0x00, CHR 0x00]"
    by (auto simp: Header_def same_family_def zUnmap_def split: option.splits)
  then show ?thesis using False
    by (simp add: readV2_def v2Sig_def Let_def be_val_def b2n_def v2_payload_def maxV2PayloadSize_def)
next
  case True
  then obtain s d where sd: "ap_Addr src = Some s" "ap_Addr dst = Some d" "Is4 (Unmap (fst s)) = Is4 (Unmap (fst d))"
    by (auto simp: same_family_def split: option.splits)
  let ?a = "Unmap (fst s)" and ?b = "Unmap (fst d)"
  let ?payload = "addr_bytes ?a @ addr_bytes ?b @ be_bytes 2 (unat (ap_Port src)) @ be_bytes 2 (unat (ap_Port dst))"
  let ?len = "if Is4 ?a then 4 else 16 :: nat"
  let ?fam = "if Is4 ?a then CHR 0x11 else CHR 0x21"
  have H: "Header ''v2'' src dst @ rest = v2Sig @ [CHR 0x21, ?fam, CHR 0x00, char_of (2 * ?len + 4)] @ ?payload @ rest"
    using sd by (simp add: Header_def zUnmap_def byte_literals)
  have "v2_addresses ?len ?payload = Inr (Some (announced src, announced dst))"
    using sd by (subst v2_addresses_encode) (simp_all add: announced_def)
  then have "v2_payload 0x21 (b2n ?fam) ?payload = Inr (Some (announced src, announced dst))"
    by (auto simp: v2_payload_def b2n_def)
  then show ?thesis
    unfolding H using sd True by (subst readV2_frame) simp_all
qed

text \<open>
  C22: a version 2 header written towards a backend is read back by the version 2 reader: the endpoints
  of the connection, IPv4-mapped addresses unmapped and zones dropped, and exactly the bytes that
  follow the header. When the two addresses are not of one family the header announces nothing and the
  real address is kept.
\<close>

theorem header_v2_roundtrip:
  "handshake (Header ''v2'' src dst @ rest) =
     Inr \<lparr>pc_announced = (if same_family src dst then Some (announced src, announced dst) else None), pc_stream = rest\<rparr>"
proof -
  have "\<exists>tail. Header ''v2'' src dst = v2Sig @ tail"
    by (cases "ap_Addr src"; cases "ap_Addr dst") (auto simp: Header_def)
  then obtain tail where "Header ''v2'' src dst = v2Sig @ tail" ..
  then have "take 5 (Header ''v2'' src dst @ rest) = take 5 v2Sig" "5 \<le> length (Header ''v2'' src dst @ rest)"
    by (simp_all add: v2Sig_def)
  then show ?thesis
    by (simp add: handshake_def readV2_Header) (simp add: v2Sig_def)
qed

section \<open>Round trip of version 1\<close>

lemma is_digit_char [simp]: "k < 10 \<Longrightarrow> is_digit (char_of (48 + k :: nat))"
  by (simp add: is_digit_def)

lemma digit_val_char [simp]: "k < 10 \<Longrightarrow> digit_val (char_of (48 + k :: nat)) = k"
  by (simp add: digit_val_def)

lemma dec_digits_nonempty [simp]: "dec_digits n \<noteq> []"
  by (subst dec_digits.simps) simp

lemma dec_digits_facts:
  "list_all is_digit (dec_digits n) \<and> dec_val (dec_digits n) = n \<and> dec_digits n \<noteq> []
   \<and> (1 < length (dec_digits n) \<longrightarrow> hd (dec_digits n) \<noteq> CHR ''0'')"
proof (induction n rule: dec_digits.induct)
  case (1 n)
  show ?case
  proof (cases "n < 10")
    case True
    then show ?thesis by (simp add: dec_digits.simps [of n] dec_val_def)
  next
    case False
    have nz: "char_of (48 + k :: nat) \<noteq> CHR ''0''" if "0 < k" "k < 10" for k
      using that by (simp flip: of_char_eq_iff [where 'a = nat])
    have "hd (dec_digits (n div 10)) \<noteq> CHR ''0''"
    proof (cases "n div 10 < 10")
      case True
      then show ?thesis using nz [of "n div 10"] False by (simp add: dec_digits.simps [of "n div 10"])
    next
      case large: False
      have "1 < length (dec_digits (n div 10))"
        using large by (cases "dec_digits (n div 10 div 10)") (simp_all add: dec_digits.simps [of "n div 10"])
      then show ?thesis using "1.IH" [OF False] by blast
    qed
    then show ?thesis
      using False "1.IH" [OF False] by (simp add: dec_digits.simps [of n] dec_val_def)
  qed
qed

lemma dec_digits_length:
  "n < 10 ^ Suc k \<Longrightarrow> length (dec_digits n) \<le> Suc k"
proof (induction k arbitrary: n)
  case 0
  then show ?case by (simp add: dec_digits.simps [of n])
next
  case (Suc k)
  then have "n div 10 < 10 ^ Suc k" by (simp add: less_mult_imp_div_less)
  with Suc.IH [of "n div 10"] show ?case by (simp add: dec_digits.simps [of n])
qed

text \<open>Digits are none of the separators.\<close>

lemma digit_not_sep:
  "is_digit c \<Longrightarrow> \<not> is_space c \<and> c \<noteq> CHR ''.'' \<and> c \<noteq> CHR '':'' \<and> c \<noteq> CHR ''%'' \<and> c \<noteq> CHR 0x0A"
  by (auto simp: is_digit_def is_space_def)

lemma dec_digits_no_sep:
  "c \<in> set (dec_digits n) \<Longrightarrow> \<not> is_space c \<and> c \<noteq> CHR ''.'' \<and> c \<noteq> CHR '':'' \<and> c \<noteq> CHR ''%'' \<and> c \<noteq> CHR 0x0A"
  using dec_digits_facts [of n] by (auto simp: list_all_iff intro!: digit_not_sep)

lemma split_on_append: "c \<notin> set xs \<Longrightarrow> split_on c (xs @ c # ys) = xs # split_on c ys"
  by (induction xs) auto

lemma split_on_single: "c \<notin> set xs \<Longrightarrow> split_on c xs = [xs]"
  by (induction xs) auto

lemma find_first_sep: "(\<And>x. x \<in> set xs \<Longrightarrow> \<not> P x) \<Longrightarrow> P c \<Longrightarrow> find P (xs @ c # ys) = Some c"
  by (induction xs) auto

definition dotted :: "nat \<Rightarrow> nat \<Rightarrow> nat \<Rightarrow> nat \<Rightarrow> string" where
  "dotted a b c d = dec_digits a @ CHR ''.'' # dec_digits b @ CHR ''.'' # dec_digits c @ CHR ''.'' # dec_digits d"

lemma ipv4_field_digits: "n < 256 \<Longrightarrow> ipv4_field (dec_digits n) = Some n"
  using dec_digits_facts [of n] by (auto simp: ipv4_field_def)

lemma ParseAddr_dotted:
  assumes "a < 256" "b < 256" "c < 256" "d < 256"
  shows "ParseAddr (dotted a b c d) = Some (V4 (of_nat (((a * 256 + b) * 256 + c) * 256 + d)), [])"
proof -
  have "CHR ''.'' \<notin> set (dec_digits n)" for n using dec_digits_no_sep by blast
  then have "split_on CHR ''.'' (dotted a b c d) = [dec_digits a, dec_digits b, dec_digits c, dec_digits d]"
    by (simp add: dotted_def split_on_append split_on_single)
  then have "parseIPv4 (dotted a b c d) = Some (((a * 256 + b) * 256 + c) * 256 + d)"
    using assms by (simp add: parseIPv4_def ipv4_field_digits)
  moreover have "find (\<lambda>c. c \<in> {CHR ''.'', CHR '':'', CHR ''%''}) (dotted a b c d) = Some CHR ''.''"
    unfolding dotted_def by (rule find_first_sep) (use dec_digits_no_sep in auto)
  ultimately show ?thesis by (simp add: ParseAddr_def)
qed

lemma be_bytes_4:
  "be_bytes 4 v = [char_of (v div 256 div 256 div 256 mod 256), char_of (v div 256 div 256 mod 256), char_of (v div 256 mod 256), char_of (v mod 256)]"
proof -
  have four: "4 = Suc (Suc (Suc (Suc 0)))" by simp
  show ?thesis by (subst four) simp
qed

lemma ipv4_string_dotted:
  obtains a b c d where "ipv4_string w = dotted a b c d" "a < 256" "b < 256" "c < 256" "d < 256"
    "w = of_nat (((a * 256 + b) * 256 + c) * 256 + d)"
proof -
  let ?v = "unat w"
  let ?a = "?v div 256 div 256 div 256 mod 256" and ?b = "?v div 256 div 256 mod 256" and ?c = "?v div 256 mod 256" and ?d = "?v mod 256"
  have "?v < 4294967296" using unsigned_less [of w, where 'a = nat] by simp
  then have "?v div 256 div 256 div 256 < 256" by (simp add: less_mult_imp_div_less flip: div_mult2_eq)
  then have "?a = ?v div 256 div 256 div 256" by simp
  then have R: "((?a * 256 + ?b) * 256 + ?c) * 256 + ?d = ?v" by (simp only: div_mult_mod_eq)
  have "w = of_nat (((?a * 256 + ?b) * 256 + ?c) * 256 + ?d)" unfolding R by simp
  moreover have "ipv4_string w = dotted ?a ?b ?c ?d"
    by (simp add: ipv4_string_def dotted_def be_bytes_4)
  ultimately show thesis using that [of ?a ?b ?c ?d] by simp
qed

lemma ParseAddr_ipv4_string: "ParseAddr (ipv4_string w) = Some (V4 w, [])"
  by (rule ipv4_string_dotted [of w]) (simp add: ParseAddr_dotted)

text \<open>A word: not empty and without white space.\<close>

definition is_word :: "string \<Rightarrow> bool" where
  "is_word s \<longleftrightarrow> s \<noteq> [] \<and> list_all (\<lambda>c. \<not> is_space c) s"

lemma is_word_ipv4: "is_word (ipv4_string w)" and length_ipv4: "length (ipv4_string w) \<le> 15"
proof -
  obtain a b c d where w: "ipv4_string w = dotted a b c d" and lt: "a < 256" "b < 256" "c < 256" "d < 256"
    by (rule ipv4_string_dotted [of w])
  show "is_word (ipv4_string w)"
    unfolding w dotted_def is_word_def using dec_digits_no_sep by (auto simp: list_all_iff is_space_def)
  have "length (dec_digits n) \<le> 3" if "n < 256" for n using dec_digits_length [of n 2] that by simp
  from this [OF lt(1)] this [OF lt(2)] this [OF lt(3)] this [OF lt(4)]
  show "length (ipv4_string w) \<le> 15" unfolding w dotted_def by simp
qed

lemma is_word_digits: "is_word (dec_digits n)"
  using dec_digits_facts [of n] dec_digits_no_sep [of _ n] by (auto simp: is_word_def list_all_iff)

lemma fields_acc_word:
  "list_all (\<lambda>c. \<not> is_space c) w \<Longrightarrow> fields_acc (w @ s) cur = fields_acc s (rev w @ cur)"
  by (induction w arbitrary: cur) auto

lemma Fields_word: "is_word w \<Longrightarrow> is_space c \<Longrightarrow> Fields (w @ c # s) = w # Fields s"
  by (auto simp: Fields_def is_word_def fields_acc_word)

lemma Fields_blank: "Fields [CHR 0x0A] = []"
  by (simp add: Fields_def is_space_def)

lemma is_space_literals: "is_space CHR '' ''" "is_space CHR 0x0D"
  by (simp_all add: is_space_def)

lemma read_line_exact:
  "CHR 0x0A \<notin> set l \<Longrightarrow> length l < room \<Longrightarrow> read_line room (l @ CHR 0x0A # rest) = Some (l @ [CHR 0x0A], rest)"
proof (induction l arbitrary: room)
  case Nil
  then show ?case by (cases room) auto
next
  case (Cons b l)
  then show ?case by (cases room) auto
qed

lemma word_no_newline: "is_word w \<Longrightarrow> CHR 0x0A \<notin> set w"
  by (auto simp: is_word_def list_all_iff is_space_def)

definition v1_line :: "string list \<Rightarrow> string" where
  "v1_line ws = Join ws '' '' @ [CHR 0x0D, CHR 0x0A]"

lemma Fields_v1_line: "ws \<noteq> [] \<Longrightarrow> list_all is_word ws \<Longrightarrow> Fields (v1_line ws) = ws"
  by (induction ws rule: induct_list012)
    (auto simp: v1_line_def Fields_word Fields_blank is_space_literals)

lemma readV1_line:
  assumes "ws \<noteq> []" "list_all is_word ws" "length (v1_line ws) \<le> v1MaxLen" and "v1_fields ws = Inr ep"
  shows "readV1 (v1_line ws @ rest) = Inr (ep, rest)"
proof -
  have "CHR 0x0A \<notin> set (Join ws '' '')"
    using assms(2) by (induction ws rule: induct_list012) (auto simp: word_no_newline)
  then have "read_line v1MaxLen (v1_line ws @ rest) = Some (v1_line ws, rest)"
    using assms(3) read_line_exact [of "Join ws '' '' @ [CHR 0x0D]" v1MaxLen rest] by (simp add: v1_line_def)
  moreover have "HasSuffix (v1_line ws) [CHR 0x0D, CHR 0x0A]" by (simp add: v1_line_def HasSuffix_iff)
  ultimately show ?thesis using Fields_v1_line [OF assms(1,2)] assms(4) by (simp add: readV1_def)
qed

lemma ParseUint16_digits: "ParseUint16 (dec_digits (unat (p :: 16 word))) = Some (unat p)"
  using dec_digits_facts [of "unat p"] unsigned_less [of p, where 'a = nat] by (auto simp: ParseUint16_def)

text \<open>
  A version 1 header between two IPv4 endpoints is read back exactly, and the reader consumes
  nothing of what follows it.
\<close>

theorem header_v1_ipv4_roundtrip:
  assumes "ap_Addr src = Some (a, za)" and "ap_Addr dst = Some (b, zb)" and "Unmap a = V4 s" and "Unmap b = V4 d"
  shows "handshake (Header ''v1'' src dst @ rest) =
     Inr \<lparr>pc_announced = Some (\<lparr>ta_IP = V4 s, ta_Port = ap_Port src, ta_Zone = []\<rparr>,
                               \<lparr>ta_IP = V4 d, ta_Port = ap_Port dst, ta_Zone = []\<rparr>),
          pc_stream = rest\<rparr>"
proof -
  let ?ws = "[''PROXY'', ''TCP4'', ipv4_string s, ipv4_string d, dec_digits (unat (ap_Port src)), dec_digits (unat (ap_Port dst))]"
  have H: "Header ''v1'' src dst = v1_line ?ws"
    using assms by (simp add: Header_def zUnmap_def v1_line_def)
  have "unat p < 10 ^ Suc 4" for p :: "16 word" using unsigned_less [of p, where 'a = nat] by simp
  then have L: "length (dec_digits (unat p)) \<le> 5" for p :: "16 word"
    using dec_digits_length [of "unat p" 4] by simp
  have "length (v1_line ?ws) \<le> v1MaxLen"
    using L [of "ap_Port src"] L [of "ap_Port dst"] length_ipv4 [of s] length_ipv4 [of d] by (simp add: v1_line_def v1MaxLen_def)
  moreover have "list_all is_word ?ws"
    using is_word_ipv4 is_word_digits by (simp add: is_word_def is_space_def)
  moreover have "v1_fields ?ws = Inr (Some (tcpAddr (V4 s, []) (unat (ap_Port src)), tcpAddr (V4 d, []) (unat (ap_Port dst))))"
    by (simp add: v1_fields_def ParseAddr_ipv4_string ParseUint16_digits)
  ultimately have R: "readV1 (v1_line ?ws @ rest) = Inr (Some (tcpAddr (V4 s, []) (unat (ap_Port src)), tcpAddr (V4 d, []) (unat (ap_Port dst))), rest)"
    by (intro readV1_line) simp_all
  have "take 5 (v1_line ?ws @ rest) = ''PROXY''" "5 \<le> length (v1_line ?ws @ rest)" by (simp_all add: v1_line_def)
  then show ?thesis unfolding H handshake_def R by (simp add: tcpAddr_def)
qed

theorem header_v1_ipv4_roundtrip_witness:
  "handshake (Header ''v1'' \<lparr>ap_Addr = Some (V4 0x01020304, []), ap_Port = 443\<rparr> \<lparr>ap_Addr = Some (V4 0x0A000001, []), ap_Port = 80\<rparr> @ ''GET'') =
     Inr \<lparr>pc_announced = Some (\<lparr>ta_IP = V4 0x01020304, ta_Port = 443, ta_Zone = []\<rparr>, \<lparr>ta_IP = V4 0x0A000001, ta_Port = 80, ta_Zone = []\<rparr>),
          pc_stream = ''GET''\<rparr>"
  using header_v1_ipv4_roundtrip [of "\<lparr>ap_Addr = Some (V4 0x01020304, []), ap_Port = 443\<rparr>" "V4 0x01020304" "[]"
      "\<lparr>ap_Addr = Some (V4 0x0A000001, []), ap_Port = 80\<rparr>" "V4 0x0A000001" "[]" "0x01020304" "0x0A000001" "''GET''"]
  by (simp add: Unmap_def)

section \<open>No spoofing\<close>

text \<open>
  A connection whose peer is not one of the trusted prefixes is never interpreted: whatever it
  sends, a forged header included, is delivered unchanged, and its addresses are those of the socket.
\<close>

theorem untrusted_verbatim:
  assumes "\<not> isTrusted peer trusted"
  shows "\<exists>c. accept_conn trusted peer br = Inr c \<and> pc_stream c = br \<and> RemoteAddr own c = own \<and> LocalAddr own' c = own'"
  using assms by (simp add: accept_conn_def RemoteAddr_def LocalAddr_def)

theorem untrusted_verbatim_witness:
  "\<not> isTrusted (Some \<lparr>ap_Addr = Some (V4 0x01020304, []), ap_Port = 1\<rparr>) [(Some (V4 0x0A000000), 8)]
   \<and> (\<exists>c. accept_conn [(Some (V4 0x0A000000), 8)] (Some \<lparr>ap_Addr = Some (V4 0x01020304, []), ap_Port = 1\<rparr>) ''PROXY TCP4'' = Inr c
         \<and> pc_stream c = ''PROXY TCP4'')"
  using untrusted_verbatim [of "Some \<lparr>ap_Addr = Some (V4 0x01020304, []), ap_Port = 1\<rparr>" "[(Some (V4 0x0A000000), 8)]" "''PROXY TCP4''"]
  by (auto simp: isTrusted_def trusts_def prefix_Contains_def zUnmap_def Unmap_def)

end
