(* ===== verification/Rate_Limit.thy ===== *)
theory Rate_Limit
  imports Dispatch
begin

text \<open>
  Rate limiting (\<open>internal/edge/middleware/ratelimit.go\<close>, \<open>ratelimit_shared.go\<close>): the token buckets of
  the clients, their store, and the rates the gateways of a group tell each other. Token counts and rates
  are rationals. The instants read while one request is handled are taken to be one instant. Iterations
  over a map that delete entries are filters.
\<close>

section \<open>Token bucket\<close>

record rateLimiter =
  rb_tokens :: rat
  rb_maxTokens :: rat
  rb_refillRate :: rat
  rb_lastRefill :: go_time
  rb_lastSeen :: go_time

definition Seconds :: "go_duration \<Rightarrow> rat" where
  "Seconds d = of_int d / 10 ^ 9"

definition rateFloor :: rat where
  "rateFloor = 1 / 10"

definition effectiveRate :: "rat \<Rightarrow> rat \<Rightarrow> rat" where
  "effectiveRate rps peers = max (rps - peers) (rps * rateFloor)"

definition allowWithPeers :: "go_time \<Rightarrow> rat \<Rightarrow> rateLimiter \<Rightarrow> bool \<times> rat \<times> rateLimiter" where
  "allowWithPeers now peers r =
     (let elapsed = Seconds (time_sub now (rb_lastRefill r));
          refill = (if 0 < peers then effectiveRate (rb_refillRate r) peers else rb_refillRate r);
          tokens = min (rb_maxTokens r) (rb_tokens r + elapsed * refill);
          r1 = r\<lparr>rb_lastRefill := now, rb_lastSeen := now, rb_tokens := tokens\<rparr>
      in if 1 \<le> tokens then (True, tokens - 1, r1\<lparr>rb_tokens := tokens - 1\<rparr>) else (False, tokens, r1))"

definition burst_of :: "RateLimitConfig \<Rightarrow> rat" where
  "burst_of cfg = (if rl_Burst cfg = 0 then rl_RequestsPerSecond cfg * 2 else of_int (rl_Burst cfg))"

definition applyConfig :: "RateLimitConfig \<Rightarrow> rateLimiter \<Rightarrow> rateLimiter" where
  "applyConfig cfg r =
     r\<lparr>rb_maxTokens := burst_of cfg, rb_refillRate := rl_RequestsPerSecond cfg,
       rb_tokens := (if burst_of cfg < rb_tokens r then burst_of cfg else rb_tokens r)\<rparr>"

section \<open>Store\<close>

record rateLimitStore =
  rs_buckets :: "(string, rateLimiter) gomap"
  rs_lastPurge :: go_time
  rs_idleTTL :: go_duration
  rs_purgeEvery :: go_duration

definition rlStore :: rateLimitStore where
  "rlStore = \<lparr>rs_buckets = [], rs_lastPurge = zero_time, rs_idleTTL = 600 * 10 ^ 9, rs_purgeEvery = 60 * 10 ^ 9\<rparr>"

definition rl_purgeLocked :: "go_time \<Rightarrow> rateLimitStore \<Rightarrow> rateLimitStore" where
  "rl_purgeLocked now s =
     (if rs_purgeEvery s \<le> 0 \<or> rs_idleTTL s \<le> 0 then s
      else if rs_lastPurge s \<noteq> zero_time \<and> time_sub now (rs_lastPurge s) < rs_purgeEvery s then s
      else s\<lparr>rs_lastPurge := now,
              rs_buckets := filter (\<lambda>(k, r). \<not> rs_idleTTL s < time_sub now (rb_lastSeen r)) (rs_buckets s)\<rparr>)"

definition newBucket :: "go_time \<Rightarrow> RateLimitConfig \<Rightarrow> rateLimiter" where
  "newBucket now cfg =
     \<lparr>rb_tokens = burst_of cfg, rb_maxTokens = burst_of cfg, rb_refillRate = rl_RequestsPerSecond cfg,
      rb_lastRefill = now, rb_lastSeen = now\<rparr>"

definition rl_get :: "go_time \<Rightarrow> string \<Rightarrow> RateLimitConfig \<Rightarrow> rateLimitStore \<Rightarrow> rateLimiter \<times> rateLimitStore" where
  "rl_get now key cfg s0 =
     (let s = rl_purgeLocked now s0;
          r = (case gm_get (rs_buckets s) key of Some b \<Rightarrow> applyConfig cfg b | None \<Rightarrow> newBucket now cfg)
      in (r, s\<lparr>rs_buckets := gm_set key r (rs_buckets s)\<rparr>))"

text \<open>One request: the bucket of its key, and the decision written back through the pointer.\<close>

definition rate_request :: "RateLimitConfig \<Rightarrow> go_time \<times> string \<times> rat \<Rightarrow> rateLimitStore \<Rightarrow> bool \<times> rateLimitStore" where
  "rate_request cfg q s =
     (case q of (now, key, peers) \<Rightarrow>
        case rl_get now key cfg s of (r, s1) \<Rightarrow>
          case allowWithPeers now peers r of (ok, tokens, r1) \<Rightarrow>
            (ok, s1\<lparr>rs_buckets := gm_set key r1 (rs_buckets s1)\<rparr>))"

definition rateLimitKey :: "string \<Rightarrow> proxy_request \<Rightarrow> bool \<Rightarrow> RateLimitConfig \<Rightarrow> string" where
  "rateLimitKey ip r hasClaims cfg =
     (let by = rl_KeyBy cfg;
          claim = (\<lambda>name. if name = [] then ip
             else (case gm_get (pq_Claims r) name of Some (ClaimString s) \<Rightarrow> if s \<noteq> [] then s else ip | _ \<Rightarrow> ip))
      in if by = [] \<or> by = ''ip'' then ip
         else if HasPrefix by ''header:'' then
           (let v = Header_Get r (drop 7 by) in if v \<noteq> [] then ''h:'' @ v else ip)
         else if HasPrefix by ''cookie:'' then
           (case req_Cookie r (drop 7 by) of Some v \<Rightarrow> if v \<noteq> [] then ''c:'' @ v else ip | None \<Rightarrow> ip)
         else if \<not> hasClaims then ip
         else if by = ''jwt_sub'' then claim ''sub''
         else if by = ''jwt_email'' then claim ''email''
         else if HasPrefix by ''jwt_claim:'' then claim (drop 10 by)
         else ip)"

section \<open>The bound of a token bucket\<close>

text \<open>The number of requests of \<open>key\<close> let through.\<close>

fun admitted_count :: "RateLimitConfig \<Rightarrow> string \<Rightarrow> (go_time \<times> string \<times> rat) list \<Rightarrow> rateLimitStore \<Rightarrow> nat" where
  "admitted_count cfg key [] s = 0"
| "admitted_count cfg key (q # qs) s =
     (case rate_request cfg q s of (ok, s1) \<Rightarrow> of_bool (ok \<and> fst (snd q) = key) + admitted_count cfg key qs s1)"

text \<open>Buckets hold no negative number of tokens, and were last used in the past.\<close>

definition buckets_ok :: "go_time \<Rightarrow> rateLimitStore \<Rightarrow> bool" where
  "buckets_ok now s \<longleftrightarrow> gm_ok (rs_buckets s) \<and> (\<forall>k r. gm_get (rs_buckets s) k = Some r \<longrightarrow> 0 \<le> rb_tokens r \<and> rb_lastRefill r \<le> now)"

lemma Seconds_mono: "a \<le> b \<Longrightarrow> Seconds a \<le> Seconds b"
  by (simp add: Seconds_def divide_right_mono)

lemma time_sub_forward: "b \<le> a \<Longrightarrow> 0 \<le> time_sub a b \<and> time_sub a b \<le> a - b"
  by (auto simp: time_sub_def max_duration_def)

lemma effectiveRate_bounds: "0 \<le> rps \<Longrightarrow> 0 < peers \<Longrightarrow> 0 \<le> effectiveRate rps peers \<and> effectiveRate rps peers \<le> rps"
  by (auto simp: effectiveRate_def rateFloor_def)

lemma allow_potential:
  assumes "0 \<le> rb_refillRate r" and "0 \<le> rb_maxTokens r" and "0 \<le> rb_tokens r" and "rb_lastRefill r \<le> now"
    and "allowWithPeers now peers r = (ok, tk, r1)"
  shows "of_bool ok + rb_tokens r1 \<le> rb_tokens r + rb_refillRate r * Seconds (now - rb_lastRefill r)"
    and "of_bool ok + rb_tokens r1 \<le> rb_maxTokens r" and "0 \<le> rb_tokens r1"
    and "rb_lastRefill r1 = now" and "rb_lastSeen r1 = now"
    and "rb_maxTokens r1 = rb_maxTokens r" and "rb_refillRate r1 = rb_refillRate r"
proof -
  let ?e = "Seconds (time_sub now (rb_lastRefill r))"
  let ?f = "if 0 < peers then effectiveRate (rb_refillRate r) peers else rb_refillRate r"
  have e: "0 \<le> ?e" "?e \<le> Seconds (now - rb_lastRefill r)"
    using time_sub_forward [OF assms(4)] Seconds_mono [of 0] by (auto simp: Seconds_def divide_right_mono)
  have f: "0 \<le> ?f" "?f \<le> rb_refillRate r"
    using effectiveRate_bounds [OF assms(1), of peers] assms(1) by auto
  have "?e * ?f \<le> Seconds (now - rb_lastRefill r) * rb_refillRate r"
    using e f assms(1) by (intro mult_mono) auto
  then have le: "rb_tokens r + ?e * ?f \<le> rb_tokens r + rb_refillRate r * Seconds (now - rb_lastRefill r)"
    by (simp add: mult.commute)
  have ge: "0 \<le> rb_tokens r + ?e * ?f" using assms(3) e f by simp
  show "of_bool ok + rb_tokens r1 \<le> rb_tokens r + rb_refillRate r * Seconds (now - rb_lastRefill r)"
    "of_bool ok + rb_tokens r1 \<le> rb_maxTokens r" "0 \<le> rb_tokens r1"
    "rb_lastRefill r1 = now" "rb_lastSeen r1 = now" "rb_maxTokens r1 = rb_maxTokens r" "rb_refillRate r1 = rb_refillRate r"
    using assms(2,5) le ge unfolding allowWithPeers_def Let_def by (auto split: if_splits)
qed

lemma map_of_filter:
  "distinct (map fst m) \<Longrightarrow> map_of (filter P m) k = (case map_of m k of None \<Rightarrow> None | Some v \<Rightarrow> if P (k, v) then Some v else None)"
proof (induction m)
  case (Cons e m)
  obtain k' v' where e: "e = (k', v')" by (cases e)
  have "map_of m k' = None" using Cons.prems e by (simp add: map_of_eq_None_iff)
  then show ?case using Cons e by (auto split: option.split)
qed simp

lemma purge_buckets:
  "rs_buckets (rl_purgeLocked now s) = rs_buckets s
   \<or> rs_buckets (rl_purgeLocked now s) = filter (\<lambda>(k, r). \<not> rs_idleTTL s < time_sub now (rb_lastSeen r)) (rs_buckets s)"
  by (simp add: rl_purgeLocked_def)

lemma purge_config [simp]: "rs_idleTTL (rl_purgeLocked now s) = rs_idleTTL s"
  by (simp add: rl_purgeLocked_def)

lemma buckets_ok_later: "buckets_ok t s \<Longrightarrow> t \<le> now \<Longrightarrow> buckets_ok now s"
  by (force simp: buckets_ok_def)

lemma buckets_ok_purge: "buckets_ok t s \<Longrightarrow> buckets_ok t (rl_purgeLocked now s)"
  using purge_buckets [of now s]
  by (auto simp: buckets_ok_def gm_ok_def distinct_map_filter map_of_filter split: option.splits if_splits)

lemma get_purged:
  assumes "gm_ok (rs_buckets s)" and "gm_get (rs_buckets s) key = Some b" and "now - rb_lastSeen b \<le> rs_idleTTL s"
    and "rb_lastSeen b \<le> now"
  shows "gm_get (rs_buckets (rl_purgeLocked now s)) key = Some b"
  using purge_buckets [of now s] assms time_sub_forward [OF assms(4)]
  by (auto simp: gm_ok_def map_of_filter)

text \<open>The bucket a request works on.\<close>

lemma rl_get_bucket:
  assumes "buckets_ok now s" and "0 \<le> burst_of cfg" and "rl_get now key cfg s = (r, s1)"
  shows "0 \<le> rb_tokens r" "rb_tokens r \<le> burst_of cfg" "rb_lastRefill r \<le> now"
    "rb_maxTokens r = burst_of cfg" "rb_refillRate r = rl_RequestsPerSecond cfg"
proof -
  have P: "buckets_ok now (rl_purgeLocked now s)" using assms(1) by (rule buckets_ok_purge)
  have "0 \<le> rb_tokens b \<and> rb_lastRefill b \<le> now" if "gm_get (rs_buckets (rl_purgeLocked now s)) key = Some b" for b
    using P that by (simp add: buckets_ok_def)
  then show "0 \<le> rb_tokens r" "rb_tokens r \<le> burst_of cfg" "rb_lastRefill r \<le> now"
    "rb_maxTokens r = burst_of cfg" "rb_refillRate r = rl_RequestsPerSecond cfg"
    using assms(2,3) by (auto simp: rl_get_def Let_def applyConfig_def newBucket_def split: option.splits)
qed

lemma rate_request_store:
  assumes "buckets_ok now s" and "0 \<le> burst_of cfg" and "0 \<le> rl_RequestsPerSecond cfg"
    and "rate_request cfg (now, key', peers) s = (ok, s1)"
  shows "buckets_ok now s1" and "rs_idleTTL s1 = rs_idleTTL s"
    and "key \<noteq> key' \<Longrightarrow> gm_get (rs_buckets s1) key = gm_get (rs_buckets (rl_purgeLocked now s)) key"
    and "\<exists>r. gm_get (rs_buckets s1) key' = Some r \<and> rb_lastRefill r = now \<and> rb_lastSeen r = now \<and> 0 \<le> rb_tokens r
           \<and> rb_maxTokens r = burst_of cfg \<and> rb_refillRate r = rl_RequestsPerSecond cfg \<and> of_bool ok + rb_tokens r \<le> burst_of cfg"
proof -
  obtain r s' where g: "rl_get now key' cfg s = (r, s')" by (cases "rl_get now key' cfg s")
  obtain tk r1 where a: "allowWithPeers now peers r = (ok, tk, r1)" and s1: "s1 = s'\<lparr>rs_buckets := gm_set key' r1 (rs_buckets s')\<rparr>"
    using assms(4) g by (auto simp: rate_request_def split: prod.splits)
  note B = rl_get_bucket [OF assms(1,2) g]
  have A: "of_bool ok + rb_tokens r1 \<le> burst_of cfg" "0 \<le> rb_tokens r1" "rb_lastRefill r1 = now" "rb_lastSeen r1 = now"
      "rb_maxTokens r1 = burst_of cfg" "rb_refillRate r1 = rl_RequestsPerSecond cfg"
    using allow_potential [OF _ _ B(1,3) a] B assms(2,3) by simp_all
  have s': "s' = (rl_purgeLocked now s)\<lparr>rs_buckets := gm_set key' r (rs_buckets (rl_purgeLocked now s))\<rparr>"
    using g by (auto simp: rl_get_def Let_def)
  have P: "buckets_ok now (rl_purgeLocked now s)" using assms(1) by (rule buckets_ok_purge)
  show "buckets_ok now s1"
    using P A(2,3) unfolding s1 s' by (simp add: buckets_ok_def)
  show "rs_idleTTL s1 = rs_idleTTL s" by (simp add: s1 s')
  show "key \<noteq> key' \<Longrightarrow> gm_get (rs_buckets s1) key = gm_get (rs_buckets (rl_purgeLocked now s)) key" by (simp add: s1 s')
  show "\<exists>r. gm_get (rs_buckets s1) key' = Some r \<and> rb_lastRefill r = now \<and> rb_lastSeen r = now \<and> 0 \<le> rb_tokens r
         \<and> rb_maxTokens r = burst_of cfg \<and> rb_refillRate r = rl_RequestsPerSecond cfg \<and> of_bool ok + rb_tokens r \<le> burst_of cfg"
    using A by (simp add: s1)
qed

text \<open>Once the key has been seen in the interval its bucket is never purged, and pays for every admission.\<close>

lemma admitted_seen:
  assumes "0 \<le> rl_RequestsPerSecond cfg" and "0 \<le> burst_of cfg"
    and "buckets_ok now s" and "gm_get (rs_buckets s) key = Some b"
    and "rb_maxTokens b = burst_of cfg" and "rb_refillRate b = rl_RequestsPerSecond cfg" and "rb_tokens b \<le> burst_of cfg"
    and "t0 \<le> rb_lastSeen b" and "rb_lastSeen b \<le> now" and "sorted (now # map fst qs)"
    and "\<forall>q\<in>set qs. fst q \<le> t1" and "now \<le> t1" and "t1 - t0 \<le> rs_idleTTL s"
  shows "of_nat (admitted_count cfg key qs s) \<le> rb_tokens b + rl_RequestsPerSecond cfg * Seconds (t1 - rb_lastRefill b)"
  using assms
proof (induction qs arbitrary: now s b)
  case Nil
  then have "0 \<le> rb_tokens b" "0 \<le> Seconds (t1 - rb_lastRefill b)"
    by (auto simp: buckets_ok_def Seconds_def intro: order_trans)
  then show ?case using Nil.prems(1) by simp
next
  case (Cons q qs)
  obtain t k peers where q: "q = (t, k, peers)" by (cases q)
  obtain ok s1 where rr: "rate_request cfg (t, k, peers) s = (ok, s1)" by (cases "rate_request cfg (t, k, peers) s")
  have t: "now \<le> t" "t \<le> t1" "sorted (t # map fst qs)" using Cons.prems(10,11) q by auto
  have B: "buckets_ok t s" using buckets_ok_later [OF Cons.prems(3) t(1)] .
  note R = rate_request_store [OF B Cons.prems(2,1) rr]
  have kept: "gm_get (rs_buckets (rl_purgeLocked t s)) key = Some b"
    using get_purged [of s key b t] Cons.prems t B by (simp add: buckets_ok_def)
  show ?case
  proof (cases "k = key")
    case False
    have "of_nat (admitted_count cfg key qs s1) \<le> rb_tokens b + rl_RequestsPerSecond cfg * Seconds (t1 - rb_lastRefill b)"
      using R(3) [of key] kept False Cons.prems t R(1,2) by (intro Cons.IH [of t]) auto
    then show ?thesis using False q rr by simp
  next
    case True
    obtain r tk r1 where g: "fst (rl_get t key cfg s) = r" and a: "allowWithPeers t peers r = (ok, tk, r1)"
        and s1: "gm_get (rs_buckets s1) key = Some r1"
      using rr True by (auto simp: rate_request_def split: prod.splits)
    have r: "r = b" using g kept Cons.prems(5,6,7) by (cases b) (simp add: rl_get_def Let_def applyConfig_def)
    have b0: "0 \<le> rb_tokens b" "rb_lastRefill b \<le> t" using B Cons.prems(4) by (auto simp: buckets_ok_def)
    note A = allow_potential [OF _ _ _ _ a [unfolded r]]
    have A1: "of_bool ok + rb_tokens r1 \<le> rb_tokens b + rl_RequestsPerSecond cfg * Seconds (t - rb_lastRefill b)"
      and A2: "rb_lastRefill r1 = t" "rb_lastSeen r1 = t" "rb_maxTokens r1 = burst_of cfg" "rb_refillRate r1 = rl_RequestsPerSecond cfg"
        "rb_tokens r1 \<le> burst_of cfg"
      using A b0 Cons.prems(1,2,5,6) by (auto simp: of_bool_def split: if_splits)
    have "of_nat (admitted_count cfg key qs s1) \<le> rb_tokens r1 + rl_RequestsPerSecond cfg * Seconds (t1 - rb_lastRefill r1)"
      using R(1,2) s1 A2 Cons.prems t by (intro Cons.IH [of t]) auto
    moreover have "rl_RequestsPerSecond cfg * Seconds (t1 - rb_lastRefill b)
        = rl_RequestsPerSecond cfg * Seconds (t1 - t) + rl_RequestsPerSecond cfg * Seconds (t - rb_lastRefill b)"
      by (simp add: Seconds_def diff_divide_distrib algebra_simps)
    ultimately have "of_bool ok + of_nat (admitted_count cfg key qs s1)
        \<le> rb_tokens b + rl_RequestsPerSecond cfg * Seconds (t1 - rb_lastRefill b)"
      using A1 A2(1) by simp
    then show ?thesis using True q rr by simp
  qed
qed

text \<open>
  C34: with one configuration, the requests of a key that the limiter lets through during any interval of
  at most the idle time (ten minutes) are at most the burst plus the rate times the length of the
  interval, whatever requests of other keys, purges and announcements of peers are interleaved.
\<close>

theorem rate_bounded:
  assumes "0 \<le> rl_RequestsPerSecond cfg" and "0 \<le> burst_of cfg" and "buckets_ok t0 s"
    and "sorted (t0 # map fst qs)" and "list_all (\<lambda>q. fst q \<le> t1) qs" and "t0 \<le> t1" and "t1 - t0 \<le> rs_idleTTL s"
  shows "of_nat (admitted_count cfg key qs s) \<le> burst_of cfg + rl_RequestsPerSecond cfg * Seconds (t1 - t0)"
proof -
  let ?rps = "rl_RequestsPerSecond cfg"
  have "of_nat (admitted_count cfg key qs s) \<le> burst_of cfg + ?rps * Seconds (t1 - t0)"
    if "buckets_ok now s" "sorted (now # map fst qs)" "\<forall>q\<in>set qs. fst q \<le> t1" "t0 \<le> now" "now \<le> t1" "t1 - t0 \<le> rs_idleTTL s"
    for now s qs
    using that
  proof (induction qs arbitrary: now s)
    case Nil
    have "0 \<le> Seconds (t1 - t0)" using assms(6) by (simp add: Seconds_def)
    then show ?case using assms(1,2) by simp
  next
    case (Cons q qs)
    obtain t k peers where q: "q = (t, k, peers)" by (cases q)
    obtain ok s1 where rr: "rate_request cfg (t, k, peers) s = (ok, s1)" by (cases "rate_request cfg (t, k, peers) s")
    have t: "now \<le> t" "t \<le> t1" "sorted (t # map fst qs)" using Cons.prems(2,3) q by auto
    note R = rate_request_store [OF buckets_ok_later [OF Cons.prems(1) t(1)] assms(2,1) rr]
    show ?case
    proof (cases "k = key")
      case False
      have "of_nat (admitted_count cfg key qs s1) \<le> burst_of cfg + ?rps * Seconds (t1 - t0)"
        using R(1,2) t Cons.prems by (intro Cons.IH [of t]) auto
      then show ?thesis using False q rr by simp
    next
      case True
      obtain r where r: "gm_get (rs_buckets s1) key = Some r" "rb_lastRefill r = t" "rb_lastSeen r = t" "rb_maxTokens r = burst_of cfg"
          "rb_refillRate r = ?rps" "of_bool ok + rb_tokens r \<le> burst_of cfg"
        using R(4) True by blast
      have "of_nat (admitted_count cfg key qs s1) \<le> rb_tokens r + ?rps * Seconds (t1 - rb_lastRefill r)"
        using R(1,2) r t Cons.prems assms(1,2)
        by (intro admitted_seen [of cfg t s1 key r t0 qs t1]) (auto simp: of_bool_def split: if_splits)
      moreover have "?rps * Seconds (t1 - t) \<le> ?rps * Seconds (t1 - t0)"
        using assms(1) t(1) Cons.prems(4) by (intro mult_left_mono Seconds_mono) auto
      ultimately show ?thesis using True q rr r(2,6) by simp
    qed
  qed
  then show ?thesis using assms(3-7) by (simp add: list_all_iff)
qed

definition demo_rate :: "rat \<Rightarrow> int \<Rightarrow> RateLimitConfig" where
  "demo_rate rps burst = \<lparr>rl_RequestsPerSecond = rps, rl_Burst = burst, rl_KeyBy = [], rl_Quota = 0, rl_QuotaPeriod = [], rl_Shared = False\<rparr>"

theorem rate_bounded_witness:
  "of_nat (admitted_count (demo_rate 1 2) ''c'' [(1, ''c'', 0), (2, ''d'', 0), (3, ''c'', 0)] rlStore)
     \<le> burst_of (demo_rate 1 2) + rl_RequestsPerSecond (demo_rate 1 2) * Seconds (10 - 1)"
  using rate_bounded [of "demo_rate 1 2" 1 rlStore "[(1, ''c'', 0), (2, ''d'', 0), (3, ''c'', 0)]" 10 "''c''"]
  by (simp add: demo_rate_def burst_of_def buckets_ok_def rlStore_def gm_ok_def)

text \<open>
  The buckets are found by the key of the client alone, so two routes share the bucket of a client and each
  request gives it the configuration of its own route. By alternating with a route of a high rate, a client
  is let through by a route that allows one request per second once every two milliseconds.
\<close>

fun mixed_requests :: "(RateLimitConfig \<times> (go_time \<times> string \<times> rat)) list \<Rightarrow> rateLimitStore \<Rightarrow> bool list" where
  "mixed_requests [] s = []"
| "mixed_requests ((cfg, q) # qs) s = (case rate_request cfg q s of (ok, s1) \<Rightarrow> ok # mixed_requests qs s1)"

lemma strict_route_bypassed:
  "mixed_requests
     [(demo_rate 1 1, (10 ^ 9, ''c'', 0)),
      (demo_rate 1000 1000, (10 ^ 9 + 2000000, ''c'', 0)), (demo_rate 1 1, (10 ^ 9 + 2000000, ''c'', 0)),
      (demo_rate 1000 1000, (10 ^ 9 + 4000000, ''c'', 0)), (demo_rate 1 1, (10 ^ 9 + 4000000, ''c'', 0))] rlStore
   = [True, True, True, True, True]
   \<and> mixed_requests [(demo_rate 1 1, (10 ^ 9, ''c'', 0)), (demo_rate 1 1, (10 ^ 9 + 2000000, ''c'', 0))] rlStore = [True, False]"
  by code_simp

section \<open>Rates of a group of gateways\<close>

definition rateSlots :: nat where
  "rateSlots = 10"

definition rateSlotSpan :: go_duration where
  "rateSlotSpan = 100 * 10 ^ 6"

record rateTracker =
  tk_slots :: "int list"
  tk_idx :: int
  tk_seen :: go_time

definition zero_tracker :: rateTracker where
  "zero_tracker = \<lparr>tk_slots = replicate rateSlots 0, tk_idx = 0, tk_seen = zero_time\<rparr>"

text \<open>Instants after 1970, so that the remainders are those of natural numbers.\<close>

definition slot_of :: "int \<Rightarrow> nat" where
  "slot_of i = nat (i mod int rateSlots)"

definition advance :: "go_time \<Rightarrow> rateTracker \<Rightarrow> rateTracker" where
  "advance now t =
     (let cur = now div rateSlotSpan
      in if tk_idx t = 0 then t\<lparr>tk_idx := cur\<rparr>
         else (let gap = cur - tk_idx t
               in if gap \<le> 0 then t
                  else if int rateSlots \<le> gap then t\<lparr>tk_slots := replicate rateSlots 0, tk_idx := cur\<rparr>
                  else t\<lparr>tk_slots := fold (\<lambda>i ss. ss[slot_of (tk_idx t + i) := 0]) [1..gap] (tk_slots t), tk_idx := cur\<rparr>))"

definition tracker_add :: "go_time \<Rightarrow> rateTracker \<Rightarrow> rateTracker" where
  "tracker_add now t0 =
     (let t = advance now t0; i = slot_of (tk_idx t) in t\<lparr>tk_slots := (tk_slots t)[i := tk_slots t ! i + 1], tk_seen := now\<rparr>)"

definition tracker_rate :: "go_time \<Rightarrow> rateTracker \<Rightarrow> int \<times> rateTracker" where
  "tracker_rate now t0 = (let t = advance now t0 in (sum_list (tk_slots t), t))"

text \<open>The reference: how many of the admissions fall into a slot.\<close>

definition in_slot :: "go_time list \<Rightarrow> int \<Rightarrow> int" where
  "in_slot ts j = int (length (filter (\<lambda>t. t div rateSlotSpan = j) ts))"

definition tracks :: "go_time list \<Rightarrow> rateTracker \<Rightarrow> bool" where
  "tracks ts t \<longleftrightarrow>
     length (tk_slots t) = rateSlots \<and> 0 < tk_idx t \<and> (\<forall>x\<in>set ts. x div rateSlotSpan \<le> tk_idx t)
     \<and> (\<forall>j. tk_idx t - int rateSlots < j \<and> j \<le> tk_idx t \<longrightarrow> tk_slots t ! slot_of j = in_slot ts j)"

lemma slot_of_less [simp]: "slot_of j < rateSlots"
  by (simp add: slot_of_def rateSlots_def nat_less_iff)

lemma slot_of_eq:
  assumes "\<bar>j - j'\<bar> < int rateSlots"
  shows "slot_of j = slot_of j' \<longleftrightarrow> j = j'"
proof
  assume "slot_of j = slot_of j'"
  then have "j mod 10 = j' mod 10" by (simp add: slot_of_def rateSlots_def eq_nat_nat_iff)
  then obtain k where "j - j' = 10 * k" by (auto simp: mod_eq_dvd_iff)
  then show "j = j'" using assms unfolding rateSlots_def by arith
qed simp

lemma fold_zero_slots:
  "m < length ss \<Longrightarrow> fold (\<lambda>i ss. ss[g i := 0]) is ss ! m = (if m \<in> g ` set is then 0 else ss ! m)"
  by (induction "is" arbitrary: ss) (auto simp: nth_list_update)

lemma length_fold_slots [simp]: "length (fold (\<lambda>i ss. ss[g i := 0]) is ss) = length ss"
  by (induction "is" arbitrary: ss) auto

lemma in_slot_later: "\<forall>x\<in>set ts. x div rateSlotSpan \<le> c \<Longrightarrow> c < j \<Longrightarrow> in_slot ts j = 0"
  by (auto simp: in_slot_def filter_empty_conv)

lemma advance_tracks:
  assumes "tracks ts t" and "tk_idx t \<le> now div rateSlotSpan"
  shows "tracks ts (advance now t)" and "tk_idx (advance now t) = now div rateSlotSpan"
proof -
  let ?c = "tk_idx t" and ?n = "now div rateSlotSpan"
  have c: "0 < ?c" "length (tk_slots t) = rateSlots" "\<forall>x\<in>set ts. x div rateSlotSpan \<le> ?c"
      "\<And>j. ?c - int rateSlots < j \<Longrightarrow> j \<le> ?c \<Longrightarrow> tk_slots t ! slot_of j = in_slot ts j"
    using assms(1) by (auto simp: tracks_def)
  have later: "\<forall>x\<in>set ts. x div rateSlotSpan \<le> ?n" using c(3) assms(2) by auto
  consider (same) "?n = ?c" | (far) "int rateSlots \<le> ?n - ?c" | (near) "0 < ?n - ?c" "?n - ?c < int rateSlots"
    using assms(2) by linarith
  then have "tracks ts (advance now t) \<and> tk_idx (advance now t) = ?n"
  proof cases
    case same
    then show ?thesis using assms(1) c(1) by (simp add: advance_def Let_def)
  next
    case far
    have "\<not> ?n - ?c \<le> 0" using far by (simp add: rateSlots_def)
    moreover have "in_slot ts j = 0" if "?n - int rateSlots < j" for j
      using in_slot_later [OF c(3), of j] that far by simp
    ultimately show ?thesis
      using far c(1) later by (simp add: advance_def Let_def tracks_def)
  next
    case near
    let ?ss = "fold (\<lambda>i ss. ss[slot_of (?c + i) := 0]) [1..?n - ?c] (tk_slots t)"
    have adv: "advance now t = t\<lparr>tk_slots := ?ss, tk_idx := ?n\<rparr>"
      using near c(1) by (simp add: advance_def Let_def)
    have "?ss ! slot_of j = in_slot ts j" if j: "?n - int rateSlots < j" "j \<le> ?n" for j
    proof (cases "j \<le> ?c")
      case True
      have "slot_of (?c + i) \<noteq> slot_of j" if "i \<in> set [1..?n - ?c]" for i
        using slot_of_eq [of "?c + i" j] that j True by auto
      then have "slot_of j \<notin> (\<lambda>i. slot_of (?c + i)) ` set [1..?n - ?c]" by force
      then show ?thesis using fold_zero_slots [of "slot_of j" "tk_slots t" "\<lambda>i. slot_of (?c + i)" "[1..?n - ?c]"] c(2,4) j True near by simp
    next
      case False
      then have "slot_of j = slot_of (?c + (j - ?c))" "j - ?c \<in> set [1..?n - ?c]" using j by auto
      then have "slot_of j \<in> (\<lambda>i. slot_of (?c + i)) ` set [1..?n - ?c]" by blast
      then show ?thesis
        using fold_zero_slots [of "slot_of j" "tk_slots t" "\<lambda>i. slot_of (?c + i)" "[1..?n - ?c]"] c(2) in_slot_later [OF c(3), of j] False by simp
    qed
    then show ?thesis using adv c(1,2) near later by (simp add: tracks_def)
  qed
  then show "tracks ts (advance now t)" "tk_idx (advance now t) = ?n" by simp_all
qed

lemma advance_zero:
  assumes "0 < now div rateSlotSpan"
  shows "tracks [] (advance now zero_tracker)" and "tk_idx (advance now zero_tracker) = now div rateSlotSpan"
  using assms by (auto simp: advance_def zero_tracker_def tracks_def in_slot_def)

lemma add_tracks:
  assumes "tracks ts (advance now t)" and "tk_idx (advance now t) = now div rateSlotSpan"
  shows "tracks (ts @ [now]) (tracker_add now t)" and "tk_idx (tracker_add now t) = now div rateSlotSpan"
proof -
  let ?t = "advance now t" and ?n = "now div rateSlotSpan"
  have t: "length (tk_slots ?t) = rateSlots" "0 < ?n" "\<forall>x\<in>set ts. x div rateSlotSpan \<le> ?n"
      "\<And>j. ?n - int rateSlots < j \<Longrightarrow> j \<le> ?n \<Longrightarrow> tk_slots ?t ! slot_of j = in_slot ts j"
    using assms by (auto simp: tracks_def)
  let ?ss = "(tk_slots ?t)[slot_of ?n := tk_slots ?t ! slot_of ?n + 1]"
  have add: "tracker_add now t = ?t\<lparr>tk_slots := ?ss, tk_seen := now\<rparr>"
    by (simp add: tracker_add_def Let_def assms(2))
  have "?ss ! slot_of j = in_slot (ts @ [now]) j" if j: "?n - int rateSlots < j" "j \<le> ?n" for j
  proof (cases "j = ?n")
    case True
    then show ?thesis using t(1,4) j by (simp add: in_slot_def)
  next
    case False
    then have "slot_of ?n \<noteq> slot_of j" using slot_of_eq [of ?n j] j by auto
    then show ?thesis using t(4) j False by (simp add: in_slot_def)
  qed
  then show "tracks (ts @ [now]) (tracker_add now t)" "tk_idx (tracker_add now t) = ?n"
    using add t(1-3) assms(2) by (simp_all add: tracks_def)
qed

lemma adds_track:
  assumes "sorted ts" and "\<forall>x\<in>set ts. 0 < x div rateSlotSpan" and "ts \<noteq> []"
  shows "tracks ts (fold tracker_add ts zero_tracker) \<and> tk_idx (fold tracker_add ts zero_tracker) = last ts div rateSlotSpan"
  using assms
proof (induction ts rule: rev_induct)
  case (snoc now ts)
  let ?t = "fold tracker_add ts zero_tracker"
  have "tracks ts (advance now ?t) \<and> tk_idx (advance now ?t) = now div rateSlotSpan"
  proof (cases "ts = []")
    case True
    then show ?thesis using advance_zero [of now] snoc.prems(2) by simp
  next
    case False
    then have IH: "tracks ts ?t" "tk_idx ?t = last ts div rateSlotSpan" using snoc by (auto simp: sorted_append)
    have "last ts \<le> now" using snoc.prems(1) False by (auto simp: sorted_append)
    then have "tk_idx ?t \<le> now div rateSlotSpan" unfolding IH(2) by (intro zdiv_mono1) (simp_all add: rateSlotSpan_def)
    then show ?thesis using advance_tracks [OF IH(1)] by blast
  qed
  then show ?case using add_tracks [of ts now ?t] by simp
qed simp

lemma window_sum:
  assumes "tracks ts t"
  shows "sum_list (tk_slots t) = (\<Sum>j\<in>{tk_idx t - int rateSlots <.. tk_idx t}. in_slot ts j)"
proof -
  let ?W = "{tk_idx t - int rateSlots <.. tk_idx t}"
  have inj: "inj_on slot_of ?W" using slot_of_eq by (auto simp: inj_on_def)
  have "card (slot_of ` ?W) = rateSlots" using card_image [OF inj] by simp
  moreover have "slot_of ` ?W \<subseteq> {0..<rateSlots}" by auto
  ultimately have img: "slot_of ` ?W = {0..<rateSlots}" by (intro card_subset_eq) simp_all
  have "sum_list (tk_slots t) = (\<Sum>m\<in>{0..<rateSlots}. tk_slots t ! m)"
    using assms by (simp add: tracks_def sum_list_sum_nth)
  also have "\<dots> = (\<Sum>j\<in>?W. tk_slots t ! slot_of j)"
    unfolding img [symmetric] by (rule sum.reindex [OF inj, unfolded comp_def])
  also have "\<dots> = (\<Sum>j\<in>?W. in_slot ts j)"
    using assms by (intro sum.cong) (simp_all add: tracks_def)
  finally show ?thesis .
qed

lemma sum_in_slot:
  "(\<Sum>j\<in>{a <.. b}. in_slot ts j) = int (length (filter (\<lambda>x. a < x div rateSlotSpan \<and> x div rateSlotSpan \<le> b) ts))"
proof (induction ts)
  case (Cons x ts)
  have "(\<Sum>j\<in>{a <.. b}. in_slot (x # ts) j) = (\<Sum>j\<in>{a <.. b}. in_slot ts j + of_bool (x div rateSlotSpan = j))"
    by (intro sum.cong) (auto simp: in_slot_def)
  also have "\<dots> = (\<Sum>j\<in>{a <.. b}. in_slot ts j) + of_bool (x div rateSlotSpan \<in> {a <.. b})"
    by (simp add: sum.distrib)
  finally show ?case using Cons.IH by simp
qed (simp add: in_slot_def)

text \<open>
  The rate a gateway announces for a key is exactly the number of requests admitted in the last ten
  slots of 100 ms, the current one included, whatever the gaps between requests.
\<close>

theorem tracker_sliding_window:
  assumes "sorted (ts @ [now])" and "list_all (\<lambda>x. rateSlotSpan \<le> x) (ts @ [now])"
  shows "fst (tracker_rate now (fold tracker_add ts zero_tracker))
     = int (length (filter (\<lambda>x. now div rateSlotSpan - int rateSlots < x div rateSlotSpan) ts))"
proof -
  have span: "0 < rateSlotSpan" by (simp add: rateSlotSpan_def)
  have pos: "0 < x div rateSlotSpan" if "rateSlotSpan \<le> x" for x
    using zdiv_mono1 [OF that span] span by simp
  let ?t = "fold tracker_add ts zero_tracker"
  have adv: "tracks ts (advance now ?t) \<and> tk_idx (advance now ?t) = now div rateSlotSpan"
  proof (cases "ts = []")
    case True
    then show ?thesis using advance_zero [of now] pos assms(2) by simp
  next
    case False
    have T: "tracks ts ?t" "tk_idx ?t = last ts div rateSlotSpan"
      using adds_track [of ts] False assms pos by (auto simp: sorted_append list_all_iff)
    have "last ts \<le> now" using assms(1) False by (auto simp: sorted_append)
    then have "tk_idx ?t \<le> now div rateSlotSpan" unfolding T(2) using span by (rule zdiv_mono1)
    then show ?thesis using advance_tracks [OF T(1)] by blast
  qed
  have "x div rateSlotSpan \<le> now div rateSlotSpan" if "x \<in> set ts" for x
    using assms(1) that span by (auto simp: sorted_append intro: zdiv_mono1)
  then have "filter (\<lambda>x. now div rateSlotSpan - int rateSlots < x div rateSlotSpan \<and> x div rateSlotSpan \<le> now div rateSlotSpan) ts
      = filter (\<lambda>x. now div rateSlotSpan - int rateSlots < x div rateSlotSpan) ts"
    by (intro filter_cong) auto
  then show ?thesis
    using window_sum [of ts "advance now ?t"] adv by (simp add: tracker_rate_def Let_def sum_in_slot)
qed

theorem tracker_sliding_window_witness:
  "fst (tracker_rate 2000000000 (fold tracker_add [1000000000, 1150000000, 1900000000] zero_tracker)) = 2"
  using tracker_sliding_window [of "[1000000000, 1150000000, 1900000000]" 2000000000]
  by (simp add: rateSlotSpan_def rateSlots_def)

section \<open>Exchange between gateways\<close>

record rateShareStore =
  ss_local :: "(string, rateTracker) gomap"
  ss_peers :: "(string, (string, rat \<times> go_time) gomap) gomap"
  ss_lastSeen :: go_time

definition rateFreshness :: go_duration where
  "rateFreshness = 1500 * 10 ^ 6"

definition rateMaxKeys :: nat where
  "rateMaxKeys = 50000"

definition rate_fresh :: "go_time \<Rightarrow> string \<times> rat \<times> go_time \<Rightarrow> bool" where
  "rate_fresh now e \<longleftrightarrow> \<not> rateFreshness < time_sub now (snd (snd e))"

text \<open>Stale announcements are deleted on the way; a key without map stays without one.\<close>

definition peerRateSum :: "string \<Rightarrow> go_time \<Rightarrow> rateShareStore \<Rightarrow> rat \<times> rateShareStore" where
  "peerRateSum key now s =
     (case gm_get (ss_peers s) key of
        None \<Rightarrow> (0, s)
      | Some m \<Rightarrow> (let m' = filter (rate_fresh now) m
                   in (sum_list (map (\<lambda>e. fst (snd e)) m'), s\<lparr>ss_peers := gm_set key m' (ss_peers s)\<rparr>)))"

definition rate_admitted :: "string \<Rightarrow> go_time \<Rightarrow> rateShareStore \<Rightarrow> rateShareStore" where
  "rate_admitted key now s =
     (let loc = (if rateMaxKeys \<le> length (ss_local s)
                 then filter (\<lambda>(k, t). \<not> 5 * 10 ^ 9 < time_sub now (tk_seen t)) (ss_local s) else ss_local s);
          s1 = s\<lparr>ss_local := loc\<rparr>
      in case gm_get loc key of
           Some t \<Rightarrow> s1\<lparr>ss_local := gm_set key (tracker_add now t) loc, ss_lastSeen := now\<rparr>
         | None \<Rightarrow> if rateMaxKeys \<le> length loc then s1
                   else s1\<lparr>ss_local := gm_set key (tracker_add now zero_tracker) loc, ss_lastSeen := now\<rparr>)"

definition rate_export :: "go_time \<Rightarrow> rateShareStore \<Rightarrow> (string \<times> rat) list \<times> rateShareStore" where
  "rate_export now s =
     (let rated = map (\<lambda>(k, t). (k, tracker_rate now t)) (ss_local s)
      in (map (\<lambda>(k, n, t). (k, of_int n)) (filter (\<lambda>(k, n, t). 0 < n) rated), s\<lparr>ss_local := map (\<lambda>(k, n, t). (k, t)) rated\<rparr>))"

definition rate_merge_entry :: "string \<Rightarrow> go_time \<Rightarrow> string \<times> rat
     \<Rightarrow> (string, (string, rat \<times> go_time) gomap) gomap \<Rightarrow> (string, (string, rat \<times> go_time) gomap) gomap" where
  "rate_merge_entry peer now e ps =
     (case e of (key, rate) \<Rightarrow>
        if rate \<le> 0 \<or> key = [] then ps
        else (case gm_get ps key of
                Some m \<Rightarrow> gm_set key (gm_set peer (rate, now) m) ps
              | None \<Rightarrow> if rateMaxKeys \<le> length ps then ps else gm_set key [(peer, (rate, now))] ps))"

definition rate_merge :: "string \<Rightarrow> (string \<times> rat) list \<Rightarrow> go_time \<Rightarrow> rateShareStore \<Rightarrow> rateShareStore" where
  "rate_merge peer entries now s =
     (let seen = map fst (filter (\<lambda>(key, rate). \<not> (rate \<le> 0 \<or> key = [])) entries);
          ps = fold (rate_merge_entry peer now) entries (ss_peers s);
          trimmed = map (\<lambda>(k, m). (k, if gm_get m peer \<noteq> None \<and> k \<notin> set seen then gm_del peer m else m)) ps
      in s\<lparr>ss_peers := filter (\<lambda>(k, m). m \<noteq> []) trimmed\<rparr>)"

definition rates_active :: "go_time \<Rightarrow> rateShareStore \<Rightarrow> bool" where
  "rates_active now s \<longleftrightarrow> ss_lastSeen s \<noteq> zero_time \<and> time_sub now (ss_lastSeen s) < 30 * 10 ^ 9"

end
