(* ===== verification/Traffic_Limits.thy ===== *)
theory Traffic_Limits
  imports Rate_Limit
begin

text \<open>
  Quotas (\<open>internal/edge/middleware/quota.go\<close>), the limit of simultaneous connections per client
  (\<open>limitconn.go\<close>) and the bounded queue in front of saturated backends (\<open>backpressure.go\<close>). The
  operations on the counters run under a mutex or are atomic; an execution is the sequence of these
  steps.
\<close>

section \<open>Quotas\<close>

record quotaWindow =
  qw_end :: go_time
  qw_n :: int
  qw_shared :: bool
  qw_remote :: "(string, int) gomap"

type_synonym quotaStore = "(string, quotaWindow) gomap"

definition quota_total :: "quotaWindow \<Rightarrow> int" where
  "quota_total w = qw_n w + sum_list (map snd (qw_remote w))"

definition quotaPeriod :: "string \<Rightarrow> go_duration" where
  "quotaPeriod p = (if p = ''minute'' then 60 * 10 ^ 9 else if p = ''day'' then 24 * 3600 * 10 ^ 9 else 3600 * 10 ^ 9)"

definition quota_purgeLocked :: "go_time \<Rightarrow> quotaStore \<Rightarrow> quotaStore" where
  "quota_purgeLocked now m = (if length m \<le> 50000 then m else filter (\<lambda>(k, w). \<not> qw_end w < now) m)"

text \<open>
  \<open>strconv.FormatInt\<close> in base ten. Instants are nanoseconds since the Unix epoch, which is a multiple of
  every period counted from the origin of \<open>Time.Truncate\<close>.
\<close>

fun format_nat :: "nat \<Rightarrow> string" where
  "format_nat n = (if n < 10 then [char_of (48 + n)] else format_nat (n div 10) @ [char_of (48 + n mod 10)])"

declare format_nat.simps [simp del]

definition FormatInt :: "int \<Rightarrow> string" where
  "FormatInt i = (if i < 0 then CHR ''-'' # format_nat (nat (- i)) else format_nat (nat i))"

definition Truncate :: "go_time \<Rightarrow> go_duration \<Rightarrow> go_time" where
  "Truncate now period = now - now mod period"

definition quota_key :: "string \<Rightarrow> go_time \<Rightarrow> string" where
  "quota_key key start = key @ CHR 0x00 # FormatInt (start div 10 ^ 9)"

text \<open>The result is the decision, the rest, the delay and the store.\<close>

definition quota_take ::
    "go_time \<Rightarrow> string \<Rightarrow> int \<Rightarrow> go_duration \<Rightarrow> bool \<Rightarrow> quotaStore \<Rightarrow> bool \<times> int \<times> go_duration \<times> quotaStore" where
  "quota_take now key limit period shared m0 =
     (let start = Truncate now period;
          full = quota_key key start;
          m = quota_purgeLocked now m0;
          w0 = (case gm_get m full of Some w \<Rightarrow> w | None \<Rightarrow> \<lparr>qw_end = start + period, qw_n = 0, qw_shared = False, qw_remote = []\<rparr>);
          w = w0\<lparr>qw_shared := qw_shared w0 \<or> shared\<rparr>
      in if limit \<le> quota_total w then (False, 0, time_sub (qw_end w) now, gm_set full w m)
         else (let w1 = w\<lparr>qw_n := qw_n w + 1\<rparr>
               in (True, max (limit - quota_total w1) 0, time_sub (qw_end w1) now, gm_set full w1 m)))"

record QuotaEntry =
  qe_Key :: string
  qe_EndMs :: int
  qe_N :: int

definition ExportQuotas :: "go_time \<Rightarrow> quotaStore \<Rightarrow> QuotaEntry list" where
  "ExportQuotas now m =
     map (\<lambda>(k, w). \<lparr>qe_Key = k, qe_EndMs = qw_end w div 10 ^ 6, qe_N = qw_n w\<rparr>)
       (filter (\<lambda>(k, w). qw_shared w \<and> 0 < qw_n w \<and> now < qw_end w) m)"

definition merge_entry :: "go_time \<Rightarrow> string \<Rightarrow> QuotaEntry \<Rightarrow> quotaStore \<Rightarrow> quotaStore" where
  "merge_entry now peer e m =
     (let wend = qe_EndMs e * 10 ^ 6
      in if wend < now \<or> qe_N e \<le> 0 then m
         else (let w = (case gm_get m (qe_Key e) of Some w \<Rightarrow> w | None \<Rightarrow> \<lparr>qw_end = wend, qw_n = 0, qw_shared = False, qw_remote = []\<rparr>)
               in gm_set (qe_Key e) (w\<lparr>qw_remote := gm_set peer (max (gm_get0 (qw_remote w) 0 peer) (qe_N e)) (qw_remote w)\<rparr>) m))"

definition MergeQuotas :: "go_time \<Rightarrow> string \<Rightarrow> QuotaEntry list \<Rightarrow> quotaStore \<Rightarrow> quotaStore" where
  "MergeQuotas now peer entries m = fold (merge_entry now peer) entries m"

definition HasSharedQuotas :: "go_time \<Rightarrow> quotaStore \<Rightarrow> bool" where
  "HasSharedQuotas now m \<longleftrightarrow> list_ex (\<lambda>(k, w). qw_shared w \<and> now < qw_end w) m"

section \<open>The handler of rate limits and quotas\<close>

text \<open>The three package variables the handler works on.\<close>

record limiter_state =
  ls_rates :: rateLimitStore
  ls_shares :: rateShareStore
  ls_quotas :: quotaStore

text \<open>A refusal carries the delay of \<open>Retry-After\<close>; \<open>Remaining\<close> is the header of a quota, when one applies.\<close>

datatype rl_outcome = Served "int option" | RateExceeded | QuotaExceeded int

definition retry_secs :: "go_duration \<Rightarrow> int" where
  "retry_secs d = max (d div 10 ^ 9) 1"

definition rate_part :: "go_time \<Rightarrow> string \<Rightarrow> string \<Rightarrow> RateLimitConfig \<Rightarrow> limiter_state \<Rightarrow> bool \<times> limiter_state" where
  "rate_part now host key cfg s =
     (let shareKey = host @ CHR 0x00 # key;
          (peers, shares) = (if rl_Shared cfg then peerRateSum shareKey now (ls_shares s) else (0, ls_shares s));
          (allowed, rates) = rate_request cfg (now, key, peers) (ls_rates s);
          shares1 = (if allowed \<and> rl_Shared cfg then rate_admitted shareKey now shares else shares)
      in (allowed, s\<lparr>ls_rates := rates, ls_shares := shares1\<rparr>))"

definition quota_part :: "go_time \<Rightarrow> string \<Rightarrow> string \<Rightarrow> RateLimitConfig \<Rightarrow> limiter_state \<Rightarrow> rl_outcome \<times> limiter_state" where
  "quota_part now host key cfg s =
     (if rl_Quota cfg \<le> 0 then (Served None, s)
      else (case quota_take now (host @ CHR 0x00 # key) (rl_Quota cfg) (quotaPeriod (rl_QuotaPeriod cfg)) (rl_Shared cfg) (ls_quotas s) of
              (ok, remaining, retry, m) \<Rightarrow>
                (if ok then Served (Some remaining) else QuotaExceeded (retry_secs retry), s\<lparr>ls_quotas := m\<rparr>)))"

definition RateLimit :: "go_time \<Rightarrow> string \<Rightarrow> string \<Rightarrow> RateLimitConfig option \<Rightarrow> limiter_state \<Rightarrow> rl_outcome \<times> limiter_state" where
  "RateLimit now host key ocfg s =
     (case ocfg of
        None \<Rightarrow> (Served None, s)
      | Some cfg \<Rightarrow>
          if rl_RequestsPerSecond cfg \<le> 0 \<and> rl_Quota cfg \<le> 0 then (Served None, s)
          else if 0 < rl_RequestsPerSecond cfg then
            (case rate_part now host key cfg s of
               (allowed, s1) \<Rightarrow> if \<not> allowed then (RateExceeded, s1) else quota_part now host key cfg s1)
          else quota_part now host key cfg s)"

section \<open>Connections per client\<close>

record connCounter =
  cc_counts :: "(string, int) gomap"
  cc_lastSeen :: "(string, go_time) gomap"

definition cc_counter :: "go_time \<Rightarrow> string \<Rightarrow> connCounter \<Rightarrow> connCounter" where
  "cc_counter now ip cc =
     (let cc1 = cc\<lparr>cc_lastSeen := gm_set ip now (cc_lastSeen cc)\<rparr>
      in case gm_get (cc_counts cc1) ip of Some c \<Rightarrow> cc1 | None \<Rightarrow> cc1\<lparr>cc_counts := gm_set ip 0 (cc_counts cc1)\<rparr>)"

definition cc_purge :: "go_time \<Rightarrow> connCounter \<Rightarrow> connCounter" where
  "cc_purge now cc =
     (let dead = map fst (filter (\<lambda>(ip, t). t < now - 600 * 10 ^ 9 \<and> gm_get0 (cc_counts cc) 0 ip = 0) (cc_lastSeen cc))
      in cc\<lparr>cc_counts := filter (\<lambda>(ip, c). ip \<notin> set dead) (cc_counts cc),
            cc_lastSeen := filter (\<lambda>(ip, t). ip \<notin> set dead) (cc_lastSeen cc)\<rparr>)"

text \<open>A request enters with its key; it is served or refused and leaves later.\<close>

record conn_state =
  cn_cc :: connCounter
  cn_served :: "string list"
  cn_refused :: "string list"

datatype conn_event = Enter go_time string | LeaveServed string | LeaveRefused string | PurgeCounters go_time

definition cc_add :: "string \<Rightarrow> int \<Rightarrow> connCounter \<Rightarrow> connCounter" where
  "cc_add ip d cc = cc\<lparr>cc_counts := gm_set ip (gm_get0 (cc_counts cc) 0 ip + d) (cc_counts cc)\<rparr>"

fun conn_step :: "int \<Rightarrow> conn_event \<Rightarrow> conn_state \<Rightarrow> conn_state" where
  "conn_step limit (Enter now ip) s =
     (let cc = cc_add ip 1 (cc_counter now ip (cn_cc s))
      in if limit < gm_get0 (cc_counts cc) 0 ip then s\<lparr>cn_cc := cc, cn_refused := ip # cn_refused s\<rparr>
         else s\<lparr>cn_cc := cc, cn_served := ip # cn_served s\<rparr>)"
| "conn_step limit (LeaveServed ip) s =
     (if ip \<in> set (cn_served s) then s\<lparr>cn_cc := cc_add ip (- 1) (cn_cc s), cn_served := remove1 ip (cn_served s)\<rparr> else s)"
| "conn_step limit (LeaveRefused ip) s =
     (if ip \<in> set (cn_refused s) then s\<lparr>cn_cc := cc_add ip (- 1) (cn_cc s), cn_refused := remove1 ip (cn_refused s)\<rparr> else s)"
| "conn_step limit (PurgeCounters now) s = s\<lparr>cn_cc := cc_purge now (cn_cc s)\<rparr>"

section \<open>Backpressure\<close>

text \<open>
  The state a route shares between its generations: the occupied slots and the queue counter. The
  remaining fields count the requests at each point of the handler: found no free slot, about to be
  rejected because the queue is full, waiting, and leaving the queue.
\<close>

record bpState =
  bp_slots :: nat
  bp_queued :: int
  bp_missed :: nat
  bp_full :: nat
  bp_waiting :: nat
  bp_leaving :: nat

definition queue_wait :: "BackpressureConfig \<Rightarrow> go_duration" where
  "queue_wait cfg = (if 0 < bp_QueueTimeoutMs cfg then bp_QueueTimeoutMs cfg * 10 ^ 6 else 10 ^ 9)"

text \<open>
  The atomic steps of the handler: \<open>Arrive\<close> tries to take a slot, \<open>Enqueue\<close> raises the queue counter of
  a request that found none, \<open>QueueFull\<close> lowers it again for a request over the bound, \<open>Acquire\<close> and
  \<open>GiveUp\<close> (timeout or departure of the client) end the wait, \<open>Dequeue\<close> lowers the counter after it, and
  \<open>Finish\<close> frees the slot of a served request. A step whose request does not exist changes nothing.
\<close>

datatype bp_event = Arrive | Enqueue | QueueFull | Acquire | GiveUp | Dequeue | Finish

fun bp_step :: "BackpressureConfig \<Rightarrow> bp_event \<Rightarrow> bpState \<Rightarrow> bpState" where
  "bp_step cfg Arrive s =
     (if int (bp_slots s) < bp_MaxInflight cfg then s\<lparr>bp_slots := bp_slots s + 1\<rparr> else s\<lparr>bp_missed := bp_missed s + 1\<rparr>)"
| "bp_step cfg Enqueue s =
     (if bp_missed s = 0 then s
      else if max (bp_Queue cfg) 0 < bp_queued s + 1
      then s\<lparr>bp_missed := bp_missed s - 1, bp_queued := bp_queued s + 1, bp_full := bp_full s + 1\<rparr>
      else s\<lparr>bp_missed := bp_missed s - 1, bp_queued := bp_queued s + 1, bp_waiting := bp_waiting s + 1\<rparr>)"
| "bp_step cfg QueueFull s =
     (if 0 < bp_full s then s\<lparr>bp_queued := bp_queued s - 1, bp_full := bp_full s - 1\<rparr> else s)"
| "bp_step cfg Acquire s =
     (if 0 < bp_waiting s \<and> int (bp_slots s) < bp_MaxInflight cfg
      then s\<lparr>bp_slots := bp_slots s + 1, bp_waiting := bp_waiting s - 1, bp_leaving := bp_leaving s + 1\<rparr> else s)"
| "bp_step cfg GiveUp s =
     (if 0 < bp_waiting s then s\<lparr>bp_waiting := bp_waiting s - 1, bp_leaving := bp_leaving s + 1\<rparr> else s)"
| "bp_step cfg Dequeue s =
     (if 0 < bp_leaving s then s\<lparr>bp_queued := bp_queued s - 1, bp_leaving := bp_leaving s - 1\<rparr> else s)"
| "bp_step cfg Finish s = (if 0 < bp_slots s then s\<lparr>bp_slots := bp_slots s - 1\<rparr> else s)"

definition bp_start :: bpState where
  "bp_start = \<lparr>bp_slots = 0, bp_queued = 0, bp_missed = 0, bp_full = 0, bp_waiting = 0, bp_leaving = 0\<rparr>"

text \<open>
  \<open>bpRegistry\<close>: the states by key, each with its configuration. \<open>BackpressureShared\<close> gives the state the
  handlers of a new generation work on, if the route is limited.
\<close>

type_synonym bp_registry = "(string, BackpressureConfig \<times> bpState) gomap"

definition BackpressureShared :: "string \<Rightarrow> BackpressureConfig option \<Rightarrow> bp_registry \<Rightarrow> bpState option \<times> bp_registry" where
  "BackpressureShared key ocfg reg =
     (case ocfg of
        None \<Rightarrow> (None, gm_del key reg)
      | Some cfg \<Rightarrow>
          if bp_MaxInflight cfg \<le> 0 then (None, gm_del key reg)
          else (case gm_get reg key of
                  Some (c, st) \<Rightarrow> if c = cfg then (Some st, reg) else (Some bp_start, gm_set key (cfg, bp_start) reg)
                | None \<Rightarrow> (Some bp_start, gm_set key (cfg, bp_start) reg)))"

definition bp_ok :: "BackpressureConfig \<Rightarrow> bpState \<Rightarrow> bool" where
  "bp_ok cfg s \<longleftrightarrow>
     int (bp_slots s) \<le> bp_MaxInflight cfg \<and> int (bp_waiting s) \<le> max (bp_Queue cfg) 0
     \<and> bp_queued s = int (bp_full s) + int (bp_waiting s) + int (bp_leaving s)"

lemma bp_ok_step: "bp_ok cfg s \<Longrightarrow> bp_ok cfg (bp_step cfg ev s)"
  by (cases ev) (auto simp: bp_ok_def of_nat_diff)

lemma bp_ok_steps: "bp_ok cfg s \<Longrightarrow> bp_ok cfg (fold (bp_step cfg) evs s)"
  by (induction evs arbitrary: s) (simp_all add: bp_ok_step)

text \<open>
  The life of a route: traffic on the state under its key, and rebuilds of the route with some
  configuration.
\<close>

datatype bp_life = Traffic bp_event | Rebuild "BackpressureConfig option"

definition bp_live :: "string \<Rightarrow> bp_life \<Rightarrow> bp_registry \<Rightarrow> bp_registry" where
  "bp_live key ev reg =
     (case ev of
        Rebuild c \<Rightarrow> snd (BackpressureShared key c reg)
      | Traffic e \<Rightarrow> (case gm_get reg key of None \<Rightarrow> reg | Some (c, st) \<Rightarrow> gm_set key (c, bp_step c e st) reg))"

definition bp_entry_ok :: "string \<Rightarrow> bp_registry \<Rightarrow> bool" where
  "bp_entry_ok key reg \<longleftrightarrow> (case gm_get reg key of None \<Rightarrow> True | Some (c, st) \<Rightarrow> 0 < bp_MaxInflight c \<and> bp_ok c st)"

lemma bp_start_ok: "0 < bp_MaxInflight c \<Longrightarrow> bp_ok c bp_start"
  by (simp add: bp_ok_def bp_start_def)

lemma bp_entry_ok_live: "bp_entry_ok key reg \<Longrightarrow> bp_entry_ok key (bp_live key ev reg)"
  using bp_ok_step bp_start_ok
  by (cases ev) (auto simp: bp_entry_ok_def bp_live_def BackpressureShared_def split: option.splits if_splits)

text \<open>
  Whatever the interleaving of requests and of rebuilds of the route, the route serves at most
  \<open>MaxInflight\<close> requests at a time and lets at most \<open>Queue\<close> wait, and the queue counter counts exactly
  the requests in the queue, so none is lost when a generation of the route replaces another: a rebuild
  with the same configuration changes nothing.
\<close>

theorem backpressure_bounded:
  assumes "gm_get (fold (bp_live key) evs []) key = Some (c, st)"
  shows "int (bp_slots st) \<le> bp_MaxInflight c \<and> int (bp_waiting st) \<le> max (bp_Queue c) 0
    \<and> bp_queued st = int (bp_full st) + int (bp_waiting st) + int (bp_leaving st)
    \<and> BackpressureShared key (Some c) (fold (bp_live key) evs []) = (Some st, fold (bp_live key) evs [])"
proof -
  have "bp_entry_ok key (fold (bp_live key) evs reg)" if "bp_entry_ok key reg" for reg
    using that by (induction evs arbitrary: reg) (simp_all add: bp_entry_ok_live)
  from this [of "[]"] have "0 < bp_MaxInflight c \<and> bp_ok c st" using assms by (simp add: bp_entry_ok_def)
  then show ?thesis using assms by (simp add: bp_ok_def BackpressureShared_def)
qed

definition demo_bp :: BackpressureConfig where
  "demo_bp = \<lparr>bp_MaxInflight = 1, bp_Queue = 1, bp_QueueTimeoutMs = 0\<rparr>"

definition demo_life :: "bp_life list" where
  "demo_life = [Rebuild (Some demo_bp), Traffic Arrive, Traffic Arrive, Traffic Arrive, Traffic Enqueue, Traffic Enqueue, Traffic QueueFull, Rebuild (Some demo_bp)]"

theorem backpressure_bounded_witness:
  "gm_get (fold (bp_live ''r'') demo_life []) ''r'' = Some (demo_bp, \<lparr>bp_slots = 1, bp_queued = 1, bp_missed = 0, bp_full = 0, bp_waiting = 1, bp_leaving = 0\<rparr>)
   \<and> fst (BackpressureShared ''r'' (Some demo_bp) (fold (bp_live ''r'') demo_life [])) = Some \<lparr>bp_slots = 1, bp_queued = 1, bp_missed = 0, bp_full = 0, bp_waiting = 1, bp_leaving = 0\<rparr>"
proof -
  have "gm_get (fold (bp_live ''r'') demo_life []) ''r'' = Some (demo_bp, \<lparr>bp_slots = 1, bp_queued = 1, bp_missed = 0, bp_full = 0, bp_waiting = 1, bp_leaving = 0\<rparr>)"
    by code_simp
  then show ?thesis using backpressure_bounded by simp
qed

section \<open>Connections: the bound\<close>

definition conn_ok :: "int \<Rightarrow> conn_state \<Rightarrow> bool" where
  "conn_ok limit s \<longleftrightarrow>
     gm_ok (cc_counts (cn_cc s))
     \<and> (\<forall>ip. gm_get0 (cc_counts (cn_cc s)) 0 ip = int (count_list (cn_served s) ip) + int (count_list (cn_refused s) ip))
     \<and> (\<forall>ip. int (count_list (cn_served s) ip) \<le> limit)"

lemma count_pred [simp]: "x \<in> set xs \<Longrightarrow> int (count_list xs x - Suc 0) = int (count_list xs x) - 1"
  using count_list_0_iff [of xs x] by (simp add: of_nat_diff Suc_leI)

lemma cc_counter_get0 [simp]:
  "gm_get0 (cc_counts (cc_counter now ip cc)) 0 k = gm_get0 (cc_counts cc) 0 k"
  by (auto simp: cc_counter_def Let_def gm_get0_def split: option.split)

lemma cc_counter_ok: "gm_ok (cc_counts cc) \<Longrightarrow> gm_ok (cc_counts (cc_counter now ip cc))"
  by (simp add: cc_counter_def Let_def split: option.split)

lemma cc_purge_get0:
  assumes "gm_ok (cc_counts cc)"
  shows "gm_get0 (cc_counts (cc_purge now cc)) 0 k = gm_get0 (cc_counts cc) 0 k" and "gm_ok (cc_counts (cc_purge now cc))"
proof -
  let ?dead = "map fst (filter (\<lambda>(ip, t). t < now - 600 * 10 ^ 9 \<and> gm_get0 (cc_counts cc) 0 ip = 0) (cc_lastSeen cc))"
  have "gm_get (cc_counts (cc_purge now cc)) k = (if k \<notin> set ?dead then gm_get (cc_counts cc) k else None)"
    unfolding cc_purge_def Let_def using gm_filter_get [OF assms, of "\<lambda>ip. ip \<notin> set ?dead"] by simp
  moreover have "gm_get0 (cc_counts cc) 0 k = 0" if "k \<in> set ?dead" using that by auto
  ultimately show "gm_get0 (cc_counts (cc_purge now cc)) 0 k = gm_get0 (cc_counts cc) 0 k" by (simp add: gm_get0_def)
  show "gm_ok (cc_counts (cc_purge now cc))"
    using assms by (simp add: cc_purge_def Let_def gm_ok_def distinct_map_filter)
qed

lemma conn_ok_step:
  assumes "conn_ok limit s"
  shows "conn_ok limit (conn_step limit ev s)"
proof (cases ev)
  case (Enter now ip)
  have "int (count_list (cn_served s) ip) \<le> gm_get0 (cc_counts (cn_cc s)) 0 ip" using assms by (simp add: conn_ok_def)
  then show ?thesis using assms Enter cc_counter_ok by (auto simp: conn_ok_def cc_add_def Let_def)
next
  case (LeaveServed ip)
  have "int (count_list (remove1 ip (cn_served s)) y) \<le> limit" for y
  proof (cases "ip \<in> set (cn_served s)")
    case True
    have "int (count_list (cn_served s) y) \<le> limit" using assms by (simp add: conn_ok_def)
    then show ?thesis using count_remove1 [OF True, of y] by (simp add: of_bool_def split: if_splits)
  next
    case False
    then show ?thesis using assms by (simp add: conn_ok_def remove1_idem)
  qed
  then show ?thesis using assms LeaveServed by (auto simp: conn_ok_def cc_add_def count_remove1)
next
  case (LeaveRefused ip)
  then show ?thesis using assms by (auto simp: conn_ok_def cc_add_def count_remove1)
next
  case (PurgeCounters now)
  then show ?thesis using assms cc_purge_get0 [of "cn_cc s" now] by (simp add: conn_ok_def)
qed

text \<open>
  For every sequence of arrivals, departures and purges, at most \<open>MaxPerIP\<close> requests of one key are
  served at the same time, and the counter of a key is the number of its requests present, so a purge
  never forgets a connection.
\<close>

theorem connections_bounded:
  assumes "0 \<le> limit" and "s = fold (conn_step limit) evs \<lparr>cn_cc = \<lparr>cc_counts = [], cc_lastSeen = []\<rparr>, cn_served = [], cn_refused = []\<rparr>"
  shows "int (count_list (cn_served s) ip) \<le> limit
    \<and> gm_get0 (cc_counts (cn_cc s)) 0 ip = int (count_list (cn_served s) ip) + int (count_list (cn_refused s) ip)"
proof -
  have "conn_ok limit (fold (conn_step limit) evs s)" if "conn_ok limit s" for s
    using that by (induction evs arbitrary: s) (simp_all add: conn_ok_step)
  moreover have "conn_ok limit \<lparr>cn_cc = \<lparr>cc_counts = [], cc_lastSeen = []\<rparr>, cn_served = [], cn_refused = []\<rparr>"
    using assms(1) by (simp add: conn_ok_def gm_get0_def)
  ultimately show ?thesis unfolding assms(2) conn_ok_def by blast
qed

theorem connections_bounded_witness:
  "int (count_list (cn_served (fold (conn_step 1) [Enter 5 ''a'', Enter 6 ''a'', LeaveRefused ''a''] \<lparr>cn_cc = \<lparr>cc_counts = [], cc_lastSeen = []\<rparr>, cn_served = [], cn_refused = []\<rparr>)) ''a'') \<le> 1"
  using connections_bounded [OF _ refl, of 1 "[Enter 5 ''a'', Enter 6 ''a'', LeaveRefused ''a'']" "''a''"] by simp

section \<open>Quotas: the bound of a window\<close>

fun unformat :: "string \<Rightarrow> nat \<Rightarrow> nat" where
  "unformat [] acc = acc"
| "unformat (c # cs) acc = unformat cs (acc * 10 + (of_char c - 48))"

lemma unformat_append: "unformat (xs @ ys) acc = unformat ys (unformat xs acc)"
  by (induction xs arbitrary: acc) simp_all

lemma unformat_format: "unformat (format_nat n) 0 = n"
proof (induction n rule: format_nat.induct)
  case (1 n)
  then show ?case by (simp add: format_nat.simps [of n] unformat_append)
qed

lemma format_nat_inj: "format_nat a = format_nat b \<Longrightarrow> a = b"
  by (metis unformat_format)

definition digit :: "char \<Rightarrow> bool" where
  "digit c \<longleftrightarrow> of_char c \<in> {48..57 :: nat}"

lemma digit_char_of: "n < 10 \<Longrightarrow> digit (char_of (48 + n :: nat))"
  by (simp add: digit_def)

lemma format_nat_digits: "list_all digit (format_nat n)"
proof (induction n rule: format_nat.induct)
  case (1 n)
  then show ?case by (simp add: format_nat.simps [of n] digit_char_of)
qed

lemma digit_special [simp]: "\<not> digit CHR ''-''" "\<not> digit CHR 0x00"
  by (simp_all add: digit_def)

lemma FormatInt_no_zero: "CHR 0x00 \<notin> set (FormatInt i)"
  using format_nat_digits [of "nat i"] format_nat_digits [of "nat (- i)"] digit_special(2)
  by (auto simp: FormatInt_def list_all_iff)

lemma minus_not_format: "CHR ''-'' # xs \<noteq> format_nat n"
proof
  assume "CHR ''-'' # xs = format_nat n"
  then have "list_all digit (CHR ''-'' # xs)" using format_nat_digits [of n] by simp
  then show False by simp
qed

lemma FormatInt_inj:
  assumes "FormatInt i = FormatInt j"
  shows "i = j"
proof (cases "i < 0"; cases "j < 0")
  assume "i < 0" "j < 0"
  then show ?thesis using assms format_nat_inj [of "nat (- i)" "nat (- j)"] by (simp add: FormatInt_def)
next
  assume "i < 0" "\<not> j < 0"
  then show ?thesis using assms minus_not_format [of "format_nat (nat (- i))" "nat j"] by (simp add: FormatInt_def)
next
  assume "\<not> i < 0" "j < 0"
  then show ?thesis using assms minus_not_format [of "format_nat (nat (- j))" "nat i"] by (simp add: FormatInt_def)
next
  assume "\<not> i < 0" "\<not> j < 0"
  then show ?thesis using assms format_nat_inj [of "nat i" "nat j"] by (simp add: FormatInt_def)
qed

lemma quota_key_start:
  assumes "quota_key k a = quota_key k' b"
  shows "a div 10 ^ 9 = b div 10 ^ 9"
proof -
  have tail: "takeWhile (\<lambda>c. c \<noteq> CHR 0x00) (rev (quota_key k x)) = rev (FormatInt (x div 10 ^ 9))" for k x
  proof -
    have "\<forall>c\<in>set (FormatInt (x div 10 ^ 9)). c \<noteq> CHR 0x00" using FormatInt_no_zero [of "x div 10 ^ 9"] by blast
    then show ?thesis by (simp add: quota_key_def takeWhile_tail)
  qed
  have "FormatInt (a div 10 ^ 9) = FormatInt (b div 10 ^ 9)" using tail [of k a] tail [of k' b] assms by simp
  then show ?thesis by (rule FormatInt_inj)
qed

text \<open>The requests and the announcements of peers, in the order of the mutex.\<close>

datatype quota_event = Take go_time string bool | Announce go_time string "QuotaEntry list"

fun event_time :: "quota_event \<Rightarrow> go_time" where
  "event_time (Take now key shared) = now"
| "event_time (Announce now peer entries) = now"

text \<open>The number of requests of the window \<open>full\<close> that are let through.\<close>

fun taken :: "int \<Rightarrow> go_duration \<Rightarrow> string \<Rightarrow> quota_event list \<Rightarrow> quotaStore \<Rightarrow> int" where
  "taken limit period full [] m = 0"
| "taken limit period full (Take now key shared # evs) m =
     (case quota_take now key limit period shared m of
        (ok, rest, retry, m1) \<Rightarrow> of_bool (ok \<and> quota_key key (Truncate now period) = full) + taken limit period full evs m1)"
| "taken limit period full (Announce now peer entries # evs) m = taken limit period full evs (MergeQuotas now peer entries m)"

fun honest :: "string \<Rightarrow> go_time \<Rightarrow> quota_event \<Rightarrow> bool" where
  "honest full wend (Take now key shared) = True"
| "honest full wend (Announce now peer entries) = list_all (\<lambda>e. qe_Key e = full \<longrightarrow> qe_EndMs e * 10 ^ 6 = wend) entries"

definition window_ok :: "go_time \<Rightarrow> quotaWindow \<Rightarrow> bool" where
  "window_ok wend w \<longleftrightarrow> qw_end w = wend \<and> 0 \<le> qw_n w \<and> list_all (\<lambda>(p, n). 0 \<le> n) (qw_remote w)"

text \<open>\<open>c\<close> requests of the window were let through up to \<open>now\<close>.\<close>

definition quota_inv :: "int \<Rightarrow> string \<Rightarrow> go_time \<Rightarrow> int \<Rightarrow> go_time \<Rightarrow> quotaStore \<Rightarrow> bool" where
  "quota_inv limit full wend c now m \<longleftrightarrow>
     gm_ok m \<and> 0 \<le> c \<and> c \<le> max limit 0
     \<and> (case gm_get m full of Some w \<Rightarrow> window_ok wend w \<and> c \<le> qw_n w | None \<Rightarrow> c = 0 \<or> wend < now)"

lemma quota_inv_later: "quota_inv limit full wend c t m \<Longrightarrow> t \<le> now \<Longrightarrow> quota_inv limit full wend c now m"
  by (auto simp: quota_inv_def split: option.splits)

lemma quota_inv_purge: "quota_inv limit full wend c now m \<Longrightarrow> quota_inv limit full wend c now (quota_purgeLocked now m)"
  by (cases "gm_get m full")
     (simp_all add: quota_inv_def quota_purgeLocked_def gm_ok_def distinct_map_filter map_of_filter window_ok_def)

lemma quota_inv_other: "k \<noteq> full \<Longrightarrow> quota_inv limit full wend c now m \<Longrightarrow> quota_inv limit full wend c now (gm_set k w m)"
  by (simp add: quota_inv_def)

lemma quota_total_ge: "window_ok wend w \<Longrightarrow> qw_n w \<le> quota_total w"
  by (force simp: window_ok_def quota_total_def list_all_iff intro!: sum_list_nonneg)

lemma all_gm_set: "list_all P m \<Longrightarrow> P (k, v) \<Longrightarrow> list_all P (gm_set k v m)"
  by (induction m) auto

lemma gm_get0_nonneg: "list_all (\<lambda>(p, n). 0 \<le> n) m \<Longrightarrow> (0 :: int) \<le> gm_get0 m 0 p"
  by (induction m) (auto simp: gm_get0_def)

lemma quota_inv_merge:
  assumes "qe_Key e = full \<longrightarrow> qe_EndMs e * 10 ^ 6 = wend" and "quota_inv limit full wend c now m"
  shows "quota_inv limit full wend c now (merge_entry now peer e m)"
proof (cases "qe_EndMs e * 10 ^ 6 < now \<or> qe_N e \<le> 0 \<or> qe_Key e \<noteq> full")
  case True
  then show ?thesis using assms(2) by (auto simp: merge_entry_def Let_def quota_inv_other)
next
  case False
  then have e: "\<not> wend < now" "qe_EndMs e * 10 ^ 6 = wend" "0 < qe_N e" "qe_Key e = full" using assms(1) by auto
  show ?thesis
  proof (cases "gm_get m full")
    case None
    then show ?thesis using e assms(2)
      by (simp add: merge_entry_def quota_inv_def window_ok_def gm_get0_def)
  next
    case (Some w)
    then have w: "window_ok wend w" "c \<le> qw_n w" using assms(2) by (auto simp: quota_inv_def)
    then have "list_all (\<lambda>(p, n). 0 \<le> n) (gm_set peer (max (gm_get0 (qw_remote w) 0 peer) (qe_N e)) (qw_remote w))"
      using e(3) by (intro all_gm_set) (auto simp: window_ok_def)
    then show ?thesis using e assms(2) Some w by (simp add: merge_entry_def quota_inv_def window_ok_def)
  qed
qed

lemma quota_inv_merges:
  "list_all (\<lambda>e. qe_Key e = full \<longrightarrow> qe_EndMs e * 10 ^ 6 = wend) es \<Longrightarrow> quota_inv limit full wend c now m
   \<Longrightarrow> quota_inv limit full wend c now (MergeQuotas now peer es m)"
  unfolding MergeQuotas_def by (induction es arbitrary: m) (simp_all add: quota_inv_merge)

lemma quota_inv_take:
  assumes "quota_inv limit full wend c now m" and "quota_take now key limit period shared m = (ok, rest, retry, m1)"
    and "quota_key key (Truncate now period) = full \<Longrightarrow> Truncate now period + period = wend \<and> now < wend"
  shows "quota_inv limit full wend (c + of_bool (ok \<and> quota_key key (Truncate now period) = full)) now m1"
proof (cases "quota_key key (Truncate now period) = full")
  case False
  then obtain w where "m1 = gm_set (quota_key key (Truncate now period)) w (quota_purgeLocked now m)"
    using assms(2) by (auto simp: quota_take_def Let_def split: if_splits)
  then show ?thesis using False quota_inv_other [OF False quota_inv_purge [OF assms(1)]] by simp
next
  case True
  note P = quota_inv_purge [OF assms(1)]
  define w0 where "w0 = (case gm_get (quota_purgeLocked now m) full of Some w \<Rightarrow> w
      | None \<Rightarrow> \<lparr>qw_end = wend, qw_n = 0, qw_shared = False, qw_remote = []\<rparr>)"
  define w where "w = w0\<lparr>qw_shared := qw_shared w0 \<or> shared\<rparr>"
  have w: "window_ok wend w" "c \<le> qw_n w"
    using P assms(3) [OF True] by (auto simp: w_def w0_def quota_inv_def window_ok_def split: option.splits)
  have m1: "if limit \<le> quota_total w then \<not> ok \<and> m1 = gm_set full w (quota_purgeLocked now m)
      else ok \<and> m1 = gm_set full (w\<lparr>qw_n := qw_n w + 1\<rparr>) (quota_purgeLocked now m)"
    using assms(2,3) True unfolding quota_take_def w_def w0_def Let_def by (auto split: if_splits)
  show ?thesis using m1 w P quota_total_ge [OF w(1)] True
    by (auto simp: quota_inv_def window_ok_def split: if_splits)
qed

lemma taken_bound:
  assumes "quota_inv limit full wend c now m" and "sorted (now # map event_time evs)" and "list_all (honest full wend) evs"
    and "\<And>key t. quota_key key (Truncate t period) = full \<Longrightarrow> Truncate t period + period = wend \<and> t < wend"
  shows "c + taken limit period full evs m \<le> max limit 0"
  using assms(1-3)
proof (induction evs arbitrary: c now m)
  case Nil
  then show ?case by (simp add: quota_inv_def)
next
  case (Cons ev evs)
  have t: "now \<le> event_time ev" "sorted (event_time ev # map event_time evs)" using Cons.prems(2) by auto
  note I = quota_inv_later [OF Cons.prems(1) t(1)]
  show ?case
  proof (cases ev)
    case (Take t key shared)
    obtain ok rest retry m1 where q: "quota_take t key limit period shared m = (ok, rest, retry, m1)"
      by (cases "quota_take t key limit period shared m")
    have "quota_inv limit full wend (c + of_bool (ok \<and> quota_key key (Truncate t period) = full)) t m1"
      using quota_inv_take [OF _ q assms(4)] I Take by simp
    from Cons.IH [OF this] show ?thesis using t Cons.prems(3) Take q by simp
  next
    case (Announce t peer es)
    then have "quota_inv limit full wend c t (MergeQuotas t peer es m)" using I Cons.prems(3) by (simp add: quota_inv_merges)
    from Cons.IH [OF this] show ?thesis using t Cons.prems(3) Announce by simp
  qed
qed

lemma quotaPeriod_seconds: "0 < quotaPeriod p \<and> quotaPeriod p mod 10 ^ 9 = 0"
  by (simp add: quotaPeriod_def)

lemma Truncate_bounds: "0 < p \<Longrightarrow> Truncate t p \<le> t \<and> t < Truncate t p + p"
  using pos_mod_bound [of p t] pos_mod_sign [of p t] by (simp add: Truncate_def)

lemma Truncate_seconds:
  assumes "p mod 10 ^ 9 = (0 :: int)"
  shows "Truncate t p mod 10 ^ 9 = 0"
proof -
  obtain q where "p = 10 ^ 9 * q" using assms by (auto simp: mod_eq_0_iff_dvd)
  moreover have "Truncate t p = p * (t div p)" by (simp add: Truncate_def minus_mod_eq_mult_div)
  ultimately show ?thesis by simp
qed



text \<open>What a peer is known to have let through.\<close>

definition remote_count :: "string \<Rightarrow> string \<Rightarrow> quotaStore \<Rightarrow> int" where
  "remote_count key peer m = (case gm_get m key of None \<Rightarrow> 0 | Some w \<Rightarrow> gm_get0 (qw_remote w) 0 peer)"

definition local_count :: "string \<Rightarrow> quotaStore \<Rightarrow> int" where
  "local_count key m = (case gm_get m key of None \<Rightarrow> 0 | Some w \<Rightarrow> qw_n w)"

definition announced_counts :: "go_time \<Rightarrow> string \<Rightarrow> QuotaEntry list \<Rightarrow> int list" where
  "announced_counts now key es = map qe_N (filter (\<lambda>e. qe_Key e = key \<and> \<not> qe_EndMs e * 10 ^ 6 < now \<and> 0 < qe_N e) es)"

lemma merge_entry_counts:
  "remote_count key q (merge_entry now peer e m) = fold max (if q = peer then announced_counts now key [e] else []) (remote_count key q m)
   \<and> local_count key (merge_entry now peer e m) = local_count key m"
  by (auto simp: remote_count_def local_count_def merge_entry_def announced_counts_def Let_def gm_get0_def max.commute split: option.split)

text \<open>
  Merging is a join: after any announcements of a peer the count known of that peer is the maximum of
  the old count and of the valid announcements for the key, and the counts of the other peers and the
  own count do not change; so announcements may be repeated or arrive in any order.
\<close>

theorem MergeQuotas_join:
  "remote_count key q (MergeQuotas now peer es m) = fold max (if q = peer then announced_counts now key es else []) (remote_count key q m)
   \<and> local_count key (MergeQuotas now peer es m) = local_count key m"
proof (induction es arbitrary: m)
  case Nil
  then show ?case by (simp add: MergeQuotas_def announced_counts_def)
next
  case (Cons e es)
  have "announced_counts now key (e # es) = announced_counts now key [e] @ announced_counts now key es" by (simp add: announced_counts_def)
  then show ?case using Cons [of "merge_entry now peer e m"] merge_entry_counts [of key q now peer e m]
    by (simp add: MergeQuotas_def)
qed

text \<open>
  Windows of different lengths that begin at the same second share one counter: a key limited to two
  requests per minute is refused at once when it made two requests under a quota of a hundred per hour
  in the first minute of the hour.
\<close>

definition two_quotas :: "bool list" where
  "two_quotas =
     (case quota_take 1 ''h'' 100 (quotaPeriod ''hour'') False [] of (a, r1, w1, m1) \<Rightarrow>
        case quota_take 2 ''h'' 100 (quotaPeriod ''hour'') False m1 of (b, r2, w2, m2) \<Rightarrow>
          case quota_take 3 ''h'' 2 (quotaPeriod ''minute'') False m2 of (c, r3, w3, m3) \<Rightarrow> [a, b, c])"

lemma quota_windows_collide: "two_quotas = [True, True, False]"
  by (simp add: two_quotas_def quota_take_def quota_purgeLocked_def quotaPeriod_def Truncate_def quota_total_def quota_key_def)

end
