(* ===== verification/Path_Match.thy ===== *)
theory Path_Match
  imports Gostrings
begin

text \<open>
  \<open>path.Match\<close> of the Go library, as the access control uses it for globs on hosts, proxies, backends and
  groups. A pattern is cut into chunks at its stars; a chunk is matched at one position; after a star the
  first position where the chunk fits is taken. \<open>None\<close> stands for \<open>ErrBadPattern\<close>. Strings are sequences of
  bytes, so \<open>?\<close> and classes are those of ASCII text.
\<close>

section \<open>Chunks\<close>

fun chunk_split :: "bool \<Rightarrow> string \<Rightarrow> string \<times> string" where
  "chunk_split inrange [] = ([], [])"
| "chunk_split inrange (c # cs) =
     (if c = CHR 0x5C then
        (case cs of
           [] \<Rightarrow> ([c], [])
         | d # ds \<Rightarrow> (case chunk_split inrange ds of (a, b) \<Rightarrow> (c # d # a, b)))
      else if c = CHR ''*'' \<and> \<not> inrange then ([], c # cs)
      else (case chunk_split (if c = CHR ''['' then True else if c = CHR '']'' then False else inrange) cs of
              (a, b) \<Rightarrow> (c # a, b)))"

definition scanChunk :: "string \<Rightarrow> bool \<times> string \<times> string" where
  "scanChunk pattern =
     (let p = dropWhile (\<lambda>c. c = CHR ''*'') pattern
      in (p \<noteq> pattern, chunk_split False p))"

fun getEsc :: "string \<Rightarrow> (char \<times> string) option" where
  "getEsc [] = None"
| "getEsc (c # cs) =
     (if c = CHR ''-'' \<or> c = CHR '']'' then None
      else (case (if c = CHR 0x5C then cs else c # cs) of
              [] \<Rightarrow> None
            | r # rest \<Rightarrow> if rest = [] then None else Some (r, rest)))"

lemma getEsc_length: "getEsc cs = Some (r, rest) \<Longrightarrow> length rest < length cs"
  by (cases cs) (auto split: if_splits list.splits)

definition rune_between :: "char \<Rightarrow> char \<Rightarrow> char \<Rightarrow> bool" where
  "rune_between lo r hi \<longleftrightarrow> (of_char lo :: nat) \<le> of_char r \<and> (of_char r :: nat) \<le> of_char hi"

text \<open>The ranges of a class, after the opening bracket and the negation.\<close>

function class_ranges :: "char \<Rightarrow> string \<Rightarrow> bool \<Rightarrow> bool \<Rightarrow> (bool \<times> string) option" where
  "class_ranges r chunk seen m =
     (if chunk \<noteq> [] \<and> hd chunk = CHR '']'' \<and> seen then Some (m, tl chunk)
      else (case getEsc chunk of
              None \<Rightarrow> None
            | Some (lo, c1) \<Rightarrow>
                if hd c1 = CHR ''-'' then
                  (case getEsc (tl c1) of
                     None \<Rightarrow> None
                   | Some (hi, c2) \<Rightarrow> class_ranges r c2 True (m \<or> rune_between lo r hi))
                else class_ranges r c1 True (m \<or> rune_between lo r lo)))"
  by pat_completeness auto
termination
  by (relation "measure (\<lambda>(r, chunk, seen, m). length chunk)") (auto dest!: getEsc_length)

declare class_ranges.simps [simp del]

lemma class_ranges_length: "class_ranges r chunk seen m = Some (b, rest) \<Longrightarrow> length rest < length chunk"
proof (induction r chunk seen m rule: class_ranges.induct)
  case (1 r chunk seen m)
  show ?case
  proof (cases "chunk \<noteq> [] \<and> hd chunk = CHR '']'' \<and> seen")
    case True
    then show ?thesis using 1(3) by (auto simp: class_ranges.simps [of r chunk])
  next
    case False
    obtain lo c1 where lo: "getEsc chunk = Some (lo, c1)"
      using 1(3) False by (auto simp: class_ranges.simps [of r chunk] split: option.splits)
    note L1 = getEsc_length [OF lo]
    show ?thesis
    proof (cases "hd c1 = CHR ''-''")
      case True
      obtain hi c2 where hi: "getEsc (tl c1) = Some (hi, c2)"
        using 1(3) False lo True by (auto simp: class_ranges.simps [of r chunk] split: option.splits)
      have "class_ranges r c2 True (m \<or> rune_between lo r hi) = Some (b, rest)"
        using 1(3) False lo hi True by (simp add: class_ranges.simps [of r chunk])
      then have "length rest < length c2" using 1(1) [OF False lo refl True hi refl] by blast
      moreover have "length c2 < length c1" using getEsc_length [OF hi] by simp
      ultimately show ?thesis using L1 by linarith
    next
      case no: False
      have "class_ranges r c1 True (m \<or> rune_between lo r lo) = Some (b, rest)"
        using 1(3) False lo no by (simp add: class_ranges.simps [of r chunk])
      then have "length rest < length c1" using 1(2) [OF False lo refl no] by blast
      then show ?thesis using L1 by linarith
    qed
  qed
qed

text \<open>
  A chunk at one position: \<open>Some (Some t)\<close> when it matches and leaves \<open>t\<close>. After a failure the rest of the
  chunk is only checked for well-formedness.
\<close>

function match_chunk :: "string \<Rightarrow> string \<Rightarrow> bool \<Rightarrow> string option option" where
  "match_chunk [] s failed = Some (if failed then None else Some s)"
| "match_chunk (c # ck) s failed0 =
     (let failed = (failed0 \<or> s = []);
          s1 = (if failed then s else tl s)
      in if c = CHR ''['' then
           (let neg = (ck \<noteq> [] \<and> hd ck = CHR ''^'')
            in case class_ranges (if failed then CHR 0x00 else hd s) (if neg then tl ck else ck) False False of
                 None \<Rightarrow> None
               | Some (m, rest) \<Rightarrow> match_chunk rest s1 (failed \<or> m = neg))
         else if c = CHR ''?'' then match_chunk ck s1 (failed \<or> hd s = CHR ''/'')
         else if c = CHR 0x5C then (case ck of [] \<Rightarrow> None | d # ds \<Rightarrow> match_chunk ds s1 (failed \<or> d \<noteq> hd s))
         else match_chunk ck s1 (failed \<or> c \<noteq> hd s))"
  by pat_completeness auto
termination
  by (relation "measure (\<lambda>(chunk, s, failed). length chunk)") (auto dest!: class_ranges_length split: if_splits)

declare match_chunk.simps(2) [simp del]

section \<open>Patterns\<close>

fun skip_match :: "string \<Rightarrow> bool \<Rightarrow> string \<Rightarrow> string option option" where
  "skip_match chunk final [] = Some None"
| "skip_match chunk final (c # cs) =
     (if c = CHR ''/'' then Some None
      else (case match_chunk chunk cs False of
              None \<Rightarrow> None
            | Some None \<Rightarrow> skip_match chunk final cs
            | Some (Some t) \<Rightarrow> if final \<and> t \<noteq> [] then skip_match chunk final cs else Some (Some t)))"

lemma chunk_split_length: "chunk_split ir p = (a, b) \<Longrightarrow> length a + length b = length p"
proof (induction ir p arbitrary: a b rule: chunk_split.induct)
  case (2 ir c cs)
  then show ?case by (auto split: if_splits list.splits prod.splits)
qed simp

lemma chunk_split_nonempty: "chunk_split ir (c # cs) = (a, b) \<Longrightarrow> c \<noteq> CHR ''*'' \<Longrightarrow> a \<noteq> []"
  by (auto split: if_splits list.splits prod.splits)

lemma scanChunk_length:
  assumes "scanChunk p = (star, chunk, rest)" and "p \<noteq> []"
  shows "length rest < length p"
proof -
  let ?q = "dropWhile (\<lambda>c. c = CHR ''*'') p"
  have split: "chunk_split False ?q = (chunk, rest)" and star: "star \<longleftrightarrow> ?q \<noteq> p"
    using assms(1) by (auto simp: scanChunk_def Let_def)
  have len: "length chunk + length rest = length ?q" using split by (rule chunk_split_length)
  show ?thesis
  proof (cases "?q = p")
    case False
    then have "length ?q < length p"
      using assms(2) by (cases p) (auto simp: less_Suc_eq_le intro: length_dropWhile_le split: if_splits)
    then show ?thesis using len by simp
  next
    case True
    then obtain c cs where p: "p = c # cs" "c \<noteq> CHR ''*''"
      using assms(2) length_dropWhile_le [of "\<lambda>c. c = CHR ''*''" "tl p"] by (cases p) (auto split: if_splits)
    have "chunk_split False p = (chunk, rest)" using split True by simp
    then have "chunk \<noteq> []" using chunk_split_nonempty p by blast
    then have "0 < length chunk" by simp
    moreover have "length chunk + length rest = length p" using len True by simp
    ultimately show ?thesis by linarith
  qed
qed

text \<open>After a mismatch the remaining chunks are only checked.\<close>

function check_chunks :: "string \<Rightarrow> bool option" where
  "check_chunks p =
     (if p = [] then Some False
      else (case scanChunk p of
              (star, chunk, rest) \<Rightarrow> (case match_chunk chunk [] False of None \<Rightarrow> None | Some r \<Rightarrow> check_chunks rest)))"
  by pat_completeness auto
termination
  by (relation "measure length") (auto dest: scanChunk_length [OF sym])

declare check_chunks.simps [simp del]

function path_Match :: "string \<Rightarrow> string \<Rightarrow> bool option" where
  "path_Match p name =
     (if p = [] then Some (name = [])
      else (case scanChunk p of
              (star, chunk, rest) \<Rightarrow>
                if star \<and> chunk = [] then Some (CHR ''/'' \<notin> set name)
                else (case match_chunk chunk name False of
                        None \<Rightarrow> None
                      | Some r \<Rightarrow>
                          if r \<noteq> None \<and> (the r = [] \<or> rest \<noteq> []) then path_Match rest (the r)
                          else if star then
                            (case skip_match chunk (rest = []) name of
                               None \<Rightarrow> None
                             | Some None \<Rightarrow> check_chunks rest
                             | Some (Some t) \<Rightarrow> path_Match rest t)
                          else check_chunks rest)))"
  by pat_completeness auto
termination
  by (relation "measure (\<lambda>(p, name). length p)") (auto dest: scanChunk_length [OF sym])

declare path_Match.simps [simp del]

section \<open>Patterns without meta characters\<close>

definition plain :: "string \<Rightarrow> bool" where
  "plain p \<longleftrightarrow> list_all (\<lambda>c. c \<notin> {CHR ''*'', CHR ''?'', CHR ''['', CHR 0x5C}) p"

lemma plain_Cons [simp]: "plain (c # p) \<longleftrightarrow> c \<notin> {CHR ''*'', CHR ''?'', CHR ''['', CHR 0x5C} \<and> plain p"
  by (simp add: plain_def)

lemma plain_append [simp]: "plain (a @ b) \<longleftrightarrow> plain a \<and> plain b"
  by (simp add: plain_def)

lemma chunk_split_plain: "plain p \<Longrightarrow> chunk_split False p = (p, [])"
  by (induction p) (auto simp: plain_def)

lemma scanChunk_plain: "plain p \<Longrightarrow> scanChunk p = (False, p, [])"
  by (cases p) (auto simp: scanChunk_def Let_def chunk_split_plain plain_def)

lemma scanChunk_star_plain: "plain p \<Longrightarrow> scanChunk (CHR ''*'' # p) = (True, p, [])"
  using scanChunk_plain [of p] chunk_split_plain [of p]
  by (cases p) (auto simp: scanChunk_def Let_def split: if_splits)

lemma match_chunk_failed: "plain p \<Longrightarrow> match_chunk p s True = Some None"
  by (induction p arbitrary: s) (auto simp: match_chunk.simps(2) Let_def)

lemma match_chunk_plain:
  "plain p \<Longrightarrow> match_chunk p s False = Some (if HasPrefix s p then Some (drop (length p) s) else None)"
proof (induction p arbitrary: s)
  case (Cons c p)
  show ?case
  proof (cases s)
    case Nil
    then show ?thesis using Cons.prems by (simp add: match_chunk.simps(2) match_chunk_failed HasPrefix_iff)
  next
    case s: (Cons a t)
    show ?thesis using Cons s by (cases "a = c") (simp_all add: match_chunk.simps(2) match_chunk_failed HasPrefix_iff)
  qed
qed (simp add: HasPrefix_iff)

text \<open>A pattern without meta characters matches exactly itself.\<close>

lemma path_Match_plain: "plain p \<Longrightarrow> path_Match p name = Some (name = p)"
  using HasPrefix_iff [of name p]
  by (cases "p = []")
     (auto simp: path_Match.simps [of p] path_Match.simps [of "[]"] scanChunk_plain match_chunk_plain check_chunks.simps [of "[]"])

lemma skip_match_plain:
  "plain p \<Longrightarrow> skip_match p True s =
     Some (if \<exists>u. u \<noteq> [] \<and> s = u @ p \<and> CHR ''/'' \<notin> set u then Some [] else None)"
proof (induction s)
  case (Cons c s)
  have hit: "match_chunk p s False = Some (if HasPrefix s p then Some (drop (length p) s) else None)"
    using Cons.prems by (rule match_chunk_plain)
  have split: "(\<exists>u. u \<noteq> [] \<and> c # s = u @ p \<and> CHR ''/'' \<notin> set u)
      \<longleftrightarrow> c \<noteq> CHR ''/'' \<and> (s = p \<or> (\<exists>u. u \<noteq> [] \<and> s = u @ p \<and> CHR ''/'' \<notin> set u))" (is "?l = _")
  proof -
    have "?l \<longleftrightarrow> (\<exists>u. s = u @ p \<and> CHR ''/'' \<notin> set (c # u))"
      by (metis append_Cons list.distinct(1) list.inject neq_Nil_conv)
    also have "\<dots> \<longleftrightarrow> c \<noteq> CHR ''/'' \<and> (s = p \<or> (\<exists>u. u \<noteq> [] \<and> s = u @ p \<and> CHR ''/'' \<notin> set u))"
      by (metis append_Nil empty_iff list.set(1) set_ConsD list.set_intros)
    finally show ?thesis .
  qed
  have "HasPrefix p p" and "HasPrefix s p \<Longrightarrow> drop (length p) s = [] \<longleftrightarrow> s = p" by (auto simp: HasPrefix_iff)
  moreover define E where "E \<longleftrightarrow> (\<exists>u. u \<noteq> [] \<and> s = u @ p \<and> CHR ''/'' \<notin> set u)"
  ultimately show ?case
    unfolding split E_def [symmetric] using Cons.IH [folded E_def] Cons.prems hit by (cases "s = p") simp_all
qed simp

text \<open>A star in front: any prefix without a slash.\<close>

lemma path_Match_star_plain:
  assumes "plain p"
  shows "path_Match (CHR ''*'' # p) name = Some (\<exists>u. name = u @ p \<and> CHR ''/'' \<notin> set u)"
proof (cases "p = []")
  case True
  then show ?thesis using scanChunk_star_plain [OF assms] by (simp add: path_Match.simps [of "''*''"])
next
  case False
  have split: "(\<exists>u. name = u @ p \<and> CHR ''/'' \<notin> set u) \<longleftrightarrow> name = p \<or> (\<exists>u. u \<noteq> [] \<and> name = u @ p \<and> CHR ''/'' \<notin> set u)"
    by (metis append_Nil empty_iff empty_set)
  have step: "path_Match (CHR ''*'' # p) name =
      (if name = p then Some True
       else if \<exists>u. u \<noteq> [] \<and> name = u @ p \<and> CHR ''/'' \<notin> set u then Some True else Some False)"
    using False HasPrefix_iff [of name p]
    by (simp add: path_Match.simps [of "CHR ''*'' # p"] path_Match.simps [of "[]"] scanChunk_star_plain assms match_chunk_plain
        skip_match_plain check_chunks.simps [of "[]"]) auto
  show ?thesis unfolding step split by simp
qed

end
