(* ===== verification/Architecture.thy ===== *)
theory Architecture
  imports Gostrings "HOL-Library.Sublist"
begin

text \<open>
  The architecture file of the administration server (\<open>internal/admin/archstore/store.go\<close>, \<open>groups.go\<close>,
  \<open>groupcard.go\<close>, \<open>versions.go\<close>): the declared nodes with the scopes that restrict what a gateway receives,
  the managed domains, the groups of gateways, and the versions kept before every change. The file is read
  and written whole under one mutex; reading back what was written gives the same structure. Writing is
  atomic and may fail, which is an argument of the operations. The configuration a wizard attaches to a node
  is a JSON text: the model keeps what the code decodes from it.
\<close>

section \<open>Data\<close>

record ScopeEntry =
  sce_ID :: string
  sce_Type :: string
  sce_Value :: string

text \<open>
  \<open>wc_cluster\<close> are the fields \<open>cluster\<close> and \<open>cluster_group\<close>, \<open>None\<close> when they do not decode;
  \<open>wc_reachable\<close> and \<open>wc_portal\<close> are \<open>reachable_host\<close> and \<open>portal\<close>.
\<close>

record wizard_config =
  wc_cluster :: "(bool \<times> string) option"
  wc_reachable :: "string option"
  wc_portal :: "bool option"

record NodeEntry =
  ne_ID :: string
  ne_Role :: string
  ne_Name :: string
  ne_Endpoint :: string
  ne_RBACRole :: string
  ne_Region :: string
  ne_Environment :: string
  ne_Config :: "wizard_config option"
  ne_Scopes :: "ScopeEntry list"

record DomainEntry =
  de_ID :: string
  de_Domain :: string
  de_EdgeID :: string
  de_DNSProvider :: string
  de_DNSCredentials :: string
  de_CertMethod :: string
  de_DelegatedToEdgeID :: string
  de_DelegatedEndpoint :: string
  de_DelegationMode :: string

record GroupEntry =
  gre_Name :: string
  gre_Version :: int
  gre_Hash :: string
  gre_Environment :: string
  gre_Region :: string
  gre_Tags :: "string list"

record GroupAttributes =
  gat_Environment :: string
  gat_Region :: string
  gat_Tags :: "string list"

record Architecture =
  ar_Nodes :: "NodeEntry list"
  ar_Domains :: "DomainEntry list"
  ar_Groups :: "GroupEntry list"

record CardMember =
  cm_ID :: string
  cm_Name :: string
  cm_Endpoint :: string

record GroupCard =
  gc_Group :: string
  gc_Version :: int
  gc_Members :: "CardMember list"
  gc_Domains :: "DomainEntry list"

section \<open>The file and its versions\<close>

datatype arch_file = NoFile | Unreadable | Written Architecture

record arch_store =
  as_file :: arch_file
  as_versions :: "(go_time \<times> Architecture) list"

datatype arch_error = ReadFailed | WriteFailed | VersionUnknown

definition empty_arch :: Architecture where
  "empty_arch = \<lparr>ar_Nodes = [], ar_Domains = [], ar_Groups = []\<rparr>"

definition readLocked :: "arch_store \<Rightarrow> Architecture option" where
  "readLocked s = (case as_file s of NoFile \<Rightarrow> Some empty_arch | Unreadable \<Rightarrow> None | Written a \<Rightarrow> Some a)"

definition maxVersions :: nat where
  "maxVersions = 50"

text \<open>Versions are kept newest first; \<open>now\<close> stamps the name of the one that is added.\<close>

definition snapshotLocked :: "go_time \<Rightarrow> Architecture \<Rightarrow> arch_store \<Rightarrow> arch_store" where
  "snapshotLocked now new s =
     (case as_file s of
        Written cur \<Rightarrow> if cur = new then s else s\<lparr>as_versions := take maxVersions ((now, cur) # as_versions s)\<rparr>
      | _ \<Rightarrow> s)"

text \<open>The environment of a call: the instant, and whether the file system accepts the write.\<close>

type_synonym arch_env = "go_time \<times> bool"

definition writeLocked :: "arch_env \<Rightarrow> Architecture \<Rightarrow> arch_store \<Rightarrow> (arch_error + unit) \<times> arch_store" where
  "writeLocked env a s =
     (if snd env then (Inr (), (snapshotLocked (fst env) a s)\<lparr>as_file := Written a\<rparr>) else (Inl WriteFailed, s))"

text \<open>A mutation reads, computes the new content, and writes it unless it has nothing to do.\<close>

definition mutate :: "arch_env \<Rightarrow> (Architecture \<Rightarrow> Architecture option) \<Rightarrow> arch_store \<Rightarrow> (arch_error + unit) \<times> arch_store" where
  "mutate env f s =
     (case readLocked s of
        None \<Rightarrow> (Inl ReadFailed, s)
      | Some a \<Rightarrow> (case f a of None \<Rightarrow> (Inr (), s) | Some b \<Rightarrow> writeLocked env b s))"

definition Versions :: "arch_store \<Rightarrow> (go_time \<times> Architecture) list" where
  "Versions s = as_versions s"

definition Restore :: "arch_env \<Rightarrow> go_time \<Rightarrow> arch_store \<Rightarrow> (arch_error + unit) \<times> arch_store" where
  "Restore env t s =
     (case map_of (as_versions s) t of None \<Rightarrow> (Inl VersionUnknown, s) | Some a \<Rightarrow> writeLocked env a s)"

section \<open>Nodes\<close>

definition ControlEndpoint :: "NodeEntry \<Rightarrow> string" where
  "ControlEndpoint n =
     (if ne_Role n \<noteq> ''edge'' then []
      else if ne_Endpoint n \<noteq> [] then ne_Endpoint n
      else (case ne_Config n of
              None \<Rightarrow> []
            | Some c \<Rightarrow> (case wc_reachable c of
                None \<Rightarrow> []
              | Some h \<Rightarrow> if h = [] then [] else if list_ex (\<lambda>a. HasPrefix a ''://'') (suffixes h) then h else ''http://'' @ h)))"

definition arch_List :: "arch_store \<Rightarrow> NodeEntry list option" where
  "arch_List s = map_option ar_Nodes (readLocked s)"

definition EdgeEndpoints :: "arch_store \<Rightarrow> NodeEntry list option" where
  "EdgeEndpoints s =
     map_option (\<lambda>nodes. map (\<lambda>n. n\<lparr>ne_Endpoint := ControlEndpoint n\<rparr>)
                   (filter (\<lambda>n. ControlEndpoint n \<noteq> [] \<and> ne_Name n \<noteq> []) nodes)) (arch_List s)"

text \<open>The first node that satisfies \<open>P\<close> is replaced.\<close>

fun update_first :: "('a \<Rightarrow> bool) \<Rightarrow> ('a \<Rightarrow> 'a) \<Rightarrow> 'a list \<Rightarrow> 'a list" where
  "update_first P f [] = []"
| "update_first P f (x # xs) = (if P x then f x # xs else x # update_first P f xs)"

definition kept_fields :: "NodeEntry \<Rightarrow> NodeEntry \<Rightarrow> NodeEntry" where
  "kept_fields node n =
     node\<lparr>ne_Scopes := (if ne_Scopes node = [] then ne_Scopes n else ne_Scopes node),
          ne_Config := (if ne_Config node = None then ne_Config n else ne_Config node),
          ne_Region := (if ne_Region node = [] then ne_Region n else ne_Region node),
          ne_Environment := (if ne_Environment node = [] then ne_Environment n else ne_Environment node)\<rparr>"

definition arch_Upsert :: "arch_env \<Rightarrow> NodeEntry \<Rightarrow> arch_store \<Rightarrow> (arch_error + unit) \<times> arch_store" where
  "arch_Upsert env node =
     mutate env (\<lambda>a. Some
       (if list_ex (\<lambda>n. ne_ID n = ne_ID node) (ar_Nodes a)
        then a\<lparr>ar_Nodes := update_first (\<lambda>n. ne_ID n = ne_ID node) (kept_fields node) (ar_Nodes a)\<rparr>
        else a\<lparr>ar_Nodes := ar_Nodes a @ [node]\<rparr>))"

definition arch_Delete :: "arch_env \<Rightarrow> string \<Rightarrow> arch_store \<Rightarrow> (arch_error + unit) \<times> arch_store" where
  "arch_Delete env i = mutate env (\<lambda>a. Some (a\<lparr>ar_Nodes := filter (\<lambda>n. ne_ID n \<noteq> i) (ar_Nodes a)\<rparr>))"

definition AddScope :: "arch_env \<Rightarrow> string \<Rightarrow> ScopeEntry \<Rightarrow> arch_store \<Rightarrow> (arch_error + unit) \<times> arch_store" where
  "AddScope env nodeID sc =
     mutate env (\<lambda>a.
       case find (\<lambda>n. ne_ID n = nodeID) (ar_Nodes a) of
         None \<Rightarrow> None
       | Some n \<Rightarrow>
           if list_ex (\<lambda>e. sce_Type e = sce_Type sc \<and> sce_Value e = sce_Value sc) (ne_Scopes n) then None
           else Some (a\<lparr>ar_Nodes := update_first (\<lambda>n. ne_ID n = nodeID) (\<lambda>n. n\<lparr>ne_Scopes := ne_Scopes n @ [sc]\<rparr>) (ar_Nodes a)\<rparr>))"

definition RemoveScope :: "arch_env \<Rightarrow> string \<Rightarrow> string \<Rightarrow> arch_store \<Rightarrow> (arch_error + unit) \<times> arch_store" where
  "RemoveScope env nodeID scopeID =
     mutate env (\<lambda>a.
       if list_ex (\<lambda>n. ne_ID n = nodeID) (ar_Nodes a)
       then Some (a\<lparr>ar_Nodes := update_first (\<lambda>n. ne_ID n = nodeID)
              (\<lambda>n. n\<lparr>ne_Scopes := filter (\<lambda>sc. sce_ID sc \<noteq> scopeID) (ne_Scopes n)\<rparr>) (ar_Nodes a)\<rparr>)
       else None)"

definition new_endpoint :: "string \<Rightarrow> NodeEntry \<Rightarrow> string" where
  "new_endpoint endpoint n =
     (if endpoint \<noteq> [] \<and> (ne_Endpoint n \<noteq> [] \<or> ControlEndpoint n \<noteq> endpoint) then endpoint else ne_Endpoint n)"

definition with_endpoint :: "string \<Rightarrow> string \<Rightarrow> NodeEntry \<Rightarrow> NodeEntry" where
  "with_endpoint endpoint rbacRole n =
     n\<lparr>ne_Endpoint := new_endpoint endpoint n, ne_RBACRole := (if rbacRole \<noteq> [] then rbacRole else ne_RBACRole n)\<rparr>"

definition UpsertEndpoint :: "arch_env \<Rightarrow> string \<Rightarrow> string \<Rightarrow> string \<Rightarrow> arch_store \<Rightarrow> (arch_error + unit) \<times> arch_store" where
  "UpsertEndpoint env nodeID endpoint rbacRole =
     mutate env (\<lambda>a.
       if list_ex (\<lambda>n. ne_ID n = nodeID) (ar_Nodes a)
       then Some (a\<lparr>ar_Nodes := update_first (\<lambda>n. ne_ID n = nodeID) (with_endpoint endpoint rbacRole) (ar_Nodes a)\<rparr>)
       else None)"

definition new_edge :: "string \<Rightarrow> string \<Rightarrow> string \<Rightarrow> string \<Rightarrow> NodeEntry" where
  "new_edge i name endpoint rbacRole =
     \<lparr>ne_ID = i, ne_Role = ''edge'', ne_Name = name, ne_Endpoint = endpoint, ne_RBACRole = rbacRole, ne_Region = [],
      ne_Environment = [], ne_Config = None, ne_Scopes = []\<rparr>"

definition EnsureEdge :: "arch_env \<Rightarrow> string \<Rightarrow> string \<Rightarrow> string \<Rightarrow> string \<Rightarrow> arch_store \<Rightarrow> (arch_error + unit) \<times> arch_store" where
  "EnsureEdge env i name endpoint rbacRole =
     mutate env (\<lambda>a.
       case find (\<lambda>n. ne_ID n = i) (ar_Nodes a) of
         Some n \<Rightarrow>
           if with_endpoint endpoint rbacRole n = n then None
           else Some (a\<lparr>ar_Nodes := update_first (\<lambda>n. ne_ID n = i) (with_endpoint endpoint rbacRole) (ar_Nodes a)\<rparr>)
       | None \<Rightarrow>
           if list_ex (\<lambda>n. ne_Role n = ''edge'' \<and> ne_Name n = name) (ar_Nodes a) then None
           else Some (a\<lparr>ar_Nodes := ar_Nodes a @ [new_edge i name endpoint rbacRole]\<rparr>))"

section \<open>Groups\<close>

definition node_group :: "NodeEntry \<Rightarrow> string" where
  "node_group n =
     (if ne_Role n \<noteq> ''edge'' then []
      else (case ne_Config n of
              None \<Rightarrow> []
            | Some c \<Rightarrow> (case wc_cluster c of Some (True, g) \<Rightarrow> g | _ \<Rightarrow> [])))"

definition PortalFlag :: "NodeEntry \<Rightarrow> bool \<times> bool" where
  "PortalFlag n =
     (case ne_Config n of
        None \<Rightarrow> (False, False)
      | Some c \<Rightarrow> (case wc_portal c of None \<Rightarrow> (False, False) | Some b \<Rightarrow> (b, True)))"

definition arch_nodes :: "arch_store \<Rightarrow> NodeEntry list" where
  "arch_nodes s = (case arch_List s of None \<Rightarrow> [] | Some ns \<Rightarrow> ns)"

definition GroupOf :: "string \<Rightarrow> arch_store \<Rightarrow> string" where
  "GroupOf ref s =
     (if ref = [] then []
      else (case find (\<lambda>n. (ne_ID n = ref \<or> ne_Name n = ref) \<and> node_group n \<noteq> []) (arch_nodes s) of
              None \<Rightarrow> [] | Some n \<Rightarrow> node_group n))"

definition GroupMembers :: "string \<Rightarrow> arch_store \<Rightarrow> NodeEntry list" where
  "GroupMembers g s = (if g = [] then [] else filter (\<lambda>n. node_group n = g) (arch_nodes s))"

fun insert_name :: "('a \<Rightarrow> string) \<Rightarrow> 'a \<Rightarrow> 'a list \<Rightarrow> 'a list" where
  "insert_name f x [] = [x]"
| "insert_name f x (y # ys) = (if str_less (f y) (f x) then y # insert_name f x ys else x # y # ys)"

definition sort_names :: "('a \<Rightarrow> string) \<Rightarrow> 'a list \<Rightarrow> 'a list" where
  "sort_names f xs = foldr (insert_name f) xs []"

definition Groups :: "arch_store \<Rightarrow> (string \<times> NodeEntry list) list" where
  "Groups s =
     map (\<lambda>g. (g, GroupMembers g s))
       (sort_names (\<lambda>g. g) (remdups (filter (\<lambda>g. g \<noteq> []) (map node_group (arch_nodes s)))))"

definition IsInGroup :: "string \<Rightarrow> string \<Rightarrow> arch_store \<Rightarrow> bool" where
  "IsInGroup ref g s \<longleftrightarrow> g \<noteq> [] \<and> GroupOf ref s = g"

definition NodeOf :: "string \<Rightarrow> arch_store \<Rightarrow> NodeEntry option" where
  "NodeOf ref s = (if ref = [] then None else find (\<lambda>n. ne_ID n = ref \<or> ne_Name n = ref) (arch_nodes s))"

definition arch_groups :: "arch_store \<Rightarrow> GroupEntry list" where
  "arch_groups s = (case readLocked s of None \<Rightarrow> [] | Some a \<Rightarrow> ar_Groups a)"

definition GroupAttributesOf :: "string \<Rightarrow> arch_store \<Rightarrow> GroupAttributes" where
  "GroupAttributesOf name s =
     (case find (\<lambda>g. gre_Name g = name) (arch_groups s) of
        None \<Rightarrow> \<lparr>gat_Environment = [], gat_Region = [], gat_Tags = []\<rparr>
      | Some g \<Rightarrow> \<lparr>gat_Environment = gre_Environment g, gat_Region = gre_Region g, gat_Tags = gre_Tags g\<rparr>)"

definition with_attributes :: "GroupAttributes \<Rightarrow> GroupEntry \<Rightarrow> GroupEntry" where
  "with_attributes t g = g\<lparr>gre_Environment := gat_Environment t, gre_Region := gat_Region t, gre_Tags := gat_Tags t\<rparr>"

definition SetGroupAttributes :: "arch_env \<Rightarrow> string \<Rightarrow> GroupAttributes \<Rightarrow> arch_store \<Rightarrow> (arch_error + unit) \<times> arch_store" where
  "SetGroupAttributes env name t =
     mutate env (\<lambda>a. Some
       (if list_ex (\<lambda>g. gre_Name g = name) (ar_Groups a)
        then a\<lparr>ar_Groups := update_first (\<lambda>g. gre_Name g = name) (with_attributes t) (ar_Groups a)\<rparr>
        else a\<lparr>ar_Groups := sort_names gre_Name (ar_Groups a @
               [with_attributes t \<lparr>gre_Name = name, gre_Version = 0, gre_Hash = [], gre_Environment = [], gre_Region = [], gre_Tags = []\<rparr>])\<rparr>))"

definition GroupCardVersion :: "string \<Rightarrow> arch_store \<Rightarrow> int \<times> string" where
  "GroupCardVersion name s =
     (case find (\<lambda>g. gre_Name g = name) (arch_groups s) of None \<Rightarrow> (0, []) | Some g \<Rightarrow> (gre_Version g, gre_Hash g))"

text \<open>An entry of a lower version changes nothing; one that is accepted keeps the attributes of the group.\<close>

definition newer_card :: "GroupEntry \<Rightarrow> GroupEntry \<Rightarrow> GroupEntry" where
  "newer_card g old =
     (if gre_Version old \<le> gre_Version g
      then g\<lparr>gre_Environment := gre_Environment old, gre_Region := gre_Region old, gre_Tags := gre_Tags old\<rparr> else old)"

definition setGroupEntry :: "GroupEntry \<Rightarrow> GroupEntry list \<Rightarrow> GroupEntry list" where
  "setGroupEntry g gs =
     (if list_ex (\<lambda>h. gre_Name h = gre_Name g) gs
      then update_first (\<lambda>h. gre_Name h = gre_Name g) (newer_card g) gs
      else sort_names gre_Name (gs @ [g]))"

definition card_entry :: "string \<Rightarrow> int \<Rightarrow> string \<Rightarrow> GroupEntry" where
  "card_entry name version hash =
     \<lparr>gre_Name = name, gre_Version = version, gre_Hash = hash, gre_Environment = [], gre_Region = [], gre_Tags = []\<rparr>"

definition SetGroupCard :: "arch_env \<Rightarrow> string \<Rightarrow> int \<Rightarrow> string \<Rightarrow> arch_store \<Rightarrow> (arch_error + unit) \<times> arch_store" where
  "SetGroupCard env name version hash =
     mutate env (\<lambda>a. Some (a\<lparr>ar_Groups := setGroupEntry (card_entry name version hash) (ar_Groups a)\<rparr>))"

section \<open>Recovery from the cards of the groups\<close>

record RecoverReport =
  rr_Groups :: "string list"
  rr_Nodes :: nat
  rr_Joined :: nat
  rr_Domains :: nat
  rr_Skipped :: nat

definition best_step :: "GroupCard \<Rightarrow> (string, GroupCard) gomap \<Rightarrow> (string, GroupCard) gomap" where
  "best_step c best =
     (if gc_Group c = [] then best
      else (case gm_get best (gc_Group c) of
              None \<Rightarrow> gm_set (gc_Group c) c best
            | Some cur \<Rightarrow> if gc_Version cur < gc_Version c then gm_set (gc_Group c) c best else best))"

definition best_cards :: "GroupCard list \<Rightarrow> (string, GroupCard) gomap" where
  "best_cards cards = fold best_step cards []"

definition same_node :: "string \<Rightarrow> string \<Rightarrow> NodeEntry \<Rightarrow> bool" where
  "same_node i name n \<longleftrightarrow> i \<noteq> [] \<and> ne_ID n = i \<or> name \<noteq> [] \<and> ne_Name n = name"

definition domainKnown :: "DomainEntry \<Rightarrow> DomainEntry list \<Rightarrow> bool" where
  "domainKnown d ds \<longleftrightarrow> list_ex (\<lambda>e. de_ID d \<noteq> [] \<and> de_ID e = de_ID d \<or> de_Domain d \<noteq> [] \<and> de_Domain e = de_Domain d) ds"

definition group_config :: "string \<Rightarrow> wizard_config" where
  "group_config g = \<lparr>wc_cluster = Some (True, g), wc_reachable = Some [], wc_portal = None\<rparr>"

definition merge_member :: "string \<Rightarrow> CardMember \<Rightarrow> NodeEntry list \<times> RecoverReport \<Rightarrow> NodeEntry list \<times> RecoverReport" where
  "merge_member g m st =
     (case st of (ns, rep) \<Rightarrow>
        if cm_ID m = [] \<and> cm_Name m = [] then (ns, rep)
        else (case find (same_node (cm_ID m) (cm_Name m)) ns of
                Some n \<Rightarrow>
                  if ne_Config n = None
                  then (update_first (same_node (cm_ID m) (cm_Name m)) (\<lambda>n. n\<lparr>ne_Config := Some (group_config g)\<rparr>) ns,
                        rep\<lparr>rr_Joined := rr_Joined rep + 1\<rparr>)
                  else (ns, rep\<lparr>rr_Skipped := rr_Skipped rep + 1\<rparr>)
              | None \<Rightarrow>
                  (ns @ [(new_edge (cm_ID m) (cm_Name m) (cm_Endpoint m) [])\<lparr>ne_Config := Some (group_config g)\<rparr>],
                   rep\<lparr>rr_Nodes := rr_Nodes rep + 1\<rparr>)))"

definition merge_domain :: "DomainEntry \<Rightarrow> DomainEntry list \<times> RecoverReport \<Rightarrow> DomainEntry list \<times> RecoverReport" where
  "merge_domain d st =
     (case st of (ds, rep) \<Rightarrow>
        if domainKnown d ds then (ds, rep\<lparr>rr_Skipped := rr_Skipped rep + 1\<rparr>)
        else (ds @ [d], rep\<lparr>rr_Domains := rr_Domains rep + 1\<rparr>))"

definition merge_card :: "GroupCard \<Rightarrow> Architecture \<times> RecoverReport \<Rightarrow> Architecture \<times> RecoverReport" where
  "merge_card c st =
     (case st of (a, rep) \<Rightarrow>
        case fold (merge_member (gc_Group c)) (gc_Members c) (ar_Nodes a, rep) of (ns, rep1) \<Rightarrow>
          case fold merge_domain (gc_Domains c) (ar_Domains a, rep1) of (ds, rep2) \<Rightarrow>
            (a\<lparr>ar_Nodes := ns, ar_Domains := ds, ar_Groups := setGroupEntry (card_entry (gc_Group c) (gc_Version c) []) (ar_Groups a)\<rparr>, rep2))"

text \<open>The newest card of each group, by name of the group.\<close>

definition chosen_cards :: "GroupCard list \<Rightarrow> GroupCard list" where
  "chosen_cards cards = sort_names gc_Group (map snd (best_cards cards))"

definition merged :: "GroupCard list \<Rightarrow> Architecture \<Rightarrow> Architecture \<times> RecoverReport" where
  "merged cards a =
     fold merge_card (chosen_cards cards)
       (a, \<lparr>rr_Groups = map gc_Group (chosen_cards cards), rr_Nodes = 0, rr_Joined = 0, rr_Domains = 0, rr_Skipped = 0\<rparr>)"

definition MergeCards :: "arch_env \<Rightarrow> GroupCard list \<Rightarrow> arch_store \<Rightarrow> (arch_error + RecoverReport) \<times> arch_store" where
  "MergeCards env cards s =
     (case readLocked s of
        None \<Rightarrow> (Inl ReadFailed, s)
      | Some a \<Rightarrow>
          (case merged cards a of (b, rep) \<Rightarrow>
             if rr_Nodes rep = 0 \<and> rr_Domains rep = 0 \<and> rr_Groups rep = [] then (Inr rep, s)
             else (case writeLocked env b s of (Inl e, s1) \<Rightarrow> (Inl e, s1) | (Inr u, s1) \<Rightarrow> (Inr rep, s1))))"

end
