(* ===== verification/Architecture_Properties.thy ===== *)
theory Architecture_Properties
  imports Architecture
begin

text \<open>
  What the mutations of the architecture file keep: identities of nodes and groups, the restriction of a
  gateway, the versions of the groups; and what a recovery from cards achieves.
\<close>

section \<open>Lists updated at the first match\<close>

lemma map_update_first: "(\<And>x. P x \<Longrightarrow> h (f x) = h x) \<Longrightarrow> map h (update_first P f xs) = map h xs"
  by (induction xs) auto

lemma find_update_first_same:
  "(\<And>x. P x \<Longrightarrow> P (f x)) \<Longrightarrow> find P (update_first P f xs) = map_option f (find P xs)"
  by (induction xs) auto

lemma find_update_first_other:
  "(\<And>x. P x \<Longrightarrow> \<not> Q x \<and> \<not> Q (f x)) \<Longrightarrow> find Q (update_first P f xs) = find Q xs"
  by (induction xs) auto

lemma update_first_none: "find P xs = None \<Longrightarrow> update_first P f xs = xs"
  by (induction xs) (auto split: if_splits)

lemma find_append_unique: "find P (xs @ ys) = (case find P xs of None \<Rightarrow> find P ys | Some x \<Rightarrow> Some x)"
  by (induction xs) auto

lemma find_insert_name: "find (\<lambda>g. f g = k) (insert_name f x ys) = (if f x = k then Some x else find (\<lambda>g. f g = k) ys)"
  by (induction ys) auto

text \<open>The sort is stable, so the first entry of a name stays the first.\<close>

lemma find_sort_names: "find (\<lambda>g. f g = k) (sort_names f xs) = find (\<lambda>g. f g = k) xs"
  by (induction xs) (auto simp: sort_names_def find_insert_name)

lemma mset_insert_name [simp]: "set (insert_name f x ys) = insert x (set ys)"
  by (induction ys) auto

lemma set_sort_names [simp]: "set (sort_names f xs) = set xs"
  by (induction xs) (auto simp: sort_names_def)

lemma distinct_insert_name: "distinct (map f (insert_name f x ys)) \<longleftrightarrow> f x \<notin> f ` set ys \<and> distinct (map f ys)"
  by (induction ys) auto

lemma distinct_sort_names: "distinct (map f (sort_names f xs)) \<longleftrightarrow> distinct (map f xs)"
proof (induction xs)
  case (Cons x xs)
  have "sort_names f (x # xs) = insert_name f x (sort_names f xs)" by (simp add: sort_names_def)
  then show ?case using Cons by (simp add: distinct_insert_name)
qed (simp add: sort_names_def)

section \<open>Operations as steps\<close>

datatype arch_op =
    UpsertNode NodeEntry
  | DeleteNode string
  | ScopeAdded string ScopeEntry
  | ScopeRemoved string string
  | EndpointSet string string string
  | EdgeSeen string string string string
  | AttributesSet string GroupAttributes
  | CardSet string int string
  | CardsMerged "GroupCard list"
  | Restored go_time

fun arch_step :: "arch_env \<times> arch_op \<Rightarrow> arch_store \<Rightarrow> arch_store" where
  "arch_step (env, UpsertNode n) s = snd (arch_Upsert env n s)"
| "arch_step (env, DeleteNode i) s = snd (arch_Delete env i s)"
| "arch_step (env, ScopeAdded i sc) s = snd (AddScope env i sc s)"
| "arch_step (env, ScopeRemoved i k) s = snd (RemoveScope env i k s)"
| "arch_step (env, EndpointSet i e r) s = snd (UpsertEndpoint env i e r s)"
| "arch_step (env, EdgeSeen i name e r) s = snd (EnsureEdge env i name e r s)"
| "arch_step (env, AttributesSet g t) s = snd (SetGroupAttributes env g t s)"
| "arch_step (env, CardSet g v h) s = snd (SetGroupCard env g v h s)"
| "arch_step (env, CardsMerged cs) s = snd (MergeCards env cs s)"
| "arch_step (env, Restored t) s = snd (Restore env t s)"

definition start_store :: arch_store where
  "start_store = \<lparr>as_file = NoFile, as_versions = []\<rparr>"

text \<open>Every content the file has or can be restored to.\<close>

definition arch_all :: "(Architecture \<Rightarrow> bool) \<Rightarrow> arch_store \<Rightarrow> bool" where
  "arch_all P s \<longleftrightarrow> (case as_file s of Written a \<Rightarrow> P a | _ \<Rightarrow> True) \<and> list_all (\<lambda>(t, a). P a) (as_versions s)"

lemma arch_all_read: "arch_all P s \<Longrightarrow> P empty_arch \<Longrightarrow> readLocked s = Some a \<Longrightarrow> P a"
  by (auto simp: arch_all_def readLocked_def split: arch_file.splits)

lemma arch_all_write:
  assumes "arch_all P s" and "P a"
  shows "arch_all P (snd (writeLocked env a s))"
proof -
  have "list_all (\<lambda>(t, a). P a) (take n ((t, cur) # as_versions s))" if "P cur" for n t cur
    using assms(1) that set_take_subset [of n "(t, cur) # as_versions s"] by (fastforce simp: arch_all_def list_all_iff)
  then show ?thesis
    using assms by (auto simp: writeLocked_def snapshotLocked_def arch_all_def split: arch_file.splits)
qed

lemma arch_all_mutate:
  assumes "arch_all P s" and "P empty_arch" and "\<And>a b. P a \<Longrightarrow> f a = Some b \<Longrightarrow> P b"
  shows "arch_all P (snd (mutate env f s))"
  using assms arch_all_read [OF assms(1,2)] arch_all_write [OF assms(1), of _ env]
  by (auto simp: mutate_def split: option.split)

lemma arch_all_merge:
  assumes "arch_all P s" and "P empty_arch" and "\<And>a. P a \<Longrightarrow> P (fst (merged cards a))"
  shows "arch_all P (snd (MergeCards env cards s))"
proof (cases "readLocked s")
  case (Some a)
  obtain b rep where m: "merged cards a = (b, rep)" by (cases "merged cards a")
  have "P b" using assms(3) [OF arch_all_read [OF assms(1,2) Some]] m by simp
  from arch_all_write [OF assms(1) this, of env] show ?thesis
    using Some m assms(1) by (auto simp: MergeCards_def split: sum.split prod.split)
qed (simp add: MergeCards_def assms(1))

lemma arch_all_restore: "arch_all P s \<Longrightarrow> arch_all P (snd (Restore env t s))"
  using arch_all_write [of P s _ env]
  by (auto simp: Restore_def arch_all_def list_all_iff split: option.split dest: map_of_SomeD)

section \<open>Folds of a recovery\<close>

text \<open>A card works on the nodes member by member, and on the groups by one entry.\<close>

lemma merge_card_nodes: "ar_Nodes (fst (merge_card c (a, rep))) = fst (fold (merge_member (gc_Group c)) (gc_Members c) (ar_Nodes a, rep))"
  by (simp add: merge_card_def split: prod.split)

lemma merge_card_groups:
  "ar_Groups (fst (merge_card c (a, rep))) = setGroupEntry (card_entry (gc_Group c) (gc_Version c) []) (ar_Groups a)"
  by (simp add: merge_card_def split: prod.split)

lemma merge_members_keep:
  assumes "\<And>m ns rep. Q ns \<Longrightarrow> Q (fst (merge_member g m (ns, rep)))"
  shows "Q ns \<Longrightarrow> Q (fst (fold (merge_member g) mbs (ns, rep)))"
proof (induction mbs arbitrary: ns rep)
  case (Cons m mbs)
  obtain ns1 rep1 where m: "merge_member g m (ns, rep) = (ns1, rep1)" by (cases "merge_member g m (ns, rep)")
  then show ?case using Cons.IH [of ns1 rep1] assms [OF Cons.prems, of m rep] by simp
qed simp

lemma merged_keeps:
  assumes "\<And>a c rep. P a \<Longrightarrow> P (fst (merge_card c (a, rep)))"
  shows "P a \<Longrightarrow> P (fst (merged cards a))"
proof -
  have "P (fst (fold merge_card cs (a, rep)))" if "P a" for cs rep
    using that
  proof (induction cs arbitrary: a rep)
    case (Cons c cs)
    obtain a1 rep1 where m: "merge_card c (a, rep) = (a1, rep1)" by (cases "merge_card c (a, rep)")
    then show ?case using Cons.IH [of a1 rep1] assms [OF Cons.prems, of c rep] by simp
  qed simp
  then show "P a \<Longrightarrow> ?thesis" by (simp add: merged_def)
qed

section \<open>Identities\<close>

definition ids_of :: "NodeEntry list \<Rightarrow> string list" where
  "ids_of ns = filter (\<lambda>i. i \<noteq> []) (map ne_ID ns)"

definition arch_ok :: "Architecture \<Rightarrow> bool" where
  "arch_ok a \<longleftrightarrow> distinct (ids_of (ar_Nodes a)) \<and> distinct (map gre_Name (ar_Groups a))"

lemma arch_ok_empty [simp]: "arch_ok empty_arch"
  by (simp add: arch_ok_def empty_arch_def ids_of_def)

lemma ids_of_append: "ids_of (xs @ ys) = ids_of xs @ ids_of ys"
  by (simp add: ids_of_def)

lemma ids_of_update: "(\<And>x. P x \<Longrightarrow> ne_ID (f x) = ne_ID x) \<Longrightarrow> ids_of (update_first P f ns) = ids_of ns"
  using map_update_first [of P ne_ID f ns] by (simp add: ids_of_def)

lemma arch_ok_nodes: "arch_ok a \<Longrightarrow> ids_of ns = ids_of (ar_Nodes a) \<Longrightarrow> arch_ok (a\<lparr>ar_Nodes := ns\<rparr>)"
  by (simp add: arch_ok_def)

lemma arch_ok_new: "arch_ok a \<Longrightarrow> \<forall>n\<in>set (ar_Nodes a). ne_ID n \<noteq> ne_ID x \<Longrightarrow> arch_ok (a\<lparr>ar_Nodes := ar_Nodes a @ [x]\<rparr>)"
  by (auto simp: arch_ok_def ids_of_append) (auto simp: ids_of_def split: if_splits)

lemma setGroupEntry_distinct: "distinct (map gre_Name gs) \<Longrightarrow> distinct (map gre_Name (setGroupEntry g gs))"
proof (cases "list_ex (\<lambda>h. gre_Name h = gre_Name g) gs")
  case True
  then show "distinct (map gre_Name gs) \<Longrightarrow> ?thesis"
    by (subst setGroupEntry_def) (simp add: map_update_first newer_card_def)
next
  case False
  then show "distinct (map gre_Name gs) \<Longrightarrow> ?thesis"
    by (auto simp: setGroupEntry_def distinct_sort_names list_ex_iff)
qed

lemma merge_member_ids: "distinct (ids_of ns) \<Longrightarrow> distinct (ids_of (fst (merge_member g m (ns, rep))))"
  by (auto simp: merge_member_def ids_of_update ids_of_append find_None_iff same_node_def split: option.split)
     (auto simp: ids_of_def new_edge_def split: if_splits)

lemma merge_members_ids: "distinct (ids_of ns) \<Longrightarrow> distinct (ids_of (fst (fold (merge_member g) mbs (ns, rep))))"
  using merge_member_ids by (rule merge_members_keep)

lemma merge_card_ok: "arch_ok a \<Longrightarrow> arch_ok (fst (merge_card c (a, rep)))"
  unfolding arch_ok_def merge_card_nodes merge_card_groups by (simp add: merge_members_ids setGroupEntry_distinct)

lemma merged_ok: "arch_ok a \<Longrightarrow> arch_ok (fst (merged cards a))"
  using merge_card_ok by (rule merged_keeps)

lemma ne_ID_kept [simp]: "ne_ID (kept_fields node n) = ne_ID node"
  by (simp add: kept_fields_def)

lemma ne_ID_with_endpoint [simp]: "ne_ID (with_endpoint e r n) = ne_ID n"
  by (simp add: with_endpoint_def)

lemma ids_of_filter: "distinct (ids_of ns) \<Longrightarrow> distinct (ids_of (filter P ns))"
  by (induction ns) (auto simp: ids_of_def split: if_splits)

lemma arch_step_ok: "arch_all arch_ok s \<Longrightarrow> arch_all arch_ok (arch_step (env, op) s)"
proof (cases op)
  case (UpsertNode n)
  assume "arch_all arch_ok s"
  then show ?thesis unfolding UpsertNode
    by (auto simp: arch_Upsert_def list_ex_iff intro!: arch_all_mutate arch_ok_nodes arch_ok_new ids_of_update split: if_splits)
next
  case (DeleteNode i)
  assume "arch_all arch_ok s"
  then show ?thesis unfolding DeleteNode
    by (auto simp: arch_Delete_def intro!: arch_all_mutate) (auto simp: arch_ok_def ids_of_filter)
next
  case (ScopeAdded i sc)
  assume "arch_all arch_ok s"
  then show ?thesis unfolding ScopeAdded
    by (auto simp: AddScope_def intro!: arch_all_mutate arch_ok_nodes ids_of_update split: option.splits if_splits)
next
  case (ScopeRemoved i k)
  assume "arch_all arch_ok s"
  then show ?thesis unfolding ScopeRemoved
    by (auto simp: RemoveScope_def intro!: arch_all_mutate arch_ok_nodes ids_of_update split: if_splits)
next
  case (EndpointSet i e r)
  assume "arch_all arch_ok s"
  then show ?thesis unfolding EndpointSet
    by (auto simp: UpsertEndpoint_def intro!: arch_all_mutate arch_ok_nodes ids_of_update split: if_splits)
next
  case (EdgeSeen i name e r)
  assume "arch_all arch_ok s"
  then show ?thesis unfolding EdgeSeen
    by (auto simp: EnsureEdge_def new_edge_def find_None_iff intro!: arch_all_mutate arch_ok_nodes arch_ok_new ids_of_update
        split: option.splits if_splits)
next
  case (AttributesSet g t)
  assume "arch_all arch_ok s"
  then show ?thesis unfolding AttributesSet
    by (auto simp: SetGroupAttributes_def intro!: arch_all_mutate)
       (auto simp: arch_ok_def map_update_first with_attributes_def distinct_sort_names list_ex_iff)
next
  case (CardSet g v h)
  assume "arch_all arch_ok s"
  then show ?thesis unfolding CardSet
    by (auto simp: SetGroupCard_def intro!: arch_all_mutate) (auto simp: arch_ok_def setGroupEntry_distinct)
next
  case (CardsMerged cs)
  assume "arch_all arch_ok s"
  then show ?thesis unfolding CardsMerged by (auto intro!: arch_all_merge merged_ok)
next
  case (Restored t)
  assume "arch_all arch_ok s"
  then show ?thesis unfolding Restored by (simp add: arch_all_restore)
qed

text \<open>
  C37: After any sequence of operations on an empty store, restorations of earlier versions and failed
  writes included, no two nodes of the file or of a kept version share an identifier and no two group
  entries share a name.
\<close>

theorem arch_reachable_ok: "arch_all arch_ok (fold arch_step ops start_store)"
proof -
  have "arch_all arch_ok (fold arch_step ops s)" if "arch_all arch_ok s" for s
    using that by (induction ops arbitrary: s) (simp_all add: arch_step_ok split_paired_all)
  then show ?thesis by (simp add: arch_all_def start_store_def)
qed

section \<open>What the current content keeps\<close>

definition arch_now :: "(Architecture \<Rightarrow> bool) \<Rightarrow> arch_store \<Rightarrow> bool" where
  "arch_now P s \<longleftrightarrow> (case readLocked s of None \<Rightarrow> False | Some a \<Rightarrow> P a)"

lemma arch_now_write: "arch_now P s \<Longrightarrow> P a \<Longrightarrow> arch_now P (snd (writeLocked env a s))"
  by (simp add: arch_now_def writeLocked_def readLocked_def)

lemma arch_now_mutate:
  assumes "arch_now P s" and "\<And>a b. P a \<Longrightarrow> f a = Some b \<Longrightarrow> P b"
  shows "arch_now P (snd (mutate env f s))"
proof -
  obtain a where a: "readLocked s = Some a" "P a" using assms(1) by (auto simp: arch_now_def split: option.splits)
  show ?thesis
  proof (cases "f a")
    case (Some b)
    then have "arch_now P (snd (writeLocked env b s))" using assms(2) a(2) by (intro arch_now_write [OF assms(1)])
    then show ?thesis using a(1) Some by (simp add: mutate_def)
  qed (simp add: mutate_def a(1) assms(1))
qed

lemma arch_now_merge:
  assumes "arch_now P s" and "\<And>a. P a \<Longrightarrow> P (fst (merged cards a))"
  shows "arch_now P (snd (MergeCards env cards s))"
proof (cases "readLocked s")
  case (Some a)
  obtain b rep where m: "merged cards a = (b, rep)" by (cases "merged cards a")
  have "P a" using assms(1) Some by (simp add: arch_now_def)
  then have "P b" using assms(2) [of a] m by simp
  from arch_now_write [OF assms(1) this, of env] show ?thesis
    using Some m assms(1) by (auto simp: MergeCards_def split: sum.split prod.split)
qed (simp add: MergeCards_def assms(1))

section \<open>A restricted gateway stays restricted\<close>

definition restricted_in :: "string \<Rightarrow> NodeEntry list \<Rightarrow> bool" where
  "restricted_in i ns \<longleftrightarrow> (case find (\<lambda>n. ne_ID n = i) ns of None \<Rightarrow> False | Some n \<Rightarrow> ne_Scopes n \<noteq> [])"

lemma restricted_append: "restricted_in i ns \<Longrightarrow> restricted_in i (ns @ ms')"
  by (auto simp: restricted_in_def find_append_unique split: option.splits)

lemma restricted_update:
  assumes "\<And>n. P n \<Longrightarrow> ne_ID (f n) = ne_ID n" and "\<And>n. P n \<Longrightarrow> ne_ID n = i \<Longrightarrow> ne_Scopes n \<noteq> [] \<Longrightarrow> ne_Scopes (f n) \<noteq> []"
  shows "restricted_in i ns \<Longrightarrow> restricted_in i (update_first P f ns)"
  using assms by (induction ns) (auto simp: restricted_in_def)

lemma restricted_filter: "restricted_in i ns \<Longrightarrow> i \<noteq> j \<Longrightarrow> restricted_in i (filter (\<lambda>n. ne_ID n \<noteq> j) ns)"
  by (induction ns) (auto simp: restricted_in_def)

lemma merge_member_restricted: "restricted_in i ns \<Longrightarrow> restricted_in i (fst (merge_member g m (ns, rep)))"
  by (auto simp: merge_member_def intro!: restricted_append restricted_update split: option.split)

lemma merge_card_restricted: "restricted_in i (ar_Nodes a) \<Longrightarrow> restricted_in i (ar_Nodes (fst (merge_card c (a, rep))))"
  unfolding merge_card_nodes using merge_member_restricted by (rule merge_members_keep)

fun lifts :: "string \<Rightarrow> arch_op \<Rightarrow> bool" where
  "lifts i (DeleteNode j) = (j = i)"
| "lifts i (ScopeRemoved j k) = (j = i)"
| "lifts i (Restored t) = True"
| "lifts i op = False"

lemma arch_step_restricted:
  assumes "arch_now (\<lambda>a. restricted_in i (ar_Nodes a)) s" and "\<not> lifts i op"
  shows "arch_now (\<lambda>a. restricted_in i (ar_Nodes a)) (arch_step (env, op) s)"
proof (cases op)
  case (UpsertNode n)
  then show ?thesis using assms
    by (auto simp: arch_Upsert_def kept_fields_def intro!: arch_now_mutate restricted_append restricted_update split: if_splits)
next
  case (DeleteNode j)
  then show ?thesis using assms by (auto simp: arch_Delete_def intro!: arch_now_mutate restricted_filter)
next
  case (ScopeAdded j sc)
  then show ?thesis using assms
    by (auto simp: AddScope_def intro!: arch_now_mutate restricted_update split: option.splits if_splits)
next
  case (ScopeRemoved j k)
  then show ?thesis using assms
    by (auto simp: RemoveScope_def intro!: arch_now_mutate restricted_update split: if_splits)
next
  case (EndpointSet j e r)
  then show ?thesis using assms
    by (auto simp: UpsertEndpoint_def with_endpoint_def intro!: arch_now_mutate restricted_update split: if_splits)
next
  case (EdgeSeen j name e r)
  then show ?thesis using assms
    by (auto simp: EnsureEdge_def with_endpoint_def intro!: arch_now_mutate restricted_append restricted_update
        split: option.splits if_splits)
next
  case (AttributesSet g t)
  then show ?thesis using assms by (auto simp: SetGroupAttributes_def intro!: arch_now_mutate split: if_splits)
next
  case (CardSet g v h)
  then show ?thesis using assms by (auto simp: SetGroupCard_def intro!: arch_now_mutate)
next
  case (CardsMerged cs)
  have "restricted_in i (ar_Nodes (fst (merged cs a)))" if "restricted_in i (ar_Nodes a)" for a
    using merged_keeps [of "\<lambda>a. restricted_in i (ar_Nodes a)" a cs] merge_card_restricted that by blast
  then show ?thesis using CardsMerged assms(1) by (auto intro!: arch_now_merge)
next
  case (Restored t)
  then show ?thesis using assms(2) by simp
qed

text \<open>
  C27: A node whose scopes restrict what its gateway receives never loses its restriction as a side effect:
  whatever other operations run, announcements of the gateway itself, new declarations without scopes and
  recoveries included, it keeps scopes until one of its scopes is removed, it is deleted, or an earlier
  version is restored.
\<close>

theorem restriction_survives:
  assumes "arch_now (\<lambda>a. restricted_in i (ar_Nodes a)) s" and "list_all (\<lambda>e. \<not> lifts i (snd e)) ops"
  shows "arch_now (\<lambda>a. restricted_in i (ar_Nodes a)) (fold arch_step ops s)"
  using assms by (induction ops arbitrary: s) (simp_all add: arch_step_restricted split_paired_all)

definition demo_node :: "ScopeEntry list \<Rightarrow> NodeEntry" where
  "demo_node scs = (new_edge ''e1'' ''paris'' [] ''admin'')\<lparr>ne_Scopes := scs\<rparr>"

definition demo_store :: arch_store where
  "demo_store = arch_step ((1, True), UpsertNode (demo_node [\<lparr>sce_ID = ''s'', sce_Type = ''domain'', sce_Value = ''*.corp.io''\<rparr>])) start_store"

theorem restriction_survives_witness:
  "arch_now (\<lambda>a. restricted_in ''e1'' (ar_Nodes a))
     (fold arch_step [((2, True), UpsertNode (demo_node [])), ((3, False), EdgeSeen ''e1'' ''paris'' ''http://a'' ''user'')] demo_store)"
proof -
  have "arch_now (\<lambda>a. restricted_in ''e1'' (ar_Nodes a)) demo_store" by code_simp
  then show ?thesis by (rule restriction_survives) simp
qed

section \<open>Versions of the groups\<close>

definition version_from :: "string \<Rightarrow> int \<Rightarrow> GroupEntry list \<Rightarrow> bool" where
  "version_from g v gs \<longleftrightarrow> (case find (\<lambda>e. gre_Name e = g) gs of None \<Rightarrow> False | Some e \<Rightarrow> v \<le> gre_Version e)"

lemma version_update:
  assumes "\<And>e. gre_Name e = h \<Longrightarrow> gre_Name (f e) = h \<and> gre_Version e \<le> gre_Version (f e)"
  shows "version_from g v gs \<Longrightarrow> version_from g v (update_first (\<lambda>e. gre_Name e = h) f gs)"
proof (cases "g = h")
  case True
  assume "version_from g v gs"
  then obtain e where e: "find (\<lambda>e. gre_Name e = h) gs = Some e" "v \<le> gre_Version e"
    using True by (auto simp: version_from_def split: option.splits)
  then have "gre_Name e = h" by (auto dest: find_SomeD)
  then have "find (\<lambda>e. gre_Name e = h) (update_first (\<lambda>e. gre_Name e = h) f gs) = Some (f e)" "gre_Version e \<le> gre_Version (f e)"
    using e(1) assms find_update_first_same [of "\<lambda>e. gre_Name e = h" f gs] by auto
  then show ?thesis using e(2) True by (simp add: version_from_def)
next
  case False
  assume "version_from g v gs"
  moreover have "find (\<lambda>e. gre_Name e = g) (update_first (\<lambda>e. gre_Name e = h) f gs) = find (\<lambda>e. gre_Name e = g) gs"
    using False assms by (intro find_update_first_other) auto
  ultimately show ?thesis by (simp add: version_from_def)
qed

lemma version_sorted: "version_from g v gs \<Longrightarrow> version_from g v (sort_names gre_Name (gs @ es))"
  by (auto simp: version_from_def find_sort_names find_append_unique split: option.splits)

lemma version_setGroupEntry: "version_from g v gs \<Longrightarrow> version_from g v (setGroupEntry e gs)"
  by (auto simp: setGroupEntry_def newer_card_def intro!: version_update version_sorted)

lemma arch_step_version:
  assumes "arch_now (\<lambda>a. version_from g v (ar_Groups a)) s" and "\<not> (\<exists>t. op = Restored t)"
  shows "arch_now (\<lambda>a. version_from g v (ar_Groups a)) (arch_step (env, op) s)"
proof (cases op)
  case (UpsertNode n)
  then show ?thesis using assms by (auto simp: arch_Upsert_def intro!: arch_now_mutate split: if_splits)
next
  case (DeleteNode j)
  then show ?thesis using assms by (auto simp: arch_Delete_def intro!: arch_now_mutate)
next
  case (ScopeAdded j sc)
  then show ?thesis using assms by (auto simp: AddScope_def intro!: arch_now_mutate split: option.splits if_splits)
next
  case (ScopeRemoved j k)
  then show ?thesis using assms by (auto simp: RemoveScope_def intro!: arch_now_mutate split: if_splits)
next
  case (EndpointSet j e r)
  then show ?thesis using assms by (auto simp: UpsertEndpoint_def intro!: arch_now_mutate split: if_splits)
next
  case (EdgeSeen j name e r)
  then show ?thesis using assms by (auto simp: EnsureEdge_def intro!: arch_now_mutate split: option.splits if_splits)
next
  case (AttributesSet h t)
  then show ?thesis using assms
    by (auto simp: SetGroupAttributes_def with_attributes_def intro!: arch_now_mutate version_update version_sorted split: if_splits)
next
  case (CardSet h w x)
  then show ?thesis using assms by (auto simp: SetGroupCard_def intro!: arch_now_mutate version_setGroupEntry)
next
  case (CardsMerged cs)
  have "version_from g v (ar_Groups (fst (merge_card c (a, rep))))" if "version_from g v (ar_Groups a)" for a c rep
    unfolding merge_card_groups using that by (rule version_setGroupEntry)
  then have "version_from g v (ar_Groups (fst (merged cs a)))" if "version_from g v (ar_Groups a)" for a
    using merged_keeps [of "\<lambda>a. version_from g v (ar_Groups a)" a cs] that by blast
  then show ?thesis using CardsMerged assms(1) by (auto intro!: arch_now_merge)
next
  case (Restored t)
  then show ?thesis using assms(2) by simp
qed

text \<open>
  The version of the card of a group never decreases: whatever cards are set or merged, in any order
  and however old, the entry of the group keeps a version at least as high, until an earlier version of the
  file is restored.
\<close>

theorem group_version_monotone:
  assumes "arch_now (\<lambda>a. version_from g v (ar_Groups a)) s" and "list_all (\<lambda>e. \<forall>t. snd e \<noteq> Restored t) ops"
  shows "arch_now (\<lambda>a. version_from g v (ar_Groups a)) (fold arch_step ops s)"
  using assms by (induction ops arbitrary: s) (simp_all add: arch_step_version split_paired_all)

theorem group_version_monotone_witness:
  "arch_now (\<lambda>a. version_from ''g'' 7 (ar_Groups a))
     (fold arch_step [((2, True), CardSet ''g'' 3 ''old''), ((3, True), AttributesSet ''g'' \<lparr>gat_Environment = ''prod'', gat_Region = [], gat_Tags = []\<rparr>)]
        (arch_step ((1, True), CardSet ''g'' 7 ''new'') start_store))"
proof -
  have "arch_now (\<lambda>a. version_from ''g'' 7 (ar_Groups a)) (arch_step ((1, True), CardSet ''g'' 7 ''new'') start_store)" by code_simp
  then show ?thesis by (rule group_version_monotone) simp
qed

section \<open>Recovery\<close>

text \<open>A member is settled when the node it designates has a configuration; its card then changes nothing.\<close>

definition settled :: "CardMember \<Rightarrow> NodeEntry list \<Rightarrow> bool" where
  "settled m ns \<longleftrightarrow>
     cm_ID m = [] \<and> cm_Name m = []
     \<or> (case find (same_node (cm_ID m) (cm_Name m)) ns of None \<Rightarrow> False | Some n \<Rightarrow> ne_Config n \<noteq> None)"

lemma settled_unchanged: "settled m ns \<Longrightarrow> fst (merge_member g m (ns, rep)) = ns"
  by (auto simp: settled_def merge_member_def split: option.splits)

lemma find_config_update:
  assumes "\<And>n. Q (n\<lparr>ne_Config := c\<rparr>) = Q n" and "c \<noteq> None" and "find Q ns = Some n" and "ne_Config n \<noteq> None"
  shows "\<exists>n'. find Q (update_first P (\<lambda>n. n\<lparr>ne_Config := c\<rparr>) ns) = Some n' \<and> ne_Config n' \<noteq> None"
  using assms(3,2,4) by (induction ns) (auto simp: assms(1) split: if_splits)

lemma same_node_config [simp]: "same_node i name (n\<lparr>ne_Config := c\<rparr>) = same_node i name n"
  by (simp add: same_node_def)

lemma settled_append: "settled m ns \<Longrightarrow> settled m (ns @ xs)"
  by (auto simp: settled_def find_append_unique split: option.splits)

lemma settled_update: "settled m ns \<Longrightarrow> settled m (update_first P (\<lambda>n. n\<lparr>ne_Config := Some w\<rparr>) ns)"
  using find_config_update [of "same_node (cm_ID m) (cm_Name m)" "Some w" ns _ P]
  by (fastforce simp: settled_def split: option.splits)

lemma settled_kept: "settled m ns \<Longrightarrow> settled m (fst (merge_member g k (ns, rep)))"
  by (auto simp: merge_member_def intro!: settled_append settled_update split: option.split)

lemma find_update_same_node:
  "find (same_node i name) (update_first (same_node i name) (\<lambda>n. n\<lparr>ne_Config := w\<rparr>) ns)
     = map_option (\<lambda>n. n\<lparr>ne_Config := w\<rparr>) (find (same_node i name) ns)"
  by (rule find_update_first_same) simp

lemma settled_merged: "settled m (fst (merge_member g m (ns, rep)))"
  by (auto simp: merge_member_def settled_def find_update_same_node find_append_unique same_node_def new_edge_def split: option.split)

lemma members_settled: "m \<in> set mbs \<Longrightarrow> settled m (fst (fold (merge_member g) mbs (ns, rep)))"
proof (induction mbs arbitrary: ns rep)
  case (Cons k mbs)
  obtain ns1 rep1 where k: "merge_member g k (ns, rep) = (ns1, rep1)" by (cases "merge_member g k (ns, rep)")
  show ?case
  proof (cases "m = k")
    case True
    then have "settled m ns1" using settled_merged [of k g ns rep] k by simp
    then have "settled m (fst (fold (merge_member g) mbs (ns1, rep1)))" using settled_kept by (rule merge_members_keep [rotated])
    then show ?thesis using k by simp
  qed (use Cons k in auto)
qed simp

lemma members_unchanged: "list_all (\<lambda>m. settled m ns) mbs \<Longrightarrow> fst (fold (merge_member g) mbs (ns, rep)) = ns"
proof (induction mbs arbitrary: rep)
  case (Cons k mbs)
  obtain rep1 where "merge_member g k (ns, rep) = (ns, rep1)"
    using settled_unchanged [of k ns g rep] Cons.prems by (cases "merge_member g k (ns, rep)") simp
  then show ?case using Cons by simp
qed simp

lemma card_keeps_settled: "settled m (ar_Nodes a) \<Longrightarrow> settled m (ar_Nodes (fst (merge_card c (a, rep))))"
  unfolding merge_card_nodes using settled_kept by (rule merge_members_keep)

lemma cards_settled:
  "c \<in> set cs \<Longrightarrow> m \<in> set (gc_Members c) \<Longrightarrow> settled m (ar_Nodes (fst (fold merge_card cs (a, rep))))"
proof (induction cs arbitrary: a rep)
  case (Cons k cs)
  obtain a1 rep1 where k: "merge_card k (a, rep) = (a1, rep1)" by (cases "merge_card k (a, rep)")
  show ?case
  proof (cases "c = k")
    case True
    then have "settled m (ar_Nodes a1)"
      using members_settled [OF Cons.prems(2), of "gc_Group k" "ar_Nodes a" rep] merge_card_nodes [of k a rep] k by simp
    moreover have "settled m (ar_Nodes (fst (fold merge_card cs (a, rep))))" if "settled m (ar_Nodes a)" for a rep
      using that
    proof (induction cs arbitrary: a rep)
      case (Cons x cs)
      obtain a2 rep2 where x: "merge_card x (a, rep) = (a2, rep2)" by (cases "merge_card x (a, rep)")
      then show ?case using Cons.IH [of a2 rep2] card_keeps_settled [OF Cons.prems, of x rep] by simp
    qed simp
    ultimately show ?thesis using k by simp
  qed (use Cons k in auto)
qed simp

lemma cards_nodes_unchanged:
  "list_all (\<lambda>c. list_all (\<lambda>m. settled m (ar_Nodes a)) (gc_Members c)) cs \<Longrightarrow> ar_Nodes (fst (fold merge_card cs (a, rep))) = ar_Nodes a"
proof (induction cs arbitrary: a rep)
  case (Cons c cs)
  obtain a1 rep1 where c: "merge_card c (a, rep) = (a1, rep1)" by (cases "merge_card c (a, rep)")
  have "ar_Nodes a1 = ar_Nodes a" using members_unchanged Cons.prems merge_card_nodes [of c a rep] c by simp
  then show ?case using Cons.IH [of a1 rep1] Cons.prems c by simp
qed simp

lemma merged_fold: "fst (merged cards a) = fst (fold merge_card (chosen_cards cards)
    (a, \<lparr>rr_Groups = map gc_Group (chosen_cards cards), rr_Nodes = 0, rr_Joined = 0, rr_Domains = 0, rr_Skipped = 0\<rparr>))"
  by (simp add: merged_def)

text \<open>
  A recovery is complete and can be repeated: after it, every member of the newest card of each group
  that has an identifier or a name designates a node of the file with a configuration, and merging the same
  cards again leaves the nodes as they are.
\<close>

theorem recovery_complete_idempotent:
  "list_all (\<lambda>c. list_all (\<lambda>m. settled m (ar_Nodes (fst (merged cards a)))) (gc_Members c)) (chosen_cards cards)
   \<and> ar_Nodes (fst (merged cards (fst (merged cards a)))) = ar_Nodes (fst (merged cards a))"
proof
  show *: "list_all (\<lambda>c. list_all (\<lambda>m. settled m (ar_Nodes (fst (merged cards a)))) (gc_Members c)) (chosen_cards cards)"
    unfolding merged_fold list_all_iff using cards_settled by blast
  show "ar_Nodes (fst (merged cards (fst (merged cards a)))) = ar_Nodes (fst (merged cards a))"
    unfolding merged_fold [of cards "fst (merged cards a)"] using * by (rule cards_nodes_unchanged)
qed

end
