(* ===== verification/Perimeter.thy ===== *)
theory Perimeter
  imports Dispatch Path_Match Architecture Router_Table
begin

text \<open>
  Perimeters of accesses and scopes of gateway tokens (\<open>internal/admin/rbac/perimeter.go\<close>, \<open>rbac.go\<close>,
  \<open>engine.go\<close>, \<open>ensure_domain_scope.go\<close>): which resources an access designates, which routes and
  certificates a gateway receives, and which groups of gateways serve a route. \<open>regexp.Compile\<close> is the
  parameter \<open>re\<close>: \<open>None\<close> for an expression that does not compile, else the match of a text.
\<close>

section \<open>Criteria\<close>

record GroupRef =
  grf_Name :: string
  grf_Environment :: string
  grf_Region :: string
  grf_Tags :: "string list"

record GroupCriterion =
  gcr_Name :: string
  gcr_Environment :: string
  gcr_Region :: string
  gcr_Tag :: string

definition criterion_empty :: "GroupCriterion \<Rightarrow> bool" where
  "criterion_empty c \<longleftrightarrow> c = \<lparr>gcr_Name = [], gcr_Environment = [], gcr_Region = [], gcr_Tag = []\<rparr>"

definition globMatch :: "string \<Rightarrow> string \<Rightarrow> bool" where
  "globMatch pattern value = (path_Match pattern value = Some True)"

definition criterion_matches :: "GroupCriterion \<Rightarrow> GroupRef \<Rightarrow> bool" where
  "criterion_matches c g =
     (if gcr_Name c \<noteq> [] \<and> \<not> globMatch (gcr_Name c) (grf_Name g) then False
      else if gcr_Environment c \<noteq> [] \<and> \<not> EqualFold (gcr_Environment c) (grf_Environment g) then False
      else if gcr_Region c \<noteq> [] \<and> \<not> EqualFold (gcr_Region c) (grf_Region g) then False
      else if gcr_Tag c \<noteq> [] \<and> \<not> list_ex (\<lambda>t. EqualFold t (gcr_Tag c)) (grf_Tags g) then False
      else True)"

record Perimeter =
  pe_Domain :: string
  pe_Proxy :: string
  pe_Backend :: string
  pe_Group :: GroupCriterion
  pe_Labels :: "(string, string) gomap"

record Resource =
  res_Hosts :: "string list"
  res_ProxyID :: string
  res_ProxyName :: string
  res_Backends :: "string list"
  res_Groups :: "GroupRef list"
  res_Labels :: "(string, string) gomap"

definition ProxyName :: "Route \<Rightarrow> string" where
  "ProxyName r = (if rt_Name r \<noteq> [] then rt_Name r else rt_Host r)"

definition route_hosts :: "Route \<Rightarrow> string list" where
  "route_hosts r = (if rt_Host r \<noteq> [] then [rt_Host r] else []) @ rt_Aliases r"

definition RouteResource :: "Route \<Rightarrow> GroupRef list \<Rightarrow> Resource" where
  "RouteResource r groups =
     \<lparr>res_Hosts = route_hosts r, res_ProxyID = rt_ID r, res_ProxyName = ProxyName r, res_Backends = map be_URL (rt_Backends r),
      res_Groups = groups, res_Labels = rt_Labels r\<rparr>"

definition perimeter_empty :: "Perimeter \<Rightarrow> bool" where
  "perimeter_empty p \<longleftrightarrow> pe_Domain p = [] \<and> pe_Proxy p = [] \<and> pe_Backend p = [] \<and> criterion_empty (pe_Group p) \<and> pe_Labels p = []"

definition hostMatchesDomainScope :: "string \<Rightarrow> string \<Rightarrow> bool" where
  "hostMatchesDomainScope pattern host =
     (if HostCoveredByPattern host pattern then True
      else (let p = ToLower (TrimSpace pattern)
            in if HasPrefix p ''*.'' then False else globMatch p (ToLower host)))"

type_synonym regexp = "string \<Rightarrow> (string \<Rightarrow> bool) option"

definition proxyMatches :: "regexp \<Rightarrow> string \<Rightarrow> Resource \<Rightarrow> bool" where
  "proxyMatches re criterion res =
     (if HasPrefix criterion ''re:'' then
        (case re (drop 3 criterion) of None \<Rightarrow> False | Some m \<Rightarrow> res_ProxyName res \<noteq> [] \<and> m (res_ProxyName res))
      else if res_ProxyID res \<noteq> [] \<and> criterion = res_ProxyID res then True
      else res_ProxyName res \<noteq> [] \<and> globMatch criterion (res_ProxyName res))"

definition perimeter_Matches :: "regexp \<Rightarrow> Perimeter \<Rightarrow> Resource \<Rightarrow> bool" where
  "perimeter_Matches re p res =
     (if pe_Domain p \<noteq> [] \<and> \<not> list_ex (hostMatchesDomainScope (pe_Domain p)) (res_Hosts res) then False
      else if pe_Proxy p \<noteq> [] \<and> \<not> proxyMatches re (pe_Proxy p) res then False
      else if pe_Backend p \<noteq> [] \<and> \<not> list_ex (globMatch (pe_Backend p)) (res_Backends res) then False
      else if \<not> criterion_empty (pe_Group p) \<and> \<not> list_ex (criterion_matches (pe_Group p)) (res_Groups res) then False
      else list_all (\<lambda>(k, v). gm_get (res_Labels res) k = Some v) (pe_Labels p))"

section \<open>Validation\<close>

datatype perimeter_error = BadDomain | EmptyRegexp | BadRegexp | BadProxy | BadBackend | BadGroup
  | TooManyLabels | BadLabelKey string | BadLabelValue string | NoEquals
  | BadAttribute string | TooManyTags | BadTag string | TagTwice string

definition maxLabels :: nat where
  "maxLabels = 32"

definition maxGroupTags :: nat where
  "maxGroupTags = 16"

definition lower_alnum :: "char \<Rightarrow> bool" where
  "lower_alnum c \<longleftrightarrow> of_char c \<in> {48..57 :: nat} \<union> {97..122}"

definition upper_letter :: "char \<Rightarrow> bool" where
  "upper_letter c \<longleftrightarrow> of_char c \<in> {65..90 :: nat}"

definition label_punct :: "char \<Rightarrow> bool" where
  "label_punct c \<longleftrightarrow> c \<in> {CHR ''_'', CHR ''.'', CHR ''-''}"

text \<open>The two regular expressions of labels.\<close>

definition labelKey :: "string \<Rightarrow> bool" where
  "labelKey s \<longleftrightarrow> s \<noteq> [] \<and> length s \<le> 63 \<and> lower_alnum (hd s) \<and> lower_alnum (last s)
     \<and> list_all (\<lambda>c. lower_alnum c \<or> label_punct c) s"

definition labelValue :: "string \<Rightarrow> bool" where
  "labelValue s \<longleftrightarrow> length s \<le> 63 \<and> list_all (\<lambda>c. lower_alnum c \<or> upper_letter c \<or> label_punct c) s"

fun validate_label_list :: "(string \<times> string) list \<Rightarrow> perimeter_error option" where
  "validate_label_list [] = None"
| "validate_label_list ((k, v) # ls) =
     (if \<not> labelKey k then Some (BadLabelKey k) else if \<not> labelValue v then Some (BadLabelValue k) else validate_label_list ls)"

definition ValidateLabels :: "(string, string) gomap \<Rightarrow> perimeter_error option" where
  "ValidateLabels ls = (if maxLabels < length ls then Some TooManyLabels else validate_label_list ls)"

definition perimeter_Validate :: "regexp \<Rightarrow> Perimeter \<Rightarrow> perimeter_error option" where
  "perimeter_Validate re p =
     (if pe_Domain p \<noteq> [] \<and> path_Match (ToLower (pe_Domain p)) [] = None then Some BadDomain
      else if HasPrefix (pe_Proxy p) ''re:'' \<and> drop 3 (pe_Proxy p) = [] then Some EmptyRegexp
      else if HasPrefix (pe_Proxy p) ''re:'' \<and> re (drop 3 (pe_Proxy p)) = None then Some BadRegexp
      else if \<not> HasPrefix (pe_Proxy p) ''re:'' \<and> pe_Proxy p \<noteq> [] \<and> path_Match (pe_Proxy p) [] = None then Some BadProxy
      else if pe_Backend p \<noteq> [] \<and> path_Match (pe_Backend p) [] = None then Some BadBackend
      else if gcr_Name (pe_Group p) \<noteq> [] \<and> path_Match (gcr_Name (pe_Group p)) [] = None then Some BadGroup
      else ValidateLabels (pe_Labels p))"

definition ParseLabelSelector :: "string \<Rightarrow> perimeter_error + string \<times> string" where
  "ParseLabelSelector s0 =
     (let s = TrimSpace s0
      in case IndexByte s CHR ''='' of
           None \<Rightarrow> Inl NoEquals
         | Some i \<Rightarrow>
             (let k = take i s; v = drop (i + 1) s
              in case ValidateLabels [(k, v)] of Some e \<Rightarrow> Inl e | None \<Rightarrow> Inr (k, v)))"

fun validate_tags :: "string list \<Rightarrow> string list \<Rightarrow> perimeter_error option" where
  "validate_tags seen [] = None"
| "validate_tags seen (t # ts) =
     (if t = [] \<or> \<not> labelValue t then Some (BadTag t)
      else if ToLower t \<in> set seen then Some (TagTwice t)
      else validate_tags (ToLower t # seen) ts)"

definition ValidateGroupAttributes :: "string \<Rightarrow> string \<Rightarrow> string list \<Rightarrow> perimeter_error option" where
  "ValidateGroupAttributes environment region tags =
     (if \<not> labelValue environment then Some (BadAttribute environment)
      else if \<not> labelValue region then Some (BadAttribute region)
      else if maxGroupTags < length tags then Some TooManyTags
      else validate_tags [] tags)"

section \<open>Scopes of gateway tokens\<close>

record Scope =
  scp_Type :: string
  scp_Value :: string

definition scope_match :: "Scope \<Rightarrow> Route \<Rightarrow> bool" where
  "scope_match s r =
     (if scp_Type s = ''proxy'' then scp_Value s = rt_ID r
      else if scp_Type s = ''domain'' then
        hostMatchesDomainScope (scp_Value s) (rt_Host r) \<or> list_ex (hostMatchesDomainScope (scp_Value s)) (rt_Aliases r)
      else if scp_Type s = ''server'' then list_ex (\<lambda>b. globMatch (scp_Value s) (be_URL b)) (rt_Backends r)
      else scp_Type s = ''edge'')"

definition MatchRoute :: "Scope list \<Rightarrow> Route \<Rightarrow> bool" where
  "MatchRoute scopes r = list_ex (\<lambda>s. scope_match s r) scopes"

definition IsSuperAdminRole :: "string \<Rightarrow> bool" where
  "IsSuperAdminRole role \<longleftrightarrow> role = ''superadmin''"

definition IsAdminRole :: "string \<Rightarrow> bool" where
  "IsAdminRole role \<longleftrightarrow> role = ''admin'' \<or> role = ''superadmin''"

definition routeIsL4 :: "Route \<Rightarrow> bool" where
  "routeIsL4 r \<longleftrightarrow> ToLower (rt_Type r) = ''tcp'' \<or> ToLower (rt_Type r) = ''udp'' \<or> 0 < rt_ListenPort r"

definition RouteAllowedByToken :: "string \<Rightarrow> Scope list \<Rightarrow> Route option \<Rightarrow> bool" where
  "RouteAllowedByToken role scopes ro =
     (case ro of
        None \<Rightarrow> False
      | Some r \<Rightarrow>
          if routeIsL4 r then True
          else if IsSuperAdminRole role \<or> IsAdminRole role \<and> scopes = [] then True
          else if scopes = [] then False
          else MatchRoute scopes r)"

definition FilterRoutesByScopes :: "string \<Rightarrow> Scope list \<Rightarrow> Route list \<Rightarrow> Route list" where
  "FilterRoutesByScopes role scopes routes = filter (\<lambda>r. RouteAllowedByToken role scopes (Some r)) routes"

definition cert_candidates :: "string \<Rightarrow> string list" where
  "cert_candidates name = (if HasPrefix name ''*.'' then [name, drop 2 name] else [name, ''*.'' @ name])"

definition MatchCertName :: "Scope list \<Rightarrow> string \<Rightarrow> bool" where
  "MatchCertName scopes certName =
     (let name = TrimSpace certName
      in if name = [] then False
         else list_ex (\<lambda>s. scp_Type s = ''edge'' \<or> scp_Type s = ''domain'' \<and> list_ex (globMatch (scp_Value s)) (cert_candidates name)) scopes)"

definition ShouldReceiveCert :: "string \<Rightarrow> Scope list \<Rightarrow> string \<Rightarrow> bool" where
  "ShouldReceiveCert role scopes certName =
     (if IsSuperAdminRole role \<or> IsAdminRole role \<and> scopes = [] then True
      else if scopes = [] then False
      else MatchCertName scopes certName)"

section \<open>Tokens of gateways\<close>

text \<open>
  The columns of the tables \<open>tokens\<close> and \<open>token_scopes\<close> the queries read. \<open>CURRENT_TIMESTAMP\<close> is an
  argument.
\<close>

record token_row =
  tkr_id :: string
  tkr_token :: string
  tkr_role :: string
  tkr_rbac_role :: "string option"
  tkr_revoked :: bool
  tkr_expires :: "go_time option"
  tkr_node_name :: string
  tkr_node_endpoint :: "string option"
  tkr_created :: go_time

record token_db =
  tdb_tokens :: "token_row list"
  tdb_scopes :: "(string \<times> Scope) list"

definition TokenScopes :: "string \<Rightarrow> token_db \<Rightarrow> Scope list" where
  "TokenScopes i db = map snd (filter (\<lambda>(t, s). t = i) (tdb_scopes db))"

definition token_live :: "go_time \<Rightarrow> token_row \<Rightarrow> bool" where
  "token_live now t \<longleftrightarrow> \<not> tkr_revoked t \<and> (case tkr_expires t of None \<Rightarrow> True | Some e \<Rightarrow> now < e)"

definition rbac_role_of :: "token_row \<Rightarrow> string" where
  "rbac_role_of t = (case tkr_rbac_role t of None \<Rightarrow> ''admin'' | Some r \<Rightarrow> r)"

text \<open>The order of \<open>ResolveEdgeAccess\<close>: the identifier itself, then tokens with an endpoint, then the newest.\<close>

definition edge_before :: "string \<Rightarrow> token_row \<Rightarrow> token_row \<Rightarrow> bool" where
  "edge_before ref a b =
     (if (tkr_id a = ref) \<noteq> (tkr_id b = ref) then tkr_id a = ref
      else if (tkr_node_endpoint a \<in> {None, Some []}) \<noteq> (tkr_node_endpoint b \<in> {None, Some []}) then tkr_node_endpoint b \<in> {None, Some []}
      else tkr_created b < tkr_created a)"

fun first_by :: "('a \<Rightarrow> 'a \<Rightarrow> bool) \<Rightarrow> 'a list \<Rightarrow> 'a option" where
  "first_by lt [] = None"
| "first_by lt (x # xs) = (case first_by lt xs of None \<Rightarrow> Some x | Some y \<Rightarrow> Some (if lt y x then y else x))"

record EdgeAccess =
  ea_TokenID :: string
  ea_Role :: string
  ea_Scopes :: "Scope list"

definition no_access :: EdgeAccess where
  "no_access = \<lparr>ea_TokenID = [], ea_Role = [], ea_Scopes = []\<rparr>"

definition ResolveEdgeAccess :: "go_time \<Rightarrow> token_db \<Rightarrow> string \<Rightarrow> EdgeAccess" where
  "ResolveEdgeAccess now db ref0 =
     (let ref = TrimSpace ref0
      in if ref = [] then no_access
         else (case first_by (edge_before ref)
                 (filter (\<lambda>t. tkr_role t = ''edge'' \<and> token_live now t \<and> (tkr_id t = ref \<or> tkr_node_name t = ref)) (tdb_tokens db)) of
                 None \<Rightarrow> no_access
               | Some t \<Rightarrow> if tkr_id t = [] then no_access
                           else \<lparr>ea_TokenID = tkr_id t, ea_Role = rbac_role_of t, ea_Scopes = TokenScopes (tkr_id t) db\<rparr>))"

definition ResolveEdgeToken :: "go_time \<Rightarrow> token_db \<Rightarrow> string \<Rightarrow> string \<times> string" where
  "ResolveEdgeToken now db ref = (let a = ResolveEdgeAccess now db ref in (ea_TokenID a, ea_Role a))"

definition token_role :: "token_db \<Rightarrow> string \<Rightarrow> string" where
  "token_role db i = (case find (\<lambda>t. tkr_id t = i) (tdb_tokens db) of None \<Rightarrow> ''admin'' | Some t \<Rightarrow> rbac_role_of t)"

definition LoadEdgeAccess :: "go_time \<Rightarrow> token_db \<Rightarrow> string \<Rightarrow> string \<Rightarrow> EdgeAccess" where
  "LoadEdgeAccess now db tokenID0 nodeName0 =
     (let tokenID = TrimSpace tokenID0; nodeName = TrimSpace nodeName0
      in if tokenID = [] then (if nodeName \<noteq> [] then ResolveEdgeAccess now db nodeName else no_access)
         else \<lparr>ea_TokenID = tokenID, ea_Role = token_role db tokenID, ea_Scopes = TokenScopes tokenID db\<rparr>)"

definition TokenRBACRole :: "go_time \<Rightarrow> token_db \<Rightarrow> string \<Rightarrow> string \<times> string option" where
  "TokenRBACRole now db bearer =
     (case find (\<lambda>t. tkr_token t = bearer \<and> token_live now t) (tdb_tokens db) of
        None \<Rightarrow> ([], None) | Some t \<Rightarrow> (tkr_id t, tkr_rbac_role t))"

section \<open>A gateway that manages a domain\<close>

fun split_dot :: "string \<Rightarrow> string list" where
  "split_dot [] = [[]]"
| "split_dot (c # cs) = (if c = CHR ''.'' then [] # split_dot cs else (case split_dot cs of p # ps \<Rightarrow> (c # p) # ps | [] \<Rightarrow> [[c]]))"

definition DomainScopePattern :: "string \<Rightarrow> string" where
  "DomainScopePattern domain0 =
     (let domain = TrimSpace domain0
      in if domain = [] then []
         else if Contains domain CHR ''*'' then domain
         else if length (filter (\<lambda>l. l \<noteq> []) (split_dot domain)) \<le> 2 then ''*.'' @ domain
         else domain)"

definition EnsureDomainScope :: "string \<Rightarrow> string \<Rightarrow> token_db \<Rightarrow> (string \<times> bool) \<times> token_db" where
  "EnsureDomainScope tokenID0 domain0 db =
     (let tokenID = TrimSpace tokenID0; domain = TrimSpace domain0
      in if tokenID = [] \<or> domain = [] then (([], False), db)
         else (let role = token_role db tokenID; scopes = TokenScopes tokenID db
               in if (IsAdminRole role \<or> IsSuperAdminRole role) \<and> scopes = [] then (([], False), db)
                  else (let pattern = DomainScopePattern domain
                        in if pattern = [] then (([], False), db)
                           else if MatchCertName scopes domain \<or> MatchCertName scopes pattern then (([], False), db)
                           else ((pattern, True),
                                 db\<lparr>tdb_scopes := tdb_scopes db @ [(tokenID, \<lparr>scp_Type = ''domain'', scp_Value = pattern\<rparr>)]\<rparr>))))"

section \<open>Groups that serve a route\<close>

record snapshotMember =
  snm_role :: string
  snm_scopes :: "Scope list"

record snapshotGroup =
  sng_ref :: GroupRef
  sng_members :: "snapshotMember list"

definition group_label :: "NodeEntry \<Rightarrow> string" where
  "group_label n = (if node_group n = [] then ne_Name n else node_group n)"

definition group_ref :: "arch_store \<Rightarrow> NodeEntry \<Rightarrow> GroupRef" where
  "group_ref s n =
     (if node_group n \<noteq> [] then
        (let t = GroupAttributesOf (node_group n) s
         in \<lparr>grf_Name = node_group n, grf_Environment = gat_Environment t, grf_Region = gat_Region t, grf_Tags = gat_Tags t\<rparr>)
      else \<lparr>grf_Name = ne_Name n, grf_Environment = ne_Environment n, grf_Region = ne_Region n, grf_Tags = []\<rparr>)"

definition node_member :: "NodeEntry \<Rightarrow> snapshotMember" where
  "node_member n =
     \<lparr>snm_role = (if ne_RBACRole n = [] then ''admin'' else ne_RBACRole n),
      snm_scopes = map (\<lambda>s. \<lparr>scp_Type = sce_Type s, scp_Value = sce_Value s\<rparr>) (ne_Scopes n)\<rparr>"

definition snapshot_step :: "arch_store \<Rightarrow> NodeEntry \<Rightarrow> snapshotGroup list \<Rightarrow> snapshotGroup list" where
  "snapshot_step s n gs =
     (if ne_Role n \<noteq> ''edge'' then gs
      else (let gs1 = (if list_ex (\<lambda>g. grf_Name (sng_ref g) = group_label n) gs then gs
                       else gs @ [\<lparr>sng_ref = group_ref s n, sng_members = []\<rparr>])
            in map (\<lambda>g. if grf_Name (sng_ref g) = group_label n then g\<lparr>sng_members := sng_members g @ [node_member n]\<rparr> else g) gs1))"

definition group_Snapshot :: "arch_store \<Rightarrow> snapshotGroup list" where
  "group_Snapshot s = fold (snapshot_step s) (arch_nodes s) []"

definition GroupsServing :: "snapshotGroup list \<Rightarrow> Route \<Rightarrow> GroupRef list" where
  "GroupsServing gs r =
     map sng_ref (filter (\<lambda>g. list_ex (\<lambda>m. RouteAllowedByToken (snm_role m) (snm_scopes m) (Some r)) (sng_members g)) gs)"

definition GroupOfNode :: "arch_store \<Rightarrow> string \<Rightarrow> GroupRef option" where
  "GroupOfNode s ref = map_option (group_ref s) (find (\<lambda>n. ne_Role n = ''edge'' \<and> (ne_ID n = ref \<or> ne_Name n = ref)) (arch_nodes s))"

text \<open>The proxies a perimeter covers; groups are only resolved when the perimeter judges them.\<close>

definition perimeter_Preview :: "regexp \<Rightarrow> Perimeter \<Rightarrow> Route list \<Rightarrow> snapshotGroup list option \<Rightarrow> Route list" where
  "perimeter_Preview re p routes groups =
     filter (\<lambda>r. perimeter_Matches re p (RouteResource r
        (case groups of None \<Rightarrow> [] | Some gs \<Rightarrow> if criterion_empty (pe_Group p) then [] else GroupsServing gs r))) routes"

end
