(* ===== verification/Rights_Catalog.thy ===== *)
theory Rights_Catalog
  imports Gostrings
begin

text \<open>
  The catalogue of rights of the administration server (\<open>internal/admin/rbac/catalog.go\<close>,
  \<open>catalog_tools.go\<close>, \<open>pat_scopes.go\<close>, \<open>profiles.go\<close>): the services with their cumulative levels and
  explicit permissions, the scopes of access tokens, the permission and the scope every MCP tool asks for,
  and the presets of a team access. Labels are the bytes of the source.
\<close>

section \<open>Scopes of access tokens\<close>

definition ScopeProxiesRead :: string where
  "ScopeProxiesRead = ''proxies:read''"

definition ScopeProxiesWrite :: string where
  "ScopeProxiesWrite = ''proxies:write''"

definition ScopeProxiesDelete :: string where
  "ScopeProxiesDelete = ''proxies:delete''"

definition ScopeNodesRead :: string where
  "ScopeNodesRead = ''nodes:read''"

definition ScopeNodesWrite :: string where
  "ScopeNodesWrite = ''nodes:write''"

definition ScopeAlertsRead :: string where
  "ScopeAlertsRead = ''alerts:read''"

definition ScopeAlertsWrite :: string where
  "ScopeAlertsWrite = ''alerts:write''"

definition ScopeMetricsRead :: string where
  "ScopeMetricsRead = ''metrics:read''"

definition ScopeBackupsRead :: string where
  "ScopeBackupsRead = ''backups:read''"

definition ScopeUsersRead :: string where
  "ScopeUsersRead = ''users:read''"

definition ScopeSnippetsRead :: string where
  "ScopeSnippetsRead = ''snippets:read''"

definition ScopeSnippetsWrite :: string where
  "ScopeSnippetsWrite = ''snippets:write''"

definition ScopeDomainsRead :: string where
  "ScopeDomainsRead = ''domains:read''"

definition ScopeDomainsWrite :: string where
  "ScopeDomainsWrite = ''domains:write''"

definition ScopeCertsRead :: string where
  "ScopeCertsRead = ''certs:read''"

definition ScopeCertsWrite :: string where
  "ScopeCertsWrite = ''certs:write''"

definition ScopeLogsRead :: string where
  "ScopeLogsRead = ''logs:read''"

definition ScopeLogsWrite :: string where
  "ScopeLogsWrite = ''logs:write''"

definition ScopeTeamsRead :: string where
  "ScopeTeamsRead = ''teams:read''"

definition ScopeAuditRead :: string where
  "ScopeAuditRead = ''audit:read''"

definition ScopeSecurityWrite :: string where
  "ScopeSecurityWrite = ''security:write''"

definition ScopeImportWrite :: string where
  "ScopeImportWrite = ''import:write''"

definition ScopePairingRead :: string where
  "ScopePairingRead = ''pairing:read''"

definition ScopePortalRead :: string where
  "ScopePortalRead = ''portal:read''"

definition ScopePortalWrite :: string where
  "ScopePortalWrite = ''portal:write''"

definition ScopeGDPRReveal :: string where
  "ScopeGDPRReveal = ''gdpr:reveal''"

definition ScopeGDPRExport :: string where
  "ScopeGDPRExport = ''gdpr:export''"

definition ScopeGDPRErase :: string where
  "ScopeGDPRErase = ''gdpr:erase''"

definition AllPATScopes :: "string list" where
  "AllPATScopes =
    [ScopeProxiesRead, ScopeProxiesWrite, ScopeProxiesDelete, ScopeNodesRead, ScopeNodesWrite, ScopeAlertsRead,
     ScopeAlertsWrite, ScopeMetricsRead, ScopeBackupsRead, ScopeUsersRead, ScopeSnippetsRead, ScopeSnippetsWrite,
     ScopeDomainsRead, ScopeDomainsWrite, ScopeCertsRead, ScopeCertsWrite, ScopeLogsRead, ScopeLogsWrite,
     ScopeTeamsRead, ScopeAuditRead, ScopeSecurityWrite, ScopeImportWrite, ScopePairingRead, ScopePortalRead,
     ScopePortalWrite, ScopeGDPRReveal, ScopeGDPRExport, ScopeGDPRErase]"

definition IsKnownScope :: "string \<Rightarrow> bool" where
  "IsKnownScope scope \<longleftrightarrow> scope \<in> set AllPATScopes"

section \<open>Services\<close>

datatype Nature = NatureResource | NaturePlatform

datatype Criterion = CriterionDomain | CriterionProxy | CriterionBackend | CriterionGateway | CriterionLabel

datatype Class = ClassOrdinary | ClassDestructive | ClassSensitive | ClassPlatform

record Level =
  lv_ID :: string
  lv_Label :: string
  lv_Class :: Class
  lv_PAT :: "string list"

record Explicit =
  ex_ID :: string
  ex_Label :: string
  ex_PAT :: "string list"

record Service =
  svc_ID :: string
  svc_Label :: string
  svc_Group :: string
  svc_Nature :: Nature
  svc_Criteria :: "Criterion list"
  svc_Levels :: "Level list"
  svc_Explicits :: "Explicit list"

record Permission =
  pm_ID :: string
  pm_Service :: string
  pm_Label :: string
  pm_Class :: Class
  pm_PAT :: "string list"

definition lvl :: "string \<Rightarrow> string \<Rightarrow> string list \<Rightarrow> Level" where
  "lvl i label pat = \<lparr>lv_ID = i, lv_Label = label, lv_Class = ClassOrdinary, lv_PAT = pat\<rparr>"

definition gestion :: "string \<Rightarrow> string \<Rightarrow> string list \<Rightarrow> Level" where
  "gestion i label pat = \<lparr>lv_ID = i, lv_Label = label, lv_Class = ClassDestructive, lv_PAT = pat\<rparr>"

definition platformWrite :: "string list \<Rightarrow> Level" where
  "platformWrite pat = \<lparr>lv_ID = ''write'', lv_Label = ([CHR 0xC3, CHR 0x89] @ ''criture (plateforme)''), lv_Class = ClassPlatform, lv_PAT = pat\<rparr>"

definition explicit :: "string \<Rightarrow> string \<Rightarrow> string list \<Rightarrow> Explicit" where
  "explicit i label pat = \<lparr>ex_ID = i, ex_Label = label, ex_PAT = pat\<rparr>"

definition GroupTraffic :: string where
  "GroupTraffic = ''trafic''"

definition GroupObservability :: string where
  "GroupObservability = ''observabilite''"

definition GroupSecurity :: string where
  "GroupSecurity = ''securite''"

definition GroupPlatform :: string where
  "GroupPlatform = ''plateforme''"

definition GroupPortal :: string where
  "GroupPortal = ''portail''"

definition GroupAdmin :: string where
  "GroupAdmin = ''administration''"

definition GroupGDPR :: string where
  "GroupGDPR = ''rgpd''"

definition allCriteria :: "Criterion list" where
  "allCriteria = [CriterionDomain, CriterionProxy, CriterionBackend, CriterionGateway, CriterionLabel]"

definition byDomain :: "Criterion list" where
  "byDomain = [CriterionDomain]"

definition byGateway :: "Criterion list" where
  "byGateway = [CriterionGateway]"

definition byDomainGate :: "Criterion list" where
  "byDomainGate = [CriterionDomain, CriterionGateway]"

definition byProxy :: "Criterion list" where
  "byProxy = [CriterionProxy, CriterionDomain, CriterionLabel]"

definition byContainer :: "Criterion list" where
  "byContainer = [CriterionDomain, CriterionBackend, CriterionGateway]"

definition byPortalAsset :: "Criterion list" where
  "byPortalAsset = [CriterionGateway, CriterionLabel]"

definition PermGDPRReveal :: string where
  "PermGDPRReveal = ScopeGDPRReveal"

definition PermGDPRExport :: string where
  "PermGDPRExport = ScopeGDPRExport"

definition PermGDPRErase :: string where
  "PermGDPRErase = ScopeGDPRErase"

definition PermGDPRHold :: string where
  "PermGDPRHold = ''gdpr:hold''"

definition service_proxies :: Service where
  "service_proxies =
     \<lparr>svc_ID = ''proxies'', svc_Label = ''Proxys et routage'', svc_Group = GroupTraffic, svc_Nature = NatureResource, svc_Criteria = allCriteria,
      svc_Levels = [lvl ''read'' ''Lecture'' [ScopeProxiesRead], lvl ''operate'' ''Exploitation'' [ScopeProxiesWrite],
        gestion ''manage'' ''Gestion'' [ScopeProxiesDelete]],
      svc_Explicits = [explicit ''proxies:import'' ''Import de configuration tierce'' [ScopeImportWrite, ScopeAuditRead]]\<rparr>"

definition service_proxy_sections :: Service where
  "service_proxy_sections =
     \<lparr>svc_ID = ''proxy_sections'', svc_Label = ''Proxys : affiner par section'', svc_Group = GroupTraffic, svc_Nature = NatureResource, svc_Criteria = byProxy,
      svc_Levels = [lvl ''read'' ''Lecture'' [], lvl ''edit'' ''Modification'' []],
      svc_Explicits = [explicit ''proxy_sections:plugins'' (''Plugins WASM d'' @ [CHR 0x27] @ ''une route'') []]\<rparr>"

definition service_containers :: Service where
  "service_containers =
     \<lparr>svc_ID = ''containers'', svc_Label = (''Conteneurs d'' @ [CHR 0xC3, CHR 0xA9] @ ''couverts''), svc_Group = GroupTraffic, svc_Nature = NatureResource, svc_Criteria = byContainer,
      svc_Levels = [lvl ''read'' ''Lecture'' [ScopeNodesRead, ScopeProxiesRead],
        lvl ''operate'' ''Exploitation'' [ScopeProxiesWrite, ScopeNodesWrite]],
      svc_Explicits = []\<rparr>"

definition service_surface :: Service where
  "service_surface =
     \<lparr>svc_ID = ''surface'', svc_Label = ''Surface applicative'', svc_Group = GroupTraffic, svc_Nature = NatureResource, svc_Criteria = byProxy,
      svc_Levels = [lvl ''read'' ''Lecture'' [ScopeAuditRead], lvl ''learn'' ''Apprentissage'' [ScopeSecurityWrite]],
      svc_Explicits = [explicit ''surface:enforce'' ''Passage en block'' [ScopeSecurityWrite]]\<rparr>"

definition service_domains :: Service where
  "service_domains =
     \<lparr>svc_ID = ''domains'', svc_Label = ''Domaines'', svc_Group = GroupTraffic, svc_Nature = NatureResource, svc_Criteria = byDomain,
      svc_Levels = [lvl ''read'' ''Lecture'' [ScopeDomainsRead], gestion ''manage'' ''Gestion'' [ScopeDomainsWrite]],
      svc_Explicits = [explicit ''domains:delegate'' (''D'' @ [CHR 0xC3, CHR 0xA9] @ ''l'' @ [CHR 0xC3, CHR 0xA9] @ ''gation de domaine'') [ScopeDomainsWrite]]\<rparr>"

definition service_certs :: Service where
  "service_certs =
     \<lparr>svc_ID = ''certs'', svc_Label = ''Certificats'', svc_Group = GroupTraffic, svc_Nature = NatureResource, svc_Criteria = byDomain,
      svc_Levels = [lvl ''read'' ''Lecture'' [ScopeCertsRead], gestion ''manage'' ''Gestion'' [ScopeCertsWrite]],
      svc_Explicits = [explicit ''certs:deploy'' (''D'' @ [CHR 0xC3, CHR 0xA9] @ ''ploiement (webhook, ssh_exec)'') [ScopeCertsWrite],
        explicit ''certs:export_key'' (''Export de cl'' @ [CHR 0xC3, CHR 0xA9] @ '' priv'' @ [CHR 0xC3, CHR 0xA9] @ ''e et jetons de r'' @ [CHR 0xC3, CHR 0xA9] @ ''cup'' @ [CHR 0xC3, CHR 0xA9] @ ''ration'') [ScopeCertsWrite]]\<rparr>"

definition service_domain_watch :: Service where
  "service_domain_watch =
     \<lparr>svc_ID = ''domain_watch'', svc_Label = ''Surveillance des domaines'', svc_Group = GroupTraffic, svc_Nature = NatureResource, svc_Criteria = byDomain,
      svc_Levels = [lvl ''read'' ''Lecture'' [ScopeAuditRead], lvl ''ack'' ''Acquittement'' [ScopeSecurityWrite]],
      svc_Explicits = [explicit ''domain_watch:configure'' (''Configuration (envoie des noms '' @ [CHR 0xC3, CHR 0xA0] @ '' l'' @ [CHR 0x27] @ ''ext'' @ [CHR 0xC3, CHR 0xA9] @ ''rieur)'') [ScopeSecurityWrite]]\<rparr>"

definition service_logs :: Service where
  "service_logs =
     \<lparr>svc_ID = ''logs'', svc_Label = (''Logs d'' @ [CHR 0x27] @ ''acc'' @ [CHR 0xC3, CHR 0xA8] @ ''s''), svc_Group = GroupObservability, svc_Nature = NatureResource, svc_Criteria = byDomainGate,
      svc_Levels = [lvl ''read'' ''Lecture'' [ScopeLogsRead], lvl ''export'' ''Export'' [ScopeLogsWrite]],
      svc_Explicits = []\<rparr>"

definition service_system_logs :: Service where
  "service_system_logs =
     \<lparr>svc_ID = ''system_logs'', svc_Label = (''Logs syst'' @ [CHR 0xC3, CHR 0xA8] @ ''me et conteneurs''), svc_Group = GroupObservability, svc_Nature = NatureResource, svc_Criteria = byGateway,
      svc_Levels = [lvl ''read'' ''Lecture'' [ScopeLogsRead]],
      svc_Explicits = []\<rparr>"

definition service_dashboard :: Service where
  "service_dashboard =
     \<lparr>svc_ID = ''dashboard'', svc_Label = (''Tableau de bord, Prism, m'' @ [CHR 0xC3, CHR 0xA9] @ ''triques, carte''), svc_Group = GroupObservability, svc_Nature = NatureResource, svc_Criteria = byDomainGate,
      svc_Levels = [lvl ''read'' ''Lecture'' [ScopeMetricsRead, ScopeLogsRead],
        lvl ''manage'' (''Gestion (objectif de disponibilit'' @ [CHR 0xC3, CHR 0xA9] @ '')'') [ScopeMetricsRead]],
      svc_Explicits = []\<rparr>"

definition service_alerts :: Service where
  "service_alerts =
     \<lparr>svc_ID = ''alerts'', svc_Label = ''Alertes'', svc_Group = GroupObservability, svc_Nature = NatureResource, svc_Criteria = byDomainGate,
      svc_Levels = [lvl ''read'' ''Lecture'' [ScopeAlertsRead], lvl ''ack'' ''Acquittement'' [ScopeAlertsWrite],
        lvl ''rules'' (''Gestion des r'' @ [CHR 0xC3, CHR 0xA8] @ ''gles'') [ScopeAlertsWrite]],
      svc_Explicits = []\<rparr>"

definition service_alert_channels :: Service where
  "service_alert_channels =
     \<lparr>svc_ID = ''alert_channels'', svc_Label = ''Canaux de notification'', svc_Group = GroupObservability, svc_Nature = NaturePlatform, svc_Criteria = [],
      svc_Levels = [lvl ''read'' ''Lecture'' [ScopeAlertsRead], gestion ''manage'' ''Gestion'' [ScopeAlertsWrite]],
      svc_Explicits = [explicit ''alert_channels:test'' (''Message de test vers l'' @ [CHR 0x27] @ ''ext'' @ [CHR 0xC3, CHR 0xA9] @ ''rieur'') [ScopeAlertsWrite]]\<rparr>"

definition service_audit :: Service where
  "service_audit =
     \<lparr>svc_ID = ''audit'', svc_Label = (''Journal d'' @ [CHR 0x27] @ ''audit''), svc_Group = GroupObservability, svc_Nature = NaturePlatform, svc_Criteria = [],
      svc_Levels = [lvl ''read'' ''Lecture'' [ScopeAuditRead]],
      svc_Explicits = []\<rparr>"

definition service_netsec :: Service where
  "service_netsec =
     \<lparr>svc_ID = ''netsec'', svc_Label = (''S'' @ [CHR 0xC3, CHR 0xA9] @ ''curit'' @ [CHR 0xC3, CHR 0xA9] @ '' r'' @ [CHR 0xC3, CHR 0xA9] @ ''seau''), svc_Group = GroupSecurity, svc_Nature = NatureResource, svc_Criteria = [CriterionGateway, CriterionProxy, CriterionDomain],
      svc_Levels = [lvl ''read'' ''Lecture'' [ScopeAuditRead], lvl ''analyse'' ''Analyse'' [ScopeLogsRead],
        lvl ''respond'' (''R'' @ [CHR 0xC3, CHR 0xA9] @ ''ponse'') [ScopeSecurityWrite]],
      svc_Explicits = [explicit ''bans:import'' ''Import de bannissements en masse'' [ScopeSecurityWrite]]\<rparr>"

definition service_engines :: Service where
  "service_engines =
     \<lparr>svc_ID = ''engines'', svc_Label = ''Moteurs adaptatifs (WAF, Ephor)'', svc_Group = GroupSecurity, svc_Nature = NatureResource, svc_Criteria = byGateway,
      svc_Levels = [lvl ''read'' ''Lecture'' [ScopeAuditRead], lvl ''simulate'' ''Simulation'' [ScopeLogsRead],
        lvl ''tune'' (''R'' @ [CHR 0xC3, CHR 0xA9] @ ''glage'') [ScopeSecurityWrite]],
      svc_Explicits = [explicit ''engines:enforce'' (''Passage d'' @ [CHR 0x27] @ ''un signal en block'') [ScopeSecurityWrite]]\<rparr>"

definition service_snippets :: Service where
  "service_snippets =
     \<lparr>svc_ID = ''snippets'', svc_Label = (''Snippets et d'' @ [CHR 0xC3, CHR 0xA9] @ ''tecteurs''), svc_Group = GroupSecurity, svc_Nature = NaturePlatform, svc_Criteria = [],
      svc_Levels = [lvl ''read'' ''Lecture'' [ScopeSnippetsRead], platformWrite [ScopeSnippetsWrite]],
      svc_Explicits = []\<rparr>"

definition service_ip_profiles :: Service where
  "service_ip_profiles =
     \<lparr>svc_ID = ''ip_profiles'', svc_Label = ''Profils IP'', svc_Group = GroupSecurity, svc_Nature = NaturePlatform, svc_Criteria = [],
      svc_Levels = [lvl ''read'' ''Lecture'' [ScopeAuditRead], platformWrite [ScopeSecurityWrite]],
      svc_Explicits = []\<rparr>"

definition service_auth_providers :: Service where
  "service_auth_providers =
     \<lparr>svc_ID = ''auth_providers'', svc_Label = (''Fournisseurs d'' @ [CHR 0x27] @ ''authentification''), svc_Group = GroupSecurity, svc_Nature = NaturePlatform, svc_Criteria = [],
      svc_Levels = [lvl ''read'' ''Lecture'' [ScopeAuditRead], platformWrite [ScopeSecurityWrite]],
      svc_Explicits = []\<rparr>"

definition service_error_pages :: Service where
  "service_error_pages =
     \<lparr>svc_ID = ''error_pages'', svc_Label = (''Mod'' @ [CHR 0xC3, CHR 0xA8] @ ''les de pages d'' @ [CHR 0x27] @ ''erreur''), svc_Group = GroupSecurity, svc_Nature = NaturePlatform, svc_Criteria = [],
      svc_Levels = [lvl ''read'' ''Lecture'' [], platformWrite []],
      svc_Explicits = []\<rparr>"

definition service_infra :: Service where
  "service_infra =
     \<lparr>svc_ID = ''infra'', svc_Label = ''Infrastructure'', svc_Group = GroupPlatform, svc_Nature = NatureResource, svc_Criteria = byGateway,
      svc_Levels = [lvl ''read'' ''Lecture'' [ScopeNodesRead], lvl ''classify'' ''Classement'' [ScopeNodesWrite]],
      svc_Explicits = [explicit ''nodes:approve'' ''Approuver une passerelle ou un Agent'' [ScopeNodesWrite],
        explicit ''nodes:update'' (''Mise '' @ [CHR 0xC3, CHR 0xA0] @ '' jour ou retour arri'' @ [CHR 0xC3, CHR 0xA8] @ ''re d'' @ [CHR 0x27] @ ''une passerelle'') [ScopeNodesWrite],
        explicit ''nodes:configure'' (''Configuration d'' @ [CHR 0x27] @ ''une passerelle'') [ScopeNodesWrite],
        explicit ''nodes:delete'' (''Suppression d'' @ [CHR 0x27] @ ''une passerelle'') [ScopeNodesWrite],
        explicit ''enrol:create'' (''Billets d'' @ [CHR 0x27] @ ''enr'' @ [CHR 0xC3, CHR 0xB4] @ ''lement et secret d'' @ [CHR 0x27] @ ''appairage'') [ScopePairingRead, ScopeNodesWrite],
        explicit ''architecture:write'' (''N'' @ [CHR 0xC5, CHR 0x93] @ ''uds d'' @ [CHR 0xC3, CHR 0xA9] @ ''clar'' @ [CHR 0xC3, CHR 0xA9] @ ''s et assistant d'' @ [CHR 0x27] @ ''architecture'') [ScopeNodesWrite]]\<rparr>"

definition service_gateway_scope :: Service where
  "service_gateway_scope =
     \<lparr>svc_ID = ''gateway_scope'', svc_Label = (''P'' @ [CHR 0xC3, CHR 0xA9] @ ''rim'' @ [CHR 0xC3, CHR 0xA8] @ ''tre des passerelles''), svc_Group = GroupPlatform, svc_Nature = NatureResource, svc_Criteria = byGateway,
      svc_Levels = [lvl ''read'' ''Lecture'' [ScopeNodesRead]],
      svc_Explicits = [explicit ''tokens:manage'' (''Jetons d'' @ [CHR 0x27] @ ''appairage et routes servies'') [ScopeUsersRead],
        explicit ''tokens:rotate'' ''Rotation de jeton'' []]\<rparr>"

definition service_ha :: Service where
  "service_ha =
     \<lparr>svc_ID = ''ha'', svc_Label = (''Haute disponibilit'' @ [CHR 0xC3, CHR 0xA9]), svc_Group = GroupPlatform, svc_Nature = NatureResource, svc_Criteria = byGateway,
      svc_Levels = [lvl ''read'' ''Lecture'' [ScopeNodesRead], platformWrite [ScopeNodesWrite]],
      svc_Explicits = []\<rparr>"

definition service_gateway_settings :: Service where
  "service_gateway_settings =
     \<lparr>svc_ID = ''gateway_settings'', svc_Label = (''R'' @ [CHR 0xC3, CHR 0xA9] @ ''glages de la passerelle''), svc_Group = GroupPlatform, svc_Nature = NatureResource, svc_Criteria = byGateway,
      svc_Levels = [lvl ''read'' ''Lecture'' [ScopeNodesRead],
        lvl ''tune'' (''R'' @ [CHR 0xC3, CHR 0xA9] @ ''glage'') [ScopeNodesWrite]],
      svc_Explicits = [explicit ''nodes:tunnel'' ''Tunnel mTLS entre passerelles'' [ScopeNodesWrite]]\<rparr>"

definition service_discovery :: Service where
  "service_discovery =
     \<lparr>svc_ID = ''discovery'', svc_Label = (''Sources de d'' @ [CHR 0xC3, CHR 0xA9] @ ''couverte''), svc_Group = GroupPlatform, svc_Nature = NatureResource, svc_Criteria = byGateway,
      svc_Levels = [lvl ''read'' ''Lecture'' [ScopeNodesRead]],
      svc_Explicits = [explicit ''discovery:write'' (''Acc'' @ [CHR 0xC3, CHR 0xA8] @ ''s '' @ [CHR 0xC3, CHR 0xA0] @ '' un orchestrateur'') [ScopeNodesWrite]]\<rparr>"

definition service_automation :: Service where
  "service_automation =
     \<lparr>svc_ID = ''automation'', svc_Label = ''Automatisation'', svc_Group = GroupPlatform, svc_Nature = NaturePlatform, svc_Criteria = [],
      svc_Levels = [lvl ''read'' ''Lecture'' [ScopeAuditRead],
        lvl ''edit'' ([CHR 0xC3, CHR 0x89] @ ''dition'') [ScopeSecurityWrite]],
      svc_Explicits = [explicit ''automation:run'' (''Ex'' @ [CHR 0xC3, CHR 0xA9] @ ''cuter des actions'') [ScopeSecurityWrite],
        explicit ''automation:approve'' (''D'' @ [CHR 0xC3, CHR 0xA9] @ ''cider une ex'' @ [CHR 0xC3, CHR 0xA9] @ ''cution en attente'') [ScopeSecurityWrite]]\<rparr>"

definition service_portal_requests :: Service where
  "service_portal_requests =
     \<lparr>svc_ID = ''portal_requests'', svc_Label = (''Portail : demandes d'' @ [CHR 0x27] @ ''acc'' @ [CHR 0xC3, CHR 0xA8] @ ''s temporaires''), svc_Group = GroupPortal, svc_Nature = NatureResource, svc_Criteria = byPortalAsset,
      svc_Levels = [lvl ''read'' ''Lecture'' [ScopePortalRead],
        lvl ''decide'' (''D'' @ [CHR 0xC3, CHR 0xA9] @ ''cision'') [ScopePortalWrite]],
      svc_Explicits = []\<rparr>"

definition service_portal_sessions :: Service where
  "service_portal_sessions =
     \<lparr>svc_ID = ''portal_sessions'', svc_Label = ''Portail : sessions en direct'', svc_Group = GroupPortal, svc_Nature = NatureResource, svc_Criteria = byPortalAsset,
      svc_Levels = [lvl ''read'' ''Lecture'' [ScopePortalRead], lvl ''cut'' ''Coupure'' [ScopePortalWrite]],
      svc_Explicits = [explicit ''portal_sessions:observe'' ''Sortie du terminal en direct'' [ScopePortalWrite]]\<rparr>"

definition service_portal_recordings :: Service where
  "service_portal_recordings =
     \<lparr>svc_ID = ''portal_recordings'', svc_Label = ''Portail : enregistrements'', svc_Group = GroupPortal, svc_Nature = NatureResource, svc_Criteria = byPortalAsset,
      svc_Levels = [lvl ''list'' ''Liste'' [ScopePortalRead]],
      svc_Explicits = [explicit ''portal_recordings:replay'' ''Rejeu du contenu'' [ScopePortalWrite],
        explicit ''portal_recordings:delete'' ''Suppression'' [ScopePortalWrite]]\<rparr>"

definition service_portal_catalog :: Service where
  "service_portal_catalog =
     \<lparr>svc_ID = ''portal_catalog'', svc_Label = ''Portail : catalogue'', svc_Group = GroupPortal, svc_Nature = NatureResource, svc_Criteria = byPortalAsset,
      svc_Levels = [lvl ''read'' ''Lecture'' [ScopePortalRead], gestion ''manage'' ''Gestion'' [ScopePortalWrite]],
      svc_Explicits = []\<rparr>"

definition service_portal_users :: Service where
  "service_portal_users =
     \<lparr>svc_ID = ''portal_users'', svc_Label = ''Portail : utilisateurs et groupes'', svc_Group = GroupPortal, svc_Nature = NatureResource, svc_Criteria = byPortalAsset,
      svc_Levels = [lvl ''read'' ''Lecture'' [ScopePortalRead], gestion ''manage'' ''Gestion'' [ScopePortalWrite]],
      svc_Explicits = []\<rparr>"

definition service_portal_policies :: Service where
  "service_portal_policies =
     \<lparr>svc_ID = ''portal_policies'', svc_Label = ''Portail : politiques'', svc_Group = GroupPortal, svc_Nature = NatureResource, svc_Criteria = byPortalAsset,
      svc_Levels = [lvl ''read'' ''Lecture'' [ScopePortalRead], lvl ''manage'' ''Gestion'' [ScopePortalWrite]],
      svc_Explicits = []\<rparr>"

definition service_portal_audit :: Service where
  "service_portal_audit =
     \<lparr>svc_ID = ''portal_audit'', svc_Label = ''Portail : audit'', svc_Group = GroupPortal, svc_Nature = NatureResource, svc_Criteria = byPortalAsset,
      svc_Levels = [lvl ''read'' ''Lecture'' [ScopePortalRead]],
      svc_Explicits = []\<rparr>"

definition service_portal_templates :: Service where
  "service_portal_templates =
     \<lparr>svc_ID = ''portal_templates'', svc_Label = (''Portail : mod'' @ [CHR 0xC3, CHR 0xA8] @ ''les, r'' @ [CHR 0xC3, CHR 0xA9] @ ''glages, pouss'' @ [CHR 0xC3, CHR 0xA9] @ ''e''), svc_Group = GroupPortal, svc_Nature = NatureResource, svc_Criteria = byPortalAsset,
      svc_Levels = [lvl ''read'' ''Lecture'' [ScopePortalRead], lvl ''manage'' ''Gestion'' [ScopePortalWrite]],
      svc_Explicits = []\<rparr>"

definition service_backups :: Service where
  "service_backups =
     \<lparr>svc_ID = ''backups'', svc_Label = ''Sauvegardes'', svc_Group = GroupAdmin, svc_Nature = NaturePlatform, svc_Criteria = [],
      svc_Levels = [lvl ''list'' ''Liste'' [ScopeBackupsRead]],
      svc_Explicits = [explicit ''backups:create'' (''Cr'' @ [CHR 0xC3, CHR 0xA9] @ ''er une sauvegarde'') [ScopeBackupsRead],
        explicit ''backups:restore'' ''Restaurer (remplace tout)'' [ScopeBackupsRead]]\<rparr>"

definition service_pki :: Service where
  "service_pki =
     \<lparr>svc_ID = ''pki'', svc_Label = (''Autorit'' @ [CHR 0xC3, CHR 0xA9] @ '' interne, ECH, ACME et cl'' @ [CHR 0xC3, CHR 0xA9] @ ''s DNS''), svc_Group = GroupAdmin, svc_Nature = NaturePlatform, svc_Criteria = [],
      svc_Levels = [lvl ''read'' ''Lecture'' [ScopeCertsRead]],
      svc_Explicits = [explicit ''pki:write'' (''Cl'' @ [CHR 0xC3, CHR 0xA9] @ ''s de signature et identifiants DNS'') [ScopeCertsWrite]]\<rparr>"

definition service_plugins :: Service where
  "service_plugins =
     \<lparr>svc_ID = ''plugins'', svc_Label = ''Plugins WASM'', svc_Group = GroupAdmin, svc_Nature = NaturePlatform, svc_Criteria = [],
      svc_Levels = [lvl ''read'' ''Lecture'' [ScopeAuditRead]],
      svc_Explicits = [explicit ''plugins:write'' (''Code ex'' @ [CHR 0xC3, CHR 0xA9] @ ''cut'' @ [CHR 0xC3, CHR 0xA9] @ '' dans le plan de donn'' @ [CHR 0xC3, CHR 0xA9] @ ''es'') [ScopeSecurityWrite]]\<rparr>"

definition service_logs_settings :: Service where
  "service_logs_settings =
     \<lparr>svc_ID = ''logs_settings'', svc_Label = (''R'' @ [CHR 0xC3, CHR 0xA9] @ ''glages des logs, SIEM''), svc_Group = GroupAdmin, svc_Nature = NaturePlatform, svc_Criteria = [],
      svc_Levels = [lvl ''read'' ''Lecture'' [ScopeLogsRead]],
      svc_Explicits = [explicit ''logs_settings:write'' (''R'' @ [CHR 0xC3, CHR 0xA9] @ ''glages des logs'') [ScopeLogsWrite],
        explicit ''siem:write'' ''Jetons et adresses SIEM'' [ScopeLogsWrite]]\<rparr>"

definition service_accounts :: Service where
  "service_accounts =
     \<lparr>svc_ID = ''accounts'', svc_Label = (''Comptes, '' @ [CHR 0xC3, CHR 0xA9] @ ''quipes, acc'' @ [CHR 0xC3, CHR 0xA8] @ ''s MCP''), svc_Group = GroupAdmin, svc_Nature = NaturePlatform, svc_Criteria = [],
      svc_Levels = [lvl ''read'' ''Lecture'' [ScopeUsersRead, ScopeTeamsRead]],
      svc_Explicits = [explicit ''users:write'' ''Gestion des comptes'' [ScopeUsersRead],
        explicit ''teams:write'' ''Accorder des droits'' [ScopeTeamsRead]]\<rparr>"

definition service_settings :: Service where
  "service_settings =
     \<lparr>svc_ID = ''settings'', svc_Label = (''Param'' @ [CHR 0xC3, CHR 0xA8] @ ''tres''), svc_Group = GroupAdmin, svc_Nature = NaturePlatform, svc_Criteria = [],
      svc_Levels = [lvl ''read'' ''Lecture'' []],
      svc_Explicits = [explicit ''settings:write'' ''MFA, SMTP, adresse publique, apparence'' []]\<rparr>"

definition service_gdpr :: Service where
  "service_gdpr =
     \<lparr>svc_ID = ''gdpr'', svc_Label = (''RGPD ('' @ [CHR 0xC3, CHR 0xA9] @ ''quipe int'' @ [CHR 0xC3, CHR 0xA9] @ ''gr'' @ [CHR 0xC3, CHR 0xA9] @ ''e DPO)''), svc_Group = GroupGDPR, svc_Nature = NaturePlatform, svc_Criteria = [],
      svc_Levels = [],
      svc_Explicits = [explicit PermGDPRReveal (''R'' @ [CHR 0xC3, CHR 0xA9] @ ''v'' @ [CHR 0xC3, CHR 0xA9] @ ''ler l'' @ [CHR 0x27] @ ''IP r'' @ [CHR 0xC3, CHR 0xA9] @ ''elle'') [ScopeGDPRReveal],
        explicit PermGDPRExport (''Export d'' @ [CHR 0x27] @ ''acc'' @ [CHR 0xC3, CHR 0xA8] @ ''s et de portabilit'' @ [CHR 0xC3, CHR 0xA9]) [ScopeGDPRExport],
        explicit PermGDPRErase ''Effacement par IP ou par utilisateur'' [ScopeGDPRErase],
        explicit PermGDPRHold (''Gel l'' @ [CHR 0xC3, CHR 0xA9] @ ''gal et export sign'' @ [CHR 0xC3, CHR 0xA9]) []]\<rparr>"

definition Services :: "Service list" where
  "Services =
    [service_proxies, service_proxy_sections, service_containers, service_surface, service_domains, service_certs,
     service_domain_watch, service_logs, service_system_logs, service_dashboard, service_alerts,
     service_alert_channels, service_audit, service_netsec, service_engines, service_snippets, service_ip_profiles,
     service_auth_providers, service_error_pages, service_infra, service_gateway_scope, service_ha,
     service_gateway_settings, service_discovery, service_automation, service_portal_requests,
     service_portal_sessions, service_portal_recordings, service_portal_catalog, service_portal_users,
     service_portal_policies, service_portal_audit, service_portal_templates, service_backups, service_pki,
     service_plugins, service_logs_settings, service_accounts, service_settings, service_gdpr]"

lemmas service_defs =
  service_proxies_def service_proxy_sections_def service_containers_def service_surface_def service_domains_def
  service_certs_def service_domain_watch_def service_logs_def service_system_logs_def service_dashboard_def
  service_alerts_def service_alert_channels_def service_audit_def service_netsec_def service_engines_def
  service_snippets_def service_ip_profiles_def service_auth_providers_def service_error_pages_def service_infra_def
  service_gateway_scope_def service_ha_def service_gateway_settings_def service_discovery_def service_automation_def
  service_portal_requests_def service_portal_sessions_def service_portal_recordings_def service_portal_catalog_def service_portal_users_def
  service_portal_policies_def service_portal_audit_def service_portal_templates_def service_backups_def service_pki_def
  service_plugins_def service_logs_settings_def service_accounts_def service_settings_def service_gdpr_def

text \<open>The catalogue unfolded: the levels of a service, then its explicit permissions.\<close>

definition service_permissions :: "Service \<Rightarrow> Permission list" where
  "service_permissions s =
     map (\<lambda>l. \<lparr>pm_ID = svc_ID s @ CHR '':'' # lv_ID l, pm_Service = svc_ID s, pm_Label = lv_Label l, pm_Class = lv_Class l, pm_PAT = lv_PAT l\<rparr>) (svc_Levels s)
     @ map (\<lambda>e. \<lparr>pm_ID = ex_ID e, pm_Service = svc_ID s, pm_Label = ex_Label e, pm_Class = ClassSensitive, pm_PAT = ex_PAT e\<rparr>) (svc_Explicits s)"

definition Permissions :: "Permission list" where
  "Permissions = concat (map service_permissions Services)"

definition PermissionByID :: "string \<Rightarrow> Permission option" where
  "PermissionByID i = find (\<lambda>p. pm_ID p = i) Permissions"

definition ServiceByID :: "string \<Rightarrow> Service option" where
  "ServiceByID i = find (\<lambda>s. svc_ID s = i) Services"

definition CoversPATScope :: "Permission \<Rightarrow> string \<Rightarrow> bool" where
  "CoversPATScope p scope \<longleftrightarrow> scope \<in> set (pm_PAT p)"

text \<open>\<open>ValidateCatalog\<close>: \<open>None\<close> is the absence of an error.\<close>

datatype catalog_error = IncompleteService string | ServiceTwice string | NoCriteria string | PlatformCriteria string
  | EmptyService string | PermissionTwice string | ScopeUncovered string

fun validate_services :: "string list \<Rightarrow> Service list \<Rightarrow> catalog_error option" where
  "validate_services seen [] = None"
| "validate_services seen (s # ss) =
     (if svc_ID s = [] \<or> svc_Label s = [] \<or> svc_Group s = [] then Some (IncompleteService (svc_ID s))
      else if svc_ID s \<in> set seen then Some (ServiceTwice (svc_ID s))
      else if svc_Nature s = NatureResource \<and> svc_Criteria s = [] then Some (NoCriteria (svc_ID s))
      else if svc_Nature s = NaturePlatform \<and> svc_Criteria s \<noteq> [] then Some (PlatformCriteria (svc_ID s))
      else if svc_Levels s = [] \<and> svc_Explicits s = [] then Some (EmptyService (svc_ID s))
      else validate_services (svc_ID s # seen) ss)"

fun validate_permissions :: "string list \<Rightarrow> Permission list \<Rightarrow> catalog_error option" where
  "validate_permissions seen [] = None"
| "validate_permissions seen (p # ps) =
     (if pm_ID p \<in> set seen then Some (PermissionTwice (pm_ID p)) else validate_permissions (pm_ID p # seen) ps)"

definition validate_scopes :: "Permission list \<Rightarrow> string list \<Rightarrow> catalog_error option" where
  "validate_scopes ps scopes = map_option ScopeUncovered (find (\<lambda>scope. \<not> list_ex (\<lambda>p. CoversPATScope p scope) ps) scopes)"

definition ValidateCatalog :: "catalog_error option" where
  "ValidateCatalog =
     (case validate_services [] Services of
        Some e \<Rightarrow> Some e
      | None \<Rightarrow> (case validate_permissions [] Permissions of
                   Some e \<Rightarrow> Some e
                 | None \<Rightarrow> validate_scopes Permissions AllPATScopes))"

section \<open>Tools\<close>

definition toolPermissionGroups :: "(string \<times> string list) list" where
  "toolPermissionGroups =
    [(''proxies:read'',
       [''list_proxies'', ''get_proxy'', ''get_proxy_labels'', ''list_orphan_proxies'']),
     (''proxies:operate'',
       [''create_proxy'', ''update_proxy'', ''set_proxy_enabled'', ''purge_proxy_cache'']),
     (''proxies:manage'',
       [''delete_proxy'']),
     (''containers:read'',
       [''get_discovered_container'']),
     (''containers:operate'',
       [''convert_discovered_container'', ''set_container_route_enabled'']),
     (''infra:read'',
       [''list_nodes'', ''list_agents'', ''list_declared_nodes'', ''get_topology_live'', ''get_architecture'',
        ''list_hosts'']),
     (''nodes:approve'',
       [''approve_agent'', ''revoke_agent'', ''accept_node'', ''reject_node'']),
     (''architecture:write'',
       [''create_declared_node'', ''delete_declared_node'']),
     (''infra:classify'',
       [''set_group_attributes'']),
     (''enrol:create'',
       [''create_bootstrap_ticket'', ''create_host_join_ticket'']),
     (''discovery:read'',
       [''list_discovery_sources'']),
     (''alerts:read'',
       [''list_alerts'', ''list_alert_events'', ''list_alert_rules'']),
     (''alerts:ack'',
       [''ack_alert_event'']),
     (''alerts:rules'',
       [''create_alert_rule'', ''delete_alert_rule'']),
     (''alert_channels:read'',
       [''list_alert_channels'', ''list_alert_channel_types'']),
     (''alert_channels:manage'',
       [''create_alert_channel'', ''delete_alert_channel'']),
     (''dashboard:read'',
       [''get_metrics'', ''get_proxy_metrics'', ''get_prism_anomalies'', ''get_prism_geo'',
        ''get_prism_tls_fingerprints'', ''get_prism_slo'']),
     (''backups:list'',
       [''list_backups'']),
     (''accounts:read'',
       [''list_users'', ''get_user_access'', ''list_teams'', ''get_rights_catalog'', ''list_team_accesses'',
        ''preview_perimeter'']),
     (''teams:write'',
       [''set_team_access'', ''delete_team_access'']),
     (''snippets:read'',
       [''list_snippets'', ''list_detector_types'']),
     (''snippets:write'',
       [''create_snippet'', ''delete_snippet'']),
     (''domains:read'',
       [''list_domains'']),
     (''domains:manage'',
       [''create_domain'', ''renew_domain'', ''rotate_cert'']),
     (''certs:read'',
       [''list_certs'', ''get_cert_status'', ''list_cert_deploy_targets'', ''list_cert_deploy_types'']),
     (''certs:manage'',
       [''obtain_cert'', ''import_cert'']),
     (''certs:deploy'',
       [''trigger_cert_deploy'']),
     (''pki:read'',
       [''list_internal_cas'', ''list_internal_certs'', ''get_ech_status'', ''list_dns_providers'',
        ''list_dns_provider_types'']),
     (''pki:write'',
       [''create_internal_ca'', ''issue_internal_cert'', ''revoke_internal_cert'']),
     (''logs:read'',
       [''list_logs'']),
     (''logs_settings:read'',
       [''get_siem_status'']),
     (''audit:read'',
       [''get_audit_log'']),
     (''netsec:read'',
       [''get_security_overview'', ''list_security_bans'', ''get_waf_activity'', ''lookup_asn'',
        ''list_ban_whitelist'', ''list_security_threats'', ''list_security_cves'', ''get_app_inventory'',
        ''get_entry_rejections'', ''get_traffic_reference'', ''get_tls_reputation'']),
     (''netsec:analyse'',
       [''trace_ip'', ''preview_security_ban'', ''preview_asn_ban'']),
     (''netsec:respond'',
       [''create_security_ban'', ''delete_security_ban'', ''ban_ip'', ''unban_ip'', ''add_ban_whitelist'',
        ''remove_ban_whitelist'', ''ban_asn'', ''unban_asn'']),
     (''bans:import'',
       [''import_security_bans'']),
     (''engines:read'',
       [''list_security_engine_types'']),
     (''engines:simulate'',
       [''simulate_ephor_config'', ''calibrate_ephor'', ''get_ephor_references'', ''suggest_ephor_thresholds'']),
     (''surface:read'',
       [''get_proxy_surface'', ''get_proxy_surface_proposals'', ''get_proxy_surface_openapi'',
        ''get_proxy_surface_suggestions'']),
     (''surface:learn'',
       [''reset_proxy_surface'', ''accept_proxy_surface_suggestions'', ''relax_proxy_surface'']),
     (''surface:enforce'',
       [''enforce_proxy_surface'']),
     (''domain_watch:read'',
       [''get_domain_watch'']),
     (''plugins:read'',
       [''list_plugins'']),
     (''ip_profiles:read'',
       [''list_ip_profiles'']),
     (''ip_profiles:write'',
       [''create_ip_profile'', ''delete_ip_profile'']),
     (''auth_providers:read'',
       [''list_auth_providers'', ''list_auth_provider_types'']),
     (''auth_providers:write'',
       [''create_auth_provider'', ''delete_auth_provider'']),
     (''automation:read'',
       [''list_flows'', ''get_flow'', ''list_flow_versions'', ''list_flow_runs'', ''get_flow_run'',
        ''get_automation_catalog'', ''list_flow_templates'', ''list_silences'', ''export_automation'']),
     (''automation:edit'',
       [''create_flow'', ''update_flow'', ''set_flow_enabled'', ''delete_flow'', ''simulate_flow'',
        ''restore_flow_version'', ''detach_flow'', ''update_flow_params'', ''install_flow_template'',
        ''create_silence'', ''delete_silence'', ''import_automation'']),
     (''automation:run'',
       [''run_flow'', ''cancel_flow_run'', ''replay_flow_run'']),
     (''automation:approve'',
       [''decide_flow_run'']),
     (''portal_catalog:read'',
       [''list_portal_destinations'', ''preview_portal_destinations'', ''list_portal_destination_groups'']),
     (''portal_catalog:manage'',
       [''create_portal_destination'', ''update_portal_destination'', ''delete_portal_destination'',
        ''create_portal_destination_group'', ''update_portal_destination_group'', ''delete_portal_destination_group'']),
     (''portal_users:read'',
       [''list_portal_users'', ''list_portal_groups'']),
     (''portal_users:manage'',
       [''invite_portal_user'', ''create_portal_group'', ''update_portal_group'', ''delete_portal_group'',
        ''update_portal_user'', ''delete_portal_user'', ''resend_portal_invite'']),
     (''portal_audit:read'',
       [''list_portal_audit'']),
     (''portal_sessions:read'',
       [''list_portal_sessions'']),
     (''portal_sessions:cut'',
       [''terminate_portal_session'']),
     (''portal_requests:read'',
       [''list_portal_access_requests'']),
     (''portal_requests:decide'',
       [''decide_portal_access_request'']),
     (''portal_policies:read'',
       [''get_portal_policy'']),
     (''portal_policies:manage'',
       [''set_portal_policy'']),
     (''portal_recordings:list'',
       [''list_portal_recordings'']),
     (''portal_recordings:delete'',
       [''delete_portal_recording'']),
     (''portal_templates:read'',
       [''get_portal_config'', ''list_portal_templates'', ''get_portal_template'']),
     (''portal_templates:manage'',
       [''update_portal_config'', ''push_portal'', ''upsert_portal_template'', ''delete_portal_template'',
        ''push_portal_templates''])]"

text \<open>A map built in order: the last declaration of a tool counts, as in the loop that fills the map.\<close>

definition toolPermission :: "(string \<times> string) list" where
  "toolPermission = concat (map (\<lambda>(p, ts). map (\<lambda>t. (t, p)) ts) toolPermissionGroups)"

definition ToolPermission :: "string \<Rightarrow> string" where
  "ToolPermission tool = (case map_of (rev toolPermission) tool of Some p \<Rightarrow> p | None \<Rightarrow> [])"

definition mcpTools :: "string list" where
  "mcpTools =
    [''list_proxies'', ''get_proxy'', ''get_proxy_labels'', ''get_discovered_container'', ''list_orphan_proxies'',
     ''create_proxy'', ''convert_discovered_container'', ''set_container_route_enabled'', ''update_proxy'',
     ''set_proxy_enabled'', ''delete_proxy'', ''purge_proxy_cache'', ''list_nodes'', ''list_agents'',
     ''list_declared_nodes'', ''get_topology_live'', ''get_architecture'', ''list_discovery_sources'',
     ''set_group_attributes'', ''approve_agent'', ''revoke_agent'', ''create_declared_node'',
     ''delete_declared_node'', ''create_bootstrap_ticket'', ''list_hosts'', ''create_host_join_ticket'',
     ''accept_node'', ''reject_node'', ''list_alerts'', ''list_alert_events'', ''list_alert_channels'',
     ''list_alert_channel_types'', ''list_alert_rules'', ''create_alert_channel'', ''delete_alert_channel'',
     ''create_alert_rule'', ''delete_alert_rule'', ''ack_alert_event'', ''get_metrics'', ''get_proxy_metrics'',
     ''list_backups'', ''list_users'', ''get_user_access'', ''list_snippets'', ''list_detector_types'',
     ''create_snippet'', ''delete_snippet'', ''list_domains'', ''create_domain'', ''renew_domain'', ''rotate_cert'',
     ''list_certs'', ''get_cert_status'', ''list_cert_deploy_targets'', ''list_cert_deploy_types'',
     ''list_internal_cas'', ''list_internal_certs'', ''get_ech_status'', ''list_dns_providers'',
     ''list_dns_provider_types'', ''obtain_cert'', ''import_cert'', ''trigger_cert_deploy'', ''create_internal_ca'',
     ''issue_internal_cert'', ''revoke_internal_cert'', ''list_logs'', ''get_siem_status'',
     ''simulate_ephor_config'', ''calibrate_ephor'', ''get_ephor_references'', ''suggest_ephor_thresholds'',
     ''trace_ip'', ''preview_security_ban'', ''preview_asn_ban'', ''get_prism_anomalies'', ''get_prism_geo'',
     ''get_prism_tls_fingerprints'', ''get_prism_slo'', ''list_teams'', ''get_rights_catalog'',
     ''list_team_accesses'', ''set_team_access'', ''delete_team_access'', ''preview_perimeter'', ''get_audit_log'',
     ''get_security_overview'', ''list_security_bans'', ''list_security_engine_types'', ''get_waf_activity'',
     ''list_plugins'', ''lookup_asn'', ''list_security_threats'', ''list_security_cves'', ''list_ip_profiles'',
     ''list_auth_providers'', ''list_auth_provider_types'', ''list_flows'', ''get_flow'', ''list_flow_versions'',
     ''list_flow_runs'', ''get_flow_run'', ''get_automation_catalog'', ''list_flow_templates'', ''list_silences'',
     ''export_automation'', ''create_security_ban'', ''delete_security_ban'', ''ban_ip'', ''unban_ip'',
     ''list_ban_whitelist'', ''add_ban_whitelist'', ''remove_ban_whitelist'', ''import_security_bans'', ''ban_asn'',
     ''unban_asn'', ''create_ip_profile'', ''delete_ip_profile'', ''create_auth_provider'', ''delete_auth_provider'',
     ''get_proxy_surface'', ''get_app_inventory'', ''get_entry_rejections'', ''get_traffic_reference'',
     ''get_tls_reputation'', ''get_domain_watch'', ''get_proxy_surface_proposals'', ''get_proxy_surface_openapi'',
     ''get_proxy_surface_suggestions'', ''reset_proxy_surface'', ''enforce_proxy_surface'',
     ''accept_proxy_surface_suggestions'', ''relax_proxy_surface'', ''create_flow'', ''update_flow'',
     ''set_flow_enabled'', ''delete_flow'', ''run_flow'', ''simulate_flow'', ''restore_flow_version'',
     ''detach_flow'', ''update_flow_params'', ''decide_flow_run'', ''cancel_flow_run'', ''replay_flow_run'',
     ''install_flow_template'', ''create_silence'', ''delete_silence'', ''import_automation'', ''get_portal_config'',
     ''list_portal_destinations'', ''preview_portal_destinations'', ''list_portal_destination_groups'',
     ''list_portal_users'', ''list_portal_groups'', ''list_portal_audit'', ''list_portal_sessions'',
     ''terminate_portal_session'', ''list_portal_access_requests'', ''decide_portal_access_request'',
     ''get_portal_policy'', ''set_portal_policy'', ''list_portal_recordings'', ''delete_portal_recording'',
     ''list_portal_templates'', ''get_portal_template'', ''update_portal_config'', ''push_portal'',
     ''create_portal_destination'', ''update_portal_destination'', ''delete_portal_destination'',
     ''create_portal_destination_group'', ''update_portal_destination_group'', ''delete_portal_destination_group'',
     ''invite_portal_user'', ''create_portal_group'', ''update_portal_group'', ''delete_portal_group'',
     ''update_portal_user'', ''delete_portal_user'', ''resend_portal_invite'', ''upsert_portal_template'',
     ''delete_portal_template'', ''push_portal_templates'']"

definition memberTools :: "string list" where
  "memberTools =
    [''list_proxies'', ''get_proxy'', ''get_proxy_labels'', ''get_discovered_container'', ''list_orphan_proxies'',
     ''create_proxy'', ''convert_discovered_container'', ''set_container_route_enabled'', ''update_proxy'',
     ''set_proxy_enabled'', ''delete_proxy'', ''purge_proxy_cache'', ''list_nodes'', ''list_declared_nodes'',
     ''get_topology_live'', ''list_hosts'', ''list_alerts'', ''list_alert_events'', ''list_alert_rules'',
     ''list_alert_channels'', ''list_alert_channel_types'', ''get_metrics'', ''get_proxy_metrics'',
     ''get_prism_anomalies'', ''get_prism_geo'', ''get_prism_tls_fingerprints'', ''get_prism_slo'',
     ''list_snippets'', ''create_snippet'', ''delete_snippet'', ''list_detector_types'', ''list_ip_profiles'',
     ''list_domains'', ''list_certs'', ''get_cert_status'', ''list_cert_deploy_targets'', ''list_cert_deploy_types'',
     ''list_logs'', ''get_audit_log'']"

definition ToolRequiresAdmin :: "string \<Rightarrow> bool" where
  "ToolRequiresAdmin tool \<longleftrightarrow> tool \<notin> set memberTools"

text \<open>The cases of the switch, in order.\<close>

definition toolScopes :: "(string list \<times> string) list" where
  "toolScopes =
    [([''list_proxies'', ''get_proxy'', ''get_proxy_labels'', ''get_discovered_container'', ''list_orphan_proxies''],
       ScopeProxiesRead),
     ([''create_proxy'', ''convert_discovered_container'', ''set_container_route_enabled'', ''update_proxy'',
        ''set_proxy_enabled'', ''purge_proxy_cache''],
       ScopeProxiesWrite),
     ([''delete_proxy''],
       ScopeProxiesDelete),
     ([''list_nodes'', ''list_agents'', ''list_declared_nodes'', ''get_topology_live'', ''get_architecture'',
        ''list_discovery_sources'', ''list_hosts''],
       ScopeNodesRead),
     ([''approve_agent'', ''revoke_agent'', ''set_group_attributes'', ''create_declared_node'',
        ''delete_declared_node'', ''create_bootstrap_ticket'', ''create_host_join_ticket'', ''accept_node'',
        ''reject_node''],
       ScopeNodesWrite),
     ([''list_alerts'', ''list_alert_events'', ''list_alert_channels'', ''list_alert_channel_types'',
        ''list_alert_rules''],
       ScopeAlertsRead),
     ([''create_alert_channel'', ''delete_alert_channel'', ''create_alert_rule'', ''delete_alert_rule'',
        ''ack_alert_event''],
       ScopeAlertsWrite),
     ([''get_metrics'', ''get_proxy_metrics''],
       ScopeMetricsRead),
     ([''list_backups''],
       ScopeBackupsRead),
     ([''list_users'', ''get_user_access''],
       ScopeUsersRead),
     ([''list_snippets'', ''list_detector_types''],
       ScopeSnippetsRead),
     ([''create_snippet'', ''delete_snippet''],
       ScopeSnippetsWrite),
     ([''list_domains''],
       ScopeDomainsRead),
     ([''create_domain'', ''renew_domain'', ''rotate_cert''],
       ScopeDomainsWrite),
     ([''list_certs'', ''get_cert_status'', ''list_cert_deploy_targets'', ''list_cert_deploy_types'',
        ''list_internal_cas'', ''list_internal_certs'', ''get_ech_status'', ''list_dns_providers'',
        ''list_dns_provider_types''],
       ScopeCertsRead),
     ([''obtain_cert'', ''import_cert'', ''trigger_cert_deploy'', ''create_internal_ca'', ''issue_internal_cert'',
        ''revoke_internal_cert''],
       ScopeCertsWrite),
     ([''list_logs'', ''get_siem_status'', ''simulate_ephor_config'', ''calibrate_ephor'', ''get_ephor_references'',
        ''suggest_ephor_thresholds'', ''trace_ip'', ''preview_security_ban'', ''preview_asn_ban'',
        ''get_prism_anomalies'', ''get_prism_geo'', ''get_prism_tls_fingerprints'', ''get_prism_slo''],
       ScopeLogsRead),
     ([''list_teams'', ''get_rights_catalog'', ''list_team_accesses'', ''set_team_access'', ''delete_team_access'',
        ''preview_perimeter''],
       ScopeTeamsRead),
     ([''get_audit_log'', ''get_security_overview'', ''list_security_bans'', ''list_security_engine_types'',
        ''get_waf_activity'', ''list_plugins'', ''lookup_asn'', ''list_ban_whitelist'', ''list_security_threats'',
        ''list_security_cves'', ''get_proxy_surface'', ''get_app_inventory'', ''get_entry_rejections'',
        ''get_traffic_reference'', ''get_tls_reputation'', ''get_domain_watch'', ''get_proxy_surface_proposals'',
        ''get_proxy_surface_openapi'', ''get_proxy_surface_suggestions'', ''list_ip_profiles'',
        ''list_auth_providers'', ''list_auth_provider_types'', ''list_flows'', ''get_flow'', ''list_flow_versions'',
        ''list_flow_runs'', ''get_flow_run'', ''get_automation_catalog'', ''list_flow_templates'', ''list_silences'',
        ''export_automation''],
       ScopeAuditRead),
     ([''reset_proxy_surface'', ''enforce_proxy_surface'', ''accept_proxy_surface_suggestions'',
        ''relax_proxy_surface'', ''create_security_ban'', ''delete_security_ban'', ''ban_ip'', ''unban_ip'',
        ''add_ban_whitelist'', ''remove_ban_whitelist'', ''import_security_bans'', ''ban_asn'', ''unban_asn'',
        ''create_ip_profile'', ''delete_ip_profile'', ''create_auth_provider'', ''delete_auth_provider'',
        ''create_flow'', ''update_flow'', ''set_flow_enabled'', ''delete_flow'', ''run_flow'', ''simulate_flow'',
        ''restore_flow_version'', ''detach_flow'', ''update_flow_params'', ''decide_flow_run'', ''cancel_flow_run'',
        ''replay_flow_run'', ''install_flow_template'', ''create_silence'', ''delete_silence'', ''import_automation''],
       ScopeSecurityWrite),
     ([''get_portal_config'', ''list_portal_destinations'', ''preview_portal_destinations'',
        ''list_portal_destination_groups'', ''list_portal_users'', ''list_portal_groups'', ''list_portal_audit'',
        ''list_portal_sessions'', ''list_portal_access_requests'', ''get_portal_policy'', ''list_portal_recordings'',
        ''list_portal_templates'', ''get_portal_template''],
       ScopePortalRead),
     ([''update_portal_config'', ''push_portal'', ''create_portal_destination'', ''update_portal_destination'',
        ''delete_portal_destination'', ''create_portal_destination_group'', ''update_portal_destination_group'',
        ''delete_portal_destination_group'', ''invite_portal_user'', ''create_portal_group'',
        ''update_portal_group'', ''delete_portal_group'', ''update_portal_user'', ''delete_portal_user'',
        ''resend_portal_invite'', ''terminate_portal_session'', ''decide_portal_access_request'',
        ''set_portal_policy'', ''delete_portal_recording'', ''upsert_portal_template'', ''delete_portal_template'',
        ''push_portal_templates''],
       ScopePortalWrite)]"

definition ToolRequiredScope :: "string \<Rightarrow> string" where
  "ToolRequiredScope tool = (case find (\<lambda>(ts, s). tool \<in> set ts) toolScopes of Some (ts, s) \<Rightarrow> s | None \<Rightarrow> [])"

definition ToolsForScope :: "string \<Rightarrow> string list" where
  "ToolsForScope scope = filter (\<lambda>t. ToolRequiredScope t = scope) mcpTools"

section \<open>Presets\<close>

record Profile =
  pf_ID :: string
  pf_Label :: string
  pf_Audience :: string
  pf_Levels :: "(string \<times> string) list"
  pf_Permissions :: "string list"

definition notInWholePlatformRead :: "string list" where
  "notInWholePlatformRead = [''accounts'', ''backups'', ''settings'', ''audit'', ''gdpr'', ''proxy_sections'']"

definition wholePlatformRead :: "(string \<times> string) list" where
  "wholePlatformRead =
     map (\<lambda>s. (svc_ID s, lv_ID (hd (svc_Levels s))))
       (filter (\<lambda>s. \<not> (svc_Levels s = [] \<or> svc_ID s \<in> set notInWholePlatformRead \<or> lv_Class (hd (svc_Levels s)) \<noteq> ClassOrdinary)) Services)"

definition merge_levels :: "(string \<times> string) list \<Rightarrow> (string \<times> string) list \<Rightarrow> (string \<times> string) list" where
  "merge_levels base extra = fold (\<lambda>(k, v). gm_set k v) extra base"

definition Profiles :: "Profile list" where
  "Profiles =
    [\<lparr>pf_ID = ''traffic-read'', pf_Label = ''Lecture du trafic'', pf_Audience = ''direction, support niveau 1'',
       pf_Levels = [(''proxies'', ''read''), (''containers'', ''read''), (''surface'', ''read''),
                (''domains'', ''read''), (''certs'', ''read''), (''logs'', ''read''), (''dashboard'', ''read''),
                (''alerts'', ''read'')], pf_Permissions = []\<rparr>,
     \<lparr>pf_ID = ''security-read'', pf_Label = (''Lecture de la s'' @ [CHR 0xC3, CHR 0xA9] @ ''curit'' @ [CHR 0xC3, CHR 0xA9]), pf_Audience = ''analyste en lecture'',
       pf_Levels = [(''netsec'', ''read''), (''engines'', ''read''), (''surface'', ''read''), (''logs'', ''read'')], pf_Permissions = []\<rparr>,
     \<lparr>pf_ID = ''portal-read'', pf_Label = ''Lecture du portail'', pf_Audience = (''responsable conformit'' @ [CHR 0xC3, CHR 0xA9]),
       pf_Levels = [(''portal_requests'', ''read''), (''portal_sessions'', ''read''), (''portal_recordings'', ''list''),
                (''portal_catalog'', ''read''), (''portal_users'', ''read''), (''portal_policies'', ''read''),
                (''portal_audit'', ''read''), (''portal_templates'', ''read'')], pf_Permissions = []\<rparr>,
     \<lparr>pf_ID = ''platform-read'', pf_Label = ''Lecture de toute la plateforme'', pf_Audience = ''audit interne'',
       pf_Levels = wholePlatformRead, pf_Permissions = []\<rparr>,
     \<lparr>pf_ID = ''operations'', pf_Label = ''Exploitation'', pf_Audience = ([CHR 0xC3, CHR 0xA9] @ ''quipe d'' @ [CHR 0x27] @ ''un environnement ou d'' @ [CHR 0x27] @ ''un projet''),
       pf_Levels = [(''proxies'', ''operate''), (''containers'', ''operate''), (''surface'', ''learn''),
                (''domains'', ''read''), (''certs'', ''read''), (''logs'', ''read''), (''dashboard'', ''read''),
                (''alerts'', ''ack''), (''snippets'', ''read''), (''ip_profiles'', ''read'')], pf_Permissions = []\<rparr>,
     \<lparr>pf_ID = ''domain-owner'', pf_Label = (''Propri'' @ [CHR 0xC3, CHR 0xA9] @ ''taire de domaine''), pf_Audience = (''responsable d'' @ [CHR 0x27] @ ''un domaine complet''),
       pf_Levels = [(''proxies'', ''manage''), (''containers'', ''operate''), (''surface'', ''learn''),
                (''domains'', ''manage''), (''certs'', ''manage''), (''logs'', ''read''), (''dashboard'', ''read''),
                (''alerts'', ''rules''), (''snippets'', ''read''), (''ip_profiles'', ''read'')], pf_Permissions = []\<rparr>,
     \<lparr>pf_ID = ''soc'', pf_Label = (''S'' @ [CHR 0xC3, CHR 0xA9] @ ''curit'' @ [CHR 0xC3, CHR 0xA9] @ '' (SOC)''), pf_Audience = (''analystes s'' @ [CHR 0xC3, CHR 0xA9] @ ''curit'' @ [CHR 0xC3, CHR 0xA9]),
       pf_Levels = [(''netsec'', ''respond''), (''engines'', ''simulate''), (''logs'', ''read''),
                (''dashboard'', ''read''), (''surface'', ''read''), (''proxies'', ''read''), (''alerts'', ''ack'')], pf_Permissions = []\<rparr>,
     \<lparr>pf_ID = ''pki'', pf_Label = ''Certificats et PKI'', pf_Audience = ([CHR 0xC3, CHR 0xA9] @ ''quipe en charge des certificats''),
       pf_Levels = [(''domains'', ''manage''), (''certs'', ''manage''), (''proxies'', ''read'')], pf_Permissions = []\<rparr>,
     \<lparr>pf_ID = ''infrastructure'', pf_Label = ''Infrastructure'', pf_Audience = ([CHR 0xC3, CHR 0xA9] @ ''quipe r'' @ [CHR 0xC3, CHR 0xA9] @ ''seau et syst'' @ [CHR 0xC3, CHR 0xA8] @ ''me''),
       pf_Levels = [(''infra'', ''classify''), (''system_logs'', ''read''), (''dashboard'', ''read''),
                (''alerts'', ''ack'')], pf_Permissions = []\<rparr>,
     \<lparr>pf_ID = ''on-call'', pf_Label = ''Astreinte'', pf_Audience = ''astreinte sans droit de modification'',
       pf_Levels = [(''proxies'', ''read''), (''logs'', ''read''), (''dashboard'', ''read''), (''infra'', ''read''),
                (''netsec'', ''read''), (''alerts'', ''ack'')], pf_Permissions = []\<rparr>,
     \<lparr>pf_ID = ''auditor'', pf_Label = ''Auditeur'', pf_Audience = ''audit externe'',
       pf_Levels = merge_levels wholePlatformRead [(''audit'', ''read'')], pf_Permissions = []\<rparr>,
     \<lparr>pf_ID = ''portal-support'', pf_Label = ''Portail : support'', pf_Audience = (''helpdesk qui approuve les acc'' @ [CHR 0xC3, CHR 0xA8] @ ''s temporaires''),
       pf_Levels = [(''portal_requests'', ''decide''), (''portal_sessions'', ''cut''), (''portal_catalog'', ''read''),
                (''portal_users'', ''read''), (''portal_audit'', ''read'')], pf_Permissions = []\<rparr>,
     \<lparr>pf_ID = ''portal-manager'', pf_Label = ''Portail : gestion'', pf_Audience = ''responsable du portail'',
       pf_Levels = [(''portal_catalog'', ''manage''), (''portal_users'', ''manage''), (''portal_policies'', ''manage''),
                (''portal_templates'', ''manage''), (''portal_requests'', ''decide''),
                (''portal_sessions'', ''cut''), (''portal_recordings'', ''list''), (''portal_audit'', ''read'')], pf_Permissions = []\<rparr>,
     \<lparr>pf_ID = ''automation-approver'', pf_Label = (''Approbateur d'' @ [CHR 0x27] @ ''automatisation''), pf_Audience = (''valide les ex'' @ [CHR 0xC3, CHR 0xA9] @ ''cutions '' @ [CHR 0xC3, CHR 0xA0] @ '' risque''),
       pf_Levels = [(''automation'', ''read'')], pf_Permissions = [''automation:approve'']\<rparr>,
     \<lparr>pf_ID = ''empty'', pf_Label = ([CHR 0xC3, CHR 0x89] @ ''quipe vide''), pf_Audience = (''d'' @ [CHR 0xC3, CHR 0xA9] @ ''part de z'' @ [CHR 0xC3, CHR 0xA9] @ ''ro''),
       pf_Levels = [], pf_Permissions = []\<rparr>]"

section \<open>The catalogue is consistent\<close>

text \<open>
  Names are told apart by a hash, so that evaluating the catalogue compares numbers: distinct hashes mean
  distinct names.
\<close>

definition name_hash :: "string \<Rightarrow> int" where
  "name_hash s = foldl (\<lambda>a c. 4 * a + of_char c) 7 s"

lemma permission_hashes: "all_differ (map (\<lambda>p. name_hash (pm_ID p)) Permissions)"
  by code_simp

lemma permission_ids_distinct: "distinct (map pm_ID Permissions)"
  using permission_hashes by (rule distinct_by_hash)

lemma service_hashes: "all_differ (map (\<lambda>s. name_hash (svc_ID s)) Services)"
  by code_simp

lemma service_ids_distinct: "distinct (map svc_ID Services)"
  using service_hashes by (rule distinct_by_hash)

lemma find_unique: "distinct (map f xs) \<Longrightarrow> x \<in> set xs \<Longrightarrow> find (\<lambda>y. f y = f x) xs = Some x"
  by (induction xs) (auto simp: image_iff)

lemma PermissionByID_iff: "PermissionByID i = Some p \<longleftrightarrow> p \<in> set Permissions \<and> pm_ID p = i"
  using find_unique [OF permission_ids_distinct, of p]
  by (auto simp: PermissionByID_def find_Some_iff intro: nth_mem)

lemma ServiceByID_iff: "ServiceByID i = Some s \<longleftrightarrow> s \<in> set Services \<and> svc_ID s = i"
  using find_unique [OF service_ids_distinct, of s]
  by (auto simp: ServiceByID_def find_Some_iff intro: nth_mem)

lemma validate_services_ok: "validate_services [] Services = None"
  by code_simp

lemma validate_permissions_distinct:
  "distinct (map pm_ID ps) \<Longrightarrow> set (map pm_ID ps) \<inter> set seen = {} \<Longrightarrow> validate_permissions seen ps = None"
  by (induction ps arbitrary: seen) auto

lemmas level_defs = lvl_def gestion_def platformWrite_def explicit_def

lemma scopes_covered: "list_all (\<lambda>scope. scope \<in> set (concat (map pm_PAT Permissions))) AllPATScopes"
  by (simp add: AllPATScopes_def Permissions_def Services_def service_permissions_def service_defs level_defs)

definition tool_scope_pairs :: "(string \<times> string) list" where
  "tool_scope_pairs = concat (map (\<lambda>(ts, s). map (\<lambda>t. (t, s)) ts) toolScopes)"

lemma tool_hashes: "all_differ (map (\<lambda>e. name_hash (fst e)) toolPermission)"
  by code_simp

lemma tool_scope_hashes: "all_differ (map (\<lambda>e. name_hash (fst e)) tool_scope_pairs)"
  by code_simp

lemma switch_pairs:
  "map_of (concat (map (\<lambda>(ts, s). map (\<lambda>t. (t, s)) ts) cs)) t =
     (case find (\<lambda>(ts, s). t \<in> set ts) cs of Some (ts, s) \<Rightarrow> Some s | None \<Rightarrow> None)"
proof (induction cs)
  case (Cons c cs)
  obtain ts s where c: "c = (ts, s)" by (cases c)
  have "map_of (map (\<lambda>t. (t, s)) ts) t = (if t \<in> set ts then Some s else None)" for ts
    by (induction ts) auto
  then show ?case using Cons c by (auto simp: map_add_def split: option.split)
qed simp

text \<open>The tables as rewrite rules, one for each name.\<close>

lemma tool_permission_table: "list_all (\<lambda>(t, i). ToolPermission t = i) toolPermission"
proof -
  have d: "distinct (map fst toolPermission)" using tool_hashes by (rule distinct_by_hash)
  then have "map_of (rev toolPermission) t = Some i" if "(t, i) \<in> set toolPermission" for t i
    using that by (simp add: rev_map [symmetric])
  then show ?thesis by (auto simp: list_all_iff ToolPermission_def)
qed

lemma tool_scope_table: "list_all (\<lambda>(t, s). ToolRequiredScope t = s) tool_scope_pairs"
proof -
  have d: "distinct (map fst tool_scope_pairs)" using tool_scope_hashes by (rule distinct_by_hash)
  then have "map_of tool_scope_pairs t = Some s" if "(t, s) \<in> set tool_scope_pairs" for t s
    using that by simp
  then have "ToolRequiredScope t = s" if "(t, s) \<in> set tool_scope_pairs" for t s
    using that switch_pairs [of toolScopes t]
    by (fastforce simp: tool_scope_pairs_def [symmetric] ToolRequiredScope_def split: option.splits)
  then show ?thesis by (auto simp: list_all_iff)
qed

lemma permission_table: "list_all (\<lambda>p. PermissionByID (pm_ID p) = Some p) Permissions"
  by (simp add: list_all_iff PermissionByID_iff)

lemmas tool_permission_rules =
  tool_permission_table [unfolded toolPermission_def toolPermissionGroups_def, simplified]

lemmas tool_scope_rules =
  tool_scope_table [unfolded tool_scope_pairs_def toolScopes_def, simplified]

lemmas permission_rules =
  permission_table [unfolded Permissions_def Services_def service_permissions_def service_defs level_defs, simplified]

definition tool_declared :: "string \<Rightarrow> bool" where
  "tool_declared t \<longleftrightarrow>
     (case PermissionByID (ToolPermission t) of
        None \<Rightarrow> False
      | Some p \<Rightarrow> ToolRequiredScope t \<in> set AllPATScopes \<and> CoversPATScope p (ToolRequiredScope t))"

lemma tools_declared: "list_all tool_declared mcpTools"
  unfolding mcpTools_def
  by (simp add: tool_declared_def tool_permission_rules tool_scope_rules permission_rules CoversPATScope_def AllPATScopes_def)

text \<open>
  The catalogue of rights passes its own check: services and permissions are unique and complete and
  every scope of a token belongs to a permission; and every tool of the MCP server declares a permission
  of the catalogue that covers the scope the server demands for it.
\<close>

theorem catalogue_consistent: "ValidateCatalog = None \<and> list_all tool_declared mcpTools"
proof
  have "validate_permissions [] Permissions = None"
    using permission_ids_distinct by (simp add: validate_permissions_distinct)
  moreover have "validate_scopes Permissions AllPATScopes = None"
    using scopes_covered
    by (auto simp: validate_scopes_def find_None_iff list_all_iff list_ex_iff CoversPATScope_def)
  ultimately show "ValidateCatalog = None" by (simp add: ValidateCatalog_def validate_services_ok)
  show "list_all tool_declared mcpTools"
    by (rule tools_declared)
qed

text \<open>Levels of a service have names of their own, and no level is named like an explicit permission.\<close>

lemma permission_of_level:
  assumes "s \<in> set Services" and "l \<in> set (svc_Levels s)"
  shows "PermissionByID (svc_ID s @ CHR '':'' # lv_ID l) =
     Some \<lparr>pm_ID = svc_ID s @ CHR '':'' # lv_ID l, pm_Service = svc_ID s, pm_Label = lv_Label l, pm_Class = lv_Class l, pm_PAT = lv_PAT l\<rparr>"
  using assms by (auto simp: PermissionByID_iff Permissions_def service_permissions_def)

lemma level_ids_distinct: "s \<in> set Services \<Longrightarrow> distinct (map lv_ID (svc_Levels s))"
proof -
  assume s: "s \<in> set Services"
  have "distinct (map pm_ID (concat (map service_permissions ss))) \<Longrightarrow> s \<in> set ss \<Longrightarrow> distinct (map pm_ID (service_permissions s))" for ss
    by (induction ss) auto
  then have "distinct (map pm_ID (service_permissions s))"
    using s permission_ids_distinct unfolding Permissions_def by blast
  then have "distinct (map (\<lambda>l. svc_ID s @ CHR '':'' # lv_ID l) (svc_Levels s))"
    by (simp add: service_permissions_def comp_def)
  then show "distinct (map lv_ID (svc_Levels s))" by (auto simp: distinct_map inj_on_def)
qed

end
