(* ===== verification/Rbac.thy ===== *)
theory Rbac
  imports Perimeter Rights_Catalog
begin

text \<open>
  The rights of the accounts of the administration server (\<open>internal/admin/rbac\<close>: \<open>team_access.go\<close>,
  \<open>engine.go\<close>, \<open>permissions.go\<close>, \<open>visibility.go\<close>, \<open>nodescope.go\<close>, \<open>access.go\<close> and the guards of
  \<open>rbac.go\<close>). Rights are accesses of teams: a perimeter and a level per service. The tables the queries
  read are a record; the columns that hold JSON hold the decoded value. A query that fails is the
  argument \<open>ok = False\<close>.
\<close>

section \<open>Accesses of teams\<close>

record TeamAccess =
  ta_ID :: string
  ta_TeamID :: string
  ta_Name :: string
  ta_Perimeter :: Perimeter
  ta_Levels :: "(string, string) gomap"
  ta_Permissions :: "string list"

definition maxAccessNameLen :: nat where
  "maxAccessNameLen = 80"

definition notGrantable :: "string list" where
  "notGrantable = [PermGDPRReveal, PermGDPRExport, PermGDPRErase, PermGDPRHold, ''users:write'', ''teams:write'']"

fun index_where :: "('a \<Rightarrow> bool) \<Rightarrow> 'a list \<Rightarrow> nat option" where
  "index_where P [] = None"
| "index_where P (x # xs) = (if P x then Some 0 else map_option Suc (index_where P xs))"

definition levelIndex :: "Service \<Rightarrow> string \<Rightarrow> nat option" where
  "levelIndex s level = index_where (\<lambda>l. lv_ID l = level) (svc_Levels s)"

datatype access_error = NameTooLong | NameControl | PerimeterInvalid perimeter_error | UnknownService string | UnknownLevel string
  | PlatformLevel string | UnknownPermission string | NotExplicit string | NotGrantable string | PermissionRepeated string

definition is_control :: "char \<Rightarrow> bool" where
  "is_control c \<longleftrightarrow> (of_char c :: nat) < 32 \<or> of_char c = (127 :: nat)"

fun validate_levels :: "(string \<times> string) list \<Rightarrow> access_error option" where
  "validate_levels [] = None"
| "validate_levels ((service, level) # ls) =
     (case ServiceByID service of
        None \<Rightarrow> Some (UnknownService service)
      | Some s \<Rightarrow>
          (case levelIndex s level of
             None \<Rightarrow> Some (UnknownLevel service)
           | Some i \<Rightarrow> if lv_Class (svc_Levels s ! i) = ClassPlatform then Some (PlatformLevel service) else validate_levels ls))"

fun validate_explicits :: "string list \<Rightarrow> string list \<Rightarrow> access_error option" where
  "validate_explicits seen [] = None"
| "validate_explicits seen (i # is) =
     (case PermissionByID i of
        None \<Rightarrow> Some (UnknownPermission i)
      | Some p \<Rightarrow>
          if pm_Class p \<noteq> ClassSensitive then Some (NotExplicit i)
          else if i \<in> set notGrantable then Some (NotGrantable i)
          else if i \<in> set seen then Some (PermissionRepeated i)
          else validate_explicits (i # seen) is)"

definition access_Validate :: "regexp \<Rightarrow> TeamAccess \<Rightarrow> access_error option" where
  "access_Validate re a =
     (let name = TrimSpace (ta_Name a)
      in if maxAccessNameLen < length name then Some NameTooLong
         else if list_ex is_control name then Some NameControl
         else (case perimeter_Validate re (ta_Perimeter a) of
                 Some e \<Rightarrow> Some (PerimeterInvalid e)
               | None \<Rightarrow> (case validate_levels (ta_Levels a) of
                            Some e \<Rightarrow> Some e
                          | None \<Rightarrow> validate_explicits [] (ta_Permissions a))))"

definition Grants :: "TeamAccess \<Rightarrow> string \<Rightarrow> bool" where
  "Grants a permission =
     (case PermissionByID permission of
        None \<Rightarrow> False
      | Some p \<Rightarrow>
          if pm_Class p = ClassPlatform then False
          else if pm_Class p = ClassSensitive then permission \<in> set (ta_Permissions a)
          else (case gm_get (ta_Levels a) (pm_Service p) of
                  None \<Rightarrow> False
                | Some chosen \<Rightarrow>
                    (case ServiceByID (pm_Service p) of
                       None \<Rightarrow> False
                     | Some s \<Rightarrow>
                         (case (levelIndex s chosen, levelIndex s (TrimPrefix permission (pm_Service p @ '':''))) of
                            (Some have, Some want) \<Rightarrow> want \<le> have
                          | _ \<Rightarrow> False))))"

definition profile_Access :: "Profile \<Rightarrow> TeamAccess" where
  "profile_Access p =
     \<lparr>ta_ID = [], ta_TeamID = [], ta_Name = pf_Label p,
      ta_Perimeter = \<lparr>pe_Domain = [], pe_Proxy = [], pe_Backend = [],
        pe_Group = \<lparr>gcr_Name = [], gcr_Environment = [], gcr_Region = [], gcr_Tag = []\<rparr>, pe_Labels = []\<rparr>,
      ta_Levels = pf_Levels p, ta_Permissions = pf_Permissions p\<rparr>"

section \<open>Tables\<close>

text \<open>Users with their role, teams, members, accesses with their position, and capabilities of teams.\<close>

record rbac_db =
  rd_users :: "(string, string) gomap"
  rd_teams :: "(string, string) gomap"
  rd_members :: "(string \<times> string) list"
  rd_accesses :: "(TeamAccess \<times> int) list"
  rd_permissions :: "(string \<times> string) list"

definition UserRole :: "rbac_db \<Rightarrow> string \<Rightarrow> string" where
  "UserRole db u = gm_get0 (rd_users db) [] u"

definition user_IsSuperAdmin :: "rbac_db \<Rightarrow> string \<Rightarrow> bool" where
  "user_IsSuperAdmin db u = IsSuperAdminRole (UserRole db u)"

definition user_IsAdmin :: "rbac_db \<Rightarrow> string \<Rightarrow> bool" where
  "user_IsAdmin db u = IsAdminRole (UserRole db u)"

fun insert_by :: "('a \<Rightarrow> 'a \<Rightarrow> bool) \<Rightarrow> 'a \<Rightarrow> 'a list \<Rightarrow> 'a list" where
  "insert_by lt x [] = [x]"
| "insert_by lt x (y # ys) = (if lt y x then y # insert_by lt x ys else x # y # ys)"

definition order_by :: "('a \<Rightarrow> 'a \<Rightarrow> bool) \<Rightarrow> 'a list \<Rightarrow> 'a list" where
  "order_by lt xs = foldr (insert_by lt) xs []"

text \<open>\<open>ORDER BY team_id, position, id\<close>.\<close>

definition access_before :: "TeamAccess \<times> int \<Rightarrow> TeamAccess \<times> int \<Rightarrow> bool" where
  "access_before x y =
     (if ta_TeamID (fst x) \<noteq> ta_TeamID (fst y) then str_less (ta_TeamID (fst x)) (ta_TeamID (fst y))
      else if snd x \<noteq> snd y then snd x < snd y
      else str_less (ta_ID (fst x)) (ta_ID (fst y)))"

definition UserAccesses :: "bool \<Rightarrow> rbac_db \<Rightarrow> string \<Rightarrow> TeamAccess list option" where
  "UserAccesses ok db u =
     (if ok then Some (map fst (order_by access_before
         (concat (map (\<lambda>r. map (\<lambda>m. r) (filter (\<lambda>m. m = (ta_TeamID (fst r), u)) (rd_members db))) (rd_accesses db)))))
      else None)"

definition TeamAccesses :: "bool \<Rightarrow> rbac_db \<Rightarrow> string \<Rightarrow> TeamAccess list option" where
  "TeamAccesses ok db t =
     (if ok then Some (map fst (order_by access_before (filter (\<lambda>r. ta_TeamID (fst r) = t) (rd_accesses db)))) else None)"

definition next_position :: "rbac_db \<Rightarrow> string \<Rightarrow> int" where
  "next_position db t = fold max (map snd (filter (\<lambda>r. ta_TeamID (fst r) = t) (rd_accesses db))) 0 + 1"

text \<open>The identifier is the primary key of the table: inserting a used one fails.\<close>

definition SaveTeamAccess :: "regexp \<Rightarrow> TeamAccess \<Rightarrow> rbac_db \<Rightarrow> (access_error option + unit) \<times> rbac_db" where
  "SaveTeamAccess re a0 db =
     (let a = a0\<lparr>ta_Name := TrimSpace (ta_Name a0)\<rparr>
      in case access_Validate re a of
           Some e \<Rightarrow> (Inl (Some e), db)
         | None \<Rightarrow>
             if list_ex (\<lambda>r. ta_ID (fst r) = ta_ID a \<and> ta_TeamID (fst r) = ta_TeamID a) (rd_accesses db)
             then (Inr (), db\<lparr>rd_accesses := map (\<lambda>r. if ta_ID (fst r) = ta_ID a \<and> ta_TeamID (fst r) = ta_TeamID a then (a, snd r) else r) (rd_accesses db)\<rparr>)
             else if list_ex (\<lambda>r. ta_ID (fst r) = ta_ID a) (rd_accesses db) then (Inl None, db)
             else (Inr (), db\<lparr>rd_accesses := rd_accesses db @ [(a, next_position db (ta_TeamID a))]\<rparr>))"

definition DeleteTeamAccess :: "string \<Rightarrow> string \<Rightarrow> rbac_db \<Rightarrow> bool \<times> rbac_db" where
  "DeleteTeamAccess t i db =
     (list_ex (\<lambda>r. ta_ID (fst r) = i \<and> ta_TeamID (fst r) = t) (rd_accesses db),
      db\<lparr>rd_accesses := filter (\<lambda>r. \<not> (ta_ID (fst r) = i \<and> ta_TeamID (fst r) = t)) (rd_accesses db)\<rparr>)"

section \<open>The engine\<close>

record Filter =
  fl_all :: bool
  fl_perimeters :: "Perimeter list"

definition filter_None :: "Filter \<Rightarrow> bool" where
  "filter_None f \<longleftrightarrow> \<not> fl_all f \<and> fl_perimeters f = []"

definition NeedsGroups :: "Filter \<Rightarrow> bool" where
  "NeedsGroups f = list_ex (\<lambda>p. \<not> criterion_empty (pe_Group p)) (fl_perimeters f)"

definition Allows :: "regexp \<Rightarrow> Filter \<Rightarrow> Resource \<Rightarrow> bool" where
  "Allows re f res = (if fl_all f then True else list_ex (\<lambda>p. perimeter_Matches re p res) (fl_perimeters f))"

definition AllowsRoute :: "regexp \<Rightarrow> Filter \<Rightarrow> Route \<Rightarrow> snapshotGroup list option \<Rightarrow> bool" where
  "AllowsRoute re f r groups =
     (if fl_all f then True
      else Allows re f (RouteResource r (case groups of None \<Rightarrow> [] | Some gs \<Rightarrow> if NeedsGroups f then GroupsServing gs r else [])))"

fun collect_perimeters :: "bool \<Rightarrow> string \<Rightarrow> TeamAccess list \<Rightarrow> Perimeter list \<Rightarrow> Filter" where
  "collect_perimeters platform permission [] ps = \<lparr>fl_all = False, fl_perimeters = ps\<rparr>"
| "collect_perimeters platform permission (a # as) ps =
     (if \<not> Grants a permission then collect_perimeters platform permission as ps
      else if platform \<or> perimeter_empty (ta_Perimeter a) then \<lparr>fl_all = True, fl_perimeters = []\<rparr>
      else collect_perimeters platform permission as (ps @ [ta_Perimeter a]))"

definition platform_service :: "string \<Rightarrow> bool" where
  "platform_service i = (case ServiceByID i of None \<Rightarrow> False | Some s \<Rightarrow> svc_Nature s = NaturePlatform)"

definition FilterFor :: "TeamAccess list \<Rightarrow> string \<Rightarrow> Filter" where
  "FilterFor as permission =
     (case PermissionByID permission of
        None \<Rightarrow> \<lparr>fl_all = False, fl_perimeters = []\<rparr>
      | Some p \<Rightarrow> collect_perimeters (platform_service (pm_Service p)) permission as [])"

definition engine_Scope :: "bool \<Rightarrow> rbac_db \<Rightarrow> string \<Rightarrow> string \<Rightarrow> Filter" where
  "engine_Scope ok db u permission =
     (if user_IsAdmin db u then \<lparr>fl_all = True, fl_perimeters = []\<rparr>
      else (case UserAccesses ok db u of
              None \<Rightarrow> \<lparr>fl_all = False, fl_perimeters = []\<rparr>
            | Some as \<Rightarrow> FilterFor as permission))"

definition Can :: "regexp \<Rightarrow> bool \<Rightarrow> rbac_db \<Rightarrow> string \<Rightarrow> string \<Rightarrow> Resource \<Rightarrow> bool" where
  "Can re ok db u permission res = Allows re (engine_Scope ok db u permission) res"

definition CanRoute :: "regexp \<Rightarrow> bool \<Rightarrow> rbac_db \<Rightarrow> string \<Rightarrow> string \<Rightarrow> Route \<Rightarrow> snapshotGroup list option \<Rightarrow> bool" where
  "CanRoute re ok db u permission r groups = AllowsRoute re (engine_Scope ok db u permission) r groups"

definition canOnRoute :: "regexp \<Rightarrow> string \<Rightarrow> TeamAccess list \<Rightarrow> string \<Rightarrow> Route \<Rightarrow> snapshotGroup list option \<Rightarrow> bool" where
  "canOnRoute re role as permission r groups = (if IsAdminRole role then True else AllowsRoute re (FilterFor as permission) r groups)"

definition userCanOnRoute :: "regexp \<Rightarrow> bool \<Rightarrow> rbac_db \<Rightarrow> string \<Rightarrow> string \<Rightarrow> Route \<Rightarrow> snapshotGroup list option \<Rightarrow> bool" where
  "userCanOnRoute re ok db u permission r groups =
     (if IsAdminRole (UserRole db u) then True
      else (case UserAccesses ok db u of None \<Rightarrow> False | Some as \<Rightarrow> canOnRoute re (UserRole db u) as permission r groups))"

definition CanReadProxy :: "regexp \<Rightarrow> bool \<Rightarrow> rbac_db \<Rightarrow> string \<Rightarrow> Route \<Rightarrow> snapshotGroup list option \<Rightarrow> bool" where
  "CanReadProxy re ok db u r groups = userCanOnRoute re ok db u ''proxies:read'' r groups"

definition CanWriteProxy :: "regexp \<Rightarrow> bool \<Rightarrow> rbac_db \<Rightarrow> string \<Rightarrow> Route \<Rightarrow> snapshotGroup list option \<Rightarrow> bool" where
  "CanWriteProxy re ok db u r groups = userCanOnRoute re ok db u ''proxies:operate'' r groups"

definition CanDeleteProxy :: "regexp \<Rightarrow> bool \<Rightarrow> rbac_db \<Rightarrow> string \<Rightarrow> Route \<Rightarrow> snapshotGroup list option \<Rightarrow> bool" where
  "CanDeleteProxy re ok db u r groups = userCanOnRoute re ok db u ''proxies:manage'' r groups"

definition host_resource :: "string \<Rightarrow> Resource" where
  "host_resource h =
     \<lparr>res_Hosts = [h], res_ProxyID = [], res_ProxyName = [], res_Backends = [], res_Groups = [], res_Labels = []\<rparr>"

definition CanReadDomainWithGrants :: "regexp \<Rightarrow> string \<Rightarrow> TeamAccess list \<Rightarrow> string \<Rightarrow> bool" where
  "CanReadDomainWithGrants re role as domain =
     (if IsAdminRole role then True else Allows re (FilterFor as ''domains:read'') (host_resource domain))"

definition UserHasWriteGrant :: "bool \<Rightarrow> rbac_db \<Rightarrow> string \<Rightarrow> bool" where
  "UserHasWriteGrant ok db u =
     (case UserAccesses ok db u of None \<Rightarrow> False | Some as \<Rightarrow> list_ex (\<lambda>a. Grants a ''proxies:operate'') as)"

end
