(* ===== verification/Rbac_Guards.thy ===== *)
theory Rbac_Guards
  imports Rbac
begin

text \<open>
  What stands on the engine of rights: capabilities (\<open>internal/admin/rbac/permissions.go\<close>), the caller of a
  request and the guards of routes (\<open>visibility.go\<close>, \<open>rbac.go\<close>), visible hosts and groups
  (\<open>visibility.go\<close>, \<open>nodescope.go\<close>), the effective access of an account (\<open>access.go\<close>) and scopes of
  tokens (\<open>pat_scopes.go\<close>). The outcome of a guard is the context the next handler runs in, or the status of
  the refusal.
\<close>

section \<open>Capabilities\<close>

definition KnownPermissions :: "string list" where
  "KnownPermissions = [PermGDPRReveal, PermGDPRExport, PermGDPRErase, PermGDPRHold]"

definition DPOTeamID :: string where
  "DPOTeamID = ''team-dpo''"

definition DPOTeamName :: string where
  "DPOTeamName = ''DPO''"

definition IsKnownPermission :: "string \<Rightarrow> bool" where
  "IsKnownPermission p \<longleftrightarrow> p \<in> set KnownPermissions"

definition IsBuiltInTeam :: "string \<Rightarrow> bool" where
  "IsBuiltInTeam t \<longleftrightarrow> t = DPOTeamID"

text \<open>\<open>INSERT OR IGNORE\<close>: the identifier and the name of a team are unique, and so is a pair of team and capability.\<close>

definition insert_team :: "string \<Rightarrow> string \<Rightarrow> rbac_db \<Rightarrow> rbac_db option" where
  "insert_team i name db =
     (if i \<in> set (gm_keys (rd_teams db)) \<or> name \<in> snd ` set (rd_teams db) then None
      else Some (db\<lparr>rd_teams := rd_teams db @ [(i, name)]\<rparr>))"

definition insert_capability :: "string \<Rightarrow> string \<Rightarrow> rbac_db \<Rightarrow> rbac_db" where
  "insert_capability t p db =
     (if (t, p) \<in> set (rd_permissions db) then db else db\<lparr>rd_permissions := rd_permissions db @ [(t, p)]\<rparr>)"

definition EnsureBuiltInTeams :: "rbac_db \<Rightarrow> rbac_db" where
  "EnsureBuiltInTeams db =
     (let db1 = (case insert_team DPOTeamID DPOTeamName db of None \<Rightarrow> db | Some db' \<Rightarrow> db')
      in if DPOTeamID \<notin> set (gm_keys (rd_teams db1)) then db1
         else fold (insert_capability DPOTeamID) KnownPermissions db1)"

text \<open>A query that fails gives no row.\<close>

definition TeamPermissions :: "bool \<Rightarrow> rbac_db \<Rightarrow> string \<Rightarrow> string list" where
  "TeamPermissions ok db t = (if ok then order_by str_less (map snd (filter (\<lambda>(x, p). x = t) (rd_permissions db))) else [])"

definition joined_permissions :: "rbac_db \<Rightarrow> string \<Rightarrow> string list" where
  "joined_permissions db u = map snd (filter (\<lambda>(t, p). (t, u) \<in> set (rd_members db)) (rd_permissions db))"

definition UserPermissions :: "bool \<Rightarrow> rbac_db \<Rightarrow> string \<Rightarrow> string list" where
  "UserPermissions ok db u =
     (let role = UserRole db u
      in if role = [] then []
         else (let perms = (if ok then joined_permissions db u else []) @ (if IsSuperAdminRole role then KnownPermissions else [])
               in filter (\<lambda>p. p \<in> set perms) KnownPermissions))"

definition HasPermission :: "bool \<Rightarrow> rbac_db \<Rightarrow> string \<Rightarrow> string \<Rightarrow> bool" where
  "HasPermission ok db u p \<longleftrightarrow> p \<in> set (UserPermissions ok db u)"

definition CanExerciseGDPR :: "bool \<Rightarrow> rbac_db \<Rightarrow> string \<Rightarrow> string \<Rightarrow> bool" where
  "CanExerciseGDPR ok db u p =
     (if HasPermission ok db u p then True else (p = PermGDPRExport \<or> p = PermGDPRErase) \<and> user_IsAdmin db u)"

definition IsProtectedAccount :: "bool \<Rightarrow> rbac_db \<Rightarrow> string \<Rightarrow> bool" where
  "IsProtectedAccount ok db u \<longleftrightarrow> user_IsSuperAdmin db u \<or> 0 < length (UserPermissions ok db u)"

definition NormalizePermissions :: "string list \<Rightarrow> string list \<times> bool" where
  "NormalizePermissions perms = (filter (\<lambda>p. p \<in> set perms) KnownPermissions, list_all IsKnownPermission perms)"

section \<open>The caller of a request\<close>

record Caller =
  cl_UserID :: string
  cl_Role :: string
  cl_Accesses :: "TeamAccess list"

text \<open>A nil caller (no guard ran) is \<open>None\<close>.\<close>

definition caller_IsAdmin :: "Caller option \<Rightarrow> bool" where
  "caller_IsAdmin c = (case c of None \<Rightarrow> False | Some c' \<Rightarrow> IsAdminRole (cl_Role c'))"

definition caller_Filter :: "Caller option \<Rightarrow> string \<Rightarrow> Filter" where
  "caller_Filter c permission =
     (case c of
        None \<Rightarrow> \<lparr>fl_all = True, fl_perimeters = []\<rparr>
      | Some c' \<Rightarrow> if IsAdminRole (cl_Role c') then \<lparr>fl_all = True, fl_perimeters = []\<rparr> else FilterFor (cl_Accesses c') permission)"

definition LoadCaller :: "bool \<Rightarrow> rbac_db \<Rightarrow> string \<Rightarrow> Caller option" where
  "LoadCaller ok db u =
     (let role = UserRole db u
      in if IsAdminRole role then Some \<lparr>cl_UserID = u, cl_Role = role, cl_Accesses = []\<rparr>
         else map_option (\<lambda>as. \<lparr>cl_UserID = u, cl_Role = role, cl_Accesses = as\<rparr>) (UserAccesses ok db u))"

definition HasAnyAccess :: "Caller option \<Rightarrow> bool" where
  "HasAnyAccess c =
     (case c of None \<Rightarrow> False | Some c' \<Rightarrow> list_ex (\<lambda>a. 0 < length (ta_Levels a) \<or> 0 < length (ta_Permissions a)) (cl_Accesses c'))"

record request =
  rq_Method :: string
  rq_Path :: string

datatype 'c outcome = Next 'c | Refused nat

definition perimeterAwareServices :: "string list" where
  "perimeterAwareServices = [''surface'', ''netsec'', ''engines'', ''portal_requests'', ''portal_sessions'', ''portal_recordings'',
     ''portal_catalog'', ''portal_users'', ''portal_policies'', ''portal_audit'', ''portal_templates'']"

definition perimeterAware :: "string \<Rightarrow> bool" where
  "perimeterAware permission =
     (case PermissionByID permission of None \<Rightarrow> False | Some p \<Rightarrow> pm_Service p \<in> set perimeterAwareServices)"

definition Gate :: "(request \<Rightarrow> string \<times> bool) \<Rightarrow> bool \<Rightarrow> rbac_db \<Rightarrow> string \<Rightarrow> request \<Rightarrow> Caller outcome" where
  "Gate resolve ok db u r =
     (case LoadCaller ok db u of
        None \<Rightarrow> Refused 403
      | Some c \<Rightarrow>
          if caller_IsAdmin (Some c) then Next c
          else (case resolve r of
                  (permission, gated) \<Rightarrow> if gated \<and> filter_None (caller_Filter (Some c) permission) then Refused 403 else Next c))"

definition GateUnrestricted :: "(request \<Rightarrow> string \<times> bool) \<Rightarrow> bool \<Rightarrow> rbac_db \<Rightarrow> string \<Rightarrow> request \<Rightarrow> Caller outcome" where
  "GateUnrestricted resolve ok db u r =
     (case LoadCaller ok db u of
        None \<Rightarrow> Refused 403
      | Some c \<Rightarrow>
          if caller_IsAdmin (Some c) then Next c
          else (case resolve r of
                  (permission, gated) \<Rightarrow>
                    if gated then
                      (let f = caller_Filter (Some c) permission
                       in if \<not> fl_all f \<and> \<not> (perimeterAware permission \<and> \<not> filter_None f) then Refused 403 else Next c)
                    else Next c))"

definition GateMemberReads :: "bool \<Rightarrow> rbac_db \<Rightarrow> string \<Rightarrow> request \<Rightarrow> Caller outcome" where
  "GateMemberReads ok db u r =
     (case LoadCaller ok db u of
        None \<Rightarrow> Refused 403
      | Some c \<Rightarrow>
          if (rq_Method r = ''GET'' \<or> rq_Method r = ''HEAD'') \<and> \<not> caller_IsAdmin (Some c) \<and> \<not> HasAnyAccess (Some c) then Refused 403
          else Next c)"

definition RequireAdmin :: "rbac_db \<Rightarrow> string \<Rightarrow> request \<Rightarrow> unit outcome" where
  "RequireAdmin db u r = (if \<not> user_IsAdmin db u then Refused 403 else Next ())"

definition RequireSuperAdmin :: "rbac_db \<Rightarrow> string \<Rightarrow> request \<Rightarrow> unit outcome" where
  "RequireSuperAdmin db u r = (if \<not> user_IsSuperAdmin db u then Refused 403 else Next ())"

definition RequireOperator :: "bool \<Rightarrow> rbac_db \<Rightarrow> string \<Rightarrow> request \<Rightarrow> unit outcome" where
  "RequireOperator ok db u r = (if user_IsAdmin db u \<or> UserHasWriteGrant ok db u then Next () else Refused 403)"

definition writesOnly :: "(request \<Rightarrow> unit outcome) \<Rightarrow> request \<Rightarrow> unit outcome" where
  "writesOnly guard r = (if rq_Method r = ''GET'' then Next () else guard r)"

definition RequireAdminForWrites :: "rbac_db \<Rightarrow> string \<Rightarrow> request \<Rightarrow> unit outcome" where
  "RequireAdminForWrites db u r = writesOnly (RequireAdmin db u) r"

definition RequireOperatorForWrites :: "bool \<Rightarrow> rbac_db \<Rightarrow> string \<Rightarrow> request \<Rightarrow> unit outcome" where
  "RequireOperatorForWrites ok db u r = writesOnly (RequireOperator ok db u) r"

section \<open>Visible hosts\<close>

record Visibility =
  vi_filter :: Filter
  vi_covered :: "string list"
  vi_patterns :: "string list"

definition only_domain :: "Perimeter \<Rightarrow> bool" where
  "only_domain p \<longleftrightarrow> pe_Domain p \<noteq> [] \<and> pe_Proxy p = [] \<and> pe_Backend p = [] \<and> criterion_empty (pe_Group p) \<and> pe_Labels p = []"

definition NewVisibility :: "regexp \<Rightarrow> Filter \<Rightarrow> Route list \<Rightarrow> snapshotGroup list option \<Rightarrow> Visibility" where
  "NewVisibility re f routes groups =
     (if fl_all f then \<lparr>vi_filter = f, vi_covered = [], vi_patterns = []\<rparr>
      else \<lparr>vi_filter = f,
            vi_covered = concat (map (\<lambda>r. if AllowsRoute re f r groups then map ToLower (route_hosts r) else []) routes),
            vi_patterns = map (\<lambda>p. ToLower (pe_Domain p)) (filter only_domain (fl_perimeters f))\<rparr>)"

definition vis_Host :: "Visibility \<Rightarrow> string \<Rightarrow> bool" where
  "vis_Host v host0 =
     (if fl_all (vi_filter v) then True
      else (let host = ToLower (TrimSpace host0)
            in if host = [] then False
               else if host \<in> set (vi_covered v) then True
               else list_ex (\<lambda>p. hostMatchesDomainScope p host) (vi_patterns v)))"

definition vis_Hosts :: "Visibility \<Rightarrow> string list" where
  "vis_Hosts v = order_by str_less (remdups (vi_covered v))"

definition vis_CertName :: "Visibility \<Rightarrow> string \<Rightarrow> bool" where
  "vis_CertName v name0 =
     (if fl_all (vi_filter v) then True
      else (let name = ToLower (TrimSpace name0)
            in if name = [] then False
               else if vis_Host v name \<or> vis_Host v (TrimPrefix name ''*.'') then True
               else if list_ex (\<lambda>h. HostCoveredByPattern h name) (vi_covered v) then True
               else name \<in> set (vi_patterns v)))"

definition vis_Pattern :: "Visibility \<Rightarrow> string \<Rightarrow> bool" where
  "vis_Pattern v glob0 =
     (if fl_all (vi_filter v) then True
      else (let glob = ToLower (TrimSpace glob0)
            in if glob = [] then False
               else list_ex (\<lambda>p. p = glob \<or> HasPrefix p ''*.'' \<and> HasSuffix glob (drop 1 p)) (vi_patterns v)
                    \<or> \<not> Contains glob CHR ''*'' \<and> vis_Host v glob))"

text \<open>
  The routes a perimeter is resolved with are read again after ten seconds; a failed reading keeps the old
  ones. \<open>answer\<close> is what the source would give; a source not set gives none.
\<close>

record route_source =
  rso_set :: bool
  rso_cached :: "Route list option"
  rso_fetched :: go_time

definition routeSourceTTL :: go_duration where
  "routeSourceTTL = 10 * 10 ^ 9"

definition SetRouteSource :: "route_source \<Rightarrow> route_source" where
  "SetRouteSource s = s\<lparr>rso_set := True, rso_cached := None\<rparr>"

definition currentRoutes :: "go_time \<Rightarrow> Route list option \<Rightarrow> route_source \<Rightarrow> Route list \<times> route_source" where
  "currentRoutes now answer s =
     (if \<not> rso_set s then ([], s)
      else (let s' = (if rso_cached s = None \<or> routeSourceTTL < time_sub now (rso_fetched s) then
                        (case answer of None \<Rightarrow> s | Some rs \<Rightarrow> s\<lparr>rso_cached := Some rs, rso_fetched := now\<rparr>)
                      else s)
            in (case rso_cached s' of None \<Rightarrow> [] | Some rs \<Rightarrow> rs, s')))"

definition VisibilityFor :: "regexp \<Rightarrow> Caller option \<Rightarrow> string \<Rightarrow> Route list \<Rightarrow> snapshotGroup list option \<Rightarrow> Visibility" where
  "VisibilityFor re c permission routes groups = NewVisibility re (caller_Filter c permission) routes groups"

section \<open>Visible groups of gateways\<close>

record NodeScope =
  nds_all :: bool
  nds_groups :: "string list"
  nds_infra :: Filter
  nds_source :: "arch_store option"

definition whole_topology :: NodeScope where
  "whole_topology = \<lparr>nds_all = True, nds_groups = [], nds_infra = \<lparr>fl_all = False, fl_perimeters = []\<rparr>, nds_source = None\<rparr>"

definition serving_names :: "regexp \<Rightarrow> Filter \<Rightarrow> Route list \<Rightarrow> snapshotGroup list \<Rightarrow> string list" where
  "serving_names re f routes gs =
     concat (map (\<lambda>r. if AllowsRoute re f r (Some gs) then map grf_Name (GroupsServing gs r) else []) routes)"

definition NodeScopeFor :: "regexp \<Rightarrow> Caller option \<Rightarrow> Route list \<Rightarrow> snapshotGroup list option \<Rightarrow> arch_store option \<Rightarrow> NodeScope" where
  "NodeScopeFor re c routes groups source =
     (if c = None \<or> caller_IsAdmin c then whole_topology
      else (let infra = caller_Filter c ''infra:read''
            in if fl_all infra then whole_topology
               else \<lparr>nds_all = False,
                     nds_groups = (case groups of
                        None \<Rightarrow> []
                      | Some gs \<Rightarrow> concat (map (\<lambda>permission.
                          (let f = caller_Filter c permission in if filter_None f then [] else serving_names re f routes gs))
                          [''proxies:read'', ''containers:read'', ''logs:read'', ''dashboard:read''])),
                     nds_infra = infra, nds_source = source\<rparr>))"

definition NodeScopeForPermission ::
  "regexp \<Rightarrow> Caller option \<Rightarrow> string \<Rightarrow> Route list \<Rightarrow> snapshotGroup list option \<Rightarrow> arch_store option \<Rightarrow> NodeScope" where
  "NodeScopeForPermission re c permission routes groups source =
     (if c = None \<or> caller_IsAdmin c then whole_topology
      else (let f = caller_Filter c permission
            in if fl_all f then whole_topology
               else \<lparr>nds_all = False,
                     nds_groups = (case groups of None \<Rightarrow> [] | Some gs \<Rightarrow> if filter_None f then [] else serving_names re f routes gs),
                     nds_infra = f, nds_source = source\<rparr>))"

definition group_resource :: "GroupRef \<Rightarrow> Resource" where
  "group_resource g = \<lparr>res_Hosts = [], res_ProxyID = [], res_ProxyName = [], res_Backends = [], res_Groups = [g], res_Labels = []\<rparr>"

definition nds_Group :: "regexp \<Rightarrow> NodeScope \<Rightarrow> GroupRef \<Rightarrow> bool" where
  "nds_Group re n g =
     (if nds_all n then True else grf_Name g \<in> set (nds_groups n) \<or> Allows re (nds_infra n) (group_resource g))"

definition nds_Edge :: "regexp \<Rightarrow> NodeScope \<Rightarrow> string \<Rightarrow> bool" where
  "nds_Edge re n ref =
     (if nds_all n then True
      else if ref = [] then False
      else (case nds_source n of
              None \<Rightarrow> False
            | Some s \<Rightarrow> (case GroupOfNode s ref of None \<Rightarrow> False | Some g \<Rightarrow> nds_Group re n g)))"

definition nds_GroupNamed :: "regexp \<Rightarrow> NodeScope \<Rightarrow> string \<Rightarrow> bool" where
  "nds_GroupNamed re n name =
     (if nds_all n then True
      else if name \<in> set (nds_groups n) then True
      else (case nds_source n of
              None \<Rightarrow> False
            | Some s \<Rightarrow>
                (let t = GroupAttributesOf name s
                 in Allows re (nds_infra n)
                      (group_resource \<lparr>grf_Name = name, grf_Environment = gat_Environment t, grf_Region = gat_Region t, grf_Tags = gat_Tags t\<rparr>))))"

section \<open>Effective access of an account\<close>

record AccessTeam =
  atm_ID :: string
  atm_Name :: string
  atm_Builtin :: bool
  atm_Accesses :: "TeamAccess list"
  atm_Permissions :: "string list"

record AccessPermission =
  apm_Permission :: string
  apm_ViaRole :: string
  apm_ViaTeams :: "string list"

record Access =
  acc_Role :: string
  acc_Global :: bool
  acc_Teams :: "AccessTeam list"
  acc_Permissions :: "AccessPermission list"
  acc_Granted :: "string list"

definition teams_of :: "rbac_db \<Rightarrow> string \<Rightarrow> (string \<times> string) list" where
  "teams_of db u =
     order_by (\<lambda>a b. str_less (snd a) (snd b))
       (concat (map (\<lambda>(t, x). if x = u then filter (\<lambda>(i, name). i = t) (rd_teams db) else []) (rd_members db)))"

definition access_team :: "rbac_db \<Rightarrow> string \<times> string \<Rightarrow> AccessTeam" where
  "access_team db t =
     \<lparr>atm_ID = fst t, atm_Name = snd t, atm_Builtin = IsBuiltInTeam (fst t),
      atm_Accesses = (case TeamAccesses True db (fst t) of None \<Rightarrow> [] | Some as \<Rightarrow> as),
      atm_Permissions = TeamPermissions True db (fst t)\<rparr>"

definition via_role :: "string \<Rightarrow> string \<Rightarrow> string" where
  "via_role role p =
     (if IsSuperAdminRole role then ''superadmin''
      else if IsAdminRole role \<and> (p = PermGDPRExport \<or> p = PermGDPRErase) then ''admin'' else [])"

text \<open>With queries that succeed.\<close>

definition EffectiveAccess :: "rbac_db \<Rightarrow> string \<Rightarrow> Access" where
  "EffectiveAccess db u =
     (let role = UserRole db u;
          teams = map (access_team db) (teams_of db u);
          as = concat (map atm_Accesses teams);
          via = (\<lambda>p. map atm_Name (filter (\<lambda>t. p \<in> set (atm_Permissions t)) teams))
      in \<lparr>acc_Role = role, acc_Global = IsAdminRole role, acc_Teams = teams,
          acc_Permissions = filter (\<lambda>a. apm_ViaRole a \<noteq> [] \<or> 0 < length (apm_ViaTeams a))
            (map (\<lambda>p. \<lparr>apm_Permission = p, apm_ViaRole = via_role role p, apm_ViaTeams = via p\<rparr>) KnownPermissions),
          acc_Granted = (if IsAdminRole role then []
                         else map pm_ID (filter (\<lambda>p. list_ex (\<lambda>a. Grants a (pm_ID p)) as) Permissions))\<rparr>)"

section \<open>Scopes of the tokens of accounts\<close>

definition admin_scopes :: "string list" where
  "admin_scopes =
     [ScopeProxiesRead, ScopeNodesRead, ScopeAlertsRead, ScopeMetricsRead, ScopeBackupsRead, ScopeSnippetsRead,
      ScopeDomainsRead, ScopeCertsRead, ScopeLogsRead, ScopeAuditRead,
      ScopeProxiesWrite, ScopeProxiesDelete, ScopeSnippetsWrite, ScopeUsersRead, ScopeTeamsRead, ScopeNodesWrite,
      ScopeAlertsWrite, ScopeDomainsWrite, ScopeCertsWrite, ScopeLogsWrite, ScopeSecurityWrite, ScopeImportWrite,
      ScopePairingRead, ScopePortalRead, ScopePortalWrite]"

definition add_scopes :: "string list \<Rightarrow> string list \<Rightarrow> string list" where
  "add_scopes = fold (\<lambda>scope out. if scope \<in> set out then out else out @ [scope])"

definition AvailableScopesForUser :: "bool \<Rightarrow> rbac_db \<Rightarrow> string \<Rightarrow> string list" where
  "AvailableScopesForUser ok db u =
     (let role = UserRole db u
      in if role = [] then []
         else (if IsAdminRole role then admin_scopes
               else (let as = (case UserAccesses ok db u of None \<Rightarrow> [] | Some as \<Rightarrow> as)
                     in fold (\<lambda>p out. if list_ex (\<lambda>a. Grants a (pm_ID p)) as then add_scopes (pm_PAT p) out else out) Permissions []))
              @ filter (CanExerciseGDPR ok db u) [ScopeGDPRReveal, ScopeGDPRExport, ScopeGDPRErase])"

definition UserCanHoldScope :: "bool \<Rightarrow> rbac_db \<Rightarrow> string \<Rightarrow> string \<Rightarrow> bool" where
  "UserCanHoldScope ok db u scope \<longleftrightarrow> list_ex (\<lambda>s. s = scope) (AvailableScopesForUser ok db u)"

text \<open>What the authentication put into the context of the request.\<close>

record auth_context =
  au_UserID :: string
  au_Kind :: string
  au_PATID :: string
  au_PATScopes :: "string list"

definition IsPATAuth :: "auth_context \<Rightarrow> bool" where
  "IsPATAuth c \<longleftrightarrow> au_Kind c = ''pat''"

definition EffectiveHasScope :: "bool \<Rightarrow> rbac_db \<Rightarrow> auth_context \<Rightarrow> string \<Rightarrow> bool" where
  "EffectiveHasScope ok db c scope =
     (if au_UserID c = [] \<or> \<not> UserCanHoldScope ok db (au_UserID c) scope then False
      else if \<not> IsPATAuth c then True
      else list_ex (\<lambda>s. s = scope) (au_PATScopes c))"

text \<open>The cases of \<open>RequiredScopeForRequest\<close> in their order: prefixes, scope of a reading, scope of another method.\<close>

definition scope_cases :: "(string list \<times> string \<times> string) list" where
  "scope_cases =
     [([''/api/v1/nodes'', ''/api/v1/declared-nodes'', ''/api/v1/bootstrap-tickets'', ''/api/v1/hosts'', ''/api/v1/node-events'',
        ''/api/v1/discovered-containers'', ''/api/v1/backends/health'', ''/api/v1/discovery-sources'', ''/api/v1/agents''],
       ScopeNodesRead, ScopeNodesWrite),
      ([''/api/v1/alert''], ScopeAlertsRead, ScopeAlertsWrite),
      ([''/api/v1/prism'', ''/api/v1/metrics/proxies'', ''/api/v1/metrics/summary''], ScopeMetricsRead, ScopeMetricsRead),
      ([''/api/v1/backups''], ScopeBackupsRead, ScopeBackupsRead),
      ([''/api/v1/users''], ScopeUsersRead, ScopeUsersRead),
      ([''/api/v1/snippets'', ''/api/v1/detector-types''], ScopeSnippetsRead, ScopeSnippetsWrite),
      ([''/api/v1/domains''], ScopeDomainsRead, ScopeDomainsWrite),
      ([''/api/v1/certs'', ''/api/v1/cert-deploy-types'', ''/api/v1/acme/'', ''/api/v1/internal-ca'', ''/api/v1/ech''],
       ScopeCertsRead, ScopeCertsWrite),
      ([''/api/v1/logs/reveal-ip''], ScopeGDPRReveal, ScopeGDPRReveal),
      ([''/api/v1/logs/subject-export''], ScopeGDPRExport, ScopeGDPRExport),
      ([''/api/v1/logs/by-ip/'', ''/api/v1/logs/by-user/''], ScopeGDPRErase, ScopeGDPRErase),
      ([''/api/v1/logs''], ScopeLogsRead, ScopeLogsWrite),
      ([''/api/v1/teams'', ''/api/v1/rights''], ScopeTeamsRead, ScopeTeamsRead),
      ([''/api/v1/audit''], ScopeAuditRead, ScopeAuditRead),
      ([''/api/v1/tokens''], ScopeUsersRead, ScopeUsersRead),
      ([''/api/v1/security'', ''/api/v1/ip-profiles'', ''/api/v1/auth-provider'', ''/api/v1/plugins'', ''/api/v1/plugin-keys'',
        ''/api/v1/plugin-repos'', ''/api/v1/automation''], ScopeAuditRead, ScopeSecurityWrite),
      ([''/api/v1/import''], ScopeAuditRead, ScopeImportWrite)]"

definition RequiredScopeForRequest :: "request \<Rightarrow> string" where
  "RequiredScopeForRequest r =
     (let path = rq_Path r; method = rq_Method r
      in if HasPrefix path ''/api/v1/me'' then []
         else if HasPrefix path ''/api/v1/auth/'' then []
         else if HasPrefix path ''/api/v1/settings/mfa'' then []
         else if path = ''/api/v1/pairing-secret'' then ScopePairingRead
         else if method = ''PUT'' \<and> path = ''/api/v1/discovered-containers/enabled'' then ScopeProxiesWrite
         else if HasPrefix path ''/api/v1/proxies'' then
           (if method = ''GET'' then ScopeProxiesRead else if method = ''DELETE'' then ScopeProxiesDelete else ScopeProxiesWrite)
         else (case find (\<lambda>(ps, rd, wr). list_ex (HasPrefix path) ps) scope_cases of
                 Some (ps, rd, wr) \<Rightarrow> if method = ''GET'' then rd else wr
               | None \<Rightarrow>
                   if HasPrefix path ''/api/v1/portal/recordings/''
                      \<or> HasPrefix path ''/api/v1/portal/sessions/'' \<and> HasSuffix path ''/watch'' then ScopePortalWrite
                   else if HasPrefix path ''/api/v1/portal'' \<or> HasPrefix path ''/api/v1/portal-page-templates'' then
                     (if method = ''GET'' then ScopePortalRead else ScopePortalWrite)
                   else []))"

definition EnforcePATScope :: "bool \<Rightarrow> rbac_db \<Rightarrow> auth_context \<Rightarrow> request \<Rightarrow> unit outcome" where
  "EnforcePATScope ok db c r =
     (if \<not> IsPATAuth c then Next ()
      else (let required = RequiredScopeForRequest r
            in if required = [] then Next ()
               else if \<not> EffectiveHasScope ok db c required then Refused 403
               else Next ()))"

end
