(* ===== verification/Rights_Gate.thy ===== *)
theory Rights_Gate
  imports Rbac_Guards
begin

text \<open>
  The permission each request of the administration server needs (\<open>internal/admin/rights_gate.go\<close>), the
  guards around the handlers and the routes they are registered for (\<open>server.go\<close>), and the declarations of
  rights of those routes (\<open>rights.go\<close>). A pattern of a route is a pair of a method (empty for all) and a path.
\<close>

section \<open>Permissions of requests\<close>

definition under :: "string \<Rightarrow> string \<Rightarrow> bool" where
  "under path pre \<longleftrightarrow> path = pre \<or> HasPrefix path (pre @ ''/'')"

definition isRead :: "request \<Rightarrow> bool" where
  "isRead r \<longleftrightarrow> rq_Method r = ''GET'' \<or> rq_Method r = ''HEAD''"

definition has_sub :: "string \<Rightarrow> string \<Rightarrow> bool" where
  "has_sub s sub \<longleftrightarrow> list_ex (\<lambda>i. HasPrefix (drop i s) sub) [0..<Suc (length s)]"

fun split_str :: "char \<Rightarrow> string \<Rightarrow> string list" where
  "split_str d [] = [[]]"
| "split_str d (c # cs) = (if c = d then [] # split_str d cs else (case split_str d cs of p # ps \<Rightarrow> (c # p) # ps | [] \<Rightarrow> [[c]]))"

definition trim_slashes :: "string \<Rightarrow> string" where
  "trim_slashes s = rev (dropWhile (\<lambda>c. c = CHR ''/'') (rev (dropWhile (\<lambda>c. c = CHR ''/'') s)))"

definition pathParts :: "request \<Rightarrow> string \<Rightarrow> string list" where
  "pathParts r pre =
     (let rest = trim_slashes (TrimPrefix (rq_Path r) pre) in if rest = [] then [] else split_str CHR ''/'' rest)"

definition readOrManage :: "request \<Rightarrow> string \<Rightarrow> string \<Rightarrow> string \<times> bool" where
  "readOrManage r rd manage = (if isRead r then (rd, True) else (manage, True))"

definition unmapped :: "string \<times> bool" where
  "unmapped = (''unmapped'', True)"

definition rest_of :: "string \<Rightarrow> string \<Rightarrow> string" where
  "rest_of path pre = TrimPrefix (TrimPrefix path pre) ''/''"

definition readPermission :: "request \<Rightarrow> string \<times> bool" where
  "readPermission r =
     (if \<not> isRead r then ([], False)
      else (let path = TrimSuffix (rq_Path r) ''/''
            in if under path ''/api/v1/logs'' then
                 (let rest = rest_of path ''/api/v1/logs''
                  in if rest \<in> set [[], ''facets'', ''histogram'', ''live'', ''correlate''] then (''logs:read'', True)
                     else if rest = ''export'' then (''logs:export'', True)
                     else if rest = ''settings'' then (''logs_settings:read'', True)
                     else unmapped)
               else if under path ''/api/v1/certs'' then
                 (let rest = rest_of path ''/api/v1/certs''
                  in if rest = [] \<or> rest = ''acme-monitor'' \<or> HasSuffix rest ''/pem'' then (''certs:read'', True)
                     else if has_sub rest ''/deploy-targets'' \<or> has_sub rest ''/pull-tokens'' then (''certs:deploy'', True)
                     else unmapped)
               else if under path ''/api/v1/cert-deploy-types'' then (''certs:read'', True)
               else if under path ''/api/v1/alert-events'' \<or> under path ''/api/v1/alert-rules'' then (''alerts:read'', True)
               else if under path ''/api/v1/alert-channels'' \<or> under path ''/api/v1/alert-channel-types'' then (''alert_channels:read'', True)
               else if under path ''/api/v1/metrics'' \<or> under path ''/api/v1/prism'' then (''dashboard:read'', True)
               else if under path ''/api/v1/audit'' then (''audit:read'', True)
               else if under path ''/api/v1/snippets'' \<or> under path ''/api/v1/detector-types'' then (''snippets:read'', True)
               else if under path ''/api/v1/ip-profiles'' then (''ip_profiles:read'', True)
               else unmapped))"

definition operatePermission :: "request \<Rightarrow> string \<times> bool" where
  "operatePermission r =
     (let path = TrimSuffix (rq_Path r) ''/''; rd = isRead r
      in if under path ''/api/v1/alert-events'' then
           (if rd then (''alerts:read'', True)
            else if rq_Method r = ''POST'' \<and> HasSuffix path ''/ack'' then (''alerts:ack'', True)
            else unmapped)
         else if under path ''/api/v1/alert-rules'' then (if rd then (''alerts:read'', True) else (''alerts:rules'', True))
         else if under path ''/api/v1/alert-channels'' then
           (if rd then (''alert_channels:read'', True)
            else if rq_Method r = ''POST'' \<and> HasSuffix path ''/test'' then (''alert_channels:test'', True)
            else (''alert_channels:manage'', True))
         else if under path ''/api/v1/alert-channel-types'' then (if rd then (''alert_channels:read'', True) else unmapped)
         else if under path ''/api/v1/certs'' then
           (let rest = rest_of path ''/api/v1/certs''; segments = split_str CHR ''/'' rest
            in if 2 \<le> length segments \<and> segments ! 1 = ''pull-tokens'' then (''certs:export_key'', True)
               else if 2 \<le> length segments \<and> segments ! 1 = ''deploy-targets'' then (''certs:deploy'', True)
               else if rd then readPermission r
               else if rest = [] \<or> rest = ''import'' \<or> rq_Method r = ''DELETE'' \<and> \<not> Contains rest CHR ''/'' then (''certs:manage'', True)
               else unmapped)
         else if under path ''/api/v1/domains'' then (if rd then (''domains:read'', True) else (''domains:manage'', True))
         else unmapped)"

definition portalPermission :: "request \<Rightarrow> string \<times> bool" where
  "portalPermission r =
     (if HasPrefix (rq_Path r) ''/api/v1/portal-page-templates'' then readOrManage r ''portal_templates:read'' ''portal_templates:manage''
      else (let parts = pathParts r ''/api/v1/portal''
            in if parts = [] then readOrManage r ''portal_templates:read'' ''portal_templates:manage''
               else if hd parts \<in> set [''users'', ''groups''] then readOrManage r ''portal_users:read'' ''portal_users:manage''
               else if hd parts \<in> set [''destinations'', ''destination-groups''] then readOrManage r ''portal_catalog:read'' ''portal_catalog:manage''
               else if hd parts = ''policy'' then readOrManage r ''portal_policies:read'' ''portal_policies:manage''
               else if hd parts = ''audit'' then (if isRead r then (''portal_audit:read'', True) else unmapped)
               else if hd parts = ''access-requests'' then readOrManage r ''portal_requests:read'' ''portal_requests:decide''
               else if hd parts = ''recordings'' then
                 (if rq_Method r = ''DELETE'' then (''portal_recordings:delete'', True)
                  else if isRead r \<and> length parts = 1 then (''portal_recordings:list'', True)
                  else if isRead r then (''portal_recordings:replay'', True)
                  else unmapped)
               else if hd parts = ''sessions'' then
                 (if isRead r \<and> 3 \<le> length parts \<and> last parts = ''watch'' then (''portal_sessions:observe'', True)
                  else if isRead r then (''portal_sessions:read'', True)
                  else (''portal_sessions:cut'', True))
               else if hd parts \<in> set [''enabled'', ''push'', ''config''] then readOrManage r ''portal_templates:read'' ''portal_templates:manage''
               else unmapped))"

definition securityPermission :: "request \<Rightarrow> string \<times> bool" where
  "securityPermission r =
     (let parts = pathParts r ''/api/v1/security''
      in if parts = [] then readOrManage r ''netsec:read'' ''unmapped''
         else if hd parts \<in> set [''overview'', ''threats'', ''cves'', ''headers'', ''timeline'', ''ip-timeline''] then
           (if isRead r then (''netsec:read'', True)
            else if hd parts = ''cves'' \<and> rq_Method r = ''PATCH'' then (''netsec:respond'', True)
            else unmapped)
         else if hd parts = ''ip-trace'' then (if isRead r then (''netsec:analyse'', True) else unmapped)
         else if hd parts = ''waf-config'' then readOrManage r ''engines:read'' ''engines:tune''
         else if hd parts = ''threat-config'' then
           (if length parts = 1 then readOrManage r ''engines:read'' ''engines:tune''
            else if parts ! 1 = ''suggestions'' \<and> isRead r then (''engines:read'', True)
            else if (parts ! 1 = ''simulate'' \<or> parts ! 1 = ''calibrate'') \<and> rq_Method r = ''POST'' then (''engines:simulate'', True)
            else unmapped)
         else if hd parts = ''threat-references'' then (if isRead r then (''engines:read'', True) else unmapped)
         else if hd parts = ''surface'' then
           (if isRead r then (''surface:read'', True)
            else if length parts = 2 \<and> parts ! 1 \<in> set [''accept'', ''relax'', ''reset''] then (''surface:learn'', True)
            else if length parts = 2 \<and> parts ! 1 = ''enforce'' then (''surface:enforce'', True)
            else unmapped)
         else if hd parts = ''vulnscan'' then (if length parts = 1 then readOrManage r ''netsec:read'' ''netsec:analyse'' else unmapped)
         else if hd parts = ''asn'' then readOrManage r ''netsec:read'' ''netsec:respond''
         else if hd parts = ''bans'' then
           (if 2 \<le> length parts \<and> parts ! 1 = ''import'' \<and> rq_Method r = ''POST'' then (''bans:import'', True)
            else if isRead r then (''netsec:read'', True)
            else (''netsec:respond'', True))
         else unmapped)"

definition automationPermission :: "request \<Rightarrow> string \<times> bool" where
  "automationPermission r =
     (let parts = pathParts r ''/api/v1/automation''
      in if isRead r then
           (if 0 < length parts \<and> hd parts \<in> set [''flows'', ''runs'', ''catalog'', ''options'', ''templates'', ''silences'', ''stats'', ''export'']
            then (''automation:read'', True) else unmapped)
         else if parts = [] then unmapped
         else if hd parts = ''flows'' then
           (if length parts = 3 \<and> parts ! 2 = ''run'' then (''automation:run'', True) else (''automation:edit'', True))
         else if hd parts = ''runs'' then
           (if length parts = 3 \<and> parts ! 2 \<in> set [''approve'', ''reject''] then (''automation:approve'', True)
            else if length parts = 3 \<and> parts ! 2 \<in> set [''cancel'', ''replay''] then (''automation:run'', True)
            else unmapped)
         else if hd parts \<in> set [''simulate'', ''templates'', ''silences'', ''import''] then (''automation:edit'', True)
         else unmapped)"

section \<open>Guards of the routes\<close>

datatype permission_table = PortalTable | SecurityTable | AutomationTable

fun table_permission :: "permission_table \<Rightarrow> request \<Rightarrow> string \<times> bool" where
  "table_permission PortalTable = portalPermission"
| "table_permission SecurityTable = securityPermission"
| "table_permission AutomationTable = automationPermission"

datatype wrapper = Unprotected | BearerToken | OnlyPAT | Protected | AdminOnly | AdminWrites | GatedReads | GatedOpen
  | GatedOperate | GatedOperatorReads | MemberReads | GatedAll permission_table

definition after :: "'a outcome \<Rightarrow> 'b outcome \<Rightarrow> 'b outcome" where
  "after a b = (case a of Refused s \<Rightarrow> Refused s | Next x \<Rightarrow> b)"

definition then_Next :: "'a outcome \<Rightarrow> unit outcome" where
  "then_Next a = (case a of Refused s \<Rightarrow> Refused s | Next x \<Rightarrow> Next ())"

text \<open>The guard behind authentication and the check of the scopes of a token.\<close>

fun inner_guard :: "wrapper \<Rightarrow> bool \<Rightarrow> rbac_db \<Rightarrow> string \<Rightarrow> request \<Rightarrow> unit outcome" where
  "inner_guard AdminOnly ok db u r = RequireAdmin db u r"
| "inner_guard AdminWrites ok db u r = RequireAdminForWrites db u r"
| "inner_guard GatedReads ok db u r = after (Gate readPermission ok db u r) (RequireAdminForWrites db u r)"
| "inner_guard GatedOpen ok db u r = then_Next (Gate readPermission ok db u r)"
| "inner_guard GatedOperate ok db u r = then_Next (Gate operatePermission ok db u r)"
| "inner_guard GatedOperatorReads ok db u r = after (Gate readPermission ok db u r) (RequireOperatorForWrites ok db u r)"
| "inner_guard MemberReads ok db u r = then_Next (GateMemberReads ok db u r)"
| "inner_guard (GatedAll t) ok db u r = then_Next (GateUnrestricted (table_permission t) ok db u r)"
| "inner_guard w ok db u r = Next ()"

definition user_guarded :: "wrapper \<Rightarrow> bool" where
  "user_guarded w \<longleftrightarrow> w \<notin> {Unprotected, BearerToken, OnlyPAT}"

text \<open>\<open>protected\<close>: authentication (its result is \<open>c\<close>), scopes of a token, then the guard.\<close>

definition protected :: "wrapper \<Rightarrow> bool \<Rightarrow> rbac_db \<Rightarrow> auth_context option \<Rightarrow> request \<Rightarrow> unit outcome" where
  "protected w ok db c r =
     (case c of
        None \<Rightarrow> Refused 401
      | Some c' \<Rightarrow> after (EnforcePATScope ok db c' r) (inner_guard w ok db (au_UserID c') r))"

definition server_routes :: "((string \<times> string) \<times> wrapper) list" where
  "server_routes =
     [((''GET'', ''/ha/status''), Unprotected),
      ((''GET'', ''/map/basemap.pmtiles''), Unprotected),
      (([], ''/''), Unprotected),
      ((''GET'', ''/openapi.yaml''), Unprotected),
      ((''GET'', ''/api-docs''), Unprotected),
      ((''GET'', ''/api/v1/health''), Unprotected),
      ((''GET'', ''/api/v1/setup/status''), Unprotected),
      ((''POST'', ''/api/v1/setup/init''), Unprotected),
      ((''POST'', ''/api/v1/auth/login''), Unprotected),
      ((''POST'', ''/api/v1/auth/logout''), Unprotected),
      ((''GET'', ''/i/{token}''), Unprotected),
      ((''GET'', ''/api/v1/bootstrap/{token}''), Unprotected),
      ((''GET'', ''/api/v1/join/{token}''), Unprotected),
      ((''POST'', ''/api/v1/auth/mfa/challenge''), Unprotected),
      ((''POST'', ''/api/v1/auth/mfa/send''), Unprotected),
      ((''POST'', ''/api/v1/auth/mfa/webauthn/login/begin''), Unprotected),
      ((''POST'', ''/api/v1/auth/mfa/webauthn/login/finish''), Unprotected),
      ((''POST'', ''/internal/v1/pair''), Unprotected),
      ((''GET'', ''/internal/v1/pair/status''), Unprotected),
      ((''POST'', ''/internal/v1/edges/register''), BearerToken),
      ((''GET'', ''/internal/v1/routes''), BearerToken),
      ((''GET'', ''/internal/v1/nodes/metrics''), BearerToken),
      (([], ''/internal/v1/logs''), BearerToken),
      (([], ''/internal/v1/security/bans''), BearerToken),
      (([], ''/internal/v1/security/threats''), BearerToken),
      (([], ''/internal/v1/security/cves''), BearerToken),
      (([], ''/api/v1/proxies''), Protected),
      (([], ''/api/v1/proxies/''), Protected),
      (([], ''/api/v1/tokens''), AdminOnly),
      (([], ''/api/v1/tokens/''), AdminOnly),
      (([], ''/api/v1/users''), AdminOnly),
      (([], ''/api/v1/users/''), AdminOnly),
      (([], ''/api/v1/teams''), AdminOnly),
      (([], ''/api/v1/teams/''), AdminOnly),
      (([], ''/api/v1/rights/''), AdminOnly),
      (([], ''/api/v1/detector-types''), GatedOperatorReads),
      (([], ''/api/v1/snippets''), GatedOperatorReads),
      (([], ''/api/v1/snippets/''), GatedOperatorReads),
      (([], ''/api/v1/error-page-templates''), AdminOnly),
      (([], ''/api/v1/error-page-templates/''), AdminOnly),
      (([], ''/api/v1/portal-page-templates''), (GatedAll PortalTable)),
      (([], ''/api/v1/portal-page-templates/''), (GatedAll PortalTable)),
      (([], ''/api/v1/plugin-repos''), AdminOnly),
      (([], ''/api/v1/plugin-repos/''), AdminOnly),
      (([], ''/api/v1/plugin-keys''), AdminOnly),
      (([], ''/api/v1/plugin-keys/''), AdminOnly),
      (([], ''/api/v1/plugins''), AdminOnly),
      (([], ''/api/v1/plugins/''), AdminOnly),
      (([], ''/api/v1/auth-provider-types''), AdminOnly),
      (([], ''/api/v1/auth-providers''), AdminOnly),
      (([], ''/api/v1/auth-providers/''), AdminOnly),
      (([], ''/api/v1/portal''), (GatedAll PortalTable)),
      (([], ''/api/v1/portal/''), (GatedAll PortalTable)),
      (([], ''/api/v1/mcp-access/''), AdminOnly),
      (([], ''/api/v1/certs''), GatedOperate),
      (([], ''/api/v1/certs/''), GatedOperate),
      (([], ''/api/v1/cert-bundle''), Unprotected),
      (([], ''/api/v1/cert-deploy-types''), GatedReads),
      (([], ''/api/v1/internal-ca''), AdminOnly),
      (([], ''/api/v1/internal-ca/''), AdminOnly),
      (([], ''/api/v1/nodes''), MemberReads),
      (([], ''/api/v1/nodes/''), MemberReads),
      (([], ''/api/v1/declared-nodes''), AdminWrites),
      (([], ''/api/v1/declared-nodes/''), AdminWrites),
      (([], ''/api/v1/architecture''), AdminOnly),
      ((''GET'', ''/api/v1/architecture/groups''), MemberReads),
      (([], ''/api/v1/architecture/''), AdminOnly),
      ((''POST'', ''/api/v1/bootstrap-tickets''), AdminOnly),
      ((''GET'', ''/api/v1/hosts''), AdminOnly),
      ((''POST'', ''/api/v1/hosts/{name}/join-ticket''), AdminOnly),
      (([], ''/api/v1/node-events''), MemberReads),
      (([], ''/api/v1/discovered-containers''), Protected),
      (([], ''/api/v1/discovered-containers/''), Protected),
      (([], ''/api/v1/backends/health''), MemberReads),
      (([], ''/api/v1/metrics/proxies''), GatedOpen),
      (([], ''/api/v1/metrics/summary''), GatedOpen),
      (([], ''/api/v1/audit''), GatedOpen),
      (([], ''/api/v1/audit/''), GatedOpen),
      (([], ''/api/v1/alert-channel-types''), GatedOpen),
      (([], ''/api/v1/alert-channels''), GatedOperate),
      (([], ''/api/v1/alert-channels/''), GatedOperate),
      (([], ''/api/v1/alert-events''), GatedOperate),
      (([], ''/api/v1/alert-events/''), GatedOperate),
      (([], ''/api/v1/alert-rules''), GatedOperate),
      (([], ''/api/v1/alert-rules/''), GatedOperate),
      (([], ''/api/v1/logs''), GatedReads),
      (([], ''/api/v1/logs/''), GatedReads),
      (([], ''/api/v1/logs/reveal-ip''), Protected),
      (([], ''/api/v1/logs/subject-export''), Protected),
      (([], ''/api/v1/logs/by-ip/''), Protected),
      (([], ''/api/v1/logs/by-user/''), Protected),
      (([], ''/api/v1/logs/siem''), AdminOnly),
      (([], ''/api/v1/logs/siem/status''), AdminOnly),
      (([], ''/api/v1/security/engine-types''), AdminOnly),
      (([], ''/api/v1/security''), (GatedAll SecurityTable)),
      (([], ''/api/v1/security/''), (GatedAll SecurityTable)),
      (([], ''/api/v1/automation/''), (GatedAll AutomationTable)),
      ((''GET'', ''/api/v1/edges/waf-status''), MemberReads),
      (([], ''/api/v1/import''), AdminOnly),
      (([], ''/api/v1/import/''), AdminOnly),
      (([], ''/api/v1/backups''), AdminOnly),
      (([], ''/api/v1/backups/''), AdminOnly),
      (([], ''/api/v1/prism/''), GatedOpen),
      (([], ''/api/v1/ip-profiles''), GatedReads),
      (([], ''/api/v1/ip-profiles/''), GatedReads),
      (([], ''/api/v1/domains''), GatedOperate),
      (([], ''/api/v1/domains/''), GatedOperate),
      (([], ''/api/v1/agents''), AdminOnly),
      (([], ''/api/v1/agents/''), AdminOnly),
      ((''GET'', ''/api/v1/pairing-secret''), AdminOnly),
      (([], ''/api/v1/me''), Protected),
      (([], ''/api/v1/me/''), Protected),
      (([], ''/api/v1/me/tokens''), Protected),
      (([], ''/api/v1/me/tokens/''), Protected),
      ((''GET'', ''/api/v1/auth/me''), Protected),
      (([], ''/api/v1/auth/mfa''), Protected),
      (([], ''/api/v1/auth/mfa/''), Protected),
      (([], ''/api/v1/settings/mfa/''), AdminOnly),
      (([], ''/api/v1/settings/smtp''), AdminOnly),
      (([], ''/api/v1/settings/smtp/''), AdminOnly),
      (([], ''/api/v1/settings/acme''), AdminOnly),
      (([], ''/api/v1/ech''), AdminOnly),
      (([], ''/api/v1/ech/''), AdminOnly),
      (([], ''/api/v1/acme/provider-types''), AdminOnly),
      (([], ''/api/v1/discovery-sources''), AdminOnly),
      (([], ''/api/v1/acme/providers''), AdminOnly),
      (([], ''/api/v1/acme/providers/''), AdminOnly),
      (([], ''/mcp''), OnlyPAT),
      (([], ''/mcp/''), OnlyPAT),
      (([], ''/internal/v1/heartbeat''), BearerToken),
      (([], ''/internal/v1/events''), BearerToken)]"

section \<open>Declared rights of the routes\<close>

datatype routeKind = KindService | KindSelf | KindPublic | KindStatic | KindSecret | KindGateway | KindMCP

record routeRights =
  rr_Kind :: routeKind
  rr_Service :: string
  rr_Read :: string
  rr_Write :: string
  rr_Delete :: string
  rr_Mixed :: bool
  rr_Note :: string

definition svc :: "string \<Rightarrow> string \<Rightarrow> string \<Rightarrow> routeRights" where
  "svc service rd wr =
     \<lparr>rr_Kind = KindService, rr_Service = service, rr_Read = rd, rr_Write = wr, rr_Delete = [], rr_Mixed = False, rr_Note = []\<rparr>"

definition mixed :: "routeRights \<Rightarrow> string \<Rightarrow> routeRights" where
  "mixed r note = r\<lparr>rr_Mixed := True, rr_Note := note\<rparr>"

definition routeDeclarations :: "((string \<times> string) \<times> routeRights) list" where
  "routeDeclarations =
     [((''GET'', ''/ha/status''), \<lparr>rr_Kind = KindPublic, rr_Service = [], rr_Read = [], rr_Write = [], rr_Delete = [], rr_Mixed = False, rr_Note = ([CHR 0xC3] @ [CHR 0xA9] @ ''tat d'' @ [CHR 0x27] @ ''un membre d'' @ [CHR 0x27] @ ''un groupe HA, lu par ses pairs'')\<rparr>),
      ((''GET'', ''/openapi.yaml''), \<lparr>rr_Kind = KindPublic, rr_Service = [], rr_Read = [], rr_Write = [], rr_Delete = [], rr_Mixed = False, rr_Note = []\<rparr>),
      ((''GET'', ''/api-docs''), \<lparr>rr_Kind = KindPublic, rr_Service = [], rr_Read = [], rr_Write = [], rr_Delete = [], rr_Mixed = False, rr_Note = []\<rparr>),
      ((''GET'', ''/api/v1/health''), \<lparr>rr_Kind = KindPublic, rr_Service = [], rr_Read = [], rr_Write = [], rr_Delete = [], rr_Mixed = False, rr_Note = []\<rparr>),
      ((''GET'', ''/api/v1/setup/status''), \<lparr>rr_Kind = KindPublic, rr_Service = [], rr_Read = [], rr_Write = [], rr_Delete = [], rr_Mixed = False, rr_Note = []\<rparr>),
      ((''POST'', ''/api/v1/setup/init''), \<lparr>rr_Kind = KindPublic, rr_Service = [], rr_Read = [], rr_Write = [], rr_Delete = [], rr_Mixed = False, rr_Note = (''refus'' @ [CHR 0xC3] @ [CHR 0xA9] @ ''e une fois l'' @ [CHR 0x27] @ ''installation faite'')\<rparr>),
      ((''POST'', ''/api/v1/auth/login''), \<lparr>rr_Kind = KindPublic, rr_Service = [], rr_Read = [], rr_Write = [], rr_Delete = [], rr_Mixed = False, rr_Note = []\<rparr>),
      ((''POST'', ''/api/v1/auth/logout''), \<lparr>rr_Kind = KindPublic, rr_Service = [], rr_Read = [], rr_Write = [], rr_Delete = [], rr_Mixed = False, rr_Note = []\<rparr>),
      ((''POST'', ''/api/v1/auth/mfa/challenge''), \<lparr>rr_Kind = KindPublic, rr_Service = [], rr_Read = [], rr_Write = [], rr_Delete = [], rr_Mixed = False, rr_Note = (''second facteur d'' @ [CHR 0x27] @ ''une connexion en cours'')\<rparr>),
      ((''POST'', ''/api/v1/auth/mfa/send''), \<lparr>rr_Kind = KindPublic, rr_Service = [], rr_Read = [], rr_Write = [], rr_Delete = [], rr_Mixed = False, rr_Note = (''second facteur d'' @ [CHR 0x27] @ ''une connexion en cours'')\<rparr>),
      ((''POST'', ''/api/v1/auth/mfa/webauthn/login/begin''), \<lparr>rr_Kind = KindPublic, rr_Service = [], rr_Read = [], rr_Write = [], rr_Delete = [], rr_Mixed = False, rr_Note = (''second facteur d'' @ [CHR 0x27] @ ''une connexion en cours'')\<rparr>),
      ((''POST'', ''/api/v1/auth/mfa/webauthn/login/finish''), \<lparr>rr_Kind = KindPublic, rr_Service = [], rr_Read = [], rr_Write = [], rr_Delete = [], rr_Mixed = False, rr_Note = (''second facteur d'' @ [CHR 0x27] @ ''une connexion en cours'')\<rparr>),
      ((''GET'', ''/map/basemap.pmtiles''), \<lparr>rr_Kind = KindStatic, rr_Service = [], rr_Read = [], rr_Write = [], rr_Delete = [], rr_Mixed = False, rr_Note = []\<rparr>),
      (([], ''/''), \<lparr>rr_Kind = KindStatic, rr_Service = [], rr_Read = [], rr_Write = [], rr_Delete = [], rr_Mixed = False, rr_Note = []\<rparr>),
      ((''GET'', ''/i/{token}''), \<lparr>rr_Kind = KindSecret, rr_Service = [], rr_Read = [], rr_Write = [], rr_Delete = [], rr_Mixed = False, rr_Note = (''ticket d'' @ [CHR 0x27] @ ''enr'' @ [CHR 0xC3] @ [CHR 0xB4] @ ''lement'')\<rparr>),
      ((''GET'', ''/api/v1/bootstrap/{token}''), \<lparr>rr_Kind = KindSecret, rr_Service = [], rr_Read = [], rr_Write = [], rr_Delete = [], rr_Mixed = False, rr_Note = (''ticket d'' @ [CHR 0x27] @ ''enr'' @ [CHR 0xC3] @ [CHR 0xB4] @ ''lement'')\<rparr>),
      ((''GET'', ''/api/v1/join/{token}''), \<lparr>rr_Kind = KindSecret, rr_Service = [], rr_Read = [], rr_Write = [], rr_Delete = [], rr_Mixed = False, rr_Note = ''ticket de jonction''\<rparr>),
      ((''POST'', ''/internal/v1/pair''), \<lparr>rr_Kind = KindSecret, rr_Service = [], rr_Read = [], rr_Write = [], rr_Delete = [], rr_Mixed = False, rr_Note = (''secret d'' @ [CHR 0x27] @ ''appairage'')\<rparr>),
      ((''GET'', ''/internal/v1/pair/status''), \<lparr>rr_Kind = KindSecret, rr_Service = [], rr_Read = [], rr_Write = [], rr_Delete = [], rr_Mixed = False, rr_Note = (''secret d'' @ [CHR 0x27] @ ''appairage'')\<rparr>),
      (([], ''/api/v1/cert-bundle''), \<lparr>rr_Kind = KindSecret, rr_Service = [], rr_Read = [], rr_Write = [], rr_Delete = [], rr_Mixed = False, rr_Note = (''jeton de r'' @ [CHR 0xC3] @ [CHR 0xA9] @ ''cup'' @ [CHR 0xC3] @ [CHR 0xA9] @ ''ration d'' @ [CHR 0x27] @ ''un certificat'')\<rparr>),
      ((''POST'', ''/internal/v1/edges/register''), \<lparr>rr_Kind = KindGateway, rr_Service = [], rr_Read = [], rr_Write = [], rr_Delete = [], rr_Mixed = False, rr_Note = []\<rparr>),
      ((''GET'', ''/internal/v1/routes''), \<lparr>rr_Kind = KindGateway, rr_Service = [], rr_Read = [], rr_Write = [], rr_Delete = [], rr_Mixed = False, rr_Note = []\<rparr>),
      ((''GET'', ''/internal/v1/nodes/metrics''), \<lparr>rr_Kind = KindGateway, rr_Service = [], rr_Read = [], rr_Write = [], rr_Delete = [], rr_Mixed = False, rr_Note = []\<rparr>),
      (([], ''/internal/v1/logs''), \<lparr>rr_Kind = KindGateway, rr_Service = [], rr_Read = [], rr_Write = [], rr_Delete = [], rr_Mixed = False, rr_Note = []\<rparr>),
      (([], ''/internal/v1/security/bans''), \<lparr>rr_Kind = KindGateway, rr_Service = [], rr_Read = [], rr_Write = [], rr_Delete = [], rr_Mixed = False, rr_Note = []\<rparr>),
      (([], ''/internal/v1/security/threats''), \<lparr>rr_Kind = KindGateway, rr_Service = [], rr_Read = [], rr_Write = [], rr_Delete = [], rr_Mixed = False, rr_Note = []\<rparr>),
      (([], ''/internal/v1/security/cves''), \<lparr>rr_Kind = KindGateway, rr_Service = [], rr_Read = [], rr_Write = [], rr_Delete = [], rr_Mixed = False, rr_Note = []\<rparr>),
      (([], ''/internal/v1/heartbeat''), \<lparr>rr_Kind = KindGateway, rr_Service = [], rr_Read = [], rr_Write = [], rr_Delete = [], rr_Mixed = False, rr_Note = []\<rparr>),
      (([], ''/internal/v1/events''), \<lparr>rr_Kind = KindGateway, rr_Service = [], rr_Read = [], rr_Write = [], rr_Delete = [], rr_Mixed = False, rr_Note = []\<rparr>),
      (([], ''/mcp''), \<lparr>rr_Kind = KindMCP, rr_Service = [], rr_Read = [], rr_Write = [], rr_Delete = [], rr_Mixed = False, rr_Note = []\<rparr>),
      (([], ''/mcp/''), \<lparr>rr_Kind = KindMCP, rr_Service = [], rr_Read = [], rr_Write = [], rr_Delete = [], rr_Mixed = False, rr_Note = []\<rparr>),
      (([], ''/api/v1/me''), \<lparr>rr_Kind = KindSelf, rr_Service = [], rr_Read = [], rr_Write = [], rr_Delete = [], rr_Mixed = False, rr_Note = []\<rparr>),
      (([], ''/api/v1/me/''), \<lparr>rr_Kind = KindSelf, rr_Service = [], rr_Read = [], rr_Write = [], rr_Delete = [], rr_Mixed = False, rr_Note = []\<rparr>),
      (([], ''/api/v1/me/tokens''), \<lparr>rr_Kind = KindSelf, rr_Service = [], rr_Read = [], rr_Write = [], rr_Delete = [], rr_Mixed = False, rr_Note = (''jetons de l'' @ [CHR 0x27] @ ''appelant, scopes born'' @ [CHR 0xC3] @ [CHR 0xA9] @ ''s par son r'' @ [CHR 0xC3] @ [CHR 0xB4] @ ''le'')\<rparr>),
      (([], ''/api/v1/me/tokens/''), \<lparr>rr_Kind = KindSelf, rr_Service = [], rr_Read = [], rr_Write = [], rr_Delete = [], rr_Mixed = False, rr_Note = (''jetons de l'' @ [CHR 0x27] @ ''appelant, scopes born'' @ [CHR 0xC3] @ [CHR 0xA9] @ ''s par son r'' @ [CHR 0xC3] @ [CHR 0xB4] @ ''le'')\<rparr>),
      ((''GET'', ''/api/v1/auth/me''), \<lparr>rr_Kind = KindSelf, rr_Service = [], rr_Read = [], rr_Write = [], rr_Delete = [], rr_Mixed = False, rr_Note = []\<rparr>),
      (([], ''/api/v1/auth/mfa''), \<lparr>rr_Kind = KindSelf, rr_Service = [], rr_Read = [], rr_Write = [], rr_Delete = [], rr_Mixed = False, rr_Note = (''second facteur de l'' @ [CHR 0x27] @ ''appelant'')\<rparr>),
      (([], ''/api/v1/auth/mfa/''), \<lparr>rr_Kind = KindSelf, rr_Service = [], rr_Read = [], rr_Write = [], rr_Delete = [], rr_Mixed = False, rr_Note = (''second facteur de l'' @ [CHR 0x27] @ ''appelant'')\<rparr>),
      (([], ''/api/v1/proxies''), mixed (\<lparr>rr_Kind = KindService, rr_Service = ''proxies'', rr_Read = ''proxies:read'', rr_Write = ''proxies:operate'', rr_Delete = ''proxies:manage'', rr_Mixed = False, rr_Note = []\<rparr>) (''sections, surface, '' @ [CHR 0xC3] @ [CHR 0xA9] @ ''tiquettes, purge du cache'')),
      (([], ''/api/v1/proxies/''), mixed (\<lparr>rr_Kind = KindService, rr_Service = ''proxies'', rr_Read = ''proxies:read'', rr_Write = ''proxies:operate'', rr_Delete = ''proxies:manage'', rr_Mixed = False, rr_Note = []\<rparr>) (''sections, surface, '' @ [CHR 0xC3] @ [CHR 0xA9] @ ''tiquettes, purge du cache'')),
      (([], ''/api/v1/discovered-containers''), svc ''containers'' ''containers:read'' ''containers:operate''),
      (([], ''/api/v1/discovered-containers/''), svc ''containers'' ''containers:read'' ''containers:operate''),
      (([], ''/api/v1/domains''), svc ''domains'' ''domains:read'' ''domains:manage''),
      (([], ''/api/v1/domains/''), svc ''domains'' ''domains:read'' ''domains:manage''),
      (([], ''/api/v1/certs''), mixed (svc ''certs'' ''certs:read'' ''certs:manage'') (''cibles de d'' @ [CHR 0xC3] @ [CHR 0xA9] @ ''ploiement et jetons de r'' @ [CHR 0xC3] @ [CHR 0xA9] @ ''cup'' @ [CHR 0xC3] @ [CHR 0xA9] @ ''ration'')),
      (([], ''/api/v1/certs/''), mixed (svc ''certs'' ''certs:read'' ''certs:manage'') (''cibles de d'' @ [CHR 0xC3] @ [CHR 0xA9] @ ''ploiement et jetons de r'' @ [CHR 0xC3] @ [CHR 0xA9] @ ''cup'' @ [CHR 0xC3] @ [CHR 0xA9] @ ''ration'')),
      (([], ''/api/v1/cert-deploy-types''), svc ''certs'' ''certs:read'' ''certs:manage''),
      (([], ''/api/v1/import''), mixed (svc ''proxies'' ''audit:read'' ''proxies:import'') (''lecture d'' @ [CHR 0x27] @ ''un '' @ [CHR 0xC3] @ [CHR 0xA9] @ ''tat d'' @ [CHR 0x27] @ ''import : scope audit:read aujourd'' @ [CHR 0x27] @ ''hui'')),
      (([], ''/api/v1/import/''), mixed (svc ''proxies'' ''audit:read'' ''proxies:import'') (''lecture d'' @ [CHR 0x27] @ ''un '' @ [CHR 0xC3] @ [CHR 0xA9] @ ''tat d'' @ [CHR 0x27] @ ''import : scope audit:read aujourd'' @ [CHR 0x27] @ ''hui'')),
      (([], ''/api/v1/node-events''), svc ''infra'' ''infra:read'' ''infra:classify''),
      (([], ''/api/v1/backends/health''), svc ''infra'' ''infra:read'' ''infra:classify''),
      (([], ''/api/v1/metrics/proxies''), svc ''dashboard'' ''dashboard:read'' ''dashboard:manage''),
      (([], ''/api/v1/metrics/summary''), svc ''dashboard'' ''dashboard:read'' ''dashboard:manage''),
      (([], ''/api/v1/prism/''), svc ''dashboard'' ''dashboard:read'' ''dashboard:manage''),
      (([], ''/api/v1/audit''), svc ''audit'' ''audit:read'' ''audit:read''),
      (([], ''/api/v1/audit/''), svc ''audit'' ''audit:read'' ''audit:read''),
      (([], ''/api/v1/alert-channel-types''), svc ''alert_channels'' ''alert_channels:read'' ''alert_channels:manage''),
      (([], ''/api/v1/alert-channels''), mixed (svc ''alert_channels'' ''alert_channels:read'' ''alert_channels:manage'') (''envoi d'' @ [CHR 0x27] @ ''un message de test'')),
      (([], ''/api/v1/alert-channels/''), mixed (svc ''alert_channels'' ''alert_channels:read'' ''alert_channels:manage'') (''envoi d'' @ [CHR 0x27] @ ''un message de test'')),
      (([], ''/api/v1/alert-events''), svc ''alerts'' ''alerts:read'' ''alerts:ack''),
      (([], ''/api/v1/alert-events/''), svc ''alerts'' ''alerts:read'' ''alerts:ack''),
      (([], ''/api/v1/alert-rules''), svc ''alerts'' ''alerts:read'' ''alerts:rules''),
      (([], ''/api/v1/alert-rules/''), svc ''alerts'' ''alerts:read'' ''alerts:rules''),
      (([], ''/api/v1/logs''), mixed (svc ''logs'' ''logs:read'' ''logs:export'') (''logs syst'' @ [CHR 0xC3] @ [CHR 0xA8] @ ''me et conteneurs, r'' @ [CHR 0xC3] @ [CHR 0xA9] @ ''glages des logs'')),
      (([], ''/api/v1/logs/''), mixed (svc ''logs'' ''logs:read'' ''logs:export'') (''logs syst'' @ [CHR 0xC3] @ [CHR 0xA8] @ ''me et conteneurs, r'' @ [CHR 0xC3] @ [CHR 0xA9] @ ''glages des logs'')),
      (([], ''/api/v1/logs/reveal-ip''), svc ''gdpr'' ''gdpr:reveal'' ''gdpr:reveal''),
      (([], ''/api/v1/logs/subject-export''), svc ''gdpr'' ''gdpr:export'' ''gdpr:export''),
      (([], ''/api/v1/logs/by-ip/''), svc ''gdpr'' ''gdpr:erase'' ''gdpr:erase''),
      (([], ''/api/v1/logs/by-user/''), svc ''gdpr'' ''gdpr:erase'' ''gdpr:erase''),
      (([], ''/api/v1/logs/siem''), svc ''logs_settings'' ''logs_settings:read'' ''siem:write''),
      (([], ''/api/v1/logs/siem/status''), svc ''logs_settings'' ''logs_settings:read'' ''siem:write''),
      (([], ''/api/v1/security/engine-types''), svc ''engines'' ''engines:read'' ''engines:tune''),
      (([], ''/api/v1/security''), mixed (svc ''netsec'' ''netsec:read'' ''netsec:respond'') (''moteurs, surface, domaines surveill'' @ [CHR 0xC3] @ [CHR 0xA9] @ ''s, liste blanche'')),
      (([], ''/api/v1/security/''), mixed (svc ''netsec'' ''netsec:read'' ''netsec:respond'') (''moteurs, surface, domaines surveill'' @ [CHR 0xC3] @ [CHR 0xA9] @ ''s, liste blanche'')),
      ((''GET'', ''/api/v1/edges/waf-status''), svc ''engines'' ''engines:read'' ''engines:tune''),
      (([], ''/api/v1/detector-types''), svc ''snippets'' ''snippets:read'' ''snippets:write''),
      (([], ''/api/v1/snippets''), svc ''snippets'' ''snippets:read'' ''snippets:write''),
      (([], ''/api/v1/snippets/''), svc ''snippets'' ''snippets:read'' ''snippets:write''),
      (([], ''/api/v1/ip-profiles''), svc ''ip_profiles'' ''ip_profiles:read'' ''ip_profiles:write''),
      (([], ''/api/v1/ip-profiles/''), svc ''ip_profiles'' ''ip_profiles:read'' ''ip_profiles:write''),
      (([], ''/api/v1/auth-provider-types''), svc ''auth_providers'' ''auth_providers:read'' ''auth_providers:write''),
      (([], ''/api/v1/auth-providers''), svc ''auth_providers'' ''auth_providers:read'' ''auth_providers:write''),
      (([], ''/api/v1/auth-providers/''), svc ''auth_providers'' ''auth_providers:read'' ''auth_providers:write''),
      (([], ''/api/v1/error-page-templates''), svc ''error_pages'' ''error_pages:read'' ''error_pages:write''),
      (([], ''/api/v1/error-page-templates/''), svc ''error_pages'' ''error_pages:read'' ''error_pages:write''),
      (([], ''/api/v1/nodes''), mixed (svc ''infra'' ''infra:read'' ''infra:classify'') (''approbation, mise '' @ [CHR 0xC3] @ [CHR 0xA0] @ '' jour, configuration, tunnel, suppression, groupes HA'')),
      (([], ''/api/v1/nodes/''), mixed (svc ''infra'' ''infra:read'' ''infra:classify'') (''approbation, mise '' @ [CHR 0xC3] @ [CHR 0xA0] @ '' jour, configuration, tunnel, suppression, groupes HA'')),
      (([], ''/api/v1/agents''), mixed (svc ''infra'' ''infra:read'' ''nodes:approve'') (''Agents : approbation, r'' @ [CHR 0xC3] @ [CHR 0xA9] @ ''vocation, d'' @ [CHR 0xC3] @ [CHR 0xA9] @ ''couverte'')),
      (([], ''/api/v1/agents/''), mixed (svc ''infra'' ''infra:read'' ''nodes:approve'') (''Agents : approbation, r'' @ [CHR 0xC3] @ [CHR 0xA9] @ ''vocation, d'' @ [CHR 0xC3] @ [CHR 0xA9] @ ''couverte'')),
      (([], ''/api/v1/declared-nodes''), svc ''infra'' ''infra:read'' ''architecture:write''),
      (([], ''/api/v1/declared-nodes/''), svc ''infra'' ''infra:read'' ''architecture:write''),
      (([], ''/api/v1/architecture''), svc ''infra'' ''infra:read'' ''architecture:write''),
      ((''GET'', ''/api/v1/architecture/groups''), svc ''infra'' ''infra:read'' ''architecture:write''),
      (([], ''/api/v1/architecture/''), svc ''infra'' ''infra:read'' ''architecture:write''),
      ((''POST'', ''/api/v1/bootstrap-tickets''), \<lparr>rr_Kind = KindService, rr_Service = ''infra'', rr_Read = [], rr_Write = ''enrol:create'', rr_Delete = [], rr_Mixed = False, rr_Note = []\<rparr>),
      ((''GET'', ''/api/v1/hosts''), \<lparr>rr_Kind = KindService, rr_Service = ''infra'', rr_Read = ''infra:read'', rr_Write = [], rr_Delete = [], rr_Mixed = False, rr_Note = []\<rparr>),
      ((''POST'', ''/api/v1/hosts/{name}/join-ticket''), \<lparr>rr_Kind = KindService, rr_Service = ''infra'', rr_Read = [], rr_Write = ''enrol:create'', rr_Delete = [], rr_Mixed = False, rr_Note = []\<rparr>),
      ((''GET'', ''/api/v1/pairing-secret''), \<lparr>rr_Kind = KindService, rr_Service = ''infra'', rr_Read = ''enrol:create'', rr_Write = [], rr_Delete = [], rr_Mixed = False, rr_Note = []\<rparr>),
      (([], ''/api/v1/tokens''), svc ''gateway_scope'' ''tokens:manage'' ''tokens:manage''),
      (([], ''/api/v1/tokens/''), svc ''gateway_scope'' ''tokens:manage'' ''tokens:manage''),
      (([], ''/api/v1/discovery-sources''), svc ''discovery'' ''discovery:read'' ''discovery:write''),
      (([], ''/api/v1/automation/''), mixed (svc ''automation'' ''automation:read'' ''automation:edit'') (''ex'' @ [CHR 0xC3] @ [CHR 0xA9] @ ''cution et d'' @ [CHR 0xC3] @ [CHR 0xA9] @ ''cision d'' @ [CHR 0x27] @ ''un flux'')),
      (([], ''/api/v1/portal''), mixed (svc ''portal_templates'' ''portal_templates:read'' ''portal_templates:manage'') ''huit sous-services du portail''),
      (([], ''/api/v1/portal/''), mixed (svc ''portal_templates'' ''portal_templates:read'' ''portal_templates:manage'') ''huit sous-services du portail''),
      (([], ''/api/v1/portal-page-templates''), svc ''portal_templates'' ''portal_templates:read'' ''portal_templates:manage''),
      (([], ''/api/v1/portal-page-templates/''), svc ''portal_templates'' ''portal_templates:read'' ''portal_templates:manage''),
      (([], ''/api/v1/backups''), mixed (svc ''backups'' ''backups:list'' ''backups:create'') ''restauration''),
      (([], ''/api/v1/backups/''), mixed (svc ''backups'' ''backups:list'' ''backups:create'') ''restauration''),
      (([], ''/api/v1/internal-ca''), svc ''pki'' ''pki:read'' ''pki:write''),
      (([], ''/api/v1/internal-ca/''), svc ''pki'' ''pki:read'' ''pki:write''),
      (([], ''/api/v1/ech''), svc ''pki'' ''pki:read'' ''pki:write''),
      (([], ''/api/v1/ech/''), svc ''pki'' ''pki:read'' ''pki:write''),
      (([], ''/api/v1/acme/provider-types''), svc ''pki'' ''pki:read'' ''pki:write''),
      (([], ''/api/v1/acme/providers''), svc ''pki'' ''pki:read'' ''pki:write''),
      (([], ''/api/v1/acme/providers/''), svc ''pki'' ''pki:read'' ''pki:write''),
      (([], ''/api/v1/settings/acme''), svc ''pki'' ''pki:read'' ''pki:write''),
      (([], ''/api/v1/plugins''), svc ''plugins'' ''plugins:read'' ''plugins:write''),
      (([], ''/api/v1/plugins/''), svc ''plugins'' ''plugins:read'' ''plugins:write''),
      (([], ''/api/v1/plugin-keys''), svc ''plugins'' ''plugins:read'' ''plugins:write''),
      (([], ''/api/v1/plugin-keys/''), svc ''plugins'' ''plugins:read'' ''plugins:write''),
      (([], ''/api/v1/plugin-repos''), svc ''plugins'' ''plugins:read'' ''plugins:write''),
      (([], ''/api/v1/plugin-repos/''), svc ''plugins'' ''plugins:read'' ''plugins:write''),
      (([], ''/api/v1/users''), svc ''accounts'' ''accounts:read'' ''users:write''),
      (([], ''/api/v1/users/''), svc ''accounts'' ''accounts:read'' ''users:write''),
      (([], ''/api/v1/rights/''), svc ''accounts'' ''accounts:read'' ''teams:write''),
      (([], ''/api/v1/teams''), svc ''accounts'' ''accounts:read'' ''teams:write''),
      (([], ''/api/v1/teams/''), svc ''accounts'' ''accounts:read'' ''teams:write''),
      (([], ''/api/v1/mcp-access/''), svc ''accounts'' ''accounts:read'' ''users:write''),
      (([], ''/api/v1/settings/mfa/''), svc ''settings'' ''settings:read'' ''settings:write''),
      (([], ''/api/v1/settings/smtp''), svc ''settings'' ''settings:read'' ''settings:write''),
      (([], ''/api/v1/settings/smtp/''), svc ''settings'' ''settings:read'' ''settings:write'')]"

end
