(* ===== verification/Rbac_Properties.thy ===== *)
theory Rbac_Properties
  imports Rights_Gate
begin

text \<open>
  What the rights of accounts promise: the engine grants exactly what the accesses of the teams of an
  account grant, levels of a service are cumulative, a token holds no more than its account, guards refuse an
  account without access, and a gateway that is made responsible for a domain receives its certificate.
\<close>

section \<open>The engine\<close>

lemma globMatch_nil_def: "criterion_empty c \<Longrightarrow> criterion_matches c g"
  by (simp add: criterion_empty_def criterion_matches_def)

lemma empty_matches: "perimeter_empty p \<Longrightarrow> perimeter_Matches re p res"
  by (simp add: perimeter_empty_def perimeter_Matches_def)

lemma collect_all:
  "fl_all (collect_perimeters pl perm as ps) \<longleftrightarrow> list_ex (\<lambda>a. Grants a perm \<and> (pl \<or> perimeter_empty (ta_Perimeter a))) as"
  by (induction as arbitrary: ps) auto

lemma collect_perimeters_set:
  "\<not> fl_all (collect_perimeters pl perm as ps) \<Longrightarrow>
   fl_perimeters (collect_perimeters pl perm as ps) = ps @ map ta_Perimeter (filter (\<lambda>a. Grants a perm) as)"
  by (induction as arbitrary: ps) (auto split: if_splits)

lemma Allows_collect:
  "Allows re (collect_perimeters pl perm as []) res \<longleftrightarrow>
   list_ex (\<lambda>a. Grants a perm \<and> (pl \<or> perimeter_Matches re (ta_Perimeter a) res)) as"
proof (cases "fl_all (collect_perimeters pl perm as [])")
  case True
  then show ?thesis
    by (auto simp: Allows_def collect_all list_ex_iff intro: empty_matches)
next
  case False
  then show ?thesis
    by (auto simp: Allows_def collect_perimeters_set list_ex_iff) (auto simp: collect_all list_ex_iff)
qed

definition platform_permission :: "string \<Rightarrow> bool" where
  "platform_permission perm = (case PermissionByID perm of None \<Rightarrow> False | Some p \<Rightarrow> platform_service (pm_Service p))"

lemma Grants_known: "Grants a perm \<Longrightarrow> PermissionByID perm \<noteq> None"
  by (cases "PermissionByID perm") (simp_all add: Grants_def)

lemma Allows_FilterFor:
  "Allows re (FilterFor as perm) res \<longleftrightarrow>
   list_ex (\<lambda>a. Grants a perm \<and> (platform_permission perm \<or> perimeter_Matches re (ta_Perimeter a) res)) as"
proof (cases "PermissionByID perm")
  case None
  then show ?thesis by (auto simp: FilterFor_def Allows_def list_ex_iff dest: Grants_known)
next
  case (Some p)
  then show ?thesis by (simp add: FilterFor_def Allows_collect platform_permission_def)
qed

lemma filter_None_FilterFor: "filter_None (FilterFor as perm) \<longleftrightarrow> \<not> list_ex (\<lambda>a. Grants a perm) as"
proof (cases "PermissionByID perm")
  case None
  then show ?thesis by (auto simp: FilterFor_def filter_None_def list_ex_iff dest: Grants_known)
next
  case (Some p)
  let ?f = "collect_perimeters (platform_service (pm_Service p)) perm as []"
  have "filter_None ?f \<longleftrightarrow> \<not> list_ex (\<lambda>a. Grants a perm) as"
    using collect_perimeters_set [of "platform_service (pm_Service p)" perm as "[]"]
    by (cases "fl_all ?f") (auto simp: filter_None_def collect_all list_ex_iff filter_empty_conv)
  then show ?thesis using Some by (simp add: FilterFor_def)
qed

lemma set_insert_by [simp]: "set (insert_by lt x ys) = insert x (set ys)"
  by (induction ys) auto

lemma set_order_by [simp]: "set (order_by lt xs) = set xs"
  by (induction xs) (auto simp: order_by_def)

lemma UserAccesses_set:
  "UserAccesses ok db u = Some as \<Longrightarrow>
   set as = {a. \<exists>pos. (a, pos) \<in> set (rd_accesses db) \<and> (ta_TeamID a, u) \<in> set (rd_members db)}"
  by (auto simp: UserAccesses_def image_iff split: if_splits) force+

text \<open>The accesses of an account, as the tables hold them.\<close>

definition holds_access :: "rbac_db \<Rightarrow> string \<Rightarrow> (TeamAccess \<Rightarrow> bool) \<Rightarrow> bool" where
  "holds_access db u P = list_ex (\<lambda>(a, pos). (ta_TeamID a, u) \<in> set (rd_members db) \<and> P a) (rd_accesses db)"

lemma list_ex_UserAccesses: "UserAccesses ok db u = Some as \<Longrightarrow> list_ex P as \<longleftrightarrow> holds_access db u P"
  by (auto simp: holds_access_def list_ex_iff UserAccesses_set)

lemma UserAccesses_ok: "(UserAccesses ok db u = None) = (\<not> ok)"
  by (simp add: UserAccesses_def)

lemma Can_holds:
  "Can re ok db u perm res \<longleftrightarrow>
   user_IsAdmin db u \<or>
   ok \<and> holds_access db u (\<lambda>a. Grants a perm \<and> (platform_permission perm \<or> perimeter_Matches re (ta_Perimeter a) res))"
proof -
  have "Allows re \<lparr>fl_all = True, fl_perimeters = []\<rparr> res" and "\<not> Allows re \<lparr>fl_all = False, fl_perimeters = []\<rparr> res"
    by (simp_all add: Allows_def)
  then show ?thesis
    by (cases "UserAccesses ok db u")
      (auto simp: Can_def engine_Scope_def Allows_FilterFor list_ex_UserAccesses UserAccesses_def split: if_splits)
qed

text \<open>
  The engine lets a person do something on a resource exactly when the person is an administrator, or
  the tables could be read and an access of one of the person's teams grants the permission on a service of the
  platform or with a perimeter that holds the resource.
\<close>

theorem Can_iff:
  "Can re ok db u perm res \<longleftrightarrow>
   user_IsAdmin db u \<or>
   ok \<and> holds_access db u (\<lambda>a. Grants a perm \<and> (platform_permission perm \<or> perimeter_Matches re (ta_Perimeter a) res))"
  by (rule Can_holds)

section \<open>Levels\<close>

lemma index_where_nth:
  "distinct (map f xs) \<Longrightarrow> i < length xs \<Longrightarrow> index_where (\<lambda>x. f x = f (xs ! i)) xs = Some i"
proof (induction xs arbitrary: i)
  case (Cons x xs)
  show ?case
  proof (cases i)
    case (Suc n)
    then have "xs ! n \<in> set xs" using Cons.prems by simp
    then have "f x \<noteq> f (xs ! n)" using Cons.prems by auto
    then show ?thesis using Suc Cons by simp
  qed simp
qed simp

lemma levelIndex_nth:
  "s \<in> set Services \<Longrightarrow> i < length (svc_Levels s) \<Longrightarrow> levelIndex s (lv_ID (svc_Levels s ! i)) = Some i"
  unfolding levelIndex_def using level_ids_distinct by (rule index_where_nth)

definition level_permission :: "Service \<Rightarrow> nat \<Rightarrow> string" where
  "level_permission s i = svc_ID s @ CHR '':'' # lv_ID (svc_Levels s ! i)"

lemma TrimPrefix_colon: "TrimPrefix (p @ CHR '':'' # s) (p @ '':'') = s"
proof -
  have "p @ CHR '':'' # s = (p @ '':'') @ s" by simp
  then show ?thesis by (simp only: TrimPrefix_append)
qed

text \<open>No level is an explicit permission.\<close>

lemma no_sensitive_level: "list_all (\<lambda>s. list_all (\<lambda>l. lv_Class l \<noteq> ClassSensitive) (svc_Levels s)) Services"
  by code_simp

lemma Grants_level:
  assumes s: "s \<in> set Services" and i: "i < length (svc_Levels s)" and j: "j < length (svc_Levels s)"
    and chosen: "gm_get (ta_Levels a) (svc_ID s) = Some (lv_ID (svc_Levels s ! j))"
  shows "Grants a (level_permission s i) \<longleftrightarrow> lv_Class (svc_Levels s ! i) \<noteq> ClassPlatform \<and> i \<le> j"
proof -
  let ?l = "svc_Levels s ! i"
  have l: "?l \<in> set (svc_Levels s)" using i by simp
  have "lv_Class ?l \<noteq> ClassSensitive"
    using no_sensitive_level s l by (auto simp: list_all_iff)
  moreover have "PermissionByID (level_permission s i) =
     Some \<lparr>pm_ID = level_permission s i, pm_Service = svc_ID s, pm_Label = lv_Label ?l, pm_Class = lv_Class ?l, pm_PAT = lv_PAT ?l\<rparr>"
    using permission_of_level [OF s l] by (simp add: level_permission_def)
  moreover have "ServiceByID (svc_ID s) = Some s"
    using s by (simp add: ServiceByID_iff)
  moreover have "TrimPrefix (level_permission s i) (svc_ID s @ '':'') = lv_ID ?l"
    unfolding level_permission_def by (rule TrimPrefix_colon)
  ultimately show ?thesis
    using chosen levelIndex_nth [OF s i] levelIndex_nth [OF s j] by (simp add: Grants_def)
qed

text \<open>
  The levels of a service are cumulative: an access that chose level \<open>j\<close> of a service grants the
  permission of level \<open>i\<close> exactly when \<open>i\<close> is not above \<open>j\<close> and is not the writing of shared objects.
\<close>

theorem levels_cumulative:
  assumes "s \<in> set Services" and "i < length (svc_Levels s)" and "j < length (svc_Levels s)"
    and "gm_get (ta_Levels a) (svc_ID s) = Some (lv_ID (svc_Levels s ! j))"
  shows "Grants a (level_permission s i) \<longleftrightarrow> lv_Class (svc_Levels s ! i) \<noteq> ClassPlatform \<and> i \<le> j"
  using assms by (rule Grants_level)

definition operator_access :: TeamAccess where
  "operator_access =
     \<lparr>ta_ID = ''a1'', ta_TeamID = ''t1'', ta_Name = [],
      ta_Perimeter = \<lparr>pe_Domain = ''*.corp.io'', pe_Proxy = [], pe_Backend = [],
        pe_Group = \<lparr>gcr_Name = [], gcr_Environment = [], gcr_Region = [], gcr_Tag = []\<rparr>, pe_Labels = []\<rparr>,
      ta_Levels = [(''proxies'', ''operate'')], ta_Permissions = []\<rparr>"

theorem levels_cumulative_witness:
  "Grants operator_access (level_permission service_proxies 0) \<and> \<not> Grants operator_access (level_permission service_proxies 2)"
proof -
  have s: "service_proxies \<in> set Services" by (simp add: Services_def)
  have l: "length (svc_Levels service_proxies) = 3" by code_simp
  have c: "gm_get (ta_Levels operator_access) (svc_ID service_proxies) = Some (lv_ID (svc_Levels service_proxies ! 1))" by code_simp
  have p: "lv_Class (svc_Levels service_proxies ! 0) \<noteq> ClassPlatform" by code_simp
  show ?thesis
    using levels_cumulative [OF s, of 0 1 operator_access] levels_cumulative [OF s, of 2 1 operator_access] l c p by simp
qed

section \<open>Scopes of tokens\<close>

lemma set_add_scopes: "set (add_scopes ss out) = set out \<union> set ss"
proof -
  have "set (fold (\<lambda>scope out. if scope \<in> set out then out else out @ [scope]) ss out) = set out \<union> set ss"
    by (induction ss arbitrary: out) auto
  then show ?thesis by (simp add: add_scopes_def)
qed

lemma set_fold_scopes:
  "set (fold (\<lambda>p out. if Q p then add_scopes (pm_PAT p) out else out) ps out) =
   set out \<union> (\<Union>p \<in> {p \<in> set ps. Q p}. set (pm_PAT p))"
  by (induction ps arbitrary: out) (auto simp: set_add_scopes)

definition gdpr_scopes :: "string list" where
  "gdpr_scopes = [ScopeGDPRReveal, ScopeGDPRExport, ScopeGDPRErase]"

lemma AvailableScopes_user:
  "\<not> user_IsAdmin db u \<Longrightarrow> UserRole db u \<noteq> [] \<Longrightarrow>
   scope \<in> set (AvailableScopesForUser ok db u) \<longleftrightarrow>
   ok \<and> list_ex (\<lambda>p. CoversPATScope p scope \<and> holds_access db u (\<lambda>a. Grants a (pm_ID p))) Permissions
   \<or> scope \<in> set gdpr_scopes \<and> CanExerciseGDPR ok db u scope"
proof -
  assume na: "\<not> user_IsAdmin db u" and r: "UserRole db u \<noteq> []"
  define as where "as = (case UserAccesses ok db u of None \<Rightarrow> [] | Some as \<Rightarrow> as)"
  have g: "list_ex (\<lambda>a. Grants a perm) as \<longleftrightarrow> ok \<and> holds_access db u (\<lambda>a. Grants a perm)" for perm
    using UserAccesses_ok [of ok db u] list_ex_UserAccesses [of ok db u]
    by (cases "UserAccesses ok db u") (simp_all add: as_def)
  have "scope \<in> set (AvailableScopesForUser ok db u) \<longleftrightarrow>
      (\<exists>p \<in> set Permissions. list_ex (\<lambda>a. Grants a (pm_ID p)) as \<and> scope \<in> set (pm_PAT p))
      \<or> scope \<in> set gdpr_scopes \<and> CanExerciseGDPR ok db u scope"
    using na r by (simp add: AvailableScopesForUser_def Let_def user_IsAdmin_def as_def [symmetric] set_fold_scopes gdpr_scopes_def) blast
  then show ?thesis unfolding g by (auto simp: list_ex_iff [of _ Permissions] CoversPATScope_def)
qed

text \<open>
  C23: What a token of an account that is no administrator can do: the scope was given to the token, the account
  exists, and either an access of its teams grants, now, a permission the scope belongs to, or the scope is a
  capability on personal data that one of its teams carries now. So a token never exceeds the present rights
  of its account.
\<close>

theorem token_within_account:
  "IsPATAuth c \<Longrightarrow> \<not> user_IsAdmin db (au_UserID c) \<Longrightarrow>
   EffectiveHasScope ok db c scope \<longleftrightarrow>
   au_UserID c \<noteq> [] \<and> UserRole db (au_UserID c) \<noteq> [] \<and> scope \<in> set (au_PATScopes c) \<and>
   (ok \<and> list_ex (\<lambda>p. CoversPATScope p scope \<and> holds_access db (au_UserID c) (\<lambda>a. Grants a (pm_ID p))) Permissions
    \<or> scope \<in> set gdpr_scopes \<and> HasPermission ok db (au_UserID c) scope)"
proof -
  assume p: "IsPATAuth c" and na: "\<not> user_IsAdmin db (au_UserID c)"
  have g: "CanExerciseGDPR ok db (au_UserID c) s = HasPermission ok db (au_UserID c) s" for s
    using na by (simp add: CanExerciseGDPR_def)
  show ?thesis
  proof (cases "UserRole db (au_UserID c) = []")
    case True
    then show ?thesis by (simp add: EffectiveHasScope_def UserCanHoldScope_def AvailableScopesForUser_def Let_def)
  next
    case False
    then show ?thesis
      using p AvailableScopes_user [OF na False, of scope ok]
      by (auto simp: EffectiveHasScope_def UserCanHoldScope_def list_ex_iff g)
  qed
qed

definition operator_db :: rbac_db where
  "operator_db =
     \<lparr>rd_users = [(''u1'', ''user''), (''root'', ''superadmin'')], rd_teams = [(''t1'', ''Ops'')], rd_members = [(''t1'', ''u1'')],
      rd_accesses = [(operator_access, 1)], rd_permissions = [(''t1'', PermGDPRHold)]\<rparr>"

definition operator_token :: auth_context where
  "operator_token =
     \<lparr>au_UserID = ''u1'', au_Kind = ''pat'', au_PATID = ''k'', au_PATScopes = [ScopeProxiesWrite, ScopeNodesWrite]\<rparr>"

theorem token_within_account_witness:
  "EffectiveHasScope True operator_db operator_token ScopeProxiesWrite \<and> \<not> EffectiveHasScope True operator_db operator_token ScopeProxiesRead"
proof -
  let ?p = "\<lparr>pm_ID = level_permission service_proxies 1, pm_Service = ''proxies'', pm_Label = ''Exploitation'', pm_Class = lv_Class (svc_Levels service_proxies ! 1), pm_PAT = [ScopeProxiesWrite]\<rparr>"
  have s: "service_proxies \<in> set Services" by (simp add: Services_def)
  have c: "gm_get (ta_Levels operator_access) (svc_ID service_proxies) = Some (lv_ID (svc_Levels service_proxies ! 1))" by code_simp
  have l: "svc_Levels service_proxies ! 1 \<in> set (svc_Levels service_proxies)" by code_simp
  have "PermissionByID (level_permission service_proxies 1) = Some ?p"
    unfolding level_permission_def permission_of_level [OF s l] by code_simp
  then have p: "?p \<in> set Permissions" by (simp add: PermissionByID_iff)
  have "Grants operator_access (level_permission service_proxies 1)"
    using Grants_level [OF s _ _ c, of 1] by code_simp
  then have "holds_access operator_db ''u1'' (\<lambda>a. Grants a (pm_ID ?p))"
    by (simp add: holds_access_def operator_db_def operator_access_def)
  with p have "list_ex (\<lambda>p. CoversPATScope p ScopeProxiesWrite \<and> holds_access operator_db ''u1'' (\<lambda>a. Grants a (pm_ID p))) Permissions"
    unfolding list_ex_iff by (intro bexI [of _ ?p]) (simp_all add: CoversPATScope_def)
  moreover have "IsPATAuth operator_token" and "au_UserID operator_token = ''u1''" by code_simp+
  moreover have "\<not> user_IsAdmin operator_db ''u1''" and "UserRole operator_db ''u1'' \<noteq> []" by code_simp+
  moreover have "ScopeProxiesWrite \<in> set (au_PATScopes operator_token)" and "ScopeProxiesRead \<notin> set (au_PATScopes operator_token)" by code_simp+
  ultimately show ?thesis
    using token_within_account [of operator_token operator_db True] by simp
qed

section \<open>What the interface shows\<close>

text \<open>Every membership names a team that exists; identifiers of teams are unique.\<close>

definition teams_exist :: "rbac_db \<Rightarrow> bool" where
  "teams_exist db \<longleftrightarrow> gm_ok (rd_teams db) \<and> list_all (\<lambda>(t, u). t \<in> set (gm_keys (rd_teams db))) (rd_members db)"

lemma teams_of_ids: "teams_exist db \<Longrightarrow> fst ` set (teams_of db u) = {t. (t, u) \<in> set (rd_members db)}"
proof
  show "fst ` set (teams_of db u) \<subseteq> {t. (t, u) \<in> set (rd_members db)}"
    by (auto simp: teams_of_def split: if_splits)
  assume ok: "teams_exist db"
  show "{t. (t, u) \<in> set (rd_members db)} \<subseteq> fst ` set (teams_of db u)"
  proof
    fix t
    assume "t \<in> {t. (t, u) \<in> set (rd_members db)}"
    then have m: "(t, u) \<in> set (rd_members db)" by simp
    then obtain name where "(t, name) \<in> set (rd_teams db)"
      using ok by (auto simp: teams_exist_def list_all_iff)
    then have "(t, name) \<in> set (teams_of db u)"
      using m by (auto simp: teams_of_def intro!: bexI [of _ "(t, u)"])
    then show "t \<in> fst ` set (teams_of db u)" by force
  qed
qed

lemma TeamAccesses_set: "set (the (TeamAccesses True db t)) = {a. \<exists>pos. (a, pos) \<in> set (rd_accesses db) \<and> ta_TeamID a = t}"
  by (auto simp: TeamAccesses_def image_iff)

lemma team_access_ex:
  "list_ex P (concat (map atm_Accesses (map (access_team db) ts))) \<longleftrightarrow>
   (\<exists>t \<in> fst ` set ts. \<exists>a pos. (a, pos) \<in> set (rd_accesses db) \<and> ta_TeamID a = t \<and> P a)"
proof -
  have "set (atm_Accesses (access_team db x)) = {a. \<exists>pos. (a, pos) \<in> set (rd_accesses db) \<and> ta_TeamID a = fst x}" for x
    using TeamAccesses_set [of db "fst x"] by (simp add: access_team_def TeamAccesses_def)
  then show ?thesis by (auto simp: list_ex_iff)
qed

lemma engine_Scope_None:
  "\<not> user_IsAdmin db u \<Longrightarrow> filter_None (engine_Scope True db u perm) \<longleftrightarrow> \<not> holds_access db u (\<lambda>a. Grants a perm)"
  using list_ex_UserAccesses [of True db u, symmetric]
  by (simp add: engine_Scope_def UserAccesses_def filter_None_FilterFor)

text \<open>
  The permissions the interface shows for an account that is no administrator are exactly those for
  which the engine lets it see something, provided every membership names an existing team.
\<close>

theorem effective_access_exact:
  assumes "teams_exist db" and "\<not> user_IsAdmin db u"
  shows "perm \<in> set (acc_Granted (EffectiveAccess db u)) \<longleftrightarrow> \<not> filter_None (engine_Scope True db u perm)"
proof -
  let ?as = "concat (map atm_Accesses (map (access_team db) (teams_of db u)))"
  have "list_ex (\<lambda>a. Grants a perm) ?as \<longleftrightarrow> holds_access db u (\<lambda>a. Grants a perm)"
    unfolding team_access_ex teams_of_ids [OF assms(1)] by (auto simp: holds_access_def list_ex_iff)
  moreover have "perm \<in> set (acc_Granted (EffectiveAccess db u)) \<longleftrightarrow> (\<exists>p \<in> set Permissions. pm_ID p = perm) \<and> list_ex (\<lambda>a. Grants a perm) ?as"
    using assms(2) by (auto simp: EffectiveAccess_def Let_def user_IsAdmin_def)
  moreover have "list_ex (\<lambda>a. Grants a perm) ?as \<Longrightarrow> \<exists>p \<in> set Permissions. pm_ID p = perm"
    using Grants_known [of _ perm] by (auto simp: list_ex_iff PermissionByID_iff)
  ultimately show ?thesis by (auto simp: engine_Scope_None [OF assms(2)])
qed

lemma Grants_level_permission:
  "Grants operator_access (level_permission service_proxies 1)"
proof -
  have "service_proxies \<in> set Services" by (simp add: Services_def)
  moreover have "gm_get (ta_Levels operator_access) (svc_ID service_proxies) = Some (lv_ID (svc_Levels service_proxies ! 1))" by code_simp
  moreover have "length (svc_Levels service_proxies) = 3" and "lv_Class (svc_Levels service_proxies ! 1) \<noteq> ClassPlatform" by code_simp+
  ultimately show ?thesis using Grants_level [of service_proxies 1 1 operator_access] by simp
qed

theorem effective_access_exact_witness:
  "level_permission service_proxies 1 \<in> set (acc_Granted (EffectiveAccess operator_db ''u1''))"
proof -
  have "holds_access operator_db ''u1'' (\<lambda>a. Grants a (level_permission service_proxies 1))"
    using Grants_level_permission by (simp add: holds_access_def operator_db_def operator_access_def)
  moreover have "teams_exist operator_db" and n: "\<not> user_IsAdmin operator_db ''u1''" by code_simp+
  ultimately show ?thesis
    using effective_access_exact [of operator_db "''u1''" "level_permission service_proxies 1"] engine_Scope_None [OF n] by simp
qed

text \<open>
  Neither the members nor the accesses of a team are checked against the teams: rights through a team that does not
  exist are exercised but not shown.
\<close>

definition ghost_db :: rbac_db where
  "ghost_db = operator_db\<lparr>rd_teams := []\<rparr>"

lemma ghost_team_rights:
  "Can re True ghost_db ''u1'' (level_permission service_proxies 1) (host_resource ''a.corp.io'') \<and>
   acc_Granted (EffectiveAccess ghost_db ''u1'') = []"
proof
  have n: "\<not> user_IsAdmin ghost_db ''u1''" by code_simp
  have "perimeter_Matches re (ta_Perimeter operator_access) (host_resource ''a.corp.io'')"
  proof -
    have "hostMatchesDomainScope ''*.corp.io'' ''a.corp.io''" by code_simp
    then show ?thesis by (simp add: perimeter_Matches_def operator_access_def host_resource_def criterion_empty_def)
  qed
  then have "holds_access ghost_db ''u1'' (\<lambda>a. Grants a (level_permission service_proxies 1) \<and>
      (platform_permission (level_permission service_proxies 1) \<or> perimeter_Matches re (ta_Perimeter a) (host_resource ''a.corp.io'')))"
    using Grants_level_permission by (simp add: holds_access_def ghost_db_def operator_db_def operator_access_def)
  then show "Can re True ghost_db ''u1'' (level_permission service_proxies 1) (host_resource ''a.corp.io'')"
    by (simp add: Can_holds)
  have "teams_of ghost_db ''u1'' = []" by code_simp
  then show "acc_Granted (EffectiveAccess ghost_db ''u1'') = []" by (simp add: EffectiveAccess_def Let_def filter_False)
qed

section \<open>Visible hosts\<close>

lemma only_domain_matches:
  "only_domain p \<Longrightarrow> perimeter_Matches re p (host_resource h) = hostMatchesDomainScope (pe_Domain p) h"
  by (simp add: only_domain_def perimeter_Matches_def host_resource_def)

text \<open>A pattern of alerts is accepted although no host below it is visible.\<close>

definition corp_filter :: Filter where
  "corp_filter =
     \<lparr>fl_all = False, fl_perimeters = [ta_Perimeter operator_access]\<rparr>"

lemma pattern_wider_than_hosts:
  "vis_Pattern (NewVisibility re corp_filter [] None) ''*.a.corp.io'' \<and> \<not> vis_Host (NewVisibility re corp_filter [] None) ''x.a.corp.io''"
  by code_simp

end
