(* ===== verification/Rights_Properties.thy ===== *)
theory Rights_Properties
  imports Rbac_Properties
begin

text \<open>
  What the guards of the administration server promise: who enters a route, that a request no table knows is
  refused, and that every registered route declares rights of the catalogue that fit its guard.
\<close>

section \<open>Who enters\<close>

lemma LoadCaller_iff:
  "LoadCaller ok db u =
   (if user_IsAdmin db u then Some \<lparr>cl_UserID = u, cl_Role = UserRole db u, cl_Accesses = []\<rparr>
    else map_option (\<lambda>as. \<lparr>cl_UserID = u, cl_Role = UserRole db u, cl_Accesses = as\<rparr>) (UserAccesses ok db u))"
  by (simp add: LoadCaller_def Let_def user_IsAdmin_def)

text \<open>The abstract rule of each guard for an account that is no administrator.\<close>

definition some_level :: "TeamAccess \<Rightarrow> bool" where
  "some_level a \<longleftrightarrow> ta_Levels a \<noteq> [] \<or> ta_Permissions a \<noteq> []"

definition unrestricted :: "string \<Rightarrow> TeamAccess \<Rightarrow> bool" where
  "unrestricted perm a \<longleftrightarrow> Grants a perm \<and> (platform_permission perm \<or> perimeterAware perm \<or> perimeter_empty (ta_Perimeter a))"

fun may_enter :: "wrapper \<Rightarrow> bool \<Rightarrow> rbac_db \<Rightarrow> string \<Rightarrow> request \<Rightarrow> bool" where
  "may_enter AdminOnly ok db u r = False"
| "may_enter AdminWrites ok db u r = (rq_Method r = ''GET'')"
| "may_enter GatedReads ok db u r =
     (ok \<and> rq_Method r = ''GET'' \<and> holds_access db u (\<lambda>a. Grants a (fst (readPermission r))))"
| "may_enter GatedOpen ok db u r = (ok \<and> (if isRead r then holds_access db u (\<lambda>a. Grants a (fst (readPermission r))) else True))"
| "may_enter GatedOperate ok db u r = (ok \<and> holds_access db u (\<lambda>a. Grants a (fst (operatePermission r))))"
| "may_enter GatedOperatorReads ok db u r =
     (ok \<and> (if isRead r then holds_access db u (\<lambda>a. Grants a (fst (readPermission r))) else True)
      \<and> (if rq_Method r = ''GET'' then True else holds_access db u (\<lambda>a. Grants a ''proxies:operate'')))"
| "may_enter MemberReads ok db u r = (ok \<and> (if isRead r then holds_access db u some_level else True))"
| "may_enter (GatedAll t) ok db u r = (ok \<and> holds_access db u (unrestricted (fst (table_permission t r))))"
| "may_enter w ok db u r = True"

lemmas snd_tables = if_distrib [of snd] snd_conv if_cancel unmapped_def Let_def readOrManage_def

lemma readPermission_gated: "snd (readPermission r) = isRead r"
  by (simp only: readPermission_def snd_tables) simp

lemma operatePermission_gated: "snd (operatePermission r)"
  by (simp only: operatePermission_def snd_tables readPermission_gated) simp

lemma table_permission_gated: "snd (table_permission t r)"
  by (cases t) (simp_all only: table_permission.simps portalPermission_def securityPermission_def automationPermission_def snd_tables simp_thms)

lemma fl_all_FilterFor:
  "fl_all (FilterFor as perm) \<longleftrightarrow>
   list_ex (\<lambda>a. Grants a perm \<and> (platform_permission perm \<or> perimeter_empty (ta_Perimeter a))) as"
proof (cases "PermissionByID perm")
  case None
  then show ?thesis by (auto simp: FilterFor_def list_ex_iff dest: Grants_known)
next
  case (Some p)
  then show ?thesis by (simp add: FilterFor_def collect_all platform_permission_def)
qed

lemma Gate_member:
  assumes "\<not> user_IsAdmin db u"
  shows "Gate resolve ok db u r =
    (case UserAccesses ok db u of
       None \<Rightarrow> Refused 403
     | Some as \<Rightarrow> if snd (resolve r) \<and> \<not> list_ex (\<lambda>a. Grants a (fst (resolve r))) as then Refused 403
                  else Next \<lparr>cl_UserID = u, cl_Role = UserRole db u, cl_Accesses = as\<rparr>)"
  using assms
  by (cases "UserAccesses ok db u")
    (auto simp: Gate_def LoadCaller_iff caller_IsAdmin_def user_IsAdmin_def caller_Filter_def filter_None_FilterFor split: prod.splits)

lemma Gate_admin:
  assumes "user_IsAdmin db u"
  shows "Gate resolve ok db u r = Next \<lparr>cl_UserID = u, cl_Role = UserRole db u, cl_Accesses = []\<rparr>"
  using assms by (simp add: Gate_def LoadCaller_iff caller_IsAdmin_def user_IsAdmin_def)

lemma GateUnrestricted_member:
  assumes "\<not> user_IsAdmin db u" and g: "snd (resolve r)"
  shows "GateUnrestricted resolve ok db u r =
    (case UserAccesses ok db u of
       None \<Rightarrow> Refused 403
     | Some as \<Rightarrow> if list_ex (unrestricted (fst (resolve r))) as
                  then Next \<lparr>cl_UserID = u, cl_Role = UserRole db u, cl_Accesses = as\<rparr> else Refused 403)"
proof -
  obtain perm where p: "resolve r = (perm, True)" using g by (cases "resolve r") auto
  show ?thesis
    using assms(1)
    by (cases "UserAccesses ok db u")
      (auto simp: GateUnrestricted_def LoadCaller_iff caller_IsAdmin_def user_IsAdmin_def caller_Filter_def p Let_def
        fl_all_FilterFor filter_None_FilterFor unrestricted_def list_ex_iff)
qed

lemma UserAccesses_cases: "UserAccesses ok db u = (if ok then Some (the (UserAccesses True db u)) else None)"
  by (simp add: UserAccesses_def)

lemma members_list_ex: "list_ex P (the (UserAccesses True db u)) \<longleftrightarrow> holds_access db u P"
  using list_ex_UserAccesses [of True db u] by (simp add: UserAccesses_def)

lemma UserHasWriteGrant_iff: "UserHasWriteGrant ok db u \<longleftrightarrow> ok \<and> holds_access db u (\<lambda>a. Grants a ''proxies:operate'')"
  by (simp add: UserHasWriteGrant_def UserAccesses_cases [of ok] members_list_ex)

lemma GateMemberReads_iff:
  "then_Next (GateMemberReads ok db u r) =
   (if user_IsAdmin db u \<or> ok \<and> (if isRead r then holds_access db u some_level else True) then Next () else Refused 403)"
proof -
  obtain as where as: "UserAccesses True db u = Some as" by (simp add: UserAccesses_def)
  then have "UserAccesses ok db u = (if ok then Some as else None)" by (simp add: UserAccesses_def)
  moreover have "HasAnyAccess (Some \<lparr>cl_UserID = u, cl_Role = UserRole db u, cl_Accesses = as\<rparr>) \<longleftrightarrow> holds_access db u some_level"
    unfolding list_ex_UserAccesses [OF as, symmetric] by (simp add: HasAnyAccess_def some_level_def [abs_def])
  ultimately show ?thesis
    by (cases ok) (auto simp: GateMemberReads_def LoadCaller_iff caller_IsAdmin_def user_IsAdmin_def then_Next_def isRead_def)
qed

lemmas guard_defs = then_Next_def after_def RequireAdmin_def RequireAdminForWrites_def RequireOperatorForWrites_def
  RequireOperator_def writesOnly_def

lemma inner_guard_iff:
  "inner_guard w ok db u r = (if user_IsAdmin db u \<or> may_enter w ok db u r then Next () else Refused 403)"
proof (cases "user_IsAdmin db u")
  case True
  then show ?thesis
    by (cases w) (simp_all add: guard_defs Gate_admin GateUnrestricted_def GateMemberReads_def LoadCaller_iff caller_IsAdmin_def
      user_IsAdmin_def)
next
  case False
  note member = Gate_member [OF False] GateUnrestricted_member [OF False] UserAccesses_cases [of ok] members_list_ex
    UserHasWriteGrant_iff
  show ?thesis
  proof (cases w)
    case MemberReads
    then show ?thesis using False by (simp add: GateMemberReads_iff)
  qed (use False in \<open>auto simp: guard_defs member readPermission_gated operatePermission_gated table_permission_gated isRead_def\<close>)
qed


section \<open>Requests no table knows\<close>

definition gate_permissions :: "string list" where
  "gate_permissions =
     [''logs:read'', ''logs:export'', ''logs_settings:read'', ''certs:read'', ''certs:deploy'', ''certs:export_key'', ''certs:manage'',
      ''alerts:read'', ''alerts:ack'', ''alerts:rules'', ''alert_channels:read'', ''alert_channels:test'', ''alert_channels:manage'',
      ''dashboard:read'', ''audit:read'', ''snippets:read'', ''ip_profiles:read'', ''domains:read'', ''domains:manage'',
      ''portal_templates:read'', ''portal_templates:manage'', ''portal_users:read'', ''portal_users:manage'',
      ''portal_catalog:read'', ''portal_catalog:manage'', ''portal_policies:read'', ''portal_policies:manage'',
      ''portal_audit:read'', ''portal_requests:read'', ''portal_requests:decide'', ''portal_recordings:list'',
      ''portal_recordings:replay'', ''portal_recordings:delete'', ''portal_sessions:read'', ''portal_sessions:observe'',
      ''portal_sessions:cut'', ''netsec:read'', ''netsec:respond'', ''netsec:analyse'', ''engines:read'', ''engines:tune'',
      ''engines:simulate'', ''surface:read'', ''surface:learn'', ''surface:enforce'', ''bans:import'',
      ''automation:read'', ''automation:run'', ''automation:edit'', ''automation:approve'']"

lemma gate_permissions_known: "list_all (\<lambda>i. PermissionByID i \<noteq> None) gate_permissions"
  by (simp add: gate_permissions_def permission_rules)

lemma gate_permissions_member: "i \<in> set gate_permissions \<Longrightarrow> PermissionByID i \<noteq> None"
  using gate_permissions_known by (auto simp: list_all_iff)

lemma unmapped_hash: "list_all (\<lambda>p. name_hash (pm_ID p) \<noteq> name_hash ''unmapped'') Permissions"
  by code_simp

lemma unmapped_unknown: "PermissionByID ''unmapped'' = None"
  using unmapped_hash by (auto simp: PermissionByID_def find_None_iff list_all_iff)

lemma Grants_unmapped [simp]: "\<not> Grants a ''unmapped''"
  using Grants_known [of a "''unmapped''"] unmapped_unknown by blast

definition known_answer :: "string \<times> bool \<Rightarrow> bool" where
  "known_answer x \<longleftrightarrow> fst x = [] \<or> fst x = ''unmapped'' \<or> PermissionByID (fst x) \<noteq> None"

lemma known_answer_rules: "list_all (\<lambda>i. known_answer (i, True)) gate_permissions"
  using gate_permissions_known by (auto simp: known_answer_def list_all_iff)

lemmas known_rules = known_answer_rules [unfolded gate_permissions_def, simplified]

lemma known_others: "known_answer ([], b)" "known_answer unmapped"
  by (simp_all add: known_answer_def unmapped_def)

lemmas known_if = if_distrib [of known_answer]

lemma known_readOrManage: "known_answer (readOrManage r a b) = (if isRead r then known_answer (a, True) else known_answer (b, True))"
  by (simp add: readOrManage_def)

lemma known_unmapped: "known_answer (''unmapped'', True)"
  by (simp add: known_answer_def)

lemmas known_simps = known_if known_readOrManage known_rules known_others known_unmapped if_cancel Let_def

lemma known_read: "known_answer (readPermission r)"
  by (simp only: readPermission_def known_simps)

lemma known_operate: "known_answer (operatePermission r)"
  by (simp only: operatePermission_def known_simps known_read)

lemma known_table: "known_answer (table_permission t r)"
  by (cases t) (simp_all only: table_permission.simps portalPermission_def securityPermission_def automationPermission_def known_simps)

text \<open>
  Whatever the request, each of the five tables answers a permission of the catalogue, the name that is in
  no catalogue, or (for a writing that the reading table does not judge) nothing; and no access grants the
  name that is in no catalogue. So a request that no line of a table recognises is refused.
\<close>

theorem tables_closed:
  "known_answer (readPermission r) \<and> known_answer (operatePermission r) \<and> known_answer (table_permission t r) \<and>
   \<not> Grants a ''unmapped''"
  using known_read known_operate known_table by simp

section \<open>Registered routes\<close>

definition key_hash :: "string \<times> string \<Rightarrow> int" where
  "key_hash k = name_hash (fst k @ snd k)"

text \<open>What \<open>rights_guard_test.go\<close> demands of a declaration and the guard of its route.\<close>

fun kind_fits :: "wrapper \<Rightarrow> routeKind \<Rightarrow> bool" where
  "kind_fits Unprotected k = (k \<in> {KindPublic, KindStatic, KindSecret})"
| "kind_fits BearerToken k = (k = KindGateway)"
| "kind_fits OnlyPAT k = (k = KindMCP)"
| "kind_fits Protected k = (k = KindService \<or> k = KindSelf)"
| "kind_fits MemberReads k = (k = KindService \<or> k = KindSelf)"
| "kind_fits w k = (k = KindService)"

definition declares_permission :: "routeRights \<Rightarrow> string \<Rightarrow> bool" where
  "declares_permission d i =
     (if i = [] then True
      else (case PermissionByID i of
              None \<Rightarrow> False
            | Some p \<Rightarrow> if rr_Mixed d then True else pm_Service p = rr_Service d))"

definition declaration_ok :: "routeRights \<Rightarrow> bool" where
  "declaration_ok d =
     (if rr_Kind d \<noteq> KindService then rr_Service d = [] \<and> rr_Read d = [] \<and> rr_Write d = [] \<and> rr_Delete d = []
      else ServiceByID (rr_Service d) \<noteq> None \<and> \<not> (rr_Read d = [] \<and> rr_Write d = [])
        \<and> list_all (declares_permission d) [rr_Read d, rr_Write d, rr_Delete d]
        \<and> (if rr_Mixed d then rr_Note d \<noteq> [] else True))"

lemma service_table: "list_all (\<lambda>s. ServiceByID (svc_ID s) = Some s) Services"
  by (simp add: list_all_iff ServiceByID_iff)

lemmas service_rules = service_table [unfolded Services_def service_defs, simplified]

lemmas gdpr_rules = permission_rules [unfolded PermGDPRReveal_def PermGDPRExport_def PermGDPRErase_def PermGDPRHold_def
  ScopeGDPRReveal_def ScopeGDPRExport_def ScopeGDPRErase_def]

lemma declarations_ok: "list_all (\<lambda>(k, d). declaration_ok d) routeDeclarations"
  unfolding routeDeclarations_def
  by (simp add: declaration_ok_def declares_permission_def svc_def mixed_def gdpr_rules service_rules)

lemma declared_hashes: "all_differ (map (\<lambda>e. key_hash (fst e)) routeDeclarations)"
  by code_simp

lemma route_hashes: "all_differ (map (\<lambda>e. key_hash (fst e)) server_routes)"
  by code_simp

lemma routes_distinct: "distinct (map fst server_routes)" and declarations_distinct: "distinct (map fst routeDeclarations)"
  by (rule distinct_by_hash [where h = key_hash and f = fst, OF route_hashes])
    (rule distinct_by_hash [where h = key_hash and f = fst, OF declared_hashes])

definition declared :: "string \<times> string \<Rightarrow> routeRights option" where
  "declared k = map_of routeDeclarations k"

lemma declared_table: "list_all (\<lambda>(k, d). declared k = Some d) routeDeclarations"
  using declarations_distinct by (auto simp: list_all_iff declared_def)

lemmas declared_rules = declared_table [unfolded routeDeclarations_def, simplified]

definition route_declared :: "(string \<times> string) \<times> wrapper \<Rightarrow> bool" where
  "route_declared e = (case declared (fst e) of None \<Rightarrow> False | Some d \<Rightarrow> kind_fits (snd e) (rr_Kind d))"

lemma routes_declared: "list_all route_declared server_routes"
  unfolding server_routes_def
  by (simp add: route_declared_def declared_rules svc_def mixed_def)

lemma route_count: "length server_routes = length routeDeclarations"
  by code_simp

text \<open>
  The routes registered in the server are exactly those whose rights are declared; the kind of every
  declaration fits the guard around the route, and every declared service and permission is in the catalogue and
  belongs together.
\<close>

theorem routes_declare_rights:
  "fst ` set server_routes = fst ` set routeDeclarations \<and> list_all route_declared server_routes \<and>
   list_all (\<lambda>(k, d). declaration_ok d) routeDeclarations"
proof -
  have "fst e \<in> fst ` set routeDeclarations" if "e \<in> set server_routes" for e
  proof -
    have "declared (fst e) \<noteq> None"
      using that routes_declared by (auto simp: list_all_iff route_declared_def split: option.splits)
    then show ?thesis by (simp add: declared_def map_of_eq_None_iff)
  qed
  then have sub: "set (map fst server_routes) \<subseteq> set (map fst routeDeclarations)" by auto
  have "card (set (map fst server_routes)) = card (set (map fst routeDeclarations))"
    using routes_distinct declarations_distinct route_count by (simp only: distinct_card length_map)
  with sub have "set (map fst server_routes) = set (map fst routeDeclarations)"
    by (intro card_subset_eq) simp_all
  then show ?thesis using routes_declared declarations_ok by simp
qed

section \<open>Requests that demand no scope of a token\<close>

text \<open>The prefix of the account itself is also the prefix of the metrics, so their scope is never demanded.\<close>

lemma metrics_scope_never_demanded:
  "RequiredScopeForRequest \<lparr>rq_Method = ''GET'', rq_Path = ''/api/v1/metrics/proxies''\<rparr> = []
   \<and> declared ([], ''/api/v1/metrics/proxies'') = Some (svc ''dashboard'' ''dashboard:read'' ''dashboard:manage'')
   \<and> list_ex (\<lambda>(ps, rd, wr). ''/api/v1/metrics/proxies'' \<in> set ps \<and> rd = ScopeMetricsRead) scope_cases"
proof -
  have "declared ([], ''/api/v1/metrics/proxies'') = Some (svc ''dashboard'' ''dashboard:read'' ''dashboard:manage'')"
    by (simp add: declared_rules)
  moreover have "list_ex (\<lambda>(ps, rd, wr). ''/api/v1/metrics/proxies'' \<in> set ps \<and> rd = ScopeMetricsRead) scope_cases"
    by (simp add: scope_cases_def)
  moreover have "RequiredScopeForRequest \<lparr>rq_Method = ''GET'', rq_Path = ''/api/v1/metrics/proxies''\<rparr> = []"
    by (simp add: RequiredScopeForRequest_def HasPrefix_def)
  ultimately show ?thesis by simp
qed

text \<open>A token without any scope writes the architecture and the mail settings, if its account is an administrator.\<close>

lemma unscoped_token_writes:
  assumes "IsPATAuth c" and "au_PATScopes c = []" and "user_IsAdmin db (au_UserID c)"
    and "path \<in> {''/api/v1/architecture'', ''/api/v1/settings/smtp''}"
  shows "protected AdminOnly ok db (Some c) \<lparr>rq_Method = ''PUT'', rq_Path = path\<rparr> = Next ()"
proof -
  have "RequiredScopeForRequest \<lparr>rq_Method = ''PUT'', rq_Path = path\<rparr> = []"
    using assms(4) by (auto simp: RequiredScopeForRequest_def HasPrefix_def HasSuffix_def scope_cases_def)
  then show ?thesis using assms by (simp add: protected_def EnforcePATScope_def after_def inner_guard_iff)
qed

end
