(* ===== verification/Gateway_Scopes.thy ===== *)
theory Gateway_Scopes
  imports Perimeter
begin

text \<open>
  What the scopes of the token of a gateway deliver: wildcards of domains cover one label, and making a
  gateway responsible for a domain gives it the certificate without taking anything from it.
\<close>

section \<open>Trimming\<close>

lemma dropWhile_rev_fixed: "dropWhile P xs = xs \<Longrightarrow> dropWhile P (rev (dropWhile P (rev xs))) = rev (dropWhile P (rev xs))"
proof (induction xs)
  case (Cons x xs)
  have np: "\<not> P x" using Cons.prems by (metis dropWhile.simps(2) impossible_Cons length_dropWhile_le)
  then show ?case
    by (simp add: dropWhile_append split: if_splits)
qed simp

lemma TrimSpace_idem [simp]: "TrimSpace (TrimSpace s) = TrimSpace s"
proof -
  have "dropWhile is_space (rev (dropWhile is_space (rev (dropWhile is_space s)))) = rev (dropWhile is_space (rev (dropWhile is_space s)))"
    by (rule dropWhile_rev_fixed) simp
  then show ?thesis by (simp add: TrimSpace_def)
qed

section \<open>Wildcards of domains\<close>

definition one_label :: "string \<Rightarrow> string \<Rightarrow> bool" where
  "one_label d h \<longleftrightarrow> (let n = length h - Suc (length d) in Suc (length d) < length h \<and> drop n h = CHR ''.'' # d \<and> CHR ''.'' \<notin> set (take n h))"

lemma one_label_iff: "one_label d h \<longleftrightarrow> (\<exists>l. l \<noteq> [] \<and> CHR ''.'' \<notin> set l \<and> h = l @ CHR ''.'' # d)"
proof
  assume "one_label d h"
  then have "h = take (length h - Suc (length d)) h @ CHR ''.'' # d" and "Suc (length d) < length h"
    and "CHR ''.'' \<notin> set (take (length h - Suc (length d)) h)"
    by (auto simp: one_label_def Let_def) (metis append_take_drop_id)
  then show "\<exists>l. l \<noteq> [] \<and> CHR ''.'' \<notin> set l \<and> h = l @ CHR ''.'' # d"
    by (intro exI [of _ "take (length h - Suc (length d)) h"]) auto
next
  assume "\<exists>l. l \<noteq> [] \<and> CHR ''.'' \<notin> set l \<and> h = l @ CHR ''.'' # d"
  then show "one_label d h" by (auto simp: one_label_def)
qed

text \<open>
  A domain scope that is a wildcard covers a host exactly when the host is one label in front of the domain
  (or the wildcard itself): neither the domain nor deeper hosts. Case and outer blanks of the host do not matter.
\<close>

theorem wildcard_scope_one_label:
  assumes d: "ToLower (TrimSpace (''*.'' @ d)) = ''*.'' @ d" and h: "TrimSpace h = h"
  shows "hostMatchesDomainScope (''*.'' @ d) h \<longleftrightarrow> ToLower h = ''*.'' @ d \<or> one_label d (ToLower h)"
proof -
  define x where "x = ToLower h"
  have p: "HasPrefix (''*.'' @ d) ''*.''" by (simp add: HasPrefix_iff)
  have label: "one_label d x \<longleftrightarrow> HasSuffix x (CHR ''.'' # d) \<and> Suc (length d) < length x
      \<and> CHR ''.'' \<notin> set (take (length x - Suc (length d)) x)"
    by (auto simp: one_label_def HasSuffix_def Let_def)
  have "one_label d x \<Longrightarrow> x \<noteq> []" by (auto simp: one_label_def Let_def)
  then have "HostCoveredByPattern h (''*.'' @ d) \<longleftrightarrow> x = ''*.'' @ d \<or> one_label d x"
    unfolding HostCoveredByPattern_def d h x_def [symmetric] Let_def using p by (auto simp: label Contains_def)
  moreover have "HasPrefix (ToLower (TrimSpace (''*.'' @ d))) ''*.''" unfolding d by (rule p)
  ultimately show ?thesis by (simp add: hostMatchesDomainScope_def Let_def x_def)
qed

theorem wildcard_scope_one_label_witness:
  "hostMatchesDomainScope ''*.corp.io'' ''API.corp.io'' \<and> \<not> hostMatchesDomainScope ''*.corp.io'' ''corp.io''
   \<and> \<not> hostMatchesDomainScope ''*.corp.io'' ''a.b.corp.io''"
proof -
  have d: "ToLower (TrimSpace (''*.'' @ ''corp.io'')) = ''*.'' @ ''corp.io''" by code_simp
  have h: "TrimSpace ''API.corp.io'' = ''API.corp.io''" "TrimSpace ''corp.io'' = ''corp.io''" "TrimSpace ''a.b.corp.io'' = ''a.b.corp.io''"
    by code_simp+
  have l: "one_label ''corp.io'' (ToLower ''API.corp.io'')" "\<not> one_label ''corp.io'' (ToLower ''corp.io'')"
    "\<not> one_label ''corp.io'' (ToLower ''a.b.corp.io'')" "ToLower ''corp.io'' \<noteq> ''*.'' @ ''corp.io''" "ToLower ''a.b.corp.io'' \<noteq> ''*.'' @ ''corp.io''"
    by code_simp+
  show ?thesis
    using wildcard_scope_one_label [OF d h(1)] wildcard_scope_one_label [OF d h(2)] wildcard_scope_one_label [OF d h(3)] l by simp
qed

section \<open>Responsibility for a domain\<close>

lemma MatchCertName_append: "MatchCertName (a @ b) c \<longleftrightarrow> MatchCertName a c \<or> MatchCertName b c"
  by (simp add: MatchCertName_def Let_def)

lemma MatchRoute_append: "MatchRoute (a @ b) r \<longleftrightarrow> MatchRoute a r \<or> MatchRoute b r"
  by (simp add: MatchRoute_def)

text \<open>What \<open>EnsureDomainScope\<close> leaves in the tables.\<close>

lemma EnsureDomainScope_db:
  "snd (EnsureDomainScope t d db) = db \<or>
   (snd (EnsureDomainScope t d db) =
      db\<lparr>tdb_scopes := tdb_scopes db @ [(TrimSpace t, \<lparr>scp_Type = ''domain'', scp_Value = DomainScopePattern (TrimSpace d)\<rparr>)]\<rparr>
    \<and> \<not> (IsAdminRole (token_role db (TrimSpace t)) \<and> TokenScopes (TrimSpace t) db = []))"
  by (auto simp: EnsureDomainScope_def Let_def)

lemma TokenScopes_added:
  "TokenScopes i (db\<lparr>tdb_scopes := tdb_scopes db @ [(t, s)]\<rparr>) = TokenScopes i db @ (if i = t then [s] else [])"
  by (simp add: TokenScopes_def)

lemma token_role_added [simp]: "token_role (db\<lparr>tdb_scopes := x\<rparr>) i = token_role db i"
  by (simp add: token_role_def)

definition receives :: "token_db \<Rightarrow> string \<Rightarrow> string \<Rightarrow> bool" where
  "receives db i cert = ShouldReceiveCert (token_role db i) (TokenScopes i db) cert"

definition ensured :: "string \<Rightarrow> string \<Rightarrow> token_db \<Rightarrow> token_db" where
  "ensured t d db = snd (EnsureDomainScope t d db)"

definition pushed :: "token_db \<Rightarrow> string \<Rightarrow> Route list \<Rightarrow> Route list" where
  "pushed db i routes = FilterRoutesByScopes (token_role db i) (TokenScopes i db) routes"

lemma kept_by_added:
  assumes "\<not> (IsAdminRole role \<and> scopes = [])"
  shows "ShouldReceiveCert role scopes c \<Longrightarrow> ShouldReceiveCert role (scopes @ [x]) c"
    and "RouteAllowedByToken role scopes (Some r) \<Longrightarrow> RouteAllowedByToken role (scopes @ [x]) (Some r)"
  using assms by (auto simp: ShouldReceiveCert_def RouteAllowedByToken_def MatchCertName_append MatchRoute_append split: if_splits)

lemma domain_pattern_covers:
  assumes "plain d" and "d \<noteq> []" and "TrimSpace d = d" and "CHR ''/'' \<notin> set d"
  shows "MatchCertName [\<lparr>scp_Type = ''domain'', scp_Value = DomainScopePattern d\<rparr>] d"
proof -
  have np: "\<not> HasPrefix d ''*.''" using assms(1) by (auto simp: HasPrefix_iff)
  have "\<not> Contains d CHR ''*''" using assms(1) by (auto simp: Contains_def plain_def list_all_iff)
  then have p: "DomainScopePattern d = ''*.'' @ d \<or> DomainScopePattern d = d"
    using assms(2,3) by (simp add: DomainScopePattern_def Let_def)
  have "globMatch (''*.'' @ d) (''*.'' @ d)"
    using path_Match_star_plain [of "CHR ''.'' # d" "CHR ''*'' # CHR ''.'' # d"] assms(1)
    by (auto simp: globMatch_def intro!: exI [of _ "''*''"])
  moreover have "globMatch d d" using path_Match_plain [OF assms(1), of d] by (simp add: globMatch_def)
  ultimately show ?thesis
    using p np assms by (auto simp: MatchCertName_def Let_def cert_candidates_def)
qed

lemma pattern_same_candidates:
  assumes "plain d" and "d \<noteq> []" and "TrimSpace d = d" and "TrimSpace (''*.'' @ d) = ''*.'' @ d"
  shows "MatchCertName scopes (DomainScopePattern d) \<longleftrightarrow> MatchCertName scopes d"
proof -
  have np: "\<not> HasPrefix d ''*.''" using assms(1) by (auto simp: HasPrefix_iff)
  have "\<not> Contains d CHR ''*''" using assms(1) by (auto simp: Contains_def plain_def list_all_iff)
  then consider "DomainScopePattern d = ''*.'' @ d" | "DomainScopePattern d = d"
    using assms(2,3) by (cases "length (filter (\<lambda>l. l \<noteq> []) (split_dot d)) \<le> 2") (simp_all add: DomainScopePattern_def Let_def)
  then show ?thesis
  proof cases
    case 1
    have "HasPrefix (''*.'' @ d) ''*.''" by (simp add: HasPrefix_iff)
    then have "cert_candidates (''*.'' @ d) = [''*.'' @ d, d]" and "cert_candidates d = [d, ''*.'' @ d]"
      using np by (simp_all add: cert_candidates_def)
    then show ?thesis using 1 assms by (auto simp: MatchCertName_def list_ex_iff)
  qed simp
qed

lemma TrimSpace_star: "TrimSpace d = d \<Longrightarrow> d \<noteq> [] \<Longrightarrow> TrimSpace (''*.'' @ d) = ''*.'' @ d"
proof -
  assume d: "TrimSpace d = d" and ne: "d \<noteq> []"
  let ?x = "dropWhile is_space (rev (dropWhile is_space d))"
  have "rev ?x = d" using d by (simp add: TrimSpace_def)
  then have "?x \<noteq> []" and "last d = hd ?x" using ne by (metis rev.simps(1), metis last_rev)
  then have "\<not> is_space (last d)" by (simp add: hd_dropWhile)
  then show ?thesis
    using ne by (cases d rule: rev_cases) (auto simp: TrimSpace_def is_space_def)
qed

text \<open>
  C36: Making a gateway responsible for a plain domain: afterwards it receives the certificate of the domain; no
  certificate and no route that any gateway received before is lost; other tokens keep their scopes, and a
  gateway with access to everything is not restricted.
\<close>

theorem domain_scope_delivers:
  assumes "plain d" and "d \<noteq> []" and "TrimSpace d = d" and "CHR ''/'' \<notin> set d" and "TrimSpace t = t" and "t \<noteq> []"
  shows "receives (ensured t d db) t d \<and> set (filter (receives db i) certs) \<subseteq> set (filter (receives (ensured t d db) i) certs)
     \<and> set (pushed db i routes) \<subseteq> set (pushed (ensured t d db) i routes)
     \<and> (if i = t then True else TokenScopes i (ensured t d db) = TokenScopes i db)
     \<and> (if IsAdminRole (token_role db i) \<and> TokenScopes i db = [] then TokenScopes i (ensured t d db) = [] else True)"
proof (intro conjI)
  define db' where "db' = ensured t d db"
  note fold_db = db'_def [symmetric]
  note db' = EnsureDomainScope_db [of t d db, folded ensured_def db'_def, unfolded assms(3,5)]
  have own: "t = i \<Longrightarrow> db' \<noteq> db \<Longrightarrow> \<not> (IsAdminRole (token_role db i) \<and> TokenScopes i db = [])"
    using db' by auto
  have scopes: "db' = db \<or> TokenScopes i db' = TokenScopes i db @ (if i = t then [\<lparr>scp_Type = ''domain'', scp_Value = DomainScopePattern d\<rparr>] else [])
      \<and> token_role db' i = token_role db i"
    using db' by (auto simp: TokenScopes_added)
  show "set (filter (receives db i) certs) \<subseteq> set (filter (receives (ensured t d db) i) certs)"
    unfolding fold_db
    using scopes own kept_by_added(1) by (cases "db' = db"; cases "i = t") (auto simp: receives_def)
  show "set (pushed db i routes) \<subseteq> set (pushed (ensured t d db) i routes)"
    unfolding fold_db
    using scopes own kept_by_added(2) by (cases "db' = db"; cases "i = t") (auto simp: pushed_def FilterRoutesByScopes_def)
  show "if i = t then True else TokenScopes i (ensured t d db) = TokenScopes i db"
    unfolding fold_db
    using scopes by auto
  show "if IsAdminRole (token_role db i) \<and> TokenScopes i db = [] then TokenScopes i (ensured t d db) = [] else True"
    unfolding fold_db
    using scopes own by (cases "db' = db") auto
  have "receives db' t d"
  proof (cases "MatchCertName (TokenScopes t db) d \<or> IsAdminRole (token_role db t) \<and> TokenScopes t db = []")
    case True
    have "db' = db" using True assms by (auto simp: db'_def ensured_def EnsureDomainScope_def Let_def)
    with True show ?thesis
      by (auto simp: receives_def ShouldReceiveCert_def MatchCertName_def Let_def)
  next
    case False
    have "\<not> MatchCertName (TokenScopes t db) (DomainScopePattern d)"
      using False pattern_same_candidates [OF assms(1,2,3) TrimSpace_star [OF assms(3,2)]] by simp
    moreover have "DomainScopePattern d \<noteq> []"
      using assms(2,3) by (simp add: DomainScopePattern_def Let_def)
    ultimately have "db' = db\<lparr>tdb_scopes := tdb_scopes db @ [(t, \<lparr>scp_Type = ''domain'', scp_Value = DomainScopePattern d\<rparr>)]\<rparr>"
      using False assms by (auto simp: db'_def ensured_def EnsureDomainScope_def Let_def IsAdminRole_def IsSuperAdminRole_def)
    then show ?thesis
      using domain_pattern_covers [OF assms(1-4)]
      by (simp add: receives_def ShouldReceiveCert_def TokenScopes_added MatchCertName_append)
  qed
  then show "receives (ensured t d db) t d" by (simp add: db'_def)
qed

definition scoped_db :: token_db where
  "scoped_db =
     \<lparr>tdb_tokens = [\<lparr>tkr_id = ''e1'', tkr_token = ''s'', tkr_role = ''edge'', tkr_rbac_role = Some ''user'', tkr_revoked = False,
        tkr_expires = None, tkr_node_name = ''paris'', tkr_node_endpoint = None, tkr_created = 0\<rparr>],
      tdb_scopes = [(''e1'', \<lparr>scp_Type = ''domain'', scp_Value = ''*.corp.io''\<rparr>)]\<rparr>"

theorem domain_scope_delivers_witness:
  "receives (ensured ''e1'' ''shop.fr'' scoped_db) ''e1'' ''shop.fr'' \<and> \<not> receives scoped_db ''e1'' ''shop.fr''
   \<and> set (filter (receives scoped_db ''e1'') [''a.corp.io'']) \<subseteq> set (filter (receives (ensured ''e1'' ''shop.fr'' scoped_db) ''e1'') [''a.corp.io''])"
proof -
  have h: "plain ''shop.fr''" "TrimSpace ''shop.fr'' = ''shop.fr''" "CHR ''/'' \<notin> set ''shop.fr''" "TrimSpace ''e1'' = ''e1''"
    by code_simp+
  have "\<not> receives scoped_db ''e1'' ''shop.fr''" by code_simp
  then show ?thesis
    using domain_scope_delivers [OF h(1) _ h(2,3,4), of scoped_db "''e1''" "[''a.corp.io'']" "[]"] by simp
qed

section \<open>Certificates and routes differ\<close>

text \<open>
  The scope that gives a gateway the certificate of a domain need not give it the routes of the domain: the
  pattern derived from an apex does not cover the apex, and the wildcard of a certificate covers deeper names
  than the wildcard of a route.
\<close>

definition host_route :: "string \<Rightarrow> Route" where
  "host_route h = zero_route\<lparr>rt_ID := ''r'', rt_Host := h\<rparr>"

lemma certificate_without_route:
  "receives (ensured ''e1'' ''shop.fr'' scoped_db) ''e1'' ''shop.fr'' \<and> pushed (ensured ''e1'' ''shop.fr'' scoped_db) ''e1'' [host_route ''shop.fr''] = []"
  "snd (fst (EnsureDomainScope ''e1'' ''a.b.corp.io'' scoped_db)) = False \<and> receives scoped_db ''e1'' ''a.b.corp.io''
   \<and> pushed scoped_db ''e1'' [host_route ''a.b.corp.io''] = []"
  by code_simp+

end
