(* ===== verification/Accounts.thy ===== *)
theory Accounts
  imports Rbac_Guards
begin

text \<open>
  Accounts, teams, sessions and tokens of the administration server (\<open>internal/admin/api/users.go\<close>,
  \<open>teams.go\<close>, \<open>me.go\<close>, \<open>user_tokens.go\<close>, \<open>internal/admin/auth\<close>). A handler takes the decoded body
  (\<open>None\<close> if it is no JSON), the account that calls (\<open>actor\<close>), what the code draws at random (identifiers, salted
  hashes) and the tables, and returns the status and the tables. The flag \<open>ok\<close> says whether the queries
  for rights succeed. \<open>sha\<close> is SHA-256, \<open>parse\<close> the JWT library: the claims of a token with a valid signature.
\<close>

section \<open>Tables\<close>

record api_token =
  apt_id :: string
  apt_user :: string
  apt_label :: string
  apt_hash :: string
  apt_prefix :: string
  apt_expires :: "go_time option"
  apt_revoked :: bool
  apt_last_used :: "go_time option"

text \<open>Columns of \<open>users\<close> beside the role; the tables of second factors hold pairs of a row and its account.\<close>

record accounts_db =
  ac_rights :: rbac_db
  ac_emails :: "(string, string) gomap"
  ac_hashes :: "(string, string) gomap"
  ac_valid_after :: "(string, int) gomap"
  ac_tokens :: "api_token list"
  ac_token_scopes :: "(string \<times> string) list"
  ac_mfa :: "(string \<times> string) list"
  ac_challenges :: "(string \<times> string) list"
  ac_backup_codes :: "(string \<times> string) list"
  ac_trusted :: "(string \<times> string) list"

definition user_exists :: "accounts_db \<Rightarrow> string \<Rightarrow> bool" where
  "user_exists db u \<longleftrightarrow> u \<in> set (gm_keys (rd_users (ac_rights db)))"

definition email_taken :: "accounts_db \<Rightarrow> string \<Rightarrow> string \<Rightarrow> bool" where
  "email_taken db u email \<longleftrightarrow> list_ex (\<lambda>(v, e). v \<noteq> u \<and> e = email) (ac_emails db)"

definition drop_user :: "string \<Rightarrow> (string \<times> string) list \<Rightarrow> (string \<times> string) list" where
  "drop_user u rows = filter (\<lambda>(i, v). v \<noteq> u) rows"

definition unix :: "go_time \<Rightarrow> int" where
  "unix t = t div 10 ^ 9"

definition RevokeSessions :: "go_time \<Rightarrow> string \<Rightarrow> accounts_db \<Rightarrow> accounts_db" where
  "RevokeSessions now u db =
     (if user_exists db u then db\<lparr>ac_valid_after := gm_set u (unix now) (ac_valid_after db)\<rparr> else db)"

definition DeleteTrustedDevices :: "string \<Rightarrow> accounts_db \<Rightarrow> accounts_db" where
  "DeleteTrustedDevices u db = db\<lparr>ac_trusted := drop_user u (ac_trusted db)\<rparr>"

definition set_hash :: "string \<Rightarrow> string \<Rightarrow> accounts_db \<Rightarrow> accounts_db" where
  "set_hash u h db = (if user_exists db u then db\<lparr>ac_hashes := gm_set u h (ac_hashes db)\<rparr> else db)"

section \<open>Accounts\<close>

definition normalizePlatformRole :: "string \<Rightarrow> string \<times> bool" where
  "normalizePlatformRole role =
     (if role \<in> {''admin'', ''user''} then (role, True)
      else if role \<in> {''operator'', ''viewer''} then (''user'', True)
      else if role = ''superadmin'' then (''superadmin'', False)
      else ([], False))"

text \<open>Whether the guard of protected accounts lets the actor go on.\<close>

definition guardProtected :: "bool \<Rightarrow> string \<Rightarrow> string \<Rightarrow> accounts_db \<Rightarrow> bool" where
  "guardProtected ok actor u db \<longleftrightarrow>
     user_IsSuperAdmin (ac_rights db) actor \<or> \<not> IsProtectedAccount ok (ac_rights db) u"

record updateUserRequest =
  uur_Email :: string
  uur_Role :: string
  uur_Password :: string

definition new_password :: "go_time \<Rightarrow> string \<Rightarrow> string \<Rightarrow> string option \<Rightarrow> accounts_db \<Rightarrow> accounts_db" where
  "new_password now u password hashed db =
     (if password = [] then db
      else (case hashed of None \<Rightarrow> db | Some h \<Rightarrow> DeleteTrustedDevices u (RevokeSessions now u (set_hash u h db))))"

definition users_update ::
  "bool \<Rightarrow> go_time \<Rightarrow> string \<Rightarrow> string \<Rightarrow> updateUserRequest option \<Rightarrow> string option \<Rightarrow> accounts_db \<Rightarrow> nat \<times> accounts_db" where
  "users_update ok now actor u body hashed db =
     (case body of
        None \<Rightarrow> (400, db)
      | Some req \<Rightarrow>
          if uur_Email req = [] then (400, db)
          else if \<not> user_exists db u then (404, db)
          else if \<not> guardProtected ok actor u db then (403, db)
          else (let currentRole = UserRole (ac_rights db) u;
                    (normalized, known) = normalizePlatformRole (uur_Role req)
                in if currentRole \<noteq> ''superadmin'' \<and> (\<not> known \<or> normalized = ''superadmin'') then (400, db)
                   else if email_taken db u (uur_Email req) then (409, db)
                   else (204, new_password now u (uur_Password req) hashed
                     (db\<lparr>ac_emails := gm_set u (uur_Email req) (ac_emails db),
                         ac_rights := (ac_rights db)\<lparr>rd_users :=
                           gm_set u (if currentRole = ''superadmin'' then ''superadmin'' else normalized) (rd_users (ac_rights db))\<rparr>\<rparr>))))"

record createUserRequest =
  cur_Email :: string
  cur_Password :: string
  cur_Role :: string

definition users_create :: "string \<Rightarrow> createUserRequest option \<Rightarrow> string option \<Rightarrow> accounts_db \<Rightarrow> nat \<times> accounts_db" where
  "users_create uuid body hashed db =
     (case body of
        None \<Rightarrow> (400, db)
      | Some req \<Rightarrow>
          if cur_Email req = [] \<or> cur_Password req = [] then (400, db)
          else (let (role, known) = normalizePlatformRole (if cur_Role req = [] then ''user'' else cur_Role req)
                in if \<not> known \<or> role = ''superadmin'' then (400, db)
                   else (case hashed of
                           None \<Rightarrow> (500, db)
                         | Some h \<Rightarrow>
                             if user_exists db uuid \<or> email_taken db uuid (cur_Email req) then (409, db)
                             else (201, db\<lparr>ac_rights := (ac_rights db)\<lparr>rd_users := gm_set uuid role (rd_users (ac_rights db))\<rparr>,
                                           ac_emails := gm_set uuid (cur_Email req) (ac_emails db),
                                           ac_hashes := gm_set uuid h (ac_hashes db),
                                           ac_valid_after := gm_set uuid 0 (ac_valid_after db)\<rparr>))))"

definition users_changePassword ::
  "bool \<Rightarrow> go_time \<Rightarrow> string \<Rightarrow> string \<Rightarrow> string option \<Rightarrow> string option \<Rightarrow> accounts_db \<Rightarrow> nat \<times> accounts_db" where
  "users_changePassword ok now actor u password hashed db =
     (if password = None \<or> password = Some [] then (400, db)
      else if \<not> guardProtected ok actor u db then (403, db)
      else (case hashed of
              None \<Rightarrow> (500, db)
            | Some h \<Rightarrow>
                if \<not> user_exists db u then (404, db)
                else (204, DeleteTrustedDevices u (RevokeSessions now u (set_hash u h db)))))"

definition drop_member :: "string \<Rightarrow> rbac_db \<Rightarrow> rbac_db" where
  "drop_member u d = d\<lparr>rd_members := filter (\<lambda>(t, v). v \<noteq> u) (rd_members d)\<rparr>"

definition tokens_of :: "string \<Rightarrow> accounts_db \<Rightarrow> string list" where
  "tokens_of u db = map apt_id (filter (\<lambda>t. apt_user t = u) (ac_tokens db))"

definition users_delete :: "bool \<Rightarrow> string \<Rightarrow> string \<Rightarrow> accounts_db \<Rightarrow> nat \<times> accounts_db" where
  "users_delete ok actor u db =
     (if UserRole (ac_rights db) u = ''superadmin'' then (403, db)
      else if \<not> guardProtected ok actor u db then (403, db)
      else if \<not> user_exists db u then (404, db)
      else (204,
        db\<lparr>ac_rights := drop_member u ((ac_rights db)\<lparr>rd_users := gm_del u (rd_users (ac_rights db))\<rparr>),
           ac_emails := gm_del u (ac_emails db), ac_hashes := gm_del u (ac_hashes db), ac_valid_after := gm_del u (ac_valid_after db),
           ac_token_scopes := filter (\<lambda>(t, s). t \<notin> set (tokens_of u db)) (ac_token_scopes db),
           ac_tokens := filter (\<lambda>t. apt_user t \<noteq> u) (ac_tokens db),
           ac_mfa := drop_user u (ac_mfa db), ac_challenges := drop_user u (ac_challenges db),
           ac_backup_codes := drop_user u (ac_backup_codes db), ac_trusted := drop_user u (ac_trusted db)\<rparr>))"

section \<open>Teams\<close>

definition replace_permissions :: "string \<Rightarrow> string list \<Rightarrow> rbac_db \<Rightarrow> rbac_db" where
  "replace_permissions t perms d =
     d\<lparr>rd_permissions := filter (\<lambda>(x, p). x \<noteq> t) (rd_permissions d) @ map (\<lambda>p. (t, p)) perms\<rparr>"

definition teams_setPermissions :: "string \<Rightarrow> string \<Rightarrow> string list option \<Rightarrow> rbac_db \<Rightarrow> nat \<times> rbac_db" where
  "teams_setPermissions actor t body d =
     (if IsBuiltInTeam t then (409, d)
      else if \<not> user_IsSuperAdmin d actor then (403, d)
      else (case body of
              None \<Rightarrow> (400, d)
            | Some perms \<Rightarrow>
                (case NormalizePermissions perms of
                   (known, valid) \<Rightarrow>
                     if \<not> valid then (400, d)
                     else if t \<notin> set (gm_keys (rd_teams d)) then (404, d)
                     else (204, replace_permissions t known d))))"

definition teams_create :: "string \<Rightarrow> string option \<Rightarrow> rbac_db \<Rightarrow> nat \<times> rbac_db" where
  "teams_create uuid body d =
     (if body = None \<or> body = Some [] then (400, d)
      else (case insert_team uuid (the body) d of None \<Rightarrow> (409, d) | Some d' \<Rightarrow> (201, d')))"

definition teams_update :: "string \<Rightarrow> string option \<Rightarrow> rbac_db \<Rightarrow> nat \<times> rbac_db" where
  "teams_update t body d =
     (if IsBuiltInTeam t then (409, d)
      else if body = None \<or> body = Some [] then (400, d)
      else if t \<in> set (gm_keys (rd_teams d)) \<and> list_ex (\<lambda>(i, name). i \<noteq> t \<and> name = the body) (rd_teams d) then (409, d)
      else if t \<notin> set (gm_keys (rd_teams d)) then (404, d)
      else (204, d\<lparr>rd_teams := gm_set t (the body) (rd_teams d)\<rparr>))"

definition guardTeamPermissions :: "bool \<Rightarrow> string \<Rightarrow> string \<Rightarrow> rbac_db \<Rightarrow> bool" where
  "guardTeamPermissions ok actor t d \<longleftrightarrow> \<not> (0 < length (TeamPermissions ok d t) \<and> \<not> user_IsSuperAdmin d actor)"

definition teams_delete :: "bool \<Rightarrow> string \<Rightarrow> string \<Rightarrow> rbac_db \<Rightarrow> nat \<times> rbac_db" where
  "teams_delete ok actor t d =
     (if IsBuiltInTeam t then (409, d)
      else if \<not> guardTeamPermissions ok actor t d then (403, d)
      else if t \<notin> set (gm_keys (rd_teams d)) then (404, d)
      else (204, d\<lparr>rd_teams := gm_del t (rd_teams d), rd_members := filter (\<lambda>(x, u). x \<noteq> t) (rd_members d),
                   rd_accesses := filter (\<lambda>r. ta_TeamID (fst r) \<noteq> t) (rd_accesses d),
                   rd_permissions := filter (\<lambda>(x, p). x \<noteq> t) (rd_permissions d)\<rparr>))"

definition teams_addMember :: "bool \<Rightarrow> string \<Rightarrow> string \<Rightarrow> string option \<Rightarrow> rbac_db \<Rightarrow> nat \<times> rbac_db" where
  "teams_addMember ok actor t body d =
     (if body = None \<or> body = Some [] then (400, d)
      else if \<not> guardTeamPermissions ok actor t d then (403, d)
      else (204, if (t, the body) \<in> set (rd_members d) then d else d\<lparr>rd_members := rd_members d @ [(t, the body)]\<rparr>))"

definition teams_removeMember :: "bool \<Rightarrow> string \<Rightarrow> string \<Rightarrow> string \<Rightarrow> rbac_db \<Rightarrow> nat \<times> rbac_db" where
  "teams_removeMember ok actor t u d =
     (if \<not> guardTeamPermissions ok actor t d then (403, d)
      else if (t, u) \<notin> set (rd_members d) then (404, d)
      else (204, d\<lparr>rd_members := filter (\<lambda>m. m \<noteq> (t, u)) (rd_members d)\<rparr>))"

text \<open>\<open>accessID\<close> is empty for a creation, which takes the drawn identifier.\<close>

definition teams_saveAccess :: "regexp \<Rightarrow> bool \<Rightarrow> string \<Rightarrow> string \<Rightarrow> string \<Rightarrow> TeamAccess option \<Rightarrow> rbac_db \<Rightarrow> nat \<times> rbac_db" where
  "teams_saveAccess re ok uuid t accessID body d =
     (if IsBuiltInTeam t then (409, d)
      else (case body of
              None \<Rightarrow> (400, d)
            | Some a \<Rightarrow>
                if accessID \<noteq> [] \<and> \<not> list_ex (\<lambda>e. ta_ID e = accessID) (case TeamAccesses ok d t of None \<Rightarrow> [] | Some as \<Rightarrow> as)
                then (404, d)
                else (case SaveTeamAccess re (a\<lparr>ta_ID := (if accessID = [] then uuid else accessID), ta_TeamID := t\<rparr>) d of
                        (Inl e, d') \<Rightarrow> (400, d')
                      | (Inr u, d') \<Rightarrow> (if accessID = [] then 201 else 200, d'))))"

definition teams_removeAccess :: "string \<Rightarrow> string \<Rightarrow> rbac_db \<Rightarrow> nat \<times> rbac_db" where
  "teams_removeAccess t accessID d =
     (case DeleteTeamAccess t accessID d of (found, d') \<Rightarrow> if found then (204, d') else (404, d'))"

section \<open>The account itself\<close>

definition me_updateEmail :: "string \<Rightarrow> string option \<Rightarrow> accounts_db \<Rightarrow> nat \<times> accounts_db" where
  "me_updateEmail u body db =
     (case body of
        None \<Rightarrow> (400, db)
      | Some email \<Rightarrow>
          if TrimSpace email = [] then (400, db)
          else if user_exists db u \<and> email_taken db u (TrimSpace email) then (409, db)
          else (204, if user_exists db u then db\<lparr>ac_emails := gm_set u (TrimSpace email) (ac_emails db)\<rparr> else db))"

text \<open>\<open>check\<close> compares a hash with a password (bcrypt).\<close>

definition me_changePassword ::
  "(string \<Rightarrow> string \<Rightarrow> bool) \<Rightarrow> go_time \<Rightarrow> string \<Rightarrow> (string \<times> string) option \<Rightarrow> string option \<Rightarrow> accounts_db \<Rightarrow> nat \<times> accounts_db" where
  "me_changePassword check now u body hashed db =
     (case body of
        None \<Rightarrow> (400, db)
      | Some (current, fresh) \<Rightarrow>
          if current = [] \<or> fresh = [] then (400, db)
          else (case gm_get (ac_hashes db) u of
                  None \<Rightarrow> (404, db)
                | Some h \<Rightarrow>
                    if \<not> check h current then (401, db)
                    else (case hashed of
                            None \<Rightarrow> (500, db)
                          | Some h' \<Rightarrow> (200, DeleteTrustedDevices u (RevokeSessions now u (set_hash u h' db))))))"

record createUserTokenReq =
  cut_Label :: string
  cut_Scopes :: "string list"
  cut_ExpiresAt :: "go_time option option"

text \<open>
  The scopes of a new token: blanks and repetitions are skipped, an unknown one or one the account does not
  hold refuses the request. \<open>cut_ExpiresAt\<close> is the parsed date: \<open>Some None\<close> if it is no date.
\<close>

fun wanted_scopes :: "bool \<Rightarrow> rbac_db \<Rightarrow> string \<Rightarrow> string list \<Rightarrow> string list \<Rightarrow> nat + string list" where
  "wanted_scopes ok d u [] acc = Inr acc"
| "wanted_scopes ok d u (s # ss) acc =
     (let x = TrimSpace s
      in if x = [] \<or> x \<in> set acc then wanted_scopes ok d u ss acc
         else if \<not> IsKnownScope x then Inl 400
         else if \<not> UserCanHoldScope ok d u x then Inl 403
         else wanted_scopes ok d u ss (acc @ [x]))"

definition PATPrefix :: string where
  "PATPrefix = ''gpx_pat_''"

definition PATPreview :: "string \<Rightarrow> string" where
  "PATPreview secret =
     (if length secret < 12 then PATPrefix @ [CHR 0xE2, CHR 0x80, CHR 0xA6]
      else take (length PATPrefix + 4) secret @ [CHR 0xE2, CHR 0x80, CHR 0xA6] @ drop (length secret - 4) secret)"

definition tokens_create ::
  "(string \<Rightarrow> string) \<Rightarrow> bool \<Rightarrow> go_time \<Rightarrow> string \<Rightarrow> string \<Rightarrow> string \<Rightarrow> createUserTokenReq option \<Rightarrow> accounts_db \<Rightarrow> nat \<times> accounts_db" where
  "tokens_create sha ok now u uuid secret body db =
     (case body of
        None \<Rightarrow> (400, db)
      | Some req \<Rightarrow>
          if TrimSpace (cut_Label req) = [] then (400, db)
          else if cut_Scopes req = [] then (400, db)
          else (case wanted_scopes ok (ac_rights db) u (cut_Scopes req) [] of
                  Inl e \<Rightarrow> (e, db)
                | Inr scopes \<Rightarrow>
                    if scopes = [] then (400, db)
                    else if cut_ExpiresAt req = Some None \<or> (case cut_ExpiresAt req of Some (Some e) \<Rightarrow> e \<le> now | _ \<Rightarrow> False) then (400, db)
                    else if list_ex (\<lambda>t. apt_id t = uuid \<or> apt_hash t = sha secret) (ac_tokens db) then (500, db)
                    else (201, db\<lparr>ac_tokens := ac_tokens db @
                            [\<lparr>apt_id = uuid, apt_user = u, apt_label = TrimSpace (cut_Label req), apt_hash = sha secret,
                              apt_prefix = PATPreview secret, apt_expires = (case cut_ExpiresAt req of Some e \<Rightarrow> e | None \<Rightarrow> None),
                              apt_revoked = False, apt_last_used = None\<rparr>],
                          ac_token_scopes := ac_token_scopes db @ map (\<lambda>s. (uuid, s)) scopes\<rparr>)))"

definition tokens_revoke :: "string \<Rightarrow> string \<Rightarrow> accounts_db \<Rightarrow> nat \<times> accounts_db" where
  "tokens_revoke u i db =
     (if list_ex (\<lambda>t. apt_id t = i \<and> apt_user t = u \<and> \<not> apt_revoked t) (ac_tokens db)
      then (204, db\<lparr>ac_tokens := map (\<lambda>t. if apt_id t = i \<and> apt_user t = u then t\<lparr>apt_revoked := True\<rparr> else t) (ac_tokens db)\<rparr>)
      else (404, db))"

section \<open>Authentication\<close>

definition IsPATToken :: "string \<Rightarrow> bool" where
  "IsPATToken token = HasPrefix token PATPrefix"

record jwt_claims =
  jc_UserID :: string
  jc_Pending :: bool
  jc_IssuedAt :: "int option"

text \<open>The account and the second of issue; a token without a date is issued at the zero instant.\<close>

definition VerifyJWTIssued :: "(string \<Rightarrow> jwt_claims option) \<Rightarrow> string \<Rightarrow> (string \<times> int) option" where
  "VerifyJWTIssued parse token =
     (case parse token of
        None \<Rightarrow> None
      | Some c \<Rightarrow>
          if jc_Pending c then None
          else if jc_UserID c = [] then None
          else Some (jc_UserID c, case jc_IssuedAt c of None \<Rightarrow> - 62135596800 | Some s \<Rightarrow> s))"

definition LookupPAT :: "(string \<Rightarrow> string) \<Rightarrow> go_time \<Rightarrow> string \<Rightarrow> accounts_db \<Rightarrow> (string \<times> string \<times> string list) option \<times> accounts_db" where
  "LookupPAT sha now secret db =
     (if \<not> IsPATToken secret then (None, db)
      else (case find (\<lambda>t. apt_hash t = sha secret \<and> user_exists db (apt_user t)) (ac_tokens db) of
              None \<Rightarrow> (None, db)
            | Some t \<Rightarrow>
                if apt_revoked t then (None, db)
                else if (case apt_expires t of None \<Rightarrow> False | Some e \<Rightarrow> e \<le> now) then (None, db)
                else (Some (apt_user t, apt_id t, order_by str_less (map snd (filter (\<lambda>(i, s). i = apt_id t) (ac_token_scopes db)))),
                      db\<lparr>ac_tokens := map (\<lambda>x. if apt_id x = apt_id t then x\<lparr>apt_last_used := Some now\<rparr> else x) (ac_tokens db)\<rparr>)))"

definition pat_context :: "string \<times> string \<times> string list \<Rightarrow> auth_context" where
  "pat_context x = (case x of (u, i, scopes) \<Rightarrow> \<lparr>au_UserID = u, au_Kind = ''pat'', au_PATID = i, au_PATScopes = scopes\<rparr>)"

definition authenticateBearer ::
  "(string \<Rightarrow> string) \<Rightarrow> (string \<Rightarrow> jwt_claims option) \<Rightarrow> go_time \<Rightarrow> string \<Rightarrow> accounts_db \<Rightarrow> auth_context option \<times> accounts_db" where
  "authenticateBearer sha parse now token db =
     (if IsPATToken token then (case LookupPAT sha now token db of (r, db') \<Rightarrow> (map_option pat_context r, db'))
      else (case VerifyJWTIssued parse token of
              None \<Rightarrow> (None, db)
            | Some (u, issued) \<Rightarrow>
                if \<not> user_exists db u then (None, db)
                else if issued < gm_get0 (ac_valid_after db) 0 u then (None, db)
                else (Some \<lparr>au_UserID = u, au_Kind = ''jwt'', au_PATID = [], au_PATScopes = []\<rparr>, db)))"

record bearer_request =
  br_Path :: string
  br_Authorization :: string
  br_QueryAuth :: string
  br_Accept :: string

definition has_substring :: "string \<Rightarrow> string \<Rightarrow> bool" where
  "has_substring s sub \<longleftrightarrow> list_ex (\<lambda>i. HasPrefix (drop i s) sub) [0..<Suc (length s)]"

definition allowAuthQueryParam :: "bearer_request \<Rightarrow> bool" where
  "allowAuthQueryParam r = (if HasPrefix (br_Path r) ''/mcp'' then True else has_substring (br_Accept r) ''text/event-stream'')"

definition bearerToken :: "bearer_request \<Rightarrow> string" where
  "bearerToken r =
     (if HasPrefix (br_Authorization r) ''Bearer '' then TrimSpace (drop 7 (br_Authorization r))
      else if br_QueryAuth r \<noteq> [] \<and> allowAuthQueryParam r then br_QueryAuth r
      else [])"

definition RequireAuth ::
  "(string \<Rightarrow> string) \<Rightarrow> (string \<Rightarrow> jwt_claims option) \<Rightarrow> go_time \<Rightarrow> bearer_request \<Rightarrow> accounts_db \<Rightarrow> auth_context outcome \<times> accounts_db" where
  "RequireAuth sha parse now r db =
     (if bearerToken r = [] then (Refused 401, db)
      else (case authenticateBearer sha parse now (bearerToken r) db of
              (None, db') \<Rightarrow> (Refused 401, db') | (Some c, db') \<Rightarrow> (Next c, db')))"

definition RequirePAT :: "(string \<Rightarrow> string) \<Rightarrow> go_time \<Rightarrow> bearer_request \<Rightarrow> accounts_db \<Rightarrow> auth_context outcome \<times> accounts_db" where
  "RequirePAT sha now r db =
     (if bearerToken r = [] then (Refused 401, db)
      else if \<not> IsPATToken (bearerToken r) then (Refused 401, db)
      else (case LookupPAT sha now (bearerToken r) db of
              (None, db') \<Rightarrow> (Refused 401, db') | (Some x, db') \<Rightarrow> (Next (pat_context x), db')))"

end
