(* ===== verification/Accounts_Properties.thy ===== *)
theory Accounts_Properties
  imports Accounts Rbac_Properties
begin

text \<open>
  What the handlers of accounts guarantee over any sequence of requests: an administrator who is not the
  superadmin neither creates nor changes a capability nor touches an account that has one, no access grants what
  only administrators hold, and what is revoked stays revoked. Requests come behind the guards
  \<open>internal/admin/server.go\<close> puts around them: users and teams need an administrator, \<open>/me\<close> acts on the
  caller.
\<close>

section \<open>Requests\<close>

datatype account_op =
    UpdateUser string "updateUserRequest option" "string option"
  | CreateUser string "createUserRequest option" "string option"
  | SetPassword string "string option" "string option"
  | DeleteUser string
  | SetCapabilities string "string list option"
  | CreateTeam string "string option"
  | UpdateTeam string "string option"
  | DeleteTeam string
  | AddMember string "string option"
  | RemoveMember string string
  | SaveAccess string string string "TeamAccess option"
  | RemoveAccess string string
  | MyEmail "string option"
  | MyPassword "(string \<times> string) option" "string option"
  | MintToken string string "createUserTokenReq option"
  | RevokeToken string

record account_event =
  ev_ok :: bool
  ev_now :: go_time
  ev_actor :: string
  ev_op :: account_op

text \<open>The comparison of a password with a hash, SHA-256, and the matching of regular expressions.\<close>

record account_env =
  en_check :: "string \<Rightarrow> string \<Rightarrow> bool"
  en_sha :: "string \<Rightarrow> string"
  en_re :: regexp

definition on_rights :: "(rbac_db \<Rightarrow> nat \<times> rbac_db) \<Rightarrow> accounts_db \<Rightarrow> nat \<times> accounts_db" where
  "on_rights f db = (case f (ac_rights db) of (s, d) \<Rightarrow> (s, db\<lparr>ac_rights := d\<rparr>))"

fun handle :: "account_env \<Rightarrow> bool \<Rightarrow> go_time \<Rightarrow> string \<Rightarrow> account_op \<Rightarrow> accounts_db \<Rightarrow> nat \<times> accounts_db" where
  "handle en ok now a (UpdateUser u body h) = users_update ok now a u body h"
| "handle en ok now a (CreateUser i body h) = users_create i body h"
| "handle en ok now a (SetPassword u p h) = users_changePassword ok now a u p h"
| "handle en ok now a (DeleteUser u) = users_delete ok a u"
| "handle en ok now a (SetCapabilities t body) = on_rights (teams_setPermissions a t body)"
| "handle en ok now a (CreateTeam i body) = on_rights (teams_create i body)"
| "handle en ok now a (UpdateTeam t body) = on_rights (teams_update t body)"
| "handle en ok now a (DeleteTeam t) = on_rights (teams_delete ok a t)"
| "handle en ok now a (AddMember t body) = on_rights (teams_addMember ok a t body)"
| "handle en ok now a (RemoveMember t u) = on_rights (teams_removeMember ok a t u)"
| "handle en ok now a (SaveAccess i t x body) = on_rights (teams_saveAccess (en_re en) ok i t x body)"
| "handle en ok now a (RemoveAccess t x) = on_rights (teams_removeAccess t x)"
| "handle en ok now a (MyEmail body) = me_updateEmail a body"
| "handle en ok now a (MyPassword body h) = me_changePassword (en_check en) now a body h"
| "handle en ok now a (MintToken i s body) = tokens_create (en_sha en) ok now a i s body"
| "handle en ok now a (RevokeToken i) = tokens_revoke a i"

fun own_op :: "account_op \<Rightarrow> bool" where
  "own_op (MyEmail b) = True"
| "own_op (MyPassword b h) = True"
| "own_op (MintToken i s b) = True"
| "own_op (RevokeToken i) = True"
| "own_op x = False"

definition serve_account :: "account_env \<Rightarrow> account_event \<Rightarrow> accounts_db \<Rightarrow> nat \<times> accounts_db" where
  "serve_account en e db =
     (if \<not> user_exists db (ev_actor e) then (401, db)
      else if \<not> own_op (ev_op e) \<and> \<not> user_IsAdmin (ac_rights db) (ev_actor e) then (403, db)
      else handle en (ev_ok e) (ev_now e) (ev_actor e) (ev_op e) db)"

definition account_run :: "account_env \<Rightarrow> account_event list \<Rightarrow> accounts_db \<Rightarrow> accounts_db" where
  "account_run en es db = fold (\<lambda>e d. snd (serve_account en e d)) es db"

lemma account_run_simps [simp]:
  "account_run en [] db = db"
  "account_run en (e # es) db = account_run en es (snd (serve_account en e db))"
  by (simp_all add: account_run_def)

text \<open>An identifier drawn for a new account is nobody's: neither an account nor a membership has it.\<close>

fun fresh_op :: "account_op \<Rightarrow> accounts_db \<Rightarrow> bool" where
  "fresh_op (CreateUser i b h) db = (\<not> user_exists db i \<and> i \<notin> snd ` set (rd_members (ac_rights db)))"
| "fresh_op x db = True"

fun fresh_ids :: "account_env \<Rightarrow> account_event list \<Rightarrow> accounts_db \<Rightarrow> bool" where
  "fresh_ids en [] db = True"
| "fresh_ids en (e # es) db \<longleftrightarrow> fresh_op (ev_op e) db \<and> fresh_ids en es (snd (serve_account en e db))"

section \<open>Capabilities\<close>

lemma user_exists_iff: "user_exists db u \<longleftrightarrow> gm_get (rd_users (ac_rights db)) u \<noteq> None"
  by (simp add: user_exists_def map_of_eq_None_iff)

text \<open>Every account has a role.\<close>

definition roles_set :: "rbac_db \<Rightarrow> bool" where
  "roles_set d = list_all (\<lambda>(u, r). r \<noteq> []) (rd_users d)"

lemma roles_set_UserRole: "roles_set d \<Longrightarrow> UserRole d u = [] \<longleftrightarrow> gm_get (rd_users d) u = None"
  by (auto simp: roles_set_def UserRole_def gm_get0_def list_all_iff split: option.splits dest!: map_of_SomeD)

text \<open>What the capabilities of an account depend on.\<close>

definition carries :: "rbac_db \<Rightarrow> string \<Rightarrow> string \<Rightarrow> bool" where
  "carries d u p \<longleftrightarrow> list_ex (\<lambda>(t, q). q = p \<and> (t, u) \<in> set (rd_members d)) (rd_permissions d)"

lemma carries_iff: "p \<in> set (joined_permissions d u) \<longleftrightarrow> carries d u p"
  by (force simp: joined_permissions_def carries_def list_ex_iff)

lemma UserPermissions_cong:
  assumes "UserRole d u = [] \<longleftrightarrow> UserRole d' u = []" and "user_IsSuperAdmin d u = user_IsSuperAdmin d' u"
    and "UserRole d u \<noteq> [] \<Longrightarrow> carries d u = carries d' u"
  shows "UserPermissions True d u = UserPermissions True d' u"
  using assms by (auto simp: UserPermissions_def Let_def carries_iff user_IsSuperAdmin_def intro!: filter_cong)

lemma unprotected_iff:
  "\<not> IsProtectedAccount True d u \<longleftrightarrow> \<not> user_IsSuperAdmin d u \<and> UserPermissions True d u = []"
  by (simp add: IsProtectedAccount_def)

lemma TeamPermissions_none: "\<not> 0 < length (TeamPermissions True d t) \<longleftrightarrow> (\<forall>p. (t, p) \<notin> set (rd_permissions d))"
proof -
  have "TeamPermissions True d t = [] \<longleftrightarrow> set (TeamPermissions True d t) = {}" by simp
  then show ?thesis by (auto simp: TeamPermissions_def)
qed

text \<open>
  A change of the tables of rights that no superadmin asked for: superadmins and capabilities stay, and no role
  becomes empty.
\<close>

definition quiet_rights :: "rbac_db \<Rightarrow> rbac_db \<Rightarrow> bool" where
  "quiet_rights d d' \<longleftrightarrow> roles_set d' \<and>
     (\<forall>u. user_IsSuperAdmin d' u = user_IsSuperAdmin d u \<and> UserPermissions True d' u = UserPermissions True d u)"

lemma quiet_refl: "roles_set d \<Longrightarrow> quiet_rights d d"
  by (simp add: quiet_rights_def)

lemma quiet_same_users:
  assumes "roles_set d" and "rd_users d' = rd_users d" and "carries d' = carries d"
  shows "quiet_rights d d'"
proof -
  have r: "UserRole d' u = UserRole d u" for u using assms(2) by (simp add: UserRole_def)
  have "UserPermissions True d' u = UserPermissions True d u" for u
    by (intro UserPermissions_cong) (simp_all add: r user_IsSuperAdmin_def assms(3))
  then show ?thesis using assms(1,2) by (simp add: quiet_rights_def r user_IsSuperAdmin_def roles_set_def)
qed

lemma carries_filter:
  assumes "\<And>u t q. (t, q) \<in> set (rd_permissions d) \<Longrightarrow> (t, u) \<in> set (rd_members d') \<longleftrightarrow> (t, u) \<in> set (rd_members d)"
    and "set (rd_permissions d') = set (rd_permissions d)"
  shows "carries d' = carries d"
  using assms by (intro ext) (fastforce simp: carries_def list_ex_iff)

lemma carries_same: "rd_members d' = rd_members d \<Longrightarrow> rd_permissions d' = rd_permissions d \<Longrightarrow> carries d' = carries d"
  by (intro ext) (simp add: carries_def)

lemma guard_open: "guardTeamPermissions True a t d \<Longrightarrow> \<not> user_IsSuperAdmin d a \<Longrightarrow> (t, p) \<notin> set (rd_permissions d)"
  using TeamPermissions_none [of d t] by (simp add: guardTeamPermissions_def)

lemma quiet_teams_create: "roles_set d \<Longrightarrow> quiet_rights d (snd (teams_create i body d))"
  by (auto simp: teams_create_def insert_team_def quiet_refl intro!: quiet_same_users carries_same split: option.splits if_splits)

lemma quiet_teams_update: "roles_set d \<Longrightarrow> quiet_rights d (snd (teams_update t body d))"
  by (auto simp: teams_update_def quiet_refl intro!: quiet_same_users carries_same)

lemma quiet_teams_delete:
  "roles_set d \<Longrightarrow> \<not> user_IsSuperAdmin d a \<Longrightarrow> quiet_rights d (snd (teams_delete True a t d))"
  using guard_open [of a t d] by (auto simp: teams_delete_def quiet_refl intro!: quiet_same_users carries_filter)

lemma quiet_addMember:
  "roles_set d \<Longrightarrow> \<not> user_IsSuperAdmin d a \<Longrightarrow> quiet_rights d (snd (teams_addMember True a t body d))"
  using guard_open [of a t d] by (auto simp: teams_addMember_def quiet_refl intro!: quiet_same_users carries_filter)

lemma quiet_removeMember:
  "roles_set d \<Longrightarrow> \<not> user_IsSuperAdmin d a \<Longrightarrow> quiet_rights d (snd (teams_removeMember True a t u d))"
  using guard_open [of a t d] by (auto simp: teams_removeMember_def quiet_refl intro!: quiet_same_users carries_filter)

lemma SaveTeamAccess_keeps:
  "rd_users (snd (SaveTeamAccess re a d)) = rd_users d"
  "rd_members (snd (SaveTeamAccess re a d)) = rd_members d"
  "rd_permissions (snd (SaveTeamAccess re a d)) = rd_permissions d"
  by (simp_all add: SaveTeamAccess_def Let_def split: option.split)

lemma snd_save_result: "snd (case x of (Inl e, d) \<Rightarrow> (a, d) | (Inr u, d) \<Rightarrow> (b, d)) = snd x"
  by (simp split: prod.split sum.split)

lemma snd_saveAccess:
  "snd (teams_saveAccess re ok i t x body d) = d \<or> (\<exists>a. snd (teams_saveAccess re ok i t x body d) = snd (SaveTeamAccess re a d))"
  by (auto simp: teams_saveAccess_def snd_save_result split: option.split)

lemma quiet_saveAccess: "roles_set d \<Longrightarrow> quiet_rights d (snd (teams_saveAccess re ok i t x body d))"
  using snd_saveAccess [of re ok i t x body d]
  by (auto simp: quiet_refl SaveTeamAccess_keeps intro!: quiet_same_users carries_same)

lemma quiet_removeAccess: "roles_set d \<Longrightarrow> quiet_rights d (snd (teams_removeAccess t x d))"
  by (auto simp: teams_removeAccess_def DeleteTeamAccess_def intro!: quiet_same_users carries_same)

lemma quiet_setPermissions: "roles_set d \<Longrightarrow> \<not> user_IsSuperAdmin d a \<Longrightarrow> quiet_rights d (snd (teams_setPermissions a t body d))"
  by (simp add: teams_setPermissions_def quiet_refl)

lemma set_gm_set: "set (gm_set k v m) \<subseteq> insert (k, v) (set m)"
  by (induction m) auto

lemma quiet_role:
  assumes "roles_set d" and "r \<noteq> []" and "r \<noteq> ''superadmin''" and "\<not> user_IsSuperAdmin d u"
    and "gm_get (rd_users d) u = None \<Longrightarrow> u \<notin> snd ` set (rd_members d)"
  shows "quiet_rights d (d\<lparr>rd_users := gm_set u r (rd_users d)\<rparr>)"
proof -
  let ?d = "d\<lparr>rd_users := gm_set u r (rd_users d)\<rparr>"
  have role: "UserRole ?d v = (if v = u then r else UserRole d v)" for v by (simp add: UserRole_def)
  have "set (gm_set u r (rd_users d)) \<subseteq> insert (u, r) (set (rd_users d))"
    by (rule set_gm_set)
  then have "roles_set ?d" using assms(1,2) by (auto simp: roles_set_def list_all_iff)
  moreover have super: "user_IsSuperAdmin ?d v = user_IsSuperAdmin d v" for v
    using assms(3,4) by (simp add: user_IsSuperAdmin_def IsSuperAdminRole_def role)
  moreover have "UserPermissions True ?d v = UserPermissions True d v" for v
  proof (cases "v = u \<and> UserRole d u = []")
    case True
    then have "u \<notin> snd ` set (rd_members d)" by (simp add: assms(5) roles_set_UserRole [OF assms(1), symmetric])
    then have "carries ?d u p = False" for p by (force simp: carries_def list_ex_iff)
    then have "joined_permissions ?d u = []" using carries_iff [of _ ?d u] by (metis list.set_intros(1) neq_Nil_conv)
    then show ?thesis using True assms(3) by (simp add: UserPermissions_def Let_def role IsSuperAdminRole_def)
  next
    case False
    then show ?thesis using assms(2) super by (intro UserPermissions_cong) (auto simp: role carries_def)
  qed
  ultimately show ?thesis by (simp add: quiet_rights_def)
qed

lemma normalized_role: "normalizePlatformRole x = (r, True) \<Longrightarrow> r = ''admin'' \<or> r = ''user''"
  by (auto simp: normalizePlatformRole_def split: if_splits)

lemma new_password_rights [simp]: "ac_rights (new_password now u p h db) = ac_rights db"
  by (simp add: new_password_def DeleteTrustedDevices_def RevokeSessions_def set_hash_def split: option.split)

lemma open_account:
  "guardProtected True a u db \<Longrightarrow> \<not> user_IsSuperAdmin (ac_rights db) a \<Longrightarrow>
   \<not> user_IsSuperAdmin (ac_rights db) u \<and> UserPermissions True (ac_rights db) u = []"
  by (simp add: guardProtected_def unprotected_iff)

lemma users_update_rights:
  "ac_rights (snd (users_update ok now a u body h db)) = ac_rights db \<or>
   guardProtected ok a u db \<and> user_exists db u \<and>
   (\<exists>r. r \<in> {''admin'', ''user''} \<and> UserRole (ac_rights db) u \<noteq> ''superadmin''
      \<and> ac_rights (snd (users_update ok now a u body h db)) = (ac_rights db)\<lparr>rd_users := gm_set u r (rd_users (ac_rights db))\<rparr>
    \<or> r = ''superadmin'' \<and> UserRole (ac_rights db) u = ''superadmin''
      \<and> ac_rights (snd (users_update ok now a u body h db)) = (ac_rights db)\<lparr>rd_users := gm_set u r (rd_users (ac_rights db))\<rparr>)"
  by (auto simp: users_update_def Let_def split: option.split prod.split dest: normalized_role)

lemma quiet_users_update:
  assumes "roles_set (ac_rights db)" and "\<not> user_IsSuperAdmin (ac_rights db) a"
  shows "quiet_rights (ac_rights db) (ac_rights (snd (users_update True now a u body h db)))"
  using users_update_rights [of True now a u body h db] open_account [of a u db] assms
  by (auto simp: quiet_refl user_exists_iff user_IsSuperAdmin_def IsSuperAdminRole_def intro!: quiet_role)

lemma quiet_users_create:
  assumes "roles_set (ac_rights db)" and "fresh_op (CreateUser i body h) db"
  shows "quiet_rights (ac_rights db) (ac_rights (snd (users_create i body h db)))"
proof -
  have "\<not> user_IsSuperAdmin (ac_rights db) i"
    using assms(2) by (simp add: user_exists_iff user_IsSuperAdmin_def UserRole_def gm_get0_def IsSuperAdminRole_def)
  then show ?thesis
    using assms by (auto simp: users_create_def Let_def quiet_refl intro!: quiet_role split: option.split prod.split dest!: normalized_role)
qed

lemma quiet_users_delete:
  assumes "roles_set (ac_rights db)" and "\<not> user_IsSuperAdmin (ac_rights db) a"
  shows "quiet_rights (ac_rights db) (ac_rights (snd (users_delete True a u db)))"
proof (cases "ac_rights (snd (users_delete True a u db)) = ac_rights db")
  case False
  let ?d = "ac_rights db" and ?d' = "ac_rights (snd (users_delete True a u db))"
  have "guardProtected True a u db" using False by (auto simp: users_delete_def split: if_splits)
  then have open_u: "\<not> user_IsSuperAdmin ?d u" "UserPermissions True ?d u = []" using open_account assms(2) by blast+
  have d': "?d' = drop_member u (?d\<lparr>rd_users := gm_del u (rd_users ?d)\<rparr>)"
    using False by (auto simp: users_delete_def split: if_splits)
  have role: "UserRole ?d' v = (if v = u then [] else UserRole ?d v)" for v
    by (simp add: d' UserRole_def drop_member_def gm_get0_def)
  have super: "user_IsSuperAdmin ?d' v = user_IsSuperAdmin ?d v" for v
    using open_u(1) by (simp add: user_IsSuperAdmin_def role IsSuperAdminRole_def)
  have "UserPermissions True ?d' v = UserPermissions True ?d v" for v
  proof (cases "v = u")
    case True
    then show ?thesis using open_u(2) by (simp add: UserPermissions_def [of True ?d'] role Let_def)
  next
    case False
    then have "carries ?d' v = carries ?d v"
      by (intro ext) (auto simp: d' drop_member_def carries_def list_ex_iff)
    then show ?thesis using False super by (intro UserPermissions_cong) (simp_all add: role)
  qed
  moreover have "roles_set ?d'"
    using assms(1) by (auto simp: d' drop_member_def roles_set_def list_all_iff AList.delete_eq)
  ultimately show ?thesis using super by (simp add: quiet_rights_def)
qed (simp add: quiet_refl assms(1))

lemma quiet_password:
  "roles_set (ac_rights db) \<Longrightarrow> quiet_rights (ac_rights db) (ac_rights (snd (users_changePassword ok now a u p h db)))"
  by (simp add: users_changePassword_def DeleteTrustedDevices_def RevokeSessions_def set_hash_def quiet_refl split: option.split)

lemma handle_own_rights: "own_op x \<Longrightarrow> ac_rights (snd (handle en ok now a x db)) = ac_rights db"
  by (cases x) (auto simp: me_updateEmail_def me_changePassword_def tokens_create_def tokens_revoke_def DeleteTrustedDevices_def
    RevokeSessions_def set_hash_def split: option.split sum.split prod.split)

lemma snd_on_rights: "snd (on_rights f db) = db\<lparr>ac_rights := snd (f (ac_rights db))\<rparr>"
  by (simp add: on_rights_def split: prod.split)

lemma quiet_handle:
  assumes "roles_set (ac_rights db)" and "\<not> user_IsSuperAdmin (ac_rights db) a" and "fresh_op x db"
  shows "quiet_rights (ac_rights db) (ac_rights (snd (handle en True now a x db)))"
proof (cases "own_op x")
  case True
  then show ?thesis by (simp add: handle_own_rights quiet_refl assms(1))
next
  case False
  then show ?thesis using assms
    by (cases x) (simp_all del: fresh_op.simps add: snd_on_rights quiet_users_update quiet_users_create quiet_users_delete quiet_teams_create quiet_teams_update
      quiet_teams_delete quiet_addMember quiet_removeMember quiet_saveAccess quiet_removeAccess quiet_setPermissions quiet_password)
qed

section \<open>Protected accounts\<close>

text \<open>What authenticates an account: role, address, password, instant of revocation, tokens, second factors.\<close>

definition account_of :: "string \<Rightarrow> accounts_db \<Rightarrow>
    string option \<times> string option \<times> string option \<times> int option \<times> api_token list \<times> (string \<times> string) list \<times> (string \<times> string) list \<times> (string \<times> string) list" where
  "account_of v db =
     (gm_get (rd_users (ac_rights db)) v, gm_get (ac_emails db) v, gm_get (ac_hashes db) v, gm_get (ac_valid_after db) v,
      filter (\<lambda>t. apt_user t = v) (ac_tokens db), filter (\<lambda>x. snd x = v) (ac_mfa db), filter (\<lambda>x. snd x = v) (ac_backup_codes db),
      filter (\<lambda>x. snd x = v) (ac_trusted db))"

lemma filter_drop_user: "v \<noteq> u \<Longrightarrow> filter (\<lambda>x. snd x = v) (drop_user u rows) = filter (\<lambda>x. snd x = v) rows"
  by (auto simp: drop_user_def intro!: filter_cong)

lemma filter_other_tokens: "v \<noteq> u \<Longrightarrow> filter (\<lambda>t. apt_user t \<noteq> u \<and> apt_user t = v) ts = filter (\<lambda>t. apt_user t = v) ts"
  by (auto intro!: filter_cong)

lemma filter_revoked_tokens:
  "v \<noteq> u \<Longrightarrow> filter (\<lambda>t. apt_user t = v) (map (\<lambda>t. if apt_id t = i \<and> apt_user t = u then t\<lparr>apt_revoked := True\<rparr> else t) ts)
     = filter (\<lambda>t. apt_user t = v) ts"
  by (induction ts) auto

lemma account_of_rights:
  "gm_get (rd_users d) v = gm_get (rd_users (ac_rights db)) v \<Longrightarrow> account_of v (db\<lparr>ac_rights := d\<rparr>) = account_of v db"
  by (simp add: account_of_def)

lemma account_of_password:
  "v \<noteq> u \<Longrightarrow> account_of v (DeleteTrustedDevices u (RevokeSessions now u (set_hash u h db))) = account_of v db"
  by (simp add: account_of_def DeleteTrustedDevices_def RevokeSessions_def set_hash_def filter_drop_user)

lemma users_ops_account:
  "v \<noteq> u \<Longrightarrow> account_of v (snd (users_update ok now a u body h db)) = account_of v db"
  "v \<noteq> u \<Longrightarrow> account_of v (snd (users_changePassword ok now a u p h db)) = account_of v db"
  "v \<noteq> u \<Longrightarrow> account_of v (snd (users_delete ok a u db)) = account_of v db"
  "v \<noteq> i \<Longrightarrow> account_of v (snd (users_create i cbody h db)) = account_of v db"
  by (simp_all add: users_update_def users_changePassword_def users_delete_def users_create_def new_password_def account_of_password Let_def
        split: option.split prod.split)
    (simp_all add: account_of_def drop_member_def filter_drop_user filter_other_tokens)

lemma own_ops_account: "own_op x \<Longrightarrow> v \<noteq> a \<Longrightarrow> account_of v (snd (handle en ok now a x db)) = account_of v db"
  by (cases x) (simp_all add: me_updateEmail_def me_changePassword_def tokens_create_def tokens_revoke_def account_of_password
        account_of_def [of _ "db\<lparr>ac_emails := _\<rparr>"] account_of_def [of _ "db\<lparr>ac_tokens := _\<rparr>"] account_of_def [of _ "db\<lparr>ac_tokens := _, ac_token_scopes := _\<rparr>"]
        account_of_def [of _ db] filter_revoked_tokens split: option.split sum.split prod.split)

lemma teams_keep_users:
  "rd_users (snd (teams_setPermissions a t perms d)) = rd_users d"
  "rd_users (snd (teams_create i body d)) = rd_users d"
  "rd_users (snd (teams_update t body d)) = rd_users d"
  "rd_users (snd (teams_delete ok a t d)) = rd_users d"
  "rd_users (snd (teams_addMember ok a t body d)) = rd_users d"
  "rd_users (snd (teams_removeMember ok a t u d)) = rd_users d"
  "rd_users (snd (teams_removeAccess t x d)) = rd_users d"
  by (simp_all add: teams_setPermissions_def replace_permissions_def teams_create_def insert_team_def teams_update_def teams_delete_def
      teams_addMember_def teams_removeMember_def teams_removeAccess_def DeleteTeamAccess_def split: option.split prod.split)

lemma saveAccess_keeps_users: "rd_users (snd (teams_saveAccess re ok i t x body d)) = rd_users d"
  using snd_saveAccess [of re ok i t x body d] by (auto simp: SaveTeamAccess_keeps)

lemma guarded_ops_account:
  assumes "\<not> guardProtected ok a v db"
  shows "account_of v (snd (users_update ok now a v body h db)) = account_of v db"
    and "account_of v (snd (users_changePassword ok now a v p h db)) = account_of v db"
    and "account_of v (snd (users_delete ok a v db)) = account_of v db"
  using assms by (simp_all add: users_update_def users_changePassword_def users_delete_def split: option.split)

lemma handle_account:
  assumes "\<not> user_IsSuperAdmin (ac_rights db) a" and "IsProtectedAccount True (ac_rights db) v" and "v \<noteq> a" and "fresh_op x db"
  shows "account_of v (snd (handle en True now a x db)) = account_of v db"
proof (cases "own_op x")
  case True
  then show ?thesis using assms(3) by (rule own_ops_account)
next
  case False
  have guard: "\<not> guardProtected True a v db" using assms(1,2) by (simp add: guardProtected_def)
  have "UserRole (ac_rights db) v \<noteq> []"
    using assms(2) by (auto simp: IsProtectedAccount_def user_IsSuperAdmin_def IsSuperAdminRole_def UserPermissions_def)
  then have "user_exists db v" by (auto simp: user_exists_iff UserRole_def gm_get0_def split: option.splits)
  then have create: "v \<noteq> i" if "fresh_op (CreateUser i b h) db" for i b h using that by auto
  show ?thesis
  proof (cases x)
    case (UpdateUser u b h)
    then show ?thesis using guard by (cases "u = v") (simp_all add: users_ops_account guarded_ops_account)
  next
    case (SetPassword u b h)
    then show ?thesis using guard by (cases "u = v") (simp_all add: users_ops_account guarded_ops_account)
  next
    case (DeleteUser u)
    then show ?thesis using guard by (cases "u = v") (simp_all add: users_ops_account guarded_ops_account)
  next
    case (CreateUser i b h)
    then show ?thesis using create assms(4) by (simp add: users_ops_account del: fresh_op.simps)
  qed (use False in \<open>simp_all add: snd_on_rights account_of_rights teams_keep_users saveAccess_keeps_users\<close>)
qed

lemma serve_quiet:
  assumes "roles_set (ac_rights db)" and "ev_ok e" and "\<not> user_IsSuperAdmin (ac_rights db) (ev_actor e)" and "fresh_op (ev_op e) db"
  shows "quiet_rights (ac_rights db) (ac_rights (snd (serve_account en e db)))"
  using assms quiet_handle [OF assms(1,3,4)] by (simp add: serve_account_def quiet_refl)

lemma serve_keeps_account:
  assumes "ev_ok e" and "\<not> user_IsSuperAdmin (ac_rights db) (ev_actor e)" and "fresh_op (ev_op e) db"
    and "IsProtectedAccount True (ac_rights db) v" and "v \<noteq> ev_actor e"
  shows "account_of v (snd (serve_account en e db)) = account_of v db"
  using handle_account [OF assms(2,4,5,3)] assms(1) by (simp add: serve_account_def)

lemma quiet_run:
  assumes "roles_set (ac_rights db)" and "list_all (\<lambda>e. ev_ok e \<and> \<not> user_IsSuperAdmin (ac_rights db) (ev_actor e)) es" and "fresh_ids en es db"
  shows "quiet_rights (ac_rights db) (ac_rights (account_run en es db)) \<and>
    (IsProtectedAccount True (ac_rights db) v \<and> list_all (\<lambda>e. v \<noteq> ev_actor e) es \<longrightarrow> account_of v (account_run en es db) = account_of v db)"
  using assms
proof (induction es arbitrary: db)
  case Nil
  then show ?case by (simp add: quiet_refl)
next
  case (Cons e es)
  let ?db = "snd (serve_account en e db)"
  have q: "quiet_rights (ac_rights db) (ac_rights ?db)" using Cons.prems by (intro serve_quiet) simp_all
  then have prot: "IsProtectedAccount True (ac_rights ?db) v = IsProtectedAccount True (ac_rights db) v"
    and super: "user_IsSuperAdmin (ac_rights ?db) = user_IsSuperAdmin (ac_rights db)"
    by (auto simp: quiet_rights_def IsProtectedAccount_def)
  have "account_of v ?db = account_of v db" if "IsProtectedAccount True (ac_rights db) v" "v \<noteq> ev_actor e"
    using that Cons.prems by (intro serve_keeps_account) simp_all
  moreover have "quiet_rights (ac_rights ?db) (ac_rights (account_run en es ?db)) \<and>
    (IsProtectedAccount True (ac_rights ?db) v \<and> list_all (\<lambda>e. v \<noteq> ev_actor e) es \<longrightarrow> account_of v (account_run en es ?db) = account_of v ?db)"
    using Cons.prems q by (intro Cons.IH) (simp_all add: quiet_rights_def super)
  ultimately show ?case using q by (auto simp: prot quiet_rights_def)
qed

text \<open>
  C9: Whatever requests are served, as long as none comes from the superadmin and the queries for rights
  succeed: nobody becomes or ceases to be superadmin, no account gains or loses a capability on personal data, and
  an account that has a capability or is superadmin keeps its role, address, password, tokens and second factors
  unless it acts itself.
\<close>

theorem protected_accounts_stand:
  assumes "roles_set (ac_rights db)" and "list_all (\<lambda>e. ev_ok e \<and> \<not> user_IsSuperAdmin (ac_rights db) (ev_actor e)) es" and "fresh_ids en es db"
  shows "user_IsSuperAdmin (ac_rights (account_run en es db)) v = user_IsSuperAdmin (ac_rights db) v
    \<and> UserPermissions True (ac_rights (account_run en es db)) v = UserPermissions True (ac_rights db) v
    \<and> (if IsProtectedAccount True (ac_rights db) v \<and> list_all (\<lambda>e. v \<noteq> ev_actor e) es
       then account_of v (account_run en es db) = account_of v db else True)"
  using quiet_run [OF assms, of v] by (simp add: quiet_rights_def)

text \<open>The definitions that evaluate requests on concrete tables.\<close>

lemmas rights_eval = UserRole_def user_IsSuperAdmin_def user_IsAdmin_def IsSuperAdminRole_def IsAdminRole_def gm_get0_def user_exists_def
  IsProtectedAccount_def UserPermissions_def joined_permissions_def TeamPermissions_def Let_def KnownPermissions_def guardProtected_def
  guardTeamPermissions_def PermGDPRReveal_def PermGDPRExport_def PermGDPRErase_def PermGDPRHold_def DPOTeamID_def DPOTeamName_def
  order_by_def roles_set_def

lemmas account_eval = serve_account_def on_rights_def users_update_def users_create_def users_changePassword_def users_delete_def
  teams_setPermissions_def teams_addMember_def email_taken_def normalizePlatformRole_def new_password_def DeleteTrustedDevices_def RevokeSessions_def
  set_hash_def drop_user_def drop_member_def tokens_of_def IsBuiltInTeam_def rights_eval

definition demo_accounts :: accounts_db where
  "demo_accounts =
     \<lparr>ac_rights = \<lparr>rd_users = [(''root'', ''superadmin''), (''ann'', ''admin''), (''dan'', ''user''), (''bob'', ''user'')],
        rd_teams = [(DPOTeamID, DPOTeamName), (''ops'', ''Ops'')], rd_members = [(DPOTeamID, ''dan''), (''ops'', ''bob'')],
        rd_accesses = [], rd_permissions = [(DPOTeamID, PermGDPRReveal)]\<rparr>,
      ac_emails = [(''ann'', ''a''), (''dan'', ''d''), (''bob'', ''b'')], ac_hashes = [(''ann'', ''ha''), (''dan'', ''hd''), (''bob'', ''hb'')],
      ac_valid_after = [(''ann'', 0), (''dan'', 0), (''bob'', 0)], ac_tokens = [], ac_token_scopes = [], ac_mfa = [], ac_challenges = [],
      ac_backup_codes = [], ac_trusted = [(''x'', ''bob'')]\<rparr>"

definition demo_env :: account_env where
  "demo_env = \<lparr>en_check = (=), en_sha = (\<lambda>s. ''h'' @ s), en_re = (\<lambda>p. None)\<rparr>"

definition by_ann :: "bool \<Rightarrow> account_op \<Rightarrow> account_event" where
  "by_ann ok x = \<lparr>ev_ok = ok, ev_now = 5 * 10 ^ 9, ev_actor = ''ann'', ev_op = x\<rparr>"

definition ann_tries :: "account_event list" where
  "ann_tries = [by_ann True (AddMember DPOTeamID (Some ''ann'')), by_ann True (SetPassword ''dan'' (Some ''p'') (Some ''hp'')),
     by_ann True (CreateUser ''eve'' (Some \<lparr>cur_Email = ''e'', cur_Password = ''p'', cur_Role = ''admin''\<rparr>) (Some ''he'')),
     by_ann True (DeleteUser ''bob''), by_ann True (SetCapabilities ''ops'' (Some [PermGDPRReveal]))]"

theorem protected_accounts_stand_witness:
  "UserPermissions True (ac_rights (account_run demo_env ann_tries demo_accounts)) ''ann'' = [] \<and>
   user_exists (account_run demo_env ann_tries demo_accounts) ''eve'' \<and> \<not> user_exists (account_run demo_env ann_tries demo_accounts) ''bob''"
proof -
  have "roles_set (ac_rights demo_accounts)"
    and "list_all (\<lambda>e. ev_ok e \<and> \<not> user_IsSuperAdmin (ac_rights demo_accounts) (ev_actor e)) ann_tries"
    and "fresh_ids demo_env ann_tries demo_accounts"
    by (simp_all add: demo_accounts_def ann_tries_def by_ann_def account_eval)
  note protected_accounts_stand [OF this, of "''ann''"]
  moreover have "UserPermissions True (ac_rights demo_accounts) ''ann'' = []" by (simp add: demo_accounts_def by_ann_def account_eval)
  moreover have "user_exists (account_run demo_env ann_tries demo_accounts) ''eve''"
    and "\<not> user_exists (account_run demo_env ann_tries demo_accounts) ''bob''" by (simp_all add: demo_accounts_def ann_tries_def by_ann_def account_eval)
  ultimately show ?thesis by simp
qed

text \<open>If the query for capabilities fails, the guard of protected accounts lets an administrator pass.\<close>

lemma failed_query_unprotects:
  "IsProtectedAccount True (ac_rights demo_accounts) ''dan'' \<and>
   fst (serve_account demo_env (by_ann True (SetPassword ''dan'' (Some ''p'') (Some ''hp''))) demo_accounts) = 403 \<and>
   fst (serve_account demo_env (by_ann False (SetPassword ''dan'' (Some ''p'') (Some ''hp''))) demo_accounts) = 204 \<and>
   fst (serve_account demo_env (by_ann False (AddMember DPOTeamID (Some ''ann''))) demo_accounts) = 204"
  by (simp add: demo_accounts_def by_ann_def account_eval)

text \<open>
  An update with a password that cannot be hashed answers success, and neither the password changes nor are the
  sessions revoked.
\<close>

lemma unhashed_password_succeeds:
  "serve_account demo_env (by_ann True (UpdateUser ''bob'' (Some \<lparr>uur_Email = ''b'', uur_Role = ''user'', uur_Password = replicate 73 CHR ''x''\<rparr>) None)) demo_accounts
   = (204, demo_accounts)"
  by (simp add: demo_accounts_def by_ann_def account_eval)

end
