(* ===== verification/Accounts_Revocation.thy ===== *)
theory Accounts_Revocation
  imports Accounts_Properties
begin

text \<open>
  What no access can grant (\<open>internal/admin/rbac/team_access.go\<close>), over any sequence of requests, and revocation:
  a session or a token that was revoked is never accepted again (\<open>internal/admin/auth/pat.go\<close>).
\<close>

section \<open>Rights no access grants\<close>

definition access_sound :: "TeamAccess \<Rightarrow> bool" where
  "access_sound a = list_all (\<lambda>p. p \<notin> set notGrantable) (ta_Permissions a)"

definition accesses_sound :: "rbac_db \<Rightarrow> bool" where
  "accesses_sound d = list_all (\<lambda>(a, pos). access_sound a) (rd_accesses d)"

lemma validate_explicits_sound: "validate_explicits seen ps = None \<Longrightarrow> list_all (\<lambda>p. p \<notin> set notGrantable) ps"
  by (induction ps arbitrary: seen) (auto split: option.splits if_splits)

lemma Validate_sound: "access_Validate re a = None \<Longrightarrow> access_sound a"
  by (auto simp: access_Validate_def access_sound_def Let_def split: if_splits option.splits dest: validate_explicits_sound)

lemma SaveTeamAccess_sound: "accesses_sound d \<Longrightarrow> accesses_sound (snd (SaveTeamAccess re a d))"
  by (auto simp: SaveTeamAccess_def Let_def accesses_sound_def list_all_iff split: option.splits if_splits dest: Validate_sound)

lemma accesses_sound_subset: "accesses_sound d \<Longrightarrow> set (rd_accesses d') \<subseteq> set (rd_accesses d) \<Longrightarrow> accesses_sound d'"
  by (auto simp: accesses_sound_def list_all_iff)

lemma handle_sound: "accesses_sound (ac_rights db) \<Longrightarrow> accesses_sound (ac_rights (snd (handle en ok now a x db)))"
proof (cases "own_op x")
  case False
  assume *: "accesses_sound (ac_rights db)"
  show ?thesis
  proof (cases x)
    case (SaveAccess i t y body)
    then show ?thesis
      using * snd_saveAccess [of "en_re en" ok i t y body "ac_rights db"] by (auto simp: snd_on_rights SaveTeamAccess_sound)
  next
    case (UpdateUser u body h)
    then show ?thesis using users_update_rights [of ok now a u body h db] *
      by (auto intro: accesses_sound_subset)
  next
    case (SetPassword u p h)
    then show ?thesis using *
      by (simp add: users_changePassword_def DeleteTrustedDevices_def RevokeSessions_def set_hash_def split: option.split)
  next
    case (CreateUser i body h)
    then show ?thesis using *
      by (auto simp: users_create_def Let_def split: option.split prod.split intro: accesses_sound_subset)
  next
    case (DeleteUser u)
    then show ?thesis using * by (auto simp: users_delete_def drop_member_def intro: accesses_sound_subset)
  next
    case (SetCapabilities t body)
    then show ?thesis using *
      by (auto simp: snd_on_rights teams_setPermissions_def replace_permissions_def intro: accesses_sound_subset split: option.split prod.split)
  next
    case (CreateTeam i body)
    then show ?thesis using *
      by (auto simp: snd_on_rights teams_create_def insert_team_def intro: accesses_sound_subset split: option.split)
  next
    case (UpdateTeam t body)
    then show ?thesis using * by (auto simp: snd_on_rights teams_update_def intro: accesses_sound_subset)
  next
    case (DeleteTeam t)
    then show ?thesis using * by (auto simp: snd_on_rights teams_delete_def intro: accesses_sound_subset)
  next
    case (AddMember t body)
    then show ?thesis using * by (auto simp: snd_on_rights teams_addMember_def intro: accesses_sound_subset)
  next
    case (RemoveMember t u)
    then show ?thesis using * by (auto simp: snd_on_rights teams_removeMember_def intro: accesses_sound_subset)
  next
    case (RemoveAccess t y)
    then show ?thesis using *
      by (auto simp: snd_on_rights teams_removeAccess_def DeleteTeamAccess_def intro: accesses_sound_subset)
  qed (use False in simp_all)
qed (simp add: handle_own_rights)

lemma run_sound: "accesses_sound (ac_rights db) \<Longrightarrow> accesses_sound (ac_rights (account_run en es db))"
  by (induction es arbitrary: db) (simp_all add: serve_account_def handle_sound)

text \<open>The rights on which an access has no say: those of class platform and those the catalogue reserves.\<close>

definition reserved_right :: "string \<Rightarrow> bool" where
  "reserved_right perm =
     (perm \<in> set notGrantable \<or> (case PermissionByID perm of None \<Rightarrow> True | Some p \<Rightarrow> pm_Class p = ClassPlatform))"

lemma notGrantable_classes:
  "list_all (\<lambda>p. pm_ID p \<in> set notGrantable \<longrightarrow> pm_Class p = ClassPlatform \<or> pm_Class p = ClassSensitive) Permissions"
  by code_simp

lemma reserved_not_granted: "access_sound a \<Longrightarrow> reserved_right perm \<Longrightarrow> \<not> Grants a perm"
proof (cases "PermissionByID perm")
  case (Some p)
  then have "p \<in> set Permissions \<and> pm_ID p = perm" by (simp add: PermissionByID_iff)
  then have "perm \<in> set notGrantable \<Longrightarrow> pm_Class p = ClassPlatform \<or> pm_Class p = ClassSensitive"
    using notGrantable_classes by (auto simp: list_all_iff)
  moreover assume "access_sound a" and "reserved_right perm"
  ultimately show ?thesis using Some by (auto simp: Grants_def reserved_right_def access_sound_def list_all_iff)
qed (simp add: Grants_def)


definition users_access :: TeamAccess where
  "users_access =
     \<lparr>ta_ID = [], ta_TeamID = [], ta_Name = ''all'',
      ta_Perimeter = \<lparr>pe_Domain = [], pe_Proxy = [], pe_Backend = [],
        pe_Group = \<lparr>gcr_Name = [], gcr_Environment = [], gcr_Region = [], gcr_Tag = []\<rparr>, pe_Labels = []\<rparr>,
      ta_Levels = [], ta_Permissions = [''users:write'']\<rparr>"


section \<open>Sessions\<close>

text \<open>No session of the account issued before second \<open>s\<close> is accepted.\<close>

definition session_barrier :: "string \<Rightarrow> int \<Rightarrow> accounts_db \<Rightarrow> bool" where
  "session_barrier u s db \<longleftrightarrow> \<not> user_exists db u \<or> s \<le> gm_get0 (ac_valid_after db) 0 u"

text \<open>The requests after which the sessions of \<open>u\<close> have to be refused, when \<open>a\<close> asks for them.\<close>

fun revokes :: "string \<Rightarrow> string \<Rightarrow> account_op \<Rightarrow> bool" where
  "revokes a u (SetPassword v p h) = (v = u)"
| "revokes a u (UpdateUser v (Some b) (Some h)) = (v = u \<and> uur_Password b \<noteq> [])"
| "revokes a u (DeleteUser v) = (v = u)"
| "revokes a u (MyPassword b h) = (a = u)"
| "revokes a u x = False"

fun recreates :: "string \<Rightarrow> account_op \<Rightarrow> bool" where
  "recreates u (CreateUser i b h) = (i = u)"
| "recreates u x = False"

lemma barrier_password:
  "session_barrier u s db \<Longrightarrow> s \<le> unix now \<Longrightarrow> session_barrier u s (DeleteTrustedDevices v (RevokeSessions now v (set_hash v h db)))"
  "session_barrier u (unix now) (DeleteTrustedDevices u (RevokeSessions now u (set_hash u h db)))"
  by (auto simp: session_barrier_def DeleteTrustedDevices_def RevokeSessions_def set_hash_def user_exists_def)

lemma barrier_cong:
  "session_barrier u s db \<Longrightarrow> gm_get (rd_users (ac_rights db')) u = gm_get (rd_users (ac_rights db)) u \<Longrightarrow>
   gm_get0 (ac_valid_after db') 0 u = gm_get0 (ac_valid_after db) 0 u \<Longrightarrow> session_barrier u s db'"
  by (simp add: session_barrier_def user_exists_iff)

lemma barrier_new_password:
  "session_barrier u s db \<Longrightarrow> s \<le> unix now \<Longrightarrow> session_barrier u s (new_password now v p h db)"
  by (simp add: new_password_def barrier_password split: option.split)

lemma update_keeps_barrier:
  assumes "session_barrier u s db" and "user_exists db v"
  shows "session_barrier u s (db\<lparr>ac_emails := m, ac_rights := (ac_rights db)\<lparr>rd_users := gm_set v r (rd_users (ac_rights db))\<rparr>\<rparr>)"
  using assms by (auto simp: session_barrier_def user_exists_iff)

lemma handle_barrier:
  assumes "session_barrier u s db" and "s \<le> unix now" and "\<not> recreates u x"
  shows "session_barrier u s (snd (handle en ok now a x db))"
proof (cases x)
  case (UpdateUser v b h)
  then show ?thesis using assms
    by (auto simp: users_update_def Let_def intro!: barrier_new_password update_keeps_barrier split: option.split prod.split)
next
  case (CreateUser i b h)
  then show ?thesis using assms
    by (auto simp: users_create_def Let_def split: option.split prod.split intro: barrier_cong)
next
  case (SetPassword v p h)
  then show ?thesis using assms by (auto simp: users_changePassword_def barrier_password split: option.split)
next
  case (DeleteUser v)
  then show ?thesis using assms
    by (auto simp: users_delete_def drop_member_def session_barrier_def user_exists_iff gm_get0_def)
next
  case (MyPassword b h)
  then show ?thesis using assms by (auto simp: me_changePassword_def barrier_password split: option.split)
next
  case (MyEmail b)
  then show ?thesis using assms by (auto simp: me_updateEmail_def session_barrier_def user_exists_def split: option.split)
next
  case (MintToken i t b)
  then show ?thesis using assms
    by (auto simp: tokens_create_def session_barrier_def user_exists_def split: option.split sum.split)
next
  case (RevokeToken i)
  then show ?thesis using assms by (auto simp: tokens_revoke_def session_barrier_def user_exists_def)
qed (use assms in \<open>auto simp: snd_on_rights teams_keep_users saveAccess_keeps_users intro: barrier_cong\<close>)

lemma run_barrier:
  "session_barrier u s db \<Longrightarrow> list_all (\<lambda>f. s \<le> unix (ev_now f) \<and> \<not> recreates u (ev_op f)) es \<Longrightarrow> session_barrier u s (account_run en es db)"
  by (induction es arbitrary: db) (simp_all add: serve_account_def handle_barrier)

lemma revokes_barrier:
  assumes "revokes a u x" and "fst (handle en ok now a x db) \<in> {200, 204}"
  shows "session_barrier u (unix now) (snd (handle en ok now a x db))"
proof (cases x)
  case (UpdateUser v b h)
  then show ?thesis using assms
    by (auto simp: users_update_def Let_def new_password_def barrier_password split: option.splits prod.splits if_splits)
next
  case (SetPassword v p h)
  then show ?thesis using assms by (auto simp: users_changePassword_def barrier_password split: option.splits if_splits)
next
  case (DeleteUser v)
  then show ?thesis using assms
    by (auto simp: users_delete_def drop_member_def session_barrier_def user_exists_iff split: if_splits)
next
  case (MyPassword b h)
  then show ?thesis using assms by (auto simp: me_changePassword_def barrier_password split: option.splits if_splits)
qed (use assms in simp_all)

lemma barrier_refuses:
  "session_barrier u s db \<Longrightarrow> issued < s \<Longrightarrow> VerifyJWTIssued parse token = Some (u, issued) \<Longrightarrow> \<not> IsPATToken token \<Longrightarrow>
   fst (authenticateBearer sha parse now token db) = None"
  by (auto simp: authenticateBearer_def session_barrier_def)

lemma unix_mono: "a \<le> b \<Longrightarrow> unix a \<le> unix b"
  by (simp add: unix_def zdiv_mono1)


definition session_of :: "string \<Rightarrow> int \<Rightarrow> string \<Rightarrow> jwt_claims option" where
  "session_of u s token = Some \<lparr>jc_UserID = u, jc_Pending = False, jc_IssuedAt = Some s\<rparr>"


section \<open>Tokens\<close>

definition tokens_unique :: "accounts_db \<Rightarrow> bool" where
  "tokens_unique db \<longleftrightarrow> distinct (map apt_hash (ac_tokens db))"

text \<open>Every token with the hash is revoked, or there is none.\<close>

definition token_dead :: "string \<Rightarrow> accounts_db \<Rightarrow> bool" where
  "token_dead h db = list_all (\<lambda>t. apt_hash t = h \<longrightarrow> apt_revoked t) (ac_tokens db)"

fun kills_token :: "string \<Rightarrow> api_token \<Rightarrow> account_op \<Rightarrow> bool" where
  "kills_token a t (RevokeToken i) = (i = apt_id t \<and> a = apt_user t)"
| "kills_token a t (DeleteUser u) = (u = apt_user t)"
| "kills_token a t x = False"

fun mints :: "account_env \<Rightarrow> string \<Rightarrow> account_op \<Rightarrow> bool" where
  "mints en h (MintToken i s b) = (en_sha en s = h)"
| "mints en h x = False"

lemma handle_other_tokens:
  "(case x of MintToken i s b \<Rightarrow> False | RevokeToken i \<Rightarrow> False | DeleteUser u \<Rightarrow> False | _ \<Rightarrow> True) \<Longrightarrow>
   ac_tokens (snd (handle en ok now a x db)) = ac_tokens db"
  by (cases x) (simp_all add: snd_on_rights users_update_def users_create_def users_changePassword_def me_updateEmail_def me_changePassword_def
      new_password_def DeleteTrustedDevices_def RevokeSessions_def set_hash_def Let_def split: option.split prod.split)

lemma handle_dead:
  assumes "token_dead h db" and "\<not> mints en h x"
  shows "token_dead h (snd (handle en ok now a x db))"
proof (cases "case x of MintToken i s b \<Rightarrow> False | RevokeToken i \<Rightarrow> False | DeleteUser u \<Rightarrow> False | _ \<Rightarrow> True")
  case True
  then show ?thesis using assms(1) unfolding token_dead_def by (subst handle_other_tokens)
next
  case False
  then show ?thesis using assms
    by (cases x) (auto simp: token_dead_def tokens_create_def tokens_revoke_def users_delete_def list_all_iff split: option.split sum.split)
qed

lemma run_dead: "token_dead h db \<Longrightarrow> list_all (\<lambda>f. \<not> mints en h (ev_op f)) es \<Longrightarrow> token_dead h (account_run en es db)"
  by (induction es arbitrary: db) (simp_all add: serve_account_def handle_dead)

lemma kills_dead:
  assumes "tokens_unique db" and "t \<in> set (ac_tokens db)" and "kills_token a t x" and "fst (handle en ok now a x db) = 204"
  shows "token_dead (apt_hash t) (snd (handle en ok now a x db))"
proof -
  have "t' = t" if "t' \<in> set (ac_tokens db)" "apt_hash t' = apt_hash t" for t'
    using assms(1,2) that by (auto simp: tokens_unique_def distinct_map inj_on_def)
  then show ?thesis using assms(3,4)
    by (cases x) (auto simp: token_dead_def tokens_revoke_def users_delete_def list_all_iff split: if_splits)
qed

lemma dead_refused: "token_dead (sha secret) db \<Longrightarrow> fst (LookupPAT sha now secret db) = None"
  by (auto simp: LookupPAT_def token_dead_def list_all_iff find_Some_iff split: option.split)


definition bob_token :: api_token where
  "bob_token =
     \<lparr>apt_id = ''k'', apt_user = ''bob'', apt_label = ''ci'', apt_hash = ''hgpx_pat_0'', apt_prefix = [], apt_expires = None,
      apt_revoked = False, apt_last_used = None\<rparr>"

definition token_accounts :: accounts_db where
  "token_accounts = demo_accounts\<lparr>ac_tokens := [bob_token]\<rparr>"

definition bob_revokes :: account_event where
  "bob_revokes = \<lparr>ev_ok = True, ev_now = 0, ev_actor = ''bob'', ev_op = RevokeToken ''k''\<rparr>"


lemma wanted_scopes_refusal: "wanted_scopes ok d u ss acc = Inl e \<Longrightarrow> e = 400 \<or> e = 403"
  by (induction ok d u ss acc rule: wanted_scopes.induct) (auto simp: Let_def split: if_splits)

text \<open>A new token has only scopes its account can hold at that moment.\<close>

lemma wanted_scopes_held:
  "wanted_scopes ok d u ss acc = Inr r \<Longrightarrow> list_all (\<lambda>x. IsKnownScope x \<and> UserCanHoldScope ok d u x) acc \<Longrightarrow>
   distinct acc \<Longrightarrow> list_all (\<lambda>x. IsKnownScope x \<and> UserCanHoldScope ok d u x) r \<and> distinct r"
  by (induction ok d u ss acc rule: wanted_scopes.induct) (auto simp: Let_def split: if_splits)

lemma tokens_create_201:
  "fst (tokens_create sha ok now u i s b db) = 201 \<Longrightarrow>
   \<exists>ss r. wanted_scopes ok (ac_rights db) u ss [] = Inr r \<and> r \<noteq> []
     \<and> ac_token_scopes (snd (tokens_create sha ok now u i s b db)) = ac_token_scopes db @ map (\<lambda>x. (i, x)) r"
  by (cases b; cases "wanted_scopes ok (ac_rights db) u (cut_Scopes (the b)) []")
    (auto simp: tokens_create_def dest: wanted_scopes_refusal split: if_splits)

lemma minted_scopes_held:
  "fst (tokens_create sha ok now u i s b db) = 201 \<Longrightarrow>
   \<exists>r. ac_token_scopes (snd (tokens_create sha ok now u i s b db)) = ac_token_scopes db @ map (\<lambda>x. (i, x)) r \<and> r \<noteq> [] \<and> distinct r
     \<and> list_all (\<lambda>x. IsKnownScope x \<and> UserCanHoldScope ok (ac_rights db) u x) r"
  using tokens_create_201 [of sha ok now u i s b db] by (auto dest: wanted_scopes_held)

end
