(* ===== verification/Client_Address.thy ===== *)
theory Client_Address
  imports Dispatch Proxy_Protocol
begin

text \<open>
  The address of the client of a request (\<open>internal/edge/logger/accesslog.go\<close>, \<open>trustedproxies.go\<close>): which peers
  may announce it in a header, and what is read from the headers. Also \<open>net.SplitHostPort\<close> and
  \<open>IPNet.Contains\<close> of the Go library.
\<close>

section \<open>Library\<close>

definition SplitHostPort :: "string \<Rightarrow> (string \<times> string) option" where
  "SplitHostPort hp =
     (case LastIndexByte hp CHR '':'' of
        None \<Rightarrow> None
      | Some i \<Rightarrow>
          if hd hp = CHR ''['' then
            (case IndexByte hp CHR '']'' of
               None \<Rightarrow> None
             | Some e \<Rightarrow>
                 if e + 1 \<noteq> i then None
                 else if CHR ''['' \<in> set (drop 1 hp) \<or> CHR '']'' \<in> set (drop (e + 1) hp) then None
                 else Some (take (e - 1) (drop 1 hp), drop (i + 1) hp))
          else if CHR '':'' \<in> set (take i hp) then None
          else if CHR ''['' \<in> set hp \<or> CHR '']'' \<in> set hp then None
          else Some (take i hp, drop (i + 1) hp))"

definition ipnet_Contains :: "IPNet \<Rightarrow> Addr \<Rightarrow> bool" where
  "ipnet_Contains n a =
     (case ipn_IP n of
        None \<Rightarrow> False
      | Some q \<Rightarrow>
          (case Unmap q of
             V4 p \<Rightarrow> same_net (nat (if ipn_size n = 128 then ipn_ones n - 96 else ipn_ones n)) (V4 p) (Unmap a)
           | V6 p \<Rightarrow> same_net (nat (ipn_ones n)) (V6 p) (Unmap a)))"

section \<open>Trusted peers\<close>

record trustSet =
  ts_all :: bool
  ts_nets :: "IPNet list"

definition defaultTrustedProxies :: "string list" where
  "defaultTrustedProxies =
     [''127.0.0.0/8'', ''::1/128'', ''10.0.0.0/8'', ''172.16.0.0/12'', ''192.168.0.0/16'', ''fc00::/7'']"

definition host_net :: "Addr \<Rightarrow> IPNet" where
  "host_net a = (let q = Unmap a in \<lparr>ipn_IP = Some q, ipn_ones = int (BitLen q), ipn_size = int (BitLen q)\<rparr>)"

definition trust_entry :: "string \<Rightarrow> trustSet \<Rightarrow> trustSet" where
  "trust_entry e0 ts =
     (let e = TrimSpace e0
      in if e = [] then ts
         else if e = ''*'' then ts\<lparr>ts_all := True\<rparr>
         else if Contains e CHR ''/'' then (case ParseCIDR e of None \<Rightarrow> ts | Some n \<Rightarrow> ts\<lparr>ts_nets := ts_nets ts @ [n]\<rparr>)
         else (case ParseIP e of None \<Rightarrow> ts | Some a \<Rightarrow> ts\<lparr>ts_nets := ts_nets ts @ [host_net a]\<rparr>))"

definition SetTrustedProxies :: "string list \<Rightarrow> trustSet" where
  "SetTrustedProxies entries = fold trust_entry (defaultTrustedProxies @ entries) \<lparr>ts_all = False, ts_nets = []\<rparr>"

definition isTrustedPeer :: "trustSet \<Rightarrow> string \<Rightarrow> bool" where
  "isTrustedPeer ts peer =
     (if ts_all ts then True
      else (case ParseIP peer of None \<Rightarrow> False | Some a \<Rightarrow> list_ex (\<lambda>n. ipnet_Contains n a) (ts_nets ts)))"

section \<open>The client\<close>

record inbound =
  ib_Method :: string
  ib_Host :: string
  ib_Path :: string
  ib_RemoteAddr :: string
  ib_Header :: "(string, string list) gomap"

definition ib_Get :: "inbound \<Rightarrow> string \<Rightarrow> string" where
  "ib_Get r name = first_value (ib_Header r) name"

text \<open>The scan runs over the entries from right to left.\<close>

fun xff_scan :: "trustSet \<Rightarrow> string \<Rightarrow> string list \<Rightarrow> string" where
  "xff_scan ts found [] = found"
| "xff_scan ts found (q # qs) =
     (let p = TrimSpace q
      in if ParseIP p = None then xff_scan ts found qs
         else if \<not> isTrustedPeer ts p then p
         else xff_scan ts p qs)"

definition clientFromXFF :: "trustSet \<Rightarrow> string \<Rightarrow> string" where
  "clientFromXFF ts xff = xff_scan ts [] (rev (split_on CHR '','' xff))"

definition peer_of :: "inbound \<Rightarrow> string" where
  "peer_of r = (case SplitHostPort (ib_RemoteAddr r) of Some (h, p) \<Rightarrow> h | None \<Rightarrow> ib_RemoteAddr r)"

definition forwarded_chain :: "inbound \<Rightarrow> string" where
  "forwarded_chain r = Join (case gm_get (ib_Header r) ''X-Forwarded-For'' of None \<Rightarrow> [] | Some vs \<Rightarrow> vs) '',''"

definition RealIP :: "trustSet \<Rightarrow> inbound \<Rightarrow> string" where
  "RealIP ts r =
     (let peer = peer_of r; cf = TrimSpace (ib_Get r ''Cf-Connecting-Ip''); xff = clientFromXFF ts (forwarded_chain r);
          xri = TrimSpace (ib_Get r ''X-Real-Ip'')
      in if \<not> isTrustedPeer ts peer then peer
         else if ParseIP cf \<noteq> None then cf
         else if xff \<noteq> [] then xff
         else if ParseIP xri \<noteq> None then xri
         else peer)"

section \<open>What a client can forge\<close>

lemma split_on_at: "split_on c (f @ c # h) = split_on c f @ split_on c h"
proof (induction f)
  case (Cons x f)
  have "split_on c f \<noteq> []" by (induction f) (auto split: list.splits)
  then show ?case using Cons by (auto split: list.splits)
qed simp

lemma xff_scan_untrusted:
  "\<not> isTrustedPeer ts (xff_scan ts found qs) \<Longrightarrow> found = [] \<or> isTrustedPeer ts found \<Longrightarrow> xff_scan ts found qs \<noteq> [] \<Longrightarrow>
   xff_scan ts found (qs @ rs) = xff_scan ts found qs"
  by (induction qs arbitrary: found) (auto simp: Let_def)

lemma clientFromXFF_forged:
  "clientFromXFF ts h \<noteq> [] \<Longrightarrow> \<not> isTrustedPeer ts (clientFromXFF ts h) \<Longrightarrow> clientFromXFF ts (f @ CHR '','' # h) = clientFromXFF ts h"
  unfolding clientFromXFF_def split_on_at rev_append by (rule xff_scan_untrusted) simp_all

lemma xff_scan_find:
  "xff_scan ts found qs =
     (case find (\<lambda>p. ParseIP p \<noteq> None \<and> \<not> isTrustedPeer ts p) (map TrimSpace qs) of
        Some p \<Rightarrow> p
      | None \<Rightarrow> last (found # filter (\<lambda>p. ParseIP p \<noteq> None) (map TrimSpace qs)))"
  by (induction qs arbitrary: found) (auto simp: Let_def split: option.splits)


section \<open>A header nobody vouches for\<close>

text \<open>
  A proxy of the local network that appends to \<open>X-Forwarded-For\<close>, as most do, does not remove \<open>CF-Connecting-IP\<close>:
  its clients choose the address the gateway sees.
\<close>

definition lan_request :: "(string, string list) gomap \<Rightarrow> inbound" where
  "lan_request extra =
     \<lparr>ib_Method = ''GET'', ib_Host = ''a.io'', ib_Path = ''/'', ib_RemoteAddr = ''10.0.0.1:4000'',
      ib_Header = (''X-Forwarded-For'', [''203.0.113.9'']) # extra\<rparr>"

definition lan_trust :: trustSet where
  "lan_trust = \<lparr>ts_all = False, ts_nets = [\<lparr>ipn_IP = Some (V4 0x0A000000), ipn_ones = 8, ipn_size = 32\<rparr>]\<rparr>"

lemma cf_header_forged:
  "RealIP lan_trust (lan_request []) = ''203.0.113.9'' \<and>
   RealIP lan_trust (lan_request [(''Cf-Connecting-Ip'', [''198.51.100.7''])]) = ''198.51.100.7''"
  by (simp add: RealIP_def peer_of_def lan_request_def lan_trust_def SplitHostPort_def LastIndexByte_def isTrustedPeer_def netip_eval
      ipnet_Contains_def ib_Get_def first_value_def forwarded_chain_def clientFromXFF_def TrimSpace_def is_space_def)

end
