(* ===== verification/Cookies.thy ===== *)
theory Cookies
  imports Client_Address
begin

text \<open>
  The cookies of a request: \<open>http.Request.Cookies\<close>, \<open>Cookie\<close> and \<open>AddCookie\<close> of the Go library on which the code relies
  (Go 1.25, without its limit on the number of cookies), and \<open>stripCookie\<close> of
  \<open>internal/edge/middleware/bot.go\<close>, which removes one cookie before the request goes to the backend.
\<close>

section \<open>Library\<close>

definition is_tchar :: "char \<Rightarrow> bool" where
  "is_tchar c \<longleftrightarrow>
     (let n = (of_char c :: nat) in (48 \<le> n \<and> n \<le> 57) \<or> (65 \<le> n \<and> n \<le> 90) \<or> (97 \<le> n \<and> n \<le> 122)) \<or> c \<in> set ''!#$%&*+-.^_`|~'' \<or> c = CHR 0x27"

definition isToken :: "string \<Rightarrow> bool" where
  "isToken s \<longleftrightarrow> s \<noteq> [] \<and> list_all is_tchar s"

definition is_blank :: "char \<Rightarrow> bool" where
  "is_blank c \<longleftrightarrow> c \<in> {CHR '' '', CHR 0x09, CHR 0x0A, CHR 0x0D}"

definition TrimString :: "string \<Rightarrow> string" where
  "TrimString s = rev (dropWhile is_blank (rev (dropWhile is_blank s)))"

definition Cut :: "string \<Rightarrow> char \<Rightarrow> (string \<times> string) option" where
  "Cut s c = map_option (\<lambda>i. (take i s, drop (i + 1) s)) (IndexByte s c)"

definition validCookieValueByte :: "char \<Rightarrow> bool" where
  "validCookieValueByte c \<longleftrightarrow>
     0x20 \<le> (of_char c :: nat) \<and> (of_char c :: nat) < 0x7f \<and> c \<notin> {CHR 0x22, CHR '';'', CHR 0x5C}"

record cookie =
  ck_Name :: string
  ck_Value :: string
  ck_Quoted :: bool

definition is_quoted :: "string \<Rightarrow> bool" where
  "is_quoted s \<longleftrightarrow> 1 < length s \<and> hd s = CHR 0x22 \<and> last s = CHR 0x22"

definition parseCookieValue :: "string \<Rightarrow> (string \<times> bool) option" where
  "parseCookieValue raw =
     (let quoted = is_quoted raw; v = (if quoted then butlast (tl raw) else raw)
      in if list_all validCookieValueByte v then Some (v, quoted) else None)"

definition read_part :: "string \<Rightarrow> cookie list" where
  "read_part part0 =
     (let part = TrimString part0;
          (name, val) = (case Cut part CHR ''='' of None \<Rightarrow> (part, []) | Some nv \<Rightarrow> nv)
      in if part = [] \<or> \<not> isToken (TrimString name) then []
         else (case parseCookieValue val of
                 None \<Rightarrow> []
               | Some (v, q) \<Rightarrow> [\<lparr>ck_Name = TrimString name, ck_Value = v, ck_Quoted = q\<rparr>]))"

definition readCookies :: "string list \<Rightarrow> cookie list" where
  "readCookies cookie_lines = concat (map (\<lambda>l. concat (map read_part (split_on CHR '';'' (TrimString l)))) cookie_lines)"

definition render_cookie :: "cookie \<Rightarrow> string" where
  "render_cookie c =
     (let v = filter validCookieValueByte (ck_Value c)
      in map (\<lambda>x. if x = CHR 0x0A \<or> x = CHR 0x0D then CHR ''-'' else x) (ck_Name c) @ ''=''
           @ (if v \<noteq> [] \<and> (CHR '' '' \<in> set v \<or> CHR '','' \<in> set v \<or> ck_Quoted c) then CHR 0x22 # v @ [CHR 0x22] else v))"

section \<open>Cookies of a request\<close>

definition ib_Cookies :: "inbound \<Rightarrow> cookie list" where
  "ib_Cookies r = readCookies (case gm_get (ib_Header r) ''Cookie'' of None \<Rightarrow> [] | Some vs \<Rightarrow> vs)"

definition ib_Cookie :: "inbound \<Rightarrow> string \<Rightarrow> string option" where
  "ib_Cookie r name = (if name = [] then None else map_option ck_Value (find (\<lambda>c. ck_Name c = name) (ib_Cookies r)))"

definition AddCookie :: "cookie \<Rightarrow> inbound \<Rightarrow> inbound" where
  "AddCookie c r =
     (let s = render_cookie c; old = ib_Get r ''Cookie''
      in r\<lparr>ib_Header := gm_set ''Cookie'' [if old \<noteq> [] then old @ ''; '' @ s else s] (ib_Header r)\<rparr>)"

definition stripCookie :: "string \<Rightarrow> inbound \<Rightarrow> inbound" where
  "stripCookie name r =
     fold (\<lambda>c r. if ck_Name c \<noteq> name then AddCookie c r else r) (ib_Cookies r) (r\<lparr>ib_Header := gm_del ''Cookie'' (ib_Header r)\<rparr>)"

section \<open>Removing a cookie\<close>

abbreviation pair_of :: "cookie \<Rightarrow> string \<times> string" where
  "pair_of c \<equiv> (ck_Name c, ck_Value c)"

definition cookie_ok :: "cookie \<Rightarrow> bool" where
  "cookie_ok c \<longleftrightarrow> isToken (ck_Name c) \<and> list_all validCookieValueByte (ck_Value c)"

lemma read_part_ok: "list_all cookie_ok (read_part p)"
  by (auto simp: read_part_def parseCookieValue_def cookie_ok_def Let_def split: option.splits prod.splits if_splits)

lemma readCookies_ok: "list_all cookie_ok (readCookies ls)"
  using read_part_ok by (auto simp: readCookies_def list_all_iff)

lemma TrimString_id: "s \<noteq> [] \<Longrightarrow> \<not> is_blank (hd s) \<Longrightarrow> \<not> is_blank (last s) \<Longrightarrow> TrimString s = s"
proof -
  assume s: "s \<noteq> []" "\<not> is_blank (hd s)" "\<not> is_blank (last s)"
  then have "dropWhile is_blank s = s" "dropWhile is_blank (rev s) = rev s"
    by (cases s; simp; fail) (use s in \<open>cases s rule: rev_cases; simp\<close>)
  then show ?thesis by (simp add: TrimString_def)
qed

lemma tchar_plain: "is_tchar c \<Longrightarrow> \<not> is_blank c \<and> c \<noteq> CHR ''='' \<and> c \<noteq> CHR '';'' \<and> c \<noteq> CHR 0x0A \<and> c \<noteq> CHR 0x0D"
  by (auto simp: is_tchar_def is_blank_def)

lemma IndexByte_append: "c \<notin> set xs \<Longrightarrow> IndexByte (xs @ c # ys) c = Some (length xs)"
  by (induction xs) auto

lemma render_ok:
  assumes "cookie_ok c"
  shows "render_cookie c =
    ck_Name c @ CHR ''='' # (if ck_Value c \<noteq> [] \<and> (CHR '' '' \<in> set (ck_Value c) \<or> CHR '','' \<in> set (ck_Value c) \<or> ck_Quoted c)
                             then CHR 0x22 # ck_Value c @ [CHR 0x22] else ck_Value c)"
proof -
  have v: "filter validCookieValueByte (ck_Value c) = ck_Value c"
    using assms by (simp add: cookie_ok_def list_all_iff)
  have "map (\<lambda>x. if x = CHR 0x0A \<or> x = CHR 0x0D then CHR ''-'' else x) (ck_Name c) = ck_Name c"
    by (rule map_idI) (use assms tchar_plain in \<open>auto simp: cookie_ok_def isToken_def list_all_iff\<close>)
  then show ?thesis by (simp add: render_cookie_def v Let_def)
qed

lemma TrimString_space: "TrimString (CHR '' '' # s) = TrimString s"
  by (simp add: TrimString_def is_blank_def)

lemma valid_plain: "validCookieValueByte c \<Longrightarrow> c \<noteq> CHR 0x22 \<and> c \<noteq> CHR '';'' \<and> (is_blank c \<longrightarrow> c = CHR '' '')"
  by (auto simp: validCookieValueByte_def is_blank_def)

lemma render_ends:
  assumes "cookie_ok c"
  shows "render_cookie c \<noteq> []" "\<not> is_blank (hd (render_cookie c))" "\<not> is_blank (last (render_cookie c))" "CHR '';'' \<notin> set (render_cookie c)"
proof -
  have n: "ck_Name c \<noteq> []" "list_all is_tchar (ck_Name c)" and v: "list_all validCookieValueByte (ck_Value c)"
    using assms by (simp_all add: cookie_ok_def isToken_def)
  show "render_cookie c \<noteq> []" using n by (simp add: render_ok [OF assms])
  show "\<not> is_blank (hd (render_cookie c))"
    using n tchar_plain [of "hd (ck_Name c)"] by (simp add: render_ok [OF assms] list_all_iff)
  show "\<not> is_blank (last (render_cookie c))"
  proof (cases "ck_Value c = []")
    case False
    then have "last (ck_Value c) \<in> set (ck_Value c)" by simp
    then show ?thesis using v valid_plain [of "last (ck_Value c)"]
      by (auto simp: render_ok [OF assms] list_all_iff is_blank_def)
  qed (simp add: render_ok [OF assms] is_blank_def)
  show "CHR '';'' \<notin> set (render_cookie c)"
    using n v tchar_plain valid_plain by (auto simp: render_ok [OF assms] list_all_iff)
qed

lemma read_render:
  assumes "cookie_ok c"
  shows "map pair_of (read_part (render_cookie c)) = [pair_of c]"
proof -
  note ends = render_ends [OF assms]
  have n: "ck_Name c \<noteq> []" "list_all is_tchar (ck_Name c)" and v: "list_all validCookieValueByte (ck_Value c)" and tok: "isToken (ck_Name c)"
    using assms by (simp_all add: cookie_ok_def isToken_def)
  have nb: "\<And>x. x \<in> set (ck_Name c) \<Longrightarrow> \<not> is_blank x \<and> x \<noteq> CHR ''=''"
    using n tchar_plain by (auto simp: list_all_iff)
  then have "TrimString (ck_Name c) = ck_Name c" using n by (intro TrimString_id) auto
  moreover have "is_quoted (ck_Value c) = False"
    using v valid_plain [of "hd (ck_Value c)"] by (cases "ck_Value c") (auto simp: is_quoted_def)
  moreover have "is_quoted (CHR 0x22 # ck_Value c @ [CHR 0x22])" by (simp add: is_quoted_def)
  moreover have "CHR ''='' \<notin> set (ck_Name c)" using nb by blast
  ultimately show ?thesis
    unfolding read_part_def TrimString_id [OF ends(1-3)]
    using v tok n by (simp add: render_ok [OF assms] Cut_def IndexByte_append parseCookieValue_def Let_def)
qed

lemma read_space: "read_part (CHR '' '' # p) = read_part p"
  by (simp add: read_part_def TrimString_space)

lemma Join_snoc: "Join (ss @ [t]) sep = (if ss = [] then t else Join ss sep @ sep @ t)"
  by (induction ss sep rule: Join.induct) auto

lemma Join_parts:
  "list_all cookie_ok (c # cs) \<Longrightarrow>
   split_on CHR '';'' (Join (map render_cookie (c # cs)) ''; '') = render_cookie c # map (\<lambda>c. CHR '' '' # render_cookie c) cs"
proof (induction cs arbitrary: c)
  case (Cons d cs)
  then have "CHR '';'' \<notin> set (render_cookie c)" using render_ends by simp
  moreover have "split_on CHR '';'' (CHR '' '' # Join (map render_cookie (d # cs)) ''; '') =
     (CHR '' '' # render_cookie d) # map (\<lambda>c. CHR '' '' # render_cookie c) cs"
    using Cons.IH [of d] Cons.prems by simp
  ultimately show ?case by (simp add: split_on_append)
qed (simp add: render_ends split_on_single)

lemma Join_ends:
  "list_all cookie_ok (c # cs) \<Longrightarrow>
   TrimString (Join (map render_cookie (c # cs)) ''; '') = Join (map render_cookie (c # cs)) ''; ''"
proof (rule TrimString_id)
  assume ok: "list_all cookie_ok (c # cs)"
  then have c: "cookie_ok c" by simp
  show "Join (map render_cookie (c # cs)) ''; '' \<noteq> []" "\<not> is_blank (hd (Join (map render_cookie (c # cs)) ''; ''))"
    using render_ends [OF c] by (cases cs; simp)+
  show "\<not> is_blank (last (Join (map render_cookie (c # cs)) ''; ''))"
    using ok by (cases cs rule: rev_cases)
      (auto simp: render_ends Join_snoc [of "render_cookie c # map render_cookie ys" for ys, simplified])
qed

lemma read_rendered:
  assumes "list_all cookie_ok cs"
  shows "map pair_of (readCookies (if cs = [] then [] else [Join (map render_cookie cs) ''; ''])) = map pair_of cs"
proof (cases cs)
  case (Cons c ds)
  have "map pair_of (concat (map read_part (map render_cookie ds))) = map pair_of ds"
    using assms unfolding Cons by (induction ds) (auto simp: read_render)
  then show ?thesis
    using assms Join_parts [of c ds] Join_ends [of c ds] read_render [of c] unfolding Cons
    by (simp add: readCookies_def read_space comp_def)
qed (simp add: readCookies_def)

lemma update_update: "gm_set k v (gm_set k w m) = gm_set k v m"
  by (induction m) auto

lemma fold_AddCookie:
  assumes "list_all cookie_ok cs" "gm_get (ib_Header r) ''Cookie'' = None"
  shows "fold (\<lambda>c r. if ck_Name c \<noteq> name then AddCookie c r else r) cs r =
    (let keep = filter (\<lambda>c. ck_Name c \<noteq> name) cs
     in if keep = [] then r else r\<lparr>ib_Header := gm_set ''Cookie'' [Join (map render_cookie keep) ''; ''] (ib_Header r)\<rparr>)"
  using assms(1)
proof (induction cs rule: rev_induct)
  case (snoc c cs)
  let ?keep = "filter (\<lambda>c. ck_Name c \<noteq> name) cs"
  have "Join (map render_cookie ?keep) ''; '' \<noteq> []" if "?keep \<noteq> []"
  proof -
    have "list_all cookie_ok ?keep" using snoc.prems by (simp add: list_all_iff)
    then show ?thesis using that render_ends(1) by (cases "?keep"; cases "tl ?keep") auto
  qed
  then show ?case
    using snoc by (auto simp: AddCookie_def ib_Get_def first_value_def assms(2) Join_snoc update_update Let_def)
qed simp

lemma stripCookie_eq:
  "stripCookie name r = r\<lparr>ib_Header :=
     (let keep = filter (\<lambda>c. ck_Name c \<noteq> name) (ib_Cookies r); h = gm_del ''Cookie'' (ib_Header r)
      in if keep = [] then h else gm_set ''Cookie'' [Join (map render_cookie keep) ''; ''] h)\<rparr>"
  unfolding stripCookie_def
  by (subst fold_AddCookie) (simp_all add: ib_Cookies_def readCookies_ok Let_def)

lemma stripCookie_pairs:
  "map pair_of (ib_Cookies (stripCookie name r)) = filter (\<lambda>(n, v). n \<noteq> name) (map pair_of (ib_Cookies r))"
proof -
  let ?keep = "filter (\<lambda>c. ck_Name c \<noteq> name) (ib_Cookies r)"
  have ok: "list_all cookie_ok ?keep" using readCookies_ok by (auto simp: ib_Cookies_def list_all_iff)
  have "gm_get (ib_Header (stripCookie name r)) ''Cookie'' =
      (if ?keep = [] then None else Some [Join (map render_cookie ?keep) ''; ''])"
    by (simp add: stripCookie_eq Let_def)
  then have "map pair_of (ib_Cookies (stripCookie name r)) =
      map pair_of (readCookies (if ?keep = [] then [] else [Join (map render_cookie ?keep) ''; '']))"
    unfolding ib_Cookies_def [of "stripCookie name r"] by simp
  also have "\<dots> = map pair_of ?keep" by (rule read_rendered [OF ok])
  also have "\<dots> = filter (\<lambda>(n, v). n \<noteq> name) (map pair_of (ib_Cookies r))" by (simp add: filter_map comp_def)
  finally show ?thesis .
qed

lemma strip_no_cookie: "ib_Cookie (stripCookie name r) name = None"
proof -
  have "name \<notin> fst ` set (map pair_of (ib_Cookies (stripCookie name r)))" unfolding stripCookie_pairs by auto
  then show ?thesis by (force simp: ib_Cookie_def find_None_iff)
qed

lemma stripCookie_rest:
  "ib_Method (stripCookie name r) = ib_Method r" "ib_Host (stripCookie name r) = ib_Host r" "ib_Path (stripCookie name r) = ib_Path r"
  "ib_RemoteAddr (stripCookie name r) = ib_RemoteAddr r"
  "k \<noteq> ''Cookie'' \<Longrightarrow> gm_get (ib_Header (stripCookie name r)) k = gm_get (ib_Header r) k"
  by (simp_all add: stripCookie_eq Let_def)

text \<open>
  C19: Stripping a cookie removes every cookie of that name and leaves the others, in order and with their values,
  although the header is parsed, written again and parsed once more by the backend; other headers and the rest of the
  request stay as they are.
\<close>

theorem strip_removes_exactly:
  "map pair_of (ib_Cookies (stripCookie name r)) = filter (\<lambda>(n, v). n \<noteq> name) (map pair_of (ib_Cookies r))
   \<and> (\<lambda>k. if k = ''Cookie'' then None else gm_get (ib_Header (stripCookie name r)) k)
       = (\<lambda>k. if k = ''Cookie'' then None else gm_get (ib_Header r) k)
   \<and> (stripCookie name r)\<lparr>ib_Header := []\<rparr> = r\<lparr>ib_Header := []\<rparr>"
proof (intro conjI)
  show "(\<lambda>k. if k = ''Cookie'' then None else gm_get (ib_Header (stripCookie name r)) k)
       = (\<lambda>k. if k = ''Cookie'' then None else gm_get (ib_Header r) k)"
    by (rule ext) (simp add: stripCookie_rest)
qed (simp_all only: stripCookie_pairs, simp add: stripCookie_eq)

end
