(* ===== verification/Bot_Challenge.thy ===== *)
theory Bot_Challenge
  imports Cookies Traffic_Limits Rewrite
begin

text \<open>
  The browser challenge of a route and of the gateway (\<open>internal/edge/middleware/botchallenge.go\<close>, \<open>bot.go\<close>,
  \<open>gatewaychallenge.go\<close>): stateless challenges and proof cookies, signed with HMAC-SHA-256 and bound to the
  address and the user agent of the client. The hash, the MAC (in hexadecimal), the parser of durations and the
  answer of a captcha service are arguments; instants are nanoseconds since the Unix epoch.
\<close>

section \<open>Library\<close>

definition Unix :: "go_time \<Rightarrow> int" where
  "Unix t = t div 10 ^ 9"

text \<open>\<open>strconv.ParseInt\<close> in base ten and 64 bits.\<close>

definition parse_digits :: "string \<Rightarrow> int option" where
  "parse_digits s = (if s = [] \<or> \<not> list_all is_digit s then None else Some (int (dec_val s)))"

definition ParseInt :: "string \<Rightarrow> int option" where
  "ParseInt s =
     (let neg = HasPrefix s ''-''; digits = (if neg \<or> HasPrefix s ''+'' then drop 1 s else s)
      in case parse_digits digits of
           None \<Rightarrow> None
         | Some n \<Rightarrow> if neg then (if 2 ^ 63 < n then None else Some (- n)) else if 2 ^ 63 \<le> n then None else Some n)"

definition hex_char :: "nat \<Rightarrow> char" where
  "hex_char k = char_of (if k < 10 then 48 + k else 87 + k)"

definition hexEncode :: "string \<Rightarrow> string" where
  "hexEncode s = concat (map (\<lambda>c. [hex_char (of_char c div 16), hex_char (of_char c mod 16)]) s)"

definition contains_str :: "string \<Rightarrow> string \<Rightarrow> bool" where
  "contains_str s sub \<longleftrightarrow> str_index s sub \<noteq> None"

section \<open>Challenges\<close>

record challenge_env =
  ce_mac :: "string \<Rightarrow> string \<Rightarrow> string"
  ce_sha :: "string \<Rightarrow> string"
  ce_trust :: trustSet
  ce_duration :: "string \<Rightarrow> go_duration option"
  ce_captcha :: "string \<Rightarrow> string \<Rightarrow> string \<Rightarrow> string \<Rightarrow> bool"

definition botCookie :: string where "botCookie = ''_gpx_bot''"
definition botChallengePath :: string where "botChallengePath = ''/.gpx/challenge''"
definition defaultChallengeBits :: int where "defaultChallengeBits = 16"
definition maxChallengeBits :: int where "maxChallengeBits = 24"
definition challengeLifetime :: go_duration where "challengeLifetime = 300 * 10 ^ 9"
definition defaultChallengeTTL :: go_duration where "defaultChallengeTTL = 86400 * 10 ^ 9"
definition minChallengeTTL :: go_duration where "minChallengeTTL = 60 * 10 ^ 9"

record botChallenge =
  bc_secret :: string
  bc_provider :: string
  bc_bits :: int
  bc_passTTL :: go_duration
  bc_siteKey :: string
  bc_providerKey :: string
  bc_exempt :: "string list"
  bc_cookie :: string
  bc_verifyPath :: string

definition newBotChallenge :: "challenge_env \<Rightarrow> BotConfig \<Rightarrow> string \<Rightarrow> botChallenge" where
  "newBotChallenge env cfg secret =
     (let provider = ToLower (TrimSpace (bot_ChallengeProvider cfg)); bits = bot_ChallengeDifficulty cfg
      in \<lparr>bc_secret = secret,
          bc_provider = (if provider = [] then ''pow'' else provider),
          bc_bits = (if bits \<le> 0 then defaultChallengeBits else if maxChallengeBits < bits then maxChallengeBits else bits),
          bc_passTTL = (case ce_duration env (TrimSpace (bot_ChallengeTTL cfg)) of
                          None \<Rightarrow> defaultChallengeTTL | Some d \<Rightarrow> if minChallengeTTL \<le> d then d else defaultChallengeTTL),
          bc_siteKey = bot_ChallengeSiteKey cfg, bc_providerKey = bot_ChallengeProviderSecret cfg,
          bc_exempt = bot_ChallengeExemptPaths cfg, bc_cookie = botCookie, bc_verifyPath = botChallengePath\<rparr>)"

definition isExempt :: "botChallenge \<Rightarrow> string \<Rightarrow> bool" where
  "isExempt c path = list_ex (\<lambda>p. p \<noteq> [] \<and> HasPrefix path p) (bc_exempt c)"

definition bot_bind :: "challenge_env \<Rightarrow> inbound \<Rightarrow> string" where
  "bot_bind env r = hexEncode (take 8 (ce_sha env (RealIP (ce_trust env) r @ ''|'' @ ib_Get r ''User-Agent'')))"

definition challenge_mac :: "challenge_env \<Rightarrow> botChallenge \<Rightarrow> string list \<Rightarrow> string" where
  "challenge_mac env c parts = ce_mac env (bc_secret c) (Join parts ''|'')"

definition passToken :: "challenge_env \<Rightarrow> botChallenge \<Rightarrow> go_time \<Rightarrow> inbound \<Rightarrow> string" where
  "passToken env c now r =
     (let expiry = FormatInt (Unix (now + bc_passTTL c)) in expiry @ ''.'' @ challenge_mac env c [''pass'', expiry, bot_bind env r])"

definition hasProof :: "challenge_env \<Rightarrow> botChallenge \<Rightarrow> go_time \<Rightarrow> inbound \<Rightarrow> bool" where
  "hasProof env c now r =
     (case ib_Cookie r (bc_cookie c) of
        None \<Rightarrow> False
      | Some v \<Rightarrow>
          (case Cut v CHR ''.'' of
             None \<Rightarrow> False
           | Some (expiry, mac) \<Rightarrow>
               (case ParseInt expiry of
                  None \<Rightarrow> False
                | Some ts \<Rightarrow> if ts < Unix now then False else mac = challenge_mac env c [''pass'', expiry, bot_bind env r])))"

text \<open>\<open>rnd\<close> is the random value, eight bytes.\<close>

definition challenge_body :: "botChallenge \<Rightarrow> go_time \<Rightarrow> string \<Rightarrow> string" where
  "challenge_body c now rnd = FormatInt (Unix (now + challengeLifetime)) @ ''.'' @ hexEncode rnd @ ''.'' @ FormatInt (bc_bits c)"

definition newChallenge :: "challenge_env \<Rightarrow> botChallenge \<Rightarrow> go_time \<Rightarrow> string \<Rightarrow> inbound \<Rightarrow> string" where
  "newChallenge env c now rnd r =
     (let body = challenge_body c now rnd in body @ ''.'' @ challenge_mac env c [''ch'', body, bot_bind env r])"

fun leadingZeroBits :: "string \<Rightarrow> int" where
  "leadingZeroBits [] = 0"
| "leadingZeroBits (v # vs) =
     (let b = (of_char v :: 8 word)
      in if b = 0 then 8 + leadingZeroBits vs else int (length (takeWhile (\<lambda>i. \<not> bit b i) (rev [0..<8]))))"

definition verifyChallenge :: "challenge_env \<Rightarrow> botChallenge \<Rightarrow> go_time \<Rightarrow> inbound \<Rightarrow> string \<Rightarrow> string \<Rightarrow> bool" where
  "verifyChallenge env c now r token nonce =
     (case LastIndexByte token CHR ''.'' of
        None \<Rightarrow> False
      | Some i \<Rightarrow>
          if nonce = [] \<or> 20 < length nonce then False
          else (let body = take i token; mac = drop (i + 1) token
                in if mac \<noteq> challenge_mac env c [''ch'', body, bot_bind env r] then False
                   else (case split_on CHR ''.'' body of
                           [f0, f1, f2] \<Rightarrow>
                             (case (ParseInt f0, ParseInt f2) of
                                (Some expiry, Some bits) \<Rightarrow>
                                  if expiry < Unix now then False else bits \<le> leadingZeroBits (ce_sha env (token @ '':'' @ nonce))
                              | _ \<Rightarrow> False)
                         | _ \<Rightarrow> False)))"

definition verifyCaptcha :: "challenge_env \<Rightarrow> botChallenge \<Rightarrow> inbound \<Rightarrow> string \<Rightarrow> bool" where
  "verifyCaptcha env c r token =
     (if bc_provider c \<notin> {''turnstile'', ''hcaptcha''} \<or> token = [] \<or> 4096 < length token then False
      else ce_captcha env (bc_provider c) (bc_providerKey c) token (RealIP (ce_trust env) r))"

text \<open>The body of a solution: challenge, nonce, captcha token. The answer is a status and the cookie it sets.\<close>

record solution =
  so_Challenge :: string
  so_Nonce :: string
  so_Token :: string

definition handleVerify :: "challenge_env \<Rightarrow> botChallenge \<Rightarrow> go_time \<Rightarrow> inbound \<Rightarrow> solution option \<Rightarrow> nat \<times> (string \<times> string) option" where
  "handleVerify env c now r body =
     (case body of
        None \<Rightarrow> (400, None)
      | Some s \<Rightarrow>
          if (if bc_provider c = ''pow'' then verifyChallenge env c now r (so_Challenge s) (so_Nonce s) else verifyCaptcha env c r (so_Token s))
          then (204, Some (bc_cookie c, passToken env c now r))
          else (403, None))"

text \<open>What becomes of a request: it goes on, is answered, or gets the page of a challenge.\<close>

datatype passage = Forward inbound | Answer nat "(string \<times> string) option" | ChallengePage "string option"

definition serve_challenge :: "challenge_env \<Rightarrow> botChallenge \<Rightarrow> go_time \<Rightarrow> string \<Rightarrow> inbound \<Rightarrow> passage" where
  "serve_challenge env c now rnd r =
     (if ib_Method r \<noteq> ''GET'' \<and> ib_Method r \<noteq> ''HEAD'' then Answer 403 None
      else ChallengePage (if bc_provider c \<in> {''turnstile'', ''hcaptcha''} then None else Some (newChallenge env c now rnd r)))"

section \<open>The challenge of a route\<close>

definition defaultBotUABlacklist :: "string list" where
  "defaultBotUABlacklist =
     [''sqlmap'', ''nikto'', ''nmap'', ''masscan'', ''zgrab'', ''dirbuster'', ''gobuster'', ''feroxbuster'', ''nuclei'', ''wfuzz'', ''hydra'', ''medusa'',
      ''semrushbot'', ''ahrefsbot'', ''mj12bot'', ''dotbot'', ''petalbot'', ''majestic'', ''rogerbot'', ''exabot'']"

definition matchesUABlacklist :: "string \<Rightarrow> string list \<Rightarrow> bool" where
  "matchesUABlacklist ua blacklist = list_ex (\<lambda>e. contains_str (ToLower ua) (ToLower e)) blacklist"

definition BotProtection ::
  "challenge_env \<Rightarrow> string \<Rightarrow> BotConfig option \<Rightarrow> go_time \<Rightarrow> string \<Rightarrow> solution option \<Rightarrow> inbound \<Rightarrow> passage" where
  "BotProtection env processSecret config now rnd body r =
     (case config of
        None \<Rightarrow> Forward r
      | Some cfg \<Rightarrow>
          if \<not> bot_Enabled cfg then Forward r
          else (let mode = ToLower (TrimSpace (bot_Mode cfg));
                    monitor = (mode = ''monitor'' \<or> mode = ''log'');
                    jsChallenge = (bot_JSChallenge cfg \<or> mode = ''challenge'');
                    c = newBotChallenge env cfg (if bot_ChallengeSecret cfg = [] then processSecret else bot_ChallengeSecret cfg);
                    blacklist = (if bot_UABlacklist cfg = [] then defaultBotUABlacklist else bot_UABlacklist cfg)
                in if matchesUABlacklist (ib_Get r ''User-Agent'') blacklist \<and> \<not> monitor then Answer 403 None
                   else if \<not> jsChallenge then Forward r
                   else if ib_Method r = ''POST'' \<and> ib_Path r = botChallengePath then
                     (case handleVerify env c now r body of (status, cookie) \<Rightarrow> Answer status cookie)
                   else if isExempt c (ib_Path r) then Forward r
                   else if \<not> hasProof env c now r then serve_challenge env c now rnd r
                   else Forward (stripCookie botCookie r)))"

section \<open>The challenge of the gateway\<close>

record GatewayChallengeConfig =
  gcc_Difficulty :: int
  gcc_TTL :: string
  gcc_ExemptPaths :: "string list"
  gcc_Secret :: string

definition GatewayChallengePath :: string where "GatewayChallengePath = ''/.gpx/ephor-challenge''"
definition gatewayChallengeCookie :: string where "gatewayChallengeCookie = ''_gpx_ephor''"

definition gateway_bot_config :: "GatewayChallengeConfig \<Rightarrow> BotConfig" where
  "gateway_bot_config cfg =
     \<lparr>bot_Enabled = False, bot_Mode = [], bot_UABlacklist = [], bot_JSChallenge = False, bot_ChallengeSecret = [],
      bot_ChallengeProvider = ''pow'', bot_ChallengeDifficulty = gcc_Difficulty cfg, bot_ChallengeTTL = gcc_TTL cfg,
      bot_ChallengeSiteKey = [], bot_ChallengeProviderSecret = [], bot_ChallengeExemptPaths = gcc_ExemptPaths cfg\<rparr>"

definition NewGatewayChallenge :: "challenge_env \<Rightarrow> string \<Rightarrow> GatewayChallengeConfig \<Rightarrow> botChallenge" where
  "NewGatewayChallenge env processSecret cfg =
     (newBotChallenge env (gateway_bot_config cfg) (if gcc_Secret cfg = [] then processSecret else gcc_Secret cfg))
       \<lparr>bc_cookie := gatewayChallengeCookie, bc_verifyPath := GatewayChallengePath\<rparr>"

definition IsVerify :: "inbound \<Rightarrow> bool" where
  "IsVerify r \<longleftrightarrow> ib_Method r = ''POST'' \<and> ib_Path r = GatewayChallengePath"

definition StripProof :: "botChallenge \<Rightarrow> inbound \<Rightarrow> inbound" where
  "StripProof c r = (if contains_str (ib_Get r ''Cookie'') (bc_cookie c) then stripCookie (bc_cookie c) r else r)"

definition Applies :: "botChallenge \<Rightarrow> inbound \<Rightarrow> Route option \<Rightarrow> bool" where
  "Applies c r route =
     (if ib_Method r \<noteq> ''GET'' \<and> ib_Method r \<noteq> ''HEAD'' then False
      else if ib_Get r ''Upgrade'' \<noteq> [] then False
      else (let p = ib_Path r
            in if HasPrefix p ''/.well-known/'' \<or> p = GatewayChallengePath \<or> isExempt c p then False
               else if (case route of
                          None \<Rightarrow> False
                        | Some rt \<Rightarrow>
                            (case rt_Bot rt of
                               None \<Rightarrow> False
                             | Some b \<Rightarrow> bot_Enabled b \<and>
                                 (bot_JSChallenge b \<or> EqualFold (TrimSpace (bot_Mode b)) ''challenge''
                                  \<or> list_ex (\<lambda>e. e \<noteq> [] \<and> HasPrefix p e) (bot_ChallengeExemptPaths b)))) then False
               else contains_str (ib_Get r ''Accept'') ''text/html'' \<or> ib_Get r ''Sec-Fetch-Mode'' = ''navigate''))"

end
