(* ===== verification/Gateway_Dispatch.thy ===== *)
theory Gateway_Dispatch
  imports Bot_Challenge Address_Stores Resolve Location Router_Properties
begin

text \<open>
  The way of a request through the gateway, from the connection to the handler of its route
  (\<open>internal/edge/dispatch.go\<close>, \<open>dispatch_stages.go\<close>, \<open>internal/edge/middleware/detector_exec.go\<close>): the checks before
  routing, the choice of the route and its location, the chain of stages a route's handler is wrapped in, and the cache of
  handlers. The detection engine is seen through the answers it gives (\<open>threat_answers\<close>); metrics, traces, the access log
  and what the gateway learns from the response are left out.
\<close>

section \<open>The stages of a route\<close>

text \<open>
  A stage is named as in the code. \<open>layer\<close> is one wrapper of the handler of a route; the last of a list is the handler
  itself.
\<close>

datatype layer =
    Stage string
  | DiskCache string
  | GrpcTranscode
  | StaticFiles
  | ProxyBackends

text \<open>A wrapper that does nothing is still there, except for the detectors, which are left out when the route has none.\<close>

definition fixed_stages :: "(string \<times> int) list" where
  "fixed_stages =
     [(''maintenance'', 100), (''signed_url'', 200), (''bandwidth'', 300), (''compress'', 400), (''transform'', 500),
      (''request_vars'', 900), (''backpressure'', 1000), (''limit_conn'', 1100), (''rate_limit'', 1200),
      (''security_headers'', 1600), (''cors'', 1700), (''mtls'', 1800), (''jwt'', 1900), (''sso'', 2000),
      (''openapi'', 2100), (''request_schema'', 2200), (''graphql'', 2300)]"

definition detector_build :: "Route \<Rightarrow> string \<Rightarrow> bool" where
  "detector_build route typ =
     (if typ = ''waf'' then (case rt_WAF route of None \<Rightarrow> False | Some w \<Rightarrow> waf_Enabled w)
      else if typ = ''bot'' then (case rt_Bot route of None \<Rightarrow> False | Some b \<Rightarrow> bot_Enabled b)
      else if typ = ''ip_filter'' then (case rt_IPFilter route of None \<Rightarrow> False | Some f \<Rightarrow> ipf_CIDRs f \<noteq> [])
      else if typ = ''geo_ip'' then rt_GeoIP route \<noteq> None
      else False)"

definition detectorExecs :: "(string \<times> int) list" where
  "detectorExecs = [(''waf'', 700), (''bot'', 800), (''ip_filter'', 1300), (''geo_ip'', 1500)]"

text \<open>\<open>registry\<close> is the order in which Go iterates over the registry, some permutation of \<open>detectorExecs\<close>.\<close>

definition DetectorStages :: "(string \<times> int) list \<Rightarrow> Route \<Rightarrow> (string \<times> int) list" where
  "DetectorStages registry route = sort_key snd (filter (\<lambda>(typ, rank). detector_build route typ) registry)"

definition dispatchStages :: "(string \<times> int) list \<Rightarrow> Route \<Rightarrow> (string \<times> int) list" where
  "dispatchStages registry route =
     sort_key snd
       (fixed_stages
        @ (if rt_RequestID route = Some False then [(''request_id'', 600)] else [])
        @ (if rt_Plugins route \<noteq> [] then [(''plugins'', 1400)] else [])
        @ DetectorStages registry route)"

definition routeCacheDir :: "Route \<Rightarrow> string" where
  "routeCacheDir route =
     (case rt_Cache route of
        Some c \<Rightarrow> if cache_Dir c \<noteq> [] then cache_Dir c
                   else if rt_CachePath route \<noteq> [] then rt_CachePath route else ''/tmp/goproxify-cache/'' @ rt_ID route
      | None \<Rightarrow> if rt_CachePath route \<noteq> [] then rt_CachePath route else ''/tmp/goproxify-cache/'' @ rt_ID route)"

text \<open>The handler \<open>handlerForRoute\<close> builds, outermost wrapper first.\<close>

definition build_layers :: "(string \<times> int) list \<Rightarrow> Route \<Rightarrow> layer list" where
  "build_layers registry route =
     map (Stage \<circ> fst) (dispatchStages registry route)
     @ (case rt_Cache route of
          Some c \<Rightarrow> if cache_Enabled c then [DiskCache (routeCacheDir route)]
                     else if rt_CachePath route \<noteq> [] then [DiskCache (rt_CachePath route)] else []
        | None \<Rightarrow> if rt_CachePath route \<noteq> [] then [DiskCache (rt_CachePath route)] else [])
     @ (case rt_Static route of
          Some s \<Rightarrow> if st_Enabled s then [StaticFiles] else [GrpcTranscode, ProxyBackends]
        | None \<Rightarrow> [GrpcTranscode, ProxyBackends])"

record handler =
  hd_Route :: Route
  hd_Layers :: "layer list"

text \<open>
  \<open>wrapStages\<close> and the wrapping of the code: \<open>meaning\<close> says what a layer does with a request, given the rest of the
  chain; what stands behind the last layer is never called.
\<close>

definition wrapStages :: "(Route \<Rightarrow> layer \<Rightarrow> ('r \<Rightarrow> 'a) \<Rightarrow> 'r \<Rightarrow> 'a) \<Rightarrow> 'a \<Rightarrow> handler \<Rightarrow> 'r \<Rightarrow> 'a" where
  "wrapStages meaning nothing h = foldr (meaning (hd_Route h)) (hd_Layers h) (\<lambda>_. nothing)"

section \<open>The cache of handlers\<close>

record dispatch_cache =
  dc_gen :: "64 word"
  dc_handlers :: "(string, 64 word \<times> handler) gomap"

definition dispatch_key :: "string \<Rightarrow> string \<Rightarrow> string" where
  "dispatch_key routeID locPath = routeID @ CHR 0x00 # locPath"

definition invalidateDispatchCache :: "dispatch_cache \<Rightarrow> dispatch_cache" where
  "invalidateDispatchCache c = c\<lparr>dc_gen := dc_gen c + 1\<rparr>"

definition invalidateRouteCache :: "string \<Rightarrow> dispatch_cache \<Rightarrow> dispatch_cache" where
  "invalidateRouteCache routeID c =
     c\<lparr>dc_handlers := filter (\<lambda>(k, h). \<not> HasPrefix k (routeID @ [CHR 0x00])) (dc_handlers c)\<rparr>"

text \<open>
  The lookup before the mutex and the one under it give the same when nothing happens in between; the interleaving that
  matters, between reading the route and this function, is that of the steps of \<open>Dispatch_Cache\<close>.
\<close>

definition handlerForRoute :: "(string \<times> int) list \<Rightarrow> Route \<Rightarrow> string \<Rightarrow> dispatch_cache \<Rightarrow> handler \<times> dispatch_cache" where
  "handlerForRoute registry route locPath c =
     (let key = dispatch_key (rt_ID route) locPath; h = \<lparr>hd_Route = route, hd_Layers = build_layers registry route\<rparr>;
          fresh = (h, c\<lparr>dc_handlers := gm_set key (dc_gen c, h) (dc_handlers c)\<rparr>)
      in case gm_get (dc_handlers c) key of
           Some (gen, old) \<Rightarrow> if gen = dc_gen c then (old, c) else fresh
         | None \<Rightarrow> fresh)"

section \<open>Dispatch\<close>

text \<open>
  What the detection engine says: the global limit, the verdict on a request, whether a challenge is due, whether the route is
  hardened for this client (and then whether the shared allowance is not used up), and the same for a protected key.
\<close>

record threat_answers =
  te_CheckGlobal :: bool
  te_Check :: "inbound \<Rightarrow> string \<Rightarrow> bool \<times> string"
  te_ChallengeDue :: "inbound \<Rightarrow> string \<Rightarrow> bool"
  te_Hardening :: "string \<Rightarrow> string \<Rightarrow> bool option"
  te_KeyProtection :: "inbound \<Rightarrow> string \<Rightarrow> string \<Rightarrow> (string \<times> bool) option"

record 're gateway =
  gw_env :: challenge_env
  gw_engine :: "threat_answers option"
  gw_profiles :: IPProfileStore
  gw_bans :: BanStore
  gw_table :: Table
  gw_json :: json_decoders
  gw_snippets :: SnippetStore
  gw_providers :: AuthProviderStore
  gw_challenge :: "botChallenge option"
  gw_asset :: "string \<Rightarrow> string \<Rightarrow> bool"
  gw_lower :: "string \<Rightarrow> string"
  gw_compile :: "string \<Rightarrow> 're option"
  gw_match :: "'re \<Rightarrow> string \<Rightarrow> bool"
  gw_regexes :: "'re cache"
  gw_registry :: "(string \<times> int) list"

datatype answer =
    MethodRefused
  | AssetAnswer nat
  | GlobalLimit
  | ProfileDenied string
  | BanDenied string
  | ThreatDenied string
  | UnknownHost
  | SnippetsUnusable
  | Verified nat "(string \<times> string) option"
  | Challenged passage
  | HardenedShed
  | KeyLimited
  | Handled handler inbound

definition PublicPathPref :: string where
  "PublicPathPref = ''/_goproxify/error-pages/''"

definition serveErrorPageAsset :: "('re, 'm) gateway_scheme \<Rightarrow> inbound \<Rightarrow> answer" where
  "serveErrorPageAsset s r =
     AssetAnswer
       (if ib_Method r \<noteq> ''GET'' \<and> ib_Method r \<noteq> ''HEAD'' then 405
        else (case Cut (drop (length PublicPathPref) (ib_Path r)) CHR ''/'' of
                None \<Rightarrow> 404
              | Some (tpl, file) \<Rightarrow> if tpl = [] \<or> file = [] \<or> \<not> gw_asset s tpl file then 404 else 200))"

definition request_host :: "inbound \<Rightarrow> string" where
  "request_host r = (case SplitHostPort (ib_Host r) of Some (h, p) \<Rightarrow> h | None \<Rightarrow> ib_Host r)"

text \<open>\<open>Inl\<close> is an answer, \<open>Inr\<close> the request that goes on. First the checks that need no route.\<close>

definition admit :: "('re, 'm) gateway_scheme \<Rightarrow> go_time \<Rightarrow> inbound \<Rightarrow> answer + inbound" where
  "admit s now r =
     (let remoteIP = RealIP (ce_trust (gw_env s)) r; clientAddr = ParseClientAddr remoteIP;
          profile = IPProfileStore_CheckBlockedAddr (gw_profiles s) clientAddr;
          ban = BanStore_CheckBlockedAddr now (gw_bans s) clientAddr
      in if (case gw_engine s of None \<Rightarrow> False | Some e \<Rightarrow> \<not> te_CheckGlobal e) then Inl GlobalLimit
         else if fst profile then Inl (ProfileDenied (snd profile))
         else if \<not> IsAllowedAddr (gw_profiles s) clientAddr \<and> fst ban then
           Inl (if HasPrefix (snd ban) ''threat'' then ThreatDenied (snd ban) else BanDenied (snd ban))
         else (case gw_engine s of
                 None \<Rightarrow> Inr r
               | Some e \<Rightarrow>
                   if IsWhitelistedAddr (gw_profiles s) clientAddr then Inr r
                   else (case te_Check e r remoteIP of
                           (blocked, reason) \<Rightarrow> if reason \<noteq> [] \<and> blocked then Inl (ThreatDenied reason) else Inr r)))"

definition resolved_route :: "('re, 'm) gateway_scheme \<Rightarrow> Route \<Rightarrow> Route" where
  "resolved_route s route =
     ResolveAuthProvider (gw_json s) (ResolveSnippets (gw_json s) route (gw_snippets s)) (gw_providers s)"

text \<open>The engine, when there is one and the client is not on the whitelist of the bans.\<close>

definition active_engine :: "('re, 'm) gateway_scheme \<Rightarrow> inbound \<Rightarrow> threat_answers option" where
  "active_engine s r =
     (if IsWhitelistedAddr (gw_profiles s) (ParseClientAddr (RealIP (ce_trust (gw_env s)) r)) then None else gw_engine s)"

text \<open>The challenge of the gateway, which removes its proof from the request.\<close>

definition graduated :: "('re, 'm) gateway_scheme \<Rightarrow> go_time \<Rightarrow> string \<Rightarrow> solution option \<Rightarrow> Route \<Rightarrow> inbound \<Rightarrow> answer + inbound" where
  "graduated s now rnd body route r =
     (case (gw_challenge s, active_engine s r) of
        (Some g, Some e) \<Rightarrow>
          if IsVerify r then (case handleVerify (gw_env s) g now r body of (status, cookie) \<Rightarrow> Inl (Verified status cookie))
          else if Applies g r (Some route) \<and> \<not> hasProof (gw_env s) g now r \<and> te_ChallengeDue e r (RealIP (ce_trust (gw_env s)) r)
          then Inl (Challenged (serve_challenge (gw_env s) g now rnd r))
          else Inr (StripProof g r)
      | _ \<Rightarrow> Inr r)"

text \<open>A hardened route and a protected key: a challenge where a page can be shown, otherwise the shared allowance.\<close>

definition harden :: "('re, 'm) gateway_scheme \<Rightarrow> go_time \<Rightarrow> string \<Rightarrow> Route \<Rightarrow> inbound \<Rightarrow> answer + inbound" where
  "harden s now rnd route r =
     (case Option.bind (active_engine s r) (\<lambda>e. te_Hardening e (rt_Host route) (RealIP (ce_trust (gw_env s)) r)) of
        None \<Rightarrow> Inr r
      | Some allow \<Rightarrow>
          (case gw_challenge s of
             Some g \<Rightarrow>
               if Applies g r (Some route) \<and> \<not> hasProof (gw_env s) g now r
               then Inl (Challenged (serve_challenge (gw_env s) g now rnd r))
               else if \<not> allow then Inl HardenedShed else Inr r
           | None \<Rightarrow> if \<not> allow then Inl HardenedShed else Inr r))"

definition protect_key :: "('re, 'm) gateway_scheme \<Rightarrow> go_time \<Rightarrow> string \<Rightarrow> Route \<Rightarrow> inbound \<Rightarrow> answer + inbound" where
  "protect_key s now rnd route r =
     (case Option.bind (active_engine s r) (\<lambda>e. te_KeyProtection e r (rt_Host route) (RealIP (ce_trust (gw_env s)) r)) of
        None \<Rightarrow> Inr r
      | Some (rule, allow) \<Rightarrow>
          (case gw_challenge s of
             Some g \<Rightarrow>
               if Applies g r (Some route) \<and> \<not> hasProof (gw_env s) g now r
               then Inl (Challenged (serve_challenge (gw_env s) g now rnd r))
               else if \<not> allow then Inl KeyLimited else Inr r
           | None \<Rightarrow> if \<not> allow then Inl KeyLimited else Inr r))"

text \<open>The route and the path of the location that applies, and the handler.\<close>

definition located :: "('re, 'm) gateway_scheme \<Rightarrow> Route \<Rightarrow> string \<Rightarrow> Route \<times> string" where
  "located s route path =
     (case fst (MatchLocation (gw_lower s) (gw_compile s) (gw_match s) (Some route) path (gw_regexes s)) of
        None \<Rightarrow> (route, [])
      | Some l \<Rightarrow> (MergeLocation route l, loc_Path l))"

definition dispatch_route ::
  "('re, 'm) gateway_scheme \<Rightarrow> go_time \<Rightarrow> string \<Rightarrow> solution option \<Rightarrow> Route \<Rightarrow> inbound \<Rightarrow> dispatch_cache \<Rightarrow> answer \<times> dispatch_cache"
where
  "dispatch_route s now rnd body route r c =
     (case graduated s now rnd body route r of
        Inl a \<Rightarrow> (a, c)
      | Inr r1 \<Rightarrow>
          (case harden s now rnd route r1 of
             Inl a \<Rightarrow> (a, c)
           | Inr r2 \<Rightarrow>
               (case protect_key s now rnd route r2 of
                  Inl a \<Rightarrow> (a, c)
                | Inr r3 \<Rightarrow>
                    (case located s route (ib_Path r3) of
                       (merged, locPath) \<Rightarrow>
                         (case handlerForRoute (gw_registry s) merged locPath c of
                            (h, c') \<Rightarrow> (Handled h r3, c'))))))"

definition dispatch ::
  "('re, 'm) gateway_scheme \<Rightarrow> go_time \<Rightarrow> string \<Rightarrow> solution option \<Rightarrow> inbound \<Rightarrow> dispatch_cache \<Rightarrow> answer \<times> dispatch_cache"
where
  "dispatch s now rnd body r c =
     (if HasPrefix (ib_Path r) PublicPathPref then (serveErrorPageAsset s r, c)
      else (case admit s now r of
              Inl a \<Rightarrow> (a, c)
            | Inr r \<Rightarrow>
                (case ByHost (gw_table s) (request_host r) of
                   None \<Rightarrow> (UnknownHost, c)
                 | Some route0 \<Rightarrow>
                     (let route = resolved_route s route0
                      in if rt_SnippetUnresolved route \<noteq> [] then (SnippetsUnusable, c)
                         else dispatch_route s now rnd body route r c))))"

definition rejectTrace :: "(inbound \<Rightarrow> dispatch_cache \<Rightarrow> answer \<times> dispatch_cache) \<Rightarrow> inbound \<Rightarrow> dispatch_cache \<Rightarrow> answer \<times> dispatch_cache" where
  "rejectTrace next r c = (if ib_Method r = ''TRACE'' \<or> ib_Method r = ''TRACK'' then (MethodRefused, c) else next r c)"

definition httpMux ::
  "('re, 'm) gateway_scheme \<Rightarrow> go_time \<Rightarrow> string \<Rightarrow> solution option \<Rightarrow> inbound \<Rightarrow> dispatch_cache \<Rightarrow> answer \<times> dispatch_cache" where
  "httpMux s now rnd body = rejectTrace (dispatch s now rnd body)"

end
