(* ===== verification/Bot_Proofs.thy ===== *)
theory Bot_Proofs
  imports Bot_Challenge
begin

text \<open>
  What the proof cookies and challenges of \<open>Bot_Challenge\<close> are worth, for a MAC without collisions whose output has no dot.
\<close>

section \<open>Numbers and hexadecimal\<close>

lemma format_nat_dec: "format_nat n = dec_digits n"
proof (induction n rule: format_nat.induct)
  case (1 n)
  then show ?case by (simp add: format_nat.simps [of n] dec_digits.simps [of n])
qed

lemma parse_format_nat: "parse_digits (format_nat n) = Some (int n)"
  using dec_digits_facts [of n] by (simp add: parse_digits_def format_nat_dec)

lemma format_nat_plain: "x \<in> set (format_nat n) \<Longrightarrow> digit x"
  using format_nat_digits [of n] by (simp add: list_all_iff)

lemma ParseInt_FormatInt:
  assumes "- (2 ^ 63) \<le> i" "i < 2 ^ 63"
  shows "ParseInt (FormatInt i) = Some i"
proof (cases "i < 0")
  case True
  then show ?thesis using assms by (simp add: FormatInt_def ParseInt_def HasPrefix_def parse_format_nat Let_def)
next
  case False
  obtain x xs where x: "format_nat (nat i) = x # xs"
    using dec_digits_facts [of "nat i"] by (cases "format_nat (nat i)") (auto simp: format_nat_dec)
  then have "digit x" using format_nat_plain [of x "nat i"] by simp
  then have "x \<noteq> CHR ''-''" "x \<noteq> CHR ''+''" by (auto simp: digit_def)
  then show ?thesis using False assms x parse_format_nat [of "nat i"]
    by (simp add: FormatInt_def ParseInt_def HasPrefix_def Let_def)
qed

lemma FormatInt_no_dot: "CHR ''.'' \<notin> set (FormatInt i)"
  using format_nat_plain [of "CHR ''.''"] by (auto simp: FormatInt_def digit_def)

lemma hex_char_code: "k < 16 \<Longrightarrow> of_char (hex_char k) = (if k < 10 then 48 + k else 87 + k :: nat)"
  by (simp add: hex_char_def)

lemma hex_char_no_dot: "k < 16 \<Longrightarrow> hex_char k \<noteq> CHR ''.''"
  using hex_char_code [of k] by (auto split: if_splits)

lemma hex_char_inj: "j < 16 \<Longrightarrow> k < 16 \<Longrightarrow> hex_char j = hex_char k \<Longrightarrow> j = k"
proof -
  assume jk: "j < 16" "k < 16" and "hex_char j = hex_char k"
  then have "(if j < 10 then 48 + j else 87 + j) = (if k < 10 then 48 + k else 87 + k)"
    by (metis hex_char_code)
  then show "j = k" using jk by (simp split: if_splits)
qed

lemma nibbles: "of_char (c :: char) div 16 < (16 :: nat)" "of_char (c :: char) mod 16 < (16 :: nat)"
  using nat_of_char_less_256 [of c] by (simp_all add: less_mult_imp_div_less)

lemma hexEncode_no_dot: "CHR ''.'' \<notin> set (hexEncode s)"
  using hex_char_no_dot [OF nibbles(1)] hex_char_no_dot [OF nibbles(2)]
  by (induction s) (auto simp: hexEncode_def dest: sym)

lemma hexEncode_inj: "hexEncode s = hexEncode t \<Longrightarrow> s = t"
proof (induction s arbitrary: t)
  case Nil
  then show ?case by (cases t) (auto simp: hexEncode_def)
next
  case (Cons c s)
  then obtain d t' where t: "t = d # t'" by (cases t) (auto simp: hexEncode_def)
  have h: "hex_char (of_char c div 16) = hex_char (of_char d div 16)" "hex_char (of_char c mod 16) = hex_char (of_char d mod 16)"
    "hexEncode s = hexEncode t'"
    using Cons.prems by (simp_all add: hexEncode_def t)
  then have "of_char c div 16 = (of_char d div 16 :: nat)" "of_char c mod 16 = (of_char d mod 16 :: nat)"
    using hex_char_inj [OF nibbles(1) nibbles(1)] hex_char_inj [OF nibbles(2) nibbles(2)] by blast+
  then have "(of_char c :: nat) = of_char d" by (metis div_mult_mod_eq)
  then show ?case using Cons.IH [OF h(3)] t by simp
qed

section \<open>Proof cookies\<close>

definition mac_ideal :: "challenge_env \<Rightarrow> botChallenge \<Rightarrow> bool" where
  "mac_ideal env c \<longleftrightarrow> inj (ce_mac env (bc_secret c)) \<and> (\<forall>s. CHR ''.'' \<notin> set (ce_mac env (bc_secret c) s))"

definition in_int64 :: "int \<Rightarrow> bool" where
  "in_int64 i \<longleftrightarrow> - (2 ^ 63) \<le> i \<and> i < 2 ^ 63"

lemma mac_bind:
  "mac_ideal env c \<Longrightarrow> challenge_mac env c [p, q, b] = challenge_mac env c [p, q, b'] \<longleftrightarrow> b = b'"
  by (auto simp: mac_ideal_def challenge_mac_def inj_eq)

lemma Cut_append: "c \<notin> set xs \<Longrightarrow> Cut (xs @ c # ys) c = Some (xs, ys)"
  by (simp add: Cut_def IndexByte_append)

lemma hasProof_passToken:
  assumes "ib_Cookie r (bc_cookie c) = Some (passToken env c t r0)" "mac_ideal env c" "in_int64 (Unix (t + bc_passTTL c))"
  shows "hasProof env c now r \<longleftrightarrow> bot_bind env r = bot_bind env r0 \<and> Unix now \<le> Unix (t + bc_passTTL c)"
  using assms mac_bind [OF assms(2)] 
  by (auto simp: hasProof_def passToken_def Cut_append FormatInt_no_dot ParseInt_FormatInt in_int64_def Let_def)

section \<open>Challenges\<close>

lemma LastIndexByte_append: "c \<notin> set ys \<Longrightarrow> LastIndexByte (xs @ c # ys) c = Some (length xs)"
  using IndexByte_append [of c "rev ys" "rev xs"] by (simp add: LastIndexByte_def)

lemma verify_newChallenge:
  assumes "mac_ideal env c" "in_int64 (Unix (t + challengeLifetime))" "in_int64 (bc_bits c)"
  shows "verifyChallenge env c now r (newChallenge env c t rnd r0) nonce \<longleftrightarrow>
    bot_bind env r = bot_bind env r0 \<and> Unix now \<le> Unix (t + challengeLifetime) \<and> nonce \<noteq> [] \<and> length nonce \<le> 20
    \<and> bc_bits c \<le> leadingZeroBits (ce_sha env (newChallenge env c t rnd r0 @ '':'' @ nonce))"
proof -
  let ?body = "challenge_body c t rnd" and ?m = "challenge_mac env c [''ch'', challenge_body c t rnd, bot_bind env r0]"
  have tok: "newChallenge env c t rnd r0 = ?body @ CHR ''.'' # ?m" by (simp add: newChallenge_def Let_def)
  have m: "CHR ''.'' \<notin> set ?m" using assms(1) by (simp add: mac_ideal_def challenge_mac_def)
  have split: "split_on CHR ''.'' ?body = [FormatInt (Unix (t + challengeLifetime)), hexEncode rnd, FormatInt (bc_bits c)]"
    by (simp add: challenge_body_def split_on_append split_on_single FormatInt_no_dot hexEncode_no_dot)
  show ?thesis
    using assms(2,3) mac_bind [OF assms(1), of "''ch''" ?body "bot_bind env r0" "bot_bind env r"]
    by (auto simp: verifyChallenge_def tok LastIndexByte_append [OF m] split ParseInt_FormatInt in_int64_def Let_def)
qed

text \<open>A challenge is no proof: the part behind its first dot holds further dots, which no MAC has.\<close>

lemma challenge_no_proof:
  assumes "ib_Cookie r (bc_cookie c) = Some (newChallenge env c t rnd r0)" "mac_ideal env c"
  shows "\<not> hasProof env c now r"
proof -
  have "newChallenge env c t rnd r0 = FormatInt (Unix (t + challengeLifetime)) @ CHR ''.'' # (hexEncode rnd @ ''.'' @ FormatInt (bc_bits c)
      @ ''.'' @ challenge_mac env c [''ch'', challenge_body c t rnd, bot_bind env r0])"
    by (simp add: newChallenge_def challenge_body_def Let_def)
  moreover have "(hexEncode rnd @ ''.'' @ FormatInt (bc_bits c) @ ''.'' @ challenge_mac env c [''ch'', challenge_body c t rnd, bot_bind env r0])
      \<noteq> challenge_mac env c [p, q, b]" for p q b
  proof
    assume *: "(hexEncode rnd @ ''.'' @ FormatInt (bc_bits c) @ ''.'' @ challenge_mac env c [''ch'', challenge_body c t rnd, bot_bind env r0])
      = challenge_mac env c [p, q, b]"
    have "CHR ''.'' \<in> set (challenge_mac env c [p, q, b])" unfolding * [symmetric] by simp
    then show False using assms(2) by (simp add: mac_ideal_def challenge_mac_def)
  qed
  ultimately show ?thesis
    by (simp add: hasProof_def assms(1) Cut_append FormatInt_no_dot split: option.split)
qed

section \<open>Properties\<close>

definition demo_challenge_env :: challenge_env where
  "demo_challenge_env =
     \<lparr>ce_mac = (\<lambda>_. hexEncode), ce_sha = (\<lambda>s. CHR 0x00 # CHR 0x00 # s), ce_trust = \<lparr>ts_all = False, ts_nets = []\<rparr>,
      ce_duration = (\<lambda>_. None), ce_captcha = (\<lambda>_ _ _ _. False)\<rparr>"

definition demo_bot_config :: BotConfig where
  "demo_bot_config =
     \<lparr>bot_Enabled = True, bot_Mode = ''challenge'', bot_UABlacklist = [], bot_JSChallenge = True, bot_ChallengeSecret = ''k'',
      bot_ChallengeProvider = [], bot_ChallengeDifficulty = 0, bot_ChallengeTTL = [],
      bot_ChallengeSiteKey = [], bot_ChallengeProviderSecret = [], bot_ChallengeExemptPaths = []\<rparr>"

abbreviation demo_challenge :: botChallenge where
  "demo_challenge \<equiv> newBotChallenge demo_challenge_env demo_bot_config ''k''"

definition demo_visit :: "string \<Rightarrow> string \<Rightarrow> (string, string list) gomap \<Rightarrow> inbound" where
  "demo_visit method path h = \<lparr>ib_Method = method, ib_Host = ''a.io'', ib_Path = path, ib_RemoteAddr = ''192.0.2.7'', ib_Header = h\<rparr>"

lemma demo_mac_ideal: "mac_ideal demo_challenge_env c"
  using hexEncode_inj hexEncode_no_dot by (auto simp: mac_ideal_def demo_challenge_env_def inj_def)

lemma demo_challenge_fields:
  "bc_passTTL demo_challenge = defaultChallengeTTL" "bc_bits demo_challenge = 16" "bc_cookie demo_challenge = botCookie"
  "bc_provider demo_challenge = ''pow''" "bc_secret demo_challenge = ''k''" "bc_exempt demo_challenge = []"
  by (simp_all add: newBotChallenge_def demo_challenge_env_def demo_bot_config_def defaultChallengeBits_def TrimSpace_def ToLower_def Let_def)

lemma demo_RealIP: "RealIP (ce_trust demo_challenge_env) (demo_visit m p h) = ''192.0.2.7''"
  by (simp add: RealIP_def demo_challenge_env_def isTrustedPeer_def demo_visit_def peer_of_def SplitHostPort_def LastIndexByte_def Let_def
      split: option.split)

lemma demo_bind: "bot_bind demo_challenge_env (demo_visit m p h) = hexEncode (take 8 (CHR 0x00 # CHR 0x00 # ''192.0.2.7|'' @ first_value h ''User-Agent''))"
  by (simp add: bot_bind_def demo_RealIP) (simp add: demo_challenge_env_def ib_Get_def demo_visit_def)

lemma leadingZeroBits_nonneg: "0 \<le> leadingZeroBits s"
  by (induction s) (simp_all add: Let_def)

lemma demo_work: "16 \<le> leadingZeroBits (ce_sha demo_challenge_env s)"
  using leadingZeroBits_nonneg [of s] by (simp add: demo_challenge_env_def)

lemma demo_times: "in_int64 (Unix (10000000000 + challengeLifetime))" "in_int64 (Unix (20000000000 + defaultChallengeTTL))" "in_int64 (16 :: int)"
  "Unix (20000000000) \<le> Unix (10000000000 + challengeLifetime)" "Unix (30000000000) \<le> Unix (20000000000 + defaultChallengeTTL)"
  by (simp_all add: in_int64_def Unix_def challengeLifetime_def defaultChallengeTTL_def)



text \<open>
  A challenge is accepted back exactly from the client it was given to, within five minutes, with a nonce of one to
  twenty bytes that gives the hash of the challenge as many leading zero bits as the route asks for.
\<close>

theorem challenge_exact:
  assumes "mac_ideal env c" "in_int64 (Unix (t + challengeLifetime))" "in_int64 (bc_bits c)"
  shows "verifyChallenge env c now r (newChallenge env c t rnd r0) nonce \<longleftrightarrow>
    bot_bind env r = bot_bind env r0 \<and> Unix now \<le> Unix (t + challengeLifetime) \<and> nonce \<noteq> [] \<and> length nonce \<le> 20
    \<and> bc_bits c \<le> leadingZeroBits (ce_sha env (newChallenge env c t rnd r0 @ '':'' @ nonce))"
  by (rule verify_newChallenge [OF assms])

theorem challenge_exact_witness:
  "verifyChallenge demo_challenge_env demo_challenge (20000000000) (demo_visit ''POST'' botChallengePath [])
     (newChallenge demo_challenge_env demo_challenge (10000000000) [] (demo_visit ''GET'' ''/'' [])) ''1''"
  by (subst challenge_exact [OF demo_mac_ideal demo_times(1)])
    (simp_all add: demo_challenge_fields demo_times demo_bind demo_work del: One_nat_def)

lemma valid_token:
  "list_all validCookieValueByte (FormatInt i)" "list_all validCookieValueByte (hexEncode s)"
proof -
  have "validCookieValueByte x" if "digit x" for x using that by (auto simp: validCookieValueByte_def digit_def)
  then show "list_all validCookieValueByte (FormatInt i)"
    using format_nat_plain by (auto simp: FormatInt_def list_all_iff validCookieValueByte_def)
  have "validCookieValueByte (hex_char k)" if "k < 16" for k
    using hex_char_code [OF that] that by (auto simp: validCookieValueByte_def split: if_splits)
  then have "validCookieValueByte (hex_char (of_char c div 16)) \<and> validCookieValueByte (hex_char (of_char c mod 16))" for c
    using nibbles by blast
  then show "list_all validCookieValueByte (hexEncode s)" by (induction s) (auto simp: hexEncode_def)
qed

lemma AddCookie_first:
  assumes "cookie_ok ck" "gm_get (ib_Header r) ''Cookie'' = None" "ck_Name ck \<noteq> []"
  shows "ib_Cookie (AddCookie ck r) (ck_Name ck) = Some (ck_Value ck)"
proof -
  have "map pair_of (ib_Cookies (AddCookie ck r)) = [pair_of ck]"
    using read_rendered [of "[ck]"] assms by (simp add: ib_Cookies_def AddCookie_def ib_Get_def first_value_def Let_def)
  then obtain d where "ib_Cookies (AddCookie ck r) = [d]" "pair_of d = pair_of ck" by (auto simp: map_eq_Cons_conv)
  then show ?thesis using assms(3) by (simp add: ib_Cookie_def)
qed

lemma demo_cookie:
  "ib_Cookie (AddCookie \<lparr>ck_Name = botCookie, ck_Value = passToken demo_challenge_env c t r1, ck_Quoted = False\<rparr> (demo_visit m p [])) botCookie
   = Some (passToken demo_challenge_env c t r1)"
proof -
  have "list_all validCookieValueByte (passToken demo_challenge_env c t r1)"
    using valid_token by (simp add: passToken_def challenge_mac_def demo_challenge_env_def validCookieValueByte_def Let_def)
  moreover have "isToken botCookie" by (simp add: isToken_def botCookie_def is_tchar_def)
  ultimately show ?thesis
    using AddCookie_first [of "\<lparr>ck_Name = botCookie, ck_Value = passToken demo_challenge_env c t r1, ck_Quoted = False\<rparr>" "demo_visit m p []"]
    by (simp add: cookie_ok_def demo_visit_def isToken_def)
qed

lemma demo_add: "AddCookie ck (demo_visit m p []) = demo_visit m p [(''Cookie'', [render_cookie ck])]"
  by (simp add: AddCookie_def demo_visit_def ib_Get_def first_value_def Let_def)

lemma demo_agent:
  "ib_Get (demo_visit m p []) ''User-Agent'' = []" "ib_Get (demo_visit m p [(''Cookie'', vs)]) ''User-Agent'' = []"
  "\<not> matchesUABlacklist [] defaultBotUABlacklist"
  "ib_Method (demo_visit m p h) = m" "ib_Path (demo_visit m p h) = p"
  by (simp_all add: demo_visit_def ib_Get_def first_value_def matchesUABlacklist_def defaultBotUABlacklist_def contains_str_def ToLower_def)



end
