(* ===== verification/Dispatch_Cache.thy ===== *)
theory Dispatch_Cache
  imports Gateway_Dispatch Bot_Proofs
begin

text \<open>
  When the cache of handlers may be trusted: the handlers it serves are those of the current configuration, over any
  sequence of requests and changes, if no two locations of a route have the same path and no change falls between the two
  moments at which a request reads its route and its handler. Both conditions can fail in the program.
\<close>

section \<open>Locations\<close>

lemma match_scan_mem:
  "match_scan lower path ls best = Inl l \<Longrightarrow> l \<in> set ls \<and> loc_Path l \<noteq> []"
  "match_scan lower path ls best = Inr (Some l) \<Longrightarrow> fst best = Some l \<or> l \<in> set ls \<and> loc_Path l \<noteq> []"
  by (induction lower path ls best rule: match_scan.induct) (auto split: if_splits)

lemma regex_scan_mem:
  "fst (regex_scan compile matchString path ls c) = Some l \<Longrightarrow> l \<in> set ls \<and> loc_Path l \<noteq> []"
  by (induction compile matchString path ls c rule: regex_scan.induct) (auto split: if_splits prod.splits)

lemma MatchLocation_mem:
  "fst (MatchLocation lower compile matchString (Some r) path c) = Some l \<Longrightarrow> l \<in> set (rt_Locations r) \<and> loc_Path l \<noteq> []"
  by (auto simp: MatchLocation_def split: if_splits sum.splits option.splits dest: match_scan_mem regex_scan_mem)

text \<open>A location of a route, by its path.\<close>

definition at_location :: "Route \<Rightarrow> string \<Rightarrow> Route" where
  "at_location route p =
     (if p = [] then route
      else case find (\<lambda>l. loc_Path l = p) (rt_Locations route) of None \<Rightarrow> route | Some l \<Rightarrow> MergeLocation route l)"

lemma find_distinct:
  "distinct (map f xs) \<Longrightarrow> x \<in> set xs \<Longrightarrow> find (\<lambda>y. f y = f x) xs = Some x"
  by (induction xs) auto

lemma located_at:
  assumes "distinct (map loc_Path (rt_Locations route))"
  shows "fst (located s route path) = at_location route (snd (located s route path))"
  using assms MatchLocation_mem [of "gw_lower s" "gw_compile s" "gw_match s" route path "gw_regexes s"]
  by (auto simp: located_def at_location_def find_distinct split: option.split)

lemma located_ID [simp]: "rt_ID (fst (located s route path)) = rt_ID route"
  by (simp add: located_def MergeLocation_def Let_def split: option.split)

section \<open>Resolution\<close>

lemma apply_snippet_ID: "rt_ID (apply_snippet J sn r) = rt_ID r" "rt_Locations (apply_snippet J sn r) = rt_Locations r"
  by (simp_all add: apply_snippet_def Let_def split: option.split)

lemma fold_resolve_ID:
  "rt_ID (fst (fold (resolve_id J store) is st)) = rt_ID (fst st)"
  "rt_Locations (fst (fold (resolve_id J store) is st)) = rt_Locations (fst st)"
  by (induction "is" arbitrary: st) (simp_all add: resolve_id_def apply_snippet_ID split: option.split)

lemma ResolveSnippets_ID:
  "rt_ID (ResolveSnippets J r store) = rt_ID r" "rt_Locations (ResolveSnippets J r store) = rt_Locations r"
  using fold_resolve_ID [of J store "rt_SnippetIDs r" "(r, [])"]
  by (simp_all add: ResolveSnippets_def split_beta)

lemma resolved_ID [simp]: "rt_ID (resolved_route s r) = rt_ID r" "rt_Locations (resolved_route s r) = rt_Locations r"
  by (simp_all add: resolved_route_def ResolveAuthProvider_def ResolveSnippets_ID split: option.split)

section \<open>Keys of the cache\<close>

lemma dispatch_key_inj:
  "CHR 0x00 \<notin> set i \<Longrightarrow> CHR 0x00 \<notin> set j \<Longrightarrow> dispatch_key i p = dispatch_key j q \<longleftrightarrow> i = j \<and> p = q"
proof -
  assume ij: "CHR 0x00 \<notin> set i" "CHR 0x00 \<notin> set j"
  have "length i = length j" if "dispatch_key i p = dispatch_key j q"
    using that IndexByte_append [OF ij(1), of p] IndexByte_append [OF ij(2), of q] by (simp add: dispatch_key_def)
  then show ?thesis by (auto simp: dispatch_key_def)
qed

lemma key_prefix:
  "CHR 0x00 \<notin> set i \<Longrightarrow> CHR 0x00 \<notin> set j \<Longrightarrow> HasPrefix (dispatch_key i p) (j @ [CHR 0x00]) \<longleftrightarrow> i = j"
proof -
  assume ij: "CHR 0x00 \<notin> set i" "CHR 0x00 \<notin> set j"
  have "i = j" if pre: "HasPrefix (dispatch_key i p) (j @ [CHR 0x00])"
  proof -
    have "dispatch_key i p = (j @ [CHR 0x00]) @ drop (length (j @ [CHR 0x00])) (dispatch_key i p)"
      using pre unfolding HasPrefix_def by (metis append_take_drop_id)
    then have "dispatch_key i p = dispatch_key j (drop (length (j @ [CHR 0x00])) (dispatch_key i p))"
      by (simp add: dispatch_key_def)
    then show ?thesis using dispatch_key_inj [OF ij] by blast
  qed
  then show ?thesis by (auto simp: HasPrefix_def dispatch_key_def)
qed

section \<open>When the cache may be trusted\<close>

definition handler_of :: "('re, 'm) gateway_scheme \<Rightarrow> Route \<Rightarrow> handler" where
  "handler_of s route = \<lparr>hd_Route = route, hd_Layers = build_layers (gw_registry s) route\<rparr>"

text \<open>A configuration in which identifiers hold no NUL byte and no route has two locations of the same path.\<close>

definition gateway_ok :: "('re, 'm) gateway_scheme \<Rightarrow> bool" where
  "gateway_ok s \<longleftrightarrow>
     table_ok (table_d (gw_table s))
     \<and> (\<forall>r. live (table_d (gw_table s)) r \<longrightarrow> CHR 0x00 \<notin> set (rt_ID r) \<and> distinct (map loc_Path (rt_Locations r)))"

definition cache_current :: "('re, 'm) gateway_scheme \<Rightarrow> dispatch_cache \<Rightarrow> bool" where
  "cache_current s c \<longleftrightarrow>
     (\<forall>i p h. CHR 0x00 \<notin> set i \<longrightarrow> gm_get (dc_handlers c) (dispatch_key i p) = Some (dc_gen c, h) \<longrightarrow>
        (\<exists>r. live (table_d (gw_table s)) r \<and> rt_ID r = i \<and> h = handler_of s (at_location (resolved_route s r) p)))"

lemma cache_currentD:
  assumes "cache_current s c" "CHR 0x00 \<notin> set i" "gm_get (dc_handlers c) (dispatch_key i p) = Some (dc_gen c, h)"
  obtains r where "live (table_d (gw_table s)) r" "rt_ID r = i" "h = handler_of s (at_location (resolved_route s r) p)"
  using assms(1) [unfolded cache_current_def, rule_format, OF assms(2,3)] by blast

lemma ByHost_live:
  assumes "table_ok (table_d t)" "ByHost t host = Some r"
  shows "live (table_d t) r"
proof -
  have "gm_get (td_byHost (table_d t)) k = Some r \<Longrightarrow> live (table_d t) r" for k
    using assms(1) by (auto simp: table_ok_def host_ok_def dest!: spec [of _ k])
  then show ?thesis using assms(2) by (auto simp: ByHost_def Let_def split: option.splits)
qed

lemma handlerForRoute_current:
  assumes "gateway_ok s" "cache_current s c" "live (table_d (gw_table s)) r0" "route = resolved_route s r0"
  shows "fst (handlerForRoute (gw_registry s) (fst (located s route path)) (snd (located s route path)) c) = handler_of s (fst (located s route path))"
    "cache_current s (snd (handlerForRoute (gw_registry s) (fst (located s route path)) (snd (located s route path)) c))"
    "dc_gen (snd (handlerForRoute (gw_registry s) (fst (located s route path)) (snd (located s route path)) c)) = dc_gen c"
proof -
  let ?m = "fst (located s route path)" and ?p = "snd (located s route path)"
  let ?key = "dispatch_key (rt_ID r0) ?p"
  have r0: "CHR 0x00 \<notin> set (rt_ID r0)" "distinct (map loc_Path (rt_Locations route))"
    using assms(1,3,4) by (auto simp: gateway_ok_def)
  note at = located_at [OF r0(2), of s path]
  have old: "h = handler_of s ?m" if hit: "gm_get (dc_handlers c) ?key = Some (dc_gen c, h)" for h
  proof -
    obtain r where "live (table_d (gw_table s)) r" "rt_ID r = rt_ID r0" "h = handler_of s (at_location (resolved_route s r) ?p)"
      by (rule cache_currentD [OF assms(2) r0(1) hit])
    then show ?thesis using live_same_id [OF _ assms(3), of r] at assms(4) by simp
  qed
  have ID: "rt_ID route = rt_ID r0" by (simp add: assms(4))
  have new: "cache_current s (c\<lparr>dc_handlers := gm_set ?key (dc_gen c, handler_of s ?m) (dc_handlers c)\<rparr>)"
    unfolding cache_current_def
  proof (intro allI impI)
    fix i p h
    assume i: "CHR 0x00 \<notin> set i"
      and "gm_get (dc_handlers (c\<lparr>dc_handlers := gm_set ?key (dc_gen c, handler_of s ?m) (dc_handlers c)\<rparr>)) (dispatch_key i p)
        = Some (dc_gen (c\<lparr>dc_handlers := gm_set ?key (dc_gen c, handler_of s ?m) (dc_handlers c)\<rparr>), h)"
    then have "(if dispatch_key i p = ?key then Some (dc_gen c, handler_of s ?m) else gm_get (dc_handlers c) (dispatch_key i p))
        = Some (dc_gen c, h)"
      by (simp split del: if_split)
    then consider "i = rt_ID r0" "p = ?p" "h = handler_of s ?m" | "gm_get (dc_handlers c) (dispatch_key i p) = Some (dc_gen c, h)"
      using dispatch_key_inj [OF i r0(1), of p ?p] by (cases "i = rt_ID r0 \<and> p = ?p") simp_all
    then show "\<exists>r. live (table_d (gw_table s)) r \<and> rt_ID r = i \<and> h = handler_of s (at_location (resolved_route s r) p)"
    proof cases
      case 1
      then have "h = handler_of s (at_location (resolved_route s r0) p)" using at assms(4) by simp
      then show ?thesis using assms(3) 1(1) by blast
    next
      case 2
      then show ?thesis by (rule cache_currentD [OF assms(2) i]) auto
    qed
  qed
  let ?c = "c\<lparr>dc_handlers := gm_set ?key (dc_gen c, handler_of s ?m) (dc_handlers c)\<rparr>"
  have "handlerForRoute (gw_registry s) ?m ?p c = (handler_of s ?m, c) \<or> handlerForRoute (gw_registry s) ?m ?p c = (handler_of s ?m, ?c)"
  proof (cases "gm_get (dc_handlers c) ?key")
    case None
    then show ?thesis by (simp add: handlerForRoute_def ID handler_of_def Let_def)
  next
    case (Some gh)
    then show ?thesis
      using old [of "snd gh"] by (cases gh; cases "fst gh = dc_gen c") (simp_all add: handlerForRoute_def ID handler_of_def Let_def)
  qed
  then show "fst (handlerForRoute (gw_registry s) ?m ?p c) = handler_of s ?m" "cache_current s (snd (handlerForRoute (gw_registry s) ?m ?p c))"
    "dc_gen (snd (handlerForRoute (gw_registry s) ?m ?p c)) = dc_gen c"
    using new assms(2) by (elim disjE; simp)+
qed

section \<open>Dispatch step by step\<close>

lemma StripProof_rest [simp]:
  "ib_Method (StripProof g r) = ib_Method r" "ib_Path (StripProof g r) = ib_Path r" "ib_Host (StripProof g r) = ib_Host r"
  "ib_RemoteAddr (StripProof g r) = ib_RemoteAddr r"
  "k \<noteq> ''Cookie'' \<Longrightarrow> ib_Get (StripProof g r) k = ib_Get r k"
  by (simp_all add: StripProof_def stripCookie_rest ib_Get_def first_value_def)

lemma harden_Inr: "harden s now rnd route r = Inr r' \<Longrightarrow> r' = r"
  by (auto simp: harden_def split: option.splits if_splits)

lemma protect_key_Inr: "protect_key s now rnd route r = Inr r' \<Longrightarrow> r' = r"
  by (auto simp: protect_key_def split: option.splits if_splits)

lemma admit_Inr: "admit s now r = Inr r' \<Longrightarrow> r' = r"
  by (auto simp: admit_def Let_def split: option.splits if_splits prod.splits)

lemma graduated_Inr: "graduated s now rnd body route r = Inr r' \<Longrightarrow> r' = r \<or> (\<exists>g. gw_challenge s = Some g \<and> r' = StripProof g r)"
  by (auto simp: graduated_def split: option.splits if_splits prod.splits)

lemma dispatch_route_cases:
  "(\<exists>r1. graduated s now rnd body route r = Inr r1 \<and> harden s now rnd route r1 = Inr r1 \<and> protect_key s now rnd route r1 = Inr r1
      \<and> dispatch_route s now rnd body route r c =
          (Handled (fst (handlerForRoute (gw_registry s) (fst (located s route (ib_Path r))) (snd (located s route (ib_Path r))) c)) r1,
           snd (handlerForRoute (gw_registry s) (fst (located s route (ib_Path r))) (snd (located s route (ib_Path r))) c)))
   \<or> (\<exists>a. dispatch_route s now rnd body route r c = (a, c) \<and> (\<forall>h r'. a \<noteq> Handled h r'))"
proof (cases "graduated s now rnd body route r")
  case (Inl a)
  then have "\<forall>h r'. a \<noteq> Handled h r'" by (auto simp: graduated_def split: option.splits if_splits prod.splits)
  then show ?thesis using Inl by (simp add: dispatch_route_def)
next
  case g: (Inr r1)
  then have path: "ib_Path r1 = ib_Path r" using graduated_Inr [OF g] by auto
  show ?thesis
  proof (cases "harden s now rnd route r1")
    case (Inl a)
    then have "\<forall>h r'. a \<noteq> Handled h r'" by (auto simp: harden_def split: option.splits if_splits)
    then show ?thesis using g Inl by (simp add: dispatch_route_def)
  next
    case h: (Inr r2)
    then have r2: "r2 = r1" by (rule harden_Inr)
    show ?thesis
    proof (cases "protect_key s now rnd route r1")
      case (Inl a)
      then have "\<forall>h r'. a \<noteq> Handled h r'" by (auto simp: protect_key_def split: option.splits if_splits)
      then show ?thesis using g h r2 Inl by (simp add: dispatch_route_def)
    next
      case (Inr r3)
      then have "r3 = r1" by (rule protect_key_Inr)
      then show ?thesis using g h r2 Inr path by (simp add: dispatch_route_def split_beta)
    qed
  qed
qed

lemma dispatch_cases:
  "(\<exists>r0 r1 route hc. route = resolved_route s r0 \<and> \<not> HasPrefix (ib_Path r) PublicPathPref \<and> admit s now r = Inr r
      \<and> ByHost (gw_table s) (request_host r) = Some r0 \<and> rt_SnippetUnresolved route = []
      \<and> graduated s now rnd body route r = Inr r1 \<and> harden s now rnd route r1 = Inr r1 \<and> protect_key s now rnd route r1 = Inr r1
      \<and> hc = handlerForRoute (gw_registry s) (fst (located s route (ib_Path r))) (snd (located s route (ib_Path r))) c
      \<and> dispatch s now rnd body r c = (Handled (fst hc) r1, snd hc))
   \<or> (\<exists>a. dispatch s now rnd body r c = (a, c) \<and> (\<forall>h r'. a \<noteq> Handled h r'))"
proof (cases "HasPrefix (ib_Path r) PublicPathPref")
  case True
  then show ?thesis by (simp add: dispatch_def serveErrorPageAsset_def)
next
  case path: False
  show ?thesis
  proof (cases "admit s now r")
    case (Inl a)
    then have "\<forall>h r'. a \<noteq> Handled h r'" by (auto simp: admit_def Let_def split: option.splits if_splits prod.splits)
    then show ?thesis using path Inl by (simp add: dispatch_def)
  next
    case (Inr r')
    then have r': "admit s now r = Inr r" using admit_Inr [OF Inr] by simp
    show ?thesis
    proof (cases "ByHost (gw_table s) (request_host r)")
      case None
      then show ?thesis using path r' by (simp add: dispatch_def)
    next
      case (Some r0)
      show ?thesis
      proof (cases "rt_SnippetUnresolved (resolved_route s r0) = []")
        case True
        then have "dispatch s now rnd body r c = dispatch_route s now rnd body (resolved_route s r0) r c"
          using path r' Some by (simp add: dispatch_def Let_def)
        then show ?thesis using dispatch_route_cases [of s now rnd body "resolved_route s r0" r c] path r' Some True by metis
      next
        case False
        then show ?thesis using path r' Some by (simp add: dispatch_def Let_def)
      qed
    qed
  qed
qed

section \<open>Sequences of requests and changes\<close>

text \<open>
  A run of a gateway: requests, changes of one route (\<open>ApplyFileProxy\<close>: the table, then \<open>invalidateRouteCache\<close>) and any other
  change of the configuration (\<open>saveCache\<close>, which begins with \<open>invalidateDispatchCache\<close>). The number counts the latter.
\<close>

inductive gateway_run :: "'re gateway \<Rightarrow> dispatch_cache \<Rightarrow> nat \<Rightarrow> bool" where
  start: "gateway_ok s \<Longrightarrow> gateway_run s \<lparr>dc_gen = 0, dc_handlers = []\<rparr> 0"
| publish: "gateway_run s c n \<Longrightarrow> gateway_ok s' \<Longrightarrow> Suc n < 2 ^ 64 \<Longrightarrow> gateway_run s' (invalidateDispatchCache c) (Suc n)"
| upsert: "gateway_run s c n \<Longrightarrow> CHR 0x00 \<notin> set (rt_ID r) \<Longrightarrow> distinct (map loc_Path (rt_Locations r)) \<Longrightarrow>
    gateway_run (s\<lparr>gw_table := Upsert r (gw_table s)\<rparr>) (invalidateRouteCache (rt_ID r) c) n"
| delete: "gateway_run s c n \<Longrightarrow> gateway_run (s\<lparr>gw_table := snd (Delete i (gw_table s))\<rparr>) (invalidateRouteCache i c) n"
| request: "gateway_run s c n \<Longrightarrow> gateway_run s (snd (dispatch s now rnd body r c)) n"

definition gens_upto :: "nat \<Rightarrow> dispatch_cache \<Rightarrow> bool" where
  "gens_upto n c \<longleftrightarrow> (\<forall>k g h. gm_get (dc_handlers c) k = Some (g, h) \<longrightarrow> (\<exists>m\<le>n. g = of_nat m))"

lemma filter_key_get: "gm_get (filter (\<lambda>(k, v). P k) m) k = (if P k then gm_get m k else None)"
  by (induction m) auto

lemma invalidateRouteCache_get:
  "gm_get (dc_handlers (invalidateRouteCache i c)) k = (if HasPrefix k (i @ [CHR 0x00]) then None else gm_get (dc_handlers c) k)"
  unfolding invalidateRouteCache_def by (simp add: filter_key_get [of "\<lambda>k. \<not> HasPrefix k (i @ [CHR 0x00])"])

lemma key_own_prefix: "HasPrefix (dispatch_key i p) (i @ [CHR 0x00])"
  by (simp add: HasPrefix_def dispatch_key_def)

text \<open>A change of the route with one identifier leaves a current cache current, once the entries of that route are gone.\<close>

lemma current_after_change:
  assumes "cache_current s c" "\<And>r. rt_ID r \<noteq> i \<Longrightarrow> live (table_d (gw_table s)) r \<Longrightarrow> live (table_d t) r"
  shows "cache_current (s\<lparr>gw_table := t\<rparr>) (invalidateRouteCache i c)"
  unfolding cache_current_def
proof (intro allI impI)
  fix j p h
  assume j: "CHR 0x00 \<notin> set j"
    and get: "gm_get (dc_handlers (invalidateRouteCache i c)) (dispatch_key j p) = Some (dc_gen (invalidateRouteCache i c), h)"
  then have "gm_get (dc_handlers c) (dispatch_key j p) = Some (dc_gen c, h)" and ij: "j \<noteq> i"
    using key_own_prefix [of j p] by (auto simp: invalidateRouteCache_get split: if_splits) (simp_all add: invalidateRouteCache_def)
  from cache_currentD [OF assms(1) j this(1)] obtain r
    where "live (table_d (gw_table s)) r" "rt_ID r = j" "h = handler_of s (at_location (resolved_route s r) p)" .
  then show "\<exists>r. live (table_d (gw_table (s\<lparr>gw_table := t\<rparr>))) r \<and> rt_ID r = j
      \<and> h = handler_of (s\<lparr>gw_table := t\<rparr>) (at_location (resolved_route (s\<lparr>gw_table := t\<rparr>) r) p)"
    using assms(2) ij by (auto simp: handler_of_def resolved_route_def)
qed

lemma live_Upsert: "rt_ID q \<noteq> rt_ID r \<Longrightarrow> live (table_d (Upsert r t)) q \<longleftrightarrow> live (table_d t) q"
  by (simp add: live_def upsertLocked_fields)

lemma live_Upsert_same: "rt_ID q = rt_ID r \<Longrightarrow> live (table_d (Upsert r t)) q \<longleftrightarrow> q = r"
  by (auto simp: live_def upsertLocked_fields)

lemma deleteLocked_routes: "td_routes (deleteLocked r d) = gm_del (rt_ID r) (td_routes d)"
proof -
  have "td_routes (fold (releaseHost i) ks d) = td_routes d" for i ks d by (induction ks arbitrary: d) simp_all
  then show ?thesis by (simp add: deleteLocked_def Let_def)
qed

lemma live_Delete:
  assumes "table_ok (table_d t)"
  shows "live (table_d (snd (Delete i t))) q \<longleftrightarrow> rt_ID q \<noteq> i \<and> live (table_d t) q"
proof (cases "gm_get (td_routes (table_d t)) i")
  case (Some r)
  then have "rt_ID r = i" using assms by (auto simp: table_ok_def ids_ok_iff)
  then show ?thesis using Some by (auto simp: Delete_d live_def deleteLocked_routes)
qed (auto simp: Delete_d live_def)

lemma dispatch_current:
  assumes "gateway_ok s" "cache_current s c"
  shows "cache_current s (snd (dispatch s now rnd body r c))" "dc_gen (snd (dispatch s now rnd body r c)) = dc_gen c"
    "fst (dispatch s now rnd body r c) = Handled h r' \<Longrightarrow>
       \<exists>r0. ByHost (gw_table s) (request_host r) = Some r0 \<and> h = handler_of s (fst (located s (resolved_route s r0) (ib_Path r)))"
proof -
  have served: "fst (handlerForRoute (gw_registry s) (fst (located s (resolved_route s r0) (ib_Path r)))
        (snd (located s (resolved_route s r0) (ib_Path r))) c) = handler_of s (fst (located s (resolved_route s r0) (ib_Path r)))"
    and kept: "cache_current s (snd (handlerForRoute (gw_registry s) (fst (located s (resolved_route s r0) (ib_Path r)))
        (snd (located s (resolved_route s r0) (ib_Path r))) c))"
    and gen: "dc_gen (snd (handlerForRoute (gw_registry s) (fst (located s (resolved_route s r0) (ib_Path r)))
        (snd (located s (resolved_route s r0) (ib_Path r))) c)) = dc_gen c"
    if "ByHost (gw_table s) (request_host r) = Some r0" for r0
    using handlerForRoute_current [OF assms ByHost_live [OF _ that] refl] assms(1) by (simp_all add: gateway_ok_def)
  note cases = dispatch_cases [of s r now rnd body c]
  show "cache_current s (snd (dispatch s now rnd body r c))" using cases kept assms(2) by (elim disjE exE conjE) simp_all
  show "dc_gen (snd (dispatch s now rnd body r c)) = dc_gen c" using cases gen by (elim disjE exE conjE) simp_all
  show "\<exists>r0. ByHost (gw_table s) (request_host r) = Some r0 \<and> h = handler_of s (fst (located s (resolved_route s r0) (ib_Path r)))"
    if "fst (dispatch s now rnd body r c) = Handled h r'"
    using cases served that by (elim disjE exE conjE) auto
qed

lemma handlerForRoute_gens:
  "gens_upto n c \<Longrightarrow> dc_gen c = of_nat n \<Longrightarrow> gens_upto n (snd (handlerForRoute registry route p c))"
  by (auto simp: gens_upto_def handlerForRoute_def Let_def split: option.splits)

lemma dispatch_gens:
  "gens_upto n c \<Longrightarrow> dc_gen c = of_nat n \<Longrightarrow> gens_upto n (snd (dispatch s now rnd body r c))"
  using dispatch_cases [of s r now rnd body c] handlerForRoute_gens by (elim disjE exE conjE) simp_all

lemma gateway_ok_Upsert:
  assumes "gateway_ok s" "CHR 0x00 \<notin> set (rt_ID r)" "distinct (map loc_Path (rt_Locations r))"
  shows "gateway_ok (s\<lparr>gw_table := Upsert r (gw_table s)\<rparr>)"
proof -
  have "CHR 0x00 \<notin> set (rt_ID q) \<and> distinct (map loc_Path (rt_Locations q))" if "live (table_d (Upsert r (gw_table s))) q" for q
    using that assms live_Upsert [of q r "gw_table s"] live_Upsert_same [of q r "gw_table s"]
    by (cases "rt_ID q = rt_ID r") (simp_all add: gateway_ok_def del: Upsert_d)
  then show ?thesis using assms(1) upsertLocked_ok by (simp add: gateway_ok_def)
qed

lemma gateway_run_ok:
  "gateway_run s c n \<Longrightarrow> gateway_ok s \<and> cache_current s c \<and> dc_gen c = of_nat n \<and> n < 2 ^ 64 \<and> gens_upto n c"
proof (induction rule: gateway_run.induct)
  case (start s)
  then show ?case by (simp add: cache_current_def gens_upto_def)
next
  case (publish s c n s')
  have "(of_nat m :: 64 word) \<noteq> of_nat (Suc n)" if "m \<le> n" for m
    using that publish.hyps(3) by (simp add: word_of_nat_eq_iff take_bit_nat_eq_self del: of_nat_Suc)
  then have old: "\<nexists>h. gm_get (dc_handlers c) k = Some (of_nat (Suc n), h)" for k
    using publish.IH unfolding gens_upto_def by metis
  have "cache_current s' (invalidateDispatchCache c)"
    using old publish.IH by (simp add: cache_current_def invalidateDispatchCache_def add.commute)
  moreover have "gens_upto (Suc n) (invalidateDispatchCache c)"
    using publish.IH unfolding gens_upto_def invalidateDispatchCache_def by (simp add: le_Suc_eq) metis
  ultimately
  show ?case using publish by (simp add: invalidateDispatchCache_def add.commute)
next
  case (upsert s c n r)
  have "cache_current (s\<lparr>gw_table := Upsert r (gw_table s)\<rparr>) (invalidateRouteCache (rt_ID r) c)"
    using upsert.IH live_Upsert by (intro current_after_change) auto
  moreover have "gateway_ok (s\<lparr>gw_table := Upsert r (gw_table s)\<rparr>)"
    by (rule gateway_ok_Upsert) (use upsert in auto)
  moreover have "gens_upto n (invalidateRouteCache (rt_ID r) c)"
    using upsert.IH by (simp add: gens_upto_def invalidateRouteCache_get)
  ultimately show ?case using upsert.IH by (simp add: invalidateRouteCache_def)
next
  case (delete s c n i)
  have ok: "table_ok (table_d (gw_table s))" using delete.IH by (simp add: gateway_ok_def)
  have "cache_current (s\<lparr>gw_table := snd (Delete i (gw_table s))\<rparr>) (invalidateRouteCache i c)"
    using delete.IH live_Delete [OF ok] by (intro current_after_change) auto
  moreover have "gateway_ok (s\<lparr>gw_table := snd (Delete i (gw_table s))\<rparr>)"
    using delete.IH live_Delete [OF ok] Delete_ok [OF ok] by (simp add: gateway_ok_def)
  moreover have "gens_upto n (invalidateRouteCache i c)"
    using delete.IH by (simp add: gens_upto_def invalidateRouteCache_get)
  ultimately show ?case using delete.IH by (simp add: invalidateRouteCache_def)
next
  case (request s c n now rnd body r)
  then show ?case using dispatch_current(1,2) [of s c] dispatch_gens [of n c] by simp
qed


section \<open>A gateway with one route\<close>

definition demo_gateway :: "Route \<Rightarrow> unit gateway" where
  "demo_gateway route =
     \<lparr>gw_env = demo_challenge_env, gw_engine = None, gw_profiles = NewIPProfileStore, gw_bans = NewBanStore,
      gw_table = Upsert route zero_table, gw_json = demo_json, gw_snippets = NewSnippetStore, gw_providers = NewAuthProviderStore,
      gw_challenge = None, gw_asset = (\<lambda>_ _. False), gw_lower = ToLower, gw_compile = (\<lambda>_. None), gw_match = (\<lambda>_ _. False),
      gw_regexes = [], gw_registry = detectorExecs\<rparr>"

abbreviation no_handlers :: dispatch_cache where
  "no_handlers \<equiv> \<lparr>dc_gen = 0, dc_handlers = []\<rparr>"

definition admin_route :: "Location list \<Rightarrow> Route" where
  "admin_route ls = zero_route\<lparr>rt_ID := ''r'', rt_Host := ''a.io'', rt_Locations := ls\<rparr>"

definition guarded_admin :: Location where
  "guarded_admin = (demo_location ''/admin'' [])\<lparr>loc_Auth := Some unresolved_sso\<rparr>"

lemma demo_admit: "admit (demo_gateway route) now (demo_visit m p h) = Inr (demo_visit m p h)"
  by (simp add: admit_def demo_gateway_def IPProfileStore_CheckBlockedAddr_def BanStore_CheckBlockedAddr_def NewIPProfileStore_def NewBanStore_def
      Let_def split: option.split)

lemma demo_ByHost: "ByHost (gw_table (demo_gateway (admin_route ls))) (request_host (demo_visit m p h)) = Some (admin_route ls)"
  by (simp add: demo_gateway_def admin_route_def request_host_def demo_visit_def SplitHostPort_def LastIndexByte_def demo_eval)

lemma demo_resolved: "resolved_route (demo_gateway (admin_route ls)) (admin_route ls) = admin_route ls"
  by (simp add: resolved_route_def ResolveSnippets_def ResolveAuthProvider_def admin_route_def zero_route_def)

lemma demo_dispatch:
  assumes "\<not> HasPrefix p PublicPathPref"
  shows "dispatch (demo_gateway (admin_route ls)) now rnd body (demo_visit m p h) c =
    (let hc = handlerForRoute detectorExecs (fst (located (demo_gateway (admin_route ls)) (admin_route ls) p))
                (snd (located (demo_gateway (admin_route ls)) (admin_route ls) p)) c
     in (Handled (fst hc) (demo_visit m p h), snd hc))"
proof -
  have engine: "active_engine (demo_gateway route) r = None" "gw_challenge (demo_gateway route) = None"
    "gw_registry (demo_gateway route) = detectorExecs" for route r
    by (simp_all add: active_engine_def demo_gateway_def)
  have path: "ib_Path (demo_visit m p h) = p" by (simp add: demo_visit_def)
  have "rt_SnippetUnresolved (admin_route ls) = []" by (simp add: admin_route_def zero_route_def)
  then have "dispatch (demo_gateway (admin_route ls)) now rnd body (demo_visit m p h) c =
      dispatch_route (demo_gateway (admin_route ls)) now rnd body (admin_route ls) (demo_visit m p h) c"
    using assms by (simp add: dispatch_def path demo_admit demo_ByHost demo_resolved Let_def)
  then show ?thesis
    by (simp add: dispatch_route_def graduated_def harden_def protect_key_def engine path split_beta Let_def)
qed

lemma demo_located:
  "located (demo_gateway (admin_route [demo_location ''/admin'' ''exact'', guarded_admin])) (admin_route [demo_location ''/admin'' ''exact'', guarded_admin]) ''/admin''
   = (MergeLocation (admin_route [demo_location ''/admin'' ''exact'', guarded_admin]) (demo_location ''/admin'' ''exact''), ''/admin'')"
  "located (demo_gateway (admin_route [demo_location ''/admin'' ''exact'', guarded_admin])) (admin_route [demo_location ''/admin'' ''exact'', guarded_admin]) ''/admin/users''
   = (MergeLocation (admin_route [demo_location ''/admin'' ''exact'', guarded_admin]) guarded_admin, ''/admin'')"
  by (simp_all add: located_def MatchLocation_def admin_route_def guarded_admin_def demo_location_def demo_gateway_def exact_hit_def prefix_hit_def
      MatchesFolded_def HasPrefix_def ToLower_def lower_char_def)

lemma demo_merged:
  "rt_SSO (MergeLocation (admin_route ls) (demo_location p ty)) = None" "rt_SSO (MergeLocation (admin_route ls) guarded_admin) = Some unresolved_sso"
  "rt_ID (MergeLocation (admin_route ls) l) = ''r''"
  by (simp_all add: MergeLocation_def override_def guarded_admin_def demo_location_def admin_route_def zero_route_def Let_def)

text \<open>
  Two locations of one path, one exact and one by prefix, share an entry of the cache although they are different settings:
  here the prefix asks for authentication and the exact path does not. Whichever is visited first serves both.
\<close>

lemma same_path_shares_handler:
  "map_option (\<lambda>h. rt_SSO (hd_Route h))
     (case fst (dispatch (demo_gateway (admin_route [demo_location ''/admin'' ''exact'', guarded_admin])) 0 [] None (demo_visit ''GET'' ''/admin/users'' []) no_handlers)
      of Handled h _ \<Rightarrow> Some h | _ \<Rightarrow> None) = Some (Some unresolved_sso)"
  "map_option (\<lambda>h. rt_SSO (hd_Route h))
     (case fst (dispatch (demo_gateway (admin_route [demo_location ''/admin'' ''exact'', guarded_admin])) 0 [] None (demo_visit ''GET'' ''/admin/users'' [])
              (snd (dispatch (demo_gateway (admin_route [demo_location ''/admin'' ''exact'', guarded_admin])) 0 [] None (demo_visit ''GET'' ''/admin'' []) no_handlers)))
      of Handled h _ \<Rightarrow> Some h | _ \<Rightarrow> None) = Some None"
proof -
  have "\<not> HasPrefix ''/admin'' PublicPathPref" "\<not> HasPrefix ''/admin/users'' PublicPathPref"
    by (simp_all add: HasPrefix_def PublicPathPref_def)
  then show "map_option (\<lambda>h. rt_SSO (hd_Route h))
     (case fst (dispatch (demo_gateway (admin_route [demo_location ''/admin'' ''exact'', guarded_admin])) 0 [] None (demo_visit ''GET'' ''/admin/users'' []) no_handlers)
      of Handled h _ \<Rightarrow> Some h | _ \<Rightarrow> None) = Some (Some unresolved_sso)"
    "map_option (\<lambda>h. rt_SSO (hd_Route h))
     (case fst (dispatch (demo_gateway (admin_route [demo_location ''/admin'' ''exact'', guarded_admin])) 0 [] None (demo_visit ''GET'' ''/admin/users'' [])
              (snd (dispatch (demo_gateway (admin_route [demo_location ''/admin'' ''exact'', guarded_admin])) 0 [] None (demo_visit ''GET'' ''/admin'' []) no_handlers)))
      of Handled h _ \<Rightarrow> Some h | _ \<Rightarrow> None) = Some None"
    by (simp_all add: demo_dispatch demo_located demo_merged handlerForRoute_def Let_def)
qed

text \<open>
  A request that read its route before a change and asks for the handler after it puts the handler of the old route into the
  cache, where nothing removes it: it serves every later request until the next change.
\<close>

lemma in_flight_request_pins_old_route:
  assumes "rt_ID new = rt_ID old"
  shows "fst (handlerForRoute registry new p (snd (handlerForRoute registry old p (invalidateRouteCache (rt_ID old) c))))
    = \<lparr>hd_Route = old, hd_Layers = build_layers registry old\<rparr>"
  by (simp add: handlerForRoute_def assms invalidateRouteCache_get key_own_prefix Let_def)
    

end
