(* ===== verification/Dispatch_Properties.thy ===== *)
theory Dispatch_Properties
  imports Dispatch_Cache "HOL-Library.Multiset"
begin

text \<open>
  What dispatch promises: who is refused before any route is looked at, what protects the routes it serves, in which
  order the stages of a route stand, and what hardening a route does to those who solved the challenge.
\<close>

section \<open>Refused before routing\<close>

lemma find_None_ex: "find P xs = None \<longleftrightarrow> \<not> list_ex P xs"
  by (auto simp: find_None_iff list_ex_iff)

text \<open>
  C5: A client whose public address is covered by a ban or by a deny profile, and by no allow profile, is refused: whatever it
  asks for, whatever the detection engine says and whichever routes exist, no handler is called and the gateway is left as it was.
\<close>

theorem listed_address_refused:
  assumes "gw_profiles s = IPProfileStore_Replace ps p0" "gw_bans s = BanStore_Replace t0 bans b0"
    and "ParseClientAddr (RealIP (ce_trust (gw_env s)) r) = Some a" "\<not> isPrivateAddr a"
    and "\<not> list_ex (\<lambda>p. is_allow p \<and> profile_covers a p) ps"
    and "list_ex (\<lambda>p. is_deny p \<and> profile_covers a p) ps \<or> list_ex (ban_covers t0 now a) (List.map_filter id bans)"
  shows "snd (httpMux s now rnd body r c) = c \<and> (case fst (httpMux s now rnd body r c) of
      Handled h r' \<Rightarrow> False | UnknownHost \<Rightarrow> False | SnippetsUnusable \<Rightarrow> False | Verified n k \<Rightarrow> False | Challenged p \<Rightarrow> False | _ \<Rightarrow> True)"
proof -
  have "fst (IPProfileStore_CheckBlockedAddr (gw_profiles s) (Some a))
      \<or> \<not> IsAllowedAddr (gw_profiles s) (Some a) \<and> fst (BanStore_CheckBlockedAddr now (gw_bans s) (Some a))"
    using assms(4-6) profile_check [of ps p0 a] ban_check [of now t0 bans b0 "Some a"]
    by (auto simp: assms(1,2) find_None_ex split: option.splits)
  then have "\<exists>x. admit s now r = Inl x \<and> (x = GlobalLimit \<or> (\<exists>m. x = ProfileDenied m \<or> x = BanDenied m \<or> x = ThreatDenied m))"
    unfolding admit_def Let_def assms(3)
    by (cases "case gw_engine s of None \<Rightarrow> False | Some e \<Rightarrow> \<not> te_CheckGlobal e";
        cases "fst (IPProfileStore_CheckBlockedAddr (gw_profiles s) (Some a))") simp_all
  then obtain x where x: "admit s now r = Inl x" "x = GlobalLimit \<or> (\<exists>m. x = ProfileDenied m \<or> x = BanDenied m \<or> x = ThreatDenied m)"
    by blast
  show ?thesis
  proof (cases "ib_Method r = ''TRACE'' \<or> ib_Method r = ''TRACK''")
    case True
    then show ?thesis by (auto simp: httpMux_def rejectTrace_def)
  next
    case False
    then show ?thesis
      using x by (cases "HasPrefix (ib_Path r) PublicPathPref") (auto simp: httpMux_def rejectTrace_def dispatch_def serveErrorPageAsset_def)
  qed
qed

theorem listed_address_refused_witness:
  "let s = (demo_gateway (admin_route []))\<lparr>gw_bans := BanStore_Replace 0 [Some (demo_ban ''192.0.2.7'')] NewBanStore,
              gw_profiles := IPProfileStore_Replace [] NewIPProfileStore\<rparr>
   in snd (httpMux s 0 [] None (demo_visit ''GET'' ''/'' []) no_handlers) = no_handlers \<and> (case fst (httpMux s 0 [] None (demo_visit ''GET'' ''/'' []) no_handlers) of
      Handled h r' \<Rightarrow> False | UnknownHost \<Rightarrow> False | SnippetsUnusable \<Rightarrow> False | Verified n k \<Rightarrow> False | Challenged p \<Rightarrow> False | _ \<Rightarrow> True)"
proof -
  have addr: "ParseClientAddr ''192.0.2.7'' = Some (V4 0xC0000207)" by (simp add: ParseClientAddr_def netip_eval)
  have "ban_prefix ''192.0.2.7'' = Some (Some (V4 0xC0000207), 32)" by (simp add: ban_prefix_def netip_eval)
  then have "ban_covers 0 0 (V4 0xC0000207) (demo_ban ''192.0.2.7'')"
    by (simp add: ban_covers_def demo_ban_def ban_expired_def prefix_Contains_def)
  moreover have "\<not> isPrivateAddr (V4 0xC0000207)"
    by (simp add: isPrivateAddr_def privatePrefixes_def prefix_Contains_def)
  ultimately show ?thesis
    unfolding Let_def
    by (intro listed_address_refused [OF _ _ _ _, where ps = "[]" and bans = "[Some (demo_ban ''192.0.2.7'')]" and a = "V4 0xC0000207"])
      (simp_all add: addr demo_gateway_def demo_RealIP List.map_filter_simps)
qed

section \<open>The order of the stages\<close>

definition stage_order :: "string list" where
  "stage_order =
     [''maintenance'', ''signed_url'', ''bandwidth'', ''compress'', ''transform'', ''request_id'', ''waf'', ''bot'', ''request_vars'',
      ''backpressure'', ''limit_conn'', ''rate_limit'', ''ip_filter'', ''plugins'', ''geo_ip'', ''security_headers'', ''cors'', ''mtls'',
      ''jwt'', ''sso'', ''openapi'', ''request_schema'', ''graphql'']"

definition stage_on :: "Route \<Rightarrow> string \<Rightarrow> bool" where
  "stage_on route name =
     (if name = ''request_id'' then rt_RequestID route = Some False
      else if name = ''plugins'' then rt_Plugins route \<noteq> []
      else if name \<in> fst ` set detectorExecs then detector_build route name
      else True)"

definition ranked_order :: "(string \<times> int) list" where
  "ranked_order =
     [(''maintenance'', 100), (''signed_url'', 200), (''bandwidth'', 300), (''compress'', 400), (''transform'', 500), (''request_id'', 600),
      (''waf'', 700), (''bot'', 800), (''request_vars'', 900), (''backpressure'', 1000), (''limit_conn'', 1100), (''rate_limit'', 1200),
      (''ip_filter'', 1300), (''plugins'', 1400), (''geo_ip'', 1500), (''security_headers'', 1600), (''cors'', 1700), (''mtls'', 1800),
      (''jwt'', 1900), (''sso'', 2000), (''openapi'', 2100), (''request_schema'', 2200), (''graphql'', 2300)]"

lemma ranked_facts: "map fst ranked_order = stage_order" "distinct (map snd ranked_order)" "sorted (map snd ranked_order)"
  by (simp_all add: ranked_order_def stage_order_def)

lemma dispatchStages_ranked:
  assumes "mset registry = mset detectorExecs"
  shows "dispatchStages registry route = filter (\<lambda>x. stage_on route (fst x)) ranked_order"
proof -
  let ?ys = "filter (\<lambda>x. stage_on route (fst x)) ranked_order"
  let ?det = "filter (\<lambda>(typ, rank). detector_build route typ) detectorExecs"
  have det: "mset (DetectorStages registry route) = mset ?det"
    using assms by (simp add: DetectorStages_def mset_filter)
  let ?opt = "(if rt_RequestID route = Some False then [(''request_id'', 600 :: int)] else [])
        @ (if rt_Plugins route \<noteq> [] then [(''plugins'', 1400)] else [])"
  have "mset (fixed_stages @ ?opt @ ?det) = mset ?ys"
    by (simp add: fixed_stages_def ranked_order_def detectorExecs_def stage_on_def)
  then have m: "mset (fixed_stages @ (if rt_RequestID route = Some False then [(''request_id'', 600 :: int)] else [])
        @ (if rt_Plugins route \<noteq> [] then [(''plugins'', 1400)] else []) @ DetectorStages registry route) = mset ?ys"
    using det by simp
  have "distinct (map snd ?ys)" using ranked_facts(2) by (rule distinct_map_filter)
  moreover have "sorted (map snd ?ys)" using ranked_facts(3) by (rule sorted_filter)
  ultimately show ?thesis
    unfolding dispatchStages_def using m
    by (metis distinct_map mset_eq_setD sort_key_inj_key_eq)
qed

text \<open>
  C18: The stages of a route stand in one order, whatever the order in which the registry of detectors is visited: those that
  are on, from maintenance to the limits of GraphQL. In between the firewall judges before the bots, the bots before the rates, the
  rates before the address filter, and all of them before authentication; the disk cache and the backends stand behind all stages.
\<close>

theorem stages_in_order:
  assumes "mset registry = mset detectorExecs"
  shows "\<exists>behind. build_layers registry route = map Stage (filter (stage_on route) stage_order) @ behind
    \<and> list_all (\<lambda>l. case l of Stage n \<Rightarrow> False | _ \<Rightarrow> True) behind \<and> behind \<noteq> []"
proof -
  have "map (Stage \<circ> fst) (dispatchStages registry route) = map Stage (filter (stage_on route) stage_order)"
    unfolding dispatchStages_ranked [OF assms] ranked_facts(1) [symmetric] filter_map by (simp add: comp_def)
  then show ?thesis by (auto simp: build_layers_def split: option.split)
qed

theorem stages_in_order_witness:
  "\<exists>behind. build_layers (rev detectorExecs) zero_route = map Stage (filter (stage_on zero_route) stage_order) @ behind
    \<and> list_all (\<lambda>l. case l of Stage n \<Rightarrow> False | _ \<Rightarrow> True) behind \<and> behind \<noteq> []"
  by (rule stages_in_order) simp

section \<open>What protects a served route\<close>

lemma ResolveAuthProvider_fields:
  "rt_GeoIP (ResolveAuthProvider J r store) = rt_GeoIP r" "rt_IPFilter (ResolveAuthProvider J r store) = rt_IPFilter r"
  "rt_Bot (ResolveAuthProvider J r store) = rt_Bot r" "rt_WAF (ResolveAuthProvider J r store) = rt_WAF r"
  "rt_SnippetUnresolved (ResolveAuthProvider J r store) = rt_SnippetUnresolved r" "rt_Locations (ResolveAuthProvider J r store) = rt_Locations r"
  by (simp_all add: ResolveAuthProvider_def split: option.split)

lemma ResolveAuthProvider_SSO:
  "rt_AuthProviderID r \<noteq> [] \<Longrightarrow> \<exists>c. rt_SSO (ResolveAuthProvider J r store) = Some c \<and> (rt_SSO r = None \<longrightarrow> sso_Enabled c)"
  by (auto simp: ResolveAuthProvider_def unresolved_sso_def split: option.split)

lemma fold_resolve_auth:
  "rt_SSO (fst (fold (resolve_id J store) is st)) = rt_SSO (fst st)"
  "rt_AuthProviderID (fst (fold (resolve_id J store) is st)) = rt_AuthProviderID (fst st)"
  by (induction "is" arbitrary: st) (simp_all add: resolve_id_def apply_snippet_def Let_def split: option.split)

lemma ResolveSnippets_auth:
  "rt_SSO (ResolveSnippets J r store) = rt_SSO r" "rt_AuthProviderID (ResolveSnippets J r store) = rt_AuthProviderID r"
  using fold_resolve_auth [of J store "rt_SnippetIDs r" "(r, [])"] by (simp_all add: ResolveSnippets_def split_beta)

lemma located_blocks:
  "rt_GeoIP (fst (located s route p)) = rt_GeoIP route" "rt_Bot (fst (located s route p)) = rt_Bot route"
  "rt_WAF (fst (located s route p)) = rt_WAF route"
  "rt_IPFilter route \<noteq> None \<Longrightarrow> rt_IPFilter (fst (located s route p)) \<noteq> None"
  by (auto simp: located_def MergeLocation_def override_def Let_def split: option.split)

lemma located_SSO:
  assumes "\<And>l. l \<in> set (rt_Locations route) \<Longrightarrow> loc_Auth l = None"
  shows "rt_SSO (fst (located s route p)) = rt_SSO route"
  using assms MatchLocation_mem [of "gw_lower s" "gw_compile s" "gw_match s" route p "gw_regexes s"]
  by (auto simp: located_def MergeLocation_def override_def Let_def split: option.split)

lemma sso_stage: "Stage ''sso'' \<in> set (build_layers registry route)"
proof -
  have "(''sso'', 2000) \<in> set (dispatchStages registry route)" unfolding dispatchStages_def set_sort by (simp add: fixed_stages_def)
  then have "(Stage \<circ> fst) (''sso'', 2000 :: int) \<in> (Stage \<circ> fst) ` set (dispatchStages registry route)" by (rule imageI)
  then show ?thesis by (simp add: build_layers_def)
qed


lemma quiet_admit:
  "gw_engine s = None \<Longrightarrow> gw_profiles s = NewIPProfileStore \<Longrightarrow> gw_bans s = NewBanStore \<Longrightarrow> admit s now r = Inr r"
  by (simp add: admit_def IPProfileStore_CheckBlockedAddr_def BanStore_CheckBlockedAddr_def NewIPProfileStore_def NewBanStore_def Let_def
      split: option.split)

lemma quiet_dispatch:
  assumes "gw_engine s = None" "gw_challenge s = None" "admit s now r = Inr r" "\<not> HasPrefix (ib_Path r) PublicPathPref"
    and "ByHost (gw_table s) (request_host r) = Some r0" "rt_SnippetUnresolved (resolved_route s r0) = []"
  shows "\<exists>h. fst (dispatch s now rnd body r c) = Handled h r"
proof -
  have "active_engine s r = None" by (simp add: active_engine_def assms(1))
  then show ?thesis
    using assms by (simp add: dispatch_def dispatch_route_def graduated_def harden_def protect_key_def split_beta Let_def)
qed

definition walled_route :: Route where
  "walled_route = (admin_route [])\<lparr>rt_SnippetIDs := [''m''], rt_AuthProviderID := ''p''\<rparr>"

definition walled_gateway :: "unit gateway" where
  "walled_gateway = (demo_gateway walled_route)\<lparr>gw_snippets := demo_snippets\<rparr>"

lemma walled_fields:
  "gw_engine walled_gateway = None" "gw_challenge walled_gateway = None" "gw_json walled_gateway = demo_json"
  "gw_snippets walled_gateway = demo_snippets" "gw_table walled_gateway = Upsert walled_route zero_table"
  "gw_profiles walled_gateway = NewIPProfileStore" "gw_bans walled_gateway = NewBanStore"
  by (simp_all add: walled_gateway_def demo_gateway_def)


section \<open>Hardened routes\<close>

lemma RealIP_StripProof [simp]: "RealIP ts (StripProof g r) = RealIP ts r"
proof -
  have "gm_get (ib_Header (StripProof g r)) ''X-Forwarded-For'' = gm_get (ib_Header r) ''X-Forwarded-For''"
    by (simp add: StripProof_def stripCookie_rest)
  then have "peer_of (StripProof g r) = peer_of r" "forwarded_chain (StripProof g r) = forwarded_chain r"
    by (simp_all add: peer_of_def forwarded_chain_def split: option.split)
  then show ?thesis by (simp add: RealIP_def)
qed

lemma Applies_StripProof [simp]: "Applies g (StripProof g' r) route = Applies g r route"
  by (simp add: Applies_def)

lemma active_engine_StripProof [simp]: "active_engine s (StripProof g r) = active_engine s r"
  by (simp add: active_engine_def)

lemma StripProof_no_proof:
  "contains_str (ib_Get r ''Cookie'') (bc_cookie g) \<Longrightarrow> \<not> hasProof env g now (StripProof g r)"
  by (simp add: StripProof_def hasProof_def strip_no_cookie)

text \<open>
  A visitor of a hardened route who has solved the challenge is given it again, on every page: the proof is removed from the
  request before hardening looks for it.
\<close>

lemma hardened_ignores_proof:
  assumes "gw_challenge s = Some g" "active_engine s r = Some e"
    and "te_Hardening e (rt_Host route) (RealIP (ce_trust (gw_env s)) r) = Some allow"
    and "Applies g r (Some route)" "hasProof (gw_env s) g now r" "contains_str (ib_Get r ''Cookie'') (bc_cookie g)"
  shows "dispatch_route s now rnd body route r c = (Challenged (serve_challenge (gw_env s) g now rnd (StripProof g r)), c)"
proof -
  have "\<not> IsVerify r" using assms(4) by (auto simp: Applies_def IsVerify_def)
  then have "graduated s now rnd body route r = Inr (StripProof g r)"
    using assms by (simp add: graduated_def)
  moreover have "harden s now rnd route (StripProof g r) = Inl (Challenged (serve_challenge (gw_env s) g now rnd (StripProof g r)))"
    using assms StripProof_no_proof [OF assms(6)] by (simp add: harden_def)
  ultimately show ?thesis by (simp add: dispatch_route_def)
qed

end
