(* ===== verification/Proxy_Store.thy ===== *)
theory Proxy_Store
  imports Dispatch_Cache
begin

text \<open>
  The proxies a gateway keeps on disk (\<open>internal/edge/proxystore\<close>: \<open>envelope.go\<close>, \<open>store.go\<close>, \<open>tombstones.go\<close>): one file per
  proxy in production, named after its host, files of revisions, dates of deletions. A directory is a map from base names to
  envelopes: writing a file and reading it again gives the same envelope, and reading and writing do not fail. The type
  inside a configuration is an argument, as is the rest of its JSON.
\<close>

section \<open>Envelopes\<close>

record DryRunResult =
  dr_OK :: bool
  dr_CheckedAt :: "go_time option"
  dr_Errors :: "string list"

record Envelope =
  en_SchemaVersion :: int
  en_ID :: string
  en_Revision :: string
  en_Host :: string
  en_Enabled :: bool
  en_Status :: string
  en_CreatedAt :: "go_time option"
  en_UpdatedAt :: go_time
  en_CreatedBy :: string
  en_DryRun :: "DryRunResult option"
  en_Config :: string

definition StatusPending :: string where "StatusPending = ''pending''"
definition StatusValidated :: string where "StatusValidated = ''validated''"
definition StatusProduction :: string where "StatusProduction = ''production''"
definition StatusRejected :: string where "StatusRejected = ''rejected''"

lemmas status_eval = StatusPending_def StatusValidated_def StatusProduction_def StatusRejected_def

datatype envelope_error = BadSchemaVersion int | NoID | NoConfig | NoStatus | UnknownStatus string | NoRevision

definition Validate :: "Envelope \<Rightarrow> envelope_error option" where
  "Validate e =
     (if en_SchemaVersion e < 1 then Some (BadSchemaVersion (en_SchemaVersion e))
      else if en_ID e = [] then Some NoID
      else if en_Config e = [] then Some NoConfig
      else if en_Status e = [] then Some NoStatus
      else if en_Status e \<notin> {StatusPending, StatusValidated, StatusProduction, StatusRejected} then Some (UnknownStatus (en_Status e))
      else if en_Status e \<noteq> StatusProduction \<and> en_Revision e = [] then Some NoRevision
      else None)"

section \<open>Names of files\<close>

definition host_safe :: "char \<Rightarrow> bool" where
  "host_safe c \<longleftrightarrow> (let n = (of_char c :: nat) in (97 \<le> n \<and> n \<le> 122) \<or> (48 \<le> n \<and> n \<le> 57)) \<or> c \<in> {CHR ''.'', CHR ''_'', CHR ''-''}"

text \<open>Each run of other characters becomes one underscore; then runs of underscores become one.\<close>

text \<open>The flag says that the byte before belonged to the run.\<close>

fun replace_runs :: "bool \<Rightarrow> string \<Rightarrow> string" where
  "replace_runs run [] = []"
| "replace_runs run (c # cs) =
     (if host_safe c then c # replace_runs False cs else if run then replace_runs True cs else CHR ''_'' # replace_runs True cs)"

fun single_underscores :: "bool \<Rightarrow> string \<Rightarrow> string" where
  "single_underscores run [] = []"
| "single_underscores run (c # cs) =
     (if c \<noteq> CHR ''_'' then c # single_underscores False cs else if run then single_underscores True cs else c # single_underscores True cs)"

definition trim_chars :: "string \<Rightarrow> string \<Rightarrow> string" where
  "trim_chars s cs = rev (dropWhile (\<lambda>c. c \<in> set cs) (rev (dropWhile (\<lambda>c. c \<in> set cs) s)))"

definition SanitizeHost :: "string \<Rightarrow> string" where
  "SanitizeHost host = single_underscores False (trim_chars (replace_runs False (ToLower (TrimSpace host))) ''._-'')"

definition isL4Type :: "string \<Rightarrow> bool" where
  "isL4Type typ \<longleftrightarrow> typ = ''tcp'' \<or> typ = ''udp''"

definition id_safe :: "char \<Rightarrow> bool" where
  "id_safe c \<longleftrightarrow>
     (let n = (of_char c :: nat) in (97 \<le> n \<and> n \<le> 122) \<or> (65 \<le> n \<and> n \<le> 90) \<or> (48 \<le> n \<and> n \<le> 57)) \<or> c \<in> {CHR ''-'', CHR ''_'', CHR ''.''}"

definition sanitizeID :: "string \<Rightarrow> string" where
  "sanitizeID i0 = (let i = TrimSpace i0 in if i = [] then ''unknown'' else map (\<lambda>c. if id_safe c then c else CHR ''_'') i)"

definition ProdFilenameTyped :: "string \<Rightarrow> string \<Rightarrow> string \<Rightarrow> string" where
  "ProdFilenameTyped host i typ0 =
     (let typ = ToLower (TrimSpace typ0); stem = SanitizeHost host
      in if isL4Type typ then (if stem = [] then ''stream_'' @ sanitizeID i @ ''.yaml'' else stem @ ''_'' @ typ @ ''.yaml'')
         else if stem = [] then ''proxy_'' @ sanitizeID i @ ''.yaml''
         else stem @ ''.yaml'')"

definition ProdFilename :: "string \<Rightarrow> string \<Rightarrow> string" where
  "ProdFilename host i = ProdFilenameTyped host i []"

definition RevisionFilename :: "string \<Rightarrow> string \<Rightarrow> string" where
  "RevisionFilename i rv = sanitizeID i @ ''--'' @ sanitizeID rv @ ''.yaml''"

text \<open>\<open>peek\<close> reads the field \<open>type\<close> of a configuration.\<close>

definition routeTypeFromConfig :: "(string \<Rightarrow> string) \<Rightarrow> string \<Rightarrow> string" where
  "routeTypeFromConfig peek cfg = ToLower (TrimSpace (peek cfg))"

definition ProdPathFor :: "(string \<Rightarrow> string) \<Rightarrow> Envelope \<Rightarrow> string" where
  "ProdPathFor peek e = ProdFilenameTyped (en_Host e) (en_ID e) (routeTypeFromConfig peek (en_Config e))"

text \<open>Names an earlier version gave to the file of a proxy.\<close>

definition obsoleteProdPaths :: "(string \<Rightarrow> string) \<Rightarrow> Envelope \<Rightarrow> string \<Rightarrow> string list" where
  "obsoleteProdPaths peek e except =
     filter (\<lambda>p. p \<noteq> [] \<and> p \<noteq> except)
       ([''stream_'' @ sanitizeID (en_ID e) @ ''.yaml'']
        @ (if SanitizeHost (en_Host e) = [] then []
           else (if isL4Type (routeTypeFromConfig peek (en_Config e)) then [SanitizeHost (en_Host e) @ ''.yaml''] else [])
                @ [ProdFilename (en_Host e) (en_ID e)]))"

section \<open>The store\<close>

text \<open>\<open>px_index\<close> and \<open>px_list\<close> are the memory of the store, \<open>None\<close> until built.\<close>

type_synonym directory = "(string, Envelope) gomap"

record proxy_store =
  px_prod :: directory
  px_revs :: directory
  px_index :: "(string, string) gomap option"
  px_list :: "Envelope list option"
  px_tombs :: "(string, go_time) gomap"

definition empty_proxy_store :: proxy_store where
  "empty_proxy_store = \<lparr>px_prod = [], px_revs = [], px_index = None, px_list = None, px_tombs = []\<rparr>"

text \<open>A file that is missing under its \<open>.yaml\<close> name is looked for under \<open>.json\<close>.\<close>

definition readEnvelope :: "directory \<Rightarrow> string \<Rightarrow> Envelope option" where
  "readEnvelope dir name =
     (case gm_get dir name of
        Some e \<Rightarrow> Some e
      | None \<Rightarrow> if HasSuffix name ''.yaml'' then gm_get dir (TrimSuffix name ''.yaml'' @ ''.json'') else None)"

definition removeFile :: "string \<Rightarrow> directory \<Rightarrow> bool \<times> directory" where
  "removeFile name dir = (gm_get dir name \<noteq> None, gm_del name dir)"

text \<open>The directory is read in the order of the map; entries without an identifier are passed over.\<close>

definition buildIndexAndCache :: "directory \<Rightarrow> (string, string) gomap \<times> Envelope list" where
  "buildIndexAndCache dir =
     (let es = filter (\<lambda>(name, e). (HasSuffix name ''.yaml'' \<or> HasSuffix name ''.json'') \<and> en_ID e \<noteq> []) dir
      in (fold (\<lambda>(name, e) idx. gm_set (en_ID e) name idx) es [], map snd es))"

definition lookupIDIndex :: "string \<Rightarrow> proxy_store \<Rightarrow> string option \<times> proxy_store" where
  "lookupIDIndex i s =
     (case px_index s of
        Some idx \<Rightarrow> (gm_get idx i, s)
      | None \<Rightarrow> (case buildIndexAndCache (px_prod s) of
                   (idx, list) \<Rightarrow> (gm_get idx i, s\<lparr>px_index := Some idx, px_list := Some list\<rparr>)))"

definition ReadProdByID :: "string \<Rightarrow> proxy_store \<Rightarrow> Envelope option \<times> proxy_store" where
  "ReadProdByID i s =
     (case lookupIDIndex i s of
        (None, s1) \<Rightarrow> (None, s1)
      | (Some name, s1) \<Rightarrow>
          (case readEnvelope (px_prod s1) name of
             None \<Rightarrow> (None, s1\<lparr>px_index := None\<rparr>)
           | Some e \<Rightarrow> (Some e, s1)))"

definition ListProd :: "proxy_store \<Rightarrow> Envelope list \<times> proxy_store" where
  "ListProd s =
     (case px_list s of
        Some l \<Rightarrow> (l, s)
      | None \<Rightarrow> (case buildIndexAndCache (px_prod s) of (idx, list) \<Rightarrow> (list, s\<lparr>px_index := Some idx, px_list := Some list\<rparr>)))"

definition prod_copy :: "Envelope \<Rightarrow> Envelope" where
  "prod_copy e =
     e\<lparr>en_Status := StatusProduction, en_Revision := [], en_DryRun := None,
       en_SchemaVersion := (if en_SchemaVersion e = 0 then 1 else en_SchemaVersion e)\<rparr>"

definition drop_legacy :: "Envelope \<Rightarrow> string \<Rightarrow> directory \<Rightarrow> directory" where
  "drop_legacy e legacy dir =
     (case readEnvelope dir legacy of
        Some old \<Rightarrow> if en_ID old = en_ID e then gm_del (TrimSuffix legacy ''.yaml'' @ ''.json'') (gm_del legacy dir) else dir
      | None \<Rightarrow> dir)"

definition WriteProd :: "(string \<Rightarrow> string) \<Rightarrow> Envelope \<Rightarrow> proxy_store \<Rightarrow> envelope_error option \<times> proxy_store" where
  "WriteProd peek env s =
     (let e = prod_copy env; path = ProdPathFor peek e
      in case Validate e of
           Some err \<Rightarrow> (Some err, s)
         | None \<Rightarrow>
             (None, s\<lparr>px_prod := fold (drop_legacy e) (obsoleteProdPaths peek e path) (gm_set path e (px_prod s)),
                     px_index := map_option (gm_set (en_ID e) path) (px_index s), px_list := None\<rparr>))"

definition WriteRevision :: "Envelope \<Rightarrow> proxy_store \<Rightarrow> envelope_error option \<times> proxy_store" where
  "WriteRevision env s =
     (let e = env\<lparr>en_SchemaVersion := (if en_SchemaVersion env = 0 then 1 else en_SchemaVersion env)\<rparr>
      in if en_Status e = StatusProduction \<and> en_Revision e = [] then (Some NoRevision, s)
         else (case Validate e of
                 Some err \<Rightarrow> (Some err, s)
               | None \<Rightarrow> (None, s\<lparr>px_revs := gm_set (RevisionFilename (en_ID e) (en_Revision e)) e (px_revs s)\<rparr>)))"

definition ReadRevision :: "string \<Rightarrow> string \<Rightarrow> proxy_store \<Rightarrow> Envelope option" where
  "ReadRevision i rv s = readEnvelope (px_revs s) (RevisionFilename i rv)"

definition ListRevisions :: "string \<Rightarrow> proxy_store \<Rightarrow> Envelope list" where
  "ListRevisions i s =
     (let all = map snd (filter (\<lambda>(name, e). HasSuffix name ''.yaml'' \<or> HasSuffix name ''.json'') (px_revs s))
      in if i = [] then all else filter (\<lambda>e. en_ID e = i) all)"

text \<open>False when there is nothing to delete (\<open>ErrNotFound\<close>).\<close>

definition DeleteProdByID :: "(string \<Rightarrow> string) \<Rightarrow> string \<Rightarrow> proxy_store \<Rightarrow> bool \<times> proxy_store" where
  "DeleteProdByID peek i s =
     (case ReadProdByID i s of
        (None, s1) \<Rightarrow> (False, s1)
      | (Some e, s1) \<Rightarrow>
          (let path = ProdPathFor peek e; (found, dir) = removeFile path (px_prod s1)
           in (found, s1\<lparr>px_prod := fold gm_del (obsoleteProdPaths peek e path) dir,
                         px_index := map_option (gm_del i) (px_index s1), px_list := None\<rparr>)))"

definition DeleteRevision :: "string \<Rightarrow> string \<Rightarrow> proxy_store \<Rightarrow> proxy_store" where
  "DeleteRevision i rv s = s\<lparr>px_revs := gm_del (RevisionFilename i rv) (px_revs s)\<rparr>"

definition RemoveProdIfRenamed :: "(string \<Rightarrow> string) \<Rightarrow> Envelope \<Rightarrow> Envelope \<Rightarrow> proxy_store \<Rightarrow> proxy_store" where
  "RemoveProdIfRenamed peek old new s =
     (if en_ID old \<noteq> en_ID new \<or> ProdPathFor peek old = ProdPathFor peek new then s
      else s\<lparr>px_prod := gm_del (ProdPathFor peek old) (px_prod s)\<rparr>)"

section \<open>Deletions\<close>

definition TombstoneRetention :: go_duration where
  "TombstoneRetention = 30 * 24 * 3600 * 10 ^ 9"

definition readTombstones :: "go_time \<Rightarrow> proxy_store \<Rightarrow> (string, go_time) gomap" where
  "readTombstones now s = filter (\<lambda>(i, t). now - TombstoneRetention < t) (px_tombs s)"

definition RecordTombstone :: "go_time \<Rightarrow> string \<Rightarrow> go_time \<Rightarrow> proxy_store \<Rightarrow> proxy_store" where
  "RecordTombstone now i dt s =
     (let cur = readTombstones now s
      in case gm_get cur i of
           Some prev \<Rightarrow> if dt \<le> prev then s else s\<lparr>px_tombs := gm_set i dt cur\<rparr>
         | None \<Rightarrow> s\<lparr>px_tombs := gm_set i dt cur\<rparr>)"

definition ClearTombstone :: "go_time \<Rightarrow> string \<Rightarrow> proxy_store \<Rightarrow> proxy_store" where
  "ClearTombstone now i s =
     (let cur = readTombstones now s in if gm_get cur i = None then s else s\<lparr>px_tombs := gm_del i cur\<rparr>)"

end
