(* ===== verification/Proxy_Pipeline.thy ===== *)
theory Proxy_Pipeline
  imports Proxy_Store
begin

text \<open>
  How a proxy gets into production and out of it: the pipeline of revisions (\<open>internal/edge/proxypipeline/pipeline.go\<close>,
  \<open>dryrun.go\<close>), its application to the routing table (\<open>internal/edge/proxyfiles.go\<close>) and the exchange between the gateways of
  a group (\<open>proxy_replica.go\<close>). Decoding a configuration, parsing a URL and the validators of single blocks that live in other
  packages are arguments (\<open>pipe_env\<close>).
\<close>

section \<open>Dry run\<close>

datatype dryrun_error =
    EmptyConfig | ConfigJSON
  | BadType string | HostRequired | ListenPortRequired | BadProxyProtocol string
  | StaticRoot | StaticMaxAge | NoBackend
  | BackendEmpty nat | BackendURL nat string | CanaryURL string | CanaryWeight | ShadowURL string
  | BadLB string | BackendWeight nat | IdleTimeout | HealthPath | HealthTimes | HealthThresholds | RetryWaits | CircuitBreakerValues
  | HostConflict string | HostIsAlias string | AliasIsHost string | AliasUsed string | PortConflict string
  | UnknownCert string | UnknownSnippet string | UnknownProvider string
  | BlockError string

record pipe_env =
  pe_peek :: "string \<Rightarrow> string"
  pe_route :: "string \<Rightarrow> Route option"
  pe_url :: "string \<Rightarrow> (string \<times> string) option"
  pe_proxyproto :: "string \<Rightarrow> bool"
  pe_blocks :: "Route \<Rightarrow> string list"
  pe_plugins :: "Route \<Rightarrow> string list"
  pe_https :: "string \<Rightarrow> string"

record DryRunOptions =
  do_CertNames :: "string list option"
  do_SnippetIDs :: "string list option"
  do_AuthProviders :: "string list option"

definition normalizeRouteType :: "Route \<Rightarrow> Route" where
  "normalizeRouteType r =
     (if ToLower (rt_Type r) = ''https'' then r\<lparr>rt_Type := ''http'', rt_TLSEnabled := True\<rparr>
      else if rt_Type r = [] then (if 0 < rt_ListenPort r then r else r\<lparr>rt_Type := ''http''\<rparr>)
      else r)"

definition ParseRoute :: "pipe_env \<Rightarrow> Envelope \<Rightarrow> dryrun_error + Route" where
  "ParseRoute E e =
     (if en_Config e = [] then Inl EmptyConfig
      else (case pe_route E (en_Config e) of
              None \<Rightarrow> Inl ConfigJSON
            | Some r \<Rightarrow>
                Inr (normalizeRouteType
                  (r\<lparr>rt_ID := (if rt_ID r = [] then en_ID e else rt_ID r),
                     rt_Host := (if rt_Host r = [] \<and> en_Host e \<noteq> [] then en_Host e else rt_Host r)\<rparr>))))"

definition isHTTPRoute :: "string \<Rightarrow> bool" where
  "isHTTPRoute t \<longleftrightarrow> ToLower t = ''http'' \<or> ToLower t = ''https''"

definition dryrun_routeIsL4 :: "string \<Rightarrow> bool" where
  "dryrun_routeIsL4 t \<longleftrightarrow> t = ''tcp'' \<or> t = ''udp''"

definition validateBackendURL :: "pipe_env \<Rightarrow> string \<Rightarrow> string \<Rightarrow> bool" where
  "validateBackendURL E t raw0 =
     (let raw = TrimSpace raw0
      in if dryrun_routeIsL4 t \<and> \<not> contains_str raw ''://'' then Contains raw CHR '':''
         else (case pe_url E raw of
                 None \<Rightarrow> False
               | Some (scheme, host) \<Rightarrow> scheme \<noteq> [] \<and> host \<noteq> [] \<and> ToLower scheme \<in> {''http'', ''https'', ''tcp'', ''udp''}))"

definition err_if :: "bool \<Rightarrow> 'a \<Rightarrow> 'a list" where
  "err_if b x = (if b then [x] else [])"

definition maxBackendWeight :: int where
  "maxBackendWeight = 1000000"

definition validateTrafficSettings :: "Route \<Rightarrow> dryrun_error list" where
  "validateTrafficSettings r =
     err_if (rt_LB r \<notin> {[], ''round_robin'', ''weighted'', ''adaptive''}) (BadLB (rt_LB r))
     @ concat (map (\<lambda>(i, b). err_if (be_Weight b < 0 \<or> maxBackendWeight < be_Weight b) (BackendWeight i)) (List.enumerate 0 (rt_Backends r)))
     @ err_if (rt_IdleTimeoutSec r < 0 \<or> 86400 < rt_IdleTimeoutSec r) IdleTimeout
     @ (case rt_HealthCheck r of
          None \<Rightarrow> []
        | Some hc \<Rightarrow>
            err_if (hc_Path hc \<noteq> [] \<and> \<not> HasPrefix (hc_Path hc) ''/'') HealthPath
            @ err_if (hc_Interval hc < 0 \<or> hc_Timeout hc < 0) HealthTimes
            @ err_if (hc_HealthyThreshold hc < 0 \<or> hc_UnhealthyThreshold hc < 0) HealthThresholds)
     @ (case rt_Retry r of None \<Rightarrow> [] | Some rt \<Rightarrow> err_if (ry_InitialWait rt < 0 \<or> ry_MaxWait rt < 0) RetryWaits)
     @ (case rt_CircuitBreaker r of None \<Rightarrow> [] | Some cb \<Rightarrow> err_if (cb_Threshold cb < 0 \<or> cb_Timeout cb < 0) CircuitBreakerValues)"

definition typed :: "Route \<Rightarrow> Route" where
  "typed r = (if rt_Type r = [] then r\<lparr>rt_Type := ''http''\<rparr> else r)"

definition validateRouteBasics :: "pipe_env \<Rightarrow> Route \<Rightarrow> dryrun_error list" where
  "validateRouteBasics E r0 =
     (let r = typed r0; t = rt_Type r
      in err_if (t \<notin> {''http'', ''tcp'', ''udp'', ''https''}) (BadType t)
         @ err_if (isHTTPRoute t \<and> TrimSpace (rt_Host r) = []) HostRequired
         @ err_if (dryrun_routeIsL4 t \<and> rt_ListenPort r \<le> 0) ListenPortRequired
         @ err_if (\<not> pe_proxyproto E (rt_ProxyProtocol r)) (BadProxyProtocol (rt_ProxyProtocol r))
         @ (case rt_Static r of
              Some st \<Rightarrow>
                if st_Enabled st then err_if (TrimSpace (st_Root st) = []) StaticRoot @ err_if (st_CacheMaxAge st < 0) StaticMaxAge
                else err_if (rt_Backends r = []) NoBackend
            | None \<Rightarrow> err_if (rt_Backends r = []) NoBackend)
         @ concat (map (\<lambda>(i, b). if TrimSpace (be_URL b) = [] then [BackendEmpty i]
                                  else err_if (\<not> validateBackendURL E t (be_URL b)) (BackendURL i (be_URL b))) (List.enumerate 0 (rt_Backends r)))
         @ validateTrafficSettings r
         @ map BlockError (pe_blocks E r)
         @ (case rt_Canary r of
              None \<Rightarrow> []
            | Some c \<Rightarrow> if ca_Backend c = [] then []
                else err_if (\<not> validateBackendURL E t (ca_Backend c)) (CanaryURL (ca_Backend c)) @ err_if (ca_Weight c < 0 \<or> 100 < ca_Weight c) CanaryWeight)
         @ (case rt_Shadow r of
              None \<Rightarrow> []
            | Some s \<Rightarrow> if sh_Backend s = [] then [] else err_if (\<not> validateBackendURL E t (sh_Backend s)) (ShadowURL (sh_Backend s))))"

definition plain_name :: "string \<Rightarrow> string" where
  "plain_name s = ToLower (TrimSpace s)"

definition plain_aliases :: "Route \<Rightarrow> string list" where
  "plain_aliases r = remdups (filter (\<lambda>a. a \<noteq> []) (map plain_name (rt_Aliases r)))"

text \<open>The conflicts with one peer; Go visits the aliases in any order.\<close>

definition peer_conflicts :: "Route \<Rightarrow> string \<Rightarrow> Route \<Rightarrow> dryrun_error list" where
  "peer_conflicts r peerID pr =
     (let host = plain_name (rt_Host r); peerHost = plain_name (rt_Host pr)
      in (if isHTTPRoute (rt_Type r) \<and> isHTTPRoute (rt_Type pr) then
            err_if (host \<noteq> [] \<and> peerHost \<noteq> [] \<and> host = peerHost) (HostConflict peerID)
            @ (if host \<noteq> [] then concat (map (\<lambda>a. err_if (plain_name a = host) (HostIsAlias peerID)) (rt_Aliases pr)) else [])
            @ concat (map (\<lambda>a. err_if (a = peerHost) (AliasIsHost peerID)
                                @ concat (map (\<lambda>pa. err_if (plain_name a = plain_name pa) (AliasUsed peerID)) (rt_Aliases pr))) (plain_aliases r))
          else [])
         @ err_if (0 < rt_ListenPort r \<and> 0 < rt_ListenPort pr \<and> rt_ListenPort r = rt_ListenPort pr \<and> dryrun_routeIsL4 (rt_Type r) \<and> rt_Type r = rt_Type pr)
             (PortConflict peerID))"

definition validateConflicts :: "pipe_env \<Rightarrow> Route \<Rightarrow> Envelope list \<Rightarrow> dryrun_error list" where
  "validateConflicts E r peers =
     concat (map (\<lambda>p. case ParseRoute E p of Inl _ \<Rightarrow> [] | Inr pr \<Rightarrow> peer_conflicts r (en_ID p) pr) peers)"

definition validateRefs :: "pipe_env \<Rightarrow> Route \<Rightarrow> DryRunOptions \<Rightarrow> dryrun_error list" where
  "validateRefs E r opts =
     (case do_CertNames opts of
        None \<Rightarrow> []
      | Some names \<Rightarrow> err_if (rt_TLSEnabled r \<and> rt_CertName r \<noteq> [] \<and> rt_CertName r \<notin> set names) (UnknownCert (rt_CertName r)))
     @ (case do_SnippetIDs opts of
          None \<Rightarrow> [] | Some ids \<Rightarrow> concat (map (\<lambda>i. err_if (i \<notin> set ids) (UnknownSnippet i)) (rt_SnippetIDs r)))
     @ map BlockError (pe_plugins E r)
     @ (case do_AuthProviders opts of
          None \<Rightarrow> [] | Some ps \<Rightarrow> err_if (rt_AuthProviderID r \<noteq> [] \<and> rt_AuthProviderID r \<notin> set ps) (UnknownProvider (rt_AuthProviderID r)))"

text \<open>The first validator sets a missing type of the route, which the others then see.\<close>

definition dry_run_errors :: "pipe_env \<Rightarrow> Envelope \<Rightarrow> Envelope list \<Rightarrow> DryRunOptions \<Rightarrow> dryrun_error list" where
  "dry_run_errors E e peers opts =
     (case ParseRoute E e of
        Inl err \<Rightarrow> [err]
      | Inr r \<Rightarrow> validateRouteBasics E r @ validateConflicts E (typed r) peers @ validateRefs E (typed r) opts)"

text \<open>\<open>msg\<close> writes an error out.\<close>

definition RunDryRun :: "pipe_env \<Rightarrow> (dryrun_error \<Rightarrow> string) \<Rightarrow> go_time \<Rightarrow> Envelope \<Rightarrow> Envelope list \<Rightarrow> DryRunOptions \<Rightarrow> DryRunResult" where
  "RunDryRun E msg now e peers opts =
     (let errs = dry_run_errors E e peers opts
      in \<lparr>dr_OK = (errs = []), dr_CheckedAt = Some now, dr_Errors = map msg errs\<rparr>)"

section \<open>Revisions\<close>

datatype pipe_error = EnvelopeError envelope_error | NotFound | InvalidTransition | DryRunFailed Envelope | NotValidated

text \<open>Every operation returns the store as it leaves it, whatever the outcome.\<close>

definition CreateRevision :: "pipe_env \<Rightarrow> go_time \<Rightarrow> Envelope \<Rightarrow> proxy_store \<Rightarrow> pipe_error option \<times> proxy_store" where
  "CreateRevision E now env s =
     (if en_ID env = [] then (Some (EnvelopeError NoID), s)
      else if en_Revision env = [] then (Some (EnvelopeError NoRevision), s)
      else (let e = env\<lparr>en_SchemaVersion := (if en_SchemaVersion env = 0 then 1 else en_SchemaVersion env),
                        en_Config := pe_https E (en_Config env),
                        en_CreatedAt := (case en_CreatedAt env of None \<Rightarrow> Some now | Some t \<Rightarrow> Some t),
                        en_UpdatedAt := now, en_Status := StatusPending, en_DryRun := None\<rparr>
            in map_prod (map_option EnvelopeError) id (WriteRevision e s)))"

definition collectPeers :: "string \<Rightarrow> proxy_store \<Rightarrow> Envelope list \<times> proxy_store" where
  "collectPeers i s = (case ListProd s of (es, s1) \<Rightarrow> (filter (\<lambda>e. en_ID e \<noteq> i) es, s1))"

definition DryRun ::
  "pipe_env \<Rightarrow> (dryrun_error \<Rightarrow> string) \<Rightarrow> go_time \<Rightarrow> string \<Rightarrow> string \<Rightarrow> DryRunOptions \<Rightarrow> proxy_store \<Rightarrow> (pipe_error + Envelope) \<times> proxy_store"
where
  "DryRun E msg now i rv opts s =
     (case ReadRevision i rv s of
        None \<Rightarrow> (Inl NotFound, s)
      | Some env \<Rightarrow>
          if en_Status env = StatusRejected \<or> en_Status env = StatusProduction then (Inl InvalidTransition, s)
          else (case collectPeers i s of
                  (peers, s1) \<Rightarrow>
                    (let result = RunDryRun E msg now env peers opts;
                         e = env\<lparr>en_DryRun := Some result, en_UpdatedAt := now,
                                 en_Status := (if dr_OK result then StatusValidated else StatusPending)\<rparr>
                     in case WriteRevision e s1 of
                          (Some err, s2) \<Rightarrow> (Inl (EnvelopeError err), s2)
                        | (None, s2) \<Rightarrow> (if dr_OK result then Inr e else Inl (DryRunFailed e), s2))))"

definition no_options :: DryRunOptions where
  "no_options = \<lparr>do_CertNames = None, do_SnippetIDs = None, do_AuthProviders = None\<rparr>"

definition promoted :: "go_time \<Rightarrow> Envelope \<Rightarrow> Envelope" where
  "promoted now env = env\<lparr>en_Status := StatusProduction, en_Revision := [], en_DryRun := None, en_UpdatedAt := now\<rparr>"

definition Promote ::
  "pipe_env \<Rightarrow> (dryrun_error \<Rightarrow> string) \<Rightarrow> go_time \<Rightarrow> string \<Rightarrow> string \<Rightarrow> proxy_store \<Rightarrow> (pipe_error + Envelope) \<times> proxy_store"
where
  "Promote E msg now i rv s =
     (case ReadRevision i rv s of
        None \<Rightarrow> (Inl NotFound, s)
      | Some env \<Rightarrow>
          if en_Status env = StatusRejected then (Inl InvalidTransition, s)
          else if en_Status env \<noteq> StatusValidated then (Inl NotValidated, s)
          else if (case en_DryRun env of None \<Rightarrow> True | Some d \<Rightarrow> \<not> dr_OK d) then (Inl NotValidated, s)
          else (case collectPeers i s of
                  (peers, s1) \<Rightarrow>
                    (let result = RunDryRun E msg now env peers no_options
                     in if \<not> dr_OK result then
                          (let e = env\<lparr>en_DryRun := Some result, en_Status := StatusPending, en_UpdatedAt := now\<rparr>
                           in (Inl (DryRunFailed e), snd (WriteRevision e s1)))
                        else (case ReadProdByID i s1 of
                                (old, s2) \<Rightarrow>
                                  (let prod = promoted now env
                                   in case WriteProd (pe_peek E) prod s2 of
                                        (Some err, s3) \<Rightarrow> (Inl (EnvelopeError err), s3)
                                      | (None, s3) \<Rightarrow>
                                          (let s4 = (case old of None \<Rightarrow> s3 | Some o' \<Rightarrow> RemoveProdIfRenamed (pe_peek E) o' prod s3)
                                           in case WriteRevision (env\<lparr>en_Status := StatusProduction, en_UpdatedAt := now\<rparr>) s4 of
                                                (Some err, s5) \<Rightarrow> (Inl (EnvelopeError err), s5)
                                              | (None, s5) \<Rightarrow> (Inr prod, s5)))))))"

definition Reject :: "go_time \<Rightarrow> string \<Rightarrow> string \<Rightarrow> string \<Rightarrow> proxy_store \<Rightarrow> (pipe_error + Envelope) \<times> proxy_store" where
  "Reject now i rv reason s =
     (case ReadRevision i rv s of
        None \<Rightarrow> (Inl NotFound, s)
      | Some env \<Rightarrow>
          if en_Status env = StatusProduction then (Inl InvalidTransition, s)
          else (let e = env\<lparr>en_Status := StatusRejected, en_UpdatedAt := now,
                            en_DryRun := Some \<lparr>dr_OK = False, dr_CheckedAt = Some now, dr_Errors = err_if (reason \<noteq> []) reason\<rparr>\<rparr>
                in case WriteRevision e s of
                     (Some err, s1) \<Rightarrow> (Inl (EnvelopeError err), s1)
                   | (None, s1) \<Rightarrow> (Inr e, s1)))"

section \<open>Application\<close>

text \<open>
  The gateway's side: the store, the routing table and the cache of handlers. \<open>refresh\<close> is what becomes of the table for a route the
  gateway generates itself (\<open>refreshImplicitRoute\<close>).
\<close>

record proxy_node =
  pn_store :: proxy_store
  pn_table :: Table
  pn_cache :: dispatch_cache

definition isImplicitRoute :: "string \<Rightarrow> bool" where
  "isImplicitRoute i \<longleftrightarrow> HasPrefix i ''gpx-portal-public'' \<or> HasPrefix i ''deleg-''"

definition ApplyFileProxy :: "pipe_env \<Rightarrow> (string \<Rightarrow> proxy_store \<Rightarrow> Table \<Rightarrow> Table) \<Rightarrow> Envelope \<Rightarrow> proxy_node \<Rightarrow> bool \<times> proxy_node" where
  "ApplyFileProxy E refresh e n =
     (if isImplicitRoute (en_ID e) then
        (True, n\<lparr>pn_table := refresh (en_ID e) (pn_store n) (pn_table n), pn_cache := invalidateRouteCache (en_ID e) (pn_cache n)\<rparr>)
      else if \<not> en_Enabled e then
        (True, n\<lparr>pn_table := snd (Delete (en_ID e) (pn_table n)), pn_cache := invalidateRouteCache (en_ID e) (pn_cache n)\<rparr>)
      else (case ParseRoute E e of
              Inl _ \<Rightarrow> (False, n)
            | Inr r \<Rightarrow> (True, n\<lparr>pn_table := Upsert r (pn_table n), pn_cache := invalidateRouteCache (en_ID e) (pn_cache n)\<rparr>)))"

definition removeFileProxy ::
  "pipe_env \<Rightarrow> (string \<Rightarrow> proxy_store \<Rightarrow> Table \<Rightarrow> Table) \<Rightarrow> go_time \<Rightarrow> string \<Rightarrow> go_time \<Rightarrow> proxy_node \<Rightarrow> proxy_node" where
  "removeFileProxy E refresh now i dt n =
     (let s1 = RecordTombstone now i dt (snd (DeleteProdByID (pe_peek E) i (pn_store n)))
      in n\<lparr>pn_store := s1,
           pn_table := (if isImplicitRoute i then refresh i s1 (pn_table n) else snd (Delete i (pn_table n))),
           pn_cache := invalidateRouteCache i (pn_cache n)\<rparr>)"

definition loadProductionProxies :: "pipe_env \<Rightarrow> (string \<Rightarrow> proxy_store \<Rightarrow> Table \<Rightarrow> Table) \<Rightarrow> proxy_node \<Rightarrow> proxy_node" where
  "loadProductionProxies E refresh n =
     (case ListProd (pn_store n) of
        (es, s1) \<Rightarrow>
          fold (\<lambda>e n. if \<not> en_Enabled e then n
                      else (case ParseRoute E e of
                              Inl _ \<Rightarrow> n
                            | Inr r \<Rightarrow>
                                if isImplicitRoute (en_ID e)
                                then n\<lparr>pn_table := refresh (en_ID e) (pn_store n) (pn_table n), pn_cache := invalidateRouteCache (en_ID e) (pn_cache n)\<rparr>
                                else n\<lparr>pn_table := Upsert r (pn_table n)\<rparr>)) es (n\<lparr>pn_store := s1\<rparr>))"

section \<open>Exchange between the gateways of a group\<close>

record proxyReplica =
  rp_Proxies :: "Envelope list"
  rp_Tombstones :: "(string \<times> go_time) list"

definition proxyReplicaDoc :: "go_time \<Rightarrow> proxy_store \<Rightarrow> proxyReplica \<times> proxy_store" where
  "proxyReplicaDoc now s = (case ListProd s of (es, s1) \<Rightarrow> (\<lparr>rp_Proxies = es, rp_Tombstones = readTombstones now s1\<rparr>, s1))"

text \<open>\<open>local\<close>, the map built from \<open>ListProd\<close>, and \<open>tombs\<close> are kept beside the node, as the code keeps them.\<close>

record merge_state =
  mg_node :: proxy_node
  mg_local :: "(string, Envelope) gomap"
  mg_tombs :: "(string, go_time) gomap"
  mg_changed :: nat

definition merge_tombstone ::
  "pipe_env \<Rightarrow> (string \<Rightarrow> proxy_store \<Rightarrow> Table \<Rightarrow> Table) \<Rightarrow> go_time \<Rightarrow> string \<times> go_time \<Rightarrow> merge_state \<Rightarrow> merge_state" where
  "merge_tombstone E refresh now t m =
     (case t of (i, dt) \<Rightarrow>
        if i = [] then m
        else (case gm_get (mg_local m) i of
                Some cur \<Rightarrow>
                  if dt \<le> en_UpdatedAt cur then m
                  else m\<lparr>mg_node := removeFileProxy E refresh now i dt (mg_node m), mg_local := gm_del i (mg_local m),
                         mg_tombs := gm_set i dt (mg_tombs m), mg_changed := Suc (mg_changed m)\<rparr>
              | None \<Rightarrow>
                  if (case gm_get (mg_tombs m) i of None \<Rightarrow> True | Some prev \<Rightarrow> prev < dt)
                  then m\<lparr>mg_node := (mg_node m)\<lparr>pn_store := RecordTombstone now i dt (pn_store (mg_node m))\<rparr>,
                         mg_tombs := gm_set i dt (mg_tombs m)\<rparr>
                  else m))"

definition merge_proxy ::
  "pipe_env \<Rightarrow> (string \<Rightarrow> proxy_store \<Rightarrow> Table \<Rightarrow> Table) \<Rightarrow> go_time \<Rightarrow> Envelope \<Rightarrow> merge_state \<Rightarrow> merge_state" where
  "merge_proxy E refresh now e m =
     (if en_ID e = [] \<or> en_Status e \<noteq> StatusProduction then m
      else if (case gm_get (mg_tombs m) (en_ID e) of None \<Rightarrow> False | Some dt \<Rightarrow> en_UpdatedAt e \<le> dt) then m
      else if (case gm_get (mg_local m) (en_ID e) of None \<Rightarrow> False | Some cur \<Rightarrow> en_UpdatedAt e \<le> en_UpdatedAt cur) then m
      else if en_Enabled e \<and> \<not> isImplicitRoute (en_ID e) \<and> (case ParseRoute E e of Inl _ \<Rightarrow> True | Inr _ \<Rightarrow> False) then m
      else (case WriteProd (pe_peek E) e (pn_store (mg_node m)) of
              (Some err, _) \<Rightarrow> m
            | (None, s1) \<Rightarrow>
                (let s2 = (case gm_get (mg_local m) (en_ID e) of None \<Rightarrow> s1 | Some cur \<Rightarrow> RemoveProdIfRenamed (pe_peek E) cur e s1);
                     s3 = ClearTombstone now (en_ID e) s2
                 in m\<lparr>mg_node := snd (ApplyFileProxy E refresh e ((mg_node m)\<lparr>pn_store := s3\<rparr>)),
                      mg_tombs := gm_del (en_ID e) (mg_tombs m), mg_changed := Suc (mg_changed m)\<rparr>)))"

definition mergeProxyReplica ::
  "pipe_env \<Rightarrow> (string \<Rightarrow> proxy_store \<Rightarrow> Table \<Rightarrow> Table) \<Rightarrow> go_time \<Rightarrow> proxyReplica \<Rightarrow> proxy_node \<Rightarrow> nat \<times> proxy_node" where
  "mergeProxyReplica E refresh now doc n =
     (case ListProd (pn_store n) of
        (es, s1) \<Rightarrow>
          (let m0 = \<lparr>mg_node = n\<lparr>pn_store := s1\<rparr>, mg_local = fold (\<lambda>e l. gm_set (en_ID e) e l) es [],
                     mg_tombs = readTombstones now s1, mg_changed = 0\<rparr>;
               m1 = fold (merge_tombstone E refresh now) (rp_Tombstones doc) m0;
               m2 = fold (merge_proxy E refresh now) (rp_Proxies doc) m1
           in (mg_changed m2, if 0 < mg_changed m2 then (mg_node m2)\<lparr>pn_cache := invalidateDispatchCache (pn_cache (mg_node m2))\<rparr> else mg_node m2)))"

end
