(* ===== verification/Proxy_Store_Properties.thy ===== *)
theory Proxy_Store_Properties
  imports Proxy_Pipeline
begin

text \<open>
  The files of proxies as a map from identifiers to envelopes: every operation refines it as long as no two proxies share
  the name of a file, and what happens when they do.
\<close>

section \<open>Well-formed directories\<close>

definition dir_ok :: "(string \<Rightarrow> string) \<Rightarrow> directory \<Rightarrow> bool" where
  "dir_ok peek d \<longleftrightarrow>
     gm_ok d \<and> (\<forall>n e. gm_get d n = Some e \<longrightarrow> n = ProdPathFor peek e \<and> en_ID e \<noteq> [])
     \<and> (\<forall>n n' e e'. gm_get d n = Some e \<longrightarrow> gm_get d n' = Some e' \<longrightarrow> en_ID e = en_ID e' \<longrightarrow> n = n')"

definition view :: "directory \<Rightarrow> string \<Rightarrow> Envelope option" where
  "view d i = find (\<lambda>e. en_ID e = i) (map snd d)"

definition index_ok :: "(string, string) gomap \<Rightarrow> directory \<Rightarrow> bool" where
  "index_ok idx d \<longleftrightarrow> (\<forall>i n. gm_get idx i = Some n \<longleftrightarrow> (\<exists>e. gm_get d n = Some e \<and> en_ID e = i))"

definition list_ok :: "Envelope list \<Rightarrow> directory \<Rightarrow> bool" where
  "list_ok l d \<longleftrightarrow> set l = snd ` set d \<and> distinct (map en_ID l)"

definition store_ok :: "(string \<Rightarrow> string) \<Rightarrow> proxy_store \<Rightarrow> bool" where
  "store_ok peek s \<longleftrightarrow>
     dir_ok peek (px_prod s) \<and> (case px_index s of None \<Rightarrow> True | Some idx \<Rightarrow> index_ok idx (px_prod s))
     \<and> (case px_list s of None \<Rightarrow> True | Some l \<Rightarrow> list_ok l (px_prod s))"

lemma dir_okD:
  assumes "dir_ok peek d"
  shows "gm_ok d" "gm_get d n = Some e \<Longrightarrow> n = ProdPathFor peek e" "gm_get d n = Some e \<Longrightarrow> en_ID e \<noteq> []"
    "gm_get d n = Some e \<Longrightarrow> gm_get d n' = Some e' \<Longrightarrow> en_ID e = en_ID e' \<Longrightarrow> n = n'"
  using assms unfolding dir_ok_def by blast+

lemma view_Some: "dir_ok peek d \<Longrightarrow> view d i = Some e \<longleftrightarrow> (\<exists>n. gm_get d n = Some e \<and> en_ID e = i)"
proof -
  assume d: "dir_ok peek d"
  have mem: "e \<in> set (map snd d) \<longleftrightarrow> (\<exists>n. gm_get d n = Some e)" for e
    using gm_get_mem [OF dir_okD(1) [OF d]] by force
  show ?thesis
  proof
    assume "view d i = Some e"
    then have "e \<in> set (map snd d)" "en_ID e = i" unfolding view_def find_Some_iff by (auto dest: nth_mem)
    then show "\<exists>n. gm_get d n = Some e \<and> en_ID e = i" using mem by blast
  next
    assume "\<exists>n. gm_get d n = Some e \<and> en_ID e = i"
    then obtain n where n: "gm_get d n = Some e" "en_ID e = i" by blast
    then have "view d i \<noteq> None" using mem unfolding view_def find_None_iff by blast
    then obtain e' where e': "view d i = Some e'" by blast
    then have "e' \<in> set (map snd d)" "en_ID e' = i" unfolding view_def find_Some_iff by (auto dest: nth_mem)
    then obtain n' where "gm_get d n' = Some e'" using mem by blast
    then show "view d i = Some e" using dir_okD(4) [OF d n(1), of n' e'] n e' \<open>en_ID e' = i\<close> by simp
  qed
qed

lemma view_None: "dir_ok peek d \<Longrightarrow> view d i = None \<longleftrightarrow> (\<forall>n e. gm_get d n = Some e \<longrightarrow> en_ID e \<noteq> i)"
proof -
  assume d: "dir_ok peek d"
  have "view d i = None \<longleftrightarrow> (\<forall>e. view d i \<noteq> Some e)" by simp
  also have "\<dots> \<longleftrightarrow> (\<forall>n e. gm_get d n = Some e \<longrightarrow> en_ID e \<noteq> i)" unfolding view_Some [OF d] by blast
  finally show ?thesis .
qed

lemma view_eqI:
  assumes d: "dir_ok peek d" and f: "\<And>e. f = Some e \<longleftrightarrow> (\<exists>n. gm_get d n = Some e \<and> en_ID e = i)"
  shows "view d i = f"
proof (cases f)
  case None
  have "view d i \<noteq> Some e" for e unfolding view_Some [OF d] using f [of e] None by simp
  then show ?thesis using None option.exhaust [of "view d i"] by metis
next
  case (Some e)
  then show ?thesis using f [of e] view_Some [OF d, of i e] by simp
qed

section \<open>Names end in yaml\<close>

lemma HasSuffix_append: "HasSuffix (xs @ ys) ys"
  by (simp add: HasSuffix_def)

lemma ProdFilename_yaml: "\<exists>stem. ProdFilenameTyped h i t = stem @ ''.yaml''"
proof -
  have "\<exists>stem. x @ ''.yaml'' = stem @ ''.yaml''" for x :: string by blast
  moreover have "ProdFilenameTyped h i t \<in> {(''stream_'' @ sanitizeID i) @ ''.yaml'', (SanitizeHost h @ ''_'' @ ToLower (TrimSpace t)) @ ''.yaml'',
      (''proxy_'' @ sanitizeID i) @ ''.yaml'', SanitizeHost h @ ''.yaml''}"
    by (simp add: ProdFilenameTyped_def Let_def)
  ultimately show ?thesis by auto
qed

lemma no_json: "dir_ok peek d \<Longrightarrow> gm_get d (x @ ''.json'') = None"
proof (cases "gm_get d (x @ ''.json'')")
  case (Some e)
  assume "dir_ok peek d"
  then have "x @ ''.json'' = ProdPathFor peek e" using dir_okD(2) [OF _ Some] by blast
  then obtain stem where "x @ ''.json'' = stem @ ''.yaml''" using ProdFilename_yaml unfolding ProdPathFor_def by metis
  then have "rev (x @ ''.json'') = rev (stem @ ''.yaml'')" by simp
  then show ?thesis by simp
qed

lemma readEnvelope_get: "dir_ok peek d \<Longrightarrow> readEnvelope d n = gm_get d n"
  by (simp add: readEnvelope_def no_json split: option.split)

section \<open>Reading\<close>

lemma fold_index:
  "distinct (map (\<lambda>(n, e). en_ID e) es) \<Longrightarrow>
   gm_get (fold (\<lambda>(n, e) idx. gm_set (en_ID e) n idx) es idx) i = Some n \<longleftrightarrow>
     (\<exists>e. (n, e) \<in> set es \<and> en_ID e = i) \<or> (gm_get idx i = Some n \<and> i \<notin> (\<lambda>(n, e). en_ID e) ` set es)"
proof (induction es arbitrary: idx)
  case Nil
  then show ?case by simp
next
  case (Cons x es)
  obtain m f where x [simp]: "x = (m, f)" by (cases x)
  have fresh: "en_ID f \<notin> (\<lambda>(n, e). en_ID e) ` set es" and ds: "distinct (map (\<lambda>(n, e). en_ID e) es)"
    using Cons.prems by simp_all
  have other: "(\<exists>e. (n, e) \<in> set es \<and> en_ID e = i) \<Longrightarrow> i \<in> (\<lambda>(n, e). en_ID e) ` set es" by force
  show ?case
  proof (cases "en_ID f = i")
    case True
    then have "i \<notin> (\<lambda>(n, e). en_ID e) ` set es" using fresh by simp
    moreover from this have "\<not> (\<exists>e. (n, e) \<in> set es \<and> en_ID e = i)" using other by (rule contrapos_nn)
    ultimately show ?thesis using True by (auto simp: Cons.IH [OF ds])
  next
    case False
    then show ?thesis by (auto simp: Cons.IH [OF ds])
  qed
qed

lemma filter_all_yaml:
  assumes "dir_ok peek d"
  shows "filter (\<lambda>(name, e). (HasSuffix name ''.yaml'' \<or> HasSuffix name ''.json'') \<and> en_ID e \<noteq> []) d = d"
proof -
  have "HasSuffix n ''.yaml'' \<and> en_ID e \<noteq> []" if "(n, e) \<in> set d" for n e
  proof -
    have "gm_get d n = Some e" using that gm_get_mem [OF dir_okD(1) [OF assms]] by blast
    then have "n = ProdPathFor peek e" "en_ID e \<noteq> []" using dir_okD(2,3) [OF assms] by blast+
    then show ?thesis using ProdFilename_yaml HasSuffix_append unfolding ProdPathFor_def by metis
  qed
  then show ?thesis by (auto intro!: filter_True)
qed

lemma dir_ids_distinct:
  assumes d: "dir_ok peek d"
  shows "distinct (map (\<lambda>(n, e). en_ID e) d)"
proof -
  have "inj_on (\<lambda>(n, e). en_ID e) (set d)"
  proof (rule inj_onI)
    fix x y assume xy: "x \<in> set d" "y \<in> set d" "(case x of (n, e) \<Rightarrow> en_ID e) = (case y of (n, e) \<Rightarrow> en_ID e)"
    obtain n e where x: "x = (n, e)" by (cases x)
    obtain n' e' where y: "y = (n', e')" by (cases y)
    have g: "gm_get d n = Some e" "gm_get d n' = Some e'" using xy x y gm_get_mem [OF dir_okD(1) [OF d]] by simp_all
    have "n = n'" by (rule dir_okD(4) [OF d g]) (use xy x y in simp)
    then show "x = y" using g x y by simp
  qed
  moreover have "distinct d" using dir_okD(1) [OF d] by (simp add: gm_ok_def distinct_map)
  ultimately show ?thesis by (simp add: distinct_map)
qed

lemma buildIndex_ok:
  assumes d: "dir_ok peek d"
  shows "index_ok (fst (buildIndexAndCache d)) d" "list_ok (snd (buildIndexAndCache d)) d"
proof -
  have "gm_get (fold (\<lambda>(n, e) idx. gm_set (en_ID e) n idx) d []) i = Some n \<longleftrightarrow> (\<exists>e. gm_get d n = Some e \<and> en_ID e = i)" for i n
    unfolding fold_index [OF dir_ids_distinct [OF d]] by (simp add: gm_get_mem [OF dir_okD(1) [OF d]])
  then show "index_ok (fst (buildIndexAndCache d)) d"
    by (simp add: index_ok_def buildIndexAndCache_def filter_all_yaml [OF d] Let_def)
  have "map en_ID (map snd d) = map (\<lambda>(n, e). en_ID e) d" by (simp add: case_prod_unfold)
  then show "list_ok (snd (buildIndexAndCache d)) d"
    using dir_ids_distinct [OF d] by (simp only: list_ok_def buildIndexAndCache_def filter_all_yaml [OF d] Let_def snd_conv set_map)
qed

lemma store_okI:
  assumes "dir_ok peek (px_prod s)" "\<And>idx. px_index s = Some idx \<Longrightarrow> index_ok idx (px_prod s)"
    "\<And>l. px_list s = Some l \<Longrightarrow> list_ok l (px_prod s)"
  shows "store_ok peek s"
  using assms by (simp add: store_ok_def split: option.split)

lemma store_okD:
  assumes "store_ok peek s"
  shows "dir_ok peek (px_prod s)" "px_index s = Some idx \<Longrightarrow> index_ok idx (px_prod s)" "px_list s = Some l \<Longrightarrow> list_ok l (px_prod s)"
  using assms by (simp_all add: store_ok_def)

text \<open>Building the index changes the memory of the store only.\<close>

definition same_files :: "proxy_store \<Rightarrow> proxy_store \<Rightarrow> bool" where
  "same_files s s' \<longleftrightarrow> px_prod s' = px_prod s \<and> px_tombs s' = px_tombs s \<and> px_revs s' = px_revs s"

lemma index_built_ok:
  assumes "store_ok peek s" "buildIndexAndCache (px_prod s) = (idx, l)"
  shows "store_ok peek (s\<lparr>px_index := Some idx, px_list := Some l\<rparr>)" "index_ok idx (px_prod s)" "list_ok l (px_prod s)"
  using buildIndex_ok [OF store_okD(1) [OF assms(1)]] store_okD(1) [OF assms(1)] assms(2) by (simp_all add: store_ok_def)

lemma ListProd_ok:
  assumes "store_ok peek s"
  shows "list_ok (fst (ListProd s)) (px_prod s)" "store_ok peek (snd (ListProd s))" "same_files s (snd (ListProd s))"
proof -
  obtain idx l where b: "buildIndexAndCache (px_prod s) = (idx, l)" by (cases "buildIndexAndCache (px_prod s)")
  show "list_ok (fst (ListProd s)) (px_prod s)" "store_ok peek (snd (ListProd s))" "same_files s (snd (ListProd s))"
    using index_built_ok [OF assms b] store_okD(3) [OF assms] assms b
    by (cases "px_list s"; simp add: ListProd_def same_files_def)+
qed

lemma lookup_ok:
  assumes "store_ok peek s"
  obtains idx s1 where "lookupIDIndex i s = (gm_get idx i, s1)" "index_ok idx (px_prod s)" "store_ok peek s1" "same_files s s1"
proof (cases "px_index s")
  case None
  obtain idx l where b: "buildIndexAndCache (px_prod s) = (idx, l)" by (cases "buildIndexAndCache (px_prod s)")
  show ?thesis
    by (rule that [of idx "s\<lparr>px_index := Some idx, px_list := Some l\<rparr>"])
      (use None b index_built_ok [OF assms b] in \<open>simp_all add: lookupIDIndex_def same_files_def\<close>)
next
  case (Some idx)
  show ?thesis
    by (rule that [of idx s]) (use Some store_okD(2) [OF assms Some] assms in \<open>simp_all add: lookupIDIndex_def same_files_def\<close>)
qed

lemma ReadProdByID_ok:
  assumes "store_ok peek s"
  shows "fst (ReadProdByID i s) = view (px_prod s) i" "store_ok peek (snd (ReadProdByID i s))" "same_files s (snd (ReadProdByID i s))"
proof -
  have d: "dir_ok peek (px_prod s)" by (rule store_okD(1) [OF assms])
  obtain idx s1 where look: "lookupIDIndex i s = (gm_get idx i, s1)" "index_ok idx (px_prod s)" "store_ok peek s1" "same_files s s1"
    by (rule lookup_ok [OF assms])
  have same: "px_prod s1 = px_prod s" using look(4) by (simp add: same_files_def)
  have "fst (ReadProdByID i s) = view (px_prod s) i \<and> snd (ReadProdByID i s) = s1"
  proof (cases "gm_get idx i")
    case None
    have "gm_get (px_prod s) n = Some e \<Longrightarrow> en_ID e \<noteq> i" for n e
      using None look(2) unfolding index_ok_def by (metis option.distinct(1))
    then have "view (px_prod s) i = None" by (simp add: view_None [OF d])
    then show ?thesis using None by (simp add: ReadProdByID_def look(1))
  next
    case (Some n)
    then obtain e where e: "gm_get (px_prod s) n = Some e" "en_ID e = i" using look(2) unfolding index_ok_def by blast
    then have "view (px_prod s) i = Some e" using view_Some [OF d] by blast
    then show ?thesis using Some e by (simp add: ReadProdByID_def look(1) same readEnvelope_get [OF d])
  qed
  then show "fst (ReadProdByID i s) = view (px_prod s) i" "store_ok peek (snd (ReadProdByID i s))" "same_files s (snd (ReadProdByID i s))"
    using look by simp_all
qed


section \<open>Changing one proxy\<close>

text \<open>
  \<open>put\<close> and \<open>dropped\<close> say what a directory holds afterwards; writing and deleting amount to them when the names of the files
  of different proxies are apart.
\<close>

definition put :: "(string \<Rightarrow> string) \<Rightarrow> Envelope \<Rightarrow> directory \<Rightarrow> directory \<Rightarrow> bool" where
  "put peek e d d' \<longleftrightarrow>
     gm_ok d' \<and> (\<forall>n x. gm_get d' n = Some x \<longleftrightarrow> (n = ProdPathFor peek e \<and> x = e) \<or> (gm_get d n = Some x \<and> en_ID x \<noteq> en_ID e))"

definition dropped :: "string \<Rightarrow> directory \<Rightarrow> directory \<Rightarrow> bool" where
  "dropped i d d' \<longleftrightarrow> gm_ok d' \<and> (\<forall>n x. gm_get d' n = Some x \<longleftrightarrow> gm_get d n = Some x \<and> en_ID x \<noteq> i)"

lemma putD: "put peek e d d' \<Longrightarrow> gm_get d' n = Some x \<longleftrightarrow> (n = ProdPathFor peek e \<and> x = e) \<or> (gm_get d n = Some x \<and> en_ID x \<noteq> en_ID e)"
  by (simp add: put_def)

lemma droppedD: "dropped i d d' \<Longrightarrow> gm_get d' n = Some x \<longleftrightarrow> gm_get d n = Some x \<and> en_ID x \<noteq> i"
  by (simp add: dropped_def)

lemma put_ok:
  assumes d: "dir_ok peek d" and p: "put peek e d d'" and i: "en_ID e \<noteq> []"
  shows "dir_ok peek d'" "view d' j = (if j = en_ID e then Some e else view d j)"
    "index_ok idx d \<Longrightarrow> index_ok (gm_set (en_ID e) (ProdPathFor peek e) idx) d'"
proof -
  note get = putD [OF p]
  show d': "dir_ok peek d'"
    unfolding dir_ok_def
  proof (intro conjI allI impI)
    show "gm_ok d'" using p by (simp add: put_def)
    fix n x assume x: "gm_get d' n = Some x"
    show "n = ProdPathFor peek x" using x dir_okD(2) [OF d, of n x] by (auto simp: get)
    show "en_ID x \<noteq> []" using x i dir_okD(3) [OF d, of n x] by (auto simp: get)
    fix n' x' assume x': "gm_get d' n' = Some x'" "en_ID x = en_ID x'"
    show "n = n'" using x x' dir_okD(4) [OF d, of n x n' x'] by (auto simp: get)
  qed
  show "view d' j = (if j = en_ID e then Some e else view d j)"
  proof (rule view_eqI [OF d'])
    fix x
    show "(if j = en_ID e then Some e else view d j) = Some x \<longleftrightarrow> (\<exists>n. gm_get d' n = Some x \<and> en_ID x = j)"
      using view_Some [OF d, of j x] by (auto simp: get)
  qed
  assume ix: "index_ok idx d"
  show "index_ok (gm_set (en_ID e) (ProdPathFor peek e) idx) d'"
    unfolding index_ok_def
  proof (intro allI)
    fix k n
    have "gm_get idx k = Some n \<longleftrightarrow> (\<exists>x. gm_get d n = Some x \<and> en_ID x = k)" using ix by (simp add: index_ok_def)
    then show "gm_get (gm_set (en_ID e) (ProdPathFor peek e) idx) k = Some n \<longleftrightarrow> (\<exists>x. gm_get d' n = Some x \<and> en_ID x = k)"
      by (auto simp: get)
  qed
qed

lemma dropped_ok:
  assumes d: "dir_ok peek d" and p: "dropped i d d'"
  shows "dir_ok peek d'" "view d' j = (if j = i then None else view d j)" "index_ok idx d \<Longrightarrow> index_ok (gm_del i idx) d'"
proof -
  note get = droppedD [OF p]
  show d': "dir_ok peek d'"
    unfolding dir_ok_def
  proof (intro conjI allI impI)
    show "gm_ok d'" using p by (simp add: dropped_def)
    fix n x assume x: "gm_get d' n = Some x"
    show "n = ProdPathFor peek x" using x dir_okD(2) [OF d, of n x] by (simp add: get)
    show "en_ID x \<noteq> []" using x dir_okD(3) [OF d, of n x] by (simp add: get)
    fix n' x' assume x': "gm_get d' n' = Some x'" "en_ID x = en_ID x'"
    show "n = n'" using x x' dir_okD(4) [OF d, of n x n' x'] by (simp add: get)
  qed
  show "view d' j = (if j = i then None else view d j)"
  proof (rule view_eqI [OF d'])
    fix x
    show "(if j = i then None else view d j) = Some x \<longleftrightarrow> (\<exists>n. gm_get d' n = Some x \<and> en_ID x = j)"
      using view_Some [OF d, of j x] by (auto simp: get)
  qed
  assume ix: "index_ok idx d"
  show "index_ok (gm_del i idx) d'"
    unfolding index_ok_def
  proof (intro allI)
    fix k n
    have "gm_get idx k = Some n \<longleftrightarrow> (\<exists>x. gm_get d n = Some x \<and> en_ID x = k)" using ix by (simp add: index_ok_def)
    then show "gm_get (gm_del i idx) k = Some n \<longleftrightarrow> (\<exists>x. gm_get d' n = Some x \<and> en_ID x = k)"
      by (auto simp: get)
  qed
qed

text \<open>What a proxy of this kind may touch: its file and the names an earlier version gave to it.\<close>

definition names_of :: "(string \<Rightarrow> string) \<Rightarrow> Envelope \<Rightarrow> string set" where
  "names_of peek e = insert (ProdPathFor peek e) (set (obsoleteProdPaths peek e (ProdPathFor peek e)))"

definition apart :: "(string \<Rightarrow> string) \<Rightarrow> Envelope set \<Rightarrow> bool" where
  "apart peek U \<longleftrightarrow> (\<forall>e\<in>U. \<forall>x\<in>U. en_ID e \<noteq> en_ID x \<longrightarrow> ProdPathFor peek x \<notin> names_of peek e)"

definition live_in :: "directory \<Rightarrow> Envelope set" where
  "live_in d = {x. \<exists>n. gm_get d n = Some x}"

lemma apartD: "apart peek U \<Longrightarrow> e \<in> U \<Longrightarrow> x \<in> U \<Longrightarrow> en_ID e \<noteq> en_ID x \<Longrightarrow> ProdPathFor peek x \<notin> names_of peek e"
  by (simp add: apart_def)

lemma drop_legacy_get:
  assumes "\<And>x. gm_get d (x @ ''.json'') = None"
  shows "gm_get (drop_legacy e l d) n = Some x \<longleftrightarrow> gm_get d n = Some x \<and> \<not> (n = l \<and> en_ID x = en_ID e)"
    "gm_get (drop_legacy e l d) (y @ ''.json'') = None" "gm_ok d \<Longrightarrow> gm_ok (drop_legacy e l d)"
proof -
  have r: "readEnvelope d l = gm_get d l" by (simp add: readEnvelope_def assms split: option.split)
  have "n \<noteq> TrimSuffix l ''.yaml'' @ ''.json''" if "gm_get d n = Some x" using that assms [of "TrimSuffix l ''.yaml''"] by auto
  then show "gm_get (drop_legacy e l d) n = Some x \<longleftrightarrow> gm_get d n = Some x \<and> \<not> (n = l \<and> en_ID x = en_ID e)"
    by (cases "gm_get d l") (auto simp: drop_legacy_def r)
  show "gm_get (drop_legacy e l d) (y @ ''.json'') = None" by (cases "gm_get d l") (simp_all add: drop_legacy_def r assms)
  show "gm_ok d \<Longrightarrow> gm_ok (drop_legacy e l d)" by (cases "gm_get d l") (simp_all add: drop_legacy_def r)
qed

lemma drop_all_get:
  assumes "\<And>x. gm_get d (x @ ''.json'') = None" "gm_ok d"
  shows "(gm_get (fold (drop_legacy e) ls d) n = Some x \<longleftrightarrow> gm_get d n = Some x \<and> \<not> (n \<in> set ls \<and> en_ID x = en_ID e)) \<and> gm_ok (fold (drop_legacy e) ls d)"
  using assms
proof (induction ls arbitrary: d)
  case Nil
  then show ?case by simp
next
  case (Cons l ls)
  note step = drop_legacy_get [OF Cons.prems(1)]
  show ?case
    using Cons.IH [of "drop_legacy e l d"] step(2) step(3) [OF Cons.prems(2)] step(1) [of e l n x] by auto
qed

lemma fold_gm_del: "gm_get (fold gm_del ls d) n = (if n \<in> set ls then None else gm_get d n)" "gm_ok d \<Longrightarrow> gm_ok (fold gm_del ls d)"
  by (induction ls arbitrary: d) auto

definition replace_prod :: "(string \<Rightarrow> string) \<Rightarrow> Envelope \<Rightarrow> Envelope option \<Rightarrow> proxy_store \<Rightarrow> proxy_store" where
  "replace_prod peek e old s =
     (let s1 = snd (WriteProd peek e s) in case old of None \<Rightarrow> s1 | Some c \<Rightarrow> RemoveProdIfRenamed peek c e s1)"

definition production :: "Envelope \<Rightarrow> bool" where
  "production e \<longleftrightarrow> prod_copy e = e \<and> Validate e = None"

lemma production_ID: "production e \<Longrightarrow> en_ID e \<noteq> []"
  by (auto simp: production_def Validate_def split: if_splits)

lemma production_status: "production e \<Longrightarrow> en_Status e = StatusProduction"
  unfolding production_def prod_copy_def
  by (metis Envelope.select_convs(6) Envelope.surjective Envelope.update_convs(1,3,6,10))

lemma WriteProd_production:
  "production e \<Longrightarrow>
   WriteProd peek e s =
     (None, s\<lparr>px_prod := fold (drop_legacy e) (obsoleteProdPaths peek e (ProdPathFor peek e)) (gm_set (ProdPathFor peek e) e (px_prod s)),
              px_index := map_option (gm_set (en_ID e) (ProdPathFor peek e)) (px_index s), px_list := None\<rparr>)"
  by (simp add: WriteProd_def production_def Let_def)

lemma path_not_json: "ProdPathFor peek e \<noteq> x @ ''.json''"
proof
  assume "ProdPathFor peek e = x @ ''.json''"
  moreover obtain stem where "ProdPathFor peek e = stem @ ''.yaml''" using ProdFilename_yaml unfolding ProdPathFor_def by metis
  ultimately have "rev (x @ ''.json'') = rev (stem @ ''.yaml'')" by simp
  then show False by simp
qed

lemma write_put:
  assumes d: "dir_ok peek (px_prod s)" and e: "production e" and free: "\<And>n x. gm_get (px_prod s) n = Some x \<Longrightarrow> en_ID x \<noteq> en_ID e \<Longrightarrow> n \<noteq> ProdPathFor peek e"
  shows "put peek e (px_prod s) (px_prod (replace_prod peek e (view (px_prod s) (en_ID e)) s))"
proof -
  let ?p = "ProdPathFor peek e" and ?d = "px_prod s"
  let ?ls = "obsoleteProdPaths peek e ?p"
  have json: "gm_get (gm_set ?p e ?d) (x @ ''.json'') = None" for x using no_json [OF d, of x] path_not_json [of peek e x] by simp
  have ok: "gm_ok (gm_set ?p e ?d)" using dir_okD(1) [OF d] by simp
  have ls: "?p \<notin> set ?ls" by (simp add: obsoleteProdPaths_def)
  define w where "w = fold (drop_legacy e) ?ls (gm_set ?p e ?d)"
  have w: "gm_get w n = Some x \<longleftrightarrow> gm_get (gm_set ?p e ?d) n = Some x \<and> \<not> (n \<in> set ?ls \<and> en_ID x = en_ID e)" "gm_ok w" for n x
    using drop_all_get [OF json ok, of e ?ls n x] by (simp_all add: w_def)
  have written: "px_prod (snd (WriteProd peek e s)) = w" by (simp add: WriteProd_production [OF e] w_def)
  show ?thesis
  proof (cases "view ?d (en_ID e)")
    case None
    have other: "gm_get ?d n = Some x \<Longrightarrow> en_ID x \<noteq> en_ID e" for n x using None view_None [OF d] by metis
    have "gm_get w n = Some x \<longleftrightarrow> (n = ?p \<and> x = e) \<or> (gm_get ?d n = Some x \<and> en_ID x \<noteq> en_ID e)" for n x
      using w(1) [of n x] free [of n x] ls other [of n x] by auto
    then have "put peek e ?d w" using w(2) by (simp add: put_def)
    then show ?thesis using None by (simp add: replace_prod_def written)
  next
    case (Some c)
    obtain m where m: "gm_get ?d m = Some c" "en_ID c = en_ID e" using Some view_Some [OF d] by blast
    have mp: "m = ProdPathFor peek c" by (rule dir_okD(2) [OF d m(1)])
    have only: "n = m" if "gm_get ?d n = Some x" "en_ID x = en_ID e" for n x
      using dir_okD(4) [OF d that(1) m(1)] that(2) m(2) by simp
    show ?thesis
    proof (cases "m = ?p")
      case True
      have "gm_get w n = Some x \<longleftrightarrow> (n = ?p \<and> x = e) \<or> (gm_get ?d n = Some x \<and> en_ID x \<noteq> en_ID e)" for n x
        using w(1) [of n x] free [of n x] ls only [of n x] True by auto
      then have "put peek e ?d w" using w(2) by (simp add: put_def)
      then show ?thesis using Some True mp m by (simp add: replace_prod_def written RemoveProdIfRenamed_def)
    next
      case False
      have "gm_get (gm_del m w) n = Some x \<longleftrightarrow> (n = ?p \<and> x = e) \<or> (gm_get ?d n = Some x \<and> en_ID x \<noteq> en_ID e)" for n x
        using w(1) [of n x] free [of n x] ls only [of n x] False m by auto
      then have "put peek e ?d (gm_del m w)" using w(2) by (simp add: put_def)
      then show ?thesis using Some False mp m by (simp add: replace_prod_def RemoveProdIfRenamed_def written)
    qed
  qed
qed

lemma replace_prod_memory:
  assumes "production e"
  shows "px_index (replace_prod peek e old s) = map_option (gm_set (en_ID e) (ProdPathFor peek e)) (px_index s)"
    "px_list (replace_prod peek e old s) = None" "px_tombs (replace_prod peek e old s) = px_tombs s" "px_revs (replace_prod peek e old s) = px_revs s"
  by (cases old; simp add: replace_prod_def WriteProd_production [OF assms] RemoveProdIfRenamed_def Let_def; fail)+

lemma replace_refines:
  assumes s: "store_ok peek s" and e: "production e" and U: "apart peek U" "live_in (px_prod s) \<subseteq> U" "e \<in> U"
    and r: "r = replace_prod peek e (view (px_prod s) (en_ID e)) s"
  shows "store_ok peek r" "view (px_prod r) = (view (px_prod s))(en_ID e \<mapsto> e)" "live_in (px_prod r) \<subseteq> U"
    "px_tombs r = px_tombs s" "px_revs r = px_revs s"
proof -
  have d: "dir_ok peek (px_prod s)" by (rule store_okD(1) [OF s])
  have free: "n \<noteq> ProdPathFor peek e" if "gm_get (px_prod s) n = Some x" "en_ID x \<noteq> en_ID e" for n x
  proof -
    have "x \<in> U" using U(2) that(1) by (auto simp: live_in_def)
    then show ?thesis using apartD [OF U(1,3)] that dir_okD(2) [OF d that(1)] by (auto simp: names_of_def)
  qed
  have put: "put peek e (px_prod s) (px_prod r)" unfolding r by (rule write_put [OF d e free])
  note ok = put_ok [OF d put production_ID [OF e]]
  show "store_ok peek r"
    using ok(1,3) store_okD(2) [OF s] by (intro store_okI) (auto simp: r replace_prod_memory [OF e])
  show "view (px_prod r) = (view (px_prod s))(en_ID e \<mapsto> e)" by (rule ext) (simp add: ok(2))
  show "live_in (px_prod r) \<subseteq> U" using U(2,3) by (auto simp: live_in_def putD [OF put])
qed (simp_all add: r replace_prod_memory [OF e])

lemma delete_refines:
  assumes s: "store_ok peek s" and U: "apart peek U" "live_in (px_prod s) \<subseteq> U" and r: "r = snd (DeleteProdByID peek i s)"
  shows "store_ok peek r" "view (px_prod r) = (view (px_prod s))(i := None)" "live_in (px_prod r) \<subseteq> U"
    "px_tombs r = px_tombs s" "px_revs r = px_revs s" "fst (DeleteProdByID peek i s) \<longleftrightarrow> view (px_prod s) i \<noteq> None"
proof -
  have d: "dir_ok peek (px_prod s)" by (rule store_okD(1) [OF s])
  obtain old s1 where R: "ReadProdByID i s = (old, s1)" by (cases "ReadProdByID i s")
  have old: "old = view (px_prod s) i" and s1: "store_ok peek s1" and same: "px_prod s1 = px_prod s" "px_tombs s1 = px_tombs s" "px_revs s1 = px_revs s"
    using ReadProdByID_ok [OF s, of i] R by (simp_all add: same_files_def)
  have "dropped i (px_prod s) (px_prod r) \<and> px_tombs r = px_tombs s \<and> px_revs r = px_revs s \<and> store_ok peek r
      \<and> (fst (DeleteProdByID peek i s) \<longleftrightarrow> view (px_prod s) i \<noteq> None)"
  proof (cases old)
    case None
    have "gm_get (px_prod s) n = Some x \<Longrightarrow> en_ID x \<noteq> i" for n x using None old view_None [OF d] by metis
    then have "dropped i (px_prod s) (px_prod s)" using dir_okD(1) [OF d] by (auto simp: dropped_def)
    then show ?thesis using None same s1 old by (simp add: r DeleteProdByID_def R)
  next
    case (Some e)
    let ?p = "ProdPathFor peek e"
    obtain m where m: "gm_get (px_prod s) m = Some e" "en_ID e = i" using Some old view_Some [OF d] by metis
    have mp: "m = ?p" by (rule dir_okD(2) [OF d m(1)])
    have eU: "e \<in> U" using U(2) m(1) by (auto simp: live_in_def)
    have del: "DeleteProdByID peek i s =
        (True, s1\<lparr>px_prod := fold gm_del (obsoleteProdPaths peek e ?p) (gm_del ?p (px_prod s)),
                  px_index := map_option (gm_del i) (px_index s1), px_list := None\<rparr>)"
      using m(1) mp by (simp add: DeleteProdByID_def R Some same(1) removeFile_def Let_def)
    have prod: "px_prod r = fold gm_del (obsoleteProdPaths peek e ?p) (gm_del ?p (px_prod s))"
      and index: "px_index r = map_option (gm_del i) (px_index s1)" "px_list r = None"
      and rest: "px_tombs r = px_tombs s" "px_revs r = px_revs s" "fst (DeleteProdByID peek i s)"
      by (simp_all add: r del same)
    have "n \<notin> names_of peek e" if n: "gm_get (px_prod s) n = Some x" "en_ID x \<noteq> i" for n x
    proof -
      have "x \<in> U" using U(2) n(1) by (auto simp: live_in_def)
      then show ?thesis using apartD [OF U(1) eU] n(2) m(2) dir_okD(2) [OF d n(1)] by auto
    qed
    moreover have "n = ?p" if "gm_get (px_prod s) n = Some x" "en_ID x = i" for n x
      using dir_okD(4) [OF d that(1) m(1)] that(2) m(2) mp by simp
    ultimately have drop: "dropped i (px_prod s) (px_prod r)"
      using fold_gm_del(2) [of "gm_del ?p (px_prod s)"] dir_okD(1) [OF d]
      by (auto simp: dropped_def prod fold_gm_del(1) names_of_def split: if_splits)
    have "store_ok peek r"
      using dropped_ok(1,3) [OF d drop] store_okD(2) [OF s1] same(1) by (intro store_okI) (auto simp: index)
    moreover have "view (px_prod s) i \<noteq> None" using old Some by (metis option.distinct(1))
    ultimately show ?thesis using drop rest by (intro conjI) simp_all
  qed
  then have drop: "dropped i (px_prod s) (px_prod r)" and rest: "px_tombs r = px_tombs s" "px_revs r = px_revs s" "store_ok peek r"
      "fst (DeleteProdByID peek i s) \<longleftrightarrow> view (px_prod s) i \<noteq> None" by simp_all
  show "view (px_prod r) = (view (px_prod s))(i := None)" by (rule ext) (simp add: dropped_ok(2) [OF d drop])
  show "live_in (px_prod r) \<subseteq> U" using U(2) by (auto simp: live_in_def droppedD [OF drop])
  show "px_tombs r = px_tombs s" "px_revs r = px_revs s" "store_ok peek r" "fst (DeleteProdByID peek i s) \<longleftrightarrow> view (px_prod s) i \<noteq> None"
    by (fact rest)+
qed

end
