(* ===== verification/Proxy_Group.thy ===== *)
theory Proxy_Group
  imports Proxy_Store_Properties
begin

text \<open>
  What the exchange of proxies between the gateways of a group does to each of them, seen per identifier as a live version and a
  date of deletion, and that two gateways that exchange their proxies end with the same ones, the newest.
\<close>

section \<open>Deletions\<close>

definition tomb :: "go_time \<Rightarrow> proxy_store \<Rightarrow> string \<Rightarrow> go_time option" where
  "tomb now s i = gm_get (readTombstones now s) i"

lemma tomb_get:
  "gm_ok (px_tombs s) \<Longrightarrow>
   tomb now s i = (case gm_get (px_tombs s) i of None \<Rightarrow> None | Some t \<Rightarrow> if now - TombstoneRetention < t then Some t else None)"
  by (simp add: tomb_def readTombstones_def gm_ok_def map_of_filter split: option.split)

lemma gm_ok_tombs: "gm_ok (px_tombs s) \<Longrightarrow> gm_ok (readTombstones now s)"
  by (simp add: readTombstones_def gm_ok_def distinct_map_filter)

lemma tomb_recent: "gm_ok (px_tombs s) \<Longrightarrow> tomb now s i = Some t \<Longrightarrow> now - TombstoneRetention < t"
  by (simp add: tomb_get split: option.splits if_splits)

lemma RecordTombstone_ok:
  assumes "gm_ok (px_tombs s)" "now - TombstoneRetention < dt"
  shows "tomb now (RecordTombstone now i dt s) = (tomb now s)(i \<mapsto> (case tomb now s i of None \<Rightarrow> dt | Some p \<Rightarrow> max p dt))"
    "gm_ok (px_tombs (RecordTombstone now i dt s))" "px_prod (RecordTombstone now i dt s) = px_prod s"
    "store_ok peek (RecordTombstone now i dt s) = store_ok peek s"
proof -
  have set: "tomb now (s\<lparr>px_tombs := gm_set i dt (readTombstones now s)\<rparr>) = (tomb now s)(i \<mapsto> dt)"
  proof
    fix j
    have "gm_ok (px_tombs (s\<lparr>px_tombs := gm_set i dt (readTombstones now s)\<rparr>))" using gm_ok_tombs [OF assms(1)] by simp
    from tomb_get [OF this, of now j]
    show "tomb now (s\<lparr>px_tombs := gm_set i dt (readTombstones now s)\<rparr>) j = ((tomb now s)(i \<mapsto> dt)) j"
      using assms(2) tomb_recent [OF assms(1), of now j] by (cases "tomb now s j") (simp_all add: tomb_def [symmetric])
  qed
  show "tomb now (RecordTombstone now i dt s) = (tomb now s)(i \<mapsto> (case tomb now s i of None \<Rightarrow> dt | Some p \<Rightarrow> max p dt))"
  proof (cases "tomb now s i")
    case None
    then show ?thesis using set by (simp add: RecordTombstone_def Let_def tomb_def [symmetric])
  next
    case (Some p)
    then show ?thesis using set by (simp add: RecordTombstone_def Let_def tomb_def [symmetric] max_def fun_upd_idem)
  qed
  show "gm_ok (px_tombs (RecordTombstone now i dt s))" "px_prod (RecordTombstone now i dt s) = px_prod s"
    "store_ok peek (RecordTombstone now i dt s) = store_ok peek s"
    using assms(1) gm_ok_tombs [OF assms(1), of now]
    by (simp_all add: RecordTombstone_def Let_def store_ok_def split: option.split)
qed

lemma ClearTombstone_ok:
  assumes "gm_ok (px_tombs s)"
  shows "tomb now (ClearTombstone now i s) = (tomb now s)(i := None)"
    "gm_ok (px_tombs (ClearTombstone now i s))" "px_prod (ClearTombstone now i s) = px_prod s"
    "store_ok peek (ClearTombstone now i s) = store_ok peek s"
proof -
  have "tomb now (s\<lparr>px_tombs := gm_del i (readTombstones now s)\<rparr>) = (tomb now s)(i := None)"
  proof
    fix j
    have "gm_ok (px_tombs (s\<lparr>px_tombs := gm_del i (readTombstones now s)\<rparr>))" using gm_ok_tombs [OF assms(1)] by simp
    from tomb_get [OF this, of now j]
    show "tomb now (s\<lparr>px_tombs := gm_del i (readTombstones now s)\<rparr>) j = ((tomb now s)(i := None)) j"
      using tomb_recent [OF assms(1), of now j] by (cases "tomb now s j") (simp_all add: tomb_def [symmetric])
  qed
  then show "tomb now (ClearTombstone now i s) = (tomb now s)(i := None)"
    by (cases "tomb now s i") (simp_all add: ClearTombstone_def Let_def tomb_def [symmetric] fun_upd_idem)
  show "gm_ok (px_tombs (ClearTombstone now i s))" "px_prod (ClearTombstone now i s) = px_prod s"
    "store_ok peek (ClearTombstone now i s) = store_ok peek s"
    using assms gm_ok_tombs [OF assms, of now] by (simp_all add: ClearTombstone_def Let_def store_ok_def split: option.split)
qed

section \<open>A member seen per identifier\<close>

type_synonym proxy_state = "Envelope option \<times> go_time option"

definition proxy_state :: "go_time \<Rightarrow> proxy_store \<Rightarrow> string \<Rightarrow> proxy_state" where
  "proxy_state now s i = (view (px_prod s) i, tomb now s i)"

definition adopt_deletion :: "go_time \<Rightarrow> proxy_state \<Rightarrow> proxy_state" where
  "adopt_deletion dt p =
     (case p of
        (Some c, t) \<Rightarrow> if dt \<le> en_UpdatedAt c then p else (None, Some dt)
      | (None, t) \<Rightarrow> if (case t of None \<Rightarrow> True | Some d \<Rightarrow> d < dt) then (None, Some dt) else p)"

definition adopt_version :: "Envelope \<Rightarrow> proxy_state \<Rightarrow> proxy_state" where
  "adopt_version e p =
     (if (case snd p of None \<Rightarrow> False | Some d \<Rightarrow> en_UpdatedAt e \<le> d) \<or> (case fst p of None \<Rightarrow> False | Some c \<Rightarrow> en_UpdatedAt e \<le> en_UpdatedAt c)
      then p else (Some e, None))"

definition known :: "pipe_env \<Rightarrow> Envelope set \<Rightarrow> bool" where
  "known E U \<longleftrightarrow>
     apart (pe_peek E) U
     \<and> (\<forall>e\<in>U. production e \<and> (if en_Enabled e \<and> \<not> isImplicitRoute (en_ID e) then \<exists>r. ParseRoute E e = Inr r else True))"

definition member_ok :: "pipe_env \<Rightarrow> go_time \<Rightarrow> Envelope set \<Rightarrow> proxy_store \<Rightarrow> bool" where
  "member_ok E now U s \<longleftrightarrow>
     store_ok (pe_peek E) s \<and> live_in (px_prod s) \<subseteq> U \<and> gm_ok (px_tombs s)
     \<and> (\<forall>i c d. view (px_prod s) i = Some c \<longrightarrow> tomb now s i = Some d \<longrightarrow> d < en_UpdatedAt c)"

definition merge_ok :: "pipe_env \<Rightarrow> go_time \<Rightarrow> Envelope set \<Rightarrow> merge_state \<Rightarrow> bool" where
  "merge_ok E now U m \<longleftrightarrow> member_ok E now U (pn_store (mg_node m)) \<and> (\<forall>i. gm_get (mg_tombs m) i = tomb now (pn_store (mg_node m)) i)"

lemma member_okD:
  assumes "member_ok E now U s"
  shows "store_ok (pe_peek E) s" "live_in (px_prod s) \<subseteq> U" "gm_ok (px_tombs s)"
    "view (px_prod s) i = Some c \<Longrightarrow> tomb now s i = Some d \<Longrightarrow> d < en_UpdatedAt c"
  using assms unfolding member_ok_def by blast+

lemma member_okI:
  assumes "store_ok (pe_peek E) s" "live_in (px_prod s) \<subseteq> U" "gm_ok (px_tombs s)"
    "\<And>i c d. view (px_prod s) i = Some c \<Longrightarrow> tomb now s i = Some d \<Longrightarrow> d < en_UpdatedAt c"
  shows "member_ok E now U s"
  using assms unfolding member_ok_def by blast

lemma merge_okD:
  assumes "merge_ok E now U m"
  shows "member_ok E now U (pn_store (mg_node m))" "gm_get (mg_tombs m) i = tomb now (pn_store (mg_node m)) i"
  using assms by (simp_all add: merge_ok_def)

lemma removeFileProxy_ok:
  assumes k: "known E U" and m: "member_ok E now U (pn_store n)" and dt: "now - TombstoneRetention < dt"
    and later: "\<And>d. tomb now (pn_store n) i = Some d \<Longrightarrow> d < dt"
    and r_def: "r = pn_store (removeFileProxy E refresh now i dt n)"
  shows "member_ok E now U r" "view (px_prod r) = (view (px_prod (pn_store n)))(i := None)" "tomb now r = (tomb now (pn_store n))(i \<mapsto> dt)"
proof -
  let ?s = "pn_store n"
  define s1 where "s1 = snd (DeleteProdByID (pe_peek E) i ?s)"
  have ap: "apart (pe_peek E) U" using k by (simp add: known_def)
  note del = delete_refines [OF member_okD(1) [OF m] ap member_okD(2) [OF m] s1_def]
  have r: "r = RecordTombstone now i dt s1" by (simp add: r_def removeFileProxy_def Let_def s1_def)
  have ok1: "gm_ok (px_tombs s1)" using del(4) member_okD(3) [OF m] by simp
  have tomb1: "tomb now s1 = tomb now ?s" by (rule ext) (simp add: tomb_def readTombstones_def del(4))
  note rec = RecordTombstone_ok [where i = i, OF ok1 dt]
  show v: "view (px_prod r) = (view (px_prod ?s))(i := None)" by (simp add: r rec(3) del(2))
  show t: "tomb now r = (tomb now ?s)(i \<mapsto> dt)"
    using later by (simp add: r rec(1) tomb1 max_def split: option.split) fastforce
  show "member_ok E now U r"
  proof (rule member_okI)
    fix j c d assume "view (px_prod r) j = Some c" "tomb now r j = Some d"
    then show "d < en_UpdatedAt c" using member_okD(4) [OF m, of j c d] by (simp add: v t split: if_splits)
  qed (use r rec del in simp_all)
qed

lemma merge_tombstone_ok:
  assumes k: "known E U" and m: "merge_ok E now U m" and dt: "now - TombstoneRetention < dt" and i: "i \<noteq> []"
    and loc: "\<And>j. gm_get (mg_local m) j = view (px_prod (pn_store (mg_node m))) j"
    and m'_def: "m' = merge_tombstone E refresh now (i, dt) m"
  shows "merge_ok E now U m'" "gm_get (mg_local m') j = view (px_prod (pn_store (mg_node m'))) j"
    "proxy_state now (pn_store (mg_node m')) j =
       (if j = i then adopt_deletion dt (proxy_state now (pn_store (mg_node m)) i) else proxy_state now (pn_store (mg_node m)) j)"
proof -
  let ?s = "pn_store (mg_node m)"
  note mem = merge_okD(1) [OF m]
  have "merge_ok E now U m' \<and> gm_get (mg_local m') j = view (px_prod (pn_store (mg_node m'))) j
      \<and> proxy_state now (pn_store (mg_node m')) j = (if j = i then adopt_deletion dt (proxy_state now ?s i) else proxy_state now ?s j)"
  proof (cases "view (px_prod ?s) i")
    case (Some c)
    show ?thesis
    proof (cases "dt \<le> en_UpdatedAt c")
      case True
      then show ?thesis using m loc i Some by (simp add: m'_def merge_tombstone_def adopt_deletion_def proxy_state_def)
    next
      case False
      have later: "d < dt" if "tomb now ?s i = Some d" for d using member_okD(4) [OF mem Some that] False by simp
      note rm = removeFileProxy_ok [where refresh = refresh, OF k mem dt later refl]
      show ?thesis
        using False i Some loc rm merge_okD(2) [OF m]
        by (simp add: m'_def merge_tombstone_def merge_ok_def adopt_deletion_def proxy_state_def)
    qed
  next
    case None
    note rec = RecordTombstone_ok [where i = i, OF member_okD(3) [OF mem] dt]
    show ?thesis
    proof (cases "case tomb now ?s i of None \<Rightarrow> True | Some d \<Rightarrow> d < dt")
      case False
      then show ?thesis using m loc i None merge_okD(2) [OF m] by (simp add: m'_def merge_tombstone_def adopt_deletion_def proxy_state_def)
    next
      case True
      then have t: "tomb now (RecordTombstone now i dt ?s) = (tomb now ?s)(i \<mapsto> dt)"
        by (simp add: rec(1) max_def split: option.splits)
      have "member_ok E now U (RecordTombstone now i dt ?s)"
      proof (rule member_okI)
        fix l c d assume "view (px_prod (RecordTombstone now i dt ?s)) l = Some c" "tomb now (RecordTombstone now i dt ?s) l = Some d"
        then show "d < en_UpdatedAt c" using member_okD(4) [OF mem, of l c d] None by (simp add: rec(3) t split: if_splits)
      qed (use rec member_okD [OF mem] in simp_all)
      then show ?thesis
        using True i None loc t rec(3) merge_okD(2) [OF m]
        by (simp add: m'_def merge_tombstone_def merge_ok_def adopt_deletion_def proxy_state_def)
    qed
  qed
  then show "merge_ok E now U m'" "gm_get (mg_local m') j = view (px_prod (pn_store (mg_node m'))) j"
    "proxy_state now (pn_store (mg_node m')) j = (if j = i then adopt_deletion dt (proxy_state now ?s i) else proxy_state now ?s j)"
    by blast+
qed

section \<open>Versions\<close>

lemma ApplyFileProxy_store [simp]: "pn_store (snd (ApplyFileProxy E refresh e n)) = pn_store n"
  by (simp add: ApplyFileProxy_def split: sum.split)

lemma merge_proxy_ok:
  assumes k: "known E U" and m: "merge_ok E now U m" and e: "e \<in> U"
    and loc: "gm_get (mg_local m) (en_ID e) = view (px_prod (pn_store (mg_node m))) (en_ID e)"
    and m'_def: "m' = merge_proxy E refresh now e m"
  shows "merge_ok E now U m'" "mg_local m' = mg_local m"
    "proxy_state now (pn_store (mg_node m')) j =
       (if j = en_ID e then adopt_version e (proxy_state now (pn_store (mg_node m)) j) else proxy_state now (pn_store (mg_node m)) j)"
proof -
  let ?s = "pn_store (mg_node m)" and ?i = "en_ID e"
  note mem = merge_okD(1) [OF m]
  have pr: "production e" and parse: "\<not> (en_Enabled e \<and> \<not> isImplicitRoute ?i \<and> (case ParseRoute E e of Inl _ \<Rightarrow> True | Inr _ \<Rightarrow> False))"
    using k e by (auto simp: known_def split: if_splits)
  have ap: "apart (pe_peek E) U" using k by (simp add: known_def)
  let ?skip = "(case tomb now ?s ?i of None \<Rightarrow> False | Some d \<Rightarrow> en_UpdatedAt e \<le> d) \<or> (case view (px_prod ?s) ?i of None \<Rightarrow> False | Some c \<Rightarrow> en_UpdatedAt e \<le> en_UpdatedAt c)"
  have "merge_ok E now U m' \<and> mg_local m' = mg_local m
      \<and> proxy_state now (pn_store (mg_node m')) j = (if j = ?i then adopt_version e (proxy_state now ?s j) else proxy_state now ?s j)"
  proof (cases ?skip)
    case True
    then have "m' = m" by (auto simp: m'_def merge_proxy_def merge_okD(2) [OF m] loc)
    then show ?thesis using True m by (auto simp: adopt_version_def proxy_state_def)
  next
    case False
    define r where "r = replace_prod (pe_peek E) e (view (px_prod ?s) ?i) ?s"
    note rep = replace_refines [OF member_okD(1) [OF mem] pr ap member_okD(2) [OF mem] e r_def]
    have ok: "gm_ok (px_tombs r)" using rep(4) member_okD(3) [OF mem] by simp
    have t: "tomb now r = tomb now ?s" by (rule ext) (simp add: tomb_def readTombstones_def rep(4))
    note cl = ClearTombstone_ok [where i = ?i and now = now, OF ok]
    define n where "n = ApplyFileProxy E refresh e ((mg_node m)\<lparr>pn_store := ClearTombstone now ?i r\<rparr>)"
    have rep_eq: "(case view (px_prod ?s) ?i of None \<Rightarrow> snd (WriteProd (pe_peek E) e ?s)
        | Some cur \<Rightarrow> RemoveProdIfRenamed (pe_peek E) cur e (snd (WriteProd (pe_peek E) e ?s))) = r"
      by (simp add: r_def replace_prod_def Let_def)
    have written: "WriteProd (pe_peek E) e ?s = (None, snd (WriteProd (pe_peek E) e ?s))"
      by (simp add: WriteProd_production [OF pr])
    have guards: "\<not> (?i = [] \<or> en_Status e \<noteq> StatusProduction)" using production_ID [OF pr] production_status [OF pr] by simp
    have m': "m' = m\<lparr>mg_node := snd n, mg_tombs := gm_del ?i (mg_tombs m), mg_changed := Suc (mg_changed m)\<rparr>"
      unfolding m'_def merge_proxy_def merge_okD(2) [OF m] loc
      by (subst written) (use guards False parse rep_eq in \<open>simp add: Let_def n_def; blast\<close>)
    have st: "pn_store (mg_node m') = ClearTombstone now ?i r" by (simp add: m' n_def)
    have v: "view (px_prod (pn_store (mg_node m'))) = (view (px_prod ?s))(?i \<mapsto> e)" by (simp add: st cl(3) rep(2))
    have t': "tomb now (pn_store (mg_node m')) = (tomb now ?s)(?i := None)" by (simp add: st cl(1) t)
    have "member_ok E now U (pn_store (mg_node m'))"
    proof (rule member_okI)
      fix l c d assume "view (px_prod (pn_store (mg_node m'))) l = Some c" "tomb now (pn_store (mg_node m')) l = Some d"
      then show "d < en_UpdatedAt c" using member_okD(4) [OF mem, of l c d] by (simp add: v t' split: if_splits)
    qed (use cl(2,3,4) rep(1,3) in \<open>simp_all add: st\<close>)
    moreover have "\<forall>i. gm_get (mg_tombs m') i = tomb now (pn_store (mg_node m')) i"
      unfolding t' by (simp add: m' merge_okD(2) [OF m])
    moreover have "adopt_version e (proxy_state now ?s ?i) = (Some e, None)"
      unfolding adopt_version_def proxy_state_def fst_conv snd_conv using False by (rule if_not_P)
    ultimately show ?thesis by (simp add: merge_ok_def proxy_state_def v t') (simp add: m')
  qed
  then show "merge_ok E now U m'" "mg_local m' = mg_local m"
    "proxy_state now (pn_store (mg_node m')) j = (if j = ?i then adopt_version e (proxy_state now ?s j) else proxy_state now ?s j)"
    by blast+
qed

section \<open>A whole document\<close>

lemma merge_tombstones_ok:
  assumes k: "known E U" and m: "merge_ok E now U m"
    and loc: "\<And>j. gm_get (mg_local m) j = view (px_prod (pn_store (mg_node m))) j"
    and ts: "distinct (map fst ts)" "\<forall>(i, dt)\<in>set ts. now - TombstoneRetention < dt"
  shows "merge_ok E now U (fold (merge_tombstone E refresh now) ts m)
    \<and> (\<forall>j. gm_get (mg_local (fold (merge_tombstone E refresh now) ts m)) j = view (px_prod (pn_store (mg_node (fold (merge_tombstone E refresh now) ts m)))) j)
    \<and> (\<forall>j. j \<noteq> [] \<longrightarrow> proxy_state now (pn_store (mg_node (fold (merge_tombstone E refresh now) ts m))) j =
            (case map_of ts j of None \<Rightarrow> proxy_state now (pn_store (mg_node m)) j | Some dt \<Rightarrow> adopt_deletion dt (proxy_state now (pn_store (mg_node m)) j)))"
  using m loc ts
proof (induction ts arbitrary: m)
  case Nil
  then show ?case by simp
next
  case (Cons t ts)
  obtain i dt where t: "t = (i, dt)" by (cases t)
  have dt: "now - TombstoneRetention < dt" using Cons.prems(4) t by simp
  have ds: "distinct (map fst ts)" using Cons.prems(3) by simp
  have all: "\<forall>(i, dt)\<in>set ts. now - TombstoneRetention < dt" using Cons.prems(4) by simp
  have fresh: "map_of ts i = None" using Cons.prems(3) t by (simp add: map_of_eq_None_iff)
  show ?case
  proof (cases "i = []")
    case True
    then have eq: "fold (merge_tombstone E refresh now) (t # ts) m = fold (merge_tombstone E refresh now) ts m"
      by (simp add: t merge_tombstone_def)
    show ?thesis unfolding eq using Cons.IH [OF Cons.prems(1,2) ds all] True t by simp
  next
    case False
    define m1 where "m1 = merge_tombstone E refresh now (i, dt) m"
    note step = merge_tombstone_ok [OF k Cons.prems(1) dt False Cons.prems(2) m1_def]
    note rest = Cons.IH [OF step(1,2) ds all]
    have eq: "fold (merge_tombstone E refresh now) (t # ts) m = fold (merge_tombstone E refresh now) ts m1" by (simp add: t m1_def)
    have "proxy_state now (pn_store (mg_node (fold (merge_tombstone E refresh now) ts m1))) j =
        (case map_of (t # ts) j of None \<Rightarrow> proxy_state now (pn_store (mg_node m)) j | Some dt \<Rightarrow> adopt_deletion dt (proxy_state now (pn_store (mg_node m)) j))"
      if "j \<noteq> []" for j
      using rest that step(3) [of j] fresh t by (cases "j = i") (simp_all split: option.split)
    then show ?thesis unfolding eq by (intro conjI allI impI) (use rest in simp_all)
  qed
qed

lemma find_fresh: "distinct (map en_ID (e # es)) \<Longrightarrow> find (\<lambda>x. en_ID x = en_ID e) es = None"
  by (simp add: find_None_iff) (metis image_eqI)

lemma merge_proxies_ok:
  assumes k: "known E U" and m: "merge_ok E now U m"
    and loc: "\<And>e. e \<in> set es \<Longrightarrow> gm_get (mg_local m) (en_ID e) = view (px_prod (pn_store (mg_node m))) (en_ID e)"
    and es: "distinct (map en_ID es)" "set es \<subseteq> U"
  shows "merge_ok E now U (fold (merge_proxy E refresh now) es m)
    \<and> (\<forall>j. proxy_state now (pn_store (mg_node (fold (merge_proxy E refresh now) es m))) j =
        (case find (\<lambda>e. en_ID e = j) es of
           None \<Rightarrow> proxy_state now (pn_store (mg_node m)) j | Some e \<Rightarrow> adopt_version e (proxy_state now (pn_store (mg_node m)) j)))"
  using m loc es
proof (induction es arbitrary: m)
  case Nil
  then show ?case by simp
next
  case (Cons e es)
  have e: "e \<in> U" "gm_get (mg_local m) (en_ID e) = view (px_prod (pn_store (mg_node m))) (en_ID e)" using Cons.prems by simp_all
  define m1 where "m1 = merge_proxy E refresh now e m"
  note step = merge_proxy_ok [OF k Cons.prems(1) e m1_def]
  note none = find_fresh [OF Cons.prems(3)]
  then have fresh: "x \<in> set es \<Longrightarrow> en_ID x \<noteq> en_ID e" for x by (simp add: find_None_iff)
  have local1: "gm_get (mg_local m1) (en_ID x) = view (px_prod (pn_store (mg_node m1))) (en_ID x)" if "x \<in> set es" for x
    using step(3) [of "en_ID x"] fresh [OF that] Cons.prems(2) [of x] that by (simp add: step(2) proxy_state_def)
  have "distinct (map en_ID es)" "set es \<subseteq> U" using Cons.prems(3,4) by simp_all
  note rest = Cons.IH [OF step(1) local1 this]
  have eq: "fold (merge_proxy E refresh now) (e # es) m = fold (merge_proxy E refresh now) es m1" by (simp add: m1_def)
  show ?case
    unfolding eq
  proof (intro conjI allI)
    fix j
    show "proxy_state now (pn_store (mg_node (fold (merge_proxy E refresh now) es m1))) j =
        (case find (\<lambda>e. en_ID e = j) (e # es) of
           None \<Rightarrow> proxy_state now (pn_store (mg_node m)) j | Some e \<Rightarrow> adopt_version e (proxy_state now (pn_store (mg_node m)) j))"
      using rest step(3) [of j] none by (cases "j = en_ID e") (simp_all split: option.split)
  qed (use rest in blast)
qed

lemma find_view:
  assumes d: "dir_ok peek d" and l: "list_ok l d"
  shows "find (\<lambda>e. en_ID e = j) l = view d j" "e \<in> set l \<Longrightarrow> view d (en_ID e) = Some e" "set l = live_in d"
proof -
  have mem: "e \<in> set l \<longleftrightarrow> (\<exists>n. gm_get d n = Some e)" for e
  proof -
    have "set l = snd ` set d" using l by (simp add: list_ok_def)
    then have "e \<in> set l \<longleftrightarrow> (\<exists>n. (n, e) \<in> set d)" by force
    then show ?thesis unfolding gm_get_mem [OF dir_okD(1) [OF d]] .
  qed
  have v: "view d i = Some e \<longleftrightarrow> e \<in> set l \<and> en_ID e = i" for i e unfolding view_Some [OF d] mem by blast
  show "find (\<lambda>e. en_ID e = j) l = view d j"
  proof (cases "find (\<lambda>e. en_ID e = j) l")
    case None
    then have "view d j \<noteq> Some e" for e by (simp add: v find_None_iff)
    then show ?thesis using None option.exhaust [of "view d j"] by metis
  next
    case (Some e)
    then have "e \<in> set l" "en_ID e = j" by (auto simp: find_Some_iff dest: nth_mem)
    then show ?thesis using Some v [of j e] by simp
  qed
  show "e \<in> set l \<Longrightarrow> view d (en_ID e) = Some e" by (simp add: v)
  show "set l = live_in d" by (auto simp: live_in_def mem)
qed

lemma fold_local:
  "distinct (map en_ID es) \<Longrightarrow>
   gm_get (fold (\<lambda>e l. gm_set (en_ID e) e l) es l) j = (case find (\<lambda>e. en_ID e = j) es of None \<Rightarrow> gm_get l j | Some e \<Rightarrow> Some e)"
proof (induction es arbitrary: l)
  case (Cons e es)
  note none = find_fresh [OF Cons.prems]
  have "distinct (map en_ID es)" using Cons.prems by simp
  note step = Cons.IH [OF this, of "gm_set (en_ID e) e l"]
  show ?case
  proof (cases "j = en_ID e")
    case True
    then show ?thesis using step none by simp
  next
    case False
    then show ?thesis using step by (simp split: option.split)
  qed
qed simp

lemma member_ok_same:
  assumes "member_ok E now U s" "store_ok (pe_peek E) s'" "same_files s s'"
  shows "member_ok E now U s'" "proxy_state now s' = proxy_state now s"
  using assms by (auto simp: member_ok_def same_files_def proxy_state_def tomb_def readTombstones_def fun_eq_iff)

text \<open>The exchange refines this function on states.\<close>

definition exchanged :: "proxy_state \<Rightarrow> proxy_state \<Rightarrow> proxy_state" where
  "exchanged theirs mine =
     (let p = (case snd theirs of None \<Rightarrow> mine | Some dt \<Rightarrow> adopt_deletion dt mine)
      in case fst theirs of None \<Rightarrow> p | Some e \<Rightarrow> adopt_version e p)"

definition pulled :: "pipe_env \<Rightarrow> (string \<Rightarrow> proxy_store \<Rightarrow> Table \<Rightarrow> Table) \<Rightarrow> go_time \<Rightarrow> proxy_node \<Rightarrow> proxy_node \<Rightarrow> proxy_node" where
  "pulled E refresh now peer n = snd (mergeProxyReplica E refresh now (fst (proxyReplicaDoc now (pn_store peer))) n)"

lemma exchange_state:
  assumes k: "known E U" and a: "member_ok E now U (pn_store n)" and b: "member_ok E now U (pn_store peer)"
  shows "member_ok E now U (pn_store (pulled E refresh now peer n))"
    "j \<noteq> [] \<Longrightarrow> proxy_state now (pn_store (pulled E refresh now peer n)) j =
       exchanged (proxy_state now (pn_store peer) j) (proxy_state now (pn_store n) j)"
proof -
  obtain es s1 where A: "ListProd (pn_store n) = (es, s1)" by (cases "ListProd (pn_store n)")
  obtain fs s2 where B: "ListProd (pn_store peer) = (fs, s2)" by (cases "ListProd (pn_store peer)")
  have A': "list_ok es (px_prod (pn_store n))" "store_ok (pe_peek E) s1" "same_files (pn_store n) s1"
    using ListProd_ok [OF member_okD(1) [OF a]] A by simp_all
  have B': "list_ok fs (px_prod (pn_store peer))" "store_ok (pe_peek E) s2" "same_files (pn_store peer) s2"
    using ListProd_ok [OF member_okD(1) [OF b]] B by simp_all
  note dA = store_okD(1) [OF member_okD(1) [OF a]] and dB = store_okD(1) [OF member_okD(1) [OF b]]
  note mA = member_ok_same [OF a A'(2,3)]
  let ?ts = "readTombstones now s2"
  have okB: "gm_ok (px_tombs s2)" using member_okD(3) [OF b] B'(3) by (simp add: same_files_def)
  have tB: "map_of ?ts j = tomb now (pn_store peer) j" for j
    using B'(3) by (simp add: tomb_def readTombstones_def same_files_def)
  have ts: "distinct (map fst ?ts)" using gm_ok_tombs [OF okB] by (simp add: gm_ok_def)
  have recent: "\<forall>(i, dt)\<in>set ?ts. now - TombstoneRetention < dt" by (simp add: readTombstones_def)
  define m0 where "m0 = \<lparr>mg_node = n\<lparr>pn_store := s1\<rparr>, mg_local = fold (\<lambda>e l. gm_set (en_ID e) e l) es [], mg_tombs = readTombstones now s1, mg_changed = 0\<rparr>"
  have m0: "merge_ok E now U m0" using mA(1) by (simp add: m0_def merge_ok_def tomb_def)
  have ids: "distinct (map en_ID es)" using A'(1) by (simp add: list_ok_def)
  have l0: "gm_get (mg_local m0) j = view (px_prod (pn_store (mg_node m0))) j" for j
    using A'(3) by (simp add: m0_def fold_local [OF ids] find_view(1) [OF dA A'(1)] same_files_def split: option.split)
  define m1 where "m1 = fold (merge_tombstone E refresh now) ?ts m0"
  note one = merge_tombstones_ok [where refresh = refresh, OF k m0 l0 ts recent, folded m1_def]
  have U: "set fs \<subseteq> U" using find_view(3) [OF dB B'(1)] member_okD(2) [OF b] by simp
  have idsB: "distinct (map en_ID fs)" using B'(1) by (simp add: list_ok_def)
  have m1: "merge_ok E now U m1" and l1: "\<And>e. e \<in> set fs \<Longrightarrow> gm_get (mg_local m1) (en_ID e) = view (px_prod (pn_store (mg_node m1))) (en_ID e)"
    using one by blast+
  define m2 where "m2 = fold (merge_proxy E refresh now) fs m1"
  note two = merge_proxies_ok [where refresh = refresh, OF k m1 l1 idsB U, folded m2_def]
  have st: "pn_store (pulled E refresh now peer n) = pn_store (mg_node m2)"
    by (simp add: pulled_def mergeProxyReplica_def proxyReplicaDoc_def A B Let_def m0_def m1_def m2_def)
  show "member_ok E now U (pn_store (pulled E refresh now peer n))" using two by (simp add: st merge_ok_def)
  assume j: "j \<noteq> []"
  have s0: "proxy_state now (pn_store (mg_node m0)) j = proxy_state now (pn_store n) j" using mA(2) by (simp add: m0_def)
  note one1 = one [THEN conjunct2, THEN conjunct2, rule_format, OF j] and two1 = two [THEN conjunct2, THEN spec [where x = j]]
  have peer: "proxy_state now (pn_store peer) j = (find (\<lambda>e. en_ID e = j) fs, map_of ?ts j)"
    by (simp add: proxy_state_def tB find_view(1) [OF dB B'(1)])
  show "proxy_state now (pn_store (pulled E refresh now peer n)) j = exchanged (proxy_state now (pn_store peer) j) (proxy_state now (pn_store n) j)"
    unfolding st peer exchanged_def fst_conv snd_conv Let_def one1 [unfolded s0, symmetric] by (rule two1)
qed

section \<open>Convergence\<close>

text \<open>No two versions, and no version and deletion, carry the same instant.\<close>

definition apart_in_time :: "proxy_state \<Rightarrow> proxy_state \<Rightarrow> bool" where
  "apart_in_time p q \<longleftrightarrow>
     (case (fst p, fst q) of (Some a, Some b) \<Rightarrow> (if en_UpdatedAt a = en_UpdatedAt b then a = b else True) | _ \<Rightarrow> True)
     \<and> (case (fst p, snd q) of (Some a, Some d) \<Rightarrow> en_UpdatedAt a \<noteq> d | _ \<Rightarrow> True)
     \<and> (case (snd p, fst q) of (Some d, Some b) \<Rightarrow> en_UpdatedAt b \<noteq> d | _ \<Rightarrow> True)"

definition state_ok :: "proxy_state \<Rightarrow> bool" where
  "state_ok p \<longleftrightarrow> (case p of (Some c, Some d) \<Rightarrow> d < en_UpdatedAt c | _ \<Rightarrow> True)"

definition at_most :: "proxy_state \<Rightarrow> go_time \<Rightarrow> bool" where
  "at_most p t \<longleftrightarrow> (case fst p of None \<Rightarrow> True | Some c \<Rightarrow> en_UpdatedAt c \<le> t) \<and> (case snd p of None \<Rightarrow> True | Some d \<Rightarrow> d \<le> t)"

lemma exchanged_newest:
  assumes "state_ok p" "state_ok q" "apart_in_time p q"
  shows "fst (exchanged q p) = Some e \<longleftrightarrow> (fst p = Some e \<or> fst q = Some e) \<and> at_most p (en_UpdatedAt e) \<and> at_most q (en_UpdatedAt e)"
proof -
  obtain a s b t where pq: "p = (a, s)" "q = (b, t)" by (cases p; cases q)
  show ?thesis
    using assms unfolding pq
    by (cases a; cases s; cases b; cases t)
      (auto simp: exchanged_def adopt_deletion_def adopt_version_def state_ok_def apart_in_time_def at_most_def split: if_splits)
qed

lemma exchanged_again:
  assumes "state_ok p" "state_ok q" "apart_in_time p q"
  shows "fst (exchanged p q) = fst (exchanged q p)" "fst (exchanged (exchanged q p) q) = fst (exchanged q p)"
proof -
  obtain a s b t where pq: "p = (a, s)" "q = (b, t)" by (cases p; cases q)
  show "fst (exchanged p q) = fst (exchanged q p)"
    using assms unfolding pq
    by (cases a; cases s; cases b; cases t)
      (auto simp: exchanged_def adopt_deletion_def adopt_version_def state_ok_def apart_in_time_def split: if_splits)
  show "fst (exchanged (exchanged q p) q) = fst (exchanged q p)"
    using assms unfolding pq
    by (cases a; cases s; cases b; cases t)
      (auto simp: exchanged_def adopt_deletion_def adopt_version_def state_ok_def apart_in_time_def split: if_splits)
qed

lemma member_state_ok: "member_ok E now U s \<Longrightarrow> state_ok (proxy_state now s i)"
  using member_okD(4) by (fastforce simp: state_ok_def proxy_state_def split: option.split)

lemma no_empty_id: "member_ok E now U s \<Longrightarrow> view (px_prod s) [] = None"
  using view_None [OF store_okD(1) [OF member_okD(1)]] dir_okD(3) [OF store_okD(1) [OF member_okD(1)]] by metis

lemma exchange_view:
  assumes k: "known E U" and a: "member_ok E now U (pn_store n)" and b: "member_ok E now U (pn_store peer)"
  shows "view (px_prod (pn_store (pulled E refresh now peer n))) i =
    (if i = [] then None else fst (exchanged (proxy_state now (pn_store peer) i) (proxy_state now (pn_store n) i)))"
proof (cases "i = []")
  case True
  then show ?thesis using no_empty_id [OF exchange_state(1) [OF k a b]] by simp
next
  case False
  then show ?thesis using arg_cong [OF exchange_state(2) [OF k a b False], of fst] by (simp add: proxy_state_def)
qed

lemma group_convergence:
  assumes k: "known E U" and a: "member_ok E now U (pn_store A)" and b: "member_ok E now U (pn_store B)"
    and ap: "\<And>i. apart_in_time (proxy_state now (pn_store A) i) (proxy_state now (pn_store B) i)"
    and after_def: "\<And>peer n i. after peer n i = view (px_prod (pn_store (pulled E refresh now peer n))) i"
  shows "after B A i = after A B i" "after (pulled E refresh now B A) B i = after B A i"
    "after B A i = Some e \<longleftrightarrow>
       (view (px_prod (pn_store A)) i = Some e \<or> view (px_prod (pn_store B)) i = Some e)
       \<and> at_most (proxy_state now (pn_store A) i) (en_UpdatedAt e) \<and> at_most (proxy_state now (pn_store B) i) (en_UpdatedAt e)"
proof -
  note ok = member_state_ok [OF a, of i] member_state_ok [OF b, of i] ap [of i]
  note again = exchanged_again [OF ok] and newest = exchanged_newest [OF ok, of e]
  note m1 = exchange_state(1) [where refresh = refresh, OF k a b]
  show "after B A i = after A B i"
    unfolding after_def exchange_view [OF k a b] exchange_view [OF k b a] using again(1) by simp
  show "after (pulled E refresh now B A) B i = after B A i"
  proof (cases "i = []")
    case False
    show ?thesis
      unfolding after_def exchange_view [OF k a b] exchange_view [OF k b m1] exchange_state(2) [OF k a b False] using again(2) by simp
  qed (simp add: after_def exchange_view [OF k a b] exchange_view [OF k b m1])
  show "after B A i = Some e \<longleftrightarrow>
       (view (px_prod (pn_store A)) i = Some e \<or> view (px_prod (pn_store B)) i = Some e)
       \<and> at_most (proxy_state now (pn_store A) i) (en_UpdatedAt e) \<and> at_most (proxy_state now (pn_store B) i) (en_UpdatedAt e)"
  proof (cases "i = []")
    case True
    then show ?thesis using no_empty_id [OF a] no_empty_id [OF b] by (simp add: after_def exchange_view [OF k a b])
  next
    case False
    then show ?thesis using newest by (simp add: after_def exchange_view [OF k a b] proxy_state_def)
  qed
qed

section \<open>Names that are not apart\<close>

definition demo_pipe :: pipe_env where
  "demo_pipe = \<lparr>pe_peek = (\<lambda>cfg. []),
     pe_route = (\<lambda>cfg. Some (zero_route\<lparr>rt_Backends := [demo_backend ''http://b'' 1]\<rparr>)),
     pe_url = (\<lambda>u. Some (''http'', ''b'')), pe_proxyproto = (\<lambda>p. True), pe_blocks = (\<lambda>r. []), pe_plugins = (\<lambda>r. []),
     pe_https = (\<lambda>cfg. cfg)\<rparr>"

definition demo_proxy :: "string \<Rightarrow> string \<Rightarrow> go_time \<Rightarrow> Envelope" where
  "demo_proxy i host t =
     \<lparr>en_SchemaVersion = 1, en_ID = i, en_Revision = [], en_Host = host, en_Enabled = True, en_Status = StatusProduction,
      en_CreatedAt = None, en_UpdatedAt = t, en_CreatedBy = [], en_DryRun = None, en_Config = ''config''\<rparr>"

lemma demo_names: "ProdFilename ''a.io'' i = ''a.io.yaml''" "ProdFilename ''*.a.io'' i = ''a.io.yaml''"
  by (simp_all add: ProdFilename_def ProdFilenameTyped_def SanitizeHost_def trim_chars_def host_safe_def isL4Type_def
      ToLower_def TrimSpace_def is_space_def lower_char_def Let_def)

lemma demo_paths: "ProdPathFor peek (demo_proxy i host t) = ProdFilenameTyped host i (peek ''config'')" if "peek ''config'' = []"
  using that by (simp add: ProdPathFor_def demo_proxy_def routeTypeFromConfig_def TrimSpace_def ToLower_def)

lemma demo_revision_names: "RevisionFilename ''w'' ''v1'' = ''w--v1.yaml''"
  by (simp add: RevisionFilename_def sanitizeID_def id_safe_def TrimSpace_def is_space_def Let_def)

definition wild_revision :: Envelope where
  "wild_revision = (demo_proxy ''w'' ''*.a.io'' 2)\<lparr>en_Revision := ''v1'', en_Status := StatusValidated,
     en_DryRun := Some \<lparr>dr_OK = True, dr_CheckedAt = Some 2, dr_Errors = []\<rparr>\<rparr>"

definition apex_store :: proxy_store where
  "apex_store = empty_proxy_store\<lparr>px_prod := [(''a.io.yaml'', demo_proxy ''apex'' ''a.io'' 1)], px_revs := [(''w--v1.yaml'', wild_revision)]\<rparr>"

lemmas path_eval = ProdPathFor_def routeTypeFromConfig_def ProdFilename_def ProdFilenameTyped_def SanitizeHost_def trim_chars_def host_safe_def isL4Type_def
  sanitizeID_def id_safe_def obsoleteProdPaths_def ToLower_def TrimSpace_def is_space_def lower_char_def Let_def

lemma demo_list: "ListProd apex_store = ([demo_proxy ''apex'' ''a.io'' 1],
    apex_store\<lparr>px_index := Some [(''apex'', ''a.io.yaml'')], px_list := Some [demo_proxy ''apex'' ''a.io'' 1]\<rparr>)"
  by (simp add: ListProd_def apex_store_def empty_proxy_store_def buildIndexAndCache_def HasSuffix_def demo_proxy_def Let_def)

lemma demo_dry_run: "dry_run_errors demo_pipe wild_revision [demo_proxy ''apex'' ''a.io'' 1] no_options = []"
  by (simp add: dry_run_errors_def ParseRoute_def wild_revision_def demo_proxy_def demo_pipe_def validateRouteBasics_def validateConflicts_def
      validateRefs_def no_options_def normalizeRouteType_def zero_route_def typed_def err_if_def isHTTPRoute_def dryrun_routeIsL4_def
      validateTrafficSettings_def demo_backend_def validateBackendURL_def contains_str_def peer_conflicts_def plain_name_def plain_aliases_def
      ToLower_def TrimSpace_def is_space_def lower_char_def maxBackendWeight_def Let_def)

text \<open>
  The wildcard and its apex have the same file: promoting the one removes the other from the directory, although the dry run sees no
  conflict between them.
\<close>

lemma wildcard_replaces_apex:
  "fst (Promote demo_pipe msg 5 ''w'' ''v1'' apex_store) = Inr (promoted 5 wild_revision)"
  "px_prod (snd (Promote demo_pipe msg 5 ''w'' ''v1'' apex_store)) = [(''a.io.yaml'', promoted 5 wild_revision)]"
proof -
  have read: "ReadRevision ''w'' ''v1'' apex_store = Some wild_revision"
    by (simp add: ReadRevision_def demo_revision_names readEnvelope_def apex_store_def)
  have peers: "collectPeers ''w'' apex_store = ([demo_proxy ''apex'' ''a.io'' 1], snd (ListProd apex_store))"
    by (simp add: collectPeers_def demo_list) (simp add: demo_proxy_def)
  have run: "dr_OK (RunDryRun demo_pipe msg 5 wild_revision [demo_proxy ''apex'' ''a.io'' 1] no_options)"
    by (simp add: RunDryRun_def demo_dry_run Let_def)
  have old: "ReadProdByID ''w'' (snd (ListProd apex_store)) = (None, snd (ListProd apex_store))"
    by (simp add: demo_list ReadProdByID_def lookupIDIndex_def)
  have status: "en_Status wild_revision = StatusValidated" "en_DryRun wild_revision = Some \<lparr>dr_OK = True, dr_CheckedAt = Some 2, dr_Errors = []\<rparr>"
    "StatusValidated \<noteq> StatusRejected"
    by (simp_all add: wild_revision_def status_eval)
  have copy: "prod_copy (promoted 5 wild_revision) = promoted 5 wild_revision" "Validate (promoted 5 wild_revision) = None"
    by (simp_all add: prod_copy_def promoted_def wild_revision_def demo_proxy_def Validate_def status_eval)
  have path: "ProdPathFor (pe_peek demo_pipe) (promoted 5 wild_revision) = ''a.io.yaml''"
    "obsoleteProdPaths (pe_peek demo_pipe) (promoted 5 wild_revision) ''a.io.yaml'' = [''stream_w.yaml'']"
    by (simp_all add: path_eval promoted_def wild_revision_def demo_proxy_def demo_pipe_def)
  have audit: "fst (WriteRevision (wild_revision\<lparr>en_Status := StatusProduction, en_UpdatedAt := 5\<rparr>) s) = None"
    "px_prod (snd (WriteRevision (wild_revision\<lparr>en_Status := StatusProduction, en_UpdatedAt := 5\<rparr>) s)) = px_prod s" for s
    by (simp_all add: WriteRevision_def wild_revision_def demo_proxy_def Validate_def status_eval Let_def)
  have listed: "px_prod (snd (ListProd apex_store)) = [(''a.io.yaml'', demo_proxy ''apex'' ''a.io'' 1)]"
    unfolding demo_list by (simp add: apex_store_def)
  define s3 where "s3 = snd (WriteProd (pe_peek demo_pipe) (promoted 5 wild_revision) (snd (ListProd apex_store)))"
  have writtn: "WriteProd (pe_peek demo_pipe) (promoted 5 wild_revision) (snd (ListProd apex_store)) = (None, s3)"
    by (simp add: s3_def WriteProd_def copy Let_def)
  have s3: "px_prod s3 = [(''a.io.yaml'', promoted 5 wild_revision)]"
    by (simp add: s3_def WriteProd_def copy path Let_def listed drop_legacy_def readEnvelope_def HasSuffix_def TrimSuffix_def)
  obtain w where w: "WriteRevision (wild_revision\<lparr>en_Status := StatusProduction, en_UpdatedAt := 5\<rparr>) s3 = (None, w)" "px_prod w = px_prod s3"
    using audit [of s3] by (metis prod.collapse)
  have "Promote demo_pipe msg 5 ''w'' ''v1'' apex_store = (Inr (promoted 5 wild_revision), w)"
    by (simp add: Promote_def read status peers run old writtn w Let_def)
  then show "fst (Promote demo_pipe msg 5 ''w'' ''v1'' apex_store) = Inr (promoted 5 wild_revision)"
    "px_prod (snd (Promote demo_pipe msg 5 ''w'' ''v1'' apex_store)) = [(''a.io.yaml'', promoted 5 wild_revision)]"
    using w(2) s3 by simp_all
qed

text \<open>Deleting a TCP proxy removes the file of the HTTP proxy with its host: the identifier is not compared.\<close>

lemma delete_removes_neighbour:
  defines "tcp \<equiv> (demo_proxy ''t'' ''a.io'' 1)\<lparr>en_Config := ''tcp''\<rparr>" and "web \<equiv> (demo_proxy ''h'' ''a.io'' 1)\<lparr>en_Config := []\<rparr>"
  shows "px_prod (snd (DeleteProdByID (\<lambda>cfg. cfg) ''t'' (empty_proxy_store\<lparr>px_prod := [(''a.io_tcp.yaml'', tcp), (''a.io.yaml'', web)]\<rparr>))) = []"
  by (simp add: DeleteProdByID_def ReadProdByID_def lookupIDIndex_def empty_proxy_store_def buildIndexAndCache_def HasSuffix_def tcp_def web_def
      demo_proxy_def readEnvelope_def removeFile_def path_eval)

lemma pull_one:
  assumes "ListProd (pn_store peer) = ([e], s2)" "px_tombs s2 = []" "ListProd (pn_store n) = ([c], s1)" "px_tombs s1 = []"
    and "en_ID c \<noteq> en_ID e" "production e" "\<exists>r. ParseRoute E e = Inr r"
  shows "px_prod (pn_store (pulled E refresh now peer n)) = px_prod (snd (WriteProd (pe_peek E) e s1))"
  using assms(5,7) production_ID [OF assms(6)] production_status [OF assms(6)] WriteProd_production [OF assms(6), of "pe_peek E" s1]
  by (auto simp: pulled_def mergeProxyReplica_def proxyReplicaDoc_def assms(1-4) readTombstones_def merge_proxy_def ClearTombstone_def Let_def)

text \<open>
  Two gateways that accepted different proxies for one host and pull each other's proxies at once swap them: each loses its own, and
  the next round swaps them back.
\<close>

lemma same_host_swaps:
  assumes "px_prod (pn_store A) = [(''a.io.yaml'', demo_proxy ''p'' ''a.io'' 10)]" "px_prod (pn_store B) = [(''a.io.yaml'', demo_proxy ''q'' ''a.io'' 20)]"
    and "px_tombs (pn_store A) = []" "px_tombs (pn_store B) = []" "px_list (pn_store A) = None" "px_list (pn_store B) = None"
  shows "px_prod (pn_store (pulled demo_pipe refresh 30 B A)) = px_prod (pn_store B)"
    "px_prod (pn_store (pulled demo_pipe refresh 30 A B)) = px_prod (pn_store A)"
proof -
  have parse: "\<exists>r. ParseRoute demo_pipe (demo_proxy i h t) = Inr r" for i h t
    by (simp add: ParseRoute_def demo_proxy_def demo_pipe_def)
  have prod: "production (demo_proxy i h t)" if "i \<noteq> []" for i h t
    using that by (simp add: production_def prod_copy_def demo_proxy_def Validate_def status_eval)
  have lists: "ListProd (pn_store A) = ([demo_proxy ''p'' ''a.io'' 10], (pn_store A)\<lparr>px_index := Some [(''p'', ''a.io.yaml'')], px_list := Some [demo_proxy ''p'' ''a.io'' 10]\<rparr>)"
    "ListProd (pn_store B) = ([demo_proxy ''q'' ''a.io'' 20], (pn_store B)\<lparr>px_index := Some [(''q'', ''a.io.yaml'')], px_list := Some [demo_proxy ''q'' ''a.io'' 20]\<rparr>)"
    using assms by (simp_all add: ListProd_def buildIndexAndCache_def HasSuffix_def demo_proxy_def)
  have names: "ProdPathFor (pe_peek demo_pipe) (demo_proxy i ''a.io'' t) = ''a.io.yaml''"
    "obsoleteProdPaths (pe_peek demo_pipe) (demo_proxy i ''a.io'' t) ''a.io.yaml'' = [''stream_'' @ sanitizeID i @ ''.yaml'']" for i t
    by (simp_all add: demo_proxy_def demo_pipe_def path_eval del: map_eq_conv)
  have ids: "en_ID (demo_proxy i h t) = i" for i h t by (simp add: demo_proxy_def)
  have alone: "drop_legacy x l [(''a.io.yaml'', d)] = [(''a.io.yaml'', d)]" if "l = ''stream_'' @ k" for x l k d
    using that by (auto simp: drop_legacy_def readEnvelope_def TrimSuffix_def HasSuffix_def split: option.splits if_splits)
  note steps = WriteProd_production [OF prod] names alone assms ids
  show "px_prod (pn_store (pulled demo_pipe refresh 30 B A)) = px_prod (pn_store B)"
    by (subst pull_one [OF lists(2) _ lists(1)]) (simp_all add: prod parse steps)
  show "px_prod (pn_store (pulled demo_pipe refresh 30 A B)) = px_prod (pn_store A)"
    by (subst pull_one [OF lists(1) _ lists(2)]) (simp_all add: prod parse steps)
qed

end
