(* ===== verification/Proxy_Promotion.thy ===== *)
theory Proxy_Promotion
  imports Proxy_Group
begin

text \<open>
  What promotion puts into production, and the properties of the store of proxies.
\<close>

section \<open>Promotion\<close>

lemma collectPeers_ok:
  assumes "store_ok peek s"
  shows "collectPeers i s = (filter (\<lambda>e. en_ID e \<noteq> i) (fst (ListProd s)), snd (ListProd s))"
  by (simp add: collectPeers_def split_beta)

lemma WriteRevision_prod:
  "px_prod (snd (WriteRevision e s)) = px_prod s" "px_index (snd (WriteRevision e s)) = px_index s"
  "px_list (snd (WriteRevision e s)) = px_list s"
  by (simp_all add: WriteRevision_def Let_def split: option.split)

lemma store_ok_revision: "store_ok peek s \<Longrightarrow> store_ok peek (snd (WriteRevision e s))"
  by (simp only: store_ok_def WriteRevision_prod)

definition stored_ok :: "Envelope \<Rightarrow> bool" where
  "stored_ok env \<longleftrightarrow> en_Status env = StatusValidated \<and> (case en_DryRun env of None \<Rightarrow> False | Some d \<Rightarrow> dr_OK d)"

definition promotable :: "pipe_env \<Rightarrow> Envelope \<Rightarrow> proxy_store \<Rightarrow> bool" where
  "promotable E env s \<longleftrightarrow> stored_ok env \<and> dry_run_errors E env (filter (\<lambda>e. en_ID e \<noteq> en_ID env) (fst (ListProd s))) no_options = []"

lemma dry_run_config: "dry_run_errors E env peers opts = [] \<Longrightarrow> en_Config env \<noteq> []"
  by (auto simp: dry_run_errors_def ParseRoute_def)

lemma promoted_production:
  assumes "en_ID env \<noteq> []" "1 \<le> en_SchemaVersion env" "en_Config env \<noteq> []"
  shows "production (promoted now env)" "en_ID (promoted now env) = en_ID env"
  using assms by (simp_all add: production_def prod_copy_def promoted_def Validate_def status_eval)

lemma audit_written:
  assumes "en_ID env \<noteq> []" "1 \<le> en_SchemaVersion env" "en_Config env \<noteq> []" "en_Revision env \<noteq> []"
  shows "fst (WriteRevision (env\<lparr>en_Status := StatusProduction, en_UpdatedAt := now\<rparr>) s) = None"
  using assms by (simp add: WriteRevision_def Validate_def status_eval Let_def)

lemma Promote_refused:
  assumes "store_ok (pe_peek E) s" "ReadRevision i rv s = Some env" "en_ID env = i" "\<not> promotable E env s"
  shows "fst (Promote E msg now i rv s) \<noteq> Inr p" "px_prod (snd (Promote E msg now i rv s)) = px_prod s"
proof -
  note same = ListProd_ok(3) [OF assms(1)]
  have run: "dr_OK (RunDryRun E msg now env (filter (\<lambda>e. en_ID e \<noteq> i) (fst (ListProd s))) no_options) = False" if "stored_ok env"
    using that assms(3,4) by (simp add: promotable_def RunDryRun_def Let_def)
  have "fst (Promote E msg now i rv s) \<noteq> Inr p \<and> px_prod (snd (Promote E msg now i rv s)) = px_prod s"
  proof (cases "stored_ok env")
    case True
    then have st: "en_Status env = StatusValidated" "en_Status env \<noteq> StatusRejected"
        "\<not> (case en_DryRun env of None \<Rightarrow> True | Some d \<Rightarrow> \<not> dr_OK d)"
      by (auto simp: stored_ok_def status_eval split: option.splits)
    show ?thesis
      using st run [OF True] same
      by (simp add: Promote_def assms(2) collectPeers_ok [OF assms(1)] Let_def WriteRevision_prod same_files_def)
  next
    case False
    then consider "en_Status env \<noteq> StatusValidated" | "en_Status env = StatusValidated" "case en_DryRun env of None \<Rightarrow> True | Some d \<Rightarrow> \<not> dr_OK d"
      by (auto simp: stored_ok_def split: option.splits)
    then show ?thesis by cases (simp_all add: Promote_def assms(2) Let_def)
  qed
  then show "fst (Promote E msg now i rv s) \<noteq> Inr p" "px_prod (snd (Promote E msg now i rv s)) = px_prod s" by blast+
qed

lemma Promote_accepted:
  assumes s: "store_ok (pe_peek E) s" and r: "ReadRevision i rv s = Some env" and i: "en_ID env = i" "i \<noteq> []"
    and env: "1 \<le> en_SchemaVersion env" "en_Revision env \<noteq> []" and ok: "promotable E env s"
    and U: "apart (pe_peek E) U" "live_in (px_prod s) \<subseteq> U" "promoted now env \<in> U"
  shows "fst (Promote E msg now i rv s) = Inr (promoted now env)"
    "view (px_prod (snd (Promote E msg now i rv s))) = (view (px_prod s))(i \<mapsto> promoted now env)"
    "store_ok (pe_peek E) (snd (Promote E msg now i rv s))"
proof -
  let ?peek = "pe_peek E" and ?p = "promoted now env"
  have st: "en_Status env = StatusValidated" "en_Status env \<noteq> StatusRejected"
      "\<not> (case en_DryRun env of None \<Rightarrow> True | Some d \<Rightarrow> \<not> dr_OK d)"
    using ok by (auto simp: promotable_def stored_ok_def status_eval split: option.splits)
  have errs: "dry_run_errors E env (filter (\<lambda>e. en_ID e \<noteq> i) (fst (ListProd s))) no_options = []" using ok i(1) by (simp add: promotable_def)
  have run: "dr_OK (RunDryRun E msg now env (filter (\<lambda>e. en_ID e \<noteq> i) (fst (ListProd s))) no_options)"
    by (simp add: RunDryRun_def errs Let_def)
  have cfg: "en_Config env \<noteq> []" by (rule dry_run_config [OF errs])
  have id: "en_ID env \<noteq> []" using i by simp
  note prod = promoted_production [OF id env(1) cfg]
  define s1 where "s1 = snd (ListProd s)"
  have s1: "store_ok ?peek s1" "px_prod s1 = px_prod s" using ListProd_ok [OF s] by (simp_all add: s1_def same_files_def)
  obtain s2 where rd: "ReadProdByID i s1 = (view (px_prod s) i, s2)" and s2: "store_ok ?peek s2" "px_prod s2 = px_prod s"
    using ReadProdByID_ok [OF s1(1), of i] s1(2) by (cases "ReadProdByID i s1") (simp add: same_files_def)
  define s3 where "s3 = snd (WriteProd ?peek ?p s2)"
  have w: "WriteProd ?peek ?p s2 = (None, s3)" by (simp add: s3_def WriteProd_production [OF prod(1)])
  define s4 where "s4 = replace_prod ?peek ?p (view (px_prod s2) (en_ID ?p)) s2"
  have s4_eq: "(case view (px_prod s) i of None \<Rightarrow> s3 | Some c \<Rightarrow> RemoveProdIfRenamed ?peek c ?p s3) = s4"
    by (simp only: s4_def replace_prod_def s3_def [symmetric] s2(2) prod(2) i(1) Let_def)
  have live: "live_in (px_prod s2) \<subseteq> U" using U(2) s2(2) by simp
  note rep = replace_refines [OF s2(1) prod(1) U(1) live U(3) s4_def]
  let ?audit = "env\<lparr>en_Status := StatusProduction, en_UpdatedAt := now\<rparr>"
  have au: "WriteRevision ?audit s4 = (None, snd (WriteRevision ?audit s4))"
    using audit_written [OF id env(1) cfg env(2)] by (metis prod.collapse)
  have eq: "Promote E msg now i rv s = (Inr ?p, snd (WriteRevision ?audit s4))"
    unfolding Promote_def r option.case collectPeers_ok [OF s] prod.case s1_def [symmetric]
    using st run by (simp add: rd w s4_eq Let_def) (subst au, simp)
  show "fst (Promote E msg now i rv s) = Inr ?p" by (simp add: eq)
  show "view (px_prod (snd (Promote E msg now i rv s))) = (view (px_prod s))(i \<mapsto> ?p)"
    using rep(2) prod(2) i(1) s2(2) by (simp add: eq WriteRevision_prod)
  show "store_ok ?peek (snd (Promote E msg now i rv s))" using store_ok_revision [OF rep(1)] by (simp add: eq)
qed

section \<open>Properties\<close>

definition pulled_view :: "pipe_env \<Rightarrow> (string \<Rightarrow> proxy_store \<Rightarrow> Table \<Rightarrow> Table) \<Rightarrow> go_time \<Rightarrow> proxy_node \<Rightarrow> proxy_node \<Rightarrow> string \<Rightarrow> Envelope option" where
  "pulled_view E refresh now peer n i = view (px_prod (pn_store (pulled E refresh now peer n))) i"

text \<open>
  C10: Two gateways of a group that pull each other's proxies, at once or one after the other, end with the same proxies in
  production: for each identifier the newest version either of them had, unless one of them knew of a later deletion; when no two
  versions, and no version and deletion, of an identifier carry the same instant, the versions are valid production envelopes whose configuration
  can be read, and proxies with different identifiers have different files.
\<close>

theorem group_converges:
  assumes "known E U" "member_ok E now U (pn_store A)" "member_ok E now U (pn_store B)"
    and "\<And>i. apart_in_time (proxy_state now (pn_store A) i) (proxy_state now (pn_store B) i)"
  shows "pulled_view E refresh now B A i = pulled_view E refresh now A B i
    \<and> pulled_view E refresh now (pulled E refresh now B A) B i = pulled_view E refresh now B A i
    \<and> (pulled_view E refresh now B A i = Some e \<longleftrightarrow>
        (view (px_prod (pn_store A)) i = Some e \<or> view (px_prod (pn_store B)) i = Some e)
        \<and> at_most (proxy_state now (pn_store A) i) (en_UpdatedAt e) \<and> at_most (proxy_state now (pn_store B) i) (en_UpdatedAt e))"
proof -
  have eq: "pulled_view E refresh now peer n i = view (px_prod (pn_store (pulled E refresh now peer n))) i" for peer n i
    by (simp add: pulled_view_def)
  show ?thesis
    using group_convergence(1) [OF assms eq] group_convergence(2) [OF assms eq] group_convergence(3) [OF assms eq] by blast
qed

text \<open>One gateway has the proxy at its old host, the other at its new one.\<close>

definition demo_node :: "Envelope \<Rightarrow> proxy_node" where
  "demo_node e =
     \<lparr>pn_store = empty_proxy_store\<lparr>px_prod := [(ProdPathFor (pe_peek demo_pipe) e, e)]\<rparr>, pn_table = zero_table,
      pn_cache = \<lparr>dc_gen = 0, dc_handlers = []\<rparr>\<rparr>"

lemma demo_member:
  assumes "e = demo_proxy i h t" "i \<noteq> []" "e \<in> U"
  shows "member_ok demo_pipe 30 U (pn_store (demo_node e))" "proxy_state 30 (pn_store (demo_node e)) j = (if j = i then Some e else None, None)"
proof -
  have id: "en_ID e = i" using assms by (simp add: demo_proxy_def)
  have v: "view (px_prod (pn_store (demo_node e))) j = (if j = i then Some e else None)" for j
    by (auto simp: demo_node_def view_def id)
  have t: "tomb 30 (pn_store (demo_node e)) j = None" for j by (simp add: demo_node_def tomb_def readTombstones_def empty_proxy_store_def)
  show "proxy_state 30 (pn_store (demo_node e)) j = (if j = i then Some e else None, None)" by (simp add: proxy_state_def v t)
  have "dir_ok (pe_peek demo_pipe) (px_prod (pn_store (demo_node e)))"
    using assms(2) by (auto simp: dir_ok_def demo_node_def gm_ok_def id split: if_splits)
  then show "member_ok demo_pipe 30 U (pn_store (demo_node e))"
    using assms(3) by (simp add: member_ok_def store_ok_def t) (auto simp: demo_node_def live_in_def empty_proxy_store_def split: if_splits)
qed

lemma demo_production: "i \<noteq> [] \<Longrightarrow> production (demo_proxy i h t)"
  by (simp add: production_def prod_copy_def demo_proxy_def Validate_def status_eval)

lemma demo_known:
  assumes "i \<noteq> []"
  shows "known demo_pipe {demo_proxy i h t, demo_proxy i h' t'}"
  using assms by (auto simp: known_def demo_production apart_def ParseRoute_def) (simp_all add: demo_proxy_def demo_pipe_def)

theorem group_converges_witness:
  "pulled_view demo_pipe (\<lambda>i s t. t) 30 (demo_node (demo_proxy ''p'' ''new.io'' 20)) (demo_node (demo_proxy ''p'' ''old.io'' 10)) ''p''
   = Some (demo_proxy ''p'' ''new.io'' 20)
   \<and> pulled_view demo_pipe (\<lambda>i s t. t) 30 (demo_node (demo_proxy ''p'' ''old.io'' 10)) (demo_node (demo_proxy ''p'' ''new.io'' 20)) ''p''
   = Some (demo_proxy ''p'' ''new.io'' 20)"
proof -
  let ?U = "{demo_proxy ''p'' ''old.io'' 10, demo_proxy ''p'' ''new.io'' 20}"
  have ids: "''p'' \<noteq> []" by simp
  have U: "demo_proxy ''p'' ''old.io'' 10 \<in> ?U" "demo_proxy ''p'' ''new.io'' 20 \<in> ?U" by simp_all
  note a = demo_member [OF refl ids U(1)] and b = demo_member [OF refl ids U(2)]
  have ap: "apart_in_time (proxy_state 30 (pn_store (demo_node (demo_proxy ''p'' ''old.io'' 10))) i)
      (proxy_state 30 (pn_store (demo_node (demo_proxy ''p'' ''new.io'' 20))) i)" for i
    using a(2) b(2) by (simp add: apart_in_time_def) (simp add: demo_proxy_def)
  have views: "view (px_prod (pn_store (demo_node (demo_proxy ''p'' h t)))) ''p'' = Some (demo_proxy ''p'' h t)" for h t
    using demo_member(2) [OF refl ids, of h t "{demo_proxy ''p'' h t}" "''p''"] by (simp add: proxy_state_def)
  have upd: "en_UpdatedAt (demo_proxy i h t) = t" for i h t by (simp add: demo_proxy_def)
  have am: "at_most (proxy_state 30 (pn_store (demo_node (demo_proxy ''p'' ''old.io'' 10))) ''p'') 20"
    "at_most (proxy_state 30 (pn_store (demo_node (demo_proxy ''p'' ''new.io'' 20))) ''p'') 20"
    using a(2) b(2) by (simp_all add: at_most_def upd)
  note both = group_converges [OF demo_known [OF ids, of "''old.io''" 10 "''new.io''" 20] a(1) b(1) ap,
      of "\<lambda>i s t. t" "''p''" "demo_proxy ''p'' ''new.io'' 20"]
  have new: "pulled_view demo_pipe (\<lambda>i s t. t) 30 (demo_node (demo_proxy ''p'' ''new.io'' 20)) (demo_node (demo_proxy ''p'' ''old.io'' 10)) ''p''
      = Some (demo_proxy ''p'' ''new.io'' 20)"
    by (rule both [THEN conjunct2, THEN conjunct2, THEN iffD2]) (use views am in \<open>simp add: upd\<close>)
  show ?thesis by (rule conjI [OF new trans [OF both [THEN conjunct1, symmetric] new]])
qed

text \<open>
  C11: Promoting a revision puts it into production exactly when the revision was validated by a dry run and a second dry run against
  every other proxy in production now finds no error; then its identifier gets this version and every other proxy stays as it
  is, and otherwise nothing in production changes; when proxies with different identifiers have different files.
\<close>

theorem promotion_exact:
  assumes "store_ok (pe_peek E) s" "ReadRevision i rv s = Some env" "en_ID env = i" "i \<noteq> []"
    and "1 \<le> en_SchemaVersion env" "en_Revision env \<noteq> []"
    and "apart (pe_peek E) U" "live_in (px_prod s) \<subseteq> U" "promoted now env \<in> U"
  shows "(fst (Promote E msg now i rv s) = Inr (promoted now env) \<longleftrightarrow> promotable E env s)
    \<and> view (px_prod (snd (Promote E msg now i rv s))) =
       (if promotable E env s then (view (px_prod s))(i \<mapsto> promoted now env) else view (px_prod s))"
proof (cases "promotable E env s")
  case True
  then show ?thesis using Promote_accepted [OF assms(1-6) True assms(7-9)] by simp
next
  case False
  then show ?thesis using Promote_refused [OF assms(1-3) False] by simp
qed

definition fresh_store :: proxy_store where
  "fresh_store = empty_proxy_store\<lparr>px_revs := [(''w--v1.yaml'', wild_revision)]\<rparr>"

theorem promotion_exact_witness:
  "fst (Promote demo_pipe (\<lambda>e. []) 5 ''w'' ''v1'' fresh_store) = Inr (promoted 5 wild_revision)
   \<and> view (px_prod (snd (Promote demo_pipe (\<lambda>e. []) 5 ''w'' ''v1'' fresh_store))) ''w'' = Some (promoted 5 wild_revision)"
proof -
  have "store_ok (pe_peek demo_pipe) fresh_store"
    by (simp add: store_ok_def fresh_store_def empty_proxy_store_def dir_ok_def)
  moreover have "ReadRevision ''w'' ''v1'' fresh_store = Some wild_revision"
    by (simp add: ReadRevision_def demo_revision_names readEnvelope_def fresh_store_def)
  moreover have "en_ID wild_revision = ''w''" "''w'' \<noteq> []" "1 \<le> en_SchemaVersion wild_revision" "en_Revision wild_revision \<noteq> []"
    by (simp_all add: wild_revision_def demo_proxy_def)
  moreover have "apart (pe_peek demo_pipe) {promoted 5 wild_revision}" by (simp add: apart_def)
  moreover have "live_in (px_prod fresh_store) \<subseteq> {promoted 5 wild_revision}" by (simp add: live_in_def fresh_store_def empty_proxy_store_def)
  moreover have "promoted 5 wild_revision \<in> {promoted 5 wild_revision}" by simp
  ultimately have both: "(fst (Promote demo_pipe (\<lambda>e. []) 5 ''w'' ''v1'' fresh_store) = Inr (promoted 5 wild_revision) \<longleftrightarrow> promotable demo_pipe wild_revision fresh_store)
    \<and> view (px_prod (snd (Promote demo_pipe (\<lambda>e. []) 5 ''w'' ''v1'' fresh_store))) =
       (if promotable demo_pipe wild_revision fresh_store then (view (px_prod fresh_store))(''w'' \<mapsto> promoted 5 wild_revision) else view (px_prod fresh_store))"
    by (rule promotion_exact)
  have none: "fst (ListProd fresh_store) = []"
    by (simp add: ListProd_def fresh_store_def empty_proxy_store_def buildIndexAndCache_def)
  have "stored_ok wild_revision" by (simp add: stored_ok_def wild_revision_def)
  moreover have "dry_run_errors demo_pipe wild_revision [] no_options = []"
    using demo_dry_run by (simp add: dry_run_errors_def validateConflicts_def split: sum.splits)
  ultimately have "promotable demo_pipe wild_revision fresh_store" by (simp add: promotable_def none)
  then show ?thesis using both by simp
qed

end
