(* ===== verification/Log_Throttle.thy ===== *)
theory Log_Throttle
  imports Gostrings
begin

text \<open>
  Grouping of repeated log lines (\<open>internal/edge/logthrottle/logthrottle.go\<close>): one line per key and window, which reports how many were left
  out since the line before. The table of keys is bounded.
\<close>

section \<open>The limiter\<close>

record throttled =
  te_last :: go_time
  te_suppressed :: int

record Limiter =
  lim_window :: go_duration
  lim_seen :: "(string, throttled) gomap"

definition MaxKeys :: nat where "MaxKeys = 20000"

definition new_Limiter :: "go_duration \<Rightarrow> Limiter" where
  "new_Limiter window = \<lparr>lim_window = window, lim_seen = []\<rparr>"

definition is_recent :: "go_time \<Rightarrow> Limiter \<Rightarrow> throttled \<Rightarrow> bool" where
  "is_recent now l e \<longleftrightarrow> time_sub now (te_last e) < lim_window l"

text \<open>When the table is full, what is older than the window makes room.\<close>

definition make_room :: "go_time \<Rightarrow> Limiter \<Rightarrow> (string, throttled) gomap" where
  "make_room now l = (if MaxKeys \<le> length (lim_seen l) then filter (\<lambda>(k, e). is_recent now l e) (lim_seen l) else lim_seen l)"

definition Limiter_Allow :: "string \<Rightarrow> go_time \<Rightarrow> Limiter \<Rightarrow> (bool \<times> int) \<times> Limiter" where
  "Limiter_Allow key now l =
     (case gm_get (lim_seen l) key of
        Some e \<Rightarrow>
          if is_recent now l e then ((False, 0), l\<lparr>lim_seen := gm_set key (e\<lparr>te_suppressed := te_suppressed e + 1\<rparr>) (lim_seen l)\<rparr>)
          else ((True, te_suppressed e), l\<lparr>lim_seen := gm_set key \<lparr>te_last = now, te_suppressed = 0\<rparr> (lim_seen l)\<rparr>)
      | None \<Rightarrow>
          (let seen = make_room now l
           in if MaxKeys \<le> length seen then ((True, 0), l\<lparr>lim_seen := seen\<rparr>)
              else ((True, 0), l\<lparr>lim_seen := gm_set key \<lparr>te_last = now, te_suppressed = 0\<rparr> seen\<rparr>)))"

text \<open>No limiter at all writes everything.\<close>

definition throttle_Allow :: "string \<Rightarrow> go_time \<Rightarrow> Limiter option \<Rightarrow> (bool \<times> int) \<times> Limiter option" where
  "throttle_Allow key now l =
     (case l of None \<Rightarrow> ((True, 0), None) | Some l0 \<Rightarrow> (fst (Limiter_Allow key now l0), Some (snd (Limiter_Allow key now l0))))"

text \<open>A run over events, each a key and an instant; the answers come with it.\<close>

fun throttle_run :: "(string \<times> go_time) list \<Rightarrow> Limiter \<Rightarrow> (string \<times> bool \<times> int) list \<times> Limiter" where
  "throttle_run [] l = ([], l)"
| "throttle_run ((key, now) # events) l =
     (let (answer, l') = Limiter_Allow key now l; (answers, l'') = throttle_run events l' in ((key, answer) # answers, l''))"

lemma run_step [simp]:
  "fst (throttle_run ((key, now) # events) l) = (key, fst (Limiter_Allow key now l)) # fst (throttle_run events (snd (Limiter_Allow key now l)))"
  "snd (throttle_run ((key, now) # events) l) = snd (throttle_run events (snd (Limiter_Allow key now l)))"
  by (simp_all split: prod.split)

declare throttle_run.simps(2) [simp del]

section \<open>Invariant\<close>

definition limiter_ok :: "Limiter \<Rightarrow> bool" where
  "limiter_ok l \<longleftrightarrow> gm_ok (lim_seen l) \<and> length (lim_seen l) \<le> MaxKeys"

lemma make_room_ok: "limiter_ok l \<Longrightarrow> gm_ok (make_room now l) \<and> length (make_room now l) \<le> MaxKeys"
  by (auto simp: limiter_ok_def make_room_def gm_ok_filter intro: order_trans [OF length_filter_le])

lemma make_room_get:
  assumes "limiter_ok l"
  shows "gm_get (make_room now l) k =
    (case gm_get (lim_seen l) k of
       None \<Rightarrow> None | Some e \<Rightarrow> if MaxKeys \<le> length (lim_seen l) \<and> \<not> is_recent now l e then None else Some e)"
  using assms by (cases "gm_get (lim_seen l) k") (auto simp: make_room_def limiter_ok_def gm_get_filter)

lemma Allow_ok: "limiter_ok l \<Longrightarrow> limiter_ok (snd (Limiter_Allow key now l))"
  using make_room_ok [of l now]
  by (auto simp: Limiter_Allow_def limiter_ok_def Let_def gm_length_set Suc_le_eq split: option.split)

lemma Allow_window: "lim_window (snd (Limiter_Allow key now l)) = lim_window l"
  by (simp add: Limiter_Allow_def Let_def split: option.split)

lemma run_ok: "limiter_ok l \<Longrightarrow> limiter_ok (snd (throttle_run events l)) \<and> lim_window (snd (throttle_run events l)) = lim_window l"
  by (induction events arbitrary: l) (auto simp: Allow_ok Allow_window)

lemma start_ok: "limiter_ok (new_Limiter window)"
  by (simp add: limiter_ok_def new_Limiter_def)

section \<open>Repeats are left out and counted\<close>

lemma Allow_known:
  assumes "gm_get (lim_seen l) key = Some e"
  shows "Limiter_Allow key now l =
    (if is_recent now l e then ((False, 0), l\<lparr>lim_seen := gm_set key (e\<lparr>te_suppressed := te_suppressed e + 1\<rparr>) (lim_seen l)\<rparr>)
     else ((True, te_suppressed e), l\<lparr>lim_seen := gm_set key \<lparr>te_last = now, te_suppressed = 0\<rparr> (lim_seen l)\<rparr>))"
  using assms by (simp add: Limiter_Allow_def)

lemma Allow_other:
  assumes "limiter_ok l" "gm_get (lim_seen l) k = Some e" "is_recent now l e" "key \<noteq> k"
  shows "gm_get (lim_seen (snd (Limiter_Allow key now l))) k = Some e"
  using assms make_room_get [OF assms(1), of now k]
  by (auto simp: Limiter_Allow_def Let_def split: option.split)

definition left_out :: "string \<Rightarrow> (string \<times> bool \<times> int) list \<Rightarrow> bool" where
  "left_out k answers \<longleftrightarrow> (\<forall>(key, logged, n) \<in> set answers. key = k \<longrightarrow> \<not> logged)"

lemma repeats_counted:
  assumes "limiter_ok l" "gm_get (lim_seen l) k = Some e" "list_all (\<lambda>(key, now). time_sub now (te_last e) < lim_window l) events"
  shows "left_out k (fst (throttle_run events l))
    \<and> gm_get (lim_seen (snd (throttle_run events l))) k
        = Some \<lparr>te_last = te_last e, te_suppressed = te_suppressed e + int (length (filter (\<lambda>(key, now). key = k) events))\<rparr>"
  using assms
proof (induction events arbitrary: l e)
  case (Cons ev events)
  obtain key now where ev: "ev = (key, now)" by (cases ev)
  let ?l = "snd (Limiter_Allow key now l)" and ?e = "if key = k then e\<lparr>te_suppressed := te_suppressed e + 1\<rparr> else e"
  have recent: "is_recent now l e" using Cons.prems(3) by (simp add: is_recent_def ev)
  have get: "gm_get (lim_seen ?l) k = Some ?e" and silent: "key = k \<Longrightarrow> \<not> fst (fst (Limiter_Allow key now l))"
    using Allow_other [OF Cons.prems(1,2) recent, of key] Allow_known [OF Cons.prems(2), of now] recent by auto
  have later: "list_all (\<lambda>(key, now). time_sub now (te_last ?e) < lim_window ?l) events" using Cons.prems(3) by (simp add: Allow_window)
  show ?case
    using Cons.IH [OF Allow_ok [OF Cons.prems(1)] get later] silent by (auto simp: ev left_out_def)
qed (simp add: left_out_def)

text \<open>The lines written for a key, what they reported and what is still to be reported.\<close>

definition written_lines :: "string \<Rightarrow> (string \<times> bool \<times> int) list \<Rightarrow> int" where
  "written_lines k answers = (\<Sum>(key, logged, n) \<leftarrow> answers. if key = k \<and> logged then 1 + n else 0)"

definition unreported :: "string \<Rightarrow> Limiter \<Rightarrow> int" where
  "unreported k l = (case gm_get (lim_seen l) k of None \<Rightarrow> 0 | Some e \<Rightarrow> te_suppressed e)"

lemma Allow_accounts:
  assumes "length (lim_seen l) < MaxKeys"
  shows "(if key = k \<and> fst (fst (Limiter_Allow key now l)) then 1 + snd (fst (Limiter_Allow key now l)) else 0)
    + unreported k (snd (Limiter_Allow key now l)) = (if key = k then 1 else 0) + unreported k l"
  using assms by (auto simp: Limiter_Allow_def make_room_def unreported_def Let_def split: option.split)

lemma Allow_length:
  assumes "length (lim_seen l) < MaxKeys"
  shows "set (gm_keys (lim_seen (snd (Limiter_Allow key now l)))) = insert key (set (gm_keys (lim_seen l)))"
proof -
  have "gm_get (lim_seen l) key = Some e \<Longrightarrow> key \<in> set (gm_keys (lim_seen l))" for e by (metis map_of_eq_None_iff option.distinct(1) set_map)
  then show ?thesis
    using assms by (auto simp: Limiter_Allow_def make_room_def Let_def dom_update split: option.split)
qed

lemma run_accounts:
  assumes "limiter_ok l" "card (set (gm_keys (lim_seen l)) \<union> fst ` set events) < MaxKeys"
  shows "written_lines k (fst (throttle_run events l)) + unreported k (snd (throttle_run events l))
    = int (length (filter (\<lambda>(key, now). key = k) events)) + unreported k l"
  using assms
proof (induction events arbitrary: l)
  case (Cons ev events)
  obtain key now where ev: "ev = (key, now)" by (cases ev)
  let ?l = "snd (Limiter_Allow key now l)"
  have "card (set (gm_keys (lim_seen l))) \<le> card (set (gm_keys (lim_seen l)) \<union> fst ` set (ev # events))" by (intro card_mono) auto
  then have room: "length (lim_seen l) < MaxKeys"
    using Cons.prems gm_card_keys [of "lim_seen l"] unfolding limiter_ok_def by linarith
  have "set (gm_keys (lim_seen ?l)) \<union> fst ` set events = set (gm_keys (lim_seen l)) \<union> fst ` set (ev # events)"
    unfolding Allow_length [OF room] by (auto simp: ev)
  then have "card (set (gm_keys (lim_seen ?l)) \<union> fst ` set events) < MaxKeys" using Cons.prems(2) by simp
  then show ?case
    using Cons.IH [OF Allow_ok [OF Cons.prems(1)]] Allow_accounts [OF room, of key k now] by (auto simp: ev written_lines_def case_prod_unfold)
qed (simp add: written_lines_def)

text \<open>Making room also drops what was left out and not reported yet.\<close>

lemma making_room_forgets:
  assumes "limiter_ok l" "MaxKeys \<le> length (lim_seen l)" "gm_get (lim_seen l) k = Some e" "lim_window l \<le> time_sub now (te_last e)"
    "gm_get (lim_seen l) key = None"
  shows "unreported k (snd (Limiter_Allow key now l)) = 0"
proof -
  have "key \<noteq> k" using assms(3,5) by auto
  then show ?thesis
    using assms make_room_get [OF assms(1), of now k] by (auto simp: Limiter_Allow_def unreported_def is_recent_def Let_def)
qed

section \<open>Properties\<close>

text \<open>
  C0: As long as fewer keys than the table holds are seen, no event is lost: for each key, the lines written, the repeats they report and
  those still to be reported add up to the events.
\<close>

theorem no_event_lost:
  assumes "card (fst ` set events) < MaxKeys"
  shows "written_lines k (fst (throttle_run events (new_Limiter window))) + unreported k (snd (throttle_run events (new_Limiter window)))
    = int (length (filter (\<lambda>(key, now). key = k) events))"
  using run_accounts [OF start_ok, of window events k] assms by (simp add: new_Limiter_def unreported_def)

theorem no_event_lost_witness:
  "written_lines ''a'' (fst (throttle_run [(''a'', 0), (''b'', 1), (''a'', 2), (''a'', 9)] (new_Limiter 5)))
   + unreported ''a'' (snd (throttle_run [(''a'', 0), (''b'', 1), (''a'', 2), (''a'', 9)] (new_Limiter 5))) = 3"
  using no_event_lost [of "[(''a'', 0), (''b'', 1), (''a'', 2), (''a'', 9)]" "''a''" 5]
  by (simp del: run_step add: MaxKeys_def card_insert_if)

end
