(* ===== verification/Rejection_Log.thy ===== *)
theory Rejection_Log
  imports Log_Throttle
begin

text \<open>
  What the entry of the gateway refuses (\<open>rejectionLog\<close> of \<open>internal/edge/rejections.go\<close>): counts per reason, per name asked for, per
  source and per fingerprint, in tables of bounded size. A full table evicts one of a few entries, the first ones Go happens to visit.
\<close>

section \<open>Names\<close>

definition rejectNameMaxLen :: nat where "rejectNameMaxLen = 64"

text \<open>The number of bytes of the rune a string starts with; a byte that starts no valid rune counts alone.\<close>

definition conts :: "nat \<Rightarrow> nat \<Rightarrow> nat \<Rightarrow> nat list \<Rightarrow> bool" where
  "conts lo hi n rest \<longleftrightarrow> n \<le> length rest \<and> lo \<le> hd rest \<and> hd rest \<le> hi \<and> list_all (\<lambda>b. 0x80 \<le> b \<and> b \<le> 0xBF) (take (n - 1) (tl rest))"

fun rune_width :: "nat list \<Rightarrow> nat" where
  "rune_width [] = 1"
| "rune_width (a # rest) =
     (if 0xC2 \<le> a \<and> a \<le> 0xDF \<and> conts 0x80 0xBF 1 rest then 2
      else if a = 0xE0 \<and> conts 0xA0 0xBF 2 rest then 3
      else if a = 0xED \<and> conts 0x80 0x9F 2 rest then 3
      else if 0xE1 \<le> a \<and> a \<le> 0xEF \<and> a \<noteq> 0xED \<and> conts 0x80 0xBF 2 rest then 3
      else if a = 0xF0 \<and> conts 0x90 0xBF 3 rest then 4
      else if 0xF1 \<le> a \<and> a \<le> 0xF3 \<and> conts 0x80 0xBF 3 rest then 4
      else if a = 0xF4 \<and> conts 0x80 0x8F 3 rest then 4
      else 1)"

definition shown :: "char \<Rightarrow> bool" where
  "shown c \<longleftrightarrow> 0x21 \<le> (of_char c :: nat) \<and> (of_char c :: nat) \<le> 0x7e"

lemma rune_width_pos [simp]: "0 < rune_width bs"
  by (induction bs rule: rune_width.induct) simp_all

function clean_from :: "nat \<Rightarrow> string \<Rightarrow> string" where
  "clean_from n s =
     (if s = [] \<or> rejectNameMaxLen \<le> n then []
      else if shown (hd s) then hd s # clean_from (n + 1) (tl s)
      else CHR ''?'' # clean_from (n + 1) (drop (rune_width (map of_char s)) s))"
  by pat_completeness auto
termination
  by (relation "measure (\<lambda>(n, s). length s)") (auto simp: diff_less)

declare clean_from.simps [simp del]

definition cleanName :: "string \<Rightarrow> string" where
  "cleanName s = clean_from 0 (ToLower (TrimSpace s))"

definition clean :: "string \<Rightarrow> bool" where
  "clean s \<longleftrightarrow> length s \<le> rejectNameMaxLen \<and> list_all shown s"

lemma clean_from_clean: "list_all shown (clean_from n s) \<and> n + length (clean_from n s) \<le> max n rejectNameMaxLen"
proof (induction n s rule: clean_from.induct)
  case (1 n s)
  show ?case
  proof (cases "s = [] \<or> rejectNameMaxLen \<le> n")
    case True
    then show ?thesis by (simp add: clean_from.simps)
  next
    case False
    have q: "shown (CHR ''?'')" by (simp add: shown_def)
    show ?thesis
    proof (cases "shown (hd s)")
      case True
      then show ?thesis using 1(1) False by (subst (1 2) clean_from.simps) (simp add: max_def)
    next
      case dirty: False
      then show ?thesis using 1(2) False q by (subst (1 2) clean_from.simps) (simp add: max_def)
    qed
  qed
qed

lemma cleanName_clean: "clean (cleanName s)"
  using clean_from_clean [of 0 "ToLower (TrimSpace s)"] by (simp add: clean_def cleanName_def)

text \<open>Cleaning leaves an ordinary host name alone.\<close>

lemma clean_from_id: "list_all shown s \<Longrightarrow> n + length s \<le> rejectNameMaxLen \<Longrightarrow> clean_from n s = s"
  by (induction s arbitrary: n) (simp_all add: clean_from.simps)

section \<open>Tables\<close>

definition hash32 :: "string \<Rightarrow> 32 word" where
  "hash32 s = fold (\<lambda>c h. (xor h (of_nat (of_char c))) * 16777619) s 2166136261"

record nameStat =
  ns_count :: int
  ns_ips :: "32 word list"
  ns_capd :: bool

record sourceStat =
  ss_count :: int
  ss_lastReason :: string
  ss_lastJA4 :: string

record rejectionLog =
  rl_reasons :: "(string, int) gomap"
  rl_names :: "(string, nameStat) gomap"
  rl_sources :: "(string, sourceStat) gomap"
  rl_ja4 :: "(string, int) gomap"
  rl_logGate :: Limiter

definition rejectNameCap :: nat where "rejectNameCap = 256"
definition rejectSourceCap :: nat where "rejectSourceCap = 256"
definition rejectJA4Cap :: nat where "rejectJA4Cap = 128"
definition rejectIPsPerName :: nat where "rejectIPsPerName = 64"
definition rejectSnapshotN :: nat where "rejectSnapshotN = 50"
definition rejectEvictScan :: nat where "rejectEvictScan = 16"
definition rejectLogWindow :: go_duration where "rejectLogWindow = ms 5000"

definition newRejectionLog :: rejectionLog where
  "newRejectionLog = \<lparr>rl_reasons = [], rl_names = [], rl_sources = [], rl_ja4 = [], rl_logGate = new_Limiter rejectLogWindow\<rparr>"

text \<open>\<open>visit\<close> is the order in which Go visits the keys of a map; every call may have its own.\<close>

fun smallest :: "('v \<Rightarrow> int) \<Rightarrow> ('k \<times> 'v) list \<Rightarrow> 'k \<times> int \<Rightarrow> 'k \<times> int" where
  "smallest count [] best = best"
| "smallest count ((k, v) # rest) best = smallest count rest (if snd best < 0 \<or> count v < snd best then (k, count v) else best)"

definition evictSampled :: "((string \<times> 'v) list \<Rightarrow> (string \<times> 'v) list) \<Rightarrow> ('v \<Rightarrow> int) \<Rightarrow> (string, 'v) gomap \<Rightarrow> (string, 'v) gomap" where
  "evictSampled visit count m = gm_del (fst (smallest count (take rejectEvictScan (visit m)) ([], -1))) m"

definition note_ip :: "string \<Rightarrow> nameStat \<Rightarrow> nameStat" where
  "note_ip ip st =
     (if ip = [] \<or> hash32 ip \<in> set (ns_ips st) then st
      else if rejectIPsPerName \<le> length (ns_ips st) then st\<lparr>ns_capd := True\<rparr>
      else st\<lparr>ns_ips := ns_ips st @ [hash32 ip]\<rparr>)"

definition recordName ::
  "((string \<times> nameStat) list \<Rightarrow> (string \<times> nameStat) list) \<Rightarrow> string \<Rightarrow> string \<Rightarrow> (string, nameStat) gomap \<Rightarrow> (string, nameStat) gomap" where
  "recordName visit name ip names =
     (case gm_get names name of
        None \<Rightarrow>
          gm_set name (note_ip ip \<lparr>ns_count = 1, ns_ips = [], ns_capd = False\<rparr>)
            (if rejectNameCap \<le> length names then evictSampled visit ns_count names else names)
      | Some st \<Rightarrow> gm_set name (note_ip ip (st\<lparr>ns_count := ns_count st + 1\<rparr>)) names)"

definition recordSource ::
  "((string \<times> sourceStat) list \<Rightarrow> (string \<times> sourceStat) list) \<Rightarrow> string \<Rightarrow> string \<Rightarrow> string \<Rightarrow> (string, sourceStat) gomap \<Rightarrow> (string, sourceStat) gomap" where
  "recordSource visit ip reason ja4 sources =
     (case gm_get sources ip of
        None \<Rightarrow>
          gm_set ip \<lparr>ss_count = 1, ss_lastReason = reason, ss_lastJA4 = ja4\<rparr>
            (if rejectSourceCap \<le> length sources then evictSampled visit ss_count sources else sources)
      | Some st \<Rightarrow>
          gm_set ip \<lparr>ss_count = ss_count st + 1, ss_lastReason = reason, ss_lastJA4 = (if ja4 \<noteq> [] then ja4 else ss_lastJA4 st)\<rparr> sources)"

definition recordJA4 :: "((string \<times> int) list \<Rightarrow> (string \<times> int) list) \<Rightarrow> string \<Rightarrow> (string, int) gomap \<Rightarrow> (string, int) gomap" where
  "recordJA4 visit ja4 m =
     (let m' = (if gm_get m ja4 = None \<and> rejectJA4Cap \<le> length m then evictSampled visit (\<lambda>c. c) m else m)
      in gm_set ja4 (gm_get0 m' 0 ja4 + 1) m')"

record visits =
  vi_names :: "(string \<times> nameStat) list \<Rightarrow> (string \<times> nameStat) list"
  vi_sources :: "(string \<times> sourceStat) list \<Rightarrow> (string \<times> sourceStat) list"
  vi_ja4 :: "(string \<times> int) list \<Rightarrow> (string \<times> int) list"

definition rejection_Record :: "visits \<Rightarrow> go_time \<Rightarrow> string \<Rightarrow> string \<Rightarrow> string \<Rightarrow> string \<Rightarrow> rejectionLog \<Rightarrow> (bool \<times> int) \<times> rejectionLog" where
  "rejection_Record vs now reason ip name0 ja0 l =
     (let name = cleanName name0; ja4 = cleanName ja0
      in (fst (Limiter_Allow (''reject|'' @ reason) now (rl_logGate l)),
          \<lparr>rl_reasons = gm_set reason (gm_get0 (rl_reasons l) 0 reason + 1) (rl_reasons l),
           rl_names = (if name \<noteq> [] then recordName (vi_names vs) name ip (rl_names l) else rl_names l),
           rl_sources = (if ip \<noteq> [] then recordSource (vi_sources vs) ip reason ja4 (rl_sources l) else rl_sources l),
           rl_ja4 = (if ja4 \<noteq> [] then recordJA4 (vi_ja4 vs) ja4 (rl_ja4 l) else rl_ja4 l),
           rl_logGate = snd (Limiter_Allow (''reject|'' @ reason) now (rl_logGate l))\<rparr>))"

definition rejection_Forget :: "string \<Rightarrow> rejectionLog \<Rightarrow> rejectionLog" where
  "rejection_Forget ip l = l\<lparr>rl_sources := gm_del ip (rl_sources l)\<rparr>"

text \<open>The rankings: the largest counts first, entries with equal counts in any order.\<close>

definition top :: "('a \<Rightarrow> int) \<Rightarrow> 'a list \<Rightarrow> 'a list" where
  "top count xs = take rejectSnapshotN (sort_key (\<lambda>x. - count x) xs)"

record RejectionSnapshot =
  sn_Reasons :: "(string, int) gomap"
  sn_Names :: "(string \<times> int \<times> nat \<times> bool) list"
  sn_Sources :: "(string \<times> int \<times> string \<times> string) list"
  sn_JA4 :: "(string \<times> int) list"

definition rejection_Snapshot :: "rejectionLog \<Rightarrow> RejectionSnapshot" where
  "rejection_Snapshot l =
     \<lparr>sn_Reasons = rl_reasons l,
      sn_Names = top (\<lambda>(n, c, k, b). c) (map (\<lambda>(n, st). (n, ns_count st, length (ns_ips st), ns_capd st)) (rl_names l)),
      sn_Sources = top (\<lambda>(n, c, r, j). c) (map (\<lambda>(n, st). (n, ss_count st, ss_lastReason st, ss_lastJA4 st)) (rl_sources l)),
      sn_JA4 = top snd (rl_ja4 l)\<rparr>"

section \<open>Evicting\<close>

definition visits_all :: "('a list \<Rightarrow> 'a list) \<Rightarrow> bool" where
  "visits_all visit \<longleftrightarrow> (\<forall>m. set (visit m) = set m \<and> length (visit m) = length m)"

lemma smallest_best: "0 \<le> snd best \<Longrightarrow> list_all (\<lambda>(k, v). 0 \<le> count v) xs \<Longrightarrow>
    snd (smallest count xs best) \<le> snd best \<and> 0 \<le> snd (smallest count xs best) \<and> list_all (\<lambda>(k, v). snd (smallest count xs best) \<le> count v) xs
    \<and> (smallest count xs best = best \<or> smallest count xs best \<in> (\<lambda>(k, v). (k, count v)) ` set xs)"
proof (induction count xs best rule: smallest.induct)
  case (2 count k v rest best)
  then show ?case by (cases "count v < snd best") (auto simp: list_all_iff)
qed simp

lemma smallest_start:
  assumes "xs \<noteq> []" "list_all (\<lambda>(k, v). 0 \<le> count v) xs"
  shows "smallest count xs ([], -1) \<in> (\<lambda>(k, v). (k, count v)) ` set xs"
    "list_all (\<lambda>(k, v). snd (smallest count xs ([], -1)) \<le> count v) xs"
proof -
  obtain k v rest where xs: "xs = (k, v) # rest" using assms(1) by (cases xs) auto
  have s: "smallest count xs ([], -1) = smallest count rest (k, count v)" by (simp add: xs)
  show "smallest count xs ([], -1) \<in> (\<lambda>(k, v). (k, count v)) ` set xs"
    "list_all (\<lambda>(k, v). snd (smallest count xs ([], -1)) \<le> count v) xs"
    unfolding s using smallest_best [of "(k, count v)" count rest] assms(2) by (auto simp: xs list_all_iff)
qed

definition table_ok :: "nat \<Rightarrow> ('v \<Rightarrow> int) \<Rightarrow> (string \<Rightarrow> 'v \<Rightarrow> bool) \<Rightarrow> (string, 'v) gomap \<Rightarrow> bool" where
  "table_ok cap count P m \<longleftrightarrow> gm_ok m \<and> length m \<le> cap \<and> (\<forall>k v. gm_get m k = Some v \<longrightarrow> 1 \<le> count v \<and> P k v)"

text \<open>The entry that goes is in the table and has the smallest count of those visited; an entry with more than every other one stays.\<close>

lemma victim:
  assumes "gm_ok m" "m \<noteq> []" "visits_all visit" "\<forall>k v. gm_get m k = Some v \<longrightarrow> 1 \<le> count v"
  obtains k v where "evictSampled visit count m = gm_del k m" "gm_get m k = Some v"
    "\<forall>(k', v') \<in> set (take rejectEvictScan (visit m)). count v \<le> count v'"
proof -
  let ?xs = "take rejectEvictScan (visit m)"
  have mem: "gm_get m k = Some v" if "(k, v) \<in> set ?xs" for k v
    using that assms(1,3) by (auto simp: visits_all_def gm_ok_def dest!: in_set_takeD)
  have "length (visit m) \<noteq> 0" using assms(2,3) by (simp add: visits_all_def)
  then have ne: "?xs \<noteq> []" by (simp add: rejectEvictScan_def)
  have nonneg: "list_all (\<lambda>(k, v). 0 \<le> count v) ?xs" using mem assms(4) by (fastforce simp: list_all_iff)
  obtain k v where kv: "(k, v) \<in> set ?xs" "smallest count ?xs ([], -1) = (k, count v)"
    using smallest_start(1) [OF ne nonneg] by auto
  show ?thesis
    using that [of k v] kv mem [OF kv(1)] smallest_start(2) [OF ne nonneg] by (simp add: evictSampled_def list_all_iff)
qed

lemma evict_ok:
  assumes "table_ok cap count P m" "cap \<le> length m" "0 < cap" "visits_all visit"
  shows "table_ok (cap - 1) count P (evictSampled visit count m)"
proof -
  have "m \<noteq> []" "gm_ok m" using assms by (auto simp: table_ok_def)
  moreover have "\<forall>k v. gm_get m k = Some v \<longrightarrow> 1 \<le> count v" using assms(1) by (simp add: table_ok_def)
  ultimately obtain k v where e: "evictSampled visit count m = gm_del k m" "gm_get m k = Some v" using victim assms(4) by metis
  then have "k \<in> set (gm_keys m)" by (metis map_of_eq_None_iff option.distinct(1) set_map)
  then have "Suc (length (gm_del k m)) = length m" using \<open>gm_ok m\<close> by (rule gm_length_del [rotated])
  then show ?thesis using assms(1) by (auto simp: table_ok_def e(1))
qed

lemma table_set: "table_ok cap count P m \<Longrightarrow> gm_get m k \<noteq> None \<or> length m < cap \<Longrightarrow> 1 \<le> count v \<Longrightarrow> P k v \<Longrightarrow> table_ok cap count P (gm_set k v m)"
  by (auto simp: table_ok_def gm_length_set Suc_le_eq)

lemma table_new:
  assumes "table_ok cap count P m" "0 < cap" "visits_all visit" "1 \<le> count v" "P k v"
  shows "table_ok cap count P (gm_set k v (if cap \<le> length m then evictSampled visit count m else m))"
proof (cases "cap \<le> length m")
  case True
  then have e: "table_ok (cap - 1) count P (evictSampled visit count m)" using evict_ok assms by metis
  then have "table_ok cap count P (evictSampled visit count m)" "length (evictSampled visit count m) < cap"
    using assms(2) by (auto simp: table_ok_def)
  then show ?thesis using True assms(4,5) by (simp add: table_set)
next
  case False
  then show ?thesis using assms by (simp add: table_set)
qed

lemma largest_stays:
  assumes "gm_ok m" "visits_all visit" "\<forall>k v. gm_get m k = Some v \<longrightarrow> 1 \<le> count v" "2 \<le> length m"
    and "gm_get m k = Some v" "\<And>k' v'. gm_get m k' = Some v' \<Longrightarrow> k' \<noteq> k \<Longrightarrow> count v' < count v"
  shows "gm_get (evictSampled visit count m) k = Some v"
proof -
  have "m \<noteq> []" using assms(4) by auto
  then obtain k0 v0 where e: "evictSampled visit count m = gm_del k0 m" "gm_get m k0 = Some v0"
      "\<forall>(k', v') \<in> set (take rejectEvictScan (visit m)). count v0 \<le> count v'"
    using victim [OF assms(1) _ assms(2,3)] by metis
  have "k0 \<noteq> k"
  proof
    assume k0: "k0 = k"
    let ?xs = "take rejectEvictScan (visit m)"
    have mem: "gm_get m k' = Some v'" if "(k', v') \<in> set ?xs" for k' v'
      using that assms(1,2) by (auto simp: visits_all_def gm_ok_def dest!: in_set_takeD)
    have "set ?xs \<subseteq> {(k, v)}"
    proof
      fix x assume x: "x \<in> set ?xs"
      obtain k' v' where kv: "x = (k', v')" by (cases x)
      have "count v0 \<le> count v'" "v0 = v" using e(2,3) x kv k0 assms(5) by auto
      then show "x \<in> {(k, v)}" using assms(5) assms(6) [of k' v'] mem [of k' v'] x kv by force
    qed
    then have "card (set ?xs) \<le> 1" using card_mono [of "{(k, v)}" "set ?xs"] by simp
    moreover have "distinct m" using assms(1) by (simp add: gm_ok_def distinct_map)
    then have "distinct (visit m)" using assms(2) unfolding visits_all_def by (metis card_distinct distinct_card)
    then have "card (set ?xs) = length ?xs" by (intro distinct_card) simp
    moreover have "length ?xs = min rejectEvictScan (length m)" using assms(2) by (simp add: visits_all_def)
    ultimately show False using assms(4) by (simp add: rejectEvictScan_def)
  qed
  then show ?thesis using assms(5) by (simp add: e(1))
qed

section \<open>Invariant\<close>

definition visits_ok :: "visits \<Rightarrow> bool" where
  "visits_ok vs \<longleftrightarrow> visits_all (vi_names vs) \<and> visits_all (vi_sources vs) \<and> visits_all (vi_ja4 vs)"

definition name_ok :: "string \<Rightarrow> nameStat \<Rightarrow> bool" where
  "name_ok name st \<longleftrightarrow> clean name \<and> length (ns_ips st) \<le> rejectIPsPerName \<and> distinct (ns_ips st)"

definition rejections_ok :: "rejectionLog \<Rightarrow> bool" where
  "rejections_ok l \<longleftrightarrow>
     table_ok rejectNameCap ns_count name_ok (rl_names l) \<and> table_ok rejectSourceCap ss_count (\<lambda>k v. True) (rl_sources l)
     \<and> table_ok rejectJA4Cap (\<lambda>c. c) (\<lambda>k v. clean k) (rl_ja4 l) \<and> gm_ok (rl_reasons l) \<and> limiter_ok (rl_logGate l)"

inductive rejection_run :: "rejectionLog \<Rightarrow> string list \<Rightarrow> bool" where
  started: "rejection_run newRejectionLog []"
| refused: "rejection_run l reasons \<Longrightarrow> visits_ok vs \<Longrightarrow> rejection_run (snd (rejection_Record vs now reason ip name ja4 l)) (reason # reasons)"
| forgotten: "rejection_run l reasons \<Longrightarrow> rejection_run (rejection_Forget ip l) reasons"

lemma caps: "rejectNameCap = 256" "rejectSourceCap = 256" "rejectJA4Cap = 128" "rejectIPsPerName = 64" "rejectNameMaxLen = 64"
  by (simp_all add: rejectNameCap_def rejectSourceCap_def rejectJA4Cap_def rejectIPsPerName_def rejectNameMaxLen_def)

lemma note_ip_ok: "name_ok name st \<Longrightarrow> name_ok name (note_ip ip st)"
  by (auto simp: note_ip_def name_ok_def)

lemma note_ip_count [simp]: "ns_count (note_ip ip st) = ns_count st"
  by (simp add: note_ip_def)

lemma recordName_ok:
  assumes "table_ok rejectNameCap ns_count name_ok m" "visits_all visit" "clean name"
  shows "table_ok rejectNameCap ns_count name_ok (recordName visit name ip m)"
proof (cases "gm_get m name")
  case None
  have "name_ok name (note_ip ip \<lparr>ns_count = 1, ns_ips = [], ns_capd = False\<rparr>)" using assms(3) by (intro note_ip_ok) (simp add: name_ok_def)
  then show ?thesis
    unfolding recordName_def None using table_new [OF assms(1) _ assms(2)] by (simp add: caps)
next
  case (Some st)
  then have st: "1 \<le> ns_count st" "name_ok name st" using assms(1) by (auto simp: table_ok_def)
  then have "name_ok name (note_ip ip (st\<lparr>ns_count := ns_count st + 1\<rparr>))" by (intro note_ip_ok) (simp add: name_ok_def)
  then show ?thesis using table_set [OF assms(1), of name] st Some by (simp add: recordName_def)
qed

lemma recordSource_ok:
  assumes "table_ok rejectSourceCap ss_count (\<lambda>k v. True) m" "visits_all visit"
  shows "table_ok rejectSourceCap ss_count (\<lambda>k v. True) (recordSource visit ip reason ja4 m)"
proof (cases "gm_get m ip")
  case None
  then show ?thesis unfolding recordSource_def None using table_new [OF assms(1) _ assms(2)] by (simp add: caps)
next
  case (Some st)
  then have "1 \<le> ss_count st" using assms(1) by (auto simp: table_ok_def)
  then show ?thesis using table_set [OF assms(1), of ip] Some by (simp add: recordSource_def)
qed

lemma recordJA4_ok:
  assumes "table_ok rejectJA4Cap (\<lambda>c. c) (\<lambda>k v. clean k) m" "visits_all visit" "clean ja4"
  shows "table_ok rejectJA4Cap (\<lambda>c. c) (\<lambda>k v. clean k) (recordJA4 visit ja4 m)"
proof (cases "gm_get m ja4")
  case None
  let ?m = "if rejectJA4Cap \<le> length m then evictSampled visit (\<lambda>c. c) m else m"
  have "gm_get ?m ja4 = None" using None by (simp add: evictSampled_def)
  then have "recordJA4 visit ja4 m = gm_set ja4 1 ?m" by (simp add: recordJA4_def None gm_get0_def)
  then show ?thesis using table_new [OF assms(1) _ assms(2), of 1 ja4] assms(3) by (simp add: caps)
next
  case (Some c)
  then have "1 \<le> c" using assms(1) by (auto simp: table_ok_def)
  then show ?thesis using table_set [OF assms(1), of ja4] Some assms(3) by (simp add: recordJA4_def gm_get0_def)
qed

lemma Record_ok: "rejections_ok l \<Longrightarrow> visits_ok vs \<Longrightarrow> rejections_ok (snd (rejection_Record vs now reason ip name ja4 l))"
  by (simp add: rejections_ok_def visits_ok_def rejection_Record_def Let_def recordName_ok recordSource_ok recordJA4_ok cleanName_clean Allow_ok)

lemma Forget_ok: "rejections_ok l \<Longrightarrow> rejections_ok (rejection_Forget ip l)"
  by (auto simp: rejections_ok_def rejection_Forget_def table_ok_def intro: order_trans [OF length_delete_le])

lemma run_rejections_ok: "rejection_run l reasons \<Longrightarrow> rejections_ok l \<and> (\<forall>r. gm_get0 (rl_reasons l) 0 r = int (count_list reasons r))"
proof (induction rule: rejection_run.induct)
  case started
  show ?case by (simp add: rejections_ok_def newRejectionLog_def table_ok_def start_ok gm_get0_def)
next
  case (refused l reasons vs now reason ip name ja4)
  then show ?case by (simp add: Record_ok) (simp add: rejection_Record_def Let_def)
next
  case (forgotten l reasons ip)
  then show ?case by (simp add: Forget_ok) (simp add: rejection_Forget_def)
qed

section \<open>Properties\<close>

text \<open>
  C0: Whatever clients send, what the entry remembers of refusals stays within its tables: at most 256 names, 256 sources and 128
  fingerprints, 64 hashes per name, names of at most 64 printable characters, while the counts per reason are exact.
\<close>

theorem rejections_bounded:
  assumes "rejection_run l reasons"
  shows "length (rl_names l) \<le> 256 \<and> length (rl_sources l) \<le> 256 \<and> length (rl_ja4 l) \<le> 128
    \<and> (gm_get (rl_names l) name = Some st \<longrightarrow> length name \<le> 64 \<and> list_all shown name \<and> length (ns_ips st) \<le> 64)
    \<and> gm_get0 (rl_reasons l) 0 r = int (count_list reasons r)"
  using run_rejections_ok [OF assms] by (auto simp: rejections_ok_def table_ok_def name_ok_def clean_def caps)

theorem rejections_bounded_witness:
  "gm_get0 (rl_reasons (snd (rejection_Record \<lparr>vi_names = rev, vi_sources = \<lambda>xs. xs, vi_ja4 = rev\<rparr> 5 ''no_sni'' ''192.0.2.1'' ''A b'' [] newRejectionLog))) 0 ''no_sni'' = 1"
proof -
  have "visits_ok \<lparr>vi_names = rev, vi_sources = \<lambda>xs. xs, vi_ja4 = rev\<rparr>" by (simp add: visits_ok_def visits_all_def)
  then show ?thesis using rejections_bounded [OF rejection_run.refused [OF rejection_run.started]] by simp
qed

end
