(* ===== verification/Client_Hello.thy ===== *)
theory Client_Hello
  imports Proxy_Protocol "HOL-Library.Monad_Syntax"
begin

text \<open>
  The name a TLS client asks for, read from its first record before TLS starts (\<open>internal/edge/tls/sni.go\<close>). Reading a
  byte or a slice out of range panics in Go; \<open>None\<close> is a panic. A Go slice can be extended to its capacity: \<open>beyond\<close> is what
  the memory behind the record holds up to there.
\<close>

section \<open>Reading bytes\<close>

definition byte_at :: "string \<Rightarrow> nat \<Rightarrow> nat option" where
  "byte_at s i = (if i < length s then Some (b2n (s ! i)) else None)"

definition u16_at :: "string \<Rightarrow> nat \<Rightarrow> nat option" where
  "u16_at s i = do { h \<leftarrow> byte_at s i; l \<leftarrow> byte_at s (i + 1); Some (h * 256 + l) }"

definition u24_at :: "string \<Rightarrow> nat \<Rightarrow> nat option" where
  "u24_at s i = do { h \<leftarrow> byte_at s i; l \<leftarrow> u16_at s (i + 1); Some (h * 65536 + l) }"

definition go_slice :: "string \<Rightarrow> string \<Rightarrow> nat \<Rightarrow> nat \<Rightarrow> string option" where
  "go_slice s beyond a b = (if a \<le> b \<and> b \<le> length (s @ beyond) then Some (take (b - a) (drop a (s @ beyond))) else None)"

section \<open>The record\<close>

fun sni_names :: "string \<Rightarrow> string" where
  "sni_names (t # h # l # rest) =
     (let n = b2n h * 256 + b2n l
      in if length rest < n then [] else if b2n t = 0 then take n rest else sni_names (drop n rest))"
| "sni_names short = []"

definition parseSNIExtension :: "string \<Rightarrow> string" where
  "parseSNIExtension data =
     (if length data < 2 then []
      else (let listLen = b2n (data ! 0) * 256 + b2n (data ! 1)
            in if length data < 2 + listLen then [] else sni_names (take listLen (drop 2 data))))"

function ext_loop :: "string \<Rightarrow> string \<Rightarrow> nat \<Rightarrow> nat \<Rightarrow> string option" where
  "ext_loop body beyond endp pos =
     (if pos + 4 \<le> endp then
        (case u16_at body pos of
           None \<Rightarrow> None
         | Some extType \<Rightarrow>
             (case u16_at body (pos + 2) of
                None \<Rightarrow> None
              | Some n \<Rightarrow>
                  if extType = 0 \<and> pos + 4 + n \<le> endp then map_option parseSNIExtension (go_slice body beyond (pos + 4) (pos + 4 + n))
                  else ext_loop body beyond endp (pos + 4 + n)))
      else Some [])"
  by pat_completeness auto
termination by (relation "measure (\<lambda>(body, beyond, endp, pos). endp - pos)") auto

declare ext_loop.simps [simp del]

definition client_hello_sni :: "string \<Rightarrow> string \<Rightarrow> string option" where
  "client_hello_sni body beyond =
     (if length body < 35 then Some []
      else do {
        sidLen \<leftarrow> byte_at body 34;
        let pos = 35 + sidLen;
        if length body < pos + 2 then Some []
        else do {
          csLen \<leftarrow> u16_at body pos;
          let pos = pos + 2 + csLen;
          if length body < pos + 1 then Some []
          else do {
            compLen \<leftarrow> byte_at body pos;
            let pos = pos + 1 + compLen;
            if length body < pos + 2 then Some []
            else do {
              extLen \<leftarrow> u16_at body pos;
              ext_loop body beyond (pos + 2 + extLen) (pos + 2)
            }
          }
        }
      })"

definition extractSNI :: "string \<Rightarrow> string \<Rightarrow> string option" where
  "extractSNI data beyond =
     (if length data < 5 then Some []
      else do {
        typ \<leftarrow> byte_at data 0;
        if typ \<noteq> 0x16 \<or> length data < 9 then Some []
        else do {
          recLen \<leftarrow> u16_at data 3;
          let hs = take recLen (drop 5 data);
          if length data < 5 + recLen \<or> length hs < 4 then Some []
          else do {
            hsType \<leftarrow> byte_at hs 0;
            hsLen \<leftarrow> u24_at hs 1;
            if hsType \<noteq> 1 \<or> length hs < 4 + hsLen then Some []
            else client_hello_sni (take hsLen (drop 4 hs)) (drop (9 + hsLen) (data @ beyond))
          }
        }
      })"

section \<open>The connection\<close>

text \<open>
  The results of successive reads: bytes, and whether an error came with them; reading on after the last gives an error. \<open>spare\<close> is
  what is behind the record in the buffer. What was read is replayed to the next reader.
\<close>

fun fill :: "nat \<Rightarrow> string \<Rightarrow> (string \<times> bool) list \<Rightarrow> string + (string \<times> (string \<times> bool) list)" where
  "fill need buf [] = (if need \<le> length buf then Inr (buf, []) else Inl buf)"
| "fill need buf ((bytes, failed) # reads) =
     (if need \<le> length buf then Inr (buf, (bytes, failed) # reads)
      else if failed then Inl (buf @ bytes) else fill need (buf @ bytes) reads)"

definition maxClientHelloRecord :: nat where
  "maxClientHelloRecord = 16 * 1024"

datatype peek_result =
    PeekFailed string
  | TooLarge string
  | Peeked string string
  | PeekPanic

definition PeekSNI :: "string \<Rightarrow> (string \<times> bool) list \<Rightarrow> peek_result" where
  "PeekSNI spare reads =
     (case fill 5 [] reads of
        Inl buf \<Rightarrow> PeekFailed buf
      | Inr (buf, rest) \<Rightarrow>
          if b2n (buf ! 0) \<noteq> 0x16 then Peeked [] buf
          else (let need = 5 + (b2n (buf ! 3) * 256 + b2n (buf ! 4))
                in if maxClientHelloRecord < need then TooLarge buf
                   else (case fill need buf rest of
                           Inl buf' \<Rightarrow> PeekFailed buf'
                         | Inr (buf', later) \<Rightarrow>
                             (case extractSNI (take need buf') (drop need buf' @ spare) of
                                None \<Rightarrow> PeekPanic
                              | Some sni \<Rightarrow> Peeked sni buf'))))"

section \<open>Messages\<close>

text \<open>How a ClientHello is laid out (RFC 8446, RFC 6066).\<close>

record client_hello =
  ch_Version :: string
  ch_Random :: string
  ch_Session :: string
  ch_Ciphers :: string
  ch_Compression :: string

definition render_extension :: "nat \<times> string \<Rightarrow> string" where
  "render_extension e = be_bytes 2 (fst e) @ be_bytes 2 (length (snd e)) @ snd e"

definition server_name :: "string \<Rightarrow> nat \<times> string" where
  "server_name n = (0, be_bytes 2 (length n + 3) @ CHR 0x00 # be_bytes 2 (length n) @ n)"

definition render_extensions :: "(nat \<times> string) list \<Rightarrow> string" where
  "render_extensions es = concat (map render_extension es)"

definition render_raw :: "client_hello \<Rightarrow> nat \<Rightarrow> string \<Rightarrow> string" where
  "render_raw c extLen rest =
     ch_Version c @ ch_Random c @ char_of (length (ch_Session c)) # ch_Session c @ be_bytes 2 (length (ch_Ciphers c)) @ ch_Ciphers c
     @ char_of (length (ch_Compression c)) # ch_Compression c @ be_bytes 2 extLen @ rest"

definition render_body :: "client_hello \<Rightarrow> (nat \<times> string) list \<Rightarrow> string" where
  "render_body c es = render_raw c (length (render_extensions es)) (render_extensions es)"

definition render_handshake :: "string \<Rightarrow> string" where
  "render_handshake body = CHR 0x01 # be_bytes 3 (length body) @ body"

definition render_record :: "string \<Rightarrow> string \<Rightarrow> string" where
  "render_record version hs = CHR 0x16 # version @ be_bytes 2 (length hs) @ hs"

definition hello_record :: "string \<Rightarrow> client_hello \<Rightarrow> (nat \<times> string) list \<Rightarrow> string" where
  "hello_record version c es = render_record version (render_handshake (render_body c es))"

definition fixed_fits :: "client_hello \<Rightarrow> bool" where
  "fixed_fits c \<longleftrightarrow>
     length (ch_Version c) = 2 \<and> length (ch_Random c) = 32 \<and> length (ch_Session c) < 256
     \<and> length (ch_Ciphers c) < 65536 \<and> length (ch_Compression c) < 256"

definition hello_fits :: "string \<Rightarrow> client_hello \<Rightarrow> (nat \<times> string) list \<Rightarrow> bool" where
  "hello_fits version c es \<longleftrightarrow>
     length version = 2 \<and> fixed_fits c \<and> list_all (\<lambda>e. fst e < 65536 \<and> length (snd e) < 65536) es \<and> length (render_extensions es) < 65536
     \<and> length (hello_record version c es) \<le> maxClientHelloRecord"

section \<open>Reading what was written\<close>

lemma byte_at_append: "byte_at (pre @ s) (length pre + i) = byte_at s i"
  by (simp add: byte_at_def nth_append)

lemma byte_at_pre: "i = length pre \<Longrightarrow> byte_at (pre @ s) i = byte_at s 0"
  using byte_at_append [of pre s 0] by simp

lemma u16_at_pre: "i = length pre \<Longrightarrow> u16_at (pre @ s) i = u16_at s 0"
  using byte_at_append [of pre s 0] byte_at_append [of pre s 1] by (simp add: u16_at_def)

lemma u24_at_pre: "i = length pre \<Longrightarrow> u24_at (pre @ s) i = u24_at s 0"
  using byte_at_append [of pre s 0] byte_at_append [of pre s 1] byte_at_append [of pre s 2] by (simp add: u24_at_def u16_at_def numeral_2_eq_2)

lemma byte_at_Cons [simp]: "byte_at (c # s) 0 = Some (b2n c)" "byte_at (c # s) (Suc i) = byte_at s i"
  by (simp_all add: byte_at_def)

lemma be_bytes_2: "be_bytes 2 v = [char_of (v div 256 mod 256), char_of (v mod 256)]"
  by (simp add: numeral_2_eq_2)

lemma be_bytes_3: "be_bytes 3 v = [char_of (v div 256 div 256 mod 256), char_of (v div 256 mod 256), char_of (v mod 256)]"
  by (simp add: numeral_3_eq_3 numeral_2_eq_2)

lemma u16_at_bytes: "v < 65536 \<Longrightarrow> u16_at (be_bytes 2 v @ s) 0 = Some v"
  by (simp add: u16_at_def be_bytes_2)

lemma three_bytes:
  assumes "v < (16777216 :: nat)"
  shows "(v div 256 div 256 mod 256) * 65536 + ((v div 256 mod 256) * 256 + v mod 256) = v"
proof -
  have "v div 256 * 256 + v mod 256 = v" "v div 256 div 256 * 256 + v div 256 mod 256 = v div 256"
    by (simp_all add: div_mult_mod_eq)
  moreover have "v div 256 div 256 mod 256 = v div 256 div 256" using assms by (simp add: less_mult_imp_div_less div_mult2_eq [symmetric])
  ultimately show ?thesis by linarith
qed

lemma u24_at_bytes: "v < 16777216 \<Longrightarrow> u24_at (be_bytes 3 v @ s) 0 = Some v"
  using three_bytes [of v] by (simp add: u24_at_def u16_at_def be_bytes_3)

lemma two_bytes: "v < (65536 :: nat) \<Longrightarrow> v div 256 mod 256 * 256 + v mod 256 = v"
  by (simp add: less_mult_imp_div_less div_mult_mod_eq)

lemma sni_extension: "length n + 3 < 65536 \<Longrightarrow> parseSNIExtension (snd (server_name n)) = n"
  using two_bytes [of "length n"] two_bytes [of "length n + 3"]
  by (simp add: parseSNIExtension_def server_name_def be_bytes_2 b2n_def Let_def del: mod_mod_trivial)

lemma ext_loop_extensions:
  "list_all (\<lambda>e. fst e < 65536 \<and> length (snd e) < 65536) es \<Longrightarrow>
   ext_loop (pre @ render_extensions es) beyond (length pre + length (render_extensions es)) (length pre) =
     Some (case find (\<lambda>e. fst e = 0) es of None \<Rightarrow> [] | Some e \<Rightarrow> parseSNIExtension (snd e))"
proof (induction es arbitrary: pre)
  case Nil
  then show ?case by (simp add: render_extensions_def ext_loop.simps)
next
  case (Cons e es)
  have fits: "fst e < 65536" "length (snd e) < 65536" and rest: "list_all (\<lambda>e. fst e < 65536 \<and> length (snd e) < 65536) es"
    using Cons.prems by simp_all
  let ?pos = "length pre" and ?n = "length (snd e)"
  have all: "render_extensions (e # es) = be_bytes 2 (fst e) @ be_bytes 2 ?n @ snd e @ render_extensions es"
    by (simp add: render_extensions_def render_extension_def)
  have kind: "u16_at (pre @ render_extensions (e # es)) ?pos = Some (fst e)"
    unfolding all by (simp add: u16_at_pre u16_at_bytes fits)
  have len: "u16_at (pre @ render_extensions (e # es)) (?pos + 2) = Some ?n"
    unfolding all using u16_at_pre [of "?pos + 2" "pre @ be_bytes 2 (fst e)" "be_bytes 2 ?n @ snd e @ render_extensions es"]
    by (simp add: u16_at_bytes fits)
  have slice: "go_slice (pre @ render_extensions (e # es)) beyond (?pos + 4) (?pos + 4 + ?n) = Some (snd e)"
    unfolding all by (simp add: go_slice_def)
  have cond: "?pos + 4 + ?n \<le> ?pos + length (render_extensions (e # es))" "4 \<le> length (render_extensions (e # es))"
    by (simp_all add: all)
  have loop: "ext_loop (pre @ render_extensions (e # es)) beyond (?pos + length (render_extensions (e # es))) (?pos + 4 + ?n) =
      Some (case find (\<lambda>e. fst e = 0) es of None \<Rightarrow> [] | Some e \<Rightarrow> parseSNIExtension (snd e))"
  proof -
    let ?q = "pre @ be_bytes 2 (fst e) @ be_bytes 2 ?n @ snd e"
    have "?q @ render_extensions es = pre @ render_extensions (e # es)" "length ?q = ?pos + 4 + ?n"
      "length ?q + length (render_extensions es) = ?pos + length (render_extensions (e # es))"
      by (simp_all add: all)
    then show ?thesis using Cons.IH [OF rest, of ?q] by (simp only:)
  qed
  show ?case
    by (subst ext_loop.simps) (simp add: kind len slice cond loop del: add_2_eq_Suc add_2_eq_Suc')
qed

lemma client_hello_raw:
  assumes "fixed_fits c" "extLen < 65536"
  shows "client_hello_sni (render_raw c extLen rest) beyond =
    ext_loop (render_raw c extLen rest) beyond (length (render_raw c extLen rest) - length rest + extLen)
      (length (render_raw c extLen rest) - length rest)"
proof -
  let ?s = "ch_Session c" and ?k = "ch_Ciphers c" and ?m = "ch_Compression c"
  let ?head = "ch_Version c @ ch_Random c"
  have f: "length ?head = 34" "length ?s < 256" "length ?k < 65536" "length ?m < 256" using assms by (simp_all add: fixed_fits_def)
  let ?b = "render_raw c extLen rest"
  have sid: "byte_at ?b 34 = Some (length ?s)"
    using byte_at_pre [of 34 ?head] f by (simp add: render_raw_def)
  have cs: "u16_at ?b (35 + length ?s) = Some (length ?k)"
    using u16_at_pre [of "35 + length ?s" "?head @ char_of (length ?s) # ?s"] f by (simp add: render_raw_def u16_at_bytes)
  have comp: "byte_at ?b (37 + length ?s + length ?k) = Some (length ?m)"
    using byte_at_pre [of "37 + length ?s + length ?k" "?head @ char_of (length ?s) # ?s @ be_bytes 2 (length ?k) @ ?k"] f by (simp add: render_raw_def)
  have ext: "u16_at ?b (38 + length ?s + length ?k + length ?m) = Some extLen"
    using u16_at_pre [of "38 + length ?s + length ?k + length ?m"
        "?head @ char_of (length ?s) # ?s @ be_bytes 2 (length ?k) @ ?k @ char_of (length ?m) # ?m"] f assms(2)
    by (simp add: render_raw_def u16_at_bytes)
  have len: "length ?b = 40 + length ?s + length ?k + length ?m + length rest" using f by (simp add: render_raw_def)
  show ?thesis
    using sid cs comp ext by (simp add: client_hello_sni_def len Let_def ac_simps)
qed

lemma client_hello_body:
  assumes "fixed_fits c" "list_all (\<lambda>e. fst e < 65536 \<and> length (snd e) < 65536) es" "length (render_extensions es) < 65536"
  shows "client_hello_sni (render_body c es) beyond =
    Some (case find (\<lambda>e. fst e = 0) es of None \<Rightarrow> [] | Some e \<Rightarrow> parseSNIExtension (snd e))"
proof -
  obtain pre where pre: "render_body c es = pre @ render_extensions es"
    unfolding render_body_def render_raw_def by (metis append.assoc append_Cons)
  show ?thesis
    using client_hello_raw [OF assms(1,3), of "render_extensions es" beyond, folded render_body_def] ext_loop_extensions [OF assms(2), of pre beyond]
    by (simp add: pre)
qed

lemma extractSNI_record:
  assumes "length version = 2" "length body < 65532"
  shows "extractSNI (render_record version (render_handshake body)) beyond = client_hello_sni body beyond"
proof -
  let ?hs = "render_handshake body" and ?r = "render_record version (render_handshake body)"
  have hs: "length ?hs = 4 + length body" by (simp add: render_handshake_def)
  have len: "length ?r = 9 + length body" using assms(1) by (simp add: render_record_def hs)
  have kind: "byte_at ?r 0 = Some 0x16" by (simp add: render_record_def b2n_def)
  have recLen: "u16_at ?r 3 = Some (4 + length body)"
    using u16_at_pre [of 3 "CHR 0x16 # version" "be_bytes 2 (length ?hs) @ ?hs"] assms by (simp add: render_record_def hs u16_at_bytes)
  have drop: "drop 5 ?r = ?hs" using assms(1) by (simp add: render_record_def)
  have hsType: "byte_at ?hs 0 = Some 1" by (simp add: render_handshake_def b2n_def)
  have hsLen: "u24_at ?hs 1 = Some (length body)"
    using u24_at_pre [of 1 "[CHR 0x01]" "be_bytes 3 (length body) @ body"] assms(2) by (simp add: render_handshake_def u24_at_bytes)
  have body: "drop 4 ?hs = body" by (simp add: render_handshake_def)
  show ?thesis
    using hsLen by (simp add: extractSNI_def kind recLen len drop hsType hs body)
qed

lemma extractSNI_hello:
  assumes "hello_fits version c es"
  shows "extractSNI (hello_record version c es) beyond =
    Some (case find (\<lambda>e. fst e = 0) es of None \<Rightarrow> [] | Some e \<Rightarrow> parseSNIExtension (snd e))"
proof -
  have "length (hello_record version c es) = length version + 7 + length (render_body c es)"
    by (simp add: hello_record_def render_record_def render_handshake_def)
  then have "length version = 2" "length (render_body c es) < 65532"
    using assms by (simp_all add: hello_fits_def maxClientHelloRecord_def)
  then show ?thesis
    using client_hello_body assms by (simp add: hello_record_def extractSNI_record hello_fits_def)
qed

section \<open>Reading in pieces\<close>

lemma fill_ok:
  "list_all (\<lambda>(b, failed). \<not> failed) reads \<Longrightarrow> need \<le> length (buf @ concat (map fst reads)) \<Longrightarrow>
   \<exists>buf' rest. fill need buf reads = Inr (buf', rest) \<and> buf' @ concat (map fst rest) = buf @ concat (map fst reads)
     \<and> need \<le> length buf' \<and> list_all (\<lambda>(b, failed). \<not> failed) rest"
proof (induction need buf reads rule: fill.induct)
  case (2 need buf bytes failed reads)
  then show ?case by (cases "need \<le> length buf") auto
qed auto

lemma take_stream: "buf @ xs = s \<Longrightarrow> n \<le> length buf \<Longrightarrow> take n buf = take n s"
  by (metis take_append diff_is_0_eq' take0 append_Nil2)

lemma peek_stream:
  assumes reads: "list_all (\<lambda>(b, failed). \<not> failed) reads" and stream: "concat (map fst reads) = render_record version hs @ later"
    and fits: "length version = 2" "length (render_record version hs) \<le> maxClientHelloRecord"
  shows "\<exists>buf beyond rest. buf @ rest = concat (map fst reads) \<and> PeekSNI spare reads =
      (case extractSNI (render_record version hs) beyond of None \<Rightarrow> PeekPanic | Some sni \<Rightarrow> Peeked sni buf)"
proof -
  let ?r = "render_record version hs" and ?s = "concat (map fst reads)"
  have len: "length ?r = 5 + length hs" using fits(1) by (simp add: render_record_def)
  then have small: "length hs < 65536" using fits(2) by (simp add: maxClientHelloRecord_def)
  obtain buf rest where one: "fill 5 [] reads = Inr (buf, rest)" "buf @ concat (map fst rest) = ?s" "5 \<le> length buf" "list_all (\<lambda>(b, failed). \<not> failed) rest"
    using fill_ok [OF reads, of 5 "[]"] stream len by auto
  have start: "take 5 buf = take 5 ?r"
    using take_stream [OF one(2,3)] take_stream [OF stream [symmetric], of 5] len by simp
  have nth: "buf ! i = ?r ! i" if "i < 5" for i using arg_cong [OF start, of "\<lambda>xs. xs ! i"] that one(3) len by simp
  have first: "b2n (buf ! 0) = 0x16" using nth [of 0] by (simp add: render_record_def b2n_def)
  have "?r ! 3 = char_of (length hs div 256 mod 256)" "?r ! 4 = char_of (length hs mod 256)"
    using fits(1) by (simp_all add: render_record_def be_bytes_2 nth_append nth_Cons')
  then have need: "5 + (b2n (buf ! 3) * 256 + b2n (buf ! 4)) = length ?r"
    using nth [of 3] nth [of 4] two_bytes [OF small] len by simp
  have "length ?r \<le> length (buf @ concat (map fst rest))" by (simp only: one(2) stream length_append)
  then obtain buf' rest' where two: "fill (length ?r) buf rest = Inr (buf', rest')" "buf' @ concat (map fst rest') = ?s" "length ?r \<le> length buf'"
    using fill_ok [OF one(4), of "length ?r" buf] one(2) by auto
  have whole: "take (length ?r) buf' = ?r" using take_stream [OF two(2,3)] stream by simp
  have "PeekSNI spare reads = (case extractSNI ?r (drop (length ?r) buf' @ spare) of None \<Rightarrow> PeekPanic | Some sni \<Rightarrow> Peeked sni buf')"
    using fits(2) by (simp add: PeekSNI_def one(1) first need two(1) whole Let_def)
  then show ?thesis using two(2) by blast
qed

section \<open>Panics\<close>

lemma ext_loop_total: "endp \<le> length body \<Longrightarrow> ext_loop body beyond endp pos \<noteq> None"
proof (induction body beyond endp pos rule: ext_loop.induct)
  case (1 body beyond endp pos)
  show ?case
  proof (cases "pos + 4 \<le> endp")
    case False
    then show ?thesis by (simp add: ext_loop.simps)
  next
    case True
    then obtain t n where tn: "u16_at body pos = Some t" "u16_at body (pos + 2) = Some n"
      using 1(2) by (simp add: u16_at_def byte_at_def)
    then show ?thesis
      using True 1(1) [OF True tn] 1(2) by (subst ext_loop.simps) (auto simp: go_slice_def)
  qed
qed

lemma ext_loop_panics: "pos + 4 \<le> endp \<Longrightarrow> length body < pos + 4 \<Longrightarrow> ext_loop body beyond endp pos = None"
  by (subst ext_loop.simps) (auto simp: u16_at_def byte_at_def split: option.split)

end
