(* ===== verification/Certificates.thy ===== *)
theory Certificates
  imports Gostrings
begin

text \<open>
  The certificates of the gateway (\<open>internal/edge/tls/certstore.go\<close>) and its answers to ACME challenges
  (\<open>internal/edge/tls/acmechallenge.go\<close>). \<open>pair\<close> stands for \<open>tls.X509KeyPair\<close>, \<open>sans\<close> for the DNS names of the leaf of a PEM.
\<close>

section \<open>Certificates\<close>

record Certificate =
  ct_Certificate :: "string list"
  ct_PrivateKey :: string
  ct_OCSPStaple :: string

section \<open>ACME challenges\<close>

definition ChallengeHTTP01 :: string where "ChallengeHTTP01 = ''http-01''"
definition ChallengeTLSALPN01 :: string where "ChallengeTLSALPN01 = ''tls-alpn-01''"
definition ACMETLSALPNProto :: string where "ACMETLSALPNProto = ''acme-tls/1''"
definition ACMEHTTPPathPrefix :: string where "ACMEHTTPPathPrefix = ''/.well-known/acme-challenge/''"
definition challengeTTL :: go_duration where "challengeTTL = ms (15 * 60 * 1000)"

record ACMEChallenge =
  ac_Type :: string
  ac_Domain :: string
  ac_Clear :: bool
  ac_Token :: string
  ac_Response :: string
  ac_CertPEM :: string
  ac_KeyPEM :: string

record httpChallenge =
  hc_response :: string
  hc_expires :: go_time

record alpnChallenge =
  al_cert :: Certificate
  al_expires :: go_time

record ChallengeStore =
  chs_http :: "(string, httpChallenge) gomap"
  chs_alpn :: "(string, alpnChallenge) gomap"

definition NewChallengeStore :: ChallengeStore where
  "NewChallengeStore = \<lparr>chs_http = [], chs_alpn = []\<rparr>"

definition purgeLocked :: "go_time \<Rightarrow> ChallengeStore \<Rightarrow> ChallengeStore" where
  "purgeLocked now s =
     s\<lparr>chs_http := filter (\<lambda>(k, c). now < hc_expires c) (chs_http s), chs_alpn := filter (\<lambda>(k, c). now < al_expires c) (chs_alpn s)\<rparr>"

datatype challenge_error = NoToken | NoDomain | BadCertificate | UnknownType

text \<open>The clock is read once per message.\<close>

definition ChallengeStore_Apply ::
  "(string \<Rightarrow> string \<Rightarrow> Certificate option) \<Rightarrow> go_time \<Rightarrow> ACMEChallenge \<Rightarrow> ChallengeStore \<Rightarrow> challenge_error option \<times> ChallengeStore" where
  "ChallengeStore_Apply pair now ch s0 =
     (let s = purgeLocked now s0; domain = ToLower (ac_Domain ch)
      in if ac_Type ch = ChallengeHTTP01 then
           if ac_Token ch = [] then (Some NoToken, s)
           else if ac_Clear ch then (None, s\<lparr>chs_http := gm_del (ac_Token ch) (chs_http s)\<rparr>)
           else (None, s\<lparr>chs_http := gm_set (ac_Token ch) \<lparr>hc_response = ac_Response ch, hc_expires = now + challengeTTL\<rparr> (chs_http s)\<rparr>)
         else if ac_Type ch = ChallengeTLSALPN01 then
           if domain = [] then (Some NoDomain, s)
           else if ac_Clear ch then (None, s\<lparr>chs_alpn := gm_del domain (chs_alpn s)\<rparr>)
           else (case pair (ac_CertPEM ch) (ac_KeyPEM ch) of
                   None \<Rightarrow> (Some BadCertificate, s)
                 | Some cert \<Rightarrow> (None, s\<lparr>chs_alpn := gm_set domain \<lparr>al_cert = cert, al_expires = now + challengeTTL\<rparr> (chs_alpn s)\<rparr>))
         else (Some UnknownType, s))"

definition HTTPResponse :: "string \<Rightarrow> go_time \<Rightarrow> ChallengeStore \<Rightarrow> string option" where
  "HTTPResponse token now s =
     (case gm_get (chs_http s) token of
        None \<Rightarrow> None
      | Some c \<Rightarrow> if now < hc_expires c then Some (hc_response c) else None)"

definition ALPNCert :: "string \<Rightarrow> go_time \<Rightarrow> ChallengeStore \<Rightarrow> Certificate option" where
  "ALPNCert sni now s =
     (case gm_get (chs_alpn s) (ToLower sni) of
        None \<Rightarrow> None
      | Some c \<Rightarrow> if now < al_expires c then Some (al_cert c) else None)"

text \<open>What is answered on the HTTP port; \<open>None\<close> leaves the request to the routes.\<close>

definition serveACMEChallenge :: "string \<Rightarrow> string \<Rightarrow> go_time \<Rightarrow> ChallengeStore \<Rightarrow> string option" where
  "serveACMEChallenge method path now s =
     (if method \<noteq> ''GET'' \<or> \<not> HasPrefix path ACMEHTTPPathPrefix then None
      else HTTPResponse (TrimPrefix path ACMEHTTPPathPrefix) now s)"

section \<open>The store of certificates\<close>

record CachedCert =
  cc_Name :: string
  cc_CertPEM :: string
  cc_KeyPEM :: string

record CertStore =
  cs_certs :: "(string, Certificate) gomap"
  cs_pems :: "(string, CachedCert) gomap"
  cs_Challenges :: ChallengeStore

definition NewCertStore :: CertStore where
  "NewCertStore = \<lparr>cs_certs = [], cs_pems = [], cs_Challenges = NewChallengeStore\<rparr>"

definition CertStore_Store :: "string \<Rightarrow> Certificate \<Rightarrow> CertStore \<Rightarrow> CertStore" where
  "CertStore_Store name cert s = s\<lparr>cs_certs := gm_set name cert (cs_certs s)\<rparr>"

text \<open>\<open>pair\<close> is \<open>tls.X509KeyPair\<close>. The staple of a certificate that stays the same is kept.\<close>

definition StorePEM :: "(string \<Rightarrow> string \<Rightarrow> Certificate option) \<Rightarrow> string \<Rightarrow> string \<Rightarrow> string \<Rightarrow> CertStore \<Rightarrow> bool \<times> CertStore" where
  "StorePEM pair name certPEM keyPEM s =
     (case pair certPEM keyPEM of
        None \<Rightarrow> (False, s)
      | Some cert \<Rightarrow>
          (let kept = (case gm_get (cs_certs s) name of
                         None \<Rightarrow> cert
                       | Some old \<Rightarrow>
                           if ct_Certificate old \<noteq> [] \<and> ct_Certificate cert \<noteq> [] \<and> hd (ct_Certificate old) = hd (ct_Certificate cert)
                           then cert\<lparr>ct_OCSPStaple := ct_OCSPStaple old\<rparr> else cert)
           in (True, s\<lparr>cs_certs := gm_set name kept (cs_certs s),
                      cs_pems := gm_set name \<lparr>cc_Name = name, cc_CertPEM = certPEM, cc_KeyPEM = keyPEM\<rparr> (cs_pems s)\<rparr>)))"

definition CertStore_Delete :: "string \<Rightarrow> CertStore \<Rightarrow> CertStore" where
  "CertStore_Delete name s = s\<lparr>cs_certs := gm_del name (cs_certs s), cs_pems := gm_del name (cs_pems s)\<rparr>"

definition AllPEMs :: "CertStore \<Rightarrow> CachedCert list" where
  "AllPEMs s = map snd (cs_pems s)"

definition CertStore_Names :: "CertStore \<Rightarrow> string list" where
  "CertStore_Names s = map fst (cs_certs s)"

definition CertStore_Len :: "CertStore \<Rightarrow> nat" where
  "CertStore_Len s = length (cs_certs s)"

definition lookupLocked :: "string \<Rightarrow> CertStore \<Rightarrow> (string \<times> Certificate) option" where
  "lookupLocked name s =
     (case gm_get (cs_certs s) name of
        Some c \<Rightarrow> Some (name, c)
      | None \<Rightarrow>
          (case Option.bind (IndexByte name CHR ''.'') (\<lambda>dot. map_option (Pair (''*'' @ drop dot name)) (gm_get (cs_certs s) (''*'' @ drop dot name))) of
             Some r \<Rightarrow> Some r
           | None \<Rightarrow> map_option (Pair (''*.'' @ name)) (gm_get (cs_certs s) (''*.'' @ name))))"

text \<open>\<open>protos\<close> are the protocols the client offers.\<close>

definition wantsACMEALPN :: "string list \<Rightarrow> bool" where
  "wantsACMEALPN protos \<longleftrightarrow> ACMETLSALPNProto \<in> set protos"

definition GetCertificate :: "string list \<Rightarrow> string \<Rightarrow> go_time \<Rightarrow> CertStore \<Rightarrow> Certificate option" where
  "GetCertificate protos name now s =
     (if wantsACMEALPN protos then ALPNCert name now (cs_Challenges s) else map_option snd (lookupLocked name s))"

definition NameFor :: "string \<Rightarrow> CertStore \<Rightarrow> string option" where
  "NameFor name s = map_option fst (lookupLocked name s)"

text \<open>\<open>sans\<close> are the DNS names of the leaf of a PEM.\<close>

definition push_add :: "string \<Rightarrow> string list \<Rightarrow> string list" where
  "push_add n0 out = (let n = ToLower (TrimSpace n0) in if n = [] \<or> n \<in> set out then out else out @ [n])"

definition PushNames :: "(string \<Rightarrow> string list) \<Rightarrow> string \<Rightarrow> string \<Rightarrow> string list" where
  "PushNames sans dbDomain certPEM = (let out = fold push_add (sans certPEM) [] in if out = [] then push_add dbDomain [] else out)"

section \<open>Certificates and names\<close>

text \<open>What is found under a name is stored under the name itself, under the wildcard of its domain or under the wildcard below it.\<close>

lemma lookup_exact:
  "lookupLocked name s = Some (k, c) \<longleftrightarrow>
     gm_get (cs_certs s) k = Some c
     \<and> (k = name
        \<or> gm_get (cs_certs s) name = None
          \<and> ((\<exists>dot. IndexByte name CHR ''.'' = Some dot \<and> k = ''*'' @ drop dot name)
             \<or> (\<forall>dot. IndexByte name CHR ''.'' = Some dot \<longrightarrow> gm_get (cs_certs s) (''*'' @ drop dot name) = None) \<and> k = ''*.'' @ name))"
proof (cases "gm_get (cs_certs s) name")
  case (Some c0)
  then show ?thesis by (auto simp: lookupLocked_def)
next
  case None
  show ?thesis
  proof (cases "IndexByte name CHR ''.''")
    case dotless: None
    then show ?thesis using None by (auto simp: lookupLocked_def)
  next
    case (Some dot)
    then show ?thesis using None by (cases "gm_get (cs_certs s) (''*'' @ drop dot name)") (auto simp: lookupLocked_def)
  qed
qed

text \<open>
  A certificate for the names below a domain is also given for the domain itself, which it need not cover; a name is looked up as the
  client wrote it, while it is stored in lower case.
\<close>

lemma wildcard_answers_apex: "GetCertificate [] ''a.io'' now (CertStore_Store ''*.a.io'' cert NewCertStore) = Some cert"
  by (simp add: GetCertificate_def wantsACMEALPN_def lookupLocked_def CertStore_Store_def NewCertStore_def)

lemma lower_case: "ToLower (TrimSpace ''A.io'') = ''a.io''"
  by code_simp

lemma upper_case_refused:
  "PushNames (\<lambda>pem. [''A.io'']) db pem = [''a.io'']" "GetCertificate [] ''A.io'' now (CertStore_Store ''a.io'' cert NewCertStore) = None"
  by (simp_all add: PushNames_def push_add_def lower_case Let_def GetCertificate_def wantsACMEALPN_def lookupLocked_def CertStore_Store_def NewCertStore_def)

section \<open>Answers to challenges\<close>

text \<open>What should be answered, from the messages received, the latest first: the last one about the token or the domain decides.\<close>

definition about_token :: "string \<Rightarrow> go_time \<times> ACMEChallenge \<Rightarrow> bool" where
  "about_token token m \<longleftrightarrow> ac_Type (snd m) = ChallengeHTTP01 \<and> ac_Token (snd m) = token"

definition about_domain :: "(string \<Rightarrow> string \<Rightarrow> Certificate option) \<Rightarrow> string \<Rightarrow> go_time \<times> ACMEChallenge \<Rightarrow> bool" where
  "about_domain pair domain m \<longleftrightarrow>
     ac_Type (snd m) = ChallengeTLSALPN01 \<and> ToLower (ac_Domain (snd m)) = domain
     \<and> (ac_Clear (snd m) \<or> pair (ac_CertPEM (snd m)) (ac_KeyPEM (snd m)) \<noteq> None)"

definition in_force :: "go_time \<Rightarrow> go_time \<times> ACMEChallenge \<Rightarrow> bool" where
  "in_force now m \<longleftrightarrow> \<not> ac_Clear (snd m) \<and> now < fst m + challengeTTL"

definition expected_response :: "string \<Rightarrow> go_time \<Rightarrow> (go_time \<times> ACMEChallenge) list \<Rightarrow> string option" where
  "expected_response token now msgs =
     (case find (about_token token) msgs of None \<Rightarrow> None | Some m \<Rightarrow> if in_force now m then Some (ac_Response (snd m)) else None)"

definition expected_cert :: "(string \<Rightarrow> string \<Rightarrow> Certificate option) \<Rightarrow> string \<Rightarrow> go_time \<Rightarrow> (go_time \<times> ACMEChallenge) list \<Rightarrow> Certificate option" where
  "expected_cert pair domain now msgs =
     (case find (about_domain pair domain) msgs of
        None \<Rightarrow> None | Some m \<Rightarrow> if in_force now m then pair (ac_CertPEM (snd m)) (ac_KeyPEM (snd m)) else None)"

definition challenges_after :: "(string \<Rightarrow> string \<Rightarrow> Certificate option) \<Rightarrow> (go_time \<times> ACMEChallenge) list \<Rightarrow> ChallengeStore" where
  "challenges_after pair msgs = foldr (\<lambda>m s. snd (ChallengeStore_Apply pair (fst m) (snd m) s)) msgs NewChallengeStore"

definition challenges_ok :: "ChallengeStore \<Rightarrow> bool" where
  "challenges_ok s \<longleftrightarrow> gm_ok (chs_http s) \<and> gm_ok (chs_alpn s)"

lemma purge_ok: "challenges_ok s \<Longrightarrow> challenges_ok (purgeLocked t s)"
  by (simp add: challenges_ok_def purgeLocked_def gm_ok_filter)

lemma Apply_keeps_ok: "challenges_ok s \<Longrightarrow> challenges_ok (snd (ChallengeStore_Apply pair t ch s))"
  using purge_ok [of s t] by (auto simp: ChallengeStore_Apply_def challenges_ok_def Let_def split: option.split)

text \<open>Purging at an instant that has come changes no answer.\<close>

lemma purge_answers:
  assumes "challenges_ok s" "t \<le> now"
  shows "HTTPResponse token now (purgeLocked t s) = HTTPResponse token now s" "ALPNCert sni now (purgeLocked t s) = ALPNCert sni now s"
  using assms by (auto simp: HTTPResponse_def ALPNCert_def purgeLocked_def challenges_ok_def gm_get_filter split: option.split)

lemma Apply_response:
  assumes "challenges_ok s" "t \<le> now" "token \<noteq> []"
  shows "HTTPResponse token now (snd (ChallengeStore_Apply pair t ch s)) =
    (if about_token token (t, ch) then if in_force now (t, ch) then Some (ac_Response ch) else None else HTTPResponse token now s)"
  unfolding purge_answers(1) [OF assms(1,2), of token, symmetric]
  using assms(3) by (auto simp: ChallengeStore_Apply_def about_token_def in_force_def HTTPResponse_def Let_def
      ChallengeHTTP01_def ChallengeTLSALPN01_def split: option.split)

lemma Apply_cert:
  assumes "challenges_ok s" "t \<le> now" "ToLower sni \<noteq> []"
  shows "ALPNCert sni now (snd (ChallengeStore_Apply pair t ch s)) =
    (if about_domain pair (ToLower sni) (t, ch) then if in_force now (t, ch) then pair (ac_CertPEM ch) (ac_KeyPEM ch) else None
     else ALPNCert sni now s)"
  unfolding purge_answers(2) [OF assms(1,2), of sni, symmetric]
  using assms(3) by (auto simp: ChallengeStore_Apply_def about_domain_def in_force_def ALPNCert_def Let_def
      ChallengeHTTP01_def ChallengeTLSALPN01_def split: option.split)

lemma new_challenges_ok: "challenges_ok NewChallengeStore"
  by (simp add: challenges_ok_def NewChallengeStore_def)

lemma challenges_after_ok: "challenges_ok (challenges_after pair msgs)"
  by (induction msgs) (simp_all add: challenges_after_def Apply_keeps_ok new_challenges_ok)

lemma answers_expected:
  assumes "list_all (\<lambda>m. fst m \<le> now) msgs"
  shows "token \<noteq> [] \<Longrightarrow> HTTPResponse token now (challenges_after pair msgs) = expected_response token now msgs"
    "ToLower sni \<noteq> [] \<Longrightarrow> ALPNCert sni now (challenges_after pair msgs) = expected_cert pair (ToLower sni) now msgs"
proof -
  have step: "challenges_after pair (m # msgs) = snd (ChallengeStore_Apply pair (fst m) (snd m) (challenges_after pair msgs))" for m msgs
    by (simp add: challenges_after_def)
  show "token \<noteq> [] \<Longrightarrow> HTTPResponse token now (challenges_after pair msgs) = expected_response token now msgs"
    using assms
  proof (induction msgs)
    case Nil
    then show ?case by (simp add: challenges_after_def NewChallengeStore_def HTTPResponse_def expected_response_def)
  next
    case (Cons m msgs)
    then show ?case
      unfolding step by (subst Apply_response) (simp_all add: challenges_after_ok expected_response_def)
  qed
  show "ToLower sni \<noteq> [] \<Longrightarrow> ALPNCert sni now (challenges_after pair msgs) = expected_cert pair (ToLower sni) now msgs"
    using assms
  proof (induction msgs)
    case Nil
    then show ?case by (simp add: challenges_after_def NewChallengeStore_def ALPNCert_def expected_cert_def)
  next
    case (Cons m msgs)
    then show ?case
      unfolding step by (subst Apply_cert) (simp_all add: challenges_after_ok expected_cert_def)
  qed
qed

section \<open>Properties\<close>

text \<open>
  C0: Both ACME challenges are answered as the messages received say: the last message about the token, or about the name in whatever case,
  decides, it holds for fifteen minutes unless it withdraws the challenge, and a message with a broken certificate changes nothing; when the
  clock has not gone back. A handshake for a challenge never gets an ordinary certificate.
\<close>

theorem challenges_answered:
  assumes "list_all (\<lambda>m. fst m \<le> now) msgs" "token \<noteq> []" "sni \<noteq> []"
  shows "serveACMEChallenge ''GET'' (ACMEHTTPPathPrefix @ token) now (challenges_after pair msgs) = expected_response token now msgs
    \<and> GetCertificate [''h2'', ACMETLSALPNProto] sni now (s\<lparr>cs_Challenges := challenges_after pair msgs\<rparr>) = expected_cert pair (ToLower sni) now msgs"
proof -
  have "ToLower sni \<noteq> []" using assms(3) by (simp add: ToLower_def)
  then show ?thesis
    using answers_expected [OF assms(1)] assms(2)
    by (simp add: serveACMEChallenge_def GetCertificate_def wantsACMEALPN_def HasPrefix_def TrimPrefix_def)
qed

definition demo_challenge :: ACMEChallenge where
  "demo_challenge = \<lparr>ac_Type = ChallengeHTTP01, ac_Domain = ''a.io'', ac_Clear = False, ac_Token = ''t'', ac_Response = ''r'', ac_CertPEM = [], ac_KeyPEM = []\<rparr>"

theorem challenges_answered_witness:
  "serveACMEChallenge ''GET'' (ACMEHTTPPathPrefix @ ''t'') 7 (challenges_after (\<lambda>c k. None) [(5, demo_challenge)]) = Some ''r''"
  using challenges_answered [of 7 "[(5, demo_challenge)]" "''t''" "''a.io''" "\<lambda>c k. None" NewCertStore]
  by (simp add: expected_response_def about_token_def in_force_def demo_challenge_def challengeTTL_def ms_def)

end
