(* ===== verification/Tls_Entry.thy ===== *)
theory Tls_Entry
  imports Client_Hello Certificates Router_Properties
begin

text \<open>
  The port of the gateway that accepts TLS (\<open>internal/edge/sni_listener.go\<close>, \<open>doPassthrough\<close> in \<open>server.go\<close>). A connection waits in a slot until its first record is read; then it goes to the backend
  of a passthrough route as it came, or to TLS.
\<close>

section \<open>Slots\<close>

record sni_listener =
  sl_maxPending :: int
  sl_maxPendingPerSource :: int
  sl_pending :: int
  sl_bySource :: "(string, int) gomap"

definition maxPendingHellos :: int where "maxPendingHellos = 2048"
definition maxPendingPerSource :: int where "maxPendingPerSource = 32"

definition start_listener :: "int \<Rightarrow> int \<Rightarrow> sni_listener" where
  "start_listener limit perSource = \<lparr>sl_maxPending = limit, sl_maxPendingPerSource = perSource, sl_pending = 0, sl_bySource = []\<rparr>"

definition max_total :: "sni_listener \<Rightarrow> int" where
  "max_total l = (if sl_maxPending l \<le> 0 then maxPendingHellos else sl_maxPending l)"

definition max_source :: "sni_listener \<Rightarrow> int" where
  "max_source l = (if sl_maxPendingPerSource l \<le> 0 then maxPendingPerSource else sl_maxPendingPerSource l)"

definition listener_admit :: "string \<Rightarrow> sni_listener \<Rightarrow> bool \<times> sni_listener" where
  "listener_admit src l =
     (if max_total l \<le> sl_pending l \<or> max_source l \<le> gm_get0 (sl_bySource l) 0 src then (False, l)
      else (True, l\<lparr>sl_pending := sl_pending l + 1, sl_bySource := gm_set src (gm_get0 (sl_bySource l) 0 src + 1) (sl_bySource l)\<rparr>))"

definition listener_release :: "string \<Rightarrow> sni_listener \<Rightarrow> sni_listener" where
  "listener_release src l =
     l\<lparr>sl_pending := sl_pending l - 1,
       sl_bySource := (if gm_get0 (sl_bySource l) 0 src \<le> 1 then gm_del src (sl_bySource l)
                       else gm_set src (gm_get0 (sl_bySource l) 0 src - 1) (sl_bySource l))\<rparr>"

text \<open>An address that cannot be parsed is \<open>None\<close>; then its own text counts.\<close>

definition sourceKey :: "Addr option \<Rightarrow> string \<Rightarrow> string" where
  "sourceKey a txt =
     (case a of
        None \<Rightarrow> txt
      | Some a0 \<Rightarrow>
          (case Unmap a0 of
             V4 w \<Rightarrow> addr_String (V4 w, [])
           | V6 w \<Rightarrow> addr_String (masked_addr 64 (V6 w), []) @ ''/64''))"

section \<open>Connections\<close>

definition RejectTimeout :: string where "RejectTimeout = ''timeout''"
definition RejectBadClientHello :: string where "RejectBadClientHello = ''bad_clienthello''"
definition RejectNotTLS :: string where "RejectNotTLS = ''not_tls''"
definition RejectNoSNI :: string where "RejectNoSNI = ''no_sni''"
definition RejectIPLiteral :: string where "RejectIPLiteral = ''ip_literal''"
definition RejectUnknownSNI :: string where "RejectUnknownSNI = ''unknown_sni''"
definition RejectHandshake :: string where "RejectHandshake = ''handshake_failed''"

text \<open>
  What becomes of a connection: refused, handed to a route as it came, handed to TLS, with the bytes already read, or the end
  of the process, as nothing recovers from a panic in this goroutine.
\<close>

datatype entry =
    Refused string
  | ToBackend Route string
  | ToTLS string string
  | ProcessDies

definition hello :: "Table \<Rightarrow> bool \<Rightarrow> string \<Rightarrow> (string \<times> bool) list \<Rightarrow> entry" where
  "hello table timedOut spare reads =
     (case PeekSNI spare reads of
        PeekPanic \<Rightarrow> ProcessDies
      | PeekFailed buf \<Rightarrow> Refused (if timedOut then RejectTimeout else RejectBadClientHello)
      | TooLarge buf \<Rightarrow> Refused RejectBadClientHello
      | Peeked sni0 buf \<Rightarrow>
          (let sni = ToLower (TrimSpace sni0)
           in case PassthroughRoute table sni of Some route \<Rightarrow> ToBackend route buf | None \<Rightarrow> ToTLS sni buf))"

text \<open>The address the connection is passed on to, and what the backend receives before the rest of the connection.\<close>

definition trim_scheme :: "string \<Rightarrow> string" where
  "trim_scheme u = TrimPrefix (TrimPrefix u ''https://'') ''http://''"

definition doPassthrough :: "AddrPort \<Rightarrow> AddrPort \<Rightarrow> Route \<Rightarrow> string \<Rightarrow> (string \<times> string) option" where
  "doPassthrough remote here route buf =
     (case rt_Backends route of
        [] \<Rightarrow> None
      | b # bs \<Rightarrow>
          Some (trim_scheme (be_URL b),
                (if rt_ProxyProtocol route = ''v1'' \<or> rt_ProxyProtocol route = ''v2'' then Header (rt_ProxyProtocol route) remote here else []) @ buf))"

text \<open>The name of the certificate that serves a name, which stands for it in the metrics.\<close>

definition otherHostLabel :: string where "otherHostLabel = ''autre''"

definition hostLabel :: "CertStore \<Rightarrow> string \<Rightarrow> string" where
  "hostLabel certs sni = (case NameFor sni certs of Some name \<Rightarrow> name | None \<Rightarrow> otherHostLabel)"

text \<open>Why a handshake failed; \<open>parsed\<close> tells whether the first record was a ClientHello. Some reasons are reported as an unknown host.\<close>

definition handshakeFailure :: "CertStore \<Rightarrow> bool \<Rightarrow> string \<Rightarrow> string" where
  "handshakeFailure certs parsed sni =
     (if \<not> parsed then RejectNotTLS
      else if sni = [] then RejectNoSNI
      else if ParseAddr sni \<noteq> None then RejectIPLiteral
      else if hostLabel certs sni = otherHostLabel then RejectUnknownSNI
      else RejectHandshake)"

definition reports_unknown :: "string \<Rightarrow> bool" where
  "reports_unknown reason \<longleftrightarrow> reason \<in> {RejectNoSNI, RejectIPLiteral, RejectUnknownSNI, RejectNotTLS}"

lemma known_name_not_reported:
  assumes "NameFor sni certs = Some name" "name \<noteq> otherHostLabel" "sni \<noteq> []" "ParseAddr sni = None"
  shows "\<not> reports_unknown (handshakeFailure certs True sni)"
  using assms by (simp add: handshakeFailure_def hostLabel_def reports_unknown_def RejectHandshake_def RejectNoSNI_def RejectIPLiteral_def
      RejectUnknownSNI_def RejectNotTLS_def)

section \<open>Slots are bounded and come back\<close>

inductive listener_run :: "int \<Rightarrow> int \<Rightarrow> sni_listener \<Rightarrow> string list \<Rightarrow> bool" for limit perSource where
  start: "listener_run limit perSource (start_listener limit perSource) []"
| arrive: "listener_run limit perSource l flight \<Longrightarrow> listener_admit src l = (True, l') \<Longrightarrow> listener_run limit perSource l' (src # flight)"
| leave: "listener_run limit perSource l flight \<Longrightarrow> src \<in> set flight \<Longrightarrow>
    listener_run limit perSource (listener_release src l) (remove1 src flight)"

inductive_cases arrive_cases: "listener_run limit perSource l (src # flight)"

definition slots_ok :: "sni_listener \<Rightarrow> string list \<Rightarrow> bool" where
  "slots_ok l flight \<longleftrightarrow>
     sl_pending l = int (length flight) \<and> gm_ok (sl_bySource l)
     \<and> (\<forall>s. gm_get (sl_bySource l) s = (if s \<in> set flight then Some (int (count_list flight s)) else None))
     \<and> sl_pending l \<le> max_total l \<and> (\<forall>s. int (count_list flight s) \<le> max_source l)"

lemma slots_okD:
  assumes "slots_ok l flight"
  shows "sl_pending l = int (length flight)" "gm_ok (sl_bySource l)" "sl_pending l \<le> max_total l" "int (count_list flight s) \<le> max_source l"
    "gm_get (sl_bySource l) s = (if s \<in> set flight then Some (int (count_list flight s)) else None)"
    "gm_get0 (sl_bySource l) 0 s = int (count_list flight s)"
  using assms by (simp_all add: slots_ok_def gm_get0_def count_list_0_iff)

lemma max_pos: "0 \<le> max_total l" "0 \<le> max_source l"
  by (simp_all add: max_total_def max_source_def maxPendingHellos_def maxPendingPerSource_def)

lemma slots_start: "slots_ok (start_listener limit perSource) []"
  using max_pos [of "start_listener limit perSource"] by (simp add: slots_ok_def start_listener_def)

lemma admit_bounds:
  assumes "listener_admit src l = (True, l')"
  shows "sl_pending l < max_total l" "gm_get0 (sl_bySource l) 0 src < max_source l" "max_total l' = max_total l" "max_source l' = max_source l"
    "l' = l\<lparr>sl_pending := sl_pending l + 1, sl_bySource := gm_set src (gm_get0 (sl_bySource l) 0 src + 1) (sl_bySource l)\<rparr>"
  using assms by (auto simp: listener_admit_def max_total_def max_source_def split: if_splits)

lemma slots_arrive:
  assumes ok: "slots_ok l flight" and a: "listener_admit src l = (True, l')"
  shows "slots_ok l' (src # flight)"
proof -
  note d = slots_okD [OF ok] and b = admit_bounds [OF a]
  have get: "gm_get (sl_bySource l') s = (if s \<in> set (src # flight) then Some (int (count_list (src # flight) s)) else None)" for s
    using d(5) [of s] d(6) [of src] by (simp add: b(5))
  have one: "int (count_list (src # flight) s) \<le> max_source l'" for s
    using d(4) [of s] b(2) d(6) [of src] unfolding b(4) by (cases "src = s") simp_all
  have total: "sl_pending l' = int (length (src # flight))" "sl_pending l' \<le> max_total l'" "gm_ok (sl_bySource l')"
    using d(1,2) b(1) unfolding b(3) by (simp_all add: b(5))
  show ?thesis unfolding slots_ok_def using get one total by blast
qed

lemma slots_leave:
  assumes ok: "slots_ok l flight" and src: "src \<in> set flight"
  shows "slots_ok (listener_release src l) (remove1 src flight)"
proof -
  note d = slots_okD [OF ok]
  let ?l = "listener_release src l" and ?f = "remove1 src flight"
  have bounds: "max_total ?l = max_total l" "max_source ?l = max_source l" by (simp_all add: listener_release_def max_total_def max_source_def)
  have mem: "s \<in> set ?f \<longleftrightarrow> 0 < int (count_list flight s) - of_bool (src = s)" for s
    using count_remove1 [OF src, of s] by (metis count_list_0_iff of_nat_0_less_iff gr0I neq0_conv)
  have pos: "0 < int (count_list flight s) \<longleftrightarrow> s \<in> set flight" for s by (metis count_list_0_iff of_nat_0_less_iff neq0_conv)
  have get: "gm_get (sl_bySource ?l) s = (if s \<in> set ?f then Some (int (count_list ?f s)) else None)" for s
    unfolding mem count_remove1 [OF src]
    using d(5) [of s] d(6) [of src] pos [of s] pos [of src] src by (cases "s = src") (auto simp: listener_release_def)
  have one: "int (count_list ?f s) \<le> max_source ?l" for s
    using d(4) [of s] unfolding bounds count_remove1 [OF src] by (cases "s = src") simp_all
  have "sl_pending ?l = int (length flight) - 1" "0 < length flight" using d(1) src by (auto simp: listener_release_def)
  then have total: "sl_pending ?l = int (length ?f)" by (simp add: length_remove1 src of_nat_diff Suc_leI)
  have "sl_pending ?l \<le> max_total ?l" using d(1,3) unfolding bounds by (simp add: listener_release_def)
  moreover have "gm_ok (sl_bySource ?l)" using d(2) by (simp add: listener_release_def)
  ultimately show ?thesis unfolding slots_ok_def using get one total by blast
qed

lemma run_slots: "listener_run limit perSource l flight \<Longrightarrow> slots_ok l flight"
  by (induction rule: listener_run.induct) (auto intro: slots_start slots_arrive slots_leave)

lemma run_limits: "listener_run limit perSource l flight \<Longrightarrow> sl_maxPending l = limit \<and> sl_maxPendingPerSource l = perSource"
  by (induction rule: listener_run.induct) (auto simp: start_listener_def listener_admit_def listener_release_def split: if_splits)

section \<open>From the record to the route\<close>

lemma hello_stream:
  assumes reads: "list_all (\<lambda>(b, failed). \<not> failed) reads" and stream: "concat (map fst reads) = hello_record version c es @ later"
    and fits: "hello_fits version c es"
  shows "\<exists>buf rest. buf @ rest = concat (map fst reads) \<and> hello table timedOut spare reads =
    (let sni = ToLower (TrimSpace (case find (\<lambda>e. fst e = 0) es of None \<Rightarrow> [] | Some e \<Rightarrow> parseSNIExtension (snd e)))
     in case PassthroughRoute table sni of Some route \<Rightarrow> ToBackend route buf | None \<Rightarrow> ToTLS sni buf)"
proof -
  have v: "length version = 2" "length (render_record version (render_handshake (render_body c es))) \<le> maxClientHelloRecord"
    using fits by (simp_all add: hello_fits_def hello_record_def)
  obtain buf beyond rest where b: "buf @ rest = concat (map fst reads)"
      "PeekSNI spare reads = (case extractSNI (hello_record version c es) beyond of None \<Rightarrow> PeekPanic | Some sni \<Rightarrow> Peeked sni buf)"
    using peek_stream [OF reads stream [unfolded hello_record_def] v, of spare] unfolding hello_record_def by blast
  then show ?thesis by (intro exI [of _ buf] exI [of _ rest]) (simp add: hello_def extractSNI_hello [OF fits])
qed

lemma named_hello:
  assumes "list_all (\<lambda>(b, failed). \<not> failed) reads" "concat (map fst reads) = hello_record version c es @ later" "hello_fits version c es"
    and "find (\<lambda>e. fst e = 0) es = Some (server_name n)" "length n + 3 < 65536"
  shows "\<exists>buf rest. buf @ rest = concat (map fst reads) \<and> hello table timedOut spare reads =
    (case PassthroughRoute table (ToLower (TrimSpace n)) of Some route \<Rightarrow> ToBackend route buf | None \<Rightarrow> ToTLS (ToLower (TrimSpace n)) buf)"
  using hello_stream [OF assms(1-3), of table timedOut spare] by (simp add: assms(4) sni_extension [OF assms(5)] Let_def)

text \<open>A hello whose extensions are announced longer than the message that holds them stops the gateway.\<close>

lemma announced_panics:
  assumes "fixed_fits c" "length version = 2" "4 \<le> extLen" "extLen < 65536" "length rest < 4"
    and "length (render_record version (render_handshake (render_raw c extLen rest))) \<le> maxClientHelloRecord"
  shows "hello table timedOut spare [(render_record version (render_handshake (render_raw c extLen rest)), False)] = ProcessDies"
proof -
  let ?b = "render_raw c extLen rest"
  have "length ?b < 65532" using assms(2,6) by (simp add: render_record_def render_handshake_def maxClientHelloRecord_def)
  then have e: "extractSNI (render_record version (render_handshake ?b)) beyond = client_hello_sni ?b beyond" for beyond
    by (rule extractSNI_record [OF assms(2)])
  have long: "length rest \<le> length ?b" by (simp add: render_raw_def)
  have "client_hello_sni ?b beyond = None" for beyond
    unfolding client_hello_raw [OF assms(1,4)] by (rule ext_loop_panics) (use assms(3,5) long in simp_all)
  moreover obtain buf beyond where "PeekSNI spare [(render_record version (render_handshake ?b), False)] =
      (case extractSNI (render_record version (render_handshake ?b)) beyond of None \<Rightarrow> PeekPanic | Some sni \<Rightarrow> Peeked sni buf)"
    using peek_stream [of "[(render_record version (render_handshake ?b), False)]" version "render_handshake ?b" "[]" spare] assms(2,6) by auto
  ultimately show ?thesis by (simp add: hello_def e)
qed

lemma panic_cause:
  assumes "client_hello_sni body beyond = None"
  shows "\<exists>pos extLen. u16_at body pos = Some extLen \<and> length body < pos + 2 + extLen"
proof (rule ccontr)
  assume "\<nexists>pos extLen. u16_at body pos = Some extLen \<and> length body < pos + 2 + extLen"
  then have fits: "u16_at body pos = Some extLen \<Longrightarrow> pos + 2 + extLen \<le> length body" for pos extLen by (meson leI)
  have b: "i < length body \<Longrightarrow> \<exists>v. byte_at body i = Some v" for i by (simp add: byte_at_def)
  have u: "i + 1 < length body \<Longrightarrow> \<exists>v. u16_at body i = Some v" for i by (simp add: u16_at_def byte_at_def)
  have "client_hello_sni body beyond \<noteq> None"
  proof (cases "length body < 35")
    case False
    then obtain sid where sid: "byte_at body 34 = Some sid" using b [of 34] by auto
    show ?thesis
    proof (cases "length body < 37 + sid")
      case True
      then show ?thesis using False sid by (simp add: client_hello_sni_def Let_def)
    next
      case False': False
      then obtain cs where cs: "u16_at body (35 + sid) = Some cs" using u [of "35 + sid"] by auto
      then have "37 + sid + cs \<le> length body" using fits [OF cs] by simp
      show ?thesis
      proof (cases "length body < 38 + sid + cs")
        case True
        then show ?thesis using False False' sid cs by (simp add: client_hello_sni_def Let_def)
      next
        case F2: False
        then obtain comp where comp: "byte_at body (37 + sid + cs) = Some comp" using b [of "37 + sid + cs"] by auto
        show ?thesis
        proof (cases "length body < 40 + sid + cs + comp")
          case True
          then show ?thesis using False False' F2 sid cs comp by (simp add: client_hello_sni_def Let_def)
        next
          case F3: False
          then obtain extLen where ext: "u16_at body (38 + sid + cs + comp) = Some extLen" using u [of "38 + sid + cs + comp"] by auto
          have "client_hello_sni body beyond = ext_loop body beyond (40 + sid + cs + comp + extLen) (40 + sid + cs + comp)"
            using False False' F2 F3 sid cs comp ext by (simp add: client_hello_sni_def Let_def add.commute add.left_commute)
          moreover have "40 + sid + cs + comp + extLen \<le> length body" using fits [OF ext] by simp
          ultimately show ?thesis using ext_loop_total by metis
        qed
      qed
    qed
  qed (simp add: client_hello_sni_def)
  then show False using assms by simp
qed

section \<open>Properties\<close>

text \<open>
  C0: However its bytes arrive, a connection whose ClientHello asks for a name is handed over untouched to the passthrough route of that
  name when there is one, and to TLS under that name when there is none: what was read and what is still to come are the bytes the
  client sent. The whole hello fits one record of sixteen kilobytes, and its lengths are those of its parts.
\<close>

theorem passthrough_by_name:
  assumes "list_all (\<lambda>(b, failed). \<not> failed) reads" "concat (map fst reads) = hello_record version c es @ later" "hello_fits version c es"
    and "find (\<lambda>e. fst e = 0) es = Some (server_name n)" "length n + 3 < 65536"
  shows "\<exists>buf rest. buf @ rest = concat (map fst reads) \<and> hello table timedOut spare reads =
    (case PassthroughRoute table (ToLower (TrimSpace n)) of Some route \<Rightarrow> ToBackend route buf | None \<Rightarrow> ToTLS (ToLower (TrimSpace n)) buf)"
  by (rule named_hello [OF assms])

definition plain_hello :: client_hello where
  "plain_hello = \<lparr>ch_Version = [CHR 0x03, CHR 0x03], ch_Random = replicate 32 CHR 0x07, ch_Session = [], ch_Ciphers = [CHR 0x13, CHR 0x01],
     ch_Compression = [CHR 0x00]\<rparr>"

definition direct_route :: Route where
  "direct_route = zero_route\<lparr>rt_ID := ''d'', rt_Host := ''a.io'', rt_TLSPassthrough := True\<rparr>"

lemma plain_fits: "hello_fits [CHR 0x03, CHR 0x01] plain_hello [(43, [CHR 0x02, CHR 0x03, CHR 0x04]), server_name ''A.io'']"
  by (simp add: hello_fits_def fixed_fits_def plain_hello_def hello_record_def render_record_def render_handshake_def render_body_def render_raw_def
      render_extensions_def render_extension_def server_name_def maxClientHelloRecord_def)

theorem passthrough_by_name_witness:
  "\<exists>buf rest. buf @ rest = hello_record [CHR 0x03, CHR 0x01] plain_hello [(43, [CHR 0x02, CHR 0x03, CHR 0x04]), server_name ''A.io''] @ ''more''
    \<and> hello (Upsert direct_route zero_table) False []
        (map (\<lambda>b. ([b], False)) (hello_record [CHR 0x03, CHR 0x01] plain_hello [(43, [CHR 0x02, CHR 0x03, CHR 0x04]), server_name ''A.io''] @ ''more''))
      = ToBackend direct_route buf"
proof -
  let ?es = "[(43, [CHR 0x02, CHR 0x03, CHR 0x04]), server_name ''A.io'']"
  let ?stream = "hello_record [CHR 0x03, CHR 0x01] plain_hello ?es @ ''more''"
  have "list_all (\<lambda>(b, failed). \<not> failed) (map (\<lambda>b. ([b], False)) ?stream)" by (simp add: list_all_iff)
  moreover have bytes: "concat (map fst (map (\<lambda>b. ([b], False)) ?stream)) = ?stream" by (simp add: comp_def concat_map_singleton)
  moreover have "find (\<lambda>e. fst e = 0) ?es = Some (server_name ''A.io'')" "length ''A.io'' + 3 < 65536" by (simp_all add: server_name_def)
  ultimately have "\<exists>buf rest. buf @ rest = concat (map fst (map (\<lambda>b. ([b], False)) ?stream)) \<and>
      hello (Upsert direct_route zero_table) False [] (map (\<lambda>b. ([b], False)) ?stream) =
      (case PassthroughRoute (Upsert direct_route zero_table) (ToLower (TrimSpace ''A.io'')) of
         Some route \<Rightarrow> ToBackend route buf | None \<Rightarrow> ToTLS (ToLower (TrimSpace ''A.io'')) buf)"
    by (intro passthrough_by_name [OF _ _ plain_fits])
  moreover have "PassthroughRoute (Upsert direct_route zero_table) (ToLower (TrimSpace ''A.io'')) = Some direct_route"
    unfolding lower_case by (simp add: direct_route_def demo_eval PassthroughRoute_def passthrough_only_def)
  ultimately show ?thesis unfolding bytes by simp
qed

text \<open>
  C0: Over any arrivals and departures, each connection whose first record is awaited has one slot: the counters are the numbers of waiting
  connections, in total and per source, they stay within the limits, and nothing is left of them when no connection waits.
\<close>

theorem slots_bounded:
  assumes "listener_run limit perSource l flight"
  shows "sl_pending l = int (length flight) \<and> int (length flight) \<le> max_total l \<and> int (count_list flight s) \<le> max_source l
    \<and> gm_get0 (sl_bySource l) 0 s = int (count_list flight s) \<and> (gm_get (sl_bySource l) s = None \<longleftrightarrow> s \<notin> set flight)
    \<and> sl_maxPending l = limit \<and> sl_maxPendingPerSource l = perSource"
proof -
  note d = slots_okD [OF run_slots [OF assms]]
  show ?thesis using d(1,3) d(4) [of s] d(5) [of s] d(6) [of s] run_limits [OF assms] by simp
qed

theorem slots_bounded_witness:
  "sl_pending (snd (listener_admit ''x'' (start_listener 0 1))) = 1
   \<and> fst (listener_admit ''x'' (snd (listener_admit ''x'' (start_listener 0 1)))) = False"
proof -
  obtain l where l: "listener_admit ''x'' (start_listener 0 1) = (True, l)"
    by (simp add: listener_admit_def start_listener_def max_total_def max_source_def maxPendingHellos_def gm_get0_def)
  note run = listener_run.arrive [OF listener_run.start l]
  have "sl_pending l = 1" "gm_get0 (sl_bySource l) 0 ''x'' = 1" "sl_maxPendingPerSource l = 1" using slots_bounded [OF run, of "''x''"] by simp_all
  then show ?thesis using l by (simp add: listener_admit_def [of "''x''" l] max_source_def)
qed

end
