(* ===== verification/Spec2Isabelle.thy ===== *)
theory Spec2Isabelle
  imports Raft_Election Router_Properties Address_Stores Location Resolve Rewrite Proxy_Protocol Traffic_Limits Path_Match Architecture_Properties Rights_Properties Gateway_Scopes Accounts_Revocation Dispatch_Properties Proxy_Promotion Rejection_Log Tls_Entry
begin

text \<open>
  Verification of the GoProxify gateway.

  \<^bold>\<open>The program.\<close> GoProxify is a reverse proxy. A gateway (\<open>internal/edge\<close>) holds a routing table, accepts
  connections (possibly behind another proxy, with the PROXY protocol), finds the route of a request by host
  and location, lets it pass a chain of middlewares (bans, address profiles, rate limits, quotas, limits of
  connections, backpressure), and gives it to the handler of the route, which chooses a backend by load
  balancing, health, circuit breaker, split and canary rules, tries further backends after a failure or hedges
  slow ones, and rewrites headers and cookies. Several gateways form a group: they agree by Raft
  (\<open>internal/edge/raft\<close>) and tell each other their rates and quota counts, and pull each other's proxies. An
  administration server (\<open>internal/admin\<close>) with accounts, teams and rights, agents (\<open>internal/agent\<close>) and a command line
  configure the gateways: a revision of a proxy is checked by a dry run, promoted into a file of the gateway and applied to
  its table.

  \<^bold>\<open>Theories and code.\<close> Names of definitions are those of the source; a prefix is added where Go uses
  one name in several packages.
  \<^item> \<open>Prelude\<close>, \<open>Gostrings\<close>, \<open>Netip\<close>: what the code uses of Go: maps as association lists with
    distinct keys (the interface \<open>keyed_store\<close>), instants and durations as integers of nanoseconds
    with the saturation of \<open>Time.Sub\<close>, wrap-around of 64-bit integers, strings, \<open>net/netip\<close> addresses
    and prefixes with their parsers.
  \<^item> \<open>Route\<close>: every structure of \<open>router/route.go\<close>, field by field.
  \<^item> \<open>Router_Table\<close>, \<open>Router_Invariant\<close>, \<open>Router_Properties\<close>: \<open>router/table.go\<close>. The state is the
    record of the four indexes; each operation is one definition. Shown: the invariant of all reachable tables,
    what \<open>ByHost\<close> answers, hand-over on deletion, and that \<open>Replace\<close> is all or nothing.
  \<^item> \<open>Prefix_Index\<close>, \<open>Address_Stores\<close>: \<open>router/prefix_index.go\<close>, \<open>ban_store.go\<close>,
    \<open>ip_profile_store.go\<close>. The index is equivalent to a linear search (interface \<open>first_match_index\<close>),
    and so are the two stores built on it.
  \<^item> \<open>Location\<close>, \<open>Resolve\<close>: \<open>router/location.go\<close>, \<open>resolve.go\<close>, \<open>snippet.go\<close>,
    \<open>authprovider.go\<close>: choice of a location, merging of snippets, refusal of routes whose protection cannot be
    resolved (interface \<open>named_store\<close>).
  \<^item> \<open>Balancer\<close>, \<open>Circuit_Breaker\<close>, \<open>Backend_Health\<close>, \<open>Failover\<close>, \<open>Hedge\<close>, \<open>Dispatch\<close>,
    \<open>Rewrite\<close>: \<open>proxy/balancer.go\<close>, \<open>circuitbreaker\<close>, \<open>split.go\<close>, \<open>healthcheck.go\<close>,
    \<open>hedge.go\<close> and \<open>handler.go\<close>. Every balancer is a \<open>backend_chooser\<close>, an interface whose laws
    (a configured backend is chosen, the invariant is kept) are inherited by the wrappers; \<open>Dispatch\<close>
    composes all of them into \<open>ServeHTTP\<close> and shows that no other address is ever contacted. \<open>Hedge\<close>
    has the concurrent attempts as interleaved events.
  \<^item> \<open>Proxy_Protocol\<close>: \<open>proxyproto/proxyproto.go\<close>: reader and writer of both versions, with round trips,
    and the trust decision.
  \<^item> \<open>Rate_Limit\<close>, \<open>Traffic_Limits\<close>: \<open>middleware/ratelimit.go\<close>, \<open>ratelimit_shared.go\<close>, \<open>quota.go\<close>,
    \<open>limitconn.go\<close>, \<open>backpressure.go\<close>: the bounds they promise, over all sequences of requests,
    announcements and purges; a merge of announcements is a join.
  \<^item> \<open>Client_Address\<close>, \<open>Cookies\<close>, \<open>Bot_Challenge\<close>, \<open>Bot_Proofs\<close>: \<open>edge/logger/accesslog.go\<close> (\<open>RealIP\<close>),
    \<open>trustedproxies.go\<close>, \<open>middleware/bot.go\<close>, \<open>botchallenge.go\<close>, \<open>gatewaychallenge.go\<close> and the cookies of \<open>net/http\<close>.
    Shown: behind proxies that append, the client does not choose its address; stripping a cookie leaves the others; a proof is
    good for one client until it expires; a browser that solves the challenge passes.
  \<^item> \<open>Gateway_Dispatch\<close>, \<open>Dispatch_Cache\<close>, \<open>Dispatch_Properties\<close>: \<open>edge/dispatch.go\<close>, \<open>dispatch_stages.go\<close>,
    \<open>middleware/detector_exec.go\<close>. The state is the gateway with its stores and the cache of handlers. The checks before
    routing, the choice of the route and its location, the chain of stages, over the components above. Shown, over runs of
    requests and changes: a request is served by the handler of the current configuration; listed addresses are refused; no
    route is served without the protection it names; the stages stand in one order.
  \<^item> \<open>Proxy_Store\<close>, \<open>Proxy_Pipeline\<close>, \<open>Proxy_Store_Properties\<close>, \<open>Proxy_Group\<close>, \<open>Proxy_Promotion\<close>: \<open>edge/proxystore\<close>,
    \<open>edge/proxypipeline\<close>, \<open>proxyfiles.go\<close>, \<open>proxy_replica.go\<close>. A directory is a map from names of files to envelopes;
    it refines a map from identifiers to envelopes as long as proxies have different files, and every operation its update or removal.
    On that, promotion and the exchange between gateways are shown to do what they should, and two gateways to converge. Where
    the names of files are not apart the lemmas \<open>wildcard_replaces_apex\<close>, \<open>delete_removes_neighbour\<close> and \<open>same_host_swaps\<close> say what happens.
  \<^item> \<open>Path_Match\<close>, \<open>Perimeter\<close>, \<open>Gateway_Scopes\<close>: \<open>path.Match\<close>, \<open>admin/rbac/perimeter.go\<close>, \<open>rbac.go\<close>,
    \<open>ensure_domain_scope.go\<close>, \<open>engine.go\<close>: perimeters and which routes and certificates a gateway receives.
  \<^item> \<open>Architecture\<close>, \<open>Architecture_Properties\<close>: \<open>admin/archstore\<close>: the file of nodes and groups with its versions, recovery from the
    cards gateways keep. Shown: identifiers and names stay unique, restrictions survive, recovery is complete and idempotent.
  \<^item> \<open>Rights_Catalog\<close>, \<open>Rbac\<close>, \<open>Rbac_Guards\<close>, \<open>Rbac_Properties\<close>, \<open>Rights_Gate\<close>, \<open>Rights_Properties\<close>:
    \<open>admin/rbac\<close>, \<open>admin/rights.go\<close>, \<open>rights_gate.go\<close> and the routes of \<open>admin/server.go\<close>: the catalogue, the engine
    that decides, scopes of tokens and the guard of every route.
  \<^item> \<open>Accounts\<close>, \<open>Accounts_Properties\<close>, \<open>Accounts_Revocation\<close>: \<open>admin/api/users.go\<close>, \<open>teams.go\<close>, \<open>me.go\<close>,
    \<open>user_tokens.go\<close>, \<open>admin/auth\<close>: handlers that write accounts, teams and tokens, and authentication. Shown over all
    sequences of requests: protected accounts stand, revoked sessions and tokens are refused.
  \<^item> \<open>Raft\<close>, \<open>Raft_Node\<close>, \<open>Raft_Replication\<close>, \<open>Raft_Election\<close>: \<open>raft/raft.go\<close>, \<open>types.go\<close>: a
    node as a record, its handlers as functions, its runs and those of a cluster as inductive step relations.
    Shown: well-formedness of every reachable node, permanence of committed entries, replication of
    the log of the leader, refinement of an abstract voter, and at most one leader per term.

  \<^bold>\<open>Assumptions and bounds.\<close> Operations that run under one mutex are one step; the interleavings of the
  others are explicit. One instant stands for the instants read while one request is handled. Floating-point
  rates, scores and shares are rationals, random draws are arguments, pointers that are only compared are
  compared by value. Weights of backends satisfy \<open>weights_fit\<close> or \<open>weights_sane\<close>, which exclude overflow of their
  sum. Case folding and field splitting are those of ASCII. JSON decoders, regular expressions, the exchange
  with a backend and GeoIP answers are parameters; so are SHA-256, HMAC (ideal in \<open>Bot_Proofs\<close>: no collisions on what the code
  signs), password hashes, session tokens, captcha providers, parsing of durations and URLs, the answers of the detection engine and of
  the validators of single blocks. SQL tables are records of lists and maps, a failing query or write of the architecture is a flag; the
  files of proxies are decoded, and reading and writing them does not fail. Instants of versions and deletions of a proxy do not tie in
  \<open>group_converges\<close>. No definition needs fuel: every loop of the modelled code
  is a structural recursion or has a proved measure.

  \<^bold>\<open>Not modelled.\<close> The handlers of the administration server around the parts above, its user interface, the MCP server,
  links with gateways, automation, backup, import, agents, launcher, command line, portal, authentication of visitors, TLS and ACME, the web
  application firewall, what the detection engine computes, streams, plugins, logging and metrics: code that mostly moves
  data between HTTP, SQL, files and other programs, or rests on third-party libraries. In the modelled files, network
  exchanges, timers, goroutine start-up, metrics and log lines are left out. What a stage of the chain does to a request is a
  parameter of \<open>wrapStages\<close>; the limits, the bot challenge and the backends have their own theories.
\<close>

end
